(* ===== verification/Numbers.thy ===== *)
theory Numbers
  imports Prelude
begin

text \<open>
  The numeric built-ins that the lexer and the range checks use: \<open>int(str)\<close>, \<open>float(str)\<close> and
  \<open>float(int)\<close>. A float is a binary64 value, given by its mantissa and binary exponent; the
  conversions round to nearest, ties to even, as CPython's do. Only non-negative values occur
  (the query language has no sign).
\<close>

section \<open>Decimal text\<close>

definition digit_val :: "char \<Rightarrow> nat" where
  "digit_val c = ord c - 48"

definition decimal_val :: "string \<Rightarrow> nat" where
  "decimal_val s = foldl (\<lambda>n c. 10 * n + digit_val c) 0 s"

text \<open>
  \<open>int(s)\<close> on a non-empty run of \<open>isdigit\<close> characters: \<open>None\<close> is the \<open>ValueError\<close> for a
  superscript digit, or for more than 4300 digits (the interpreter's default limit).
\<close>

definition py_int :: "string \<Rightarrow> int option" where
  "py_int s = (if list_all is_decimal s \<and> length s \<le> 4300 then Some (int (decimal_val s)) else None)"

text \<open>The decimal digits of a number spell it, as \<open>str(n)\<close> writes it.\<close>

function nat_digits :: "nat \<Rightarrow> string" where
  "nat_digits n =
     (if n < 10 then [char_of (48 + n)] else nat_digits (n div 10) @ [char_of (48 + n mod 10)])"
  by pat_completeness auto
termination by (relation "measure id") auto

declare nat_digits.simps [simp del]

lemma digit_char: "k < 10 \<Longrightarrow> is_decimal (char_of (48 + k)) \<and> digit_val (char_of (48 + k)) = k"
  by (simp add: is_decimal_def digit_val_def)

lemma nat_digits_spell:
  "nat_digits n \<noteq> [] \<and> list_all is_decimal (nat_digits n) \<and> decimal_val (nat_digits n) = n"
proof (induction n rule: nat_digits.induct)
  case (1 n)
  show ?case
  proof (cases "n < 10")
    case True
    then show ?thesis
      using digit_char [of n] by (subst (1 2 3) nat_digits.simps) (simp add: decimal_val_def)
  next
    case False
    then show ?thesis
      using 1 digit_char [of "n mod 10"] by (subst (1 2 3) nat_digits.simps) (simp add: decimal_val_def)
  qed
qed

text \<open>\<open>str(n)\<close> of an \<open>int\<close>.\<close>

definition show_int :: "int \<Rightarrow> string" where
  "show_int n = (if n < 0 then CHR ''-'' # nat_digits (nat (- n)) else nat_digits (nat n))"

section \<open>Binary64 values\<close>

datatype pyfloat = PFin nat int | PInf

fun bitlen :: "nat \<Rightarrow> nat" where
  "bitlen n = (if n = 0 then 0 else Suc (bitlen (n div 2)))"

declare bitlen.simps [simp del]

definition scale2 :: "nat \<Rightarrow> int \<Rightarrow> nat" where
  "scale2 m e = m * 2 ^ nat e"

text \<open>\<open>n / d \<ge> 2 ^ e\<close> on natural numbers.\<close>

definition ratio_ge_pow2 :: "nat \<Rightarrow> nat \<Rightarrow> int \<Rightarrow> bool" where
  "ratio_ge_pow2 n d e \<longleftrightarrow> scale2 d e \<le> scale2 n (- e)"

definition round_half_even :: "nat \<Rightarrow> nat \<Rightarrow> nat" where
  "round_half_even n d =
     (let q = n div d; r = n mod d
      in if 2 * r < d then q else if d < 2 * r then Suc q else if even q then q else Suc q)"

definition round_binary64 :: "nat \<Rightarrow> nat \<Rightarrow> pyfloat" where
  "round_binary64 n d =
     (if n = 0 then PFin 0 0 else
      let e0 = int (bitlen n) - int (bitlen d) - 53;
          e = max (- 1074) (if ratio_ge_pow2 n d (e0 + 53) then e0 + 1 else e0);
          m = round_half_even (scale2 n (- e)) (scale2 d e);
          (m', e') = (if m = 2 ^ 53 then (2 ^ 52, e + 1) else (m, e))
      in if 971 < e' then PInf else PFin m' e')"

text \<open>
  \<open>float(s)\<close> for \<open>s\<close> of the form digits, dot, digits: \<open>None\<close> is the \<open>ValueError\<close> for a
  superscript digit. A value that is too large is infinity.
\<close>

definition py_float_of_str :: "string \<Rightarrow> string \<Rightarrow> pyfloat option" where
  "py_float_of_str ip fp =
     (if list_all is_decimal (ip @ fp)
      then Some (round_binary64 (decimal_val (ip @ fp)) (10 ^ length fp)) else None)"

text \<open>\<open>float(n)\<close> for an \<open>int\<close>: \<open>None\<close> is the \<open>OverflowError\<close>.\<close>

definition py_float_of_int :: "int \<Rightarrow> pyfloat option" where
  "py_float_of_int n = (case round_binary64 (nat n) 1 of PInf \<Rightarrow> None | x \<Rightarrow> Some x)"

fun pyfloat_le :: "pyfloat \<Rightarrow> pyfloat \<Rightarrow> bool" where
  "pyfloat_le x PInf = True"
| "pyfloat_le PInf (PFin m e) = False"
| "pyfloat_le (PFin m e) (PFin m' e') =
     (let k = min e e' in scale2 m (e - k) \<le> scale2 m' (e' - k))"

definition pyfloat_gt :: "pyfloat \<Rightarrow> pyfloat \<Rightarrow> bool" where
  "pyfloat_gt x y \<longleftrightarrow> \<not> pyfloat_le x y"

section \<open>Exactness below two to the fifty-third\<close>

lemma bitlen_bounds: "0 < n \<Longrightarrow> 2 ^ (bitlen n - 1) \<le> n \<and> n < 2 ^ bitlen n \<and> 0 < bitlen n"
proof (induction n rule: bitlen.induct)
  case (1 n)
  show ?case
  proof (cases "n div 2 = 0")
    case True
    with "1.prems" have "n = 1" by auto
    then show ?thesis by (simp add: bitlen.simps [of "Suc 0"] bitlen.simps [of 0])
  next
    case False
    let ?k = "bitlen (n div 2)"
    from "1.IH" "1.prems" False
    have ih: "2 ^ (?k - 1) \<le> n div 2" "n div 2 < 2 ^ ?k" "0 < ?k" by auto
    have "(2::nat) ^ ?k = 2 * 2 ^ (?k - 1)"
      using ih(3) by (cases ?k) auto
    with ih(1) have "2 ^ ?k \<le> 2 * (n div 2)" by simp
    also have "\<dots> \<le> n" by simp
    finally have "2 ^ ?k \<le> n" .
    moreover have "n < 2 ^ Suc ?k" using ih(2) by simp
    moreover have "bitlen n = Suc ?k"
      using "1.prems" by (subst bitlen.simps) simp
    ultimately show ?thesis by simp
  qed
qed

lemma round_half_even_exact: "0 < d \<Longrightarrow> round_half_even (k * d) d = k"
  by (simp add: round_half_even_def)

lemma bitlen_1 [simp]: "bitlen (Suc 0) = 1" "bitlen 1 = 1"
  by (simp_all add: bitlen.simps)

text \<open>
  A whole number below \<open>2 ^ 53\<close> keeps its value: its binary64 representation is
  \<open>n * 2 ^ (53 - bitlen n)\<close> with exponent \<open>bitlen n - 53\<close>.
\<close>

lemma round_binary64_small:
  assumes n: "0 < n" "n < 2 ^ 53"
  shows "round_binary64 n 1 = PFin (n * 2 ^ (53 - bitlen n)) (int (bitlen n) - 53)"
proof -
  let ?b = "bitlen n"
  have b: "2 ^ (?b - 1) \<le> n" "n < 2 ^ ?b" "0 < ?b"
    using bitlen_bounds [OF n(1)] by auto
  have b53: "?b \<le> 53"
  proof (rule ccontr)
    assume "\<not> ?b \<le> 53"
    then have "(2::nat) ^ 53 \<le> 2 ^ (?b - 1)" by (intro power_increasing) auto
    with b(1) n(2) show False by simp
  qed
  define e0 where "e0 = int ?b - int (bitlen 1) - 53"
  have e0: "e0 = int ?b - 54" by (simp add: e0_def)
  have ge: "ratio_ge_pow2 n 1 (e0 + 53)"
  proof -
    have "nat (e0 + 53) = ?b - 1" "nat (- (e0 + 53)) = 0" using b(3) by (auto simp: e0)
    then show ?thesis using b(1) by (simp add: ratio_ge_pow2_def scale2_def)
  qed
  define e where "e = max (- 1074) (if ratio_ge_pow2 n 1 (e0 + 53) then e0 + 1 else e0)"
  have e: "e = int ?b - 53" using ge by (simp add: e_def e0)
  have nm: "nat (- e) = 53 - ?b" "nat e = 0" using b53 by (auto simp: e)
  define m where "m = round_half_even (scale2 n (- e)) (scale2 1 e)"
  have m: "m = n * 2 ^ (53 - ?b)"
    using round_half_even_exact [of 1 "n * 2 ^ (53 - ?b)"] nm by (simp add: m_def scale2_def)
  have "m < 2 ^ 53"
  proof -
    have "n * 2 ^ (53 - ?b) < 2 ^ ?b * 2 ^ (53 - ?b)" using b(2) by simp
    also have "\<dots> = 2 ^ 53" using b53 by (simp flip: power_add)
    finally show ?thesis by (simp only: m)
  qed
  then have "m \<noteq> 2 ^ 53" by simp
  moreover have "\<not> 971 < e" using b53 by (simp add: e)
  ultimately have "round_binary64 n 1 = PFin m e"
    using n(1) unfolding round_binary64_def Let_def e0_def [symmetric] e_def [symmetric] m_def [symmetric]
    by simp
  then show ?thesis by (simp add: m e)
qed

lemma py_float_of_int_small:
  assumes "0 \<le> n" "n < 2 ^ 53"
  shows "py_float_of_int n =
    Some (if n = 0 then PFin 0 0
          else PFin (nat n * 2 ^ (53 - bitlen (nat n))) (int (bitlen (nat n)) - 53))"
proof (cases "n = 0")
  case True
  then show ?thesis by (simp add: py_float_of_int_def round_binary64_def)
next
  case False
  have "nat n < 2 ^ 53" using assms by (simp add: nat_less_iff)
  with False assms round_binary64_small [of "nat n"] show ?thesis
    by (simp add: py_float_of_int_def)
qed

text \<open>Comparing two values with the exponents \<open>a - 53\<close> and \<open>b - 53\<close> and integer mantissas.\<close>

lemma pyfloat_le_small:
  assumes "0 \<le> a" "a < 2 ^ 53" "0 \<le> b" "b < 2 ^ 53"
    and "py_float_of_int a = Some x" and "py_float_of_int b = Some y"
  shows "pyfloat_le x y \<longleftrightarrow> a \<le> b"
proof -
  have bl: "bitlen (nat k) \<le> 53" if "0 < k" "k < 2 ^ 53" for k :: int
  proof (rule ccontr)
    assume "\<not> bitlen (nat k) \<le> 53"
    then have "(2::nat) ^ 53 \<le> 2 ^ (bitlen (nat k) - 1)" by (intro power_increasing) auto
    also have "\<dots> \<le> nat k" using bitlen_bounds [of "nat k"] that by simp
    finally show False using that by (simp add: le_nat_iff)
  qed
  have key: "scale2 (nat k * 2 ^ (53 - p)) (int p - 53 - z) = nat k * 2 ^ nat (- z)"
    if "p \<le> 53" "z \<le> int p - 53" for k p z
  proof -
    have "53 - p + nat (int p - 53 - z) = nat (- z)" using that by auto
    then show ?thesis
      by (simp add: scale2_def mult.assoc flip: power_add)
  qed
  show ?thesis
  proof (cases "a = 0 \<or> b = 0")
    case True
    then show ?thesis
      using assms by (auto simp: py_float_of_int_small scale2_def Let_def split: if_splits)
  next
    case False
    let ?p = "bitlen (nat a)" and ?q = "bitlen (nat b)"
    let ?z = "min (int ?p - 53) (int ?q - 53)"
    have x: "x = PFin (nat a * 2 ^ (53 - ?p)) (int ?p - 53)"
      and y: "y = PFin (nat b * 2 ^ (53 - ?q)) (int ?q - 53)"
      using False assms by (auto simp: py_float_of_int_small)
    have "pyfloat_le x y \<longleftrightarrow> nat a * 2 ^ nat (- ?z) \<le> nat b * 2 ^ nat (- ?z)"
      using False assms bl [of a] bl [of b] unfolding x y
      by (simp add: Let_def key)
    also have "\<dots> \<longleftrightarrow> a \<le> b" using assms by (simp add: nat_le_eq_zle)
    finally show ?thesis .
  qed
qed

end
