(* ===== verification/Ast.thy ===== *)
theory Ast
  imports Numbers
begin

text \<open>
  The abstract syntax of AltrQL (\<open>query_engine/domain/ast.py\<close>, \<open>operators.py\<close>) and the exceptions
  of the query engine (\<open>query_engine/domain/errors.py\<close>). A frozen pydantic node is a value of a
  \<open>datatype\<close> or a \<open>record\<close>; a \<open>Union\<close> of node classes is one datatype with a constructor per
  alternative. \<open>FieldPath.segments\<close> is never empty in the program (the parser reads at least one
  segment and the resolver only replaces the first one), so a path is a root and further segments.
\<close>

section \<open>Operators, directions and keywords\<close>

datatype comparison_operator = OpEQ | OpNEQ | OpGT | OpLT | OpGTE | OpLTE

datatype string_operator = STARTS | ENDS | HAS | NOT_HAS

datatype sort_direction = ASC | DESC

datatype ranking_direction = TOP | BOTTOM

datatype temporal_keyword = TODAY | NOW

datatype logical_operator = LAnd | LOr

datatype query_operation = READ | CREATE | UPDATE | DELETE

text \<open>The \<open>str\<close> values of the enums.\<close>

fun cmp_value :: "comparison_operator \<Rightarrow> string" where
  "cmp_value OpEQ = ''=''"
| "cmp_value OpNEQ = ''!=''"
| "cmp_value OpGT = ''>''"
| "cmp_value OpLT = ''<''"
| "cmp_value OpGTE = ''>=''"
| "cmp_value OpLTE = ''<=''"

fun sort_value :: "sort_direction \<Rightarrow> string" where
  "sort_value ASC = ''ASC''"
| "sort_value DESC = ''DESC''"

fun logical_value :: "logical_operator \<Rightarrow> string" where
  "logical_value LAnd = ''AND''"
| "logical_value LOr = ''OR''"

definition is_ordering :: "comparison_operator \<Rightarrow> bool" where
  "is_ordering op \<longleftrightarrow> op = OpGT \<or> op = OpLT \<or> op = OpGTE \<or> op = OpLTE"

lemma is_ordering_simps [simp]:
  "\<not> is_ordering OpEQ" "\<not> is_ordering OpNEQ"
  "is_ordering OpGT" "is_ordering OpLT" "is_ordering OpGTE" "is_ordering OpLTE"
  by (simp_all add: is_ordering_def)

section \<open>Field paths and projections\<close>

datatype field_path = FieldPath (root: string) (nested: "string list")

definition segments :: "field_path \<Rightarrow> string list" where
  "segments fp = root fp # nested fp"

definition full_path :: "field_path \<Rightarrow> string" where
  "full_path fp = join ''.'' (segments fp)"

definition leaf :: "field_path \<Rightarrow> string" where
  "leaf fp = last (segments fp)"

definition is_nested :: "field_path \<Rightarrow> bool" where
  "is_nested fp \<longleftrightarrow> 1 < length (segments fp)"

lemma is_nested_simps [simp]:
  "\<not> is_nested (FieldPath r [])" "is_nested (FieldPath r (s # ss))"
  by (simp_all add: is_nested_def segments_def)

lemma leaf_simps [simp]:
  "leaf (FieldPath r []) = r" "leaf (FieldPath r (s # ss)) = last (s # ss)"
  by (simp_all add: leaf_def segments_def)

lemma full_path_flat [simp]: "full_path (FieldPath r []) = r"
  by (simp add: full_path_def segments_def)

lemma segments_FieldPath [simp]: "segments (FieldPath r ss) = r # ss"
  by (simp add: segments_def)

datatype field_selection = FieldSelection (sel_path: field_path) (sel_alias: "string option")

section \<open>Literals, ranges and value sets\<close>

datatype literal =
    StringLiteral string
  | IntegerLiteral int
  | FloatLiteral pyfloat
  | BooleanLiteral bool
  | NullLiteral
  | TemporalLiteral "temporal_keyword option" "string option"

datatype lit_range = Range (r_start: literal) (r_end: literal) (r_inclusive: bool)

datatype comparison_constraint =
  ComparisonConstraint (c_operator: comparison_operator) (c_value: literal)

datatype value_set_element =
    ElemLiteral literal
  | ElemRange lit_range
  | ElemConstraint comparison_constraint
  | ElemCompound "comparison_constraint list"

datatype value_set = ValueSet (elements: "value_set_element list")

datatype operand =
    OperandLiteral literal
  | OperandSet value_set
  | OperandRange lit_range

datatype field_operator =
    Comparison comparison_operator
  | StringOp string_operator

section \<open>Expressions\<close>

datatype expression =
    FieldExpression field_path field_operator operand
  | LogicalExpression logical_operator expression expression
  | NegationExpression expression

section \<open>Mutations, sorting, ranking, and the root of a query\<close>

datatype mutation_assignment = MutationAssignment (ma_field: field_path) (ma_value: literal)

datatype create_record = CreateRecord (cr_assignments: "mutation_assignment list")

datatype sort_clause = SortClause (sc_field: field_path) (sc_direction: sort_direction)

datatype ranking_clause =
  RankingClause (rc_direction: ranking_direction) (rc_count: int) (rc_field: field_path)

record query_ir =
  operation :: query_operation
  entity :: string
  projection :: "field_selection list"
  where_clause :: "expression option"
  assignments :: "mutation_assignment list"
  records :: "create_record list"
  sort_clauses :: "sort_clause list"
  ranking :: "ranking_clause option"
  limit :: "int option"
  offset :: "int option"

text \<open>The defaults of the model's fields: an \<open>AltrQueryIR(operation, entity)\<close> and nothing else.\<close>

definition bare_ir :: "query_operation \<Rightarrow> string \<Rightarrow> query_ir" where
  "bare_ir op e =
     \<lparr>operation = op, entity = e, projection = [], where_clause = None, assignments = [],
      records = [], sort_clauses = [], ranking = None, limit = None, offset = None\<rparr>"

definition is_wildcard_projection :: "query_ir \<Rightarrow> bool" where
  "is_wildcard_projection ir \<longleftrightarrow> projection ir = []"

section \<open>Exceptions\<close>

text \<open>
  One constructor per \<open>raise\<close> site's message (the expected-token list of a parse error is fixed by
  the site, so the message determines it). Exceptions of the language itself that escape the query
  engine are values too.
\<close>

datatype lex_message =
    UnexpectedCharacter char
  | MalformedTemporal string
  | InvalidCalendarDate string
  | NewlineInString
  | UnterminatedEscape
  | UnterminatedString
  | MalformedFloat

datatype parse_message =
    KeywordCase string string
  | ExpectedStatement
  | ExpectedEntity query_operation
  | ExpectedToken string
  | SortWithRanking
  | DuplicateLimit
  | DuplicateOffset
  | ExpectedIntegerAfter string
  | ExpectedSemicolon
  | TrailingTokens
  | ExpectedPayload string
  | ClauseNotSupported string query_operation
  | EmptyCreatePayload
  | ExpectedRecordOrField
  | MixedRecordSyntax
  | DuplicateAssignment string
  | TrailingComma string
  | ExpectedSeparator string
  | EmptyRecord
  | ExpectedWhere
  | PayloadOnDelete
  | EmptyMutationPayload
  | ExpectedFieldName
  | ExpectedFieldSegment
  | ExpectedAlias
  | EmptyWhere
  | ExpectedExpressionAfter string
  | EmptyGroup
  | ExpectedPrimary
  | ExpectedOperator
  | SetAfterOrdering comparison_operator
  | EmptyValueSet
  | ExpectedConstraint
  | ExpectedLiteral string
  | ExpectedStringLiteral
  | EmptySort
  | ExpectedDirection

datatype semantic_message =
    AssignmentsOnRead
  | CreateNeedsRecord
  | EmptyCreateRecord
  | DuplicateField string
  | DuplicateAlias string
  | RankingNotPositive int
  | LimitNotPositive int
  | LimitWithRanking
  | OffsetNegative int
  | SortAndRanking
  | NotAllowedOn string query_operation
  | UpdateNeedsAssignment
  | RecordsOnUpdate
  | UpdateNeedsWhere
  | StringOperatorOperand string_operator
  | StringOperatorElement string_operator
  | EmptySet
  | ShortCompound
  | BooleanOrNullBound
  | RangeOrder
  | IncompatibleBounds

datatype type_message =
    NullWithStringOperator string_operator
  | NullWithOrdering comparison_operator string
  | UnsupportedComparisonType string
  | StringOperatorOnField string_operator string
  | StringOperatorNeedsString string_operator
  | OrderingOnBoolean comparison_operator string
  | OperandMismatch string
  | RangeOnBoolean string
  | RangeBoundMismatch string
  | CompoundOnBoolean string
  | ElementMismatch string
  | ConstraintMismatch string
  | NullToNonNullable string
  | UnsupportedMutationType string
  | AssignmentMismatch string

datatype query_error =
    LexError lex_message nat nat
  | ParseError parse_message nat nat string
  | SemanticError semantic_message
  | UnknownEntityError string string
  | UnknownFieldError string string
  | TypeCompatibilityError type_message
  | LogicalEntityNotFoundError string string
  | PyValueError
  | PyOverflowError
  | PyUnboundLocalError
  | OutOfFuel

end
