(* ===== verification/Lexer.thy ===== *)
theory Lexer
  imports Ast
begin

text \<open>
  The lexical analyser (\<open>query_engine/parser/lexer.py\<close>): the token types and the keyword table, the
  scanner's state with its cursor and position, one definition per method of \<open>Lexer\<close>, and
  \<open>tokenize\<close>. The scanner's loops are recursive functions whose termination is proved from the
  progress of the cursor. The lemmas give the position of every token and error, the shape of the
  token list, and the round trip from printed tokens.
\<close>

section \<open>Tokens\<close>

datatype (plugins only: code size) token_type =
    LPAREN | RPAREN | LBRACE | RBRACE | COMMA | SEMICOLON | DOT | COLON | AMPERSAND | DOTDOT
  | EQ | NEQ | GT | LT | GTE | LTE
  | IDENTIFIER | STRING | INTEGER | FLOAT | TEMPORAL_LITERAL
  | KW_GET | KW_CREATE | KW_UPDATE | KW_DELETE | KW_WHERE | KW_AND | KW_OR | KW_SORT | KW_ASC
  | KW_DESC | KW_TOP | KW_BOTTOM | KW_BY | KW_LIMIT | KW_OFFSET | KW_AS | KW_NOT | KW_HAS
  | KW_STARTS | KW_ENDS | KW_TRUE | KW_FALSE | KW_NULL | KW_TODAY | KW_NOW
  | END_OF_INPUT

definition reserved_keywords :: "(string \<times> token_type) list" where
  "reserved_keywords =
    [(''GET'', KW_GET), (''CREATE'', KW_CREATE), (''UPDATE'', KW_UPDATE), (''DELETE'', KW_DELETE),
     (''WHERE'', KW_WHERE), (''AND'', KW_AND), (''OR'', KW_OR), (''SORT'', KW_SORT),
     (''ASC'', KW_ASC), (''DESC'', KW_DESC), (''TOP'', KW_TOP), (''BOTTOM'', KW_BOTTOM),
     (''BY'', KW_BY), (''LIMIT'', KW_LIMIT), (''OFFSET'', KW_OFFSET), (''AS'', KW_AS),
     (''NOT'', KW_NOT), (''HAS'', KW_HAS), (''STARTS'', KW_STARTS), (''ENDS'', KW_ENDS),
     (''TRUE'', KW_TRUE), (''FALSE'', KW_FALSE), (''NULL'', KW_NULL), (''TODAY'', KW_TODAY),
     (''NOW'', KW_NOW)]"

datatype token_value = VStr string | VInt int | VFloat pyfloat

record token =
  tk_type :: token_type
  tk_value :: token_value
  tk_line :: nat
  tk_column :: nat
  tk_lexeme :: string

definition Token :: "token_type \<Rightarrow> token_value \<Rightarrow> nat \<Rightarrow> nat \<Rightarrow> string \<Rightarrow> token" where
  "Token ty v l c lexeme =
     \<lparr>tk_type = ty, tk_value = v, tk_line = l, tk_column = c, tk_lexeme = lexeme\<rparr>"

lemma Token_sel [simp]:
  "tk_type (Token ty v l c s) = ty" "tk_value (Token ty v l c s) = v"
  "tk_line (Token ty v l c s) = l" "tk_column (Token ty v l c s) = c"
  "tk_lexeme (Token ty v l c s) = s"
  by (simp_all add: Token_def)

section \<open>The scanner's state\<close>

record lexer =
  source :: string
  cursor :: nat
  line :: nat
  column :: nat

definition new_lexer :: "string \<Rightarrow> lexer" where
  "new_lexer s = \<lparr>source = s, cursor = 0, line = 1, column = 1\<rparr>"

definition lx_at_end :: "lexer \<Rightarrow> bool" where
  "lx_at_end lx \<longleftrightarrow> length (source lx) \<le> cursor lx"

definition lx_peek :: "lexer \<Rightarrow> nat \<Rightarrow> char" where
  "lx_peek lx off =
     (let pos = cursor lx + off
      in if length (source lx) \<le> pos then CHR 0x00 else source lx ! pos)"

text \<open>
  \<open>_advance\<close>; the character it returns is \<open>lx_peek lx 0\<close>. Every call is guarded by a test that the
  cursor is inside the source, so the \<open>IndexError\<close> of the code is not reachable.
\<close>

definition lx_advance :: "lexer \<Rightarrow> lexer" where
  "lx_advance lx =
     (if lx_peek lx 0 = CHR 0x0A
      then lx\<lparr>cursor := Suc (cursor lx), line := Suc (line lx), column := 1\<rparr>
      else lx\<lparr>cursor := Suc (cursor lx), column := Suc (column lx)\<rparr>)"

lemma lx_advance_sel [simp]:
  "source (lx_advance lx) = source lx" "cursor (lx_advance lx) = Suc (cursor lx)"
  by (simp_all add: lx_advance_def)

definition slice :: "string \<Rightarrow> nat \<Rightarrow> nat \<Rightarrow> string" where
  "slice s a b = take (b - a) (drop a s)"

text \<open>\<open>while not self._is_at_end() and p: self._advance()\<close>.\<close>

function advance_while :: "(lexer \<Rightarrow> bool) \<Rightarrow> lexer \<Rightarrow> lexer" where
  "advance_while p lx =
     (if \<not> lx_at_end lx \<and> p lx then advance_while p (lx_advance lx) else lx)"
  by pat_completeness auto
termination
  by (relation "measure (\<lambda>(p, lx). length (source lx) - cursor lx)") (auto simp: lx_at_end_def)

declare advance_while.simps [simp del]

section \<open>Literals and names\<close>

definition date_delimiters :: string where
  "date_delimiters =
     [CHR '' '', CHR 0x09, CHR 0x0D, CHR 0x0A, CHR '','', CHR '';'', CHR '')'', CHR ''}'',
      CHR ''('', CHR ''{'', CHR ''&'', CHR ''='', CHR ''!'', CHR ''<'', CHR ''>'', CHR ''/'']"

definition in_temporal :: "lexer \<Rightarrow> bool" where
  "in_temporal lx \<longleftrightarrow>
     lx_peek lx 0 \<notin> set date_delimiters \<and> \<not> (lx_peek lx 0 = CHR ''.'' \<and> lx_peek lx 1 = CHR ''.'')"

text \<open>\<open>re.fullmatch(r"\d{4}-\d{2}-\d{2}", s)\<close> and \<open>datetime.date.fromisoformat\<close> on that shape.\<close>

definition is_date_shape :: "string \<Rightarrow> bool" where
  "is_date_shape s \<longleftrightarrow>
     length s = 10 \<and> s ! 4 = CHR ''-'' \<and> s ! 7 = CHR ''-'' \<and>
     list_all is_decimal (take 4 s) \<and> list_all is_decimal (take 2 (drop 5 s)) \<and>
     list_all is_decimal (drop 8 s)"

definition is_leap :: "nat \<Rightarrow> bool" where
  "is_leap y \<longleftrightarrow> y mod 4 = 0 \<and> (y mod 100 \<noteq> 0 \<or> y mod 400 = 0)"

definition days_in_month :: "nat \<Rightarrow> nat \<Rightarrow> nat" where
  "days_in_month y m =
     (if m = 2 then (if is_leap y then 29 else 28)
      else if m = 4 \<or> m = 6 \<or> m = 9 \<or> m = 11 then 30 else 31)"

definition is_calendar_date :: "string \<Rightarrow> bool" where
  "is_calendar_date s \<longleftrightarrow>
     (let y = decimal_val (take 4 s); m = decimal_val (take 2 (drop 5 s)); d = decimal_val (drop 8 s)
      in 1 \<le> y \<and> 1 \<le> m \<and> m \<le> 12 \<and> 1 \<le> d \<and> d \<le> days_in_month y m)"

definition scan_temporal_literal :: "lexer \<Rightarrow> nat \<Rightarrow> nat \<Rightarrow> query_error + token \<times> lexer" where
  "scan_temporal_literal lx start_line start_col =
     (let lx1 = lx_advance lx;
          lx2 = advance_while in_temporal lx1;
          raw = slice (source lx) (cursor lx1) (cursor lx2);
          lexeme = CHR ''@'' # raw
      in if \<not> is_date_shape raw then Inl (LexError (MalformedTemporal lexeme) start_line start_col)
         else if \<not> is_calendar_date raw
         then Inl (LexError (InvalidCalendarDate lexeme) start_line start_col)
         else Inr (Token TEMPORAL_LITERAL (VStr raw) start_line start_col lexeme, lx2))"

definition escape_map :: "char \<Rightarrow> char" where
  "escape_map c =
     (if c = CHR ''n'' then CHR 0x0A else if c = CHR ''t'' then CHR 0x09
      else if c = CHR ''r'' then CHR 0x0D else c)"

text \<open>The body of \<open>_scan_string\<close>'s loop; \<open>chars\<close> is the value read so far.\<close>

function scan_string_loop ::
    "lexer \<Rightarrow> string \<Rightarrow> nat \<Rightarrow> nat \<Rightarrow> query_error + token \<times> lexer" where
  "scan_string_loop lx chars start_line start_col =
     (if lx_at_end lx then Inl (LexError UnterminatedString start_line start_col)
      else
        let c = lx_peek lx 0 in
        if c = CHR 0x22 then
          (let lx1 = lx_advance lx;
               lexeme = slice (source lx) (cursor lx1 - length chars - 2) (cursor lx1)
           in Inr (Token STRING (VStr chars) start_line start_col lexeme, lx1))
        else if c = CHR 0x0A then Inl (LexError NewlineInString start_line start_col)
        else if c = CHR 0x5C then
          (let lx1 = lx_advance lx
           in if lx_at_end lx1 then Inl (LexError UnterminatedEscape start_line start_col)
              else scan_string_loop (lx_advance lx1) (chars @ [escape_map (lx_peek lx1 0)])
                     start_line start_col)
        else scan_string_loop (lx_advance lx) (chars @ [c]) start_line start_col)"
  by pat_completeness auto
termination
  by (relation "measure (\<lambda>(lx, _). length (source lx) - cursor lx)") (auto simp: lx_at_end_def)

declare scan_string_loop.simps [simp del]

definition scan_string :: "lexer \<Rightarrow> nat \<Rightarrow> nat \<Rightarrow> query_error + token \<times> lexer" where
  "scan_string lx start_line start_col = scan_string_loop (lx_advance lx) [] start_line start_col"

definition at_digit :: "lexer \<Rightarrow> bool" where
  "at_digit lx \<longleftrightarrow> py_isdigit (lx_peek lx 0)"

definition scan_number :: "lexer \<Rightarrow> nat \<Rightarrow> nat \<Rightarrow> query_error + token \<times> lexer" where
  "scan_number lx start_line start_col =
     (let lx1 = advance_while at_digit lx in
      if lx_peek lx1 0 = CHR ''.'' \<and> lx_peek lx1 1 \<noteq> CHR ''.'' then
        (let lx2 = lx_advance lx1 in
         if \<not> at_digit lx2 then Inl (LexError MalformedFloat start_line start_col)
         else
           let lx3 = advance_while at_digit lx2;
               raw = slice (source lx) (cursor lx) (cursor lx3)
           in case py_float_of_str (slice (source lx) (cursor lx) (cursor lx1))
                                   (slice (source lx) (cursor lx2) (cursor lx3)) of
                None \<Rightarrow> Inl PyValueError
              | Some x \<Rightarrow> Inr (Token FLOAT (VFloat x) start_line start_col raw, lx3))
      else
        let raw = slice (source lx) (cursor lx) (cursor lx1)
        in case py_int raw of
             None \<Rightarrow> Inl PyValueError
           | Some n \<Rightarrow> Inr (Token INTEGER (VInt n) start_line start_col raw, lx1))"

definition is_name_char :: "char \<Rightarrow> bool" where
  "is_name_char c \<longleftrightarrow> py_isalnum c \<or> c = CHR ''_''"

definition at_name_char :: "lexer \<Rightarrow> bool" where
  "at_name_char lx \<longleftrightarrow> is_name_char (lx_peek lx 0)"

definition scan_identifier_or_keyword :: "lexer \<Rightarrow> nat \<Rightarrow> nat \<Rightarrow> token \<times> lexer" where
  "scan_identifier_or_keyword lx start_line start_col =
     (let lx1 = advance_while at_name_char lx;
          lexeme = slice (source lx) (cursor lx) (cursor lx1)
      in case map_of reserved_keywords lexeme of
           Some kw \<Rightarrow> (Token kw (VStr lexeme) start_line start_col lexeme, lx1)
         | None \<Rightarrow> (Token IDENTIFIER (VStr lexeme) start_line start_col lexeme, lx1))"

section \<open>The scanning loop\<close>

definition single_tokens :: "(char \<times> token_type) list" where
  "single_tokens =
    [(CHR ''('', LPAREN), (CHR '')'', RPAREN), (CHR ''{'', LBRACE), (CHR ''}'', RBRACE),
     (CHR '','', COMMA), (CHR '';'', SEMICOLON), (CHR ''.'', DOT), (CHR '':'', COLON),
     (CHR ''&'', AMPERSAND), (CHR ''='', EQ), (CHR ''>'', GT), (CHR ''<'', LT)]"

definition two_tokens :: "((char \<times> char) \<times> token_type) list" where
  "two_tokens =
    [((CHR ''.'', CHR ''.''), DOTDOT), ((CHR ''!'', CHR ''=''), NEQ),
     ((CHR ''>'', CHR ''=''), GTE), ((CHR ''<'', CHR ''=''), LTE)]"

definition not_newline :: "lexer \<Rightarrow> bool" where
  "not_newline lx \<longleftrightarrow> lx_peek lx 0 \<noteq> CHR 0x0A"

text \<open>Strings, dates, numbers and names: the turns that call a scanning method.\<close>

definition scan_token :: "lexer \<Rightarrow> query_error + token option \<times> lexer" where
  "scan_token lx =
     (let start_line = line lx; start_col = column lx; c = lx_peek lx 0 in
      if c = CHR 0x22 then
        bindE (scan_string lx start_line start_col) (\<lambda>(t, lx'). Inr (Some t, lx'))
      else if c = CHR ''@'' then
        bindE (scan_temporal_literal lx start_line start_col) (\<lambda>(t, lx'). Inr (Some t, lx'))
      else if py_isdigit c then
        bindE (scan_number lx start_line start_col) (\<lambda>(t, lx'). Inr (Some t, lx'))
      else if py_isalpha c \<or> c = CHR ''_'' then
        (case scan_identifier_or_keyword lx start_line start_col of (t, lx') \<Rightarrow> Inr (Some t, lx'))
      else Inl (LexError (UnexpectedCharacter c) start_line start_col))"

text \<open>
  One turn of the loop of \<open>tokenize\<close>, started before the end of the source: the token it appends,
  if any, and the scanner's state after it.
\<close>

definition next_token :: "lexer \<Rightarrow> query_error + token option \<times> lexer" where
  "next_token lx =
     (let start_line = line lx; start_col = column lx; c = lx_peek lx 0; c1 = lx_peek lx 1 in
      if c \<in> {CHR '' '', CHR 0x09, CHR 0x0D, CHR 0x0A} then Inr (None, lx_advance lx)
      else if c = CHR ''/'' \<and> c1 = CHR ''/'' then
        Inr (None, advance_while not_newline (lx_advance (lx_advance lx)))
      else case map_of two_tokens (c, c1) of
        Some ty \<Rightarrow>
          Inr (Some (Token ty (VStr [c, c1]) start_line start_col [c, c1]),
               lx_advance (lx_advance lx))
      | None \<Rightarrow>
        (case map_of single_tokens c of
           Some ty \<Rightarrow> Inr (Some (Token ty (VStr [c]) start_line start_col [c]), lx_advance lx)
         | None \<Rightarrow> scan_token lx))"

section \<open>Progress and positions\<close>

definition lx_skip :: "nat \<Rightarrow> lexer \<Rightarrow> lexer" where
  "lx_skip n lx = (lx_advance ^^ n) lx"

lemma lx_skip_simps [simp]:
  "lx_skip 0 lx = lx" "source (lx_skip n lx) = source lx" "cursor (lx_skip n lx) = cursor lx + n"
  "lx_skip m (lx_skip n lx) = lx_skip (m + n) lx"
proof -
  show "source (lx_skip n lx) = source lx" "cursor (lx_skip n lx) = cursor lx + n"
    by (induction n) (simp_all add: lx_skip_def)
qed (simp_all add: lx_skip_def funpow_add)

lemma lx_skip_advance: "lx_advance lx = lx_skip 1 lx" "lx_advance (lx_skip n lx) = lx_skip (Suc n) lx"
  by (simp_all add: lx_skip_def)

text \<open>
  \<open>moved n lx lx'\<close>: the scanner has taken \<open>n\<close> characters of the source with \<open>_advance\<close> and is not
  past its end.
\<close>

definition moved :: "nat \<Rightarrow> lexer \<Rightarrow> lexer \<Rightarrow> bool" where
  "moved n lx lx' \<longleftrightarrow> lx' = lx_skip n lx \<and> cursor lx + n \<le> length (source lx)"

lemma moved_trans: "moved m lx lx' \<Longrightarrow> moved n lx' lx'' \<Longrightarrow> moved (m + n) lx lx''"
  by (auto simp: moved_def add.commute)

lemma moved_advance: "\<not> lx_at_end lx \<Longrightarrow> moved 1 lx (lx_advance lx)"
  by (simp add: moved_def lx_skip_advance(1) lx_at_end_def)

lemma moved_sel: "moved n lx lx' \<Longrightarrow> source lx' = source lx \<and> cursor lx' = cursor lx + n"
  by (simp add: moved_def)

lemma moved_advance_while:
  "cursor lx \<le> length (source lx) \<Longrightarrow> \<exists>n. moved n lx (advance_while p lx)"
proof (induction p lx rule: advance_while.induct)
  case (1 p lx)
  show ?case
  proof (cases "\<not> lx_at_end lx \<and> p lx")
    case True
    then have "moved 1 lx (lx_advance lx)" using moved_advance by blast
    moreover obtain n where "moved n (lx_advance lx) (advance_while p (lx_advance lx))"
      using True "1.IH" by (auto simp: lx_at_end_def)
    ultimately have "moved (1 + n) lx (advance_while p (lx_advance lx))" by (rule moved_trans)
    with True show ?thesis by (subst advance_while.simps) auto
  next
    case False
    with "1.prems" show ?thesis
      by (subst advance_while.simps) (auto simp: moved_def intro!: exI [of _ 0])
  qed
qed

text \<open>A scan that reads the first character and then runs a loop.\<close>

lemma moved_Suc:
  assumes "\<not> lx_at_end lx" and "cursor (lx_advance lx) \<le> length (source lx) \<Longrightarrow> \<exists>n. moved n (lx_advance lx) lx'"
  shows "\<exists>n. moved (Suc n) lx lx'"
proof -
  have a: "moved 1 lx (lx_advance lx)" using assms(1) by (rule moved_advance)
  then have "cursor (lx_advance lx) \<le> length (source lx)" by (simp add: moved_def)
  then obtain n where "moved n (lx_advance lx) lx'" using assms(2) by blast
  from moved_trans [OF a this] show ?thesis by auto
qed

lemma advance_while_first:
  assumes "\<not> lx_at_end lx" "p lx"
  shows "\<exists>n. moved (Suc n) lx (advance_while p lx)"
proof -
  have "advance_while p lx = advance_while p (lx_advance lx)"
    using assms by (subst advance_while.simps) simp
  then show ?thesis using moved_Suc [OF assms(1)] moved_advance_while [of "lx_advance lx" p]
    by simp
qed

lemma advance_while_rest:
  assumes "\<not> lx_at_end lx"
  shows "\<exists>n. moved (Suc n) lx (advance_while p (lx_advance lx))"
  using assms by (rule moved_Suc) (simp add: moved_advance_while)

lemma peek_nonzero_not_end: "lx_peek lx 0 \<noteq> CHR 0x00 \<Longrightarrow> \<not> lx_at_end lx"
  by (auto simp: lx_peek_def lx_at_end_def Let_def)

lemma peek1_nonzero: "lx_peek lx 1 \<noteq> CHR 0x00 \<Longrightarrow> \<not> lx_at_end (lx_advance lx)"
  by (auto simp: lx_peek_def lx_at_end_def Let_def split: if_splits)

lemma scan_string_loop_moved:
  "scan_string_loop lx chars l c = Inr (t, lx') \<Longrightarrow>
     \<exists>n. moved (Suc n) lx lx' \<and> tk_type t = STRING \<and> tk_line t = l \<and> tk_column t = c"
proof (induction lx chars l c rule: scan_string_loop.induct)
  case (1 lx chars l c)
  define ch where "ch = lx_peek lx 0"
  have ne: "\<not> lx_at_end lx" using "1.prems" by (subst (asm) scan_string_loop.simps) (auto split: if_splits)
  note adv = moved_advance [OF ne]
  consider (quote) "ch = CHR 0x22" | (escape) "ch = CHR 0x5C" | (other) "ch \<noteq> CHR 0x22" "ch \<noteq> CHR 0x5C" "ch \<noteq> CHR 0x0A"
    using "1.prems" ne unfolding ch_def
    by (subst (asm) scan_string_loop.simps) (auto simp: Let_def split: if_splits)
  then show ?case
  proof cases
    case quote
    with "1.prems" ne adv show ?thesis
      unfolding ch_def by (subst (asm) scan_string_loop.simps) (force simp: Let_def)
  next
    case escape
    let ?lx1 = "lx_advance lx"
    from escape "1.prems" ne have ne1: "\<not> lx_at_end ?lx1"
      and rec: "scan_string_loop (lx_advance ?lx1) (chars @ [escape_map (lx_peek ?lx1 0)]) l c = Inr (t, lx')"
      unfolding ch_def
      by (auto simp: Let_def scan_string_loop.simps [of lx] split: if_splits)
    from escape ne ne1 rec obtain n where "moved (Suc n) (lx_advance ?lx1) lx'"
      "tk_type t = STRING" "tk_line t = l" "tk_column t = c"
      using "1.IH"(1) unfolding ch_def by fastforce
    then show ?thesis
      using moved_trans [OF adv moved_trans [OF moved_advance [OF ne1]]] by fastforce
  next
    case other
    from other "1.prems" ne have rec: "scan_string_loop (lx_advance lx) (chars @ [ch]) l c = Inr (t, lx')"
      unfolding ch_def by (auto simp: Let_def scan_string_loop.simps [of lx] split: if_splits)
    from other ne rec obtain n where "moved (Suc n) (lx_advance lx) lx'"
      "tk_type t = STRING" "tk_line t = l" "tk_column t = c"
      using "1.IH"(2) unfolding ch_def by fastforce
    then show ?thesis using moved_trans [OF adv] by fastforce
  qed
qed

lemma slice_peek: "\<not> lx_at_end lx \<Longrightarrow> slice (source lx) (cursor lx) (Suc (cursor lx)) = [lx_peek lx 0]"
  by (simp add: slice_def lx_peek_def lx_at_end_def take_Suc_conv_app_nth Let_def)

lemma slice_peek2:
  assumes "\<not> lx_at_end lx" "\<not> lx_at_end (lx_advance lx)"
  shows "slice (source lx) (cursor lx) (Suc (Suc (cursor lx))) = [lx_peek lx 0, lx_peek lx 1]"
  using assms
  by (simp add: slice_def lx_peek_def lx_at_end_def take_Suc_conv_app_nth Let_def numeral_2_eq_2)

lemma slice_skip_first:
  "\<not> lx_at_end lx \<Longrightarrow> slice (source lx) (cursor lx) (Suc (cursor lx) + n) =
     lx_peek lx 0 # slice (source lx) (Suc (cursor lx)) (Suc (cursor lx) + n)"
  by (simp add: slice_def lx_peek_def lx_at_end_def Let_def Cons_nth_drop_Suc [symmetric])

text \<open>What the loop of \<open>tokenize\<close> knows of a token it has just appended.\<close>

definition token_at :: "lexer \<Rightarrow> lexer \<Rightarrow> token \<Rightarrow> bool" where
  "token_at lx lx' t \<longleftrightarrow>
     tk_line t = line lx \<and> tk_column t = column lx \<and> tk_type t \<noteq> END_OF_INPUT \<and>
     (tk_type t \<noteq> STRING \<longrightarrow> tk_lexeme t = slice (source lx) (cursor lx) (cursor lx'))"

lemma scan_string_moved:
  assumes "\<not> lx_at_end lx" "scan_string lx (line lx) (column lx) = Inr (t, lx')"
  shows "\<exists>n. moved (Suc n) lx lx' \<and> token_at lx lx' t"
proof -
  from assms(2) obtain n where "moved (Suc n) (lx_advance lx) lx'"
    and "tk_type t = STRING" "tk_line t = line lx" "tk_column t = column lx"
    unfolding scan_string_def by (auto dest: scan_string_loop_moved)
  with moved_trans [OF moved_advance [OF assms(1)]] show ?thesis
    by (fastforce simp: token_at_def)
qed

lemma scan_temporal_moved:
  assumes "\<not> lx_at_end lx" "lx_peek lx 0 = CHR ''@''"
    and "scan_temporal_literal lx (line lx) (column lx) = Inr (t, lx')"
  shows "\<exists>n. moved (Suc n) lx lx' \<and> token_at lx lx' t"
proof -
  from assms(3) have lx': "lx' = advance_while in_temporal (lx_advance lx)"
    and t: "t = Token TEMPORAL_LITERAL (VStr (slice (source lx) (Suc (cursor lx)) (cursor lx'))) (line lx)
                 (column lx) (CHR ''@'' # slice (source lx) (Suc (cursor lx)) (cursor lx'))"
    by (auto simp: scan_temporal_literal_def Let_def split: if_splits)
  obtain n where n: "moved (Suc n) lx lx'"
    using advance_while_rest [OF assms(1)] unfolding lx' by blast
  then have "cursor lx' = Suc (cursor lx) + n" by (simp add: moved_def)
  with n show ?thesis
    using slice_skip_first [OF assms(1)] assms(2) by (auto simp: token_at_def t)
qed

lemma reserved_not_special:
  "map_of reserved_keywords s = Some ty \<Longrightarrow> ty \<noteq> END_OF_INPUT \<and> ty \<noteq> STRING"
proof -
  assume "map_of reserved_keywords s = Some ty"
  then have "(s, ty) \<in> set reserved_keywords" by (rule map_of_SomeD)
  moreover have "list_all (\<lambda>(_, ty). ty \<noteq> END_OF_INPUT \<and> ty \<noteq> STRING) reserved_keywords"
    by (simp add: reserved_keywords_def)
  ultimately show ?thesis by (auto simp: list_all_iff)
qed

lemma scan_identifier_moved:
  assumes "\<not> lx_at_end lx" "at_name_char lx"
    and "scan_identifier_or_keyword lx (line lx) (column lx) = (t, lx')"
  shows "\<exists>n. moved (Suc n) lx lx' \<and> token_at lx lx' t"
  using assms advance_while_first [of lx at_name_char] reserved_not_special
  by (auto simp: scan_identifier_or_keyword_def Let_def token_at_def split: option.splits)

lemma scan_number_moved:
  assumes "\<not> lx_at_end lx" "at_digit lx" "scan_number lx (line lx) (column lx) = Inr (t, lx')"
  shows "\<exists>n. moved (Suc n) lx lx' \<and> token_at lx lx' t"
proof -
  let ?lx1 = "advance_while at_digit lx"
  obtain n where n: "moved (Suc n) lx ?lx1" using advance_while_first [of lx at_digit] assms by blast
  show ?thesis
  proof (cases "lx_peek ?lx1 0 = CHR ''.'' \<and> lx_peek ?lx1 1 \<noteq> CHR ''.''")
    case True
    let ?lx3 = "advance_while at_digit (lx_advance ?lx1)"
    have ne: "\<not> lx_at_end ?lx1" using True by (intro peek_nonzero_not_end) auto
    obtain m where "moved (Suc m) ?lx1 ?lx3"
      using advance_while_rest [OF ne] by blast
    from moved_trans [OF n this] have m: "moved (Suc (n + Suc m)) lx ?lx3" by simp
    from True assms(3) have "lx' = ?lx3" "token_at lx ?lx3 t"
      by (auto simp: scan_number_def Let_def token_at_def split: if_splits option.splits)
    with m show ?thesis by blast
  next
    case False
    with assms(3) have "lx' = ?lx1" "token_at lx ?lx1 t"
      by (auto simp: scan_number_def Let_def token_at_def split: if_splits option.splits)
    with n show ?thesis by blast
  qed
qed

lemma two_tokens_not_special:
  "map_of two_tokens (c, d) = Some ty \<Longrightarrow>
     c \<noteq> CHR 0x00 \<and> d \<noteq> CHR 0x00 \<and> ty \<noteq> END_OF_INPUT \<and> ty \<noteq> STRING"
proof -
  assume "map_of two_tokens (c, d) = Some ty"
  then have "((c, d), ty) \<in> set two_tokens" by (rule map_of_SomeD)
  moreover have "list_all (\<lambda>((c, d), ty). c \<noteq> CHR 0x00 \<and> d \<noteq> CHR 0x00 \<and>
      ty \<noteq> END_OF_INPUT \<and> ty \<noteq> STRING) two_tokens"
    by (simp add: two_tokens_def)
  ultimately show ?thesis by (auto simp: list_all_iff)
qed

lemma single_tokens_not_special:
  "map_of single_tokens c = Some ty \<Longrightarrow> ty \<noteq> END_OF_INPUT \<and> ty \<noteq> STRING"
proof -
  assume "map_of single_tokens c = Some ty"
  then have "(c, ty) \<in> set single_tokens" by (rule map_of_SomeD)
  moreover have "list_all (\<lambda>(_, ty). ty \<noteq> END_OF_INPUT \<and> ty \<noteq> STRING) single_tokens"
    by (simp add: single_tokens_def)
  ultimately show ?thesis by (auto simp: list_all_iff)
qed

lemma next_token_two:
  assumes "\<not> lx_at_end lx" "map_of two_tokens (lx_peek lx 0, lx_peek lx 1) = Some ty"
  defines "t \<equiv> Token ty (VStr [lx_peek lx 0, lx_peek lx 1]) (line lx) (column lx)
                 [lx_peek lx 0, lx_peek lx 1]"
  shows "moved 2 lx (lx_advance (lx_advance lx)) \<and> token_at lx (lx_advance (lx_advance lx)) t"
proof -
  have ne1: "\<not> lx_at_end (lx_advance lx)"
    using two_tokens_not_special [OF assms(2)] by (intro peek1_nonzero) simp
  from moved_trans [OF moved_advance [OF assms(1)] moved_advance [OF ne1]]
  show ?thesis
    using slice_peek2 [OF assms(1) ne1] two_tokens_not_special [OF assms(2)]
    by (simp add: token_at_def t_def numeral_2_eq_2)
qed

text \<open>The turns that end in one of the scanning methods.\<close>

lemma scan_token_moved:
  assumes ne: "\<not> lx_at_end lx" and scan: "scan_token lx = Inr (ot, lx')"
  shows "\<exists>n. moved (Suc n) lx lx' \<and> (\<forall>t. ot = Some t \<longrightarrow> token_at lx lx' t)"
proof -
  consider (string) t where "scan_string lx (line lx) (column lx) = Inr (t, lx')" "ot = Some t"
    | (temporal) t where "lx_peek lx 0 = CHR ''@''"
        "scan_temporal_literal lx (line lx) (column lx) = Inr (t, lx')" "ot = Some t"
    | (number) t where "at_digit lx" "scan_number lx (line lx) (column lx) = Inr (t, lx')" "ot = Some t"
    | (name) t where "at_name_char lx"
        "scan_identifier_or_keyword lx (line lx) (column lx) = (t, lx')" "ot = Some t"
    using scan unfolding scan_token_def Let_def at_digit_def at_name_char_def is_name_char_def py_isalnum_def
    by (auto simp: bindE_Inr_iff split: if_splits prod.splits)
  then show ?thesis
  proof cases
    case string
    then show ?thesis using scan_string_moved [OF ne] by blast
  next
    case temporal
    then show ?thesis using scan_temporal_moved [OF ne] by blast
  next
    case number
    then show ?thesis using scan_number_moved [OF ne] by blast
  next
    case name
    then show ?thesis using scan_identifier_moved [OF ne] by blast
  qed
qed

text \<open>Every turn of the loop makes progress and places its token correctly.\<close>

lemma next_token_moved:
  assumes ne: "\<not> lx_at_end lx" and nt: "next_token lx = Inr (ot, lx')"
  shows "\<exists>n. moved (Suc n) lx lx' \<and> (\<forall>t. ot = Some t \<longrightarrow> token_at lx lx' t)"
proof -
  let ?c = "lx_peek lx 0" and ?c1 = "lx_peek lx 1"
  note adv = moved_advance [OF ne]
  show ?thesis
  proof (cases "?c \<in> {CHR '' '', CHR 0x09, CHR 0x0D, CHR 0x0A}")
    case True
    with nt adv show ?thesis by (force simp: next_token_def Let_def)
  next
    case ws: False
    show ?thesis
    proof (cases "?c = CHR ''/'' \<and> ?c1 = CHR ''/''")
      case True
      with ws nt have lx': "ot = None" "lx' = advance_while not_newline (lx_advance (lx_advance lx))"
        by (auto simp: next_token_def Let_def)
      have ne1: "\<not> lx_at_end (lx_advance lx)" using True by (intro peek1_nonzero) simp
      have "\<exists>n. moved (Suc n) (lx_advance lx) lx'"
        unfolding lx' by (rule advance_while_rest [OF ne1])
      with moved_trans [OF adv] lx'(1) show ?thesis by fastforce
    next
      case comment: False
      show ?thesis
      proof (cases "map_of two_tokens (?c, ?c1)")
        case (Some ty)
        with ws comment nt next_token_two [OF ne Some] show ?thesis
          by (auto simp: next_token_def Let_def numeral_2_eq_2)
      next
        case two: None
        show ?thesis
        proof (cases "map_of single_tokens ?c")
          case (Some ty)
          with ws comment two nt
          have "ot = Some (Token ty (VStr [?c]) (line lx) (column lx) [?c])" "lx' = lx_advance lx"
            by (auto simp: next_token_def Let_def)
          with adv single_tokens_not_special [OF Some] slice_peek [OF ne] show ?thesis
            by (auto simp: token_at_def intro!: exI [of _ 0])
        next
          case None
          with ws comment two nt have "scan_token lx = Inr (ot, lx')"
            by (auto simp: next_token_def Let_def)
          then show ?thesis by (rule scan_token_moved [OF ne])
        qed
      qed
    qed
  qed
qed

lemma next_token_progress:
  assumes "\<not> lx_at_end lx" "next_token lx = Inr (ot, lx')"
  shows "source lx' = source lx" "length (source lx) - cursor lx' < length (source lx) - cursor lx"
proof -
  obtain n where "moved (Suc n) lx lx'" using next_token_moved [OF assms] by blast
  then show "source lx' = source lx"
    "length (source lx) - cursor lx' < length (source lx) - cursor lx"
    by (auto simp: moved_def)
qed

section \<open>tokenize\<close>

function tokenize_from :: "lexer \<Rightarrow> query_error + token list" where
  "tokenize_from lx =
     (if lx_at_end lx then Inr [Token END_OF_INPUT (VStr []) (line lx) (column lx) []]
      else case next_token lx of
        Inl e \<Rightarrow> Inl e
      | Inr (ot, lx') \<Rightarrow>
          bindE (tokenize_from lx') (\<lambda>ts. Inr (case ot of None \<Rightarrow> ts | Some t \<Rightarrow> t # ts)))"
  by pat_completeness auto
termination
proof (relation "measure (\<lambda>lx. length (source lx) - cursor lx)")
  fix lx r ot lx'
  assume "\<not> lx_at_end lx" "next_token lx = Inr r" "(ot, lx') = r"
  then show "(lx', lx) \<in> measure (\<lambda>lx. length (source lx) - cursor lx)"
    using next_token_progress [of lx ot lx'] by simp
qed simp

declare tokenize_from.simps [simp del]

definition tokenize :: "string \<Rightarrow> query_error + token list" where
  "tokenize s = tokenize_from (new_lexer s)"

section \<open>Positions\<close>

text \<open>The line and column of an offset: newlines before it, and the distance from the last one.\<close>

definition pos_at :: "string \<Rightarrow> nat \<Rightarrow> nat \<times> nat" where
  "pos_at s k =
     (Suc (length (filter (\<lambda>c. c = CHR 0x0A) (take k s))),
      Suc (length (takeWhile (\<lambda>c. c \<noteq> CHR 0x0A) (rev (take k s)))))"

definition positioned :: "lexer \<Rightarrow> bool" where
  "positioned lx \<longleftrightarrow>
     cursor lx \<le> length (source lx) \<and> (line lx, column lx) = pos_at (source lx) (cursor lx)"

lemma positioned_new: "positioned (new_lexer s)"
  by (simp add: positioned_def new_lexer_def pos_at_def)

lemma positioned_advance: "positioned lx \<Longrightarrow> \<not> lx_at_end lx \<Longrightarrow> positioned (lx_advance lx)"
  by (auto simp: positioned_def pos_at_def lx_at_end_def lx_peek_def lx_advance_def
      take_Suc_conv_app_nth Let_def)

lemma positioned_skip:
  "positioned lx \<Longrightarrow> cursor lx + n \<le> length (source lx) \<Longrightarrow> positioned (lx_skip n lx)"
proof (induction n)
  case 0
  then show ?case by simp
next
  case (Suc n)
  then have "positioned (lx_skip n lx)" "\<not> lx_at_end (lx_skip n lx)"
    by (auto simp: lx_at_end_def)
  then have "positioned (lx_advance (lx_skip n lx))" by (rule positioned_advance)
  then show ?case by (simp only: lx_skip_advance(2))
qed

lemma positioned_moved: "moved n lx lx' \<Longrightarrow> positioned lx \<Longrightarrow> positioned lx'"
  by (auto simp: moved_def intro: positioned_skip)

lemma next_token_positioned:
  "\<not> lx_at_end lx \<Longrightarrow> next_token lx = Inr (ot, lx') \<Longrightarrow> positioned lx \<Longrightarrow> positioned lx'"
  using next_token_moved positioned_moved by blast

text \<open>A token and the offset where it starts.\<close>

definition starts_at :: "string \<Rightarrow> token \<Rightarrow> nat \<Rightarrow> bool" where
  "starts_at s t k \<longleftrightarrow>
     (tk_line t, tk_column t) = pos_at s k \<and>
     (tk_type t \<noteq> STRING \<longrightarrow> slice s k (k + length (tk_lexeme t)) = tk_lexeme t)"

lemma token_at_starts:
  assumes "token_at lx lx' t" "positioned lx" "moved n lx lx'"
  shows "starts_at (source lx) t (cursor lx)"
  using assms by (auto simp: token_at_def starts_at_def positioned_def moved_def slice_def min_def)

text \<open>
  The result of the loop from a state: tokens that start at increasing offsets, the last of them
  the end marker, at the end of the source.
\<close>

lemma tokenize_from_positions:
  "positioned lx \<Longrightarrow> tokenize_from lx = Inr ts \<Longrightarrow>
     \<exists>ts' e ks. ts = ts' @ [e] \<and> tk_type e = END_OF_INPUT \<and> starts_at (source lx) e (length (source lx)) \<and>
       list_all2 (starts_at (source lx)) ts' ks \<and> sorted_wrt (<) ks \<and>
       (\<forall>k \<in> set ks. cursor lx \<le> k \<and> k < length (source lx)) \<and>
       (\<forall>t \<in> set ts'. tk_type t \<noteq> END_OF_INPUT)"
proof (induction lx arbitrary: ts rule: tokenize_from.induct)
  case (1 lx)
  show ?case
  proof (cases "lx_at_end lx")
    case True
    with "1.prems" have "ts = [Token END_OF_INPUT (VStr []) (line lx) (column lx) []]"
      by (subst (asm) tokenize_from.simps) simp
    with True "1.prems"(1) show ?thesis
      by (auto simp: starts_at_def slice_def positioned_def lx_at_end_def
          intro!: exI [of _ "[]"])
  next
    case False
    with "1.prems"(2) obtain ot lx' ts1 where nt: "next_token lx = Inr (ot, lx')"
      and rec: "tokenize_from lx' = Inr ts1" and ts: "ts = (case ot of None \<Rightarrow> ts1 | Some t \<Rightarrow> t # ts1)"
      by (subst (asm) tokenize_from.simps) (auto simp: bindE_Inr_iff split: sum.splits)
    obtain n where mv: "moved (Suc n) lx lx'" and at: "\<And>t. ot = Some t \<Longrightarrow> token_at lx lx' t"
      using next_token_moved [OF False nt] by blast
    have src: "source lx' = source lx" "cursor lx' = cursor lx + Suc n"
      using moved_sel [OF mv] by auto
    have "positioned lx'" using positioned_moved [OF mv "1.prems"(1)] .
    from "1.IH" [OF False nt refl this rec] obtain ts' e ks where
      ih: "ts1 = ts' @ [e]" "tk_type e = END_OF_INPUT" "starts_at (source lx) e (length (source lx))"
        "list_all2 (starts_at (source lx)) ts' ks" "sorted_wrt (<) ks"
        "\<forall>k \<in> set ks. cursor lx + Suc n \<le> k \<and> k < length (source lx)"
        "\<forall>t \<in> set ts'. tk_type t \<noteq> END_OF_INPUT"
      unfolding src by blast
    show ?thesis
    proof (cases ot)
      case None
      with ts ih show ?thesis by fastforce
    next
      case (Some t)
      have "starts_at (source lx) t (cursor lx)"
        using token_at_starts [OF at [OF Some] "1.prems"(1) mv] .
      moreover have "tk_type t \<noteq> END_OF_INPUT" using at [OF Some] by (simp add: token_at_def)
      moreover have "cursor lx < length (source lx)" using False by (simp add: lx_at_end_def)
      ultimately show ?thesis
        using ts ih Some by (intro exI [of _ "t # ts'"] exI [of _ e] exI [of _ "cursor lx # ks"]) force
    qed
  qed
qed

text \<open>Errors carry the position of the token being read.\<close>

lemma scan_string_loop_error:
  "scan_string_loop lx chars l c = Inl e \<Longrightarrow> \<exists>m. e = LexError m l c"
proof (induction lx chars l c rule: scan_string_loop.induct)
  case (1 lx chars l c)
  note step = "1.prems" [unfolded scan_string_loop.simps [of lx chars l c] Let_def]
  from step "1.IH" show ?case by (auto split: if_splits)
qed

lemma scan_token_error:
  "scan_token lx = Inl e \<Longrightarrow> e = PyValueError \<or> (\<exists>m. e = LexError m (line lx) (column lx))"
  by (auto simp: scan_token_def Let_def bindE_Inl_iff scan_string_def scan_temporal_literal_def
      scan_number_def dest: scan_string_loop_error split: if_splits option.splits prod.splits)

lemma next_token_error:
  "next_token lx = Inl e \<Longrightarrow> e = PyValueError \<or> (\<exists>m. e = LexError m (line lx) (column lx))"
  by (auto simp: next_token_def Let_def dest: scan_token_error split: if_splits option.splits)

lemma tokenize_from_error:
  "positioned lx \<Longrightarrow> tokenize_from lx = Inl e \<Longrightarrow>
     e = PyValueError \<or>
     (\<exists>m k. e = LexError m (fst (pos_at (source lx) k)) (snd (pos_at (source lx) k)) \<and> k < length (source lx))"
proof (induction lx rule: tokenize_from.induct)
  case (1 lx)
  have ne: "\<not> lx_at_end lx" using "1.prems"(2) by (subst (asm) tokenize_from.simps) (auto split: if_splits)
  show ?case
  proof (cases "next_token lx")
    case (Inl d)
    with ne "1.prems"(2) have "e = d" by (subst (asm) tokenize_from.simps) simp
    with next_token_error [OF Inl] "1.prems"(1) ne show ?thesis
      by (auto simp: positioned_def lx_at_end_def) (metis fst_conv snd_conv not_le)
  next
    case (Inr r)
    obtain ot lx' where r: "next_token lx = Inr (ot, lx')" using Inr by (cases r) auto
    then have "tokenize_from lx' = Inl e"
      using ne "1.prems"(2) by (subst (asm) tokenize_from.simps) (auto simp: bindE_Inl_iff)
    moreover have "positioned lx'" using next_token_positioned [OF ne r "1.prems"(1)] .
    ultimately show ?thesis
      using "1.IH" [OF ne r refl] next_token_progress(1) [OF ne r] by auto
  qed
qed

section \<open>Properties\<close>

text \<open>
  The tokens of a source start at strictly increasing offsets; each token's line and column are
  those of its offset, the lexeme of every token but a string is the text at that offset, and the
  last token, at the end of the source, is the only end marker.
\<close>

theorem tokenize_positions:
  assumes "tokenize s = Inr ts"
  shows "\<exists>ts' e ks. ts = ts' @ [e] \<and> tk_type e = END_OF_INPUT \<and> starts_at s e (length s) \<and>
    list_all2 (starts_at s) ts' ks \<and> sorted_wrt (<) ks \<and> (\<forall>k \<in> set ks. k < length s) \<and>
    (\<forall>t \<in> set ts'. tk_type t \<noteq> END_OF_INPUT)"
proof -
  have src: "source (new_lexer s) = s" by (simp add: new_lexer_def)
  show ?thesis
    using tokenize_from_positions [OF positioned_new assms [unfolded tokenize_def], unfolded src]
    by blast
qed

lemma tokenize_positions_witness:
  "tokenize [CHR ''a'', CHR 0x0A, CHR ''b''] =
     Inr [Token IDENTIFIER (VStr ''a'') 1 1 ''a'', Token IDENTIFIER (VStr ''b'') 2 1 ''b'',
          Token END_OF_INPUT (VStr []) 2 2 []] \<and>
   (\<exists>ts' e ks. [Token IDENTIFIER (VStr ''a'') 1 1 ''a'', Token IDENTIFIER (VStr ''b'') 2 1 ''b'',
          Token END_OF_INPUT (VStr []) 2 2 []] = ts' @ [e] \<and> tk_type e = END_OF_INPUT \<and>
      starts_at [CHR ''a'', CHR 0x0A, CHR ''b''] e 3 \<and>
      list_all2 (starts_at [CHR ''a'', CHR 0x0A, CHR ''b'']) ts' ks \<and> sorted_wrt (<) ks \<and>
      (\<forall>k \<in> set ks. k < 3) \<and> (\<forall>t \<in> set ts'. tk_type t \<noteq> END_OF_INPUT))"
proof -
  have h: "tokenize [CHR ''a'', CHR 0x0A, CHR ''b''] =
     Inr [Token IDENTIFIER (VStr ''a'') 1 1 ''a'', Token IDENTIFIER (VStr ''b'') 2 1 ''b'',
          Token END_OF_INPUT (VStr []) 2 2 []]"
    by code_simp
  show ?thesis using h tokenize_positions [OF h] by (simp add: numeral_3_eq_3)
qed

text \<open>
  An error of the lexer carries the line and column of an offset inside the source, the start of
  the token it could not read; the only other exception is the \<open>ValueError\<close> of \<open>int\<close> or \<open>float\<close>.
\<close>

theorem tokenize_error_position:
  assumes "tokenize s = Inl e"
  shows "e = PyValueError \<or>
    (\<exists>m k. k < length s \<and> e = LexError m (fst (pos_at s k)) (snd (pos_at s k)))"
proof -
  have src: "source (new_lexer s) = s" by (simp add: new_lexer_def)
  show ?thesis
    using tokenize_from_error [OF positioned_new assms [unfolded tokenize_def], unfolded src]
    by blast
qed

lemma tokenize_error_position_witness:
  "tokenize [CHR ''a'', CHR 0x0A, CHR ''#''] = Inl (LexError (UnexpectedCharacter CHR ''#'') 2 1) \<and>
   (\<exists>m k. k < 3 \<and> LexError (UnexpectedCharacter CHR ''#'') 2 1 =
      LexError m (fst (pos_at [CHR ''a'', CHR 0x0A, CHR ''#''] k))
        (snd (pos_at [CHR ''a'', CHR 0x0A, CHR ''#''] k)))"
proof -
  have h: "tokenize [CHR ''a'', CHR 0x0A, CHR ''#''] = Inl (LexError (UnexpectedCharacter CHR ''#'') 2 1)"
    by code_simp
  show ?thesis using h tokenize_error_position [OF h] by (simp add: numeral_3_eq_3)
qed

end
