(* ===== verification/Lexer_Roundtrip.thy ===== *)
theory Lexer_Roundtrip
  imports Lexer
begin

text \<open>
  The scanner reads back what is printed: \<open>spells ty v s\<close> says that \<open>s\<close> is a spelling of the token
  of type \<open>ty\<close> with value \<open>v\<close> (a string is quoted and escaped, a number is its digits), and the
  scanner turns any sequence of spellings separated by spaces into exactly those tokens. Together
  with the round trip of the parser this gives a concrete text for every query.
\<close>

section \<open>Spellings\<close>

fun escape_string :: "string \<Rightarrow> string" where
  "escape_string [] = []"
| "escape_string (c # s) =
     (if c = CHR 0x0A then CHR 0x5C # CHR ''n'' # escape_string s
      else if c = CHR 0x22 \<or> c = CHR 0x5C then CHR 0x5C # c # escape_string s
      else c # escape_string s)"

definition quote_string :: "string \<Rightarrow> string" where
  "quote_string s = CHR 0x22 # escape_string s @ [CHR 0x22]"

definition is_digits :: "string \<Rightarrow> bool" where
  "is_digits s \<longleftrightarrow> s \<noteq> [] \<and> list_all is_decimal s"

definition is_name :: "string \<Rightarrow> bool" where
  "is_name s \<longleftrightarrow> s \<noteq> [] \<and> (py_isalpha (hd s) \<or> hd s = CHR ''_'') \<and> list_all is_name_char s"

definition spells :: "token_type \<Rightarrow> token_value \<Rightarrow> string \<Rightarrow> bool" where
  "spells ty v s \<longleftrightarrow>
     (if ty = STRING then (case v of VStr x \<Rightarrow> s = quote_string x | _ \<Rightarrow> False)
      else if ty = INTEGER then
        is_digits s \<and> (case v of VInt n \<Rightarrow> py_int s = Some n | _ \<Rightarrow> False)
      else if ty = FLOAT then
        (let ip = takeWhile (\<lambda>c. c \<noteq> CHR ''.'') s; fp = tl (dropWhile (\<lambda>c. c \<noteq> CHR ''.'') s)
         in s = ip @ CHR ''.'' # fp \<and> is_digits ip \<and> is_digits fp \<and>
            (case v of VFloat x \<Rightarrow> py_float_of_str ip fp = Some x | _ \<Rightarrow> False))
      else if ty = TEMPORAL_LITERAL then
        s \<noteq> [] \<and> hd s = CHR ''@'' \<and> is_date_shape (tl s) \<and> is_calendar_date (tl s) \<and> v = VStr (tl s)
      else if ty = IDENTIFIER then is_name s \<and> map_of reserved_keywords s = None \<and> v = VStr s
      else v = VStr s \<and>
        (map_of reserved_keywords s = Some ty \<or>
         (case s of [c] \<Rightarrow> map_of single_tokens c = Some ty
          | [c, d] \<Rightarrow> map_of two_tokens (c, d) = Some ty | _ \<Rightarrow> False)))"

section \<open>The scanner on a known prefix\<close>

definition rest :: "lexer \<Rightarrow> string" where
  "rest lx = drop (cursor lx) (source lx)"

lemma rest_skip [simp]: "rest (lx_skip n lx) = drop n (rest lx)"
  by (simp add: rest_def add.commute)

lemma rest_advance [simp]: "rest (lx_advance lx) = tl (rest lx)"
  by (simp add: rest_def drop_Suc tl_drop)

lemma at_end_rest: "lx_at_end lx \<longleftrightarrow> rest lx = []"
  by (simp add: lx_at_end_def rest_def)

lemma peek_rest: "lx_peek lx n = (if n < length (rest lx) then rest lx ! n else CHR 0x00)"
  by (auto simp: lx_peek_def rest_def Let_def)

lemma slice_rest: "slice (source lx) (cursor lx) (cursor lx + n) = take n (rest lx)"
  by (simp add: slice_def rest_def)

lemma advance_while_prefix:
  assumes "rest lx = xs @ ys" and "\<forall>i < length xs. p (lx_skip i lx)"
    and "ys \<noteq> [] \<Longrightarrow> \<not> p (lx_skip (length xs) lx)"
  shows "advance_while p lx = lx_skip (length xs) lx"
  using assms
proof (induction xs arbitrary: lx)
  case Nil
  then show ?case by (subst advance_while.simps) (auto simp: at_end_rest)
next
  case (Cons x xs)
  from Cons.prems(2) have all: "p (lx_skip (Suc i) lx)" if "i < length xs" for i
    using that by auto
  have p: "p lx" using Cons.prems(2) by (metis length_greater_0_conv list.discI lx_skip_simps(1))
  have "advance_while p (lx_advance lx) = lx_skip (length xs) (lx_advance lx)"
    using Cons.prems(1,3) all by (intro Cons.IH) (simp_all add: lx_skip_advance(1))
  with p Cons.prems(1) show ?case
    by (subst advance_while.simps) (simp add: at_end_rest lx_skip_advance(1))
qed

text \<open>A loop that looks only at the current character.\<close>

lemma advance_while_chars:
  assumes "rest lx = xs @ y # ys" and "list_all q xs" and "\<not> q y"
    and "\<And>lx. p lx \<longleftrightarrow> q (lx_peek lx 0)"
  shows "advance_while p lx = lx_skip (length xs) lx"
proof (rule advance_while_prefix [OF assms(1)])
  show "\<forall>i < length xs. p (lx_skip i lx)"
    using assms(1,2) by (simp add: assms(4) peek_rest nth_append list_all_length)
  show "\<not> p (lx_skip (length xs) lx)"
    using assms(1,3) by (simp add: assms(4) peek_rest nth_append)
qed

lemmas advance_while_digits = advance_while_chars [where p = at_digit and q = py_isdigit, OF _ _ _ at_digit_def]

lemmas advance_while_name =
  advance_while_chars [where p = at_name_char and q = is_name_char, OF _ _ _ at_name_char_def]

lemma digits_isdigit: "list_all is_decimal s \<Longrightarrow> list_all py_isdigit s"
  by (auto simp: list_all_iff py_isdigit_def)

section \<open>One token\<close>

lemma scan_string_loop_spelled:
  assumes "rest lx = escape_string s @ CHR 0x22 # ys"
  shows "\<exists>t. scan_string_loop lx chars l c = Inr (t, lx_skip (length (escape_string s) + 1) lx) \<and>
    tk_type t = STRING \<and> tk_value t = VStr (chars @ s)"
  using assms
proof (induction s arbitrary: lx chars)
  case Nil
  then show ?case
    by (subst scan_string_loop.simps) (simp add: at_end_rest peek_rest Let_def lx_skip_advance(1))
next
  case (Cons a s)
  let ?esc = "a = CHR 0x0A \<or> a = CHR 0x22 \<or> a = CHR 0x5C"
  show ?case
  proof (cases ?esc)
    case True
    let ?e = "if a = CHR 0x0A then CHR ''n'' else a"
    have r: "rest lx = CHR 0x5C # ?e # escape_string s @ CHR 0x22 # ys"
      using Cons.prems True by auto
    have "rest (lx_advance (lx_advance lx)) = escape_string s @ CHR 0x22 # ys" by (simp add: r)
    from Cons.IH [OF this, of "chars @ [a]"] obtain t where
      "scan_string_loop (lx_advance (lx_advance lx)) (chars @ [a]) l c =
         Inr (t, lx_skip (length (escape_string s) + 1) (lx_advance (lx_advance lx)))"
      "tk_type t = STRING" "tk_value t = VStr (chars @ a # s)"
      by auto
    moreover have "escape_map ?e = a" using True by (auto simp: escape_map_def)
    ultimately show ?thesis
      using True r
      by (subst scan_string_loop.simps) (auto simp: at_end_rest peek_rest Let_def lx_skip_advance(1))
  next
    case False
    have r: "rest lx = a # escape_string s @ CHR 0x22 # ys" using Cons.prems False by auto
    then have "rest (lx_advance lx) = escape_string s @ CHR 0x22 # ys" by simp
    from Cons.IH [OF this, of "chars @ [a]"] obtain t where
      "scan_string_loop (lx_advance lx) (chars @ [a]) l c =
         Inr (t, lx_skip (length (escape_string s) + 1) (lx_advance lx))"
      "tk_type t = STRING" "tk_value t = VStr (chars @ a # s)"
      by auto
    then show ?thesis
      using False r
      by (subst scan_string_loop.simps) (auto simp: at_end_rest peek_rest Let_def lx_skip_advance(1))
  qed
qed

text \<open>
  What a turn of the loop does on a spelling \<open>s\<close> followed by a space: the token, and the state after
  it.
\<close>

definition reads :: "token_type \<Rightarrow> token_value \<Rightarrow> string \<Rightarrow> lexer \<Rightarrow> bool" where
  "reads ty v s lx \<longleftrightarrow>
     (\<exists>t. next_token lx = Inr (Some t, lx_skip (length s) lx) \<and> tk_type t = ty \<and> tk_value t = v)"

text \<open>The characters with which a string, a date, a number or a name begins.\<close>

definition starts_scan :: "char \<Rightarrow> bool" where
  "starts_scan c \<longleftrightarrow> c = CHR 0x22 \<or> c = CHR ''@'' \<or> py_isdigit c \<or> py_isalpha c \<or> c = CHR ''_''"

lemma structural_not_scan:
  "list_all (\<lambda>c. \<not> starts_scan c)
     ([CHR '' '', CHR 0x09, CHR 0x0D, CHR 0x0A, CHR ''/''] @ map fst single_tokens @ map (fst \<circ> fst) two_tokens)"
  by (simp add: starts_scan_def single_tokens_def two_tokens_def py_isdigit_def is_decimal_def
      py_isalpha_def)

lemma map_of_None_by: "(\<And>y. (x, y) \<in> set xs \<Longrightarrow> False) \<Longrightarrow> map_of xs x = None"
  by (auto simp: map_of_eq_None_iff)

lemma next_token_scan:
  assumes "starts_scan (lx_peek lx 0)"
  shows "next_token lx = scan_token lx"
proof -
  let ?c = "lx_peek lx 0"
  have no: "?c \<noteq> d" if "d \<in> set ([CHR '' '', CHR 0x09, CHR 0x0D, CHR 0x0A, CHR ''/''] @ map fst single_tokens
      @ map (fst \<circ> fst) two_tokens)" for d
    using structural_not_scan assms that unfolding list_all_iff by metis
  have "?c \<notin> {CHR '' '', CHR 0x09, CHR 0x0D, CHR 0x0A}" "?c \<noteq> CHR ''/''" using no by auto
  moreover have "map_of single_tokens ?c = None"
    using no [of ?c] by (intro map_of_None_by) force
  moreover have "map_of two_tokens (?c, d) = None" for d
    using no [of ?c] by (intro map_of_None_by) force
  ultimately show ?thesis by (simp add: next_token_def Let_def)
qed

lemma digit_not_quote: "py_isdigit c \<Longrightarrow> c \<noteq> CHR 0x22 \<and> c \<noteq> CHR ''@''"
  by (auto simp: py_isdigit_def is_decimal_def)

lemma name_start_class:
  "py_isalpha c \<or> c = CHR ''_'' \<Longrightarrow> c \<noteq> CHR 0x22 \<and> c \<noteq> CHR ''@'' \<and> \<not> py_isdigit c \<and> is_name_char c"
  by (auto simp: py_isdigit_def is_decimal_def py_isalpha_def is_name_char_def py_isalnum_def)

lemma next_token_digit:
  "py_isdigit (lx_peek lx 0) \<Longrightarrow>
     next_token lx = bindE (scan_number lx (line lx) (column lx)) (\<lambda>(t, lx'). Inr (Some t, lx'))"
  using digit_not_quote by (simp add: next_token_scan starts_scan_def scan_token_def Let_def)

lemma next_token_name:
  "py_isalpha (lx_peek lx 0) \<or> lx_peek lx 0 = CHR ''_'' \<Longrightarrow>
     next_token lx = (case scan_identifier_or_keyword lx (line lx) (column lx) of (t, lx') \<Rightarrow> Inr (Some t, lx'))"
  using name_start_class [of "lx_peek lx 0"]
  by (simp add: next_token_scan starts_scan_def scan_token_def Let_def)

lemma reads_string:
  assumes "rest lx = quote_string x @ CHR '' '' # ys"
  shows "reads STRING (VStr x) (quote_string x) lx"
proof -
  have r: "rest (lx_advance lx) = escape_string x @ CHR 0x22 # CHR '' '' # ys"
    using assms by (simp add: quote_string_def)
  have p: "lx_peek lx 0 = CHR 0x22" using assms by (simp add: peek_rest quote_string_def)
  obtain t where "scan_string_loop (lx_advance lx) [] (line lx) (column lx) =
      Inr (t, lx_skip (length (escape_string x) + 1) (lx_advance lx))"
    "tk_type t = STRING" "tk_value t = VStr x"
    using scan_string_loop_spelled [OF r, of "[]" "line lx" "column lx"] by auto
  then show ?thesis
    by (simp add: reads_def next_token_scan starts_scan_def p scan_token_def Let_def scan_string_def
        quote_string_def lx_skip_advance(1))
qed

lemma not_digit_chars [simp]: "\<not> py_isdigit (CHR '' '')" "\<not> py_isdigit (CHR ''.'')"
  "\<not> is_name_char (CHR '' '')"
  by (simp_all add: py_isdigit_def is_decimal_def is_name_char_def py_isalnum_def py_isalpha_def)

lemma first_digit:
  assumes "is_digits s" "rest lx = s @ ys"
  shows "py_isdigit (lx_peek lx 0)" "\<not> lx_at_end lx"
  using assms by (cases s; auto simp: is_digits_def peek_rest at_end_rest py_isdigit_def)+

lemma reads_integer:
  assumes "is_digits s" "py_int s = Some n" "rest lx = s @ CHR '' '' # ys"
  shows "reads INTEGER (VInt n) s lx"
proof -
  have "advance_while at_digit lx = lx_skip (length s) lx"
    using assms by (intro advance_while_digits) (auto simp: is_digits_def digits_isdigit)
  moreover have "lx_peek (lx_skip (length s) lx) 0 = CHR '' ''" using assms(3) by (simp add: peek_rest)
  moreover have "slice (source lx) (cursor lx) (cursor lx + length s) = s"
    using assms(3) by (simp add: slice_rest)
  ultimately show ?thesis
    using assms(2) first_digit [OF assms(1,3)]
    by (simp add: reads_def next_token_digit Let_def scan_number_def)
qed

lemma reads_float:
  assumes "is_digits ip" "is_digits fp" "py_float_of_str ip fp = Some x"
    and "rest lx = (ip @ CHR ''.'' # fp) @ CHR '' '' # ys"
  shows "reads FLOAT (VFloat x) (ip @ CHR ''.'' # fp) lx"
proof -
  let ?n = "length ip" and ?m = "length fp"
  have r: "rest lx = ip @ CHR ''.'' # fp @ CHR '' '' # ys" using assms(4) by simp
  have a1: "advance_while at_digit lx = lx_skip ?n lx"
    using assms(1) r by (intro advance_while_digits) (auto simp: is_digits_def digits_isdigit)
  have p: "lx_peek (lx_skip ?n lx) 0 = CHR ''.''" "lx_peek (lx_skip ?n lx) 1 \<noteq> CHR ''.''"
    "at_digit (lx_skip (Suc ?n) lx)"
    using r assms(2)
    by (cases fp; auto simp: peek_rest is_digits_def at_digit_def py_isdigit_def is_decimal_def)+
  have a2: "advance_while at_digit (lx_skip (Suc ?n) lx) = lx_skip ?m (lx_skip (Suc ?n) lx)"
    using assms(2) r by (intro advance_while_digits) (auto simp: is_digits_def digits_isdigit)
  have "slice (source lx) (cursor lx) (cursor lx + ?n) = ip" using r by (simp add: slice_rest)
  moreover have "slice (source lx) (Suc (cursor lx + ?n)) (Suc (cursor lx + ?n + ?m)) = fp"
    using slice_rest [of "lx_skip (Suc ?n) lx" ?m] r by (simp add: add.assoc)
  ultimately show ?thesis
    using a1 a2 p assms(3) first_digit [OF assms(1) r]
    by (simp add: reads_def next_token_digit Let_def scan_number_def
        lx_skip_advance(2) add.commute add.left_commute)
qed

lemma date_chars:
  assumes "is_date_shape d" "i < length d"
  shows "is_decimal (d ! i) \<or> d ! i = CHR ''-''"
proof -
  from assms have i: "i < 10" by (simp add: is_date_shape_def)
  consider "i < 4" | "i = 4" | "i = 5" | "i = 6" | "i = 7" | "8 \<le> i" by linarith
  then show ?thesis
  proof cases
    case 1
    have "list_all is_decimal (take 4 d)" "length d = 10" using assms(1) by (simp_all add: is_date_shape_def)
    with 1 show ?thesis by (auto simp: list_all_length)
  next
    case 3
    have "list_all is_decimal (take 2 (drop 5 d))" "length d = 10" using assms(1) by (simp_all add: is_date_shape_def)
    with 3 show ?thesis by (auto simp: list_all_length dest: spec [of _ 0])
  next
    case 4
    have "list_all is_decimal (take 2 (drop 5 d))" "length d = 10" using assms(1) by (simp_all add: is_date_shape_def)
    with 4 show ?thesis by (auto simp: list_all_length dest: spec [of _ 1])
  next
    case 6
    have "list_all is_decimal (drop 8 d)" "length d = 10" using assms(1) by (simp_all add: is_date_shape_def)
    with 6 i show ?thesis by (auto simp: list_all_length dest: spec [of _ "i - 8"])
  qed (use assms(1) in \<open>auto simp: is_date_shape_def\<close>)
qed

lemma date_char_inside:
  "is_decimal c \<or> c = CHR ''-'' \<Longrightarrow> c \<notin> set date_delimiters \<and> c \<noteq> CHR ''.''"
  by (auto simp: date_delimiters_def is_decimal_def)

lemma reads_temporal:
  assumes d: "is_date_shape d" "is_calendar_date d" and r: "rest lx = (CHR ''@'' # d) @ CHR '' '' # ys"
  shows "reads TEMPORAL_LITERAL (VStr d) (CHR ''@'' # d) lx"
proof -
  let ?lx1 = "lx_advance lx"
  have r1: "rest ?lx1 = d @ CHR '' '' # ys" using r by simp
  have "advance_while in_temporal ?lx1 = lx_skip (length d) ?lx1"
  proof (rule advance_while_prefix [OF r1])
    show "\<forall>i < length d. in_temporal (lx_skip i ?lx1)"
      using r date_chars [OF d(1)] date_char_inside
      by (simp add: in_temporal_def peek_rest nth_append)
    show "\<not> in_temporal (lx_skip (length d) ?lx1)"
      using r by (simp add: in_temporal_def peek_rest date_delimiters_def)
  qed
  moreover have "slice (source lx) (Suc (cursor lx)) (Suc (cursor lx + length d)) = d"
    using slice_rest [of ?lx1 "length d"] r1 by simp
  moreover have "lx_peek lx 0 = CHR ''@''" using r by (simp add: peek_rest)
  ultimately show ?thesis
    using d by (simp add: reads_def next_token_scan starts_scan_def scan_token_def Let_def
        scan_temporal_literal_def lx_skip_advance(1))
qed

lemma reads_name:
  assumes "is_name s" "rest lx = s @ CHR '' '' # ys"
    and "map_of reserved_keywords s = Some ty \<or> (map_of reserved_keywords s = None \<and> ty = IDENTIFIER)"
  shows "reads ty (VStr s) s lx"
proof -
  obtain c s' where s: "s = c # s'" "py_isalpha c \<or> c = CHR ''_''"
    using assms(1) by (cases s) (auto simp: is_name_def)
  have "advance_while at_name_char lx = lx_skip (length s) lx"
    using assms(1,2) by (intro advance_while_name) (auto simp: is_name_def)
  moreover have "slice (source lx) (cursor lx) (cursor lx + length s) = s"
    using assms(2) by (simp add: slice_rest)
  moreover have "lx_peek lx 0 = c" using assms(2) s by (simp add: peek_rest)
  ultimately show ?thesis
    using s(2) assms(3)
    by (auto simp: reads_def next_token_name scan_identifier_or_keyword_def Let_def)
qed

lemma reserved_names: "map_of reserved_keywords s = Some ty \<Longrightarrow> is_name s"
proof -
  assume "map_of reserved_keywords s = Some ty"
  then have "(s, ty) \<in> set reserved_keywords" by (rule map_of_SomeD)
  moreover have "list_all (\<lambda>(s, ty). is_name s) reserved_keywords"
    by (simp add: reserved_keywords_def is_name_def py_isalpha_def is_name_char_def py_isalnum_def)
  ultimately show ?thesis by (auto simp: list_all_iff)
qed

lemma structural_first:
  "map_of single_tokens c = Some ty \<Longrightarrow> c \<notin> {CHR '' '', CHR 0x09, CHR 0x0D, CHR 0x0A} \<and> c \<noteq> CHR ''/''"
  "map_of two_tokens (c, d) = Some ty' \<Longrightarrow> c \<notin> {CHR '' '', CHR 0x09, CHR 0x0D, CHR 0x0A} \<and> c \<noteq> CHR ''/''"
proof -
  show "c \<notin> {CHR '' '', CHR 0x09, CHR 0x0D, CHR 0x0A} \<and> c \<noteq> CHR ''/''"
    if "map_of single_tokens c = Some ty"
    using map_of_SomeD [OF that] by (auto simp: single_tokens_def)
  show "c \<notin> {CHR '' '', CHR 0x09, CHR 0x0D, CHR 0x0A} \<and> c \<noteq> CHR ''/''"
    if "map_of two_tokens (c, d) = Some ty'"
    using map_of_SomeD [OF that] by (auto simp: two_tokens_def)
qed

lemma reads_single:
  assumes "map_of single_tokens c = Some ty" "rest lx = [c] @ CHR '' '' # ys"
  shows "reads ty (VStr [c]) [c] lx"
proof -
  have p: "lx_peek lx 0 = c" "lx_peek lx 1 = CHR '' ''" using assms(2) by (simp_all add: peek_rest)
  have "map_of two_tokens (c, CHR '' '') = None" by (rule map_of_None_by) (auto simp: two_tokens_def)
  then show ?thesis
    using p structural_first(1) [OF assms(1)] assms(1)
    by (simp add: reads_def next_token_def Let_def lx_skip_advance(1))
qed

lemma reads_two:
  assumes "map_of two_tokens (c, d) = Some ty" "rest lx = [c, d] @ CHR '' '' # ys"
  shows "reads ty (VStr [c, d]) [c, d] lx"
proof -
  have p: "lx_peek lx 0 = c" "lx_peek lx 1 = d" using assms(2) by (simp_all add: peek_rest)
  then show ?thesis
    using structural_first(2) [OF assms(1)] assms(1)
    by (simp add: reads_def next_token_def Let_def lx_skip_advance numeral_2_eq_2)
qed

lemma reads_spelling:
  assumes "spells ty v s" "rest lx = s @ CHR '' '' # ys"
  shows "reads ty v s lx"
proof -
  consider (string) x where "ty = STRING" "v = VStr x" "s = quote_string x"
    | (int) n where "ty = INTEGER" "v = VInt n" "is_digits s" "py_int s = Some n"
    | (float) x ip fp where "ty = FLOAT" "v = VFloat x" "s = ip @ CHR ''.'' # fp" "is_digits ip" "is_digits fp"
        "py_float_of_str ip fp = Some x"
    | (date) d where "ty = TEMPORAL_LITERAL" "s = CHR ''@'' # d" "v = VStr d" "is_date_shape d" "is_calendar_date d"
    | (name) "ty = IDENTIFIER" "v = VStr s" "is_name s" "map_of reserved_keywords s = None"
    | (keyword) "v = VStr s" "map_of reserved_keywords s = Some ty"
    | (single) c where "v = VStr s" "s = [c]" "map_of single_tokens c = Some ty"
    | (two) c d where "v = VStr s" "s = [c, d]" "map_of two_tokens (c, d) = Some ty"
    using assms(1) unfolding spells_def Let_def
    by (auto split: if_splits token_value.splits list.splits simp: neq_Nil_conv)
  then show ?thesis
  proof cases
    case keyword
    then show ?thesis using reads_name reserved_names assms(2) by blast
  qed (use assms(2) reads_string reads_integer reads_float reads_temporal reads_name reads_single
      reads_two in auto)
qed

section \<open>A sequence of spellings\<close>

definition spell_text :: "(token_type \<times> token_value \<times> string) list \<Rightarrow> string" where
  "spell_text xs = concat (map (\<lambda>(ty, v, s). s @ '' '') xs)"

definition kind :: "token \<Rightarrow> token_type \<times> token_value" where
  "kind t = (tk_type t, tk_value t)"

lemma tokenize_from_end:
  "rest lx = [] \<Longrightarrow> \<exists>e. tokenize_from lx = Inr [e] \<and> kind e = (END_OF_INPUT, VStr [])"
  by (subst tokenize_from.simps) (simp add: at_end_rest kind_def)

lemma tokenize_from_space:
  "rest lx = CHR '' '' # ys \<Longrightarrow> tokenize_from lx = tokenize_from (lx_advance lx)"
proof -
  assume r: "rest lx = CHR '' '' # ys"
  then have "next_token lx = Inr (None, lx_advance lx)"
    by (simp add: next_token_def Let_def peek_rest)
  with r show ?thesis
    by (subst tokenize_from.simps) (cases "tokenize_from (lx_advance lx)"; simp add: at_end_rest)
qed

lemma tokenize_from_spelled:
  assumes "list_all (\<lambda>(ty, v, s). spells ty v s) xs" "rest lx = spell_text xs"
  shows "\<exists>ts. tokenize_from lx = Inr ts \<and>
    map kind ts = map (\<lambda>(ty, v, s). (ty, v)) xs @ [(END_OF_INPUT, VStr [])]"
  using assms
proof (induction xs arbitrary: lx)
  case Nil
  then show ?case using tokenize_from_end [of lx] by (auto simp: spell_text_def)
next
  case (Cons x xs)
  obtain ty v s where x: "x = (ty, v, s)" by (cases x)
  with Cons.prems have r: "rest lx = s @ CHR '' '' # spell_text xs" and sp: "spells ty v s"
    by (auto simp: spell_text_def)
  from reads_spelling [OF sp r] obtain t where t: "next_token lx = Inr (Some t, lx_skip (length s) lx)"
    "kind t = (ty, v)"
    by (auto simp: reads_def kind_def)
  have r': "rest (lx_skip (length s) lx) = CHR '' '' # spell_text xs" using r by simp
  then have "rest (lx_advance (lx_skip (length s) lx)) = spell_text xs" by simp
  from Cons.IH [OF _ this] Cons.prems(1)
  obtain ts where ts: "tokenize_from (lx_advance (lx_skip (length s) lx)) = Inr ts"
    "map kind ts = map (\<lambda>(ty, v, s). (ty, v)) xs @ [(END_OF_INPUT, VStr [])]"
    by auto
  have "\<not> lx_at_end lx" using r by (simp add: at_end_rest)
  then have "tokenize_from lx = Inr (t # ts)"
    using t ts(1) tokenize_from_space [OF r'] by (subst tokenize_from.simps) simp
  with t(2) ts(2) show ?case by (simp add: x)
qed

section \<open>Properties\<close>

text \<open>
  The lexer reads back what is printed: any sequence of spellings (quoted and escaped strings,
  digit runs, decimals, dates, names, keywords, operators) separated by spaces is tokenized to
  exactly those token types and values, followed by the end marker.
\<close>

theorem tokenize_spelled:
  assumes "list_all (\<lambda>(ty, v, s). spells ty v s) xs"
  shows "\<exists>ts. tokenize (spell_text xs) = Inr ts \<and>
    map kind ts = map (\<lambda>(ty, v, s). (ty, v)) xs @ [(END_OF_INPUT, VStr [])]"
  using tokenize_from_spelled [OF assms, of "new_lexer (spell_text xs)"]
  by (simp add: tokenize_def rest_def new_lexer_def)

lemma tokenize_spelled_witness:
  "\<exists>ts. tokenize (spell_text [(KW_GET, VStr ''GET'', ''GET''), (IDENTIFIER, VStr ''users'', ''users''),
      (STRING, VStr [CHR ''a'', CHR 0x22, CHR 0x0A], quote_string [CHR ''a'', CHR 0x22, CHR 0x0A]),
      (INTEGER, VInt 42, ''42''), (GTE, VStr ''>='', ''>='')]) = Inr ts \<and>
    map kind ts = [(KW_GET, VStr ''GET''), (IDENTIFIER, VStr ''users''),
      (STRING, VStr [CHR ''a'', CHR 0x22, CHR 0x0A]), (INTEGER, VInt 42), (GTE, VStr ''>=''),
      (END_OF_INPUT, VStr [])]"
proof -
  let ?xs = "[(KW_GET, VStr ''GET'', ''GET''), (IDENTIFIER, VStr ''users'', ''users''),
      (STRING, VStr [CHR ''a'', CHR 0x22, CHR 0x0A], quote_string [CHR ''a'', CHR 0x22, CHR 0x0A]),
      (INTEGER, VInt 42, ''42''), (GTE, VStr ''>='', ''>='')]"
  have "list_all (\<lambda>(ty, v, s). spells ty v s) ?xs" by code_simp
  from tokenize_spelled [OF this] show ?thesis by simp
qed

text \<open>
  The lexeme of a string literal with an escape loses its beginning: the code slices back by the
  length of the value, not of the text. The value is right.
\<close>

lemma string_lexeme_truncated:
  "tokenize [CHR 0x22, CHR ''a'', CHR 0x5C, CHR ''n'', CHR ''b'', CHR 0x22] =
     Inr [Token STRING (VStr [CHR ''a'', CHR 0x0A, CHR ''b'']) 1 1
            [CHR ''a'', CHR 0x5C, CHR ''n'', CHR ''b'', CHR 0x22],
          Token END_OF_INPUT (VStr []) 1 7 []]"
  by code_simp

text \<open>A superscript digit starts a number and then \<open>int\<close> raises an exception that is no lexer error.\<close>

lemma superscript_digit_escapes: "tokenize [CHR 0xB2] = Inl PyValueError"
  by code_simp

end
