(* ===== verification/Parser.thy ===== *)
theory Parser
  imports Lexer_Roundtrip
begin

text \<open>
  The recursive descent parser (\<open>query_engine/parser/parser.py\<close>): the state of \<open>Parser\<close> (the tokens
  and the cursor), its inspection and consumption helpers, and one definition per parsing method,
  in the order of the file. A method returns its result with the parser's next state, or the
  exception it raises. The methods with a loop or a recursion take a bound on their depth; when the
  bound is reached the result is \<open>OutOfFuel\<close>, and \<open>parse\<close> starts with a bound that is enough for
  every token list of the lexer (theory \<open>Parser_Progress\<close>).
\<close>

section \<open>State and helpers\<close>

record parser =
  p_tokens :: "token list"
  p_cursor :: nat

type_synonym 'a parse_result = "query_error + 'a \<times> parser"

definition new_parser :: "token list \<Rightarrow> parser" where
  "new_parser ts = \<lparr>p_tokens = ts, p_cursor = 0\<rparr>"

definition pr_peek_at :: "parser \<Rightarrow> nat \<Rightarrow> token" where
  "pr_peek_at p off =
     (let i = p_cursor p + off
      in if length (p_tokens p) \<le> i then last (p_tokens p) else p_tokens p ! i)"

definition pr_peek :: "parser \<Rightarrow> token" where
  "pr_peek p = pr_peek_at p 0"

definition pr_at_end :: "parser \<Rightarrow> bool" where
  "pr_at_end p \<longleftrightarrow> tk_type (pr_peek p) = END_OF_INPUT"

definition pr_check :: "token_type \<Rightarrow> parser \<Rightarrow> bool" where
  "pr_check ty p \<longleftrightarrow>
     (if pr_at_end p then ty = END_OF_INPUT else tk_type (pr_peek p) = ty)"

text \<open>
  \<open>_advance\<close>: the new state. The token it returns is used only after a check that the parser is not
  at the end, and then it is the current token, \<open>pr_peek p\<close>.
\<close>

definition pr_next :: "parser \<Rightarrow> parser" where
  "pr_next p = (if pr_at_end p then p else p\<lparr>p_cursor := Suc (p_cursor p)\<rparr>)"

definition pr_match :: "token_type \<Rightarrow> parser \<Rightarrow> parser option" where
  "pr_match ty p = (if pr_check ty p then Some (pr_next p) else None)"

definition pr_error :: "parse_message \<Rightarrow> parser \<Rightarrow> query_error" where
  "pr_error msg p =
     (let tok = pr_peek p; kw = py_upper (tk_lexeme tok) in
      if tk_type tok = IDENTIFIER \<and> map_of reserved_keywords kw \<noteq> None
      then ParseError (KeywordCase (tk_lexeme tok) kw) (tk_line tok) (tk_column tok) (tk_lexeme tok)
      else ParseError msg (tk_line tok) (tk_column tok)
             (if tk_type tok \<noteq> END_OF_INPUT then tk_lexeme tok else ''EOF''))"

definition pr_consume :: "token_type \<Rightarrow> parse_message \<Rightarrow> parser \<Rightarrow> query_error + parser" where
  "pr_consume ty msg p = (if pr_check ty p then Inr (pr_next p) else Inl (pr_error msg p))"

definition consume_terminating_semicolon :: "parser \<Rightarrow> query_error + parser" where
  "consume_terminating_semicolon p =
     (case pr_match SEMICOLON p of
        None \<Rightarrow> Inl (pr_error ExpectedSemicolon p)
      | Some p1 \<Rightarrow> if \<not> pr_at_end p1 then Inl (pr_error TrailingTokens p1) else Inr p1)"

text \<open>The value of a token that the lexer made with a string, or with an integer.\<close>

fun value_str :: "token_value \<Rightarrow> string" where
  "value_str (VStr s) = s"
| "value_str v = []"

fun value_int :: "token_value \<Rightarrow> int" where
  "value_int (VInt n) = n"
| "value_int v = 0"

fun value_float :: "token_value \<Rightarrow> pyfloat" where
  "value_float (VFloat x) = x"
| "value_float v = PFin 0 0"

definition pr_str :: "parser \<Rightarrow> string" where
  "pr_str p = value_str (tk_value (pr_peek p))"

definition pr_int :: "parser \<Rightarrow> int" where
  "pr_int p = value_int (tk_value (pr_peek p))"

section \<open>Field paths and literals\<close>

fun path_loop :: "nat \<Rightarrow> parser \<Rightarrow> string list parse_result" where
  "path_loop 0 p = Inl OutOfFuel"
| "path_loop (Suc n) p =
     (case pr_match DOT p of
        None \<Rightarrow> Inr ([], p)
      | Some p1 \<Rightarrow>
          if \<not> pr_check IDENTIFIER p1 then Inl (pr_error ExpectedFieldSegment p1)
          else bindE (path_loop n (pr_next p1)) (\<lambda>(ss, p2). Inr (pr_str p1 # ss, p2)))"

definition parse_field_path :: "nat \<Rightarrow> parser \<Rightarrow> field_path parse_result" where
  "parse_field_path n p =
     (if \<not> pr_check IDENTIFIER p then Inl (pr_error ExpectedFieldName p)
      else bindE (path_loop n (pr_next p)) (\<lambda>(ss, p1). Inr (FieldPath (pr_str p) ss, p1)))"

definition parse_literal :: "parser \<Rightarrow> literal parse_result" where
  "parse_literal p =
     (let tok = pr_peek p; v = tk_value tok; p1 = pr_next p in
      if pr_check STRING p then Inr (StringLiteral (value_str v), p1)
      else if pr_check INTEGER p then Inr (IntegerLiteral (value_int v), p1)
      else if pr_check FLOAT p then Inr (FloatLiteral (value_float v), p1)
      else if pr_check KW_TRUE p then Inr (BooleanLiteral True, p1)
      else if pr_check KW_FALSE p then Inr (BooleanLiteral False, p1)
      else if pr_check KW_NULL p then Inr (NullLiteral, p1)
      else if pr_check KW_TODAY p then Inr (TemporalLiteral (Some TODAY) None, p1)
      else if pr_check KW_NOW p then Inr (TemporalLiteral (Some NOW) None, p1)
      else if pr_check TEMPORAL_LITERAL p then Inr (TemporalLiteral None (Some (value_str v)), p1)
      else Inl (pr_error (ExpectedLiteral (tk_lexeme tok)) p))"

definition parse_string_literal :: "parser \<Rightarrow> literal parse_result" where
  "parse_string_literal p =
     (if \<not> pr_check STRING p then Inl (pr_error ExpectedStringLiteral p)
      else Inr (StringLiteral (pr_str p), pr_next p))"

definition parse_literal_or_range :: "parser \<Rightarrow> operand parse_result" where
  "parse_literal_or_range p =
     bindE (parse_literal p) (\<lambda>(lit, p1).
     case pr_match DOTDOT p1 of
       None \<Rightarrow> Inr (OperandLiteral lit, p1)
     | Some p2 \<Rightarrow> bindE (parse_literal p2) (\<lambda>(end_lit, p3). Inr (OperandRange (Range lit end_lit True), p3)))"

section \<open>Value sets\<close>

definition comparison_tokens :: "(token_type \<times> comparison_operator) list" where
  "comparison_tokens = [(EQ, OpEQ), (NEQ, OpNEQ), (GT, OpGT), (LT, OpLT), (GTE, OpGTE), (LTE, OpLTE)]"

text \<open>The operator of the current token, if it is a comparison token.\<close>

definition comparison_at :: "parser \<Rightarrow> comparison_operator option" where
  "comparison_at p = map_of comparison_tokens (tk_type (pr_peek p))"

definition parse_comparison_constraint ::
    "comparison_operator \<Rightarrow> parser \<Rightarrow> comparison_constraint parse_result" where
  "parse_comparison_constraint op p =
     bindE (parse_literal (pr_next p)) (\<lambda>(lit, p1). Inr (ComparisonConstraint op lit, p1))"

fun constraint_loop :: "nat \<Rightarrow> parser \<Rightarrow> comparison_constraint list parse_result" where
  "constraint_loop 0 p = Inl OutOfFuel"
| "constraint_loop (Suc n) p =
     (case comparison_at p of
        None \<Rightarrow> Inl (pr_error ExpectedConstraint p)
      | Some op \<Rightarrow>
          bindE (parse_comparison_constraint op p) (\<lambda>(c, p1).
          case pr_match AMPERSAND p1 of
            None \<Rightarrow> Inr ([c], p1)
          | Some p2 \<Rightarrow> bindE (constraint_loop n p2) (\<lambda>(cs, p3). Inr (c # cs, p3))))"

definition parse_value_set_element :: "nat \<Rightarrow> parser \<Rightarrow> value_set_element parse_result" where
  "parse_value_set_element n p =
     (case comparison_at p of
        Some op \<Rightarrow>
          bindE (parse_comparison_constraint op p) (\<lambda>(c, p1).
          case pr_match AMPERSAND p1 of
            None \<Rightarrow> Inr (ElemConstraint c, p1)
          | Some p2 \<Rightarrow> bindE (constraint_loop n p2) (\<lambda>(cs, p3). Inr (ElemCompound (c # cs), p3)))
      | None \<Rightarrow>
          bindE (parse_literal p) (\<lambda>(lit, p1).
          case pr_match DOTDOT p1 of
            None \<Rightarrow> Inr (ElemLiteral lit, p1)
          | Some p2 \<Rightarrow>
              bindE (parse_literal p2) (\<lambda>(lit2, p3). Inr (ElemRange (Range lit lit2 True), p3))))"

fun value_set_loop :: "nat \<Rightarrow> parser \<Rightarrow> value_set_element list parse_result" where
  "value_set_loop 0 p = Inl OutOfFuel"
| "value_set_loop (Suc n) p =
     (if pr_check RBRACE p \<or> pr_at_end p then Inr ([], p)
      else
        bindE (parse_value_set_element n p) (\<lambda>(el, p1).
        case pr_match COMMA p1 of
          Some p2 \<Rightarrow>
            if pr_check RBRACE p2 then Inr ([el], p2)
            else bindE (value_set_loop n p2) (\<lambda>(els, p3). Inr (el # els, p3))
        | None \<Rightarrow>
            if pr_check RBRACE p1 then Inr ([el], p1)
            else Inl (pr_error (ExpectedSeparator ''value set'') p1)))"

definition parse_value_set :: "nat \<Rightarrow> parser \<Rightarrow> value_set parse_result" where
  "parse_value_set n p =
     (if pr_check RBRACE p then Inl (pr_error EmptyValueSet p)
      else
        bindE (value_set_loop n p) (\<lambda>(els, p1).
        bindE (pr_consume RBRACE (ExpectedToken ''}'') p1) (\<lambda>p2. Inr (ValueSet els, p2))))"

section \<open>Conditions\<close>

definition parse_string_operand :: "string_operator \<Rightarrow> nat \<Rightarrow> parser \<Rightarrow> (field_operator \<times> operand) parse_result" where
  "parse_string_operand op n p =
     (case pr_match LBRACE p of
        Some p1 \<Rightarrow>
          bindE (parse_value_set n p1) (\<lambda>(vs, p2). Inr ((StringOp op, OperandSet vs), p2))
      | None \<Rightarrow>
          bindE (parse_string_literal p) (\<lambda>(lit, p1). Inr ((StringOp op, OperandLiteral lit), p1)))"

definition parse_operator_and_operand :: "nat \<Rightarrow> parser \<Rightarrow> (field_operator \<times> operand) parse_result" where
  "parse_operator_and_operand n p =
     (if pr_check KW_STARTS p then
        bindE (parse_string_literal (pr_next p))
          (\<lambda>(lit, p1). Inr ((StringOp STARTS, OperandLiteral lit), p1))
      else if pr_check KW_ENDS p then
        bindE (parse_string_literal (pr_next p))
          (\<lambda>(lit, p1). Inr ((StringOp ENDS, OperandLiteral lit), p1))
      else if pr_check KW_HAS p then parse_string_operand HAS n (pr_next p)
      else if pr_check KW_NOT p then
        bindE (pr_consume KW_HAS (ExpectedToken ''HAS'') (pr_next p)) (parse_string_operand NOT_HAS n)
      else case comparison_at p of
        None \<Rightarrow> Inl (pr_error ExpectedOperator p)
      | Some op \<Rightarrow>
          (let p1 = pr_next p in
           case pr_match LBRACE p1 of
             Some p2 \<Rightarrow>
               if is_ordering op then Inl (pr_error (SetAfterOrdering op) p2)
               else bindE (parse_value_set n p2) (\<lambda>(vs, p3). Inr ((Comparison op, OperandSet vs), p3))
           | None \<Rightarrow>
               bindE (parse_literal_or_range p1) (\<lambda>(v, p2). Inr ((Comparison op, v), p2))))"

definition parse_atomic_field_expression :: "nat \<Rightarrow> parser \<Rightarrow> expression parse_result" where
  "parse_atomic_field_expression n p =
     bindE (parse_field_path n p) (\<lambda>(fp, p1).
     bindE (parse_operator_and_operand n p1) (\<lambda>((op, v), p2). Inr (FieldExpression fp op v, p2)))"

text \<open>The test after \<open>OR\<close>, \<open>AND\<close> and \<open>NOT\<close> that an expression can follow.\<close>

definition no_expression_at :: "parser \<Rightarrow> bool" where
  "no_expression_at p \<longleftrightarrow> pr_check RBRACE p \<or> pr_at_end p \<or> pr_check SEMICOLON p"

fun parse_or_expression :: "nat \<Rightarrow> parser \<Rightarrow> expression parse_result"
  and or_loop :: "nat \<Rightarrow> expression \<Rightarrow> parser \<Rightarrow> expression parse_result"
  and parse_and_expression :: "nat \<Rightarrow> parser \<Rightarrow> expression parse_result"
  and and_loop :: "nat \<Rightarrow> expression \<Rightarrow> parser \<Rightarrow> expression parse_result"
  and parse_not_expression :: "nat \<Rightarrow> parser \<Rightarrow> expression parse_result"
  and parse_primary_expression :: "nat \<Rightarrow> parser \<Rightarrow> expression parse_result" where
  "parse_or_expression 0 p = Inl OutOfFuel"
| "parse_or_expression (Suc n) p =
     bindE (parse_and_expression n p) (\<lambda>(e, p1). or_loop n e p1)"
| "or_loop 0 e p = Inl OutOfFuel"
| "or_loop (Suc n) e p =
     (case pr_match KW_OR p of
        None \<Rightarrow> Inr (e, p)
      | Some p1 \<Rightarrow>
          if no_expression_at p1 then Inl (pr_error (ExpectedExpressionAfter ''OR'') p1)
          else bindE (parse_and_expression n p1) (\<lambda>(r, p2). or_loop n (LogicalExpression LOr e r) p2))"
| "parse_and_expression 0 p = Inl OutOfFuel"
| "parse_and_expression (Suc n) p =
     bindE (parse_not_expression n p) (\<lambda>(e, p1). and_loop n e p1)"
| "and_loop 0 e p = Inl OutOfFuel"
| "and_loop (Suc n) e p =
     (case pr_match KW_AND p of
        Some p1 \<Rightarrow>
          if no_expression_at p1 then Inl (pr_error (ExpectedExpressionAfter ''AND'') p1)
          else bindE (parse_not_expression n p1) (\<lambda>(r, p2). and_loop n (LogicalExpression LAnd e r) p2)
      | None \<Rightarrow>
          if pr_check COMMA p then
            if tk_type (pr_peek_at p 1) = RBRACE then Inl (pr_error (TrailingComma ''WHERE'') p)
            else bindE (parse_not_expression n (pr_next p))
                   (\<lambda>(r, p2). and_loop n (LogicalExpression LAnd e r) p2)
          else Inr (e, p))"
| "parse_not_expression 0 p = Inl OutOfFuel"
| "parse_not_expression (Suc n) p =
     (case pr_match KW_NOT p of
        Some p1 \<Rightarrow>
          if no_expression_at p1 then Inl (pr_error (ExpectedExpressionAfter ''NOT'') p1)
          else bindE (parse_not_expression n p1) (\<lambda>(e, p2). Inr (NegationExpression e, p2))
      | None \<Rightarrow> parse_primary_expression n p)"
| "parse_primary_expression 0 p = Inl OutOfFuel"
| "parse_primary_expression (Suc n) p =
     (case pr_match LBRACE p of
        Some p1 \<Rightarrow>
          if pr_check RBRACE p1 then Inl (pr_error EmptyGroup p1)
          else bindE (parse_or_expression n p1) (\<lambda>(e, p2).
               bindE (pr_consume RBRACE (ExpectedToken ''}'') p2) (\<lambda>p3. Inr (e, p3)))
      | None \<Rightarrow>
          if pr_check IDENTIFIER p then parse_atomic_field_expression n p
          else Inl (pr_error ExpectedPrimary p))"

fun where_loop :: "nat \<Rightarrow> parser \<Rightarrow> expression list parse_result" where
  "where_loop 0 p = Inl OutOfFuel"
| "where_loop (Suc n) p =
     (if pr_check RBRACE p \<or> pr_at_end p then Inr ([], p)
      else
        bindE (parse_or_expression n p) (\<lambda>(e, p1).
        case pr_match COMMA p1 of
          Some p2 \<Rightarrow>
            if pr_check RBRACE p2 then Inr ([e], p2)
            else bindE (where_loop n p2) (\<lambda>(es, p3). Inr (e # es, p3))
        | None \<Rightarrow>
            if pr_check RBRACE p1 then Inr ([e], p1)
            else bindE (where_loop n p1) (\<lambda>(es, p3). Inr (e # es, p3))))"

definition parse_where_block :: "nat \<Rightarrow> parser \<Rightarrow> expression parse_result" where
  "parse_where_block n p =
     bindE (pr_consume LBRACE (ExpectedToken ''{'') p) (\<lambda>p1.
     if pr_check RBRACE p1 then Inl (pr_error EmptyWhere p1)
     else
       bindE (where_loop n p1) (\<lambda>(es, p2).
       bindE (pr_consume RBRACE (ExpectedToken ''}'') p2) (\<lambda>p3.
       case es of
         [] \<Rightarrow> Inl (pr_error EmptyWhere p3)
       | e # es' \<Rightarrow> Inr (foldl (LogicalExpression LAnd) e es', p3))))"

section \<open>Projection, sorting and ranking\<close>

definition parse_alias :: "parser \<Rightarrow> string option parse_result" where
  "parse_alias p =
     (case pr_match KW_AS p of
        None \<Rightarrow> Inr (None, p)
      | Some p1 \<Rightarrow>
          if \<not> pr_check IDENTIFIER p1 then Inl (pr_error ExpectedAlias p1)
          else Inr (Some (pr_str p1), pr_next p1))"

fun projection_loop :: "nat \<Rightarrow> parser \<Rightarrow> field_selection list parse_result" where
  "projection_loop 0 p = Inl OutOfFuel"
| "projection_loop (Suc n) p =
     bindE (parse_field_path n p) (\<lambda>(fp, p1).
     bindE (parse_alias p1) (\<lambda>(al, p3).
     case pr_match COMMA p3 of
       Some p4 \<Rightarrow>
         if pr_check RPAREN p4 then Inl (pr_error (TrailingComma ''projection list'') p4)
         else bindE (projection_loop n p4) (\<lambda>(sels, p5). Inr (FieldSelection fp al # sels, p5))
     | None \<Rightarrow>
         (case pr_match RPAREN p3 of
            Some p4 \<Rightarrow> Inr ([FieldSelection fp al], p4)
          | None \<Rightarrow> Inl (pr_error (ExpectedSeparator ''projection list'') p3))))"

definition parse_projection_list :: "nat \<Rightarrow> parser \<Rightarrow> field_selection list parse_result" where
  "parse_projection_list n p =
     (case pr_match RPAREN p of Some p1 \<Rightarrow> Inr ([], p1) | None \<Rightarrow> projection_loop n p)"

definition parse_direction :: "parser \<Rightarrow> sort_direction parse_result" where
  "parse_direction p =
     (case pr_match KW_ASC p of
        Some p1 \<Rightarrow> Inr (ASC, p1)
      | None \<Rightarrow>
          (case pr_match KW_DESC p of
             Some p1 \<Rightarrow> Inr (DESC, p1)
           | None \<Rightarrow> Inl (pr_error ExpectedDirection p)))"

fun sort_loop :: "nat \<Rightarrow> parser \<Rightarrow> sort_clause list parse_result" where
  "sort_loop 0 p = Inl OutOfFuel"
| "sort_loop (Suc n) p =
     (if pr_check RBRACE p \<or> pr_at_end p then Inr ([], p)
      else
        bindE (parse_field_path n p) (\<lambda>(fp, p1).
        bindE (parse_direction p1) (\<lambda>(dir, p2).
        case pr_match COMMA p2 of
          Some p3 \<Rightarrow>
            if pr_check RBRACE p3 then Inr ([SortClause fp dir], p3)
            else bindE (sort_loop n p3) (\<lambda>(scs, p4). Inr (SortClause fp dir # scs, p4))
        | None \<Rightarrow>
            if pr_check RBRACE p2 then Inr ([SortClause fp dir], p2)
            else if pr_check IDENTIFIER p2
            then bindE (sort_loop n p2) (\<lambda>(scs, p4). Inr (SortClause fp dir # scs, p4))
            else Inl (pr_error (ExpectedSeparator ''SORT block'') p2))))"

definition parse_sort_block :: "nat \<Rightarrow> parser \<Rightarrow> sort_clause list parse_result" where
  "parse_sort_block n p =
     bindE (pr_consume LBRACE (ExpectedToken ''{'') p) (\<lambda>p1.
     if pr_check RBRACE p1 then Inl (pr_error EmptySort p1)
     else
       bindE (sort_loop n p1) (\<lambda>(scs, p2).
       bindE (pr_consume RBRACE (ExpectedToken ''}'') p2) (\<lambda>p3. Inr (scs, p3))))"

definition parse_ranking_clause :: "ranking_direction \<Rightarrow> nat \<Rightarrow> parser \<Rightarrow> ranking_clause parse_result" where
  "parse_ranking_clause dir n p =
     (if \<not> pr_check INTEGER p then Inl (pr_error (ExpectedIntegerAfter ''ranking'') p)
      else
        bindE (pr_consume KW_BY (ExpectedToken ''BY'') (pr_next p)) (\<lambda>p1.
        bindE (parse_field_path n p1) (\<lambda>(fp, p2). Inr (RankingClause dir (pr_int p) fp, p2))))"

section \<open>Mutation payloads\<close>

text \<open>\<open>field : value\<close>, without the duplicate check.\<close>

definition parse_assignment_value :: "field_path \<Rightarrow> parser \<Rightarrow> mutation_assignment parse_result" where
  "parse_assignment_value fp p =
     bindE (pr_consume COLON (ExpectedToken '':'') p) (\<lambda>p1.
     bindE (parse_literal p1) (\<lambda>(v, p2). Inr (MutationAssignment fp v, p2)))"

fun single_record_loop :: "nat \<Rightarrow> string list \<Rightarrow> parser \<Rightarrow> mutation_assignment list parse_result" where
  "single_record_loop 0 seen p = Inl OutOfFuel"
| "single_record_loop (Suc n) seen p =
     (if pr_check RPAREN p \<or> pr_at_end p then Inr ([], p)
      else if pr_check LPAREN p then Inl (pr_error MixedRecordSyntax p)
      else
        bindE (parse_field_path n p) (\<lambda>(fp, p1).
        if full_path fp \<in> set seen then Inl (pr_error (DuplicateAssignment (full_path fp)) p1)
        else
          bindE (parse_assignment_value fp p1) (\<lambda>(a, p2).
          case pr_match COMMA p2 of
            Some p3 \<Rightarrow>
              if pr_check RPAREN p3 then Inl (pr_error (TrailingComma ''mutation payload'') p3)
              else bindE (single_record_loop n (full_path fp # seen) p3) (\<lambda>(as, p4). Inr (a # as, p4))
          | None \<Rightarrow>
              if pr_check RPAREN p2 then Inr ([a], p2)
              else Inl (pr_error (ExpectedSeparator ''mutation payload'') p2))))"

definition parse_single_create_record :: "nat \<Rightarrow> parser \<Rightarrow> create_record list parse_result" where
  "parse_single_create_record n p =
     bindE (single_record_loop n [] p) (\<lambda>(as, p1).
     bindE (pr_consume RPAREN (ExpectedToken '')'') p1) (\<lambda>p2. Inr ([CreateRecord as], p2)))"

fun record_loop :: "nat \<Rightarrow> string list \<Rightarrow> parser \<Rightarrow> mutation_assignment list parse_result" where
  "record_loop 0 seen p = Inl OutOfFuel"
| "record_loop (Suc n) seen p =
     (if pr_check RPAREN p \<or> pr_at_end p then Inr ([], p)
      else
        bindE (parse_field_path n p) (\<lambda>(fp, p1).
        if full_path fp \<in> set seen then Inl (pr_error (DuplicateAssignment (full_path fp)) p1)
        else
          bindE (parse_assignment_value fp p1) (\<lambda>(a, p2).
          case pr_match COMMA p2 of
            Some p3 \<Rightarrow>
              if pr_check RPAREN p3 then Inl (pr_error (TrailingComma ''record payload'') p3)
              else bindE (record_loop n (full_path fp # seen) p3) (\<lambda>(as, p4). Inr (a # as, p4))
          | None \<Rightarrow>
              if pr_check RPAREN p2 then Inr ([a], p2)
              else Inl (pr_error (ExpectedSeparator ''record payload'') p2))))"

definition parse_create_record :: "nat \<Rightarrow> parser \<Rightarrow> create_record parse_result" where
  "parse_create_record n p =
     bindE (pr_consume LPAREN (ExpectedToken ''('') p) (\<lambda>p1.
     if pr_check RPAREN p1 then Inl (pr_error EmptyRecord p1)
     else
       bindE (record_loop n [] p1) (\<lambda>(as, p2).
       bindE (pr_consume RPAREN (ExpectedToken '')'') p2) (\<lambda>p3. Inr (CreateRecord as, p3))))"

fun batch_loop :: "nat \<Rightarrow> parser \<Rightarrow> create_record list parse_result" where
  "batch_loop 0 p = Inl OutOfFuel"
| "batch_loop (Suc n) p =
     (if pr_check RPAREN p \<or> pr_at_end p then Inr ([], p)
      else if pr_check IDENTIFIER p then Inl (pr_error MixedRecordSyntax p)
      else if \<not> pr_check LPAREN p then Inl (pr_error (ExpectedToken ''('') p)
      else
        bindE (parse_create_record n p) (\<lambda>(r, p1).
        case pr_match COMMA p1 of
          Some p2 \<Rightarrow>
            if pr_check RPAREN p2 then Inl (pr_error (TrailingComma ''CREATE batch payload'') p2)
            else bindE (batch_loop n p2) (\<lambda>(rs, p3). Inr (r # rs, p3))
        | None \<Rightarrow>
            if pr_check RPAREN p1 then Inr ([r], p1)
            else if pr_check LPAREN p1 then Inl (pr_error (ExpectedSeparator ''records'') p1)
            else Inl (pr_error (ExpectedSeparator ''CREATE batch payload'') p1)))"

definition parse_batch_create_records :: "nat \<Rightarrow> parser \<Rightarrow> create_record list parse_result" where
  "parse_batch_create_records n p =
     bindE (batch_loop n p) (\<lambda>(rs, p1).
     bindE (pr_consume RPAREN (ExpectedToken '')'') p1) (\<lambda>p2. Inr (rs, p2)))"

definition parse_create_payload :: "nat \<Rightarrow> parser \<Rightarrow> create_record list parse_result" where
  "parse_create_payload n p =
     bindE (pr_consume LPAREN (ExpectedToken ''('') p) (\<lambda>p1.
     if pr_check RPAREN p1 then Inl (pr_error EmptyCreatePayload p1)
     else if pr_check LPAREN p1 then parse_batch_create_records n p1
     else if pr_check IDENTIFIER p1 then parse_single_create_record n p1
     else Inl (pr_error ExpectedRecordOrField p1))"

fun payload_loop :: "nat \<Rightarrow> parser \<Rightarrow> mutation_assignment list parse_result" where
  "payload_loop 0 p = Inl OutOfFuel"
| "payload_loop (Suc n) p =
     (if pr_check RPAREN p \<or> pr_at_end p then Inr ([], p)
      else
        bindE (parse_field_path n p) (\<lambda>(fp, p1).
        bindE (parse_assignment_value fp p1) (\<lambda>(a, p2).
        case pr_match COMMA p2 of
          Some p3 \<Rightarrow>
            if pr_check RPAREN p3 then Inl (pr_error (TrailingComma ''mutation payload'') p3)
            else bindE (payload_loop n p3) (\<lambda>(as, p4). Inr (a # as, p4))
        | None \<Rightarrow>
            if pr_check RPAREN p2 then Inr ([a], p2)
            else Inl (pr_error (ExpectedSeparator ''mutation payload'') p2))))"

definition parse_mutation_payload :: "nat \<Rightarrow> parser \<Rightarrow> mutation_assignment list parse_result" where
  "parse_mutation_payload n p =
     bindE (pr_consume LPAREN (ExpectedToken ''('') p) (\<lambda>p1.
     if pr_check RPAREN p1 then Inl (pr_error EmptyMutationPayload p1)
     else
       bindE (payload_loop n p1) (\<lambda>(as, p2).
       bindE (pr_consume RPAREN (ExpectedToken '')'') p2) (\<lambda>p3. Inr (as, p3))))"

section \<open>Statements\<close>

definition parse_entity :: "query_operation \<Rightarrow> parser \<Rightarrow> string parse_result" where
  "parse_entity op p =
     (if \<not> pr_check IDENTIFIER p then Inl (pr_error (ExpectedEntity op) p)
      else Inr (pr_str p, pr_next p))"

fun ordering_loop ::
    "nat \<Rightarrow> sort_clause list \<Rightarrow> ranking_clause option \<Rightarrow> bool \<Rightarrow> bool \<Rightarrow> parser \<Rightarrow>
     (sort_clause list \<times> ranking_clause option) parse_result" where
  "ordering_loop 0 scs rk has_sort has_ranking p = Inl OutOfFuel"
| "ordering_loop (Suc n) scs rk has_sort has_ranking p =
     (if pr_check KW_SORT p then
        if has_ranking then Inl (pr_error SortWithRanking p)
        else bindE (parse_sort_block n (pr_next p))
               (\<lambda>(scs', p1). ordering_loop n scs' rk True has_ranking p1)
      else if pr_check KW_TOP p \<or> pr_check KW_BOTTOM p then
        if has_sort then Inl (pr_error SortWithRanking p)
        else bindE (parse_ranking_clause (if pr_check KW_TOP p then TOP else BOTTOM) n (pr_next p))
               (\<lambda>(rk', p1). ordering_loop n scs (Some rk') has_sort True p1)
      else Inr ((scs, rk), p))"

fun paging_loop ::
    "nat \<Rightarrow> int option \<Rightarrow> int option \<Rightarrow> parser \<Rightarrow> (int option \<times> int option) parse_result" where
  "paging_loop 0 lim off p = Inl OutOfFuel"
| "paging_loop (Suc n) lim off p =
     (case pr_match KW_LIMIT p of
        Some p1 \<Rightarrow>
          if lim \<noteq> None then Inl (pr_error DuplicateLimit p1)
          else if \<not> pr_check INTEGER p1 then Inl (pr_error (ExpectedIntegerAfter ''LIMIT'') p1)
          else paging_loop n (Some (pr_int p1)) off (pr_next p1)
      | None \<Rightarrow>
          (case pr_match KW_OFFSET p of
             Some p1 \<Rightarrow>
               if off \<noteq> None then Inl (pr_error DuplicateOffset p1)
               else if \<not> pr_check INTEGER p1 then Inl (pr_error (ExpectedIntegerAfter ''OFFSET'') p1)
               else paging_loop n lim (Some (pr_int p1)) (pr_next p1)
           | None \<Rightarrow> Inr ((lim, off), p)))"

definition parse_get :: "nat \<Rightarrow> parser \<Rightarrow> query_ir parse_result" where
  "parse_get n p =
     bindE (parse_entity READ p) (\<lambda>(name, p1).
     bindE (case pr_match LPAREN p1 of
              Some p2 \<Rightarrow> parse_projection_list n p2
            | None \<Rightarrow> Inr ([], p1)) (\<lambda>(sels, p2).
     bindE (case pr_match KW_WHERE p2 of
              Some p3 \<Rightarrow> bindE (parse_where_block n p3) (\<lambda>(e, p4). Inr (Some e, p4))
            | None \<Rightarrow> Inr (None, p2)) (\<lambda>(w, p3).
     bindE (ordering_loop n [] None False False p3) (\<lambda>((scs, rk), p4).
     bindE (paging_loop n None None p4) (\<lambda>((lim, off), p5).
     bindE (consume_terminating_semicolon p5) (\<lambda>p6.
     Inr ((bare_ir READ name)\<lparr>projection := sels, where_clause := w, sort_clauses := scs, ranking := rk,
            limit := lim, offset := off\<rparr>, p6)))))))"

definition reject_clauses :: "query_operation \<Rightarrow> parser \<Rightarrow> query_error + unit" where
  "reject_clauses op p =
     (if pr_check KW_SORT p \<or> pr_check KW_TOP p \<or> pr_check KW_BOTTOM p
      then Inl (pr_error (ClauseNotSupported ''SORT'' op) p)
      else if pr_check KW_LIMIT p then Inl (pr_error (ClauseNotSupported ''LIMIT'' op) p)
      else if pr_check KW_OFFSET p then Inl (pr_error (ClauseNotSupported ''OFFSET'' op) p)
      else Inr ())"

definition parse_create :: "nat \<Rightarrow> parser \<Rightarrow> query_ir parse_result" where
  "parse_create n p =
     bindE (parse_entity CREATE p) (\<lambda>(name, p1).
     if \<not> pr_check LPAREN p1 then Inl (pr_error (ExpectedPayload name) p1)
     else
       bindE (parse_create_payload n p1) (\<lambda>(rs, p2).
       if pr_check KW_WHERE p2 then Inl (pr_error (ClauseNotSupported ''WHERE'' CREATE) p2)
       else
         bindE (reject_clauses CREATE p2) (\<lambda>_.
         bindE (consume_terminating_semicolon p2) (\<lambda>p3.
         Inr ((bare_ir CREATE name)\<lparr>records := rs\<rparr>, p3)))))"

definition parse_update :: "nat \<Rightarrow> parser \<Rightarrow> query_ir parse_result" where
  "parse_update n p =
     bindE (parse_entity UPDATE p) (\<lambda>(name, p1).
     if \<not> pr_check LPAREN p1 then Inl (pr_error (ExpectedPayload name) p1)
     else
       bindE (parse_mutation_payload n p1) (\<lambda>(as, p2).
       case pr_match KW_WHERE p2 of
         None \<Rightarrow> Inl (pr_error ExpectedWhere p2)
       | Some p3 \<Rightarrow>
           bindE (parse_where_block n p3) (\<lambda>(e, p4).
           bindE (reject_clauses UPDATE p4) (\<lambda>_.
           bindE (consume_terminating_semicolon p4) (\<lambda>p5.
           Inr ((bare_ir UPDATE name)\<lparr>assignments := as, where_clause := Some e\<rparr>, p5))))))"

definition parse_delete :: "nat \<Rightarrow> parser \<Rightarrow> query_ir parse_result" where
  "parse_delete n p =
     bindE (parse_entity DELETE p) (\<lambda>(name, p1).
     if pr_check LPAREN p1 then Inl (pr_error PayloadOnDelete p1)
     else
       bindE (case pr_match KW_WHERE p1 of
                Some p2 \<Rightarrow> bindE (parse_where_block n p2) (\<lambda>(e, p3). Inr (Some e, p3))
              | None \<Rightarrow> Inr (None, p1)) (\<lambda>(w, p2).
       bindE (reject_clauses DELETE p2) (\<lambda>_.
       bindE (consume_terminating_semicolon p2) (\<lambda>p3.
       Inr ((bare_ir DELETE name)\<lparr>where_clause := w\<rparr>, p3)))))"

definition parse_fuel :: "nat \<Rightarrow> parser \<Rightarrow> query_ir parse_result" where
  "parse_fuel n p =
     (if pr_check KW_GET p then parse_get n (pr_next p)
      else if pr_check KW_CREATE p then parse_create n (pr_next p)
      else if pr_check KW_UPDATE p then parse_update n (pr_next p)
      else if pr_check KW_DELETE p then parse_delete n (pr_next p)
      else Inl (pr_error ExpectedStatement p))"

definition parse :: "token list \<Rightarrow> query_error + query_ir" where
  "parse ts = bindE (parse_fuel (5 * length ts + 5) (new_parser ts)) (\<lambda>(ir, p). Inr ir)"

end
