(* ===== verification/Parser_Progress.thy ===== *)
theory Parser_Progress
  imports Parser
begin

text \<open>
  The parser always returns. On a token list that ends with its only end marker (what the lexer
  produces) every method that succeeds moves the cursor forward and stays inside the list
  (\<open>*_moves\<close>), so the bound on the depth of loops and recursion is never reached (\<open>*_fuel\<close>): a loop
  needs one unit per remaining token, an expression five.
\<close>

section \<open>Positions of the parser\<close>

definition wf_tokens :: "token list \<Rightarrow> bool" where
  "wf_tokens ts \<longleftrightarrow> ts \<noteq> [] \<and> tk_type (last ts) = END_OF_INPUT \<and>
     list_all (\<lambda>t. tk_type t \<noteq> END_OF_INPUT) (butlast ts)"

definition pok :: "token list \<Rightarrow> parser \<Rightarrow> bool" where
  "pok ts p \<longleftrightarrow> wf_tokens ts \<and> p_tokens p = ts \<and> p_cursor p < length ts"

lemma pok_at_end: "pok ts p \<Longrightarrow> pr_at_end p \<longleftrightarrow> Suc (p_cursor p) = length ts"
proof -
  assume p: "pok ts p"
  show ?thesis
  proof (cases "Suc (p_cursor p) = length ts")
    case True
    then have "p_cursor p = length ts - 1" by simp
    then have "ts ! p_cursor p = last ts" using p by (simp add: pok_def wf_tokens_def last_conv_nth)
    with p True show ?thesis
      by (simp add: pr_at_end_def pr_peek_def pr_peek_at_def pok_def wf_tokens_def)
  next
    case False
    with p have "p_cursor p < length (butlast ts)" by (auto simp: pok_def)
    then have mem: "ts ! p_cursor p \<in> set (butlast ts)" by (metis nth_butlast nth_mem)
    have "list_all (\<lambda>t. tk_type t \<noteq> END_OF_INPUT) (butlast ts)"
      using p by (simp only: pok_def wf_tokens_def)
    with mem have "tk_type (ts ! p_cursor p) \<noteq> END_OF_INPUT" by (simp add: list_all_iff)
    with p False show ?thesis
      by (simp add: pr_at_end_def pr_peek_def pr_peek_at_def pok_def)
  qed
qed

definition forward :: "token list \<Rightarrow> parser \<Rightarrow> parser \<Rightarrow> bool" where
  "forward ts p p' \<longleftrightarrow> pok ts p' \<and> p_cursor p \<le> p_cursor p'"

named_theorems moves \<open>a successful method moves the cursor\<close>

lemma next_moves:
  "pok ts p \<Longrightarrow> \<not> pr_at_end p \<Longrightarrow> pok ts (pr_next p) \<and> p_cursor (pr_next p) = Suc (p_cursor p)"
  using pok_at_end [of ts p] by (auto simp: pr_next_def pok_def)

lemma check_not_end: "pr_check ty p \<Longrightarrow> ty \<noteq> END_OF_INPUT \<Longrightarrow> \<not> pr_at_end p"
  by (auto simp: pr_check_def split: if_splits)

lemma check_moves [moves]:
  "pr_check ty p \<Longrightarrow> ty \<noteq> END_OF_INPUT \<Longrightarrow> pok ts p \<Longrightarrow>
     pok ts (pr_next p) \<and> p_cursor (pr_next p) = Suc (p_cursor p)"
  using check_not_end next_moves by blast

lemma comparison_moves [moves]:
  assumes "comparison_at p = Some op" "pok ts p"
  shows "pok ts (pr_next p) \<and> p_cursor (pr_next p) = Suc (p_cursor p)"
proof -
  have "tk_type (pr_peek p) \<noteq> END_OF_INPUT"
    using assms(1) by (auto simp: comparison_at_def comparison_tokens_def split: if_splits)
  with next_moves [OF assms(2)] show ?thesis by (simp add: pr_at_end_def)
qed

text \<open>
  Inversion of the parser's control flow, as disjunctions: \<open>returns\<close> for a result \<open>Inr\<close>, \<open>fails\<close>
  for an exception.
\<close>

lemma match_iff: "pr_match ty p = Some p1 \<longleftrightarrow> pr_check ty p \<and> p1 = pr_next p"
  "pr_match ty p = None \<longleftrightarrow> \<not> pr_check ty p"
  by (auto simp: pr_match_def)

lemma if_Inr_iff: "(if c then a else b) = Inr r \<longleftrightarrow> (c \<and> a = Inr r) \<or> (\<not> c \<and> b = Inr r)"
  by simp

lemma if_Inl_iff: "(if c then a else b) = Inl e \<longleftrightarrow> (c \<and> a = Inl e) \<or> (\<not> c \<and> b = Inl e)"
  by simp

lemma option_Inr_iff:
  "(case x of None \<Rightarrow> a | Some y \<Rightarrow> b y) = Inr r \<longleftrightarrow>
     (x = None \<and> a = Inr r) \<or> (\<exists>y. x = Some y \<and> b y = Inr r)"
  by (cases x) simp_all

lemma option_Inl_iff:
  "(case x of None \<Rightarrow> a | Some y \<Rightarrow> b y) = Inl e \<longleftrightarrow>
     (x = None \<and> a = Inl e) \<or> (\<exists>y. x = Some y \<and> b y = Inl e)"
  by (cases x) simp_all

lemma list_Inr_iff:
  "(case xs of [] \<Rightarrow> a | y # ys \<Rightarrow> b y ys) = Inr r \<longleftrightarrow>
     (xs = [] \<and> a = Inr r) \<or> (\<exists>y ys. xs = y # ys \<and> b y ys = Inr r)"
  by (cases xs) simp_all

lemma list_Inl_iff:
  "(case xs of [] \<Rightarrow> a | y # ys \<Rightarrow> b y ys) = Inl e \<longleftrightarrow>
     (xs = [] \<and> a = Inl e) \<or> (\<exists>y ys. xs = y # ys \<and> b y ys = Inl e)"
  by (cases xs) simp_all

lemma consume_Inr_iff: "pr_consume ty m p = Inr p' \<longleftrightarrow> pr_check ty p \<and> p' = pr_next p"
  by (auto simp: pr_consume_def)

lemmas returns = bindE_Inr_iff match_iff if_Inr_iff option_Inr_iff list_Inr_iff consume_Inr_iff

lemmas fails = bindE_Inl_iff consume_Inr_iff match_iff if_Inl_iff option_Inl_iff list_Inl_iff

lemma error_not_fuel [simp]: "pr_error m p \<noteq> OutOfFuel" "OutOfFuel \<noteq> pr_error m p"
  by (auto simp: pr_error_def Let_def)

lemma consume_not_fuel [simp]: "pr_consume ty m p \<noteq> Inl OutOfFuel"
  by (simp add: pr_consume_def)

lemma literal_not_fuel [simp]: "parse_literal p \<noteq> Inl OutOfFuel"
  by (simp add: parse_literal_def Let_def)

lemma string_literal_not_fuel [simp]: "parse_string_literal p \<noteq> Inl OutOfFuel"
  by (simp add: parse_string_literal_def)

lemma constraint_not_fuel [simp]: "parse_comparison_constraint op p \<noteq> Inl OutOfFuel"
  by (simp add: parse_comparison_constraint_def bindE_Inl_iff split: prod.splits)

section \<open>Progress of every method\<close>

lemma parse_literal_moves [moves]:
  "parse_literal p = Inr (x, p') \<Longrightarrow> pok ts p \<Longrightarrow> pok ts p' \<and> p_cursor p' = Suc (p_cursor p)"
  by (auto simp: parse_literal_def Let_def returns forward_def dest!: moves [where ts = ts])

lemma parse_string_literal_moves [moves]:
  "parse_string_literal p = Inr (x, p') \<Longrightarrow> pok ts p \<Longrightarrow> pok ts p' \<and> p_cursor p' = Suc (p_cursor p)"
  by (auto simp: parse_string_literal_def returns forward_def dest!: moves [where ts = ts])

lemma path_loop_moves [moves]: "path_loop n p = Inr (x, p') \<Longrightarrow> pok ts p \<Longrightarrow> forward ts p p'"
proof (induction n arbitrary: p x)
  case (Suc n)
  then show ?case by (auto simp: returns forward_def dest!: Suc.IH moves [where ts = ts])
qed simp

lemma parse_field_path_moves [moves]:
  "parse_field_path n p = Inr (x, p') \<Longrightarrow> pok ts p \<Longrightarrow> pok ts p' \<and> p_cursor p < p_cursor p'"
  by (auto simp: parse_field_path_def returns forward_def dest!: moves [where ts = ts])

lemma parse_literal_or_range_moves [moves]:
  "parse_literal_or_range p = Inr (x, p') \<Longrightarrow> pok ts p \<Longrightarrow> pok ts p' \<and> p_cursor p < p_cursor p'"
  by (auto simp: parse_literal_or_range_def returns forward_def dest!: moves [where ts = ts])

lemma parse_comparison_constraint_moves:
  "parse_comparison_constraint op p = Inr (x, p') \<Longrightarrow> pok ts (pr_next p) \<Longrightarrow>
     pok ts p' \<and> p_cursor (pr_next p) < p_cursor p'"
  by (auto simp: parse_comparison_constraint_def returns dest!: moves [where ts = ts])

declare parse_comparison_constraint_moves [moves]

lemma constraint_loop_moves [moves]: "constraint_loop n p = Inr (x, p') \<Longrightarrow> pok ts p \<Longrightarrow> forward ts p p'"
proof (induction n arbitrary: p x)
  case (Suc n)
  then show ?case by (auto simp: returns forward_def dest!: Suc.IH moves [where ts = ts])
qed simp

lemma parse_value_set_element_moves [moves]:
  "parse_value_set_element n p = Inr (x, p') \<Longrightarrow> pok ts p \<Longrightarrow> pok ts p' \<and> p_cursor p < p_cursor p'"
  by (auto simp: parse_value_set_element_def returns forward_def dest!: moves [where ts = ts])

lemma value_set_loop_moves [moves]: "value_set_loop n p = Inr (x, p') \<Longrightarrow> pok ts p \<Longrightarrow> forward ts p p'"
proof (induction n arbitrary: p x)
  case (Suc n)
  then show ?case by (auto simp: returns forward_def dest!: Suc.IH moves [where ts = ts])
qed simp

lemma parse_value_set_moves [moves]:
  "parse_value_set n p = Inr (x, p') \<Longrightarrow> pok ts p \<Longrightarrow> pok ts p' \<and> p_cursor p < p_cursor p'"
  by (auto simp: parse_value_set_def returns forward_def dest!: moves [where ts = ts])

lemma parse_string_operand_moves [moves]:
  "parse_string_operand op n p = Inr (x, p') \<Longrightarrow> pok ts p \<Longrightarrow> pok ts p' \<and> p_cursor p < p_cursor p'"
  by (auto simp: parse_string_operand_def returns forward_def dest!: moves [where ts = ts])

lemma parse_operator_and_operand_moves [moves]:
  "parse_operator_and_operand n p = Inr (x, p') \<Longrightarrow> pok ts p \<Longrightarrow> pok ts p' \<and> p_cursor p < p_cursor p'"
  by (auto simp: parse_operator_and_operand_def Let_def returns forward_def dest!: moves [where ts = ts])

lemma parse_atomic_moves [moves]:
  "parse_atomic_field_expression n p = Inr (x, p') \<Longrightarrow> pok ts p \<Longrightarrow> pok ts p' \<and> p_cursor p < p_cursor p'"
  by (auto simp: parse_atomic_field_expression_def returns forward_def dest!: moves [where ts = ts])

text \<open>The six mutually recursive methods together.\<close>

lemma expression_moves [moves]:
  "parse_or_expression n p = Inr (x, p') \<Longrightarrow> pok ts p \<Longrightarrow> pok ts p' \<and> p_cursor p < p_cursor p'"
  "or_loop n e p = Inr (x, p') \<Longrightarrow> pok ts p \<Longrightarrow> forward ts p p'"
  "parse_and_expression n p = Inr (x, p') \<Longrightarrow> pok ts p \<Longrightarrow> pok ts p' \<and> p_cursor p < p_cursor p'"
  "and_loop n e p = Inr (x, p') \<Longrightarrow> pok ts p \<Longrightarrow> forward ts p p'"
  "parse_not_expression n p = Inr (x, p') \<Longrightarrow> pok ts p \<Longrightarrow> pok ts p' \<and> p_cursor p < p_cursor p'"
  "parse_primary_expression n p = Inr (x, p') \<Longrightarrow> pok ts p \<Longrightarrow> pok ts p' \<and> p_cursor p < p_cursor p'"
proof (induction n arbitrary: p e x p')
  case (Suc n)
  {
    case 1
    then show ?case by (auto simp: returns forward_def dest!: Suc.IH(2,3))
  next
    case 2
    then show ?case by (auto simp: returns forward_def dest!: Suc.IH(2,3) moves [where ts = ts])
  next
    case 3
    then show ?case by (auto simp: returns forward_def dest!: Suc.IH(4,5))
  next
    case 4
    then show ?case by (auto simp: returns forward_def dest!: Suc.IH(4,5) moves [where ts = ts])
  next
    case 5
    then show ?case by (auto simp: returns dest!: Suc.IH(5,6) moves [where ts = ts])
  next
    case 6
    then show ?case by (auto simp: returns dest!: Suc.IH(1) moves [where ts = ts])
  }
qed simp_all

lemma where_loop_moves [moves]: "where_loop n p = Inr (x, p') \<Longrightarrow> pok ts p \<Longrightarrow> forward ts p p'"
proof (induction n arbitrary: p x)
  case (Suc n)
  then show ?case by (auto simp: returns forward_def dest!: Suc.IH moves [where ts = ts])
qed simp

lemma parse_where_block_moves [moves]:
  "parse_where_block n p = Inr (x, p') \<Longrightarrow> pok ts p \<Longrightarrow> pok ts p' \<and> p_cursor p < p_cursor p'"
  by (auto simp: parse_where_block_def returns forward_def dest!: moves [where ts = ts])

lemma parse_alias_moves [moves]:
  "parse_alias p = Inr (x, p') \<Longrightarrow> pok ts p \<Longrightarrow> pok ts p' \<and> p_cursor p \<le> p_cursor p'"
  by (auto simp: parse_alias_def returns forward_def dest!: moves [where ts = ts])

lemma parse_direction_moves [moves]:
  "parse_direction p = Inr (x, p') \<Longrightarrow> pok ts p \<Longrightarrow> pok ts p' \<and> p_cursor p' = Suc (p_cursor p)"
  by (auto simp: parse_direction_def returns forward_def dest!: moves [where ts = ts])

lemma projection_loop_moves [moves]: "projection_loop n p = Inr (x, p') \<Longrightarrow> pok ts p \<Longrightarrow> forward ts p p'"
proof (induction n arbitrary: p x)
  case (Suc n)
  then show ?case by (auto simp: returns forward_def dest!: Suc.IH moves [where ts = ts])
qed simp

lemma parse_projection_list_moves [moves]:
  "parse_projection_list n p = Inr (x, p') \<Longrightarrow> pok ts p \<Longrightarrow> forward ts p p'"
  by (auto simp: parse_projection_list_def returns forward_def dest!: moves [where ts = ts])

lemma sort_loop_moves [moves]: "sort_loop n p = Inr (x, p') \<Longrightarrow> pok ts p \<Longrightarrow> forward ts p p'"
proof (induction n arbitrary: p x)
  case (Suc n)
  then show ?case by (auto simp: returns forward_def dest!: Suc.IH moves [where ts = ts])
qed simp

lemma parse_sort_block_moves [moves]:
  "parse_sort_block n p = Inr (x, p') \<Longrightarrow> pok ts p \<Longrightarrow> pok ts p' \<and> p_cursor p < p_cursor p'"
  by (auto simp: parse_sort_block_def returns forward_def dest!: moves [where ts = ts])

lemma parse_ranking_clause_moves [moves]:
  "parse_ranking_clause d n p = Inr (x, p') \<Longrightarrow> pok ts p \<Longrightarrow> pok ts p' \<and> p_cursor p < p_cursor p'"
  by (auto simp: parse_ranking_clause_def returns forward_def dest!: moves [where ts = ts])

lemma parse_assignment_value_moves [moves]:
  "parse_assignment_value fp p = Inr (x, p') \<Longrightarrow> pok ts p \<Longrightarrow> pok ts p' \<and> p_cursor p < p_cursor p'"
  by (auto simp: parse_assignment_value_def returns forward_def dest!: moves [where ts = ts])

lemma single_record_loop_moves [moves]: "single_record_loop n seen p = Inr (x, p') \<Longrightarrow> pok ts p \<Longrightarrow> forward ts p p'"
proof (induction n arbitrary: seen p x)
  case (Suc n)
  then show ?case by (auto simp: returns forward_def dest!: Suc.IH moves [where ts = ts])
qed simp

lemma record_loop_moves [moves]: "record_loop n seen p = Inr (x, p') \<Longrightarrow> pok ts p \<Longrightarrow> forward ts p p'"
proof (induction n arbitrary: seen p x)
  case (Suc n)
  then show ?case by (auto simp: returns forward_def dest!: Suc.IH moves [where ts = ts])
qed simp

lemma payload_loop_moves [moves]: "payload_loop n p = Inr (x, p') \<Longrightarrow> pok ts p \<Longrightarrow> forward ts p p'"
proof (induction n arbitrary: p x)
  case (Suc n)
  then show ?case by (auto simp: returns forward_def dest!: Suc.IH moves [where ts = ts])
qed simp

lemma parse_create_record_moves [moves]:
  "parse_create_record n p = Inr (x, p') \<Longrightarrow> pok ts p \<Longrightarrow> pok ts p' \<and> p_cursor p < p_cursor p'"
  by (auto simp: parse_create_record_def returns forward_def dest!: moves [where ts = ts])

lemma batch_loop_moves [moves]: "batch_loop n p = Inr (x, p') \<Longrightarrow> pok ts p \<Longrightarrow> forward ts p p'"
proof (induction n arbitrary: p x)
  case (Suc n)
  then show ?case by (auto simp: returns forward_def dest!: Suc.IH moves [where ts = ts])
qed simp

lemma parse_create_payload_moves [moves]:
  "parse_create_payload n p = Inr (x, p') \<Longrightarrow> pok ts p \<Longrightarrow> pok ts p' \<and> p_cursor p < p_cursor p'"
  by (auto simp: parse_create_payload_def parse_batch_create_records_def
      parse_single_create_record_def returns forward_def dest!: moves [where ts = ts])

lemma parse_mutation_payload_moves [moves]:
  "parse_mutation_payload n p = Inr (x, p') \<Longrightarrow> pok ts p \<Longrightarrow> pok ts p' \<and> p_cursor p < p_cursor p'"
  by (auto simp: parse_mutation_payload_def returns forward_def dest!: moves [where ts = ts])

lemma ordering_loop_moves [moves]: "ordering_loop n scs rk hs hr p = Inr (x, p') \<Longrightarrow> pok ts p \<Longrightarrow> forward ts p p'"
proof (induction n arbitrary: scs rk hs hr p x)
  case (Suc n)
  then show ?case by (auto simp: returns forward_def dest!: Suc.IH moves [where ts = ts])
qed simp

lemma parse_entity_moves [moves]:
  "parse_entity op p = Inr (x, p') \<Longrightarrow> pok ts p \<Longrightarrow> pok ts p' \<and> p_cursor p' = Suc (p_cursor p)"
  by (auto simp: parse_entity_def returns forward_def dest!: moves [where ts = ts])

section \<open>The bound is never reached\<close>

named_theorems fuels \<open>with enough fuel a method does not run out\<close>

lemma path_loop_fuel [fuels]:
  "path_loop n p = Inl OutOfFuel \<Longrightarrow> pok ts p \<Longrightarrow> length ts \<le> n + p_cursor p \<Longrightarrow> False"
proof (induction n arbitrary: p)
  case (Suc n)
  then show ?case by (auto simp: fails dest!: Suc.IH moves [where ts = ts])
qed (simp add: pok_def)

lemma parse_field_path_fuel [fuels]:
  "parse_field_path n p = Inl OutOfFuel \<Longrightarrow> pok ts p \<Longrightarrow> length ts \<le> Suc n + p_cursor p \<Longrightarrow> False"
  by (auto simp: parse_field_path_def fails forward_def dest!: fuels [where ts = ts] moves [where ts = ts])

lemma constraint_loop_fuel [fuels]:
  "constraint_loop n p = Inl OutOfFuel \<Longrightarrow> pok ts p \<Longrightarrow> length ts \<le> n + p_cursor p \<Longrightarrow> False"
proof (induction n arbitrary: p)
  case (Suc n)
  then show ?case by (auto simp: fails dest!: Suc.IH fuels [where ts = ts] moves [where ts = ts])
qed (simp add: pok_def)

lemma parse_value_set_element_fuel [fuels]:
  "parse_value_set_element n p = Inl OutOfFuel \<Longrightarrow> pok ts p \<Longrightarrow> length ts \<le> Suc n + p_cursor p \<Longrightarrow> False"
  by (auto simp: parse_value_set_element_def fails forward_def dest!: fuels [where ts = ts] moves [where ts = ts])

lemma value_set_loop_fuel [fuels]:
  "value_set_loop n p = Inl OutOfFuel \<Longrightarrow> pok ts p \<Longrightarrow> length ts \<le> n + p_cursor p \<Longrightarrow> False"
proof (induction n arbitrary: p)
  case (Suc n)
  then show ?case by (auto simp: fails dest!: Suc.IH fuels [where ts = ts] moves [where ts = ts])
qed (simp add: pok_def)

lemma parse_value_set_fuel [fuels]:
  "parse_value_set n p = Inl OutOfFuel \<Longrightarrow> pok ts p \<Longrightarrow> length ts \<le> n + p_cursor p \<Longrightarrow> False"
  by (auto simp: parse_value_set_def fails forward_def dest!: fuels [where ts = ts] moves [where ts = ts])

lemma parse_string_operand_fuel [fuels]:
  "parse_string_operand op n p = Inl OutOfFuel \<Longrightarrow> pok ts p \<Longrightarrow> length ts \<le> Suc n + p_cursor p \<Longrightarrow> False"
  by (auto simp: parse_string_operand_def fails forward_def dest!: fuels [where ts = ts] moves [where ts = ts])

lemma parse_literal_or_range_fuel [simp]: "parse_literal_or_range p \<noteq> Inl OutOfFuel"
  by (auto simp: parse_literal_or_range_def fails)

lemma parse_operator_and_operand_fuel [fuels]:
  "parse_operator_and_operand n p = Inl OutOfFuel \<Longrightarrow> pok ts p \<Longrightarrow> length ts \<le> Suc n + p_cursor p \<Longrightarrow> False"
  by (auto simp: parse_operator_and_operand_def Let_def fails forward_def dest!: fuels [where ts = ts] moves [where ts = ts])

lemma parse_atomic_fuel [fuels]:
  "parse_atomic_field_expression n p = Inl OutOfFuel \<Longrightarrow> pok ts p \<Longrightarrow> length ts \<le> Suc n + p_cursor p \<Longrightarrow> False"
  by (auto simp: parse_atomic_field_expression_def fails forward_def dest!: fuels [where ts = ts] moves [where ts = ts])

lemma expression_fuel [fuels]:
  "parse_or_expression n p = Inl OutOfFuel \<Longrightarrow> pok ts p \<Longrightarrow> 5 * length ts + 4 \<le> n + 5 * p_cursor p \<Longrightarrow> False"
  "or_loop n e p = Inl OutOfFuel \<Longrightarrow> pok ts p \<Longrightarrow> 5 * length ts + 4 \<le> n + 5 * p_cursor p \<Longrightarrow> False"
  "parse_and_expression n p = Inl OutOfFuel \<Longrightarrow> pok ts p \<Longrightarrow> 5 * length ts + 3 \<le> n + 5 * p_cursor p \<Longrightarrow> False"
  "and_loop n e p = Inl OutOfFuel \<Longrightarrow> pok ts p \<Longrightarrow> 5 * length ts + 3 \<le> n + 5 * p_cursor p \<Longrightarrow> False"
  "parse_not_expression n p = Inl OutOfFuel \<Longrightarrow> pok ts p \<Longrightarrow> 5 * length ts + 2 \<le> n + 5 * p_cursor p \<Longrightarrow> False"
  "parse_primary_expression n p = Inl OutOfFuel \<Longrightarrow> pok ts p \<Longrightarrow> 5 * length ts + 1 \<le> n + 5 * p_cursor p \<Longrightarrow> False"
proof (induction n arbitrary: p e)
  case (Suc n)
  {
    case 1
    then show ?case by (auto simp: fails forward_def dest!: Suc.IH(2,3) moves [where ts = ts])
  next
    case 2
    then show ?case by (auto simp: fails forward_def dest!: Suc.IH(2,3) moves [where ts = ts])
  next
    case 3
    then show ?case by (auto simp: fails forward_def dest!: Suc.IH(4,5) moves [where ts = ts])
  next
    case 4
    then show ?case by (auto simp: fails forward_def dest!: Suc.IH(4,5) moves [where ts = ts])
  next
    case 5
    then show ?case by (auto simp: fails forward_def dest!: Suc.IH(5,6) moves [where ts = ts])
  next
    case 6
    then show ?case
      by (auto simp: fails forward_def dest!: Suc.IH(1) parse_atomic_fuel [where ts = ts] moves [where ts = ts])
  }
qed (simp_all add: pok_def)

lemma where_loop_fuel [fuels]:
  "where_loop n p = Inl OutOfFuel \<Longrightarrow> pok ts p \<Longrightarrow> 5 * length ts + 5 \<le> n + 5 * p_cursor p \<Longrightarrow> False"
proof (induction n arbitrary: p)
  case (Suc n)
  then show ?case
    by (auto simp: fails dest!: Suc.IH expression_fuel(1) [where ts = ts] moves [where ts = ts])
qed (simp add: pok_def)

lemma parse_where_block_fuel [fuels]:
  "parse_where_block n p = Inl OutOfFuel \<Longrightarrow> pok ts p \<Longrightarrow> 5 * length ts \<le> n + 5 * p_cursor p \<Longrightarrow> False"
  by (auto simp: parse_where_block_def fails dest!: where_loop_fuel [where ts = ts] moves [where ts = ts])

lemma parse_alias_fuel [simp]: "parse_alias p \<noteq> Inl OutOfFuel"
  by (auto simp: parse_alias_def fails)

lemma parse_direction_fuel [simp]: "parse_direction p \<noteq> Inl OutOfFuel"
  by (auto simp: parse_direction_def fails)

lemma projection_loop_fuel [fuels]:
  "projection_loop n p = Inl OutOfFuel \<Longrightarrow> pok ts p \<Longrightarrow> length ts \<le> n + p_cursor p \<Longrightarrow> False"
proof (induction n arbitrary: p)
  case (Suc n)
  then show ?case
    by (auto simp: fails dest!: Suc.IH parse_field_path_fuel [where ts = ts] moves [where ts = ts])
qed (simp add: pok_def)

lemma parse_projection_list_fuel [fuels]:
  "parse_projection_list n p = Inl OutOfFuel \<Longrightarrow> pok ts p \<Longrightarrow> length ts \<le> n + p_cursor p \<Longrightarrow> False"
  by (auto simp: parse_projection_list_def fails dest!: projection_loop_fuel [where ts = ts])

lemma sort_loop_fuel [fuels]:
  "sort_loop n p = Inl OutOfFuel \<Longrightarrow> pok ts p \<Longrightarrow> length ts \<le> n + p_cursor p \<Longrightarrow> False"
proof (induction n arbitrary: p)
  case (Suc n)
  then show ?case
    by (auto simp: fails dest!: Suc.IH parse_field_path_fuel [where ts = ts] moves [where ts = ts])
qed (simp add: pok_def)

lemma parse_sort_block_fuel [fuels]:
  "parse_sort_block n p = Inl OutOfFuel \<Longrightarrow> pok ts p \<Longrightarrow> length ts \<le> n + p_cursor p \<Longrightarrow> False"
  by (auto simp: parse_sort_block_def fails dest!: sort_loop_fuel [where ts = ts] moves [where ts = ts])

lemma parse_ranking_clause_fuel [fuels]:
  "parse_ranking_clause d n p = Inl OutOfFuel \<Longrightarrow> pok ts p \<Longrightarrow> length ts \<le> n + p_cursor p \<Longrightarrow> False"
  by (auto simp: parse_ranking_clause_def fails
      dest!: parse_field_path_fuel [where ts = ts] moves [where ts = ts])

lemma parse_assignment_value_fuel [simp]: "parse_assignment_value fp p \<noteq> Inl OutOfFuel"
  by (auto simp: parse_assignment_value_def fails)

lemma single_record_loop_fuel [fuels]:
  "single_record_loop n seen p = Inl OutOfFuel \<Longrightarrow> pok ts p \<Longrightarrow> length ts \<le> n + p_cursor p \<Longrightarrow> False"
proof (induction n arbitrary: seen p)
  case (Suc n)
  then show ?case
    by (auto simp: fails dest!: Suc.IH parse_field_path_fuel [where ts = ts] moves [where ts = ts])
qed (simp add: pok_def)

lemma record_loop_fuel [fuels]:
  "record_loop n seen p = Inl OutOfFuel \<Longrightarrow> pok ts p \<Longrightarrow> length ts \<le> n + p_cursor p \<Longrightarrow> False"
proof (induction n arbitrary: seen p)
  case (Suc n)
  then show ?case
    by (auto simp: fails dest!: Suc.IH parse_field_path_fuel [where ts = ts] moves [where ts = ts])
qed (simp add: pok_def)

lemma payload_loop_fuel [fuels]:
  "payload_loop n p = Inl OutOfFuel \<Longrightarrow> pok ts p \<Longrightarrow> length ts \<le> n + p_cursor p \<Longrightarrow> False"
proof (induction n arbitrary: p)
  case (Suc n)
  then show ?case
    by (auto simp: fails dest!: Suc.IH parse_field_path_fuel [where ts = ts] moves [where ts = ts])
qed (simp add: pok_def)

lemma parse_create_record_fuel [fuels]:
  "parse_create_record n p = Inl OutOfFuel \<Longrightarrow> pok ts p \<Longrightarrow> length ts \<le> Suc n + p_cursor p \<Longrightarrow> False"
  by (auto simp: parse_create_record_def fails
      dest!: record_loop_fuel [where ts = ts] moves [where ts = ts])

lemma batch_loop_fuel [fuels]:
  "batch_loop n p = Inl OutOfFuel \<Longrightarrow> pok ts p \<Longrightarrow> length ts \<le> n + p_cursor p \<Longrightarrow> False"
proof (induction n arbitrary: p)
  case (Suc n)
  then show ?case
    by (auto simp: fails dest!: Suc.IH parse_create_record_fuel [where ts = ts] moves [where ts = ts])
qed (simp add: pok_def)

lemma parse_create_payload_fuel [fuels]:
  "parse_create_payload n p = Inl OutOfFuel \<Longrightarrow> pok ts p \<Longrightarrow> length ts \<le> n + p_cursor p \<Longrightarrow> False"
  by (auto simp: parse_create_payload_def parse_batch_create_records_def
      parse_single_create_record_def fails
      dest!: batch_loop_fuel [where ts = ts] single_record_loop_fuel [where ts = ts]
        moves [where ts = ts])

lemma parse_mutation_payload_fuel [fuels]:
  "parse_mutation_payload n p = Inl OutOfFuel \<Longrightarrow> pok ts p \<Longrightarrow> length ts \<le> n + p_cursor p \<Longrightarrow> False"
  by (auto simp: parse_mutation_payload_def fails
      dest!: payload_loop_fuel [where ts = ts] moves [where ts = ts])

lemma ordering_loop_fuel [fuels]:
  "ordering_loop n scs rk hs hr p = Inl OutOfFuel \<Longrightarrow> pok ts p \<Longrightarrow> length ts \<le> n + p_cursor p \<Longrightarrow> False"
proof (induction n arbitrary: scs rk hs hr p)
  case (Suc n)
  then show ?case
    by (auto simp: fails dest!: Suc.IH parse_sort_block_fuel [where ts = ts]
        parse_ranking_clause_fuel [where ts = ts] moves [where ts = ts])
qed (simp add: pok_def)

lemma paging_loop_fuel [fuels]:
  "paging_loop n lim off p = Inl OutOfFuel \<Longrightarrow> pok ts p \<Longrightarrow> length ts \<le> n + p_cursor p \<Longrightarrow> False"
proof (induction n arbitrary: lim off p)
  case (Suc n)
  then show ?case by (auto simp: fails dest!: Suc.IH moves [where ts = ts])
qed (simp add: pok_def)

lemma statement_end_fuel [simp]:
  "parse_entity op p \<noteq> Inl OutOfFuel" "reject_clauses op p \<noteq> Inl OutOfFuel"
  "consume_terminating_semicolon p \<noteq> Inl OutOfFuel"
  by (auto simp: parse_entity_def reject_clauses_def consume_terminating_semicolon_def fails)

text \<open>The optional WHERE clause of GET and DELETE, and the optional projection of GET.\<close>

lemma optional_where_moves:
  "(case pr_match KW_WHERE p of
      Some p3 \<Rightarrow> bindE (parse_where_block n p3) (\<lambda>(e, p4). Inr (Some e, p4))
    | None \<Rightarrow> Inr (None, p)) = Inr (w, p') \<Longrightarrow> pok ts p \<Longrightarrow> pok ts p' \<and> p_cursor p \<le> p_cursor p'"
  by (auto simp: returns dest!: moves [where ts = ts])

lemma optional_where_fuel:
  "(case pr_match KW_WHERE p of
      Some p3 \<Rightarrow> bindE (parse_where_block n p3) (\<lambda>(e, p4). Inr (Some e, p4))
    | None \<Rightarrow> Inr (None, p)) = Inl OutOfFuel \<Longrightarrow> pok ts p \<Longrightarrow> 5 * length ts \<le> n \<Longrightarrow> False"
  by (auto simp: fails dest!: parse_where_block_fuel [where ts = ts] moves [where ts = ts])

lemma optional_projection_moves:
  "(case pr_match LPAREN p of Some p2 \<Rightarrow> parse_projection_list n p2 | None \<Rightarrow> Inr ([], p)) = Inr (x, p') \<Longrightarrow>
     pok ts p \<Longrightarrow> pok ts p' \<and> p_cursor p \<le> p_cursor p'"
  by (auto simp: returns forward_def dest!: moves [where ts = ts])

lemma parse_get_fuel:
  "parse_get n p = Inl OutOfFuel \<Longrightarrow> pok ts p \<Longrightarrow> 5 * length ts \<le> n \<Longrightarrow> False"
  unfolding parse_get_def
  by (auto simp: bindE_Inl_iff forward_def
      dest!: optional_where_moves [where ts = ts] optional_projection_moves [where ts = ts]
        optional_where_fuel [where ts = ts] ordering_loop_fuel [where ts = ts]
        paging_loop_fuel [where ts = ts] moves [where ts = ts])
    (auto simp: fails dest!: parse_projection_list_fuel [where ts = ts] moves [where ts = ts])

lemma parse_create_fuel:
  "parse_create n p = Inl OutOfFuel \<Longrightarrow> pok ts p \<Longrightarrow> 5 * length ts \<le> n \<Longrightarrow> False"
  by (auto simp: parse_create_def fails
      dest!: parse_create_payload_fuel [where ts = ts] moves [where ts = ts])

lemma parse_update_fuel:
  "parse_update n p = Inl OutOfFuel \<Longrightarrow> pok ts p \<Longrightarrow> 5 * length ts \<le> n \<Longrightarrow> False"
  by (auto simp: parse_update_def fails
      dest!: parse_mutation_payload_fuel [where ts = ts] parse_where_block_fuel [where ts = ts]
        moves [where ts = ts])

lemma parse_delete_fuel:
  "parse_delete n p = Inl OutOfFuel \<Longrightarrow> pok ts p \<Longrightarrow> 5 * length ts \<le> n \<Longrightarrow> False"
  unfolding parse_delete_def
  by (auto simp: bindE_Inl_iff if_Inl_iff dest!: optional_where_fuel [where ts = ts] moves [where ts = ts])

lemma parse_fuel_enough:
  assumes "wf_tokens ts"
  shows "parse_fuel (5 * length ts + 5) (new_parser ts) \<noteq> Inl OutOfFuel"
proof
  assume "parse_fuel (5 * length ts + 5) (new_parser ts) = Inl OutOfFuel"
  moreover have "pok ts (new_parser ts)" using assms by (simp add: pok_def new_parser_def wf_tokens_def)
  ultimately show False
    by (auto simp: parse_fuel_def if_Inl_iff
        dest!: parse_get_fuel [where ts = ts] parse_create_fuel [where ts = ts]
          parse_update_fuel [where ts = ts] parse_delete_fuel [where ts = ts] check_moves [where ts = ts])
qed

lemma tokenize_wf: "tokenize s = Inr ts \<Longrightarrow> wf_tokens ts"
  using tokenize_from_positions [OF positioned_new, of s ts]
  by (auto simp: tokenize_def wf_tokens_def list_all_iff)

end
