(* ===== verification/Parser_Roundtrip.thy ===== *)
theory Parser_Roundtrip
  imports Parser_Progress
begin

text \<open>
  The language that the parser accepts, from both sides. \<open>wf_ir\<close> describes the trees the parser can
  build; \<open>print_ir\<close> writes such a tree as tokens, with groups only where the precedence of OR, AND and
  NOT needs them. Parsing what is printed gives the tree back (with the lexer: parsing its text), and
  everything the parser returns satisfies \<open>wf_ir\<close>.
\<close>

section \<open>Printing\<close>

type_synonym kinds = "(token_type \<times> token_value) list"

definition token_text :: "token_type \<Rightarrow> string" where
  "token_text ty =
     (case map_of (map prod.swap reserved_keywords @ map (\<lambda>(c, t). (t, [c])) single_tokens
                   @ map (\<lambda>((c, d), t). (t, [c, d])) two_tokens) ty of
        Some s \<Rightarrow> s | None \<Rightarrow> [])"

definition tok :: "token_type \<Rightarrow> token_type \<times> token_value" where
  "tok ty = (ty, VStr (token_text ty))"

definition ident :: "string \<Rightarrow> token_type \<times> token_value" where
  "ident s = (IDENTIFIER, VStr s)"

definition print_path :: "field_path \<Rightarrow> kinds" where
  "print_path fp = ident (root fp) # concat (map (\<lambda>s. [tok DOT, ident s]) (nested fp))"

fun print_literal :: "literal \<Rightarrow> token_type \<times> token_value" where
  "print_literal (StringLiteral s) = (STRING, VStr s)"
| "print_literal (IntegerLiteral n) = (INTEGER, VInt n)"
| "print_literal (FloatLiteral x) = (FLOAT, VFloat x)"
| "print_literal (BooleanLiteral b) = tok (if b then KW_TRUE else KW_FALSE)"
| "print_literal NullLiteral = tok KW_NULL"
| "print_literal (TemporalLiteral (Some TODAY) v) = tok KW_TODAY"
| "print_literal (TemporalLiteral (Some NOW) v) = tok KW_NOW"
| "print_literal (TemporalLiteral None (Some s)) = (TEMPORAL_LITERAL, VStr s)"
| "print_literal (TemporalLiteral None None) = tok KW_NULL"

text \<open>The literals that have a token: a temporal literal is a keyword or a date, not both.\<close>

fun wf_literal :: "literal \<Rightarrow> bool" where
  "wf_literal (TemporalLiteral kw v) \<longleftrightarrow> (kw = None) \<noteq> (v = None)"
| "wf_literal _ \<longleftrightarrow> True"

fun cmp_token :: "comparison_operator \<Rightarrow> token_type" where
  "cmp_token OpEQ = EQ"
| "cmp_token OpNEQ = NEQ"
| "cmp_token OpGT = GT"
| "cmp_token OpLT = LT"
| "cmp_token OpGTE = GTE"
| "cmp_token OpLTE = LTE"

definition print_range :: "lit_range \<Rightarrow> kinds" where
  "print_range r = [print_literal (r_start r), tok DOTDOT, print_literal (r_end r)]"

definition wf_range :: "lit_range \<Rightarrow> bool" where
  "wf_range r \<longleftrightarrow> wf_literal (r_start r) \<and> wf_literal (r_end r) \<and> r_inclusive r"

definition print_constraint :: "comparison_constraint \<Rightarrow> kinds" where
  "print_constraint c = [tok (cmp_token (c_operator c)), print_literal (c_value c)]"

definition wf_constraint :: "comparison_constraint \<Rightarrow> bool" where
  "wf_constraint c \<longleftrightarrow> wf_literal (c_value c)"

fun print_sep :: "('a \<Rightarrow> kinds) \<Rightarrow> token_type \<Rightarrow> 'a list \<Rightarrow> kinds" where
  "print_sep f sep [] = []"
| "print_sep f sep [x] = f x"
| "print_sep f sep (x # y # ys) = f x @ tok sep # print_sep f sep (y # ys)"

fun print_element :: "value_set_element \<Rightarrow> kinds" where
  "print_element (ElemLiteral l) = [print_literal l]"
| "print_element (ElemRange r) = print_range r"
| "print_element (ElemConstraint c) = print_constraint c"
| "print_element (ElemCompound cs) = print_sep print_constraint AMPERSAND cs"

fun wf_element :: "value_set_element \<Rightarrow> bool" where
  "wf_element (ElemLiteral l) \<longleftrightarrow> wf_literal l"
| "wf_element (ElemRange r) \<longleftrightarrow> wf_range r"
| "wf_element (ElemConstraint c) \<longleftrightarrow> wf_constraint c"
| "wf_element (ElemCompound cs) \<longleftrightarrow> 2 \<le> length cs \<and> list_all wf_constraint cs"

definition print_set :: "value_set \<Rightarrow> kinds" where
  "print_set vs = tok LBRACE # print_sep print_element COMMA (elements vs) @ [tok RBRACE]"

definition wf_set :: "value_set \<Rightarrow> bool" where
  "wf_set vs \<longleftrightarrow> elements vs \<noteq> [] \<and> list_all wf_element (elements vs)"

fun print_operator :: "field_operator \<Rightarrow> kinds" where
  "print_operator (Comparison op) = [tok (cmp_token op)]"
| "print_operator (StringOp STARTS) = [tok KW_STARTS]"
| "print_operator (StringOp ENDS) = [tok KW_ENDS]"
| "print_operator (StringOp HAS) = [tok KW_HAS]"
| "print_operator (StringOp NOT_HAS) = [tok KW_NOT, tok KW_HAS]"

fun print_operand :: "operand \<Rightarrow> kinds" where
  "print_operand (OperandLiteral l) = [print_literal l]"
| "print_operand (OperandSet vs) = print_set vs"
| "print_operand (OperandRange r) = print_range r"

fun is_string_literal :: "literal \<Rightarrow> bool" where
  "is_string_literal (StringLiteral s) \<longleftrightarrow> True"
| "is_string_literal _ \<longleftrightarrow> False"

fun wf_condition :: "field_operator \<Rightarrow> operand \<Rightarrow> bool" where
  "wf_condition (Comparison op) (OperandLiteral l) \<longleftrightarrow> wf_literal l"
| "wf_condition (Comparison op) (OperandRange r) \<longleftrightarrow> wf_range r"
| "wf_condition (Comparison op) (OperandSet vs) \<longleftrightarrow> \<not> is_ordering op \<and> wf_set vs"
| "wf_condition (StringOp op) (OperandLiteral l) \<longleftrightarrow> is_string_literal l"
| "wf_condition (StringOp op) (OperandSet vs) \<longleftrightarrow> (op = HAS \<or> op = NOT_HAS) \<and> wf_set vs"
| "wf_condition (StringOp op) (OperandRange r) \<longleftrightarrow> False"

text \<open>
  Expressions are printed at a level: 0 may be an OR, 1 an AND, 2 a NOT, 3 is a condition or a
  group. A tree of a lower level is put in a group.
\<close>

definition group_if :: "bool \<Rightarrow> kinds \<Rightarrow> kinds" where
  "group_if b ks = (if b then tok LBRACE # ks @ [tok RBRACE] else ks)"

fun print_expr :: "nat \<Rightarrow> expression \<Rightarrow> kinds" where
  "print_expr lvl (FieldExpression fp op v) = print_path fp @ print_operator op @ print_operand v"
| "print_expr lvl (LogicalExpression LOr l r) =
     group_if (0 < lvl) (print_expr 0 l @ tok KW_OR # print_expr 1 r)"
| "print_expr lvl (LogicalExpression LAnd l r) =
     group_if (1 < lvl) (print_expr 1 l @ tok KW_AND # print_expr 2 r)"
| "print_expr lvl (NegationExpression e) = group_if (2 < lvl) (tok KW_NOT # print_expr 2 e)"

fun wf_expr :: "expression \<Rightarrow> bool" where
  "wf_expr (FieldExpression fp op v) \<longleftrightarrow> wf_condition op v"
| "wf_expr (LogicalExpression op l r) \<longleftrightarrow> wf_expr l \<and> wf_expr r"
| "wf_expr (NegationExpression e) \<longleftrightarrow> wf_expr e"

definition print_where :: "expression option \<Rightarrow> kinds" where
  "print_where w =
     (case w of None \<Rightarrow> [] | Some e \<Rightarrow> tok KW_WHERE # tok LBRACE # print_expr 0 e @ [tok RBRACE])"

definition print_selection :: "field_selection \<Rightarrow> kinds" where
  "print_selection sel =
     print_path (sel_path sel) @ (case sel_alias sel of None \<Rightarrow> [] | Some a \<Rightarrow> [tok KW_AS, ident a])"

definition print_projection :: "field_selection list \<Rightarrow> kinds" where
  "print_projection sels =
     (if sels = [] then [] else tok LPAREN # print_sep print_selection COMMA sels @ [tok RPAREN])"

definition print_sort_clause :: "sort_clause \<Rightarrow> kinds" where
  "print_sort_clause s =
     print_path (sc_field s) @ [tok (case sc_direction s of ASC \<Rightarrow> KW_ASC | DESC \<Rightarrow> KW_DESC)]"

definition print_sort :: "sort_clause list \<Rightarrow> kinds" where
  "print_sort scs =
     (if scs = [] then [] else tok KW_SORT # tok LBRACE # print_sep print_sort_clause COMMA scs @ [tok RBRACE])"

definition print_ranking :: "ranking_clause option \<Rightarrow> kinds" where
  "print_ranking rk =
     (case rk of None \<Rightarrow> []
      | Some r \<Rightarrow> tok (case rc_direction r of TOP \<Rightarrow> KW_TOP | BOTTOM \<Rightarrow> KW_BOTTOM)
          # (INTEGER, VInt (rc_count r)) # tok KW_BY # print_path (rc_field r))"

definition print_number :: "token_type \<Rightarrow> int option \<Rightarrow> kinds" where
  "print_number ty n = (case n of None \<Rightarrow> [] | Some i \<Rightarrow> [tok ty, (INTEGER, VInt i)])"

definition print_assignment :: "mutation_assignment \<Rightarrow> kinds" where
  "print_assignment a = print_path (ma_field a) @ [tok COLON, print_literal (ma_value a)]"

definition print_fields :: "create_record \<Rightarrow> kinds" where
  "print_fields r = tok LPAREN # print_sep print_assignment COMMA (cr_assignments r) @ [tok RPAREN]"

definition print_batch :: "create_record list \<Rightarrow> kinds" where
  "print_batch rs =
     (case rs of [r] \<Rightarrow> print_fields r
      | _ \<Rightarrow> tok LPAREN # print_sep print_fields COMMA rs @ [tok RPAREN])"

fun print_stmt :: "query_operation \<Rightarrow> query_ir \<Rightarrow> kinds" where
  "print_stmt READ ir =
     tok KW_GET # ident (entity ir) # print_projection (projection ir) @ print_where (where_clause ir)
       @ print_sort (sort_clauses ir) @ print_ranking (ranking ir)
       @ print_number KW_LIMIT (limit ir) @ print_number KW_OFFSET (offset ir)"
| "print_stmt CREATE ir = tok KW_CREATE # ident (entity ir) # print_batch (records ir)"
| "print_stmt UPDATE ir =
     tok KW_UPDATE # ident (entity ir) # print_fields (CreateRecord (assignments ir))
       @ print_where (where_clause ir)"
| "print_stmt DELETE ir = tok KW_DELETE # ident (entity ir) # print_where (where_clause ir)"

definition print_ir :: "query_ir \<Rightarrow> kinds" where
  "print_ir ir = print_stmt (operation ir) ir @ [tok SEMICOLON]"

section \<open>The trees of the parser\<close>

definition wf_assignment :: "mutation_assignment \<Rightarrow> bool" where
  "wf_assignment a \<longleftrightarrow> wf_literal (ma_value a)"

definition wf_record :: "create_record \<Rightarrow> bool" where
  "wf_record r \<longleftrightarrow> cr_assignments r \<noteq> [] \<and> list_all wf_assignment (cr_assignments r) \<and>
     distinct (map (full_path \<circ> ma_field) (cr_assignments r))"

fun wf_stmt :: "query_operation \<Rightarrow> query_ir \<Rightarrow> bool" where
  "wf_stmt READ ir \<longleftrightarrow>
     assignments ir = [] \<and> records ir = [] \<and> pred_option wf_expr (where_clause ir) \<and>
     (sort_clauses ir = [] \<or> ranking ir = None)"
| "wf_stmt CREATE ir \<longleftrightarrow>
     records ir \<noteq> [] \<and> list_all wf_record (records ir) \<and>
     ir = (bare_ir CREATE (entity ir))\<lparr>records := records ir\<rparr>"
| "wf_stmt UPDATE ir \<longleftrightarrow>
     assignments ir \<noteq> [] \<and> list_all wf_assignment (assignments ir) \<and>
     where_clause ir \<noteq> None \<and> pred_option wf_expr (where_clause ir) \<and>
     ir = (bare_ir UPDATE (entity ir))\<lparr>assignments := assignments ir, where_clause := where_clause ir\<rparr>"
| "wf_stmt DELETE ir \<longleftrightarrow>
     pred_option wf_expr (where_clause ir) \<and>
     ir = (bare_ir DELETE (entity ir))\<lparr>where_clause := where_clause ir\<rparr>"

definition wf_ir :: "query_ir \<Rightarrow> bool" where
  "wf_ir ir \<longleftrightarrow> wf_stmt (operation ir) ir"

section \<open>The parser on a known prefix\<close>

definition remaining :: "parser \<Rightarrow> kinds" where
  "remaining p = map kind (drop (p_cursor p) (p_tokens p))"

definition pr_skip :: "nat \<Rightarrow> parser \<Rightarrow> parser" where
  "pr_skip n p = p\<lparr>p_cursor := p_cursor p + n\<rparr>"

lemma pr_skip_simps [simp]:
  "pr_skip 0 p = p" "pr_skip m (pr_skip n p) = pr_skip (n + m) p"
  "remaining (pr_skip n p) = drop n (remaining p)"
  by (simp_all add: pr_skip_def remaining_def drop_map add.commute add.assoc)

lemma remaining_nth:
  assumes "n < length (remaining p)"
  shows "kind (pr_peek_at p n) = remaining p ! n"
proof -
  have "\<not> length (p_tokens p) \<le> p_cursor p + n" using assms by (simp add: remaining_def)
  then show ?thesis by (simp add: remaining_def pr_peek_at_def Let_def)
qed

lemma peek_hd:
  assumes "remaining p \<noteq> []"
  shows "tk_type (pr_peek p) = fst (hd (remaining p))" "tk_value (pr_peek p) = snd (hd (remaining p))"
  using remaining_nth [of 0 p] assms
  by (simp_all add: pr_peek_def hd_conv_nth [OF assms] kind_def flip: remaining_nth [of 0 p])

lemma heads:
  assumes "remaining p \<noteq> []"
  shows "pr_check ty p \<longleftrightarrow> ty = fst (hd (remaining p))"
    and "pr_at_end p \<longleftrightarrow> fst (hd (remaining p)) = END_OF_INPUT"
    and "fst (hd (remaining p)) \<noteq> END_OF_INPUT \<Longrightarrow> pr_next p = pr_skip 1 p"
    and "pr_str p = value_str (snd (hd (remaining p)))"
    and "pr_int p = value_int (snd (hd (remaining p)))"
    and "comparison_at p = map_of comparison_tokens (fst (hd (remaining p)))"
  using assms
  by (auto simp: pr_check_def pr_at_end_def pr_next_def pr_str_def pr_int_def comparison_at_def
      peek_hd pr_skip_def)

lemma fst_tok [simp]: "fst (tok ty) = ty"
  by (simp add: tok_def)

lemma ident_sel [simp]: "fst (ident s) = IDENTIFIER" "value_str (snd (ident s)) = s"
  by (simp_all add: ident_def)

text \<open>Everything the parser asks of its current token, when the remaining tokens are known.\<close>

lemmas known = heads pr_match_def pr_consume_def no_expression_at_def

lemma path_loop_print:
  "remaining p = concat (map (\<lambda>s. [tok DOT, ident s]) ss) @ k # ks \<Longrightarrow> fst k \<noteq> DOT \<Longrightarrow>
     length ss < n \<Longrightarrow> path_loop n p = Inr (ss, pr_skip (2 * length ss) p)"
proof (induction ss arbitrary: n p)
  case Nil
  then show ?case by (cases n) (auto simp: known)
next
  case (Cons s ss)
  obtain m where n: "n = Suc m" using Cons.prems(3) by (cases n) auto
  have "path_loop m (pr_skip 2 p) = Inr (ss, pr_skip (2 * length ss) (pr_skip 2 p))"
    using Cons.prems by (intro Cons.IH) (simp_all add: n)
  with Cons.prems show ?case by (simp add: n known numeral_2_eq_2)
qed

lemma length_path_tail [simp]: "length (concat (map (\<lambda>s. [tok DOT, ident s]) ss)) = 2 * length ss"
  by (induction ss) simp_all

lemma length_print_path: "length (print_path fp) = Suc (2 * length (nested fp))"
  by (simp add: print_path_def)

lemma parse_field_path_print:
  assumes "remaining p = print_path fp @ k # ks" "fst k \<noteq> DOT" "length (print_path fp) \<le> n"
  shows "parse_field_path n p = Inr (fp, pr_skip (length (print_path fp)) p)"
proof -
  have "length (nested fp) < n" using assms(3) by (simp add: length_print_path)
  moreover have "remaining (pr_skip 1 p) = concat (map (\<lambda>s. [tok DOT, ident s]) (nested fp)) @ k # ks"
    using assms(1) by (simp add: print_path_def)
  ultimately have "path_loop n (pr_skip 1 p) = Inr (nested fp, pr_skip (2 * length (nested fp)) (pr_skip 1 p))"
    using path_loop_print assms(2) by blast
  then show ?thesis
    using assms(1) by (cases fp) (simp add: parse_field_path_def known print_path_def length_print_path)
qed

lemma parse_literal_print:
  assumes "remaining p = print_literal l # ks" "wf_literal l"
  shows "parse_literal p = Inr (l, pr_skip 1 p)"
proof (cases l)
  case (TemporalLiteral kw v)
  show ?thesis
  proof (cases kw)
    case None
    with TemporalLiteral assms show ?thesis
      by (cases v) (auto simp: parse_literal_def Let_def known peek_hd)
  next
    case (Some k)
    with TemporalLiteral assms show ?thesis
      by (cases v; cases k) (auto simp: parse_literal_def Let_def known peek_hd)
  qed
qed (use assms in \<open>auto simp: parse_literal_def Let_def known peek_hd\<close>)

section \<open>Values\<close>

lemma literal_head:
  "fst (print_literal l) \<in>
     {STRING, INTEGER, FLOAT, KW_TRUE, KW_FALSE, KW_NULL, KW_TODAY, KW_NOW, TEMPORAL_LITERAL}"
  by (cases l rule: print_literal.cases) auto

lemma literal_head_simps [simp]:
  "fst (print_literal l) \<noteq> RBRACE" "fst (print_literal l) \<noteq> LBRACE"
  "fst (print_literal l) \<noteq> END_OF_INPUT" "map_of comparison_tokens (fst (print_literal l)) = None"
  using literal_head [of l] by (auto simp: comparison_tokens_def)

lemma cmp_token_simps [simp]:
  "cmp_token op \<noteq> RBRACE" "cmp_token op \<noteq> LBRACE" "cmp_token op \<noteq> END_OF_INPUT"
  "cmp_token op \<noteq> DOT" "cmp_token op \<noteq> KW_NOT" "cmp_token op \<noteq> KW_HAS"
  "cmp_token op \<noteq> KW_STARTS" "cmp_token op \<noteq> KW_ENDS"
  "map_of comparison_tokens (cmp_token op) = Some op"
  by (cases op; simp add: comparison_tokens_def)+

lemmas head_simps [simp] = literal_head_simps(1-3) [THEN not_sym] cmp_token_simps(1-8) [THEN not_sym]

lemma parse_literal_or_range_print:
  assumes "remaining p = print_operand v @ k # ks" "wf_condition (Comparison op) v"
    and "fst k \<noteq> DOTDOT" "\<And>vs. v \<noteq> OperandSet vs"
  shows "parse_literal_or_range p = Inr (v, pr_skip (length (print_operand v)) p)"
  using assms
  by (cases v) (auto simp: parse_literal_or_range_def known parse_literal_print print_range_def
      wf_range_def numeral_eq_Suc intro: lit_range.expand)

lemma parse_constraint_print:
  assumes "remaining p = print_constraint c @ ks" "wf_constraint c" "op = c_operator c"
  shows "parse_comparison_constraint op p = Inr (c, pr_skip 2 p)"
  using assms
  by (cases c) (simp add: parse_comparison_constraint_def print_constraint_def wf_constraint_def
      known parse_literal_print numeral_eq_Suc)

lemma constraint_head: "print_constraint c = tok (cmp_token (c_operator c)) # [print_literal (c_value c)]"
  by (simp add: print_constraint_def)

lemma constraint_loop_print:
  assumes "remaining p = print_sep print_constraint AMPERSAND cs @ k # ks" "fst k \<noteq> AMPERSAND"
    and "cs \<noteq> []" "list_all wf_constraint cs" "length cs \<le> n"
  shows "constraint_loop n p = Inr (cs, pr_skip (length (print_sep print_constraint AMPERSAND cs)) p)"
  using assms
proof (induction print_constraint AMPERSAND cs arbitrary: n p rule: print_sep.induct)
  case (2 c)
  then show ?case
    by (cases n) (simp_all add: parse_constraint_print known constraint_head numeral_eq_Suc)
next
  case (3 c d cs)
  obtain m where n: "n = Suc m" using 3(6) by (cases n) auto
  have "constraint_loop m (pr_skip 3 p) =
      Inr (d # cs, pr_skip (length (print_sep print_constraint AMPERSAND (d # cs))) (pr_skip 3 p))"
    using 3(2,3,5,6) by (intro 3(1)) (simp_all add: n constraint_head numeral_eq_Suc)
  with 3(2,5) show ?case
    by (simp add: n parse_constraint_print known constraint_head numeral_eq_Suc)
qed simp

lemma length_print_sep:
  "(\<And>x. x \<in> set xs \<Longrightarrow> f x \<noteq> []) \<Longrightarrow> length xs \<le> length (print_sep f sep xs)"
proof (induction f sep xs rule: print_sep.induct)
  case (2 f sep x)
  then show ?case by (cases "f x") auto
next
  case (3 f sep x y ys)
  then show ?case by auto
qed simp

lemma print_sep_Cons:
  "xs \<noteq> [] \<Longrightarrow> print_sep f sep (x # xs) = f x @ tok sep # print_sep f sep xs"
  by (cases xs) simp_all

lemma print_sep_head:
  obtains ks where "print_sep f sep (x # xs) = f x @ ks"
  by (cases xs) auto

lemma parse_element_print:
  assumes "remaining p = print_element el @ k # ks" "wf_element el"
    and "fst k \<noteq> AMPERSAND" "fst k \<noteq> DOTDOT" "length (print_element el) \<le> n"
  shows "parse_value_set_element n p = Inr (el, pr_skip (length (print_element el)) p)"
proof (cases el)
  case (ElemLiteral l)
  with assms show ?thesis by (simp add: parse_value_set_element_def known parse_literal_print)
next
  case (ElemRange r)
  with assms show ?thesis
    by (cases r) (simp add: parse_value_set_element_def known parse_literal_print print_range_def
        wf_range_def numeral_eq_Suc)
next
  case (ElemConstraint c)
  with assms show ?thesis
    by (simp add: parse_value_set_element_def known parse_constraint_print constraint_head numeral_eq_Suc)
next
  case (ElemCompound cs)
  obtain c cs' where cs: "cs = c # cs'" "cs' \<noteq> []"
    using assms(2) ElemCompound by (cases cs; cases "tl cs") auto
  have "length cs' \<le> n"
    using assms(5) length_print_sep [of cs print_constraint AMPERSAND]
    by (simp add: ElemCompound cs(1) constraint_head)
  then have "constraint_loop n (pr_skip 3 p) =
      Inr (cs', pr_skip (length (print_sep print_constraint AMPERSAND cs')) (pr_skip 3 p))"
    using assms(1-3) cs
    by (intro constraint_loop_print)
      (auto simp: ElemCompound print_sep_Cons constraint_head numeral_eq_Suc)
  with assms cs show ?thesis
    by (simp add: ElemCompound parse_value_set_element_def known parse_constraint_print
        print_sep_Cons constraint_head numeral_eq_Suc)
qed

lemma element_head:
  assumes "wf_element el"
  obtains k ks where "print_element el = k # ks" "fst k \<noteq> RBRACE" "fst k \<noteq> END_OF_INPUT"
proof (cases el)
  case (ElemCompound cs)
  then obtain c d cs' where "cs = c # d # cs'" using assms by (cases cs; cases "tl cs") auto
  with that ElemCompound show thesis by (simp add: constraint_head)
qed (use that in \<open>auto simp: print_range_def constraint_head\<close>)

lemma value_set_loop_print:
  assumes "remaining p = print_sep print_element COMMA els @ k # ks" "fst k = RBRACE"
    and "els \<noteq> []" "list_all wf_element els" "length (print_sep print_element COMMA els) < n"
  shows "value_set_loop n p = Inr (els, pr_skip (length (print_sep print_element COMMA els)) p)"
  using assms
proof (induction print_element COMMA els arbitrary: n p rule: print_sep.induct)
  case (2 el)
  then obtain m where n: "n = Suc m" by (cases n) auto
  have "parse_value_set_element m p = Inr (el, pr_skip (length (print_element el)) p)"
    using 2 by (intro parse_element_print [of p el k ks]) (simp_all add: n)
  moreover have "wf_element el" using 2 by simp
  then obtain h hs where "print_element el = h # hs" "fst h \<noteq> RBRACE" "fst h \<noteq> END_OF_INPUT"
    by (rule element_head)
  ultimately show ?case using 2 by (simp add: n known)
next
  case (3 el el' els)
  then obtain m where n: "n = Suc m" by (cases n) auto
  have "parse_value_set_element m p = Inr (el, pr_skip (length (print_element el)) p)"
    using 3 by (intro parse_element_print [of p el "tok COMMA"]) (simp_all add: n)
  moreover have wf: "wf_element el" "wf_element el'" using 3 by simp_all
  moreover obtain h hs where "print_element el = h # hs" "fst h \<noteq> RBRACE" "fst h \<noteq> END_OF_INPUT"
    using wf(1) by (rule element_head)
  moreover obtain h' hs' where "print_sep print_element COMMA (el' # els) = h' # hs'" "fst h' \<noteq> RBRACE"
    using wf(2) by (rule element_head) (cases els; simp)
  moreover let ?p = "pr_skip (Suc (length (print_element el))) p"
  have "value_set_loop m ?p = Inr (el' # els, pr_skip (length (print_sep print_element COMMA (el' # els))) ?p)"
    using 3(2-6) by (intro 3(1)) (simp_all add: n)
  ultimately show ?case using 3(2,3) by (simp add: n known)
qed simp

lemma parse_set_print:
  assumes "remaining p = tl (print_set vs) @ ks" "wf_set vs" "length (print_set vs) \<le> n"
  shows "parse_value_set n p = Inr (vs, pr_skip (length (tl (print_set vs))) p)"
proof -
  obtain els where vs: "vs = ValueSet els" by (cases vs)
  have "value_set_loop n p = Inr (els, pr_skip (length (print_sep print_element COMMA els)) p)"
    using assms by (intro value_set_loop_print [where k = "tok RBRACE"])
      (auto simp: vs wf_set_def print_set_def)
  moreover obtain el els' where els: "els = el # els'" using assms(2) by (cases els) (auto simp: vs wf_set_def)
  moreover obtain h hs where "print_sep print_element COMMA els = h # hs" "fst h \<noteq> RBRACE"
  proof -
    have "wf_element el" using assms(2) by (simp add: els vs wf_set_def)
    then show thesis
      using that unfolding els
      by (elim element_head) (rule print_sep_head [of print_element COMMA el els'], simp)
  qed
  ultimately show ?thesis
    using assms by (simp add: parse_value_set_def vs print_set_def known)
qed

lemma parse_operator_and_operand_print:
  assumes "remaining p = print_operator op @ print_operand v @ k # ks" "wf_condition op v"
    and "fst k \<noteq> DOTDOT" "length (print_operand v) \<le> n"
  shows "parse_operator_and_operand n p =
           Inr ((op, v), pr_skip (length (print_operator op @ print_operand v)) p)"
proof (cases op)
  case (Comparison c)
  show ?thesis
  proof (cases v)
    case (OperandSet vs)
    have "parse_value_set n (pr_skip 2 p) = Inr (vs, pr_skip (length (tl (print_set vs))) (pr_skip 2 p))"
      using assms by (intro parse_set_print [where ks = "k # ks"])
        (simp_all add: Comparison OperandSet print_set_def numeral_eq_Suc)
    then show ?thesis using assms
      by (simp add: parse_operator_and_operand_def Comparison OperandSet known print_set_def Let_def numeral_eq_Suc)
  next
    case (OperandLiteral l)
    then show ?thesis using assms parse_literal_or_range_print [of "pr_skip 1 p" v k ks c]
      by (simp add: parse_operator_and_operand_def Comparison known Let_def numeral_eq_Suc)
  next
    case (OperandRange r)
    then show ?thesis using assms parse_literal_or_range_print [of "pr_skip 1 p" v k ks c]
      by (simp add: parse_operator_and_operand_def Comparison known Let_def numeral_eq_Suc print_range_def)
  qed
next
  case (StringOp s)
  show ?thesis
  proof (cases v)
    case (OperandLiteral l)
    then show ?thesis using assms
      by (cases s; cases l) (simp_all add: parse_operator_and_operand_def StringOp known
          parse_string_literal_def parse_string_operand_def numeral_eq_Suc)
  next
    case (OperandSet vs)
    have "parse_value_set n (pr_skip 2 p) = Inr (vs, pr_skip (length (tl (print_set vs))) (pr_skip 2 p))"
      if "s = HAS"
      using assms that by (intro parse_set_print [where ks = "k # ks"])
        (simp_all add: StringOp OperandSet print_set_def numeral_eq_Suc)
    moreover have "parse_value_set n (pr_skip 3 p) = Inr (vs, pr_skip (length (tl (print_set vs))) (pr_skip 3 p))"
      if "s = NOT_HAS"
      using assms that by (intro parse_set_print [where ks = "k # ks"])
        (simp_all add: StringOp OperandSet print_set_def numeral_eq_Suc)
    ultimately show ?thesis using assms
      by (cases s) (simp_all add: parse_operator_and_operand_def StringOp OperandSet known
          parse_string_operand_def print_set_def numeral_eq_Suc)
  qed (use assms StringOp in auto)
qed

section \<open>Expressions\<close>

text \<open>
  The parser reads a printed expression at each of its four levels. A chain of OR (or AND) is read by
  the loop, which is left with less fuel than it started with: by the length of the chain.
\<close>

fun or_chain :: "expression \<Rightarrow> nat" where
  "or_chain (LogicalExpression LOr l r) = Suc (or_chain l)"
| "or_chain e = 1"

fun and_chain :: "expression \<Rightarrow> nat" where
  "and_chain (LogicalExpression LAnd l r) = Suc (and_chain l)"
| "and_chain e = 1"

abbreviation past :: "nat \<Rightarrow> expression \<Rightarrow> parser \<Rightarrow> parser" where
  "past lvl e p \<equiv> pr_skip (length (print_expr lvl e)) p"

definition reads_primary :: "expression \<Rightarrow> bool" where
  "reads_primary e \<longleftrightarrow> (\<forall>p n k ks. remaining p = print_expr 3 e @ k # ks \<longrightarrow> fst k \<noteq> DOTDOT \<longrightarrow>
     5 * length (print_expr 3 e) + 1 \<le> n \<longrightarrow> parse_primary_expression n p = Inr (e, past 3 e p))"

definition reads_not :: "expression \<Rightarrow> bool" where
  "reads_not e \<longleftrightarrow> (\<forall>p n k ks. remaining p = print_expr 2 e @ k # ks \<longrightarrow> fst k \<noteq> DOTDOT \<longrightarrow>
     5 * length (print_expr 2 e) + 2 \<le> n \<longrightarrow> parse_not_expression n p = Inr (e, past 2 e p))"

definition reads_and :: "expression \<Rightarrow> bool" where
  "reads_and e \<longleftrightarrow> (\<forall>p n k ks. remaining p = print_expr 1 e @ k # ks \<longrightarrow> fst k \<noteq> DOTDOT \<longrightarrow>
     5 * length (print_expr 1 e) + 3 \<le> n \<longrightarrow>
     parse_and_expression n p = and_loop (n - and_chain e) e (past 1 e p))"

definition reads_or :: "expression \<Rightarrow> bool" where
  "reads_or e \<longleftrightarrow> (\<forall>p n k ks. remaining p = print_expr 0 e @ k # ks \<longrightarrow>
     fst k \<notin> {DOTDOT, KW_AND, COMMA} \<longrightarrow> 5 * length (print_expr 0 e) + 4 \<le> n \<longrightarrow>
     parse_or_expression n p = or_loop (n - or_chain e) e (past 0 e p))"

lemma reads_primaryD:
  "reads_primary e \<Longrightarrow> remaining p = print_expr 3 e @ k # ks \<Longrightarrow> fst k \<noteq> DOTDOT \<Longrightarrow>
     5 * length (print_expr 3 e) + 1 \<le> n \<Longrightarrow> parse_primary_expression n p = Inr (e, past 3 e p)"
  unfolding reads_primary_def by blast

lemma reads_notD:
  "reads_not e \<Longrightarrow> remaining p = print_expr 2 e @ k # ks \<Longrightarrow> fst k \<noteq> DOTDOT \<Longrightarrow>
     5 * length (print_expr 2 e) + 2 \<le> n \<Longrightarrow> parse_not_expression n p = Inr (e, past 2 e p)"
  unfolding reads_not_def by blast

lemma reads_andD:
  "reads_and e \<Longrightarrow> remaining p = print_expr 1 e @ k # ks \<Longrightarrow> fst k \<noteq> DOTDOT \<Longrightarrow>
     5 * length (print_expr 1 e) + 3 \<le> n \<Longrightarrow>
     parse_and_expression n p = and_loop (n - and_chain e) e (past 1 e p)"
  unfolding reads_and_def by blast

lemma reads_orD:
  "reads_or e \<Longrightarrow> remaining p = print_expr 0 e @ k # ks \<Longrightarrow> fst k \<notin> {DOTDOT, KW_AND, COMMA} \<Longrightarrow>
     5 * length (print_expr 0 e) + 4 \<le> n \<Longrightarrow>
     parse_or_expression n p = or_loop (n - or_chain e) e (past 0 e p)"
  unfolding reads_or_def by blast

lemma print_path_head: "print_path fp = ident (root fp) # tl (print_path fp)"
  by (simp add: print_path_def)

lemma expr_head:
  obtains k ks where "print_expr lvl e = k # ks" "fst k \<in> {IDENTIFIER, LBRACE, KW_NOT}"
proof (induction lvl e arbitrary: thesis rule: print_expr.induct)
  case (1 lvl fp op v)
  then show ?case by (subst (asm) print_expr.simps, subst (asm) print_path_head) simp
next
  case (2 lvl l r)
  then show ?case by (metis (no_types, lifting) append_Cons fst_tok group_if_def insertI1 insertI2 print_expr.simps(2))
next
  case (3 lvl l r)
  then show ?case by (metis (no_types, lifting) append_Cons fst_tok group_if_def insertI1 insertI2 print_expr.simps(3))
next
  case (4 lvl e)
  then show ?case by (metis fst_tok group_if_def insertCI print_expr.simps(4))
qed

lemma expr_starts:
  assumes "remaining p = print_expr lvl e @ ks"
  shows "\<not> no_expression_at p" "\<not> pr_check RBRACE p" "\<not> pr_at_end p"
proof -
  obtain k ks' where "print_expr lvl e = k # ks'" "fst k \<in> {IDENTIFIER, LBRACE, KW_NOT}"
    by (rule expr_head)
  then show "\<not> no_expression_at p" "\<not> pr_check RBRACE p" "\<not> pr_at_end p"
    using assms by (auto simp: known)
qed

lemma operator_head:
  obtains k ks where "print_operator op = k # ks" "fst k \<noteq> DOT"
  by (cases op rule: print_operator.cases) auto

lemma parse_atomic_print:
  assumes "remaining p = print_expr lvl (FieldExpression fp op v) @ k # ks" "fst k \<noteq> DOTDOT"
    and "wf_condition op v" "length (print_expr lvl (FieldExpression fp op v)) \<le> n"
  shows "parse_atomic_field_expression n p =
           Inr (FieldExpression fp op v, pr_skip (length (print_expr lvl (FieldExpression fp op v))) p)"
proof -
  obtain h hs where h: "print_operator op = h # hs" "fst h \<noteq> DOT" by (rule operator_head)
  have "parse_field_path n p = Inr (fp, pr_skip (length (print_path fp)) p)"
    using assms h by (intro parse_field_path_print [where k = h]) auto
  moreover have "parse_operator_and_operand n (pr_skip (length (print_path fp)) p) =
      Inr ((op, v), pr_skip (length (print_operator op @ print_operand v)) (pr_skip (length (print_path fp)) p))"
    using assms by (intro parse_operator_and_operand_print [where k = k and ks = ks]) auto
  ultimately show ?thesis by (simp add: parse_atomic_field_expression_def)
qed

lemma chain_short:
  "or_chain e \<le> length (print_expr 0 e)" "and_chain e \<le> length (print_expr 1 e)"
proof -
  have pos: "0 < length (print_expr lvl e)" for lvl e
    by (metis expr_head length_greater_0_conv list.distinct(1))
  show "or_chain e \<le> length (print_expr 0 e)"
    using pos [of 0] by (induction e rule: or_chain.induct) (auto simp: Suc_le_eq group_if_def simp del: print_expr.simps(1,3,4) length_greater_0_conv)
  show "and_chain e \<le> length (print_expr 1 e)"
    using pos [of 1] by (induction e rule: and_chain.induct) (auto simp: Suc_le_eq group_if_def simp del: print_expr.simps(1,2,4) length_greater_0_conv)
qed

lemma reads_field: "wf_condition op v \<Longrightarrow> reads_primary (FieldExpression fp op v)"
proof (unfold reads_primary_def, intro allI impI)
  fix p n k ks
  let ?e = "FieldExpression fp op v"
  assume a: "wf_condition op v" "remaining p = print_expr 3 ?e @ k # ks" "fst k \<noteq> DOTDOT"
    "5 * length (print_expr 3 ?e) + 1 \<le> n"
  then obtain m where n: "n = Suc m" by (cases n) auto
  have "\<not> pr_check LBRACE p" "pr_check IDENTIFIER p"
    using a(2) by (auto simp: known print_path_def)
  with parse_atomic_print [OF a(2,3,1)] a(4) show "parse_primary_expression n p = Inr (?e, past 3 ?e p)"
    by (simp add: n pr_match_def)
qed

lemma and_loop_stops:
  "remaining p = k # ks \<Longrightarrow> fst k \<notin> {KW_AND, COMMA} \<Longrightarrow> 0 < n \<Longrightarrow> and_loop n e p = Inr (e, p)"
  by (cases n) (auto simp: known)

lemma or_loop_stops:
  "remaining p = k # ks \<Longrightarrow> fst k \<noteq> KW_OR \<Longrightarrow> 0 < n \<Longrightarrow> or_loop n e p = Inr (e, p)"
  by (cases n) (auto simp: known)

lemma reads_group:
  assumes "reads_or e" "print_expr 3 e = tok LBRACE # print_expr 0 e @ [tok RBRACE]"
  shows "reads_primary e"
proof (unfold reads_primary_def, intro allI impI)
  fix p n k ks
  assume a: "remaining p = print_expr 3 e @ k # ks" "5 * length (print_expr 3 e) + 1 \<le> n"
  then obtain m where n: "n = Suc m" by (cases n) auto
  have m: "5 * length (print_expr 0 e) + 10 \<le> m" using a(2) by (simp add: assms(2) n)
  let ?q = "pr_skip 1 p"
  have q: "remaining ?q = print_expr 0 e @ tok RBRACE # k # ks" using a(1) by (simp add: assms(2))
  then have "parse_or_expression m ?q = or_loop (m - or_chain e) e (past 0 e ?q)"
    using assms(1) m by (intro reads_orD) auto
  also have "\<dots> = Inr (e, past 0 e ?q)"
    using a(1) m chain_short(1) [of e]
    by (intro or_loop_stops [where k = "tok RBRACE" and ks = "k # ks"]) (auto simp: assms(2))
  finally have "parse_or_expression m ?q = Inr (e, past 0 e ?q)" .
  then show "parse_primary_expression n p = Inr (e, past 3 e p)"
    using a(1) expr_starts(2) [OF q] q by (simp add: n known assms(2))
qed

lemma reads_other_not:
  assumes "reads_primary e" "print_expr 2 e = print_expr 3 e" "fst (hd (print_expr 2 e)) \<noteq> KW_NOT"
  shows "reads_not e"
proof (unfold reads_not_def, intro allI impI)
  fix p n k ks
  assume a: "remaining p = print_expr 2 e @ k # ks" "fst k \<noteq> DOTDOT" "5 * length (print_expr 2 e) + 2 \<le> n"
  then obtain m where n: "n = Suc m" by (cases n) auto
  obtain h hs where "print_expr 2 e = h # hs" by (rule expr_head)
  then have "\<not> pr_check KW_NOT p" using a(1) assms(3) by (auto simp: known)
  with reads_primaryD [OF assms(1), of p k ks m] a assms(2)
  show "parse_not_expression n p = Inr (e, past 2 e p)" by (simp add: n pr_match_def)
qed

lemma reads_negation:
  assumes "reads_not e"
  shows "reads_not (NegationExpression e)"
proof (unfold reads_not_def, intro allI impI)
  fix p n k ks
  assume a: "remaining p = print_expr 2 (NegationExpression e) @ k # ks" "fst k \<noteq> DOTDOT"
    "5 * length (print_expr 2 (NegationExpression e)) + 2 \<le> n"
  then obtain m where n: "n = Suc m" by (cases n) auto
  have q: "remaining (pr_skip 1 p) = print_expr 2 e @ k # ks" using a(1) by (simp add: group_if_def)
  have "parse_not_expression m (pr_skip 1 p) = Inr (e, past 2 e (pr_skip 1 p))"
    using a(2,3) q by (intro reads_notD [OF assms]) (simp_all add: n group_if_def)
  then show "parse_not_expression n p = Inr (NegationExpression e, past 2 (NegationExpression e) p)"
    using a(1) expr_starts(1) [OF q] by (simp add: n known group_if_def)
qed

lemma reads_other_and:
  assumes "reads_not e" "print_expr 1 e = print_expr 2 e" "and_chain e = 1"
  shows "reads_and e"
proof (unfold reads_and_def, intro allI impI)
  fix p n k ks
  assume a: "remaining p = print_expr 1 e @ k # ks" "fst k \<noteq> DOTDOT" "5 * length (print_expr 1 e) + 3 \<le> n"
  then obtain m where n: "n = Suc m" by (cases n) auto
  with reads_notD [OF assms(1), of p k ks m] a assms(2,3)
  show "parse_and_expression n p = and_loop (n - and_chain e) e (past 1 e p)" by simp
qed

lemma reads_conjunction:
  assumes "reads_and l" "reads_not r"
  shows "reads_and (LogicalExpression LAnd l r)"
proof (unfold reads_and_def, intro allI impI)
  fix p n k ks
  let ?e = "LogicalExpression LAnd l r"
  assume a: "remaining p = print_expr 1 ?e @ k # ks" "fst k \<noteq> DOTDOT" "5 * length (print_expr 1 ?e) + 3 \<le> n"
  have p: "remaining p = print_expr 1 l @ tok KW_AND # print_expr 2 r @ k # ks"
    using a(1) by (simp add: group_if_def)
  have n: "5 * length (print_expr 1 l) + 5 * length (print_expr 2 r) + 8 \<le> n"
    using a(3) by (simp add: group_if_def)
  have "parse_and_expression n p = and_loop (n - and_chain l) l (past 1 l p)"
    using p n by (intro reads_andD [OF assms(1)]) auto
  also obtain m where m: "n - and_chain l = Suc m"
    using n chain_short(2) [of l] by (cases "n - and_chain l") auto
  let ?q = "pr_skip 1 (past 1 l p)"
  have q: "remaining ?q = print_expr 2 r @ k # ks" using p by simp
  have "5 * length (print_expr 2 r) + 2 \<le> m" using m n chain_short(2) [of l] by linarith
  then have "parse_not_expression m ?q = Inr (r, past 2 r ?q)"
    using q a(2) by (intro reads_notD [OF assms(2)]) auto
  then have "and_loop (n - and_chain l) l (past 1 l p) = and_loop m ?e (past 2 r ?q)"
    using p expr_starts(1) [OF q] by (simp add: m known)
  also have "m = n - and_chain ?e" using m by simp
  also have "past 2 r ?q = past 1 ?e p" by (simp add: group_if_def)
  finally show "parse_and_expression n p = and_loop (n - and_chain ?e) ?e (past 1 ?e p)" .
qed

text \<open>An AND level expression before something that ends it.\<close>

lemma reads_and_whole:
  assumes "reads_and e" "remaining p = print_expr 1 e @ k # ks" "fst k \<notin> {DOTDOT, KW_AND, COMMA}"
    and "5 * length (print_expr 1 e) + 3 \<le> n"
  shows "parse_and_expression n p = Inr (e, past 1 e p)"
proof -
  have "parse_and_expression n p = and_loop (n - and_chain e) e (past 1 e p)"
    using assms by (intro reads_andD) auto
  also have "\<dots> = Inr (e, past 1 e p)"
    using assms(2-4) chain_short(2) [of e] by (intro and_loop_stops) auto
  finally show ?thesis .
qed

lemma reads_other_or:
  assumes "reads_and e" "print_expr 0 e = print_expr 1 e" "or_chain e = 1"
  shows "reads_or e"
proof (unfold reads_or_def, intro allI impI)
  fix p n k ks
  assume a: "remaining p = print_expr 0 e @ k # ks" "fst k \<notin> {DOTDOT, KW_AND, COMMA}"
    "5 * length (print_expr 0 e) + 4 \<le> n"
  then obtain m where n: "n = Suc m" by (cases n) auto
  with reads_and_whole [OF assms(1), of p k ks m] a assms(2,3)
  show "parse_or_expression n p = or_loop (n - or_chain e) e (past 0 e p)" by simp
qed

lemma reads_disjunction:
  assumes "reads_or l" "reads_and r"
  shows "reads_or (LogicalExpression LOr l r)"
proof (unfold reads_or_def, intro allI impI)
  fix p n k ks
  let ?e = "LogicalExpression LOr l r"
  assume a: "remaining p = print_expr 0 ?e @ k # ks" "fst k \<notin> {DOTDOT, KW_AND, COMMA}"
    "5 * length (print_expr 0 ?e) + 4 \<le> n"
  have p: "remaining p = print_expr 0 l @ tok KW_OR # print_expr 1 r @ k # ks"
    using a(1) by (simp add: group_if_def)
  have n: "5 * length (print_expr 0 l) + 5 * length (print_expr 1 r) + 9 \<le> n"
    using a(3) by (simp add: group_if_def)
  have "parse_or_expression n p = or_loop (n - or_chain l) l (past 0 l p)"
    using p n by (intro reads_orD [OF assms(1)]) auto
  also obtain m where m: "n - or_chain l = Suc m"
    using n chain_short(1) [of l] by (cases "n - or_chain l") auto
  let ?q = "pr_skip 1 (past 0 l p)"
  have q: "remaining ?q = print_expr 1 r @ k # ks" using p by simp
  have "5 * length (print_expr 1 r) + 3 \<le> m" using m n chain_short(1) [of l] by linarith
  then have "parse_and_expression m ?q = Inr (r, past 1 r ?q)"
    using q a(2) by (intro reads_and_whole [OF assms(2)]) auto
  then have "or_loop (n - or_chain l) l (past 0 l p) = or_loop m ?e (past 1 r ?q)"
    using p expr_starts(1) [OF q] by (simp add: m known)
  also have "m = n - or_chain ?e" using m by simp
  also have "past 1 r ?q = past 0 ?e p" by (simp add: group_if_def)
  finally show "parse_or_expression n p = or_loop (n - or_chain ?e) ?e (past 0 ?e p)" .
qed

lemma reads_all: "wf_expr e \<Longrightarrow> reads_or e \<and> reads_and e \<and> reads_not e \<and> reads_primary e"
proof (induction e)
  case (FieldExpression fp op v)
  let ?e = "FieldExpression fp op v"
  have p: "reads_primary ?e" using FieldExpression by (simp add: reads_field)
  moreover have n: "reads_not ?e"
    using p by (rule reads_other_not) (simp_all add: print_path_def)
  moreover have a: "reads_and ?e" using n by (rule reads_other_and) simp_all
  moreover have "reads_or ?e" using a by (rule reads_other_or) simp_all
  ultimately show ?case by simp
next
  case (LogicalExpression op l r)
  let ?e = "LogicalExpression op l r"
  have IH: "reads_or l" "reads_and l" "reads_and r" "reads_not r" using LogicalExpression by simp_all
  show ?case
  proof (cases op)
    case LAnd
    have a: "reads_and ?e" unfolding LAnd by (rule reads_conjunction [OF IH(2,4)])
    moreover have o: "reads_or ?e"
      using a by (rule reads_other_or) (simp_all add: LAnd group_if_def)
    moreover have p: "reads_primary ?e"
      using o by (rule reads_group) (simp add: LAnd group_if_def)
    moreover have "reads_not ?e"
      using p by (rule reads_other_not) (simp_all add: LAnd group_if_def)
    ultimately show ?thesis by simp
  next
    case LOr
    have o: "reads_or ?e" unfolding LOr by (rule reads_disjunction [OF IH(1,3)])
    moreover have p: "reads_primary ?e"
      using o by (rule reads_group) (simp add: LOr group_if_def)
    moreover have n: "reads_not ?e"
      using p by (rule reads_other_not) (simp_all add: LOr group_if_def)
    moreover have "reads_and ?e"
      using n by (rule reads_other_and) (simp_all add: LOr group_if_def)
    ultimately show ?thesis by simp
  qed
next
  case (NegationExpression e)
  let ?e = "NegationExpression e"
  have n: "reads_not ?e" using NegationExpression by (simp add: reads_negation)
  moreover have a: "reads_and ?e" using n by (rule reads_other_and) (simp_all add: group_if_def)
  moreover have o: "reads_or ?e" using a by (rule reads_other_or) (simp_all add: group_if_def)
  moreover have "reads_primary ?e" using o by (rule reads_group) (simp add: group_if_def)
  ultimately show ?case by simp
qed

lemma print_expr_pos: "0 < length (print_expr lvl e)"
  by (metis expr_head length_greater_0_conv list.distinct(1))

lemma parse_where_block_print:
  assumes "remaining p = tok LBRACE # print_expr 0 e @ tok RBRACE # ks" "wf_expr e"
    and "5 * length (print_expr 0 e) + 5 \<le> n"
  shows "parse_where_block n p = Inr (e, pr_skip (length (print_expr 0 e) + 2) p)"
proof -
  obtain m where n: "n = Suc m" using assms(3) by (cases n) auto
  let ?q = "pr_skip 1 p"
  have q: "remaining ?q = print_expr 0 e @ tok RBRACE # ks" using assms(1) by simp
  have "parse_or_expression m ?q = or_loop (m - or_chain e) e (past 0 e ?q)"
    using assms q reads_all [of e] by (intro reads_orD) (auto simp: n)
  also have "\<dots> = Inr (e, past 0 e ?q)"
    using assms n chain_short(1) [of e] by (intro or_loop_stops [where k = "tok RBRACE" and ks = ks]) auto
  finally have "parse_or_expression m ?q = Inr (e, past 0 e ?q)" .
  with assms(1) expr_starts(2,3) [OF q] show ?thesis
    by (simp add: parse_where_block_def n known)
qed

definition optional_where :: "nat \<Rightarrow> parser \<Rightarrow> expression option parse_result" where
  "optional_where n p =
     (case pr_match KW_WHERE p of
        Some p1 \<Rightarrow> bindE (parse_where_block n p1) (\<lambda>(e, p2). Inr (Some e, p2))
      | None \<Rightarrow> Inr (None, p))"

lemma optional_where_print:
  assumes "remaining p = print_where w @ ks" "pred_option wf_expr w" "ks \<noteq> []" "fst (hd ks) \<noteq> KW_WHERE"
    and "5 * length (print_where w) \<le> n"
  shows "optional_where n p = Inr (w, pr_skip (length (print_where w)) p)"
proof (cases w)
  case None
  with assms show ?thesis by (auto simp: optional_where_def print_where_def known)
next
  case (Some e)
  have "parse_where_block n (pr_skip 1 p) = Inr (e, pr_skip (length (print_expr 0 e) + 2) (pr_skip 1 p))"
    using assms by (intro parse_where_block_print [where ks = ks]) (auto simp: Some print_where_def)
  with assms Some show ?thesis by (simp add: optional_where_def print_where_def known)
qed

section \<open>Projection, sorting, ranking and paging\<close>

lemma parse_selection_print:
  assumes "remaining p = print_selection sel @ k # ks" "fst k \<noteq> DOT" "fst k \<noteq> KW_AS"
    and "length (print_selection sel) \<le> n"
  shows "parse_field_path n p = Inr (sel_path sel, pr_skip (length (print_path (sel_path sel))) p)"
    and "parse_alias (pr_skip (length (print_path (sel_path sel))) p) =
           Inr (sel_alias sel, pr_skip (length (print_selection sel)) p)"
proof -
  show "parse_field_path n p = Inr (sel_path sel, pr_skip (length (print_path (sel_path sel))) p)"
    using assms by (cases "sel_alias sel")
      (auto simp: print_selection_def intro!: parse_field_path_print)
  show "parse_alias (pr_skip (length (print_path (sel_path sel))) p) =
           Inr (sel_alias sel, pr_skip (length (print_selection sel)) p)"
    using assms(1,3) by (cases "sel_alias sel") (auto simp: parse_alias_def print_selection_def known)
qed

lemma projection_loop_print:
  assumes "remaining p = print_sep print_selection COMMA sels @ tok RPAREN # ks"
    and "sels \<noteq> []" "length (print_sep print_selection COMMA sels) < n"
  shows "projection_loop n p = Inr (sels, pr_skip (Suc (length (print_sep print_selection COMMA sels))) p)"
  using assms
proof (induction print_selection COMMA sels arbitrary: n p rule: print_sep.induct)
  case (2 sel)
  then obtain m where n: "n = Suc m" by (cases n) auto
  have "parse_field_path m p = Inr (sel_path sel, pr_skip (length (print_path (sel_path sel))) p)"
    and "parse_alias (pr_skip (length (print_path (sel_path sel))) p) =
           Inr (sel_alias sel, pr_skip (length (print_selection sel)) p)"
    using parse_selection_print [of p sel "tok RPAREN" ks m] 2 by (simp_all add: n)
  with 2 show ?case by (cases sel) (simp add: n known)
next
  case (3 sel sel' sels)
  then obtain m where n: "n = Suc m" by (cases n) auto
  have "parse_field_path m p = Inr (sel_path sel, pr_skip (length (print_path (sel_path sel))) p)"
    and "parse_alias (pr_skip (length (print_path (sel_path sel))) p) =
           Inr (sel_alias sel, pr_skip (length (print_selection sel)) p)"
    using parse_selection_print [of p sel "tok COMMA" _ m] 3 by (simp_all add: n)
  moreover let ?p = "pr_skip (Suc (length (print_selection sel))) p"
  have q: "remaining ?p = print_sep print_selection COMMA (sel' # sels) @ tok RPAREN # ks" using 3(2) by simp
  then have "projection_loop m ?p =
      Inr (sel' # sels, pr_skip (Suc (length (print_sep print_selection COMMA (sel' # sels)))) ?p)"
    using 3(4) by (intro 3(1)) (simp_all add: n)
  moreover obtain h hs where "print_sep print_selection COMMA (sel' # sels) = ident h # hs"
    by (cases sels; simp add: print_selection_def print_path_def)
  then have "\<not> pr_check RPAREN ?p" using q by (auto simp: known)
  ultimately show ?case using 3(2) by (cases sel) (simp add: n known)
qed simp

definition optional_projection :: "nat \<Rightarrow> parser \<Rightarrow> field_selection list parse_result" where
  "optional_projection n p =
     (case pr_match LPAREN p of Some p1 \<Rightarrow> parse_projection_list n p1 | None \<Rightarrow> Inr ([], p))"

lemma optional_projection_print:
  assumes "remaining p = print_projection sels @ ks" "ks \<noteq> []" "fst (hd ks) \<noteq> LPAREN"
    and "length (print_projection sels) \<le> n"
  shows "optional_projection n p = Inr (sels, pr_skip (length (print_projection sels)) p)"
proof (cases "sels = []")
  case True
  with assms show ?thesis by (auto simp: optional_projection_def print_projection_def known)
next
  case False
  have "projection_loop n (pr_skip 1 p) =
      Inr (sels, pr_skip (Suc (length (print_sep print_selection COMMA sels))) (pr_skip 1 p))"
    using assms False by (intro projection_loop_print [where ks = ks]) (auto simp: print_projection_def)
  moreover obtain sel sels' where "sels = sel # sels'" using False by (cases sels) auto
  then obtain h hs where "print_sep print_selection COMMA sels = ident h # hs"
    by (cases sels'; simp add: print_selection_def print_path_def)
  then have "\<not> pr_check RPAREN (pr_skip 1 p)"
    using assms(1) False by (auto simp: known print_projection_def)
  ultimately show ?thesis
    using assms(1) False
    by (simp add: optional_projection_def parse_projection_list_def print_projection_def known)
qed

lemma parse_sort_clause_print:
  assumes "remaining p = print_sort_clause sc @ ks" "length (print_sort_clause sc) \<le> n"
  shows "parse_field_path n p = Inr (sc_field sc, pr_skip (length (print_path (sc_field sc))) p)"
    and "parse_direction (pr_skip (length (print_path (sc_field sc))) p) =
           Inr (sc_direction sc, pr_skip (length (print_sort_clause sc)) p)"
proof -
  show "parse_field_path n p = Inr (sc_field sc, pr_skip (length (print_path (sc_field sc))) p)"
    using assms by (cases "sc_direction sc")
      (auto simp: print_sort_clause_def intro!: parse_field_path_print)
  show "parse_direction (pr_skip (length (print_path (sc_field sc))) p) =
           Inr (sc_direction sc, pr_skip (length (print_sort_clause sc)) p)"
    using assms(1) by (cases "sc_direction sc")
      (auto simp: parse_direction_def print_sort_clause_def known)
qed

lemma sort_clause_head: "print_sort_clause sc = ident (root (sc_field sc)) # tl (print_sort_clause sc)"
  by (simp add: print_sort_clause_def print_path_def)

lemma sort_sep_head:
  "scs \<noteq> [] \<Longrightarrow> \<exists>h hs. print_sep print_sort_clause COMMA scs = ident h # hs"
  by (cases scs; cases "tl scs"; auto simp: print_sort_clause_def print_path_def)

lemma sort_loop_print:
  assumes "remaining p = print_sep print_sort_clause COMMA scs @ tok RBRACE # ks"
    and "scs \<noteq> []" "length (print_sep print_sort_clause COMMA scs) < n"
  shows "sort_loop n p = Inr (scs, pr_skip (length (print_sep print_sort_clause COMMA scs)) p)"
  using assms
proof (induction print_sort_clause COMMA scs arbitrary: n p rule: print_sep.induct)
  case (2 sc)
  then obtain m where n: "n = Suc m" by (cases n) auto
  have "parse_field_path m p = Inr (sc_field sc, pr_skip (length (print_path (sc_field sc))) p)"
    and "parse_direction (pr_skip (length (print_path (sc_field sc))) p) =
           Inr (sc_direction sc, pr_skip (length (print_sort_clause sc)) p)"
    using parse_sort_clause_print [of p sc _ m] 2 by (simp_all add: n)
  moreover have "\<not> pr_check RBRACE p" "\<not> pr_at_end p"
    using 2(1) sort_clause_head [of sc] by (auto simp: known print_sort_clause_def print_path_def)
  ultimately show ?case using 2 by (cases sc) (simp add: n known)
next
  case (3 sc sc' scs)
  then obtain m where n: "n = Suc m" by (cases n) auto
  have "parse_field_path m p = Inr (sc_field sc, pr_skip (length (print_path (sc_field sc))) p)"
    and "parse_direction (pr_skip (length (print_path (sc_field sc))) p) =
           Inr (sc_direction sc, pr_skip (length (print_sort_clause sc)) p)"
    using parse_sort_clause_print [of p sc _ m] 3 by (simp_all add: n)
  moreover let ?p = "pr_skip (Suc (length (print_sort_clause sc))) p"
  have q: "remaining ?p = print_sep print_sort_clause COMMA (sc' # scs) @ tok RBRACE # ks" using 3(2) by simp
  then have "sort_loop m ?p =
      Inr (sc' # scs, pr_skip (length (print_sep print_sort_clause COMMA (sc' # scs))) ?p)"
    using 3(4) by (intro 3(1)) (simp_all add: n)
  moreover have "\<not> pr_check RBRACE ?p" "\<not> pr_check RBRACE p" "\<not> pr_at_end p"
    using q 3(2) sort_sep_head [of "sc' # scs"]
    by (auto simp: known print_sort_clause_def print_path_def)
  ultimately show ?case using 3(2) by (cases sc) (simp add: n known)
qed simp

lemma ordering_loop_print:
  assumes "remaining p = print_sort scs @ print_ranking rk @ ks" "scs = [] \<or> rk = None"
    and "ks \<noteq> []" "fst (hd ks) \<notin> {KW_SORT, KW_TOP, KW_BOTTOM, DOT}"
    and "length (print_sort scs) + length (print_ranking rk) + 2 \<le> n"
  shows "ordering_loop n [] None False False p =
           Inr ((scs, rk), pr_skip (length (print_sort scs) + length (print_ranking rk)) p)"
proof -
  obtain m where n: "n = Suc (Suc m)" using assms(5) by (metis add_2_eq_Suc' le_Suc_ex add_Suc_right Suc_eq_plus1_left add.commute)
  obtain k ks' where ks: "ks = k # ks'" "fst k \<notin> {KW_SORT, KW_TOP, KW_BOTTOM, DOT}"
    using assms(3,4) by (cases ks) auto
  show ?thesis
  proof (cases "scs = []")
    case False
    then have rk: "rk = None" using assms(2) by simp
    let ?q = "pr_skip 2 p"
    have "sort_loop (Suc m) ?q = Inr (scs, pr_skip (length (print_sep print_sort_clause COMMA scs)) ?q)"
      using assms(1,5) False rk
      by (intro sort_loop_print [where ks = ks]) (auto simp: print_sort_def print_ranking_def n numeral_2_eq_2)
    moreover have "\<not> pr_check RBRACE ?q"
      using assms(1) False sort_sep_head [of scs] by (auto simp: known print_sort_def numeral_2_eq_2)
    ultimately show ?thesis
      using assms(1) False ks
      by (auto simp: rk n print_sort_def print_ranking_def parse_sort_block_def known numeral_2_eq_2)
  next
    case True
    show ?thesis
    proof (cases rk)
      case None
      with True assms(1) ks show ?thesis by (auto simp: n print_sort_def print_ranking_def known)
    next
      case (Some r)
      have "parse_field_path (Suc m) (pr_skip 3 p) =
          Inr (rc_field r, pr_skip (length (print_path (rc_field r))) (pr_skip 3 p))"
        using assms(1,5) True Some ks
        by (intro parse_field_path_print [of _ _ k ks'])
          (auto simp: print_sort_def print_ranking_def n numeral_eq_Suc)
      then have "parse_ranking_clause (rc_direction r) (Suc m) (pr_skip 1 p) =
          Inr (r, pr_skip (length (print_ranking rk)) p)"
        using assms(1) True Some
        by (cases r) (simp add: parse_ranking_clause_def print_sort_def print_ranking_def known numeral_eq_Suc)
      with assms(1) True Some ks show ?thesis
        by (cases "rc_direction r") (auto simp: n print_sort_def print_ranking_def known)
    qed
  qed
qed

lemma paging_loop_print:
  assumes "remaining p = print_number KW_LIMIT lim @ print_number KW_OFFSET off @ ks"
    and "ks \<noteq> []" "fst (hd ks) \<notin> {KW_LIMIT, KW_OFFSET}" "3 \<le> n"
  shows "paging_loop n None None p =
           Inr ((lim, off), pr_skip (length (print_number KW_LIMIT lim) + length (print_number KW_OFFSET off)) p)"
proof -
  obtain m where n: "n = Suc (Suc (Suc m))" using assms(4) by (metis le_Suc_ex add_Suc numeral_3_eq_3 plus_nat.add_0)
  from assms(1-3) show ?thesis
    by (cases lim; cases off) (auto simp: n print_number_def known)
qed

section \<open>Mutation payloads\<close>

lemma parse_assignment_print:
  assumes "remaining p = print_assignment a @ ks" "wf_assignment a" "length (print_assignment a) \<le> n"
  shows "parse_field_path n p = Inr (ma_field a, pr_skip (length (print_path (ma_field a))) p)"
    and "parse_assignment_value (ma_field a) (pr_skip (length (print_path (ma_field a))) p) =
           Inr (a, pr_skip (length (print_assignment a)) p)"
    and "\<not> pr_check RPAREN p" "\<not> pr_check LPAREN p" "\<not> pr_at_end p"
proof -
  let ?q = "pr_skip (length (print_path (ma_field a))) p"
  show "parse_field_path n p = Inr (ma_field a, ?q)"
    using assms by (intro parse_field_path_print [where k = "tok COLON"]) (auto simp: print_assignment_def)
  have "parse_literal (pr_skip 1 ?q) = Inr (ma_value a, pr_skip 1 (pr_skip 1 ?q))"
    using assms by (intro parse_literal_print [where ks = ks]) (auto simp: print_assignment_def wf_assignment_def)
  then show "parse_assignment_value (ma_field a) ?q = Inr (a, pr_skip (length (print_assignment a)) p)"
    using assms(1) by (cases a) (simp add: parse_assignment_value_def print_assignment_def known)
  show "\<not> pr_check RPAREN p" "\<not> pr_check LPAREN p" "\<not> pr_at_end p"
    using assms(1) by (auto simp: known print_assignment_def print_path_def)
qed

lemma assignment_sep_head:
  "as \<noteq> [] \<Longrightarrow> \<exists>h hs. print_sep print_assignment COMMA as = ident h # hs"
  by (cases as; cases "tl as"; auto simp: print_assignment_def print_path_def)

abbreviation assignment_paths :: "mutation_assignment list \<Rightarrow> string list" where
  "assignment_paths as \<equiv> map (full_path \<circ> ma_field) as"

lemma record_loops_print:
  assumes "remaining p = print_sep print_assignment COMMA as @ tok RPAREN # ks"
    and "as \<noteq> []" "list_all wf_assignment as" "length (print_sep print_assignment COMMA as) < n"
    and "distinct (assignment_paths as)" "set (assignment_paths as) \<inter> set seen = {}"
  shows "record_loop n seen p = Inr (as, pr_skip (length (print_sep print_assignment COMMA as)) p) \<and>
    single_record_loop n seen p = Inr (as, pr_skip (length (print_sep print_assignment COMMA as)) p)"
  using assms
proof (induction print_assignment COMMA as arbitrary: n p seen rule: print_sep.induct)
  case (2 a)
  then obtain m where n: "n = Suc m" by (cases n) auto
  have a: "remaining p = print_assignment a @ tok RPAREN # ks" "wf_assignment a" "length (print_assignment a) \<le> m"
    using 2 by (simp_all add: n)
  from 2 parse_assignment_print [OF a] show ?case by (simp add: n known)
next
  case (3 a b as)
  then obtain m where n: "n = Suc m" by (cases n) auto
  have a: "remaining p = print_assignment a @ tok COMMA # print_sep print_assignment COMMA (b # as) @ tok RPAREN # ks"
    "wf_assignment a" "length (print_assignment a) \<le> m"
    using 3 by (simp_all add: n)
  let ?p = "pr_skip (Suc (length (print_assignment a))) p"
  let ?seen = "full_path (ma_field a) # seen"
  have q: "remaining ?p = print_sep print_assignment COMMA (b # as) @ tok RPAREN # ks" using 3(2) by simp
  then have "record_loop m ?seen ?p =
      Inr (b # as, pr_skip (length (print_sep print_assignment COMMA (b # as))) ?p) \<and>
    single_record_loop m ?seen ?p =
      Inr (b # as, pr_skip (length (print_sep print_assignment COMMA (b # as))) ?p)"
    using 3(4-7) by (intro 3(1)) (auto simp: n)
  moreover have "\<not> pr_check RPAREN ?p"
    using q assignment_sep_head [of "b # as"] by (auto simp: known)
  ultimately show ?case using 3(2,7) parse_assignment_print [OF a] by (simp add: n known)
qed simp

lemma payload_loop_print:
  assumes "remaining p = print_sep print_assignment COMMA as @ tok RPAREN # ks"
    and "as \<noteq> []" "list_all wf_assignment as" "length (print_sep print_assignment COMMA as) < n"
  shows "payload_loop n p = Inr (as, pr_skip (length (print_sep print_assignment COMMA as)) p)"
  using assms
proof (induction print_assignment COMMA as arbitrary: n p rule: print_sep.induct)
  case (2 a)
  then obtain m where n: "n = Suc m" by (cases n) auto
  have a: "remaining p = print_assignment a @ tok RPAREN # ks" "wf_assignment a" "length (print_assignment a) \<le> m"
    using 2 by (simp_all add: n)
  from 2 parse_assignment_print [OF a] show ?case by (simp add: n known)
next
  case (3 a b as)
  then obtain m where n: "n = Suc m" by (cases n) auto
  have a: "remaining p = print_assignment a @ tok COMMA # print_sep print_assignment COMMA (b # as) @ tok RPAREN # ks"
    "wf_assignment a" "length (print_assignment a) \<le> m"
    using 3 by (simp_all add: n)
  let ?p = "pr_skip (Suc (length (print_assignment a))) p"
  have q: "remaining ?p = print_sep print_assignment COMMA (b # as) @ tok RPAREN # ks" using 3(2) by simp
  then have "payload_loop m ?p = Inr (b # as, pr_skip (length (print_sep print_assignment COMMA (b # as))) ?p)"
    using 3(4,5) by (intro 3(1)) (auto simp: n)
  moreover have "\<not> pr_check RPAREN ?p"
    using q assignment_sep_head [of "b # as"] by (auto simp: known)
  ultimately show ?case using 3(2) parse_assignment_print [OF a] by (simp add: n known)
qed simp

lemma parse_mutation_payload_print:
  assumes "remaining p = print_fields (CreateRecord as) @ ks" "as \<noteq> []" "list_all wf_assignment as"
    and "length (print_fields (CreateRecord as)) \<le> n"
  shows "parse_mutation_payload n p = Inr (as, pr_skip (length (print_fields (CreateRecord as))) p)"
proof -
  have "payload_loop n (pr_skip 1 p) =
      Inr (as, pr_skip (length (print_sep print_assignment COMMA as)) (pr_skip 1 p))"
    using assms by (intro payload_loop_print [where ks = ks]) (auto simp: print_fields_def)
  moreover have "\<not> pr_check RPAREN (pr_skip 1 p)"
    using assms(1) assignment_sep_head [OF assms(2)] by (auto simp: known print_fields_def)
  ultimately show ?thesis using assms(1) by (simp add: parse_mutation_payload_def known print_fields_def)
qed

lemma fields_open:
  assumes "remaining p = print_fields r @ ks" "wf_record r"
  shows "pr_check LPAREN p" "\<not> pr_at_end p" "\<not> pr_check RPAREN p" "\<not> pr_check IDENTIFIER p"
    and "\<not> pr_check RPAREN (pr_skip 1 p)" "\<not> pr_check LPAREN (pr_skip 1 p)" "pr_check IDENTIFIER (pr_skip 1 p)"
    and "pr_next p = pr_skip 1 p"
  using assms assignment_sep_head [of "cr_assignments r"]
  by (auto simp: known print_fields_def wf_record_def)

lemma parse_create_record_print:
  assumes "remaining p = print_fields r @ ks" "wf_record r" "length (print_fields r) \<le> n"
  shows "parse_create_record n p = Inr (r, pr_skip (length (print_fields r)) p)"
    and "parse_single_create_record n (pr_skip 1 p) = Inr ([r], pr_skip (length (print_fields r)) p)"
proof -
  have *: "record_loop n [] (pr_skip 1 p) =
      Inr (cr_assignments r, pr_skip (length (print_sep print_assignment COMMA (cr_assignments r))) (pr_skip 1 p)) \<and>
    single_record_loop n [] (pr_skip 1 p) =
      Inr (cr_assignments r, pr_skip (length (print_sep print_assignment COMMA (cr_assignments r))) (pr_skip 1 p))"
    using assms by (intro record_loops_print [where ks = ks]) (auto simp: print_fields_def wf_record_def)
  with assms(1) fields_open [OF assms(1,2)]
  show "parse_create_record n p = Inr (r, pr_skip (length (print_fields r)) p)"
    by (simp add: parse_create_record_def pr_consume_def) (simp add: known print_fields_def)
  from * assms(1)
  show "parse_single_create_record n (pr_skip 1 p) = Inr ([r], pr_skip (length (print_fields r)) p)"
    by (cases r) (simp add: parse_single_create_record_def known print_fields_def)
qed

lemma fields_sep_head:
  "rs \<noteq> [] \<Longrightarrow> \<exists>hs. print_sep print_fields COMMA rs = tok LPAREN # hs"
  by (cases rs; cases "tl rs"; auto simp: print_fields_def)

lemma batch_loop_print:
  assumes "remaining p = print_sep print_fields COMMA rs @ tok RPAREN # ks"
    and "rs \<noteq> []" "list_all wf_record rs" "length (print_sep print_fields COMMA rs) < n"
  shows "batch_loop n p = Inr (rs, pr_skip (length (print_sep print_fields COMMA rs)) p)"
  using assms
proof (induction print_fields COMMA rs arbitrary: n p rule: print_sep.induct)
  case (2 r)
  then obtain m where n: "n = Suc m" by (cases n) auto
  have r: "remaining p = print_fields r @ tok RPAREN # ks" "wf_record r" "length (print_fields r) \<le> m"
    using 2 by (simp_all add: n)
  from 2 parse_create_record_print(1) [OF r] fields_open [OF r(1,2)] show ?case
    by (simp add: n) (simp add: known)
next
  case (3 r r' rs)
  then obtain m where n: "n = Suc m" by (cases n) auto
  have r: "remaining p = print_fields r @ tok COMMA # print_sep print_fields COMMA (r' # rs) @ tok RPAREN # ks"
    "wf_record r" "length (print_fields r) \<le> m"
    using 3 by (simp_all add: n)
  let ?p = "pr_skip (Suc (length (print_fields r))) p"
  have q: "remaining ?p = print_sep print_fields COMMA (r' # rs) @ tok RPAREN # ks" using 3(2) by simp
  then have "batch_loop m ?p = Inr (r' # rs, pr_skip (length (print_sep print_fields COMMA (r' # rs))) ?p)"
    using 3(4,5) by (intro 3(1)) (auto simp: n)
  moreover have "\<not> pr_check RPAREN ?p"
    using q fields_sep_head [of "r' # rs"] by (auto simp: known)
  moreover have "pr_match COMMA (pr_skip (length (print_fields r)) p) = Some ?p"
    using r(1) by (simp add: known)
  ultimately show ?case
    using parse_create_record_print(1) [OF r] fields_open [OF r(1,2)] by (simp add: n)
qed simp

lemma parse_create_payload_print:
  assumes "remaining p = print_batch rs @ ks" "rs \<noteq> []" "list_all wf_record rs"
    and "length (print_batch rs) \<le> n"
  shows "parse_create_payload n p = Inr (rs, pr_skip (length (print_batch rs)) p)"
proof (cases "tl rs")
  case Nil
  then obtain r where rs: "rs = [r]" using assms(2) by (cases rs) auto
  have r: "remaining p = print_fields r @ ks" "wf_record r" "length (print_fields r) \<le> n"
    using assms by (simp_all add: rs print_batch_def)
  show ?thesis
    using parse_create_record_print(2) [OF r] fields_open [OF r(1,2)]
    by (simp add: parse_create_payload_def pr_consume_def rs print_batch_def)
next
  case (Cons r' rs')
  then have two: "print_batch rs = tok LPAREN # print_sep print_fields COMMA rs @ [tok RPAREN]"
    by (cases rs) (simp_all add: print_batch_def)
  have "batch_loop n (pr_skip 1 p) =
      Inr (rs, pr_skip (length (print_sep print_fields COMMA rs)) (pr_skip 1 p))"
    using assms two by (intro batch_loop_print [where ks = ks]) auto
  moreover have "pr_check LPAREN (pr_skip 1 p)" "\<not> pr_check RPAREN (pr_skip 1 p)"
    using assms(1) two fields_sep_head [OF assms(2)] by (auto simp: known)
  ultimately show ?thesis
    using assms(1) two by (simp add: parse_create_payload_def pr_consume_def parse_batch_create_records_def)
      (simp add: known)
qed

lemma payload_open:
  assumes "remaining p = print_batch rs @ ks" "rs \<noteq> []"
  shows "pr_check LPAREN p"
  using assms by (cases rs; cases "tl rs") (auto simp: known print_batch_def print_fields_def)

section \<open>Statements\<close>

lemma parse_entity_print:
  "remaining p = ident s # ks \<Longrightarrow> parse_entity op p = Inr (s, pr_skip 1 p)"
  by (simp add: parse_entity_def known)

lemma semicolon_print:
  "remaining p = [tok SEMICOLON, (END_OF_INPUT, v)] \<Longrightarrow>
     consume_terminating_semicolon p = Inr (pr_skip 1 p)"
  by (simp add: consume_terminating_semicolon_def known)

lemma reject_clauses_print:
  "remaining p = tok SEMICOLON # ks \<Longrightarrow> reject_clauses op p = Inr ()"
  by (simp add: reject_clauses_def known)

abbreviation closing :: "token_value \<Rightarrow> kinds" where
  "closing v \<equiv> [tok SEMICOLON, (END_OF_INPUT, v)]"

lemma parse_get_print:
  assumes "remaining p = tl (print_stmt READ ir) @ closing v" "wf_stmt READ ir" "operation ir = READ"
    and "5 * length (print_stmt READ ir) \<le> n"
  shows "\<exists>p'. parse_get n p = Inr (ir, p')"
proof -
  let ?pr = "print_projection (projection ir)" and ?wh = "print_where (where_clause ir)"
    and ?so = "print_sort (sort_clauses ir)" and ?rk = "print_ranking (ranking ir)"
    and ?li = "print_number KW_LIMIT (limit ir)" and ?off = "print_number KW_OFFSET (offset ir)"
  let ?tail = "?li @ ?off @ closing v"
  have p: "remaining p = ident (entity ir) # ?pr @ ?wh @ ?so @ ?rk @ ?tail" using assms(1) by simp
  have ir: "assignments ir = []" "records ir = []" "pred_option wf_expr (where_clause ir)"
    "sort_clauses ir = [] \<or> ranking ir = None"
    using assms(2) by simp_all
  have n: "5 * (2 + length ?pr + length ?wh + length ?so + length ?rk) \<le> n" using assms(4) by simp
  have tail: "?tail \<noteq> []" "fst (hd ?tail) \<in> {KW_LIMIT, KW_OFFSET, SEMICOLON}"
    by (auto simp: print_number_def split: option.split)
  have ord: "?so @ ?rk @ ?tail \<noteq> []" "fst (hd (?so @ ?rk @ ?tail)) \<in> {KW_LIMIT, KW_OFFSET, SEMICOLON, KW_SORT, KW_TOP, KW_BOTTOM}"
    using tail by (auto simp: print_sort_def print_ranking_def split: option.split ranking_direction.split)
  have wh: "?wh @ ?so @ ?rk @ ?tail \<noteq> []" "fst (hd (?wh @ ?so @ ?rk @ ?tail)) \<in> {KW_LIMIT, KW_OFFSET, SEMICOLON, KW_SORT, KW_TOP, KW_BOTTOM, KW_WHERE}"
    using ord by (auto simp: print_where_def split: option.split)
  let ?p1 = "pr_skip 1 p"
  let ?p2 = "pr_skip (length ?pr) ?p1"
  let ?p3 = "pr_skip (length ?wh) ?p2"
  let ?p4 = "pr_skip (length ?so + length ?rk) ?p3"
  let ?p5 = "pr_skip (length ?li + length ?off) ?p4"
  have "parse_entity READ p = Inr (entity ir, ?p1)" using p by (rule parse_entity_print)
  moreover have "optional_projection n ?p1 = Inr (projection ir, ?p2)"
    using p wh n by (intro optional_projection_print [where ks = "?wh @ ?so @ ?rk @ ?tail"]) auto
  moreover have "optional_where n ?p2 = Inr (where_clause ir, ?p3)"
    using p ord n ir by (intro optional_where_print [where ks = "?so @ ?rk @ ?tail"]) auto
  moreover have "ordering_loop n [] None False False ?p3 = Inr ((sort_clauses ir, ranking ir), ?p4)"
    using p tail n ir by (intro ordering_loop_print [where ks = ?tail]) auto
  moreover have "paging_loop n None None ?p4 = Inr ((limit ir, offset ir), ?p5)"
    using p n by (intro paging_loop_print [where ks = "closing v"]) auto
  moreover have "consume_terminating_semicolon ?p5 = Inr (pr_skip 1 ?p5)"
    using p by (intro semicolon_print [where v = v]) auto
  moreover have "(bare_ir READ (entity ir))\<lparr>projection := projection ir, where_clause := where_clause ir,
      sort_clauses := sort_clauses ir, ranking := ranking ir, limit := limit ir, offset := offset ir\<rparr> = ir"
    using ir(1,2) assms(3) by (simp add: bare_ir_def)
  ultimately show ?thesis
    by (simp add: parse_get_def flip: optional_projection_def optional_where_def del: pr_skip_simps(2))
qed

lemma parse_create_print:
  assumes "remaining p = tl (print_stmt CREATE ir) @ closing v" "wf_stmt CREATE ir"
    and "5 * length (print_stmt CREATE ir) \<le> n"
  shows "\<exists>p'. parse_create n p = Inr (ir, p')"
proof -
  let ?b = "print_batch (records ir)"
  let ?p1 = "pr_skip 1 p" and ?p2 = "pr_skip (Suc (length ?b)) p"
  have p: "remaining p = ident (entity ir) # ?b @ closing v" using assms(1) by simp
  have ir: "records ir \<noteq> []" "list_all wf_record (records ir)"
    "(bare_ir CREATE (entity ir))\<lparr>records := records ir\<rparr> = ir"
    using assms(2) by simp_all
  have "parse_entity CREATE p = Inr (entity ir, ?p1)" using p by (rule parse_entity_print)
  moreover have "pr_check LPAREN ?p1" using p ir by (intro payload_open) auto
  moreover have "parse_create_payload n ?p1 = Inr (records ir, ?p2)"
    using p ir assms(3) parse_create_payload_print [of ?p1 "records ir" "closing v" n] by simp
  moreover have q: "remaining ?p2 = closing v" using p by simp
  then have "\<not> pr_check KW_WHERE ?p2" by (simp add: known)
  ultimately show ?thesis
    using ir(3) reject_clauses_print [OF q] semicolon_print [OF q] by (simp add: parse_create_def)
qed

lemma parse_update_print:
  assumes "remaining p = tl (print_stmt UPDATE ir) @ closing v" "wf_stmt UPDATE ir"
    and "5 * length (print_stmt UPDATE ir) \<le> n"
  shows "\<exists>p'. parse_update n p = Inr (ir, p')"
proof -
  obtain e where w: "where_clause ir = Some e" "wf_expr e" using assms(2) by auto
  have ir: "assignments ir \<noteq> []" "list_all wf_assignment (assignments ir)"
    "(bare_ir UPDATE (entity ir))\<lparr>assignments := assignments ir, where_clause := where_clause ir\<rparr> = ir"
    using assms(2) by simp_all
  let ?b = "print_fields (CreateRecord (assignments ir))"
  let ?p1 = "pr_skip 1 p" and ?p2 = "pr_skip (Suc (length ?b)) p"
  let ?p4 = "pr_skip (length (print_expr 0 e) + 2) (pr_skip 1 ?p2)"
  have p: "remaining p = ident (entity ir) # ?b @ tok KW_WHERE # tok LBRACE # print_expr 0 e @ tok RBRACE # closing v"
    using assms(1) w by (simp add: print_where_def)
  have n: "5 * (length ?b + length (print_expr 0 e) + 5) \<le> n"
    using assms(3) w by (simp add: print_where_def)
  have "parse_entity UPDATE p = Inr (entity ir, ?p1)" using p by (rule parse_entity_print)
  moreover have "pr_check LPAREN ?p1" using p by (simp add: known print_fields_def)
  moreover have "parse_mutation_payload n ?p1 = Inr (assignments ir, ?p2)"
    using p ir n parse_mutation_payload_print [of ?p1 "assignments ir" _ n] by simp
  moreover have "pr_match KW_WHERE ?p2 = Some (pr_skip 1 ?p2)" using p by (simp add: known)
  moreover have "parse_where_block n (pr_skip 1 ?p2) = Inr (e, ?p4)"
    using p n w by (intro parse_where_block_print [where ks = "closing v"]) auto
  moreover have q: "remaining ?p4 = closing v" using p by (simp add: numeral_3_eq_3)
  ultimately show ?thesis
    using ir(3) w(1) reject_clauses_print [OF q] semicolon_print [OF q]
    by (simp add: parse_update_def del: pr_skip_simps(2))
qed

lemma parse_delete_print:
  assumes "remaining p = tl (print_stmt DELETE ir) @ closing v" "wf_stmt DELETE ir"
    and "5 * length (print_stmt DELETE ir) \<le> n"
  shows "\<exists>p'. parse_delete n p = Inr (ir, p')"
proof -
  let ?w = "print_where (where_clause ir)"
  let ?p1 = "pr_skip 1 p"
  let ?p2 = "pr_skip (length ?w) ?p1"
  have p: "remaining p = ident (entity ir) # ?w @ closing v" using assms(1) by simp
  have ir: "pred_option wf_expr (where_clause ir)"
    "(bare_ir DELETE (entity ir))\<lparr>where_clause := where_clause ir\<rparr> = ir"
    using assms(2) by simp_all
  have "parse_entity DELETE p = Inr (entity ir, ?p1)" using p by (rule parse_entity_print)
  moreover have "\<not> pr_check LPAREN ?p1"
    using p by (auto simp: known print_where_def split: option.splits)
  moreover have "optional_where n ?p1 = Inr (where_clause ir, ?p2)"
    using p ir assms(3) by (intro optional_where_print [where ks = "closing v"]) auto
  moreover have q: "remaining ?p2 = closing v" using p by simp
  ultimately show ?thesis
    using ir(2) reject_clauses_print [OF q] semicolon_print [OF q]
    by (simp add: parse_delete_def flip: optional_where_def del: pr_skip_simps(2))
qed

lemma parse_printed_tokens:
  assumes "wf_ir ir" "map kind ts = print_ir ir @ [(END_OF_INPUT, v)]"
  shows "parse ts = Inr ir"
proof -
  define n where "n = 5 * length ts + 5"
  let ?p = "new_parser ts"
  have p: "remaining ?p = print_stmt (operation ir) ir @ closing v"
    using assms(2) by (simp add: remaining_def new_parser_def print_ir_def)
  have "length ts = length (print_stmt (operation ir) ir) + 2"
    using arg_cong [OF assms(2), of length] by (simp add: print_ir_def)
  then have n: "5 * length (print_stmt (operation ir) ir) \<le> n" by (simp add: n_def)
  have q: "remaining (pr_skip 1 ?p) = tl (print_stmt (operation ir) ir) @ closing v"
    using p by (cases "operation ir") simp_all
  have wf: "wf_stmt (operation ir) ir" using assms(1) by (simp add: wf_ir_def)
  have "\<exists>p'. parse_fuel n ?p = Inr (ir, p')"
  proof (cases "operation ir")
    case READ
    then show ?thesis using p parse_get_print [OF q [unfolded READ] wf [unfolded READ] READ n [unfolded READ]]
      by (simp add: parse_fuel_def known)
  next
    case CREATE
    then show ?thesis using p parse_create_print [OF q [unfolded CREATE] wf [unfolded CREATE] n [unfolded CREATE]]
      by (simp add: parse_fuel_def known)
  next
    case UPDATE
    then show ?thesis using p parse_update_print [OF q [unfolded UPDATE] wf [unfolded UPDATE] n [unfolded UPDATE]]
      by (simp add: parse_fuel_def known)
  next
    case DELETE
    then show ?thesis using p parse_delete_print [OF q [unfolded DELETE] wf [unfolded DELETE] n [unfolded DELETE]]
      by (simp add: parse_fuel_def known)
  qed
  then show ?thesis by (auto simp: parse_def n_def [symmetric])
qed

text \<open>
  C1. The parser inverts the printer. Take a query of the shape the grammar allows (\<open>wf_ir\<close>), print it
  with groups only where the precedence of NOT, AND and OR needs them, and spell its tokens one after
  the other: the lexer and the parser together give exactly the query back, for all four statements,
  with every clause, operator, value set and literal.
\<close>

theorem parse_printed_text:
  assumes "wf_ir ir" "list_all (\<lambda>(ty, v, s). spells ty v s) xs"
    and "map (\<lambda>(ty, v, s). (ty, v)) xs = print_ir ir"
  shows "bindE (tokenize (spell_text xs)) parse = Inr ir"
proof -
  obtain ts where "tokenize (spell_text xs) = Inr ts" "map kind ts = print_ir ir @ [(END_OF_INPUT, VStr [])]"
    using tokenize_from_spelled [OF assms(2), of "new_lexer (spell_text xs)"] assms(3)
    by (auto simp: tokenize_def rest_def new_lexer_def)
  with parse_printed_tokens [OF assms(1)] show ?thesis by simp
qed

definition sample_printed :: query_ir where
  "sample_printed = (bare_ir READ ''users'')
     \<lparr>projection := [FieldSelection (FieldPath ''profile'' [''age'']) (Some ''years'')],
      where_clause := Some (LogicalExpression LAnd
        (LogicalExpression LOr
          (FieldExpression (FieldPath ''age'' []) (Comparison OpGTE) (OperandLiteral (IntegerLiteral 18)))
          (NegationExpression (FieldExpression (FieldPath ''name'' []) (StringOp NOT_HAS)
             (OperandLiteral (StringLiteral ''x'')))))
        (FieldExpression (FieldPath ''age'' []) (Comparison OpNEQ)
          (OperandSet (ValueSet [ElemRange (Range (IntegerLiteral 3) (IntegerLiteral 9) True), ElemLiteral NullLiteral])))),
      sort_clauses := [SortClause (FieldPath ''age'' []) DESC], limit := Some 5\<rparr>"

definition sample_spelling :: "(token_type \<times> token_value \<times> string) list" where
  "sample_spelling = map (\<lambda>(ty, v). (ty, v,
     case v of VInt n \<Rightarrow> [char_of (48 + nat n div 10), char_of (48 + nat n mod 10)]
     | VStr s \<Rightarrow> if ty = STRING then quote_string s else s | _ \<Rightarrow> [])) (print_ir sample_printed)"

lemma parse_printed_text_witness:
  "bindE (tokenize (spell_text sample_spelling)) parse = Inr sample_printed"
proof (rule parse_printed_text)
  show "wf_ir sample_printed" by (simp add: wf_ir_def sample_printed_def bare_ir_def wf_range_def wf_set_def)
  show "list_all (\<lambda>(ty, v, s). spells ty v s) sample_spelling" by code_simp
  show "map (\<lambda>(ty, v, s). (ty, v)) sample_spelling = print_ir sample_printed"
    by (simp add: sample_spelling_def comp_def case_prod_beta)
qed

end
