(* ===== verification/Parser_Shape.thy ===== *)
theory Parser_Shape
  imports Parser_Roundtrip
begin

text \<open>
  What the parser returns. \<open>*_shape\<close>: every tree that a method builds has the shape of the grammar
  (\<open>wf_ir\<close> and the predicates below it). With the round trip this makes \<open>wf_ir\<close> the exact set of
  results of the parser on printable queries; here are also the facts that later phases rely on, such
  as that an UPDATE always has a WHERE block.
\<close>

named_theorems shapes \<open>what a successful method returns\<close>

lemma parse_literal_shape [shapes]: "parse_literal p = Inr (l, p') \<Longrightarrow> wf_literal l"
  by (auto simp: parse_literal_def Let_def split: if_splits)

lemma parse_string_literal_shape [shapes]:
  "parse_string_literal p = Inr (l, p') \<Longrightarrow> is_string_literal l"
  by (auto simp: parse_string_literal_def split: if_splits)

lemma parse_literal_or_range_shape [shapes]:
  "parse_literal_or_range p = Inr (v, p') \<Longrightarrow> wf_condition (Comparison op) v"
  by (auto simp: parse_literal_or_range_def returns wf_range_def dest!: shapes)

lemma parse_constraint_shape [shapes]:
  "parse_comparison_constraint op p = Inr (c, p') \<Longrightarrow> wf_constraint c"
  by (auto simp: parse_comparison_constraint_def returns wf_constraint_def dest!: shapes)

lemma constraint_loop_shape [shapes]:
  "constraint_loop n p = Inr (cs, p') \<Longrightarrow> cs \<noteq> [] \<and> list_all wf_constraint cs"
proof (induction n arbitrary: p cs p')
  case (Suc n)
  then show ?case by (auto simp: returns dest!: shapes Suc.IH)
qed simp

lemma parse_element_shape [shapes]:
  "parse_value_set_element n p = Inr (el, p') \<Longrightarrow> wf_element el"
  by (auto simp: parse_value_set_element_def returns wf_range_def Suc_le_eq dest!: shapes)

text \<open>A loop that returns nothing has not moved, and stands at its end.\<close>

lemma value_set_loop_shape [shapes]:
  "value_set_loop n p = Inr (els, p') \<Longrightarrow>
     list_all wf_element els \<and> (els = [] \<longrightarrow> p' = p)"
proof (induction n arbitrary: p els p')
  case (Suc n)
  then show ?case by (auto simp: returns dest!: shapes Suc.IH)
qed simp

lemma parse_value_set_shape [shapes]: "parse_value_set n p = Inr (vs, p') \<Longrightarrow> wf_set vs"
  by (auto simp: parse_value_set_def returns wf_set_def dest!: shapes)

lemma parse_string_operand_shape [shapes]:
  "parse_string_operand s n p = Inr ((op, v), p') \<Longrightarrow> s = HAS \<or> s = NOT_HAS \<Longrightarrow> wf_condition op v"
  by (auto simp: parse_string_operand_def returns dest!: shapes)

lemma parse_operator_and_operand_shape [shapes]:
  "parse_operator_and_operand n p = Inr ((op, v), p') \<Longrightarrow> wf_condition op v"
  by (auto simp: parse_operator_and_operand_def Let_def returns dest: parse_string_operand_shape dest!: shapes)

lemma parse_atomic_shape [shapes]:
  "parse_atomic_field_expression n p = Inr (e, p') \<Longrightarrow> wf_expr e"
  by (auto simp: parse_atomic_field_expression_def returns dest!: shapes)

lemma expression_shape [shapes]:
  "parse_or_expression n p = Inr (e, p') \<Longrightarrow> wf_expr e"
  "or_loop n e0 p = Inr (e, p') \<Longrightarrow> wf_expr e0 \<Longrightarrow> wf_expr e"
  "parse_and_expression n p = Inr (e, p') \<Longrightarrow> wf_expr e"
  "and_loop n e0 p = Inr (e, p') \<Longrightarrow> wf_expr e0 \<Longrightarrow> wf_expr e"
  "parse_not_expression n p = Inr (e, p') \<Longrightarrow> wf_expr e"
  "parse_primary_expression n p = Inr (e, p') \<Longrightarrow> wf_expr e"
proof (induction n arbitrary: e0 p e p')
  case (Suc n)
  {
    case 1 then show ?case using Suc.IH by (fastforce simp: returns)
  next
    case 2 then show ?case using Suc.IH by (fastforce simp: returns)
  next
    case 3 then show ?case using Suc.IH by (fastforce simp: returns)
  next
    case 4 then show ?case using Suc.IH by (fastforce simp: returns)
  next
    case 5 then show ?case using Suc.IH by (fastforce simp: returns)
  next
    case 6 then show ?case using Suc.IH(1) by (fastforce simp: returns dest: shapes)
  }
qed simp_all

lemma where_loop_shape [shapes]: "where_loop n p = Inr (es, p') \<Longrightarrow> list_all wf_expr es"
proof (induction n arbitrary: p es p')
  case (Suc n)
  then show ?case by (auto simp: returns dest!: expression_shape(1) Suc.IH)
qed simp

lemma foldl_and_shape: "wf_expr e \<Longrightarrow> list_all wf_expr es \<Longrightarrow> wf_expr (foldl (LogicalExpression LAnd) e es)"
  by (induction es arbitrary: e) auto

lemma parse_where_block_shape [shapes]: "parse_where_block n p = Inr (e, p') \<Longrightarrow> wf_expr e"
  by (auto simp: parse_where_block_def returns dest!: where_loop_shape intro!: foldl_and_shape)

lemma parse_assignment_value_shape [shapes]:
  "parse_assignment_value fp p = Inr (a, p') \<Longrightarrow> ma_field a = fp \<and> wf_assignment a"
  by (auto simp: parse_assignment_value_def wf_assignment_def returns dest!: shapes)

lemma single_record_loop_shape [shapes]:
  "single_record_loop n seen p = Inr (as, p') \<Longrightarrow>
     list_all wf_assignment as \<and> distinct (assignment_paths as) \<and>
     (\<forall>a \<in> set as. full_path (ma_field a) \<notin> set seen) \<and> (as = [] \<longrightarrow> p' = p)"
proof (induction n arbitrary: seen p as p')
  case (Suc n)
  then show ?case by (auto simp: returns dest!: parse_assignment_value_shape Suc.IH; metis)
qed simp

lemma record_loop_shape [shapes]:
  "record_loop n seen p = Inr (as, p') \<Longrightarrow>
     list_all wf_assignment as \<and> distinct (assignment_paths as) \<and>
     (\<forall>a \<in> set as. full_path (ma_field a) \<notin> set seen) \<and> (as = [] \<longrightarrow> p' = p)"
proof (induction n arbitrary: seen p as p')
  case (Suc n)
  then show ?case by (auto simp: returns dest!: parse_assignment_value_shape Suc.IH; metis)
qed simp

lemma payload_loop_shape [shapes]:
  "payload_loop n p = Inr (as, p') \<Longrightarrow> list_all wf_assignment as \<and> (as = [] \<longrightarrow> p' = p)"
proof (induction n arbitrary: p as p')
  case (Suc n)
  then show ?case by (auto simp: returns dest!: parse_assignment_value_shape Suc.IH)
qed simp

lemma parse_create_record_shape [shapes]: "parse_create_record n p = Inr (r, p') \<Longrightarrow> wf_record r"
  by (auto simp: parse_create_record_def wf_record_def returns dest!: record_loop_shape)

lemma batch_loop_shape [shapes]:
  "batch_loop n p = Inr (rs, p') \<Longrightarrow> list_all wf_record rs \<and> (rs = [] \<longrightarrow> p' = p)"
proof (induction n arbitrary: p rs p')
  case (Suc n)
  then show ?case by (auto simp: returns dest!: parse_create_record_shape Suc.IH)
qed simp

lemma check_unique: "pr_check ty p \<Longrightarrow> pr_check ty' p \<Longrightarrow> ty = ty'"
  by (auto simp: pr_check_def split: if_splits)

lemma parse_create_payload_shape [shapes]:
  "parse_create_payload n p = Inr (rs, p') \<Longrightarrow> rs \<noteq> [] \<and> list_all wf_record rs"
  by (auto simp: parse_create_payload_def parse_batch_create_records_def parse_single_create_record_def
      wf_record_def returns dest: check_unique dest!: single_record_loop_shape batch_loop_shape)

lemma parse_mutation_payload_shape [shapes]:
  "parse_mutation_payload n p = Inr (as, p') \<Longrightarrow> as \<noteq> [] \<and> list_all wf_assignment as"
  by (auto simp: parse_mutation_payload_def returns dest!: payload_loop_shape)

lemma ordering_loop_shape [shapes]:
  "ordering_loop n scs rk s r p = Inr ((scs', rk'), p') \<Longrightarrow> \<not> (s \<and> r) \<Longrightarrow>
     (\<not> s \<longrightarrow> scs = []) \<Longrightarrow> (\<not> r \<longrightarrow> rk = None) \<Longrightarrow> scs' = [] \<or> rk' = None"
proof (induction n arbitrary: scs rk s r p scs' rk' p')
  case (Suc n)
  from Suc.prems show ?case
    by (simp only: ordering_loop.simps returns fails prod.case_eq_if)
     (elim disjE conjE exE; (drule Suc.IH)?; auto)
qed simp

lemma optional_where_shape [shapes]:
  "optional_where n p = Inr (w, p') \<Longrightarrow> pred_option wf_expr w"
  by (auto simp: optional_where_def returns dest!: parse_where_block_shape)

lemma parse_get_shape: "parse_get n p = Inr (ir, p') \<Longrightarrow> wf_ir ir"
  unfolding parse_get_def optional_where_def [symmetric]
  by (auto simp: bindE_Inr_iff wf_ir_def bare_ir_def dest!: optional_where_shape dest: ordering_loop_shape)

lemma parse_create_shape: "parse_create n p = Inr (ir, p') \<Longrightarrow> wf_ir ir"
  by (auto simp: parse_create_def returns wf_ir_def bare_ir_def dest!: parse_create_payload_shape)

lemma parse_update_shape: "parse_update n p = Inr (ir, p') \<Longrightarrow> wf_ir ir"
  by (auto simp: parse_update_def returns wf_ir_def bare_ir_def
      dest!: parse_mutation_payload_shape parse_where_block_shape)

lemma parse_delete_shape: "parse_delete n p = Inr (ir, p') \<Longrightarrow> wf_ir ir"
  unfolding parse_delete_def optional_where_def [symmetric]
  by (auto simp: returns wf_ir_def bare_ir_def dest!: optional_where_shape)

lemma parse_fuel_shape: "parse_fuel n p = Inr (ir, p') \<Longrightarrow> wf_ir ir"
  by (auto simp: parse_fuel_def intro: parse_get_shape parse_create_shape parse_update_shape
      parse_delete_shape split: if_splits)

lemma parse_wf_ir: "parse ts = Inr ir \<Longrightarrow> wf_ir ir"
  by (auto simp: parse_def bindE_Inr_iff intro: parse_fuel_shape)

text \<open>
  C14. Whatever query text the parser accepted, the tree it built can be printed and parsed again, and
  the result is the same tree: printing is a normal form of the accepted texts. The tree has the shape
  of the grammar: an UPDATE has assignments and a WHERE block, a CREATE has records without repeated
  fields, SORT excludes TOP and BOTTOM, a value set never follows an ordering operator and is never empty.
\<close>

theorem parse_reprint:
  assumes "parse ts = Inr ir" "map kind ts' = print_ir ir @ [(END_OF_INPUT, v)]"
  shows "wf_ir ir \<and> parse ts' = Inr ir"
  using assms parse_wf_ir parse_printed_tokens by blast

lemma parse_reprint_witness:
  "\<exists>ts ir. tokenize ''UPDATE t (a: 1) WHERE { x = 1, y = 2 z = 3 };'' = Inr ts \<and> parse ts = Inr ir \<and>
     wf_ir ir \<and> parse (map (\<lambda>(ty, v). Token ty v 1 1 []) (print_ir ir @ [(END_OF_INPUT, VStr [])])) = Inr ir"
proof -
  define ts where "ts = projr (tokenize ''UPDATE t (a: 1) WHERE { x = 1, y = 2 z = 3 };'')"
  define ir where "ir = projr (parse ts)"
  have t: "tokenize ''UPDATE t (a: 1) WHERE { x = 1, y = 2 z = 3 };'' = Inr ts"
    unfolding ts_def by code_simp
  moreover have "parse ts = Inr ir" unfolding ir_def ts_def by code_simp
  moreover have "map kind (map (\<lambda>(ty, v). Token ty v 1 1 []) (print_ir ir @ [(END_OF_INPUT, VStr [])])) =
      print_ir ir @ [(END_OF_INPUT, VStr [])]"
    by (simp add: kind_def comp_def case_prod_beta)
  ultimately show ?thesis using parse_reprint by blast
qed

end
