(* ===== verification/Semantic.thy ===== *)
theory Semantic
  imports Parser_Shape
begin

text \<open>
  The semantic validator and the normalizer (\<open>query_engine/semantic/validator.py\<close>,
  \<open>normalizer.py\<close>) and the whole front end, \<open>parse_altrql\<close>. A validation method returns
  \<open>Inr ()\<close> or the exception. AltrQL literals have no sign, so the \<open>float(value)\<close> of the range check
  is only used on natural numbers. The tests of the validator that a child node is missing
  (\<open>expr.left is None\<close>) cannot hold on the tree types of \<open>Ast\<close> and are left out.
\<close>

section \<open>Validation\<close>

fun is_bool_or_null :: "literal \<Rightarrow> bool" where
  "is_bool_or_null (BooleanLiteral b) \<longleftrightarrow> True"
| "is_bool_or_null NullLiteral \<longleftrightarrow> True"
| "is_bool_or_null _ \<longleftrightarrow> False"

text \<open>\<open>float(lit.value)\<close> of a numeric literal; the outer option is whether the literal is numeric.\<close>

fun numeric_value :: "literal \<Rightarrow> (query_error + pyfloat) option" where
  "numeric_value (IntegerLiteral n) =
     Some (case py_float_of_int n of Some x \<Rightarrow> Inr x | None \<Rightarrow> Inl PyOverflowError)"
| "numeric_value (FloatLiteral x) = Some (Inr x)"
| "numeric_value _ = None"

fun string_value :: "literal \<Rightarrow> string option" where
  "string_value (StringLiteral s) = Some s"
| "string_value _ = None"

fun temporal_value :: "literal \<Rightarrow> string option option" where
  "temporal_value (TemporalLiteral kw v) = Some v"
| "temporal_value _ = None"

definition validate_range :: "lit_range \<Rightarrow> query_error + unit" where
  "validate_range r =
     (if is_bool_or_null (r_start r) \<or> is_bool_or_null (r_end r)
      then Inl (SemanticError BooleanOrNullBound)
      else case (numeric_value (r_start r), numeric_value (r_end r)) of
        (Some a, Some b) \<Rightarrow>
          bindE a (\<lambda>x. bindE b (\<lambda>y. raise_if (pyfloat_gt x y) (SemanticError RangeOrder)))
      | _ \<Rightarrow>
        (case (string_value (r_start r), string_value (r_end r)) of
           (Some s, Some t) \<Rightarrow> raise_if (t < s) (SemanticError RangeOrder)
         | _ \<Rightarrow>
           (case (temporal_value (r_start r), temporal_value (r_end r)) of
              (Some (Some s), Some (Some t)) \<Rightarrow> raise_if (t < s) (SemanticError RangeOrder)
            | (Some _, Some _) \<Rightarrow> Inr ()
            | _ \<Rightarrow> Inl (SemanticError IncompatibleBounds))))"

text \<open>\<open>_validate_literal_value\<close> accepts everything, so the elements it is called on are accepted.\<close>

fun validate_value_set_element :: "value_set_element \<Rightarrow> query_error + unit" where
  "validate_value_set_element (ElemRange r) = validate_range r"
| "validate_value_set_element (ElemCompound cs) = raise_if (length cs < 2) (SemanticError ShortCompound)"
| "validate_value_set_element (ElemConstraint c) = Inr ()"
| "validate_value_set_element (ElemLiteral l) = Inr ()"

definition validate_value_set :: "value_set \<Rightarrow> query_error + unit" where
  "validate_value_set vs =
     (if length (elements vs) < 1 then Inl (SemanticError EmptySet)
      else forE validate_value_set_element (elements vs))"

fun is_string_element :: "value_set_element \<Rightarrow> bool" where
  "is_string_element (ElemLiteral l) \<longleftrightarrow> is_string_literal l"
| "is_string_element _ \<longleftrightarrow> False"

definition validate_string_operand :: "string_operator \<Rightarrow> operand \<Rightarrow> query_error + unit" where
  "validate_string_operand op v =
     (case v of
        OperandLiteral l \<Rightarrow> raise_if (\<not> is_string_literal l) (SemanticError (StringOperatorOperand op))
      | OperandRange r \<Rightarrow> Inl (SemanticError (StringOperatorOperand op))
      | OperandSet vs \<Rightarrow>
          bindE (validate_value_set vs) (\<lambda>_.
          forE (\<lambda>el. raise_if (\<not> is_string_element el) (SemanticError (StringOperatorElement op)))
            (elements vs)))"

definition validate_field_expression :: "field_operator \<Rightarrow> operand \<Rightarrow> query_error + unit" where
  "validate_field_expression op v =
     bindE (case op of StringOp s \<Rightarrow> validate_string_operand s v | Comparison c \<Rightarrow> Inr ()) (\<lambda>_.
     case v of
       OperandRange r \<Rightarrow> validate_range r
     | OperandSet vs \<Rightarrow> validate_value_set vs
     | OperandLiteral l \<Rightarrow> Inr ())"

fun validate_expression :: "expression \<Rightarrow> query_error + unit" where
  "validate_expression (LogicalExpression op l r) =
     bindE (validate_expression l) (\<lambda>_. validate_expression r)"
| "validate_expression (NegationExpression e) = validate_expression e"
| "validate_expression (FieldExpression fp op v) = validate_field_expression op v"

text \<open>The loops over a payload and over the projection, with the set of what was seen.\<close>

fun assignments_loop :: "string list \<Rightarrow> mutation_assignment list \<Rightarrow> query_error + unit" where
  "assignments_loop seen [] = Inr ()"
| "assignments_loop seen (a # as) =
     (let f = full_path (ma_field a) in
      if f \<in> set seen then Inl (SemanticError (DuplicateField f)) else assignments_loop (f # seen) as)"

definition validate_mutation_assignments :: "mutation_assignment list \<Rightarrow> query_error + unit" where
  "validate_mutation_assignments as = assignments_loop [] as"

fun aliases_loop :: "string list \<Rightarrow> field_selection list \<Rightarrow> query_error + unit" where
  "aliases_loop seen [] = Inr ()"
| "aliases_loop seen (sel # sels) =
     (case sel_alias sel of
        None \<Rightarrow> aliases_loop seen sels
      | Some a \<Rightarrow>
          if a \<in> set seen then Inl (SemanticError (DuplicateAlias a)) else aliases_loop (a # seen) sels)"

definition validate_projections :: "query_ir \<Rightarrow> query_error + unit" where
  "validate_projections ir = aliases_loop [] (projection ir)"

definition validate_ranking :: "query_ir \<Rightarrow> query_error + unit" where
  "validate_ranking ir =
     (case ranking ir of
        None \<Rightarrow> Inr ()
      | Some r \<Rightarrow> raise_if (rc_count r \<le> 0) (SemanticError (RankingNotPositive (rc_count r))))"

definition validate_limit :: "query_ir \<Rightarrow> query_error + unit" where
  "validate_limit ir =
     (case limit ir of
        None \<Rightarrow> Inr ()
      | Some n \<Rightarrow>
          if n \<le> 0 then Inl (SemanticError (LimitNotPositive n))
          else raise_if (ranking ir \<noteq> None) (SemanticError LimitWithRanking))"

definition validate_offset :: "query_ir \<Rightarrow> query_error + unit" where
  "validate_offset ir =
     (case offset ir of
        None \<Rightarrow> Inr ()
      | Some n \<Rightarrow> raise_if (n < 0) (SemanticError (OffsetNegative n)))"

definition validate_sort_and_ranking :: "query_ir \<Rightarrow> query_error + unit" where
  "validate_sort_and_ranking ir =
     raise_if (0 < length (sort_clauses ir) \<and> ranking ir \<noteq> None) (SemanticError SortAndRanking)"

definition validate_where :: "query_ir \<Rightarrow> query_error + unit" where
  "validate_where ir = (case where_clause ir of None \<Rightarrow> Inr () | Some e \<Rightarrow> validate_expression e)"

text \<open>The four tests that CREATE, UPDATE and DELETE end with.\<close>

definition reject_ordering :: "query_ir \<Rightarrow> query_error + unit" where
  "reject_ordering ir =
     bindE (raise_if (0 < length (sort_clauses ir) \<or> ranking ir \<noteq> None)
              (SemanticError (NotAllowedOn ''SORT'' (operation ir)))) (\<lambda>_.
     bindE (raise_if (limit ir \<noteq> None) (SemanticError (NotAllowedOn ''LIMIT'' (operation ir)))) (\<lambda>_.
     raise_if (offset ir \<noteq> None) (SemanticError (NotAllowedOn ''OFFSET'' (operation ir)))))"

definition validate_record :: "create_record \<Rightarrow> query_error + unit" where
  "validate_record r =
     (if length (cr_assignments r) < 1 then Inl (SemanticError EmptyCreateRecord)
      else validate_mutation_assignments (cr_assignments r))"

definition validate_read :: "query_ir \<Rightarrow> query_error + unit" where
  "validate_read ir =
     bindE (raise_if (0 < length (assignments ir)) (SemanticError AssignmentsOnRead)) (\<lambda>_.
     bindE (validate_projections ir) (\<lambda>_.
     bindE (validate_ranking ir) (\<lambda>_.
     bindE (validate_limit ir) (\<lambda>_.
     bindE (validate_offset ir) (\<lambda>_.
     bindE (validate_sort_and_ranking ir) (\<lambda>_. validate_where ir))))))"

definition validate_create :: "query_ir \<Rightarrow> query_error + unit" where
  "validate_create ir =
     bindE (raise_if (length (records ir) < 1 \<and> length (assignments ir) < 1)
              (SemanticError CreateNeedsRecord)) (\<lambda>_.
     bindE (if 0 < length (records ir) then forE validate_record (records ir)
            else validate_mutation_assignments (assignments ir)) (\<lambda>_.
     bindE (raise_if (0 < length (projection ir)) (SemanticError (NotAllowedOn ''Projection'' CREATE))) (\<lambda>_.
     bindE (raise_if (where_clause ir \<noteq> None) (SemanticError (NotAllowedOn ''WHERE'' CREATE))) (\<lambda>_.
     reject_ordering ir))))"

definition validate_update :: "query_ir \<Rightarrow> query_error + unit" where
  "validate_update ir =
     bindE (raise_if (length (assignments ir) < 1) (SemanticError UpdateNeedsAssignment)) (\<lambda>_.
     bindE (raise_if (0 < length (records ir)) (SemanticError RecordsOnUpdate)) (\<lambda>_.
     bindE (validate_mutation_assignments (assignments ir)) (\<lambda>_.
     bindE (raise_if (where_clause ir = None) (SemanticError UpdateNeedsWhere)) (\<lambda>_.
     bindE (raise_if (0 < length (projection ir)) (SemanticError (NotAllowedOn ''Projection'' UPDATE))) (\<lambda>_.
     bindE (reject_ordering ir) (\<lambda>_. validate_where ir))))))"

definition validate_delete :: "query_ir \<Rightarrow> query_error + unit" where
  "validate_delete ir =
     bindE (raise_if (0 < length (assignments ir)) (SemanticError (NotAllowedOn ''Assignments'' DELETE))) (\<lambda>_.
     bindE (raise_if (0 < length (projection ir)) (SemanticError (NotAllowedOn ''Projection'' DELETE))) (\<lambda>_.
     bindE (reject_ordering ir) (\<lambda>_. validate_where ir)))"

definition validate_ir :: "query_ir \<Rightarrow> query_error + unit" where
  "validate_ir ir =
     (case operation ir of
        READ \<Rightarrow> validate_read ir
      | CREATE \<Rightarrow> validate_create ir
      | UPDATE \<Rightarrow> validate_update ir
      | DELETE \<Rightarrow> validate_delete ir)"

section \<open>Normalization\<close>

fun normalize_expression :: "expression \<Rightarrow> expression" where
  "normalize_expression (FieldExpression fp op v) = FieldExpression fp op v"
| "normalize_expression (NegationExpression e) = NegationExpression (normalize_expression e)"
| "normalize_expression (LogicalExpression op l r) =
     LogicalExpression op (normalize_expression l) (normalize_expression r)"

definition normalize_ir :: "query_ir \<Rightarrow> query_ir" where
  "normalize_ir ir =
     ir\<lparr>where_clause := map_option normalize_expression (where_clause ir),
        records :=
          (if records ir \<noteq> [] then map (\<lambda>r. CreateRecord (cr_assignments r)) (records ir)
           else if operation ir = CREATE \<and> assignments ir \<noteq> [] then [CreateRecord (assignments ir)]
           else [])\<rparr>"

section \<open>The front end\<close>

definition parse_altrql :: "string \<Rightarrow> query_error + query_ir" where
  "parse_altrql s =
     bindE (tokenize s) (\<lambda>ts.
     bindE (parse ts) (\<lambda>raw.
     bindE (validate_ir raw) (\<lambda>_.
     let ir = normalize_ir raw in
     bindE (validate_ir ir) (\<lambda>_. Inr ir))))"

section \<open>What is accepted\<close>

text \<open>
  The rules of the language, without the order in which the validator tests them.
\<close>

definition ordered_range :: "lit_range \<Rightarrow> bool" where
  "ordered_range r \<longleftrightarrow>
     (\<exists>x y. numeric_value (r_start r) = Some (Inr x) \<and> numeric_value (r_end r) = Some (Inr y) \<and> pyfloat_le x y) \<or>
     (\<exists>s t. string_value (r_start r) = Some s \<and> string_value (r_end r) = Some t \<and> s \<le> t) \<or>
     (\<exists>s t. temporal_value (r_start r) = Some s \<and> temporal_value (r_end r) = Some t \<and>
        (\<forall>a b. s = Some a \<longrightarrow> t = Some b \<longrightarrow> a \<le> b))"

fun sound_element :: "value_set_element \<Rightarrow> bool" where
  "sound_element (ElemRange r) \<longleftrightarrow> ordered_range r"
| "sound_element (ElemCompound cs) \<longleftrightarrow> 2 \<le> length cs"
| "sound_element _ \<longleftrightarrow> True"

fun sound_operand :: "field_operator \<Rightarrow> operand \<Rightarrow> bool" where
  "sound_operand (StringOp s) (OperandLiteral l) \<longleftrightarrow> is_string_literal l"
| "sound_operand (StringOp s) (OperandSet vs) \<longleftrightarrow> elements vs \<noteq> [] \<and> list_all is_string_element (elements vs)"
| "sound_operand (StringOp s) (OperandRange r) \<longleftrightarrow> False"
| "sound_operand (Comparison c) (OperandLiteral l) \<longleftrightarrow> True"
| "sound_operand (Comparison c) (OperandSet vs) \<longleftrightarrow> elements vs \<noteq> [] \<and> list_all sound_element (elements vs)"
| "sound_operand (Comparison c) (OperandRange r) \<longleftrightarrow> ordered_range r"

fun sound_expr :: "expression \<Rightarrow> bool" where
  "sound_expr (FieldExpression fp op v) \<longleftrightarrow> sound_operand op v"
| "sound_expr (LogicalExpression op l r) \<longleftrightarrow> sound_expr l \<and> sound_expr r"
| "sound_expr (NegationExpression e) \<longleftrightarrow> sound_expr e"

definition distinct_fields :: "mutation_assignment list \<Rightarrow> bool" where
  "distinct_fields as \<longleftrightarrow> distinct (assignment_paths as)"

definition no_ordering :: "query_ir \<Rightarrow> bool" where
  "no_ordering ir \<longleftrightarrow> sort_clauses ir = [] \<and> ranking ir = None \<and> limit ir = None \<and> offset ir = None"

fun sound_statement :: "query_operation \<Rightarrow> query_ir \<Rightarrow> bool" where
  "sound_statement READ ir \<longleftrightarrow>
     assignments ir = [] \<and> distinct (List.map_filter sel_alias (projection ir)) \<and>
     (sort_clauses ir = [] \<or> ranking ir = None) \<and> (limit ir = None \<or> ranking ir = None) \<and>
     (\<forall>r. ranking ir = Some r \<longrightarrow> 0 < rc_count r) \<and> (\<forall>n. limit ir = Some n \<longrightarrow> 0 < n) \<and>
     (\<forall>n. offset ir = Some n \<longrightarrow> 0 \<le> n) \<and> (\<forall>e. where_clause ir = Some e \<longrightarrow> sound_expr e)"
| "sound_statement CREATE ir \<longleftrightarrow>
     (if records ir = [] then assignments ir \<noteq> [] \<and> distinct_fields (assignments ir)
      else \<forall>r \<in> set (records ir). cr_assignments r \<noteq> [] \<and> distinct_fields (cr_assignments r)) \<and>
     projection ir = [] \<and> where_clause ir = None \<and> no_ordering ir"
| "sound_statement UPDATE ir \<longleftrightarrow>
     assignments ir \<noteq> [] \<and> distinct_fields (assignments ir) \<and> records ir = [] \<and> projection ir = [] \<and>
     no_ordering ir \<and> (\<exists>e. where_clause ir = Some e \<and> sound_expr e)"
| "sound_statement DELETE ir \<longleftrightarrow>
     assignments ir = [] \<and> projection ir = [] \<and> no_ordering ir \<and>
     (\<forall>e. where_clause ir = Some e \<longrightarrow> sound_expr e)"

lemma literal_classes:
  "is_bool_or_null l \<Longrightarrow> numeric_value l = None \<and> string_value l = None \<and> temporal_value l = None"
  "numeric_value l \<noteq> None \<Longrightarrow> string_value l = None \<and> temporal_value l = None"
  "string_value l \<noteq> None \<Longrightarrow> temporal_value l = None"
  by (cases l; simp)+

lemma validate_range_iff: "validate_range r = Inr () \<longleftrightarrow> ordered_range r"
  by (cases "r_start r"; cases "r_end r")
    (auto simp: validate_range_def ordered_range_def result_iffs pyfloat_gt_def not_less split: option.splits)

lemma validate_element_iff: "validate_value_set_element el = Inr () \<longleftrightarrow> sound_element el"
  by (cases el) (auto simp: validate_range_iff raise_if_Inr_iff)

lemma validate_set_iff:
  "validate_value_set vs = Inr () \<longleftrightarrow> elements vs \<noteq> [] \<and> list_all sound_element (elements vs)"
  by (simp add: validate_value_set_def forE_Inr_iff validate_element_iff list_all_iff)

lemma string_elements_sound: "list_all is_string_element els \<Longrightarrow> list_all sound_element els"
  by (induction els) (auto elim: is_string_element.elims)

lemma validate_operand_iff: "validate_field_expression op v = Inr () \<longleftrightarrow> sound_operand op v"
  by (cases op; cases v)
    (auto simp: validate_field_expression_def validate_string_operand_def result_iffs validate_range_iff
      validate_set_iff string_elements_sound list_all_iff [symmetric] Ball_set_list_all)

lemma validate_expression_iff: "validate_expression e = Inr () \<longleftrightarrow> sound_expr e"
  by (induction e) (simp_all add: validate_operand_iff bindE_Inr_iff)

lemma assignments_loop_iff:
  "assignments_loop seen as = Inr () \<longleftrightarrow>
     distinct_fields as \<and> set (assignment_paths as) \<inter> set seen = {}"
  by (induction as arbitrary: seen) (auto simp: distinct_fields_def Let_def)

lemma aliases_loop_iff:
  "aliases_loop seen sels = Inr () \<longleftrightarrow>
     distinct (List.map_filter sel_alias sels) \<and> set (List.map_filter sel_alias sels) \<inter> set seen = {}"
  by (induction sels arbitrary: seen) (auto simp: List.map_filter_simps split: option.split)

lemma reject_ordering_iff: "reject_ordering ir = Inr () \<longleftrightarrow> no_ordering ir"
  by (auto simp: reject_ordering_def no_ordering_def result_iffs)

lemmas validate_iffs = validate_expression_iff assignments_loop_iff aliases_loop_iff reject_ordering_iff

lemma sound_statement_iff: "validate_ir ir = Inr () \<longleftrightarrow> sound_statement (operation ir) ir"
proof (cases "operation ir")
  case READ
  then show ?thesis
    by (simp add: validate_ir_def validate_read_def bindE_Inr_iff raise_if_Inr_iff
        validate_projections_def validate_sort_and_ranking_def validate_iffs)
      (auto simp: validate_ranking_def validate_limit_def validate_offset_def validate_where_def
        validate_iffs raise_if_Inr_iff split: option.splits)
next
  case CREATE
  then show ?thesis
    by (auto simp: validate_ir_def validate_create_def result_iffs validate_record_def
        validate_mutation_assignments_def validate_iffs)
next
  case UPDATE
  then show ?thesis
    by (auto simp: validate_ir_def validate_update_def result_iffs
        validate_mutation_assignments_def validate_iffs validate_where_def split: option.splits)
next
  case DELETE
  then show ?thesis
    by (auto simp: validate_ir_def validate_delete_def result_iffs validate_iffs validate_where_def
        split: option.splits)
qed

section \<open>Properties\<close>

text \<open>
  C16. The validator accepts exactly the meaningful statements: whatever the order of its tests, it
  raises nothing if and only if the rules of the statement's kind hold (positive counts, exclusive
  clauses, distinct aliases and fields, ordered ranges of one category, string operands for the string
  operators, no empty set, compound conditions of at least two parts).
\<close>

theorem validate_ir_iff: "validate_ir ir = Inr () \<longleftrightarrow> sound_statement (operation ir) ir"
  by (rule sound_statement_iff)

lemma normalize_expression_id [simp]: "normalize_expression e = e"
  by (induction e) simp_all

lemma normalize_expression_fun: "normalize_expression = (\<lambda>e. e)"
  by (rule ext) simp

lemma normalize_ir_id:
  assumes "operation ir \<noteq> CREATE \<or> records ir \<noteq> [] \<or> assignments ir = []"
  shows "normalize_ir ir = ir"
  using assms by (cases "records ir = []") (auto simp: normalize_ir_def normalize_expression_fun option.map_ident)

lemma normalize_ir_create:
  assumes "operation ir = CREATE" "records ir = []" "assignments ir \<noteq> []"
  shows "normalize_ir ir = ir\<lparr>records := [CreateRecord (assignments ir)]\<rparr>"
  using assms by (simp add: normalize_ir_def normalize_expression_fun option.map_ident)

lemma validate_normalize_lemma: "validate_ir (normalize_ir ir) = validate_ir ir"
proof (cases "operation ir \<noteq> CREATE \<or> records ir \<noteq> [] \<or> assignments ir = []")
  case True
  then show ?thesis by (simp add: normalize_ir_id)
next
  case False
  then have "validate_mutation_assignments (assignments ir) =
      forE validate_record [CreateRecord (assignments ir)]"
    by (cases "assignments ir"; cases "validate_mutation_assignments (assignments ir)")
      (simp_all add: validate_record_def)
  with False show ?thesis
    by (simp add: normalize_ir_create validate_ir_def validate_create_def reject_ordering_def)
qed

text \<open>
  Normalization is safe: it is idempotent, and validating the normalized query gives exactly what
  validating the query gives, exceptions included. So the second validation in \<open>parse_altrql\<close> can
  never fail.
\<close>

theorem normalize_ir_safe:
  "normalize_ir (normalize_ir ir) = normalize_ir ir \<and> validate_ir (normalize_ir ir) = validate_ir ir"
proof
  show "normalize_ir (normalize_ir ir) = normalize_ir ir"
    by (rule normalize_ir_id) (auto simp: normalize_ir_def)
qed (rule validate_normalize_lemma)

lemma parse_normal: "parse ts = Inr ir \<Longrightarrow> normalize_ir ir = ir"
  by (drule parse_wf_ir, cases "operation ir") (auto simp: wf_ir_def intro!: normalize_ir_id)

lemma parse_altrql_unfold:
  "parse_altrql s = bindE (tokenize s) (\<lambda>ts. bindE (parse ts) (\<lambda>ir. bindE (validate_ir ir) (\<lambda>_. Inr ir)))"
proof (cases "tokenize s")
  case (Inr ts)
  show ?thesis
  proof (cases "parse ts")
    case (Inr ir)
    then show ?thesis
      using \<open>tokenize s = Inr ts\<close> parse_normal [OF Inr]
      by (cases "validate_ir ir") (simp_all add: parse_altrql_def Let_def)
  qed (simp add: Inr parse_altrql_def)
qed (simp add: parse_altrql_def)

text \<open>
  What the front end accepts: \<open>parse_altrql\<close> returns a query exactly when the text can be
  tokenized, the tokens parse to that query, and the query is meaningful. The normalizer changes
  nothing on this path, so the tree that is validated is the tree that is returned.
\<close>

theorem parse_altrql_iff:
  "parse_altrql s = Inr ir \<longleftrightarrow>
     (\<exists>ts. tokenize s = Inr ts \<and> parse ts = Inr ir \<and> validate_ir ir = Inr ())"
  by (auto simp: parse_altrql_unfold bindE_Inr_iff)

lemma validate_not_fuel: "validate_ir ir \<noteq> Inl OutOfFuel"
proof -
  have r: "validate_range r \<noteq> Inl OutOfFuel" for r
    by (cases "r_start r"; cases "r_end r")
      (auto simp: validate_range_def bindE_Inl_iff raise_if_def split: option.splits)
  then have el: "validate_value_set_element el \<noteq> Inl OutOfFuel" for el
    by (cases el) (auto simp: raise_if_def)
  have vs: "validate_value_set vs \<noteq> Inl OutOfFuel" for vs
    using el by (auto simp: validate_value_set_def dest: forE_Inl)
  have f: "validate_field_expression op v \<noteq> Inl OutOfFuel" for op v
    using r vs by (auto simp: validate_field_expression_def validate_string_operand_def bindE_Inl_iff
        raise_if_def dest!: forE_Inl split: field_operator.splits operand.splits if_splits)
  have e: "validate_expression e \<noteq> Inl OutOfFuel" for e
    by (induction e) (auto simp: bindE_Inl_iff f)
  have as: "assignments_loop seen as \<noteq> Inl OutOfFuel" for seen as
    by (induction as arbitrary: seen) (auto simp: Let_def)
  have al: "aliases_loop seen sels \<noteq> Inl OutOfFuel" for seen sels
    by (induction sels arbitrary: seen) (auto split: option.split)
  have rec: "forE validate_record rs \<noteq> Inl OutOfFuel" for rs
    using as by (auto simp: validate_record_def validate_mutation_assignments_def dest!: forE_Inl split: if_splits)
  show ?thesis
    using e as al rec
    by (auto simp: validate_ir_def validate_read_def validate_create_def validate_update_def
        validate_delete_def bindE_Inl_iff raise_if_Inl_iff reject_ordering_def validate_where_def
        validate_mutation_assignments_def validate_projections_def validate_ranking_def
        validate_limit_def validate_offset_def validate_sort_and_ranking_def
        split: query_operation.splits option.splits if_splits)
qed

lemma tokenize_error: "tokenize s = Inl e \<Longrightarrow> e = PyValueError \<or> (\<exists>m l c. e = LexError m l c)"
  using tokenize_from_error [OF positioned_new, of s e] unfolding tokenize_def by blast

text \<open>
  C15. The front end terminates on every text: the bound that the model puts on the depth of the
  parser's loops and recursion (five per token) is never reached, so \<open>parse_altrql\<close> returns a query or
  one of the exceptions of the code.
\<close>

theorem parse_altrql_total: "parse_altrql s \<noteq> Inl OutOfFuel"
proof
  assume "parse_altrql s = Inl OutOfFuel"
  then consider "tokenize s = Inl OutOfFuel"
    | ts where "tokenize s = Inr ts" "parse ts = Inl OutOfFuel"
    | ir where "validate_ir ir = Inl OutOfFuel"
    by (auto simp: parse_altrql_unfold bindE_Inl_iff)
  then show False
  proof cases
    case 1
    then show False by (auto dest: tokenize_error)
  next
    case (2 ts)
    then show False
      using parse_fuel_enough [OF tokenize_wf [of s ts]] by (auto simp: parse_def bindE_Inl_iff)
  qed (simp add: validate_not_fuel)
qed

text \<open>
  C17. The range check is exact for whole numbers below \<open>2 ^ 53\<close>: a range of two such bounds is accepted
  if and only if the first bound is not above the second.
\<close>

theorem validate_range_exact:
  assumes "0 \<le> a" "a < 2 ^ 53" "0 \<le> b" "b < 2 ^ 53"
  shows "validate_range (Range (IntegerLiteral a) (IntegerLiteral b) inc) = Inr () \<longleftrightarrow> a \<le> b"
proof -
  obtain x y where "py_float_of_int a = Some x" "py_float_of_int b = Some y"
    using assms py_float_of_int_small by metis
  then show ?thesis
    using pyfloat_le_small [OF assms] by (simp add: validate_range_iff ordered_range_def)
qed

lemma validate_range_exact_witness:
  "validate_range (Range (IntegerLiteral 3) (IntegerLiteral 10) True) = Inr () \<longleftrightarrow> (3::int) \<le> 10"
  by (rule validate_range_exact) simp_all

text \<open>
  Above that bound the comparison is of rounded values: a range that is upside down is accepted, and
  a bound above the largest float raises an exception of the language, not of the query engine.
\<close>

lemma range_check_rounds:
  "validate_range (Range (IntegerLiteral 9007199254740993) (IntegerLiteral 9007199254740992) True) = Inr ()"
  by (simp add: validate_range_def py_float_of_int_def round_binary64_def bitlen.simps ratio_ge_pow2_def
      scale2_def round_half_even_def Let_def pyfloat_gt_def)

lemma range_check_overflows:
  "validate_range (Range (IntegerLiteral 0) (IntegerLiteral (2 ^ 1024)) True) = Inl PyOverflowError"
  by (simp add: validate_range_def py_float_of_int_def round_binary64_def bitlen.simps ratio_ge_pow2_def
      scale2_def round_half_even_def Let_def pyfloat_gt_def)

end
