(* ===== verification/Schema.thy ===== *)
theory Schema
  imports Prelude
begin

text \<open>
  Schemas, logical models and mappings (\<open>domain/schema.py\<close>, \<open>domain/logical.py\<close>,
  \<open>domain/mapping.py\<close>). Timestamps and generated ids are inputs of the program's constructors; the
  timestamps are not used by any operation modelled here and are left out of the records. An optional
  lookup returns \<open>None\<close> as the code does.
\<close>

section \<open>Data types\<close>

datatype standard_data_type =
    TSTRING | TINTEGER | TBIGINT | TSMALLINT | TFLOAT | TDECIMAL | TBOOLEAN | TDATE | TTIME
  | TTIMESTAMP | TTIMESTAMPTZ | TJSON | TARRAY | TBINARY | TUUID | TOTHER

fun type_name :: "standard_data_type \<Rightarrow> string" where
  "type_name TSTRING = ''STRING''"
| "type_name TINTEGER = ''INTEGER''"
| "type_name TBIGINT = ''BIGINT''"
| "type_name TSMALLINT = ''SMALLINT''"
| "type_name TFLOAT = ''FLOAT''"
| "type_name TDECIMAL = ''DECIMAL''"
| "type_name TBOOLEAN = ''BOOLEAN''"
| "type_name TDATE = ''DATE''"
| "type_name TTIME = ''TIME''"
| "type_name TTIMESTAMP = ''TIMESTAMP''"
| "type_name TTIMESTAMPTZ = ''TIMESTAMPTZ''"
| "type_name TJSON = ''JSON''"
| "type_name TARRAY = ''ARRAY''"
| "type_name TBINARY = ''BINARY''"
| "type_name TUUID = ''UUID''"
| "type_name TOTHER = ''OTHER''"

definition all_types :: "standard_data_type list" where
  "all_types = [TSTRING, TINTEGER, TBIGINT, TSMALLINT, TFLOAT, TDECIMAL, TBOOLEAN, TDATE, TTIME,
     TTIMESTAMP, TTIMESTAMPTZ, TJSON, TARRAY, TBINARY, TUUID, TOTHER]"

text \<open>\<open>StandardDataType(name)\<close>; \<open>None\<close> is the \<open>ValueError\<close>.\<close>

definition type_of_name :: "string \<Rightarrow> standard_data_type option" where
  "type_of_name s = map_of (map (\<lambda>t. (type_name t, t)) all_types) s"

definition integer_types :: "standard_data_type list" where
  "integer_types = [TINTEGER, TBIGINT, TSMALLINT]"

definition float_types :: "standard_data_type list" where
  "float_types = [TFLOAT, TDECIMAL]"

definition string_types :: "standard_data_type list" where
  "string_types = [TSTRING, TUUID]"

definition boolean_types :: "standard_data_type list" where
  "boolean_types = [TBOOLEAN]"

definition temporal_types :: "standard_data_type list" where
  "temporal_types = [TDATE, TTIME, TTIMESTAMP, TTIMESTAMPTZ]"

definition json_types :: "standard_data_type list" where
  "json_types = [TJSON]"

definition binary_types :: "standard_data_type list" where
  "binary_types = [TBINARY]"

definition array_types :: "standard_data_type list" where
  "array_types = [TARRAY]"

text \<open>The part of \<open>are_datatypes_compatible\<close> after both arguments are enum members.\<close>

definition types_compatible :: "standard_data_type \<Rightarrow> standard_data_type \<Rightarrow> bool" where
  "types_compatible l p =
     (if l = p then True
      else if l \<in> set integer_types then p \<in> set integer_types
      else if l \<in> set float_types then p \<in> set (float_types @ integer_types)
      else if l \<in> set string_types then p \<in> set string_types
      else if l \<in> set boolean_types then p \<in> set boolean_types
      else if l \<in> set temporal_types then p \<in> set temporal_types
      else if l \<in> set json_types then p \<in> set json_types
      else if l \<in> set binary_types then p \<in> set binary_types
      else if l \<in> set array_types then p \<in> set array_types
      else False)"

text \<open>The arguments are strings (a \<open>str\<close> enum member is one), converted in any case.\<close>

definition are_datatypes_compatible :: "string \<Rightarrow> string \<Rightarrow> bool" where
  "are_datatypes_compatible l p =
     (case type_of_name (py_upper l) of
        None \<Rightarrow> False
      | Some lt \<Rightarrow>
          (case type_of_name (py_upper p) of
             None \<Rightarrow> False
           | Some pt \<Rightarrow> types_compatible lt pt))"

section \<open>Physical schemas\<close>

datatype constraint_type = PRIMARY_KEY | FOREIGN_KEY | UNIQUE_KEY | CHECK_EXPR

record field_schema =
  fs_name :: string
  fs_data_type :: standard_data_type
  fs_native :: string
  fs_nullable :: bool
  fs_primary_key :: bool
  fs_default :: "string option"
  fs_position :: int
  fs_comment :: "string option"

record constraint_schema =
  cs_name :: string
  cs_type :: constraint_type
  cs_fields :: "string list"
  cs_ref_entity :: "string option"
  cs_ref_fields :: "string list"

record entity_schema =
  es_name :: string
  es_namespace :: string
  es_entity_type :: string
  es_fields :: "field_schema list"
  es_primary_key :: "string list"
  es_constraints :: "constraint_schema list"
  es_comment :: "string option"

record source_schema =
  ss_source_id :: string
  ss_source_name :: string
  ss_version :: string
  ss_entities :: "entity_schema list"

definition field_count :: "entity_schema \<Rightarrow> nat" where
  "field_count e = length (es_fields e)"

definition get_field :: "entity_schema \<Rightarrow> string \<Rightarrow> field_schema option" where
  "get_field e n = find (\<lambda>f. fs_name f = n) (es_fields e)"

definition entity_count :: "source_schema \<Rightarrow> nat" where
  "entity_count s = length (ss_entities s)"

definition total_field_count :: "source_schema \<Rightarrow> nat" where
  "total_field_count s = sum_list (map (\<lambda>e. length (es_fields e)) (ss_entities s))"

section \<open>Logical models\<close>

record logical_field =
  lf_id :: string
  lf_entity_id :: string
  lf_name :: string
  lf_data_type :: standard_data_type
  lf_primary_key :: bool
  lf_nullable :: bool

record logical_entity =
  le_id :: string
  le_model_id :: string
  le_name :: string
  le_description :: "string option"
  le_fields :: "logical_field list"

record logical_model =
  lm_id :: string
  lm_name :: string
  lm_version :: string
  lm_description :: "string option"
  lm_entities :: "logical_entity list"

text \<open>
  The lookup that both \<open>get_field_by_name\<close> and \<open>get_entity_by_name\<close> write out: an exact match, else
  one up to case, else one up to case and trailing \<open>s\<close>.
\<close>

definition lookup_by_name :: "('a \<Rightarrow> string) \<Rightarrow> 'a list \<Rightarrow> string \<Rightarrow> 'a option" where
  "lookup_by_name nm xs n =
     (if n = [] then None
      else case find (\<lambda>x. nm x = n) xs of
        Some x \<Rightarrow> Some x
      | None \<Rightarrow>
          (let lower = py_lower n in
           case find (\<lambda>x. py_lower (nm x) = lower) xs of
             Some x \<Rightarrow> Some x
           | None \<Rightarrow> find (\<lambda>x. rstrip_s (py_lower (nm x)) = rstrip_s lower) xs))"

definition get_field_by_id :: "logical_entity \<Rightarrow> string \<Rightarrow> logical_field option" where
  "get_field_by_id e i = find (\<lambda>f. lf_id f = i) (le_fields e)"

definition get_field_by_name :: "logical_entity \<Rightarrow> string \<Rightarrow> logical_field option" where
  "get_field_by_name e n = lookup_by_name lf_name (le_fields e) n"

definition get_entity_by_id :: "logical_model \<Rightarrow> string \<Rightarrow> logical_entity option" where
  "get_entity_by_id m i = find (\<lambda>e. le_id e = i) (lm_entities m)"

definition get_entity_by_name :: "logical_model \<Rightarrow> string \<Rightarrow> logical_entity option" where
  "get_entity_by_name m n = lookup_by_name le_name (lm_entities m) n"

section \<open>Mappings\<close>

datatype mapping_status = DRAFT | ACTIVE | VALIDATED | ERROR

datatype mapping_provenance = USER | ALTR_ALIGN | SYSTEM

record field_mapping =
  fm_id :: string
  fm_entity_mapping_id :: string
  fm_logical_id :: string
  fm_logical_name :: string
  fm_physical_name :: string
  fm_rule :: "string option"

record entity_mapping =
  em_id :: string
  em_source_mapping_id :: string
  em_logical_id :: string
  em_logical_name :: string
  em_physical_name :: string
  em_namespace :: string
  em_fields :: "field_mapping list"

record source_mapping =
  sm_id :: string
  sm_model_id :: string
  sm_source_id :: string
  sm_version :: string
  sm_status :: mapping_status
  sm_provenance :: mapping_provenance
  sm_error :: "string option"
  sm_entities :: "entity_mapping list"

definition get_field_mapping_by_logical_name :: "entity_mapping \<Rightarrow> string \<Rightarrow> field_mapping option" where
  "get_field_mapping_by_logical_name em n = find (\<lambda>fm. fm_logical_name fm = n) (em_fields em)"

definition get_field_mapping_by_logical_id :: "entity_mapping \<Rightarrow> string \<Rightarrow> field_mapping option" where
  "get_field_mapping_by_logical_id em i = find (\<lambda>fm. fm_logical_id fm = i) (em_fields em)"

definition get_entity_mapping_by_logical_name :: "source_mapping \<Rightarrow> string \<Rightarrow> entity_mapping option" where
  "get_entity_mapping_by_logical_name sm n = find (\<lambda>em. em_logical_name em = n) (sm_entities sm)"

definition get_entity_mapping_by_logical_id :: "source_mapping \<Rightarrow> string \<Rightarrow> entity_mapping option" where
  "get_entity_mapping_by_logical_id sm i = find (\<lambda>em. em_logical_id em = i) (sm_entities sm)"

section \<open>Facts about the lookups\<close>

lemma find_Some_split:
  "find P xs = Some x \<Longrightarrow> \<exists>ys zs. xs = ys @ x # zs \<and> P x \<and> (\<forall>y \<in> set ys. \<not> P y)"
proof (induction xs)
  case (Cons a xs)
  show ?case
  proof (cases "P a")
    case True
    with Cons.prems show ?thesis by (intro exI [of _ "[]"] exI [of _ xs]) simp
  next
    case False
    with Cons obtain ys zs where "xs = ys @ x # zs" "P x" "\<forall>y \<in> set ys. \<not> P y" by auto
    with False show ?thesis by (metis append_Cons set_ConsD)
  qed
qed simp

lemma find_SomeD: "find P xs = Some x \<Longrightarrow> x \<in> set xs \<and> P x"
  by (auto dest: find_Some_split)

lemma get_field_name: "get_field e n = Some f \<Longrightarrow> f \<in> set (es_fields e) \<and> fs_name f = n"
  by (auto simp: get_field_def dest: find_SomeD)

text \<open>What \<open>lookup_by_name\<close> compares names by, from the strictest test to the loosest.\<close>

fun same_name :: "nat \<Rightarrow> string \<Rightarrow> string \<Rightarrow> bool" where
  "same_name 0 a b \<longleftrightarrow> a = b"
| "same_name (Suc 0) a b \<longleftrightarrow> py_lower a = py_lower b"
| "same_name _ a b \<longleftrightarrow> rstrip_s (py_lower a) = rstrip_s (py_lower b)"

lemma same_name_mono: "same_name i a b \<Longrightarrow> i \<le> j \<Longrightarrow> same_name j a b"
  by (cases "(i, a, b)" rule: same_name.cases; cases "(j, a, b)" rule: same_name.cases) auto

lemma lookup_by_name_tiers:
  "n \<noteq> [] \<Longrightarrow> lookup_by_name nm xs n =
     (case find (\<lambda>x. same_name 0 (nm x) n) xs of
        Some x \<Rightarrow> Some x
      | None \<Rightarrow> (case find (\<lambda>x. same_name 1 (nm x) n) xs of
          Some x \<Rightarrow> Some x
        | None \<Rightarrow> find (\<lambda>x. same_name 2 (nm x) n) xs))"
  unfolding lookup_by_name_def Let_def One_nat_def numeral_2_eq_2 same_name.simps by simp

text \<open>
  The result of a lookup is the first element that agrees with the name at the strictest level at
  which any element does.
\<close>

lemma lookup_by_name_Some:
  assumes "lookup_by_name nm xs n = Some x"
  shows "n \<noteq> [] \<and> (\<exists>k ys zs. xs = ys @ x # zs \<and> same_name k (nm x) n \<and>
     (\<forall>y \<in> set ys. \<not> same_name k (nm y) n) \<and> (\<forall>y \<in> set xs. \<forall>j < k. \<not> same_name j (nm y) n))"
proof -
  have n: "n \<noteq> []" using assms by (auto simp: lookup_by_name_def)
  from assms consider "find (\<lambda>x. same_name 0 (nm x) n) xs = Some x"
    | "find (\<lambda>x. same_name 0 (nm x) n) xs = None" "find (\<lambda>x. same_name 1 (nm x) n) xs = Some x"
    | "find (\<lambda>x. same_name 0 (nm x) n) xs = None" "find (\<lambda>x. same_name 1 (nm x) n) xs = None"
      "find (\<lambda>x. same_name 2 (nm x) n) xs = Some x"
    unfolding lookup_by_name_tiers [OF n] by (auto split: option.splits)
  then show ?thesis
  proof cases
    case 1
    then show ?thesis using n by (intro conjI exI [of _ 0]) (auto dest!: find_Some_split)
  next
    case 2
    then obtain ys zs where "xs = ys @ x # zs" "same_name 1 (nm x) n" "\<forall>y \<in> set ys. \<not> same_name 1 (nm y) n"
      by (auto dest!: find_Some_split simp del: same_name.simps)
    moreover have "\<forall>y \<in> set xs. \<forall>j < 1. \<not> same_name j (nm y) n" using 2(1) by (auto simp: find_None_iff)
    ultimately show ?thesis using n by blast
  next
    case 3
    then obtain ys zs where "xs = ys @ x # zs" "same_name 2 (nm x) n" "\<forall>y \<in> set ys. \<not> same_name 2 (nm y) n"
      by (auto dest!: find_Some_split simp del: same_name.simps)
    moreover have "\<forall>y \<in> set xs. \<forall>j < 2. \<not> same_name j (nm y) n"
      using 3(1,2) by (auto simp: find_None_iff less_2_cases_iff simp del: same_name.simps)
    ultimately show ?thesis using n by blast
  qed
qed

lemma lookup_by_name_None:
  "n \<noteq> [] \<Longrightarrow> lookup_by_name nm xs n = None \<longleftrightarrow> (\<forall>x \<in> set xs. \<not> same_name 2 (nm x) n)"
  unfolding lookup_by_name_tiers
  using same_name_mono [of 0 _ n 2] same_name_mono [of 1 _ n 2]
  by (auto simp: find_None_iff simp del: same_name.simps split: option.splits)
    (auto dest!: find_SomeD simp del: same_name.simps)

section \<open>Properties\<close>

text \<open>
  Lookup by name in a logical model prefers the strictest match: the field returned agrees with the
  name exactly, or up to case when no field agrees exactly, or up to case and plural \<open>s\<close> when none
  agrees up to case, and it is the first of the fields that do. Nothing is found only when no field
  agrees at the loosest level (or the name is empty).
\<close>

theorem get_field_by_name_strictest:
  "case get_field_by_name e n of
     Some f \<Rightarrow> \<exists>k ys zs. le_fields e = ys @ f # zs \<and> same_name k (lf_name f) n \<and>
       (\<forall>y \<in> set ys. \<not> same_name k (lf_name y) n) \<and>
       (\<forall>y \<in> set (le_fields e). \<forall>j < k. \<not> same_name j (lf_name y) n)
   | None \<Rightarrow> n = [] \<or> (\<forall>f \<in> set (le_fields e). \<not> same_name 2 (lf_name f) n)"
proof (cases "get_field_by_name e n")
  case None
  then show ?thesis
    using lookup_by_name_None [of n lf_name "le_fields e"] by (auto simp: get_field_by_name_def)
next
  case (Some f)
  then show ?thesis
    using lookup_by_name_Some [of lf_name "le_fields e" n f] by (simp add: get_field_by_name_def)
qed

lemma get_field_by_name_strictest_witness:
  "let f = (\<lambda>i n. \<lparr>lf_id = i, lf_entity_id = ''e'', lf_name = n, lf_data_type = TSTRING,
                    lf_primary_key = False, lf_nullable = True\<rparr>);
       e = \<lparr>le_id = ''e'', le_model_id = ''m'', le_name = ''E'', le_description = None,
             le_fields = [f ''1'' ''Names'', f ''2'' ''NAME'', f ''3'' ''name'']\<rparr>
   in get_field_by_name e ''names'' = Some (f ''1'' ''Names'') \<and>
      get_field_by_name e ''name'' = Some (f ''3'' ''name'') \<and>
      (\<exists>k. same_name k (lf_name (f ''1'' ''Names'')) ''names'')"
proof -
  define f where "f = (\<lambda>i n. \<lparr>lf_id = i, lf_entity_id = ''e'', lf_name = n, lf_data_type = TSTRING,
                    lf_primary_key = False, lf_nullable = True\<rparr>)"
  define e where "e = \<lparr>le_id = ''e'', le_model_id = ''m'', le_name = ''E'', le_description = None,
             le_fields = [f ''1'' ''Names'', f ''2'' ''NAME'', f ''3'' ''name'']\<rparr>"
  have a: "get_field_by_name e ''names'' = Some (f ''1'' ''Names'')"
    and b: "get_field_by_name e ''name'' = Some (f ''3'' ''name'')"
    unfolding e_def f_def by code_simp+
  have "\<exists>k. same_name k (lf_name (f ''1'' ''Names'')) ''names''"
    using get_field_by_name_strictest [where e = e and n = "''names''"] unfolding a by auto
  with a b show ?thesis by (simp add: Let_def e_def f_def)
qed

lemma types_compatible_refl: "types_compatible t t"
  by (simp add: types_compatible_def)

lemmas type_sets = integer_types_def float_types_def string_types_def boolean_types_def
  temporal_types_def json_types_def binary_types_def array_types_def

lemma types_compatible_trans: "types_compatible a b \<Longrightarrow> types_compatible b c \<Longrightarrow> types_compatible a c"
  by (cases a; cases b; simp add: types_compatible_def type_sets split: if_splits; blast?)

text \<open>
  Compatibility of data types is a preorder on names, whatever the case they are written in: a
  known type is compatible with itself, and compatibility composes. So a logical field may be remapped
  through an intermediate type without a new check.
\<close>

theorem are_datatypes_compatible_preorder:
  "(are_datatypes_compatible a a \<longleftrightarrow> type_of_name (py_upper a) \<noteq> None) \<and>
   (are_datatypes_compatible a b \<longrightarrow> are_datatypes_compatible b c \<longrightarrow> are_datatypes_compatible a c)"
  by (auto simp: are_datatypes_compatible_def types_compatible_refl
      intro: types_compatible_trans split: option.splits)

lemma are_datatypes_compatible_preorder_witness:
  "are_datatypes_compatible ''Decimal'' ''float'' \<and> are_datatypes_compatible ''float'' ''BIGINT'' \<and>
   are_datatypes_compatible ''Decimal'' ''BIGINT''"
proof -
  have "are_datatypes_compatible ''Decimal'' ''float''" "are_datatypes_compatible ''float'' ''BIGINT''"
    by code_simp+
  then show ?thesis
    using are_datatypes_compatible_preorder [of "''Decimal''" "''float''" "''BIGINT''"] by blast
qed

end
