(* ===== verification/Binding.thy ===== *)
theory Binding
  imports Semantic Schema
begin

text \<open>
  Binding a query to a source schema: the bound syntax tree (\<open>query_engine/domain/bound_ast.py\<close>), the
  resolver (\<open>binding/resolver.py\<close>), the type validator (\<open>binding/type_validator.py\<close>) and the binder
  (\<open>binding/binder.py\<close>). The six places of the binder that build a \<open>BoundFieldPath\<close> from a resolved
  field are one definition, \<open>bind_field\<close>.
\<close>

section \<open>The bound syntax tree\<close>

datatype type_category = CNUMERIC | CSTRING | CBOOLEAN | CTEMPORAL | CUNKNOWN

record bound_field =
  bf_path :: field_path
  bf_data_type :: standard_data_type
  bf_category :: type_category
  bf_native :: string
  bf_nullable :: bool
  bf_primary_key :: bool

record bound_entity =
  be_name :: string
  be_namespace :: string
  be_entity_type :: string
  be_comment :: "string option"
  be_primary_key :: "string list"

datatype bound_selection = BoundSelection (bs_field: bound_field) (bs_alias: "string option")

datatype bound_assignment = BoundAssignment (ba_field: bound_field) (ba_value: literal)

datatype bound_record = BoundRecord (br_assignments: "bound_assignment list")

datatype bound_expression =
    BoundField bound_field field_operator operand
  | BoundLogical logical_operator bound_expression bound_expression
  | BoundNegation bound_expression

datatype bound_sort = BoundSort (bsc_field: bound_field) (bsc_direction: sort_direction)

datatype bound_ranking =
  BoundRanking (brk_direction: ranking_direction) (brk_count: int) (brk_field: bound_field)

record bound_ir =
  b_operation :: query_operation
  b_entity :: bound_entity
  b_projection :: "bound_selection list"
  b_where :: "bound_expression option"
  b_assignments :: "bound_assignment list"
  b_records :: "bound_record list"
  b_sort :: "bound_sort list"
  b_ranking :: "bound_ranking option"
  b_limit :: "int option"
  b_offset :: "int option"
  b_source_id :: string
  b_source_name :: string

definition b_full_path :: "bound_field \<Rightarrow> string" where
  "b_full_path f = full_path (bf_path f)"

definition b_is_wildcard_projection :: "bound_ir \<Rightarrow> bool" where
  "b_is_wildcard_projection b \<longleftrightarrow> length (b_projection b) = 0"

section \<open>Resolution of names\<close>

definition resolve_entity :: "string \<Rightarrow> source_schema \<Rightarrow> query_error + entity_schema" where
  "resolve_entity n s =
     (case find (\<lambda>e. es_name e = n) (ss_entities s) of
        Some e \<Rightarrow> Inr e
      | None \<Rightarrow> Inl (UnknownEntityError n (ss_source_name s)))"

definition resolve_field_path :: "field_path \<Rightarrow> entity_schema \<Rightarrow> query_error + field_schema" where
  "resolve_field_path fp e =
     (if length (segments fp) = 1 then
        (case get_field e (segments fp ! 0) of
           Some f \<Rightarrow> Inr f
         | None \<Rightarrow> Inl (UnknownFieldError (segments fp ! 0) (es_name e)))
      else
        (case get_field e (full_path fp) of
           Some f \<Rightarrow> Inr f
         | None \<Rightarrow>
             (case get_field e (root fp) of
                Some f \<Rightarrow> Inr f
              | None \<Rightarrow> Inl (UnknownFieldError (full_path fp) (es_name e)))))"

section \<open>Types\<close>

fun to_logical_category :: "standard_data_type \<Rightarrow> type_category" where
  "to_logical_category TINTEGER = CNUMERIC"
| "to_logical_category TBIGINT = CNUMERIC"
| "to_logical_category TSMALLINT = CNUMERIC"
| "to_logical_category TFLOAT = CNUMERIC"
| "to_logical_category TDECIMAL = CNUMERIC"
| "to_logical_category TSTRING = CSTRING"
| "to_logical_category TUUID = CSTRING"
| "to_logical_category TBOOLEAN = CBOOLEAN"
| "to_logical_category TDATE = CTEMPORAL"
| "to_logical_category TTIME = CTEMPORAL"
| "to_logical_category TTIMESTAMP = CTEMPORAL"
| "to_logical_category TTIMESTAMPTZ = CTEMPORAL"
| "to_logical_category _ = CUNKNOWN"

text \<open>The category that a literal's class belongs to in the \<open>isinstance\<close> chains; NULL has none.\<close>

fun literal_category :: "literal \<Rightarrow> type_category option" where
  "literal_category (StringLiteral s) = Some CSTRING"
| "literal_category (IntegerLiteral n) = Some CNUMERIC"
| "literal_category (FloatLiteral x) = Some CNUMERIC"
| "literal_category (BooleanLiteral b) = Some CBOOLEAN"
| "literal_category (TemporalLiteral k v) = Some CTEMPORAL"
| "literal_category NullLiteral = None"

definition check_category :: "bound_field \<Rightarrow> (string \<Rightarrow> type_message) \<Rightarrow> literal \<Rightarrow> query_error + unit" where
  "check_category f msg l =
     (case literal_category l of
        None \<Rightarrow> Inr ()
      | Some c \<Rightarrow> raise_if (bf_category f \<noteq> c) (TypeCompatibilityError (msg (b_full_path f))))"

text \<open>\<open>_validate_range\<close> of the type validator.\<close>

definition validate_range_type :: "bound_field \<Rightarrow> lit_range \<Rightarrow> query_error + unit" where
  "validate_range_type f r =
     (let both = (\<lambda>c. literal_category (r_start r) = Some c \<and> literal_category (r_end r) = Some c);
          mismatch = TypeCompatibilityError (RangeBoundMismatch (b_full_path f))
      in case bf_category f of
           CBOOLEAN \<Rightarrow> Inl (TypeCompatibilityError (RangeOnBoolean (b_full_path f)))
         | CNUMERIC \<Rightarrow> raise_if (\<not> both CNUMERIC) mismatch
         | CSTRING \<Rightarrow> raise_if (\<not> both CSTRING) mismatch
         | CTEMPORAL \<Rightarrow> raise_if (\<not> both CTEMPORAL) mismatch
         | CUNKNOWN \<Rightarrow> Inr ())"

definition validate_constraint_type :: "bound_field \<Rightarrow> comparison_constraint \<Rightarrow> query_error + unit" where
  "validate_constraint_type f c =
     (if is_ordering (c_operator c) \<and> bf_category f = CBOOLEAN
      then Inl (TypeCompatibilityError (OrderingOnBoolean (c_operator c) (b_full_path f)))
      else if c_value c = NullLiteral then
        raise_if (is_ordering (c_operator c))
          (TypeCompatibilityError (NullWithOrdering (c_operator c) (b_full_path f)))
      else check_category f ConstraintMismatch (c_value c))"

fun validate_element_type :: "bound_field \<Rightarrow> value_set_element \<Rightarrow> query_error + unit" where
  "validate_element_type f (ElemLiteral l) = check_category f ElementMismatch l"
| "validate_element_type f (ElemRange r) = validate_range_type f r"
| "validate_element_type f (ElemConstraint c) = validate_constraint_type f c"
| "validate_element_type f (ElemCompound cs) =
     (if bf_category f = CBOOLEAN
      then Inl (TypeCompatibilityError (CompoundOnBoolean (b_full_path f)))
      else forE (validate_constraint_type f) cs)"

definition validate_value_set_type :: "bound_field \<Rightarrow> value_set \<Rightarrow> query_error + unit" where
  "validate_value_set_type f vs = forE (validate_element_type f) (elements vs)"

definition validate_null_operand :: "bound_field \<Rightarrow> field_operator \<Rightarrow> query_error + unit" where
  "validate_null_operand f op =
     (case op of
        StringOp s \<Rightarrow> Inl (TypeCompatibilityError (NullWithStringOperator s))
      | Comparison c \<Rightarrow>
          raise_if (is_ordering c) (TypeCompatibilityError (NullWithOrdering c (b_full_path f))))"

definition validate_string_operator :: "bound_field \<Rightarrow> string_operator \<Rightarrow> operand \<Rightarrow> query_error + unit" where
  "validate_string_operator f s v =
     (if bf_category f \<noteq> CSTRING
      then Inl (TypeCompatibilityError (StringOperatorOnField s (b_full_path f)))
      else case v of
        OperandSet vs \<Rightarrow> validate_value_set_type f vs
      | OperandLiteral l \<Rightarrow>
          raise_if (\<not> is_string_literal l) (TypeCompatibilityError (StringOperatorNeedsString s))
      | OperandRange r \<Rightarrow> Inl (TypeCompatibilityError (StringOperatorNeedsString s)))"

definition validate_comparison :: "bound_field \<Rightarrow> comparison_operator \<Rightarrow> operand \<Rightarrow> query_error + unit" where
  "validate_comparison f c v =
     (if is_ordering c \<and> bf_category f = CBOOLEAN
      then Inl (TypeCompatibilityError (OrderingOnBoolean c (b_full_path f)))
      else case v of
        OperandRange r \<Rightarrow> validate_range_type f r
      | OperandSet vs \<Rightarrow> validate_value_set_type f vs
      | OperandLiteral l \<Rightarrow> check_category f OperandMismatch l)"

definition validate_field_operator_and_operand ::
    "bound_field \<Rightarrow> field_operator \<Rightarrow> operand \<Rightarrow> query_error + unit" where
  "validate_field_operator_and_operand f op v =
     (if v = OperandLiteral NullLiteral then validate_null_operand f op
      else if is_nested (bf_path f) then Inr ()
      else if bf_category f = CUNKNOWN
      then Inl (TypeCompatibilityError (UnsupportedComparisonType (b_full_path f)))
      else case op of
        StringOp s \<Rightarrow> validate_string_operator f s v
      | Comparison c \<Rightarrow> validate_comparison f c v)"

definition validate_assignment_value :: "bound_field \<Rightarrow> literal \<Rightarrow> query_error + unit" where
  "validate_assignment_value f v =
     (if v = NullLiteral then
        raise_if (\<not> bf_nullable f) (TypeCompatibilityError (NullToNonNullable (b_full_path f)))
      else if bf_category f = CUNKNOWN
      then Inl (TypeCompatibilityError (UnsupportedMutationType (b_full_path f)))
      else raise_if (literal_category v \<noteq> Some (bf_category f))
             (TypeCompatibilityError (AssignmentMismatch (b_full_path f))))"

section \<open>The binder\<close>

definition bound_field_of :: "field_path \<Rightarrow> field_schema \<Rightarrow> bound_field" where
  "bound_field_of fp f =
     \<lparr>bf_path = fp, bf_data_type = fs_data_type f, bf_category = to_logical_category (fs_data_type f),
      bf_native = fs_native f, bf_nullable = fs_nullable f, bf_primary_key = fs_primary_key f\<rparr>"

definition bind_field :: "entity_schema \<Rightarrow> field_path \<Rightarrow> query_error + bound_field" where
  "bind_field e fp = bindE (resolve_field_path fp e) (\<lambda>f. Inr (bound_field_of fp f))"

definition bind_selection :: "entity_schema \<Rightarrow> field_selection \<Rightarrow> query_error + bound_selection" where
  "bind_selection e sel =
     bindE (bind_field e (sel_path sel)) (\<lambda>f. Inr (BoundSelection f (sel_alias sel)))"

definition bind_assignment :: "entity_schema \<Rightarrow> mutation_assignment \<Rightarrow> query_error + bound_assignment" where
  "bind_assignment e a =
     bindE (bind_field e (ma_field a)) (\<lambda>f.
     bindE (validate_assignment_value f (ma_value a)) (\<lambda>_. Inr (BoundAssignment f (ma_value a))))"

definition bind_record :: "entity_schema \<Rightarrow> create_record \<Rightarrow> query_error + bound_record" where
  "bind_record e r = bindE (mapE (bind_assignment e) (cr_assignments r)) (\<lambda>as. Inr (BoundRecord as))"

fun bind_expression :: "entity_schema \<Rightarrow> expression \<Rightarrow> query_error + bound_expression" where
  "bind_expression e (FieldExpression fp op v) =
     bindE (bind_field e fp) (\<lambda>f.
     bindE (validate_field_operator_and_operand f op v) (\<lambda>_. Inr (BoundField f op v)))"
| "bind_expression e (NegationExpression x) =
     bindE (bind_expression e x) (\<lambda>b. Inr (BoundNegation b))"
| "bind_expression e (LogicalExpression op l r) =
     bindE (bind_expression e l) (\<lambda>bl. bindE (bind_expression e r) (\<lambda>br. Inr (BoundLogical op bl br)))"

definition bind_sort :: "entity_schema \<Rightarrow> sort_clause \<Rightarrow> query_error + bound_sort" where
  "bind_sort e s = bindE (bind_field e (sc_field s)) (\<lambda>f. Inr (BoundSort f (sc_direction s)))"

definition bind_ranking :: "entity_schema \<Rightarrow> ranking_clause \<Rightarrow> query_error + bound_ranking" where
  "bind_ranking e r =
     bindE (bind_field e (rc_field r)) (\<lambda>f. Inr (BoundRanking (rc_direction r) (rc_count r) f))"

definition optionE :: "('a \<Rightarrow> 'e + 'b) \<Rightarrow> 'a option \<Rightarrow> 'e + 'b option" where
  "optionE f x = (case x of None \<Rightarrow> Inr None | Some y \<Rightarrow> bindE (f y) (\<lambda>z. Inr (Some z)))"

text \<open>The records that a CREATE binds.\<close>

definition records_to_bind :: "query_ir \<Rightarrow> create_record list" where
  "records_to_bind ir =
     (if operation ir \<noteq> CREATE then []
      else if records ir \<noteq> [] then records ir
      else if assignments ir \<noteq> [] then [CreateRecord (assignments ir)] else [])"

definition bind_entity :: "entity_schema \<Rightarrow> bound_entity" where
  "bind_entity e =
     \<lparr>be_name = es_name e, be_namespace = es_namespace e, be_entity_type = es_entity_type e,
      be_comment = es_comment e,
      be_primary_key = (if es_primary_key e \<noteq> [] then es_primary_key e
                        else map fs_name (filter fs_primary_key (es_fields e)))\<rparr>"

definition bind_altrql :: "query_ir \<Rightarrow> source_schema \<Rightarrow> query_error + bound_ir" where
  "bind_altrql ir s =
     bindE (resolve_entity (entity ir) s) (\<lambda>e.
     bindE (mapE (bind_selection e) (projection ir)) (\<lambda>sels.
     bindE (mapE (bind_record e) (records_to_bind ir)) (\<lambda>recs.
     bindE (mapE (bind_assignment e) (if operation ir = UPDATE then assignments ir else [])) (\<lambda>as.
     bindE (optionE (bind_expression e) (where_clause ir)) (\<lambda>w.
     bindE (mapE (bind_sort e) (sort_clauses ir)) (\<lambda>scs.
     bindE (optionE (bind_ranking e) (ranking ir)) (\<lambda>rk.
     Inr \<lparr>b_operation = operation ir, b_entity = bind_entity e, b_projection = sels, b_where = w,
          b_assignments = as, b_records = recs, b_sort = scs, b_ranking = rk, b_limit = limit ir,
          b_offset = offset ir, b_source_id = ss_source_id s, b_source_name = ss_source_name s\<rparr>)))))))"

section \<open>What the binder resolves\<close>

definition resolvable :: "entity_schema \<Rightarrow> field_path \<Rightarrow> bool" where
  "resolvable e fp \<longleftrightarrow>
     (\<exists>f \<in> set (es_fields e). fs_name f = full_path fp \<or> (is_nested fp \<and> fs_name f = root fp))"

text \<open>A bound field carries the metadata of a field of the schema that its path names.\<close>

definition annotated :: "entity_schema \<Rightarrow> bound_field \<Rightarrow> bool" where
  "annotated e bf \<longleftrightarrow>
     (\<exists>f \<in> set (es_fields e). bf = bound_field_of (bf_path bf) f \<and>
        (fs_name f = full_path (bf_path bf) \<or> (is_nested (bf_path bf) \<and> fs_name f = root (bf_path bf))))"

lemma get_field_None: "get_field e n = None \<longleftrightarrow> (\<forall>f \<in> set (es_fields e). fs_name f \<noteq> n)"
  by (auto simp: get_field_def find_None_iff)

lemma single_segment: "length (segments fp) = Suc 0 \<longleftrightarrow> \<not> is_nested fp"
  by (cases fp) (simp add: is_nested_def)

lemma resolve_field_path_cases:
  "resolve_field_path fp e = Inr f \<Longrightarrow>
     f \<in> set (es_fields e) \<and> (fs_name f = full_path fp \<or> (is_nested fp \<and> fs_name f = root fp))"
proof (cases "is_nested fp")
  case False
  assume "resolve_field_path fp e = Inr f"
  moreover obtain r where "fp = FieldPath r []" using False by (cases fp; cases "nested fp") auto
  ultimately show ?thesis
    by (auto simp: resolve_field_path_def split: option.splits dest: get_field_name)
next
  case True
  assume "resolve_field_path fp e = Inr f"
  with True show ?thesis
    by (auto simp: resolve_field_path_def single_segment split: option.splits if_splits dest: get_field_name)
qed

lemma resolve_field_path_iff: "(\<exists>f. resolve_field_path fp e = Inr f) \<longleftrightarrow> resolvable e fp"
proof
  assume "\<exists>f. resolve_field_path fp e = Inr f"
  then show "resolvable e fp" unfolding resolvable_def using resolve_field_path_cases by blast
next
  assume r: "resolvable e fp"
  show "\<exists>f. resolve_field_path fp e = Inr f"
  proof (cases "is_nested fp")
    case False
    moreover obtain x where "fp = FieldPath x []" using False by (cases fp; cases "nested fp") auto
    ultimately show ?thesis
      using r get_field_None [of e "root fp"]
      by (cases "get_field e (root fp)") (auto simp: resolve_field_path_def resolvable_def)
  next
    case True
    then show ?thesis
      using r get_field_None [of e "root fp"] get_field_None [of e "full_path fp"]
      by (cases "get_field e (full_path fp)"; cases "get_field e (root fp)")
        (auto simp: resolve_field_path_def single_segment resolvable_def)
  qed
qed

lemma bind_field_facts:
  assumes "bind_field e fp = Inr bf"
  shows "bf_path bf = fp" "annotated e bf"
proof -
  obtain f where f: "resolve_field_path fp e = Inr f" "bf = bound_field_of fp f"
    using assms by (auto simp: bind_field_def bindE_Inr_iff)
  then show "bf_path bf = fp" by (simp add: bound_field_of_def)
  with f resolve_field_path_cases [OF f(1)] show "annotated e bf" by (auto simp: annotated_def)
qed

lemma bind_field_iff: "(\<exists>bf. bind_field e fp = Inr bf) \<longleftrightarrow> resolvable e fp"
  by (auto simp: bind_field_def bindE_Inr_iff simp flip: resolve_field_path_iff)

section \<open>Back to the query\<close>

definition erase_selection :: "bound_selection \<Rightarrow> field_selection" where
  "erase_selection s = FieldSelection (bf_path (bs_field s)) (bs_alias s)"

definition erase_assignment :: "bound_assignment \<Rightarrow> mutation_assignment" where
  "erase_assignment a = MutationAssignment (bf_path (ba_field a)) (ba_value a)"

definition erase_record :: "bound_record \<Rightarrow> create_record" where
  "erase_record r = CreateRecord (map erase_assignment (br_assignments r))"

fun erase_expression :: "bound_expression \<Rightarrow> expression" where
  "erase_expression (BoundField f op v) = FieldExpression (bf_path f) op v"
| "erase_expression (BoundNegation e) = NegationExpression (erase_expression e)"
| "erase_expression (BoundLogical op l r) = LogicalExpression op (erase_expression l) (erase_expression r)"

definition erase_ir :: "bound_ir \<Rightarrow> query_ir" where
  "erase_ir b =
     \<lparr>operation = b_operation b, entity = be_name (b_entity b),
      projection = map erase_selection (b_projection b),
      where_clause = map_option erase_expression (b_where b),
      assignments = map erase_assignment (b_assignments b),
      records = map erase_record (b_records b),
      sort_clauses = map (\<lambda>s. SortClause (bf_path (bsc_field s)) (bsc_direction s)) (b_sort b),
      ranking = map_option (\<lambda>r. RankingClause (brk_direction r) (brk_count r) (bf_path (brk_field r))) (b_ranking b),
      limit = b_limit b, offset = b_offset b\<rparr>"

fun expression_fields :: "bound_expression \<Rightarrow> bound_field list" where
  "expression_fields (BoundField f op v) = [f]"
| "expression_fields (BoundNegation e) = expression_fields e"
| "expression_fields (BoundLogical op l r) = expression_fields l @ expression_fields r"

text \<open>Every bound field of a bound query.\<close>

definition bound_fields :: "bound_ir \<Rightarrow> bound_field list" where
  "bound_fields b =
     map bs_field (b_projection b) @ map ba_field (concat (map br_assignments (b_records b))) @
     map ba_field (b_assignments b) @ (case b_where b of None \<Rightarrow> [] | Some e \<Rightarrow> expression_fields e) @
     map bsc_field (b_sort b) @ (case b_ranking b of None \<Rightarrow> [] | Some r \<Rightarrow> [brk_field r])"

lemma mapE_map:
  assumes "mapE f xs = Inr ys" "\<And>x y. f x = Inr y \<Longrightarrow> g y = x"
  shows "map g ys = xs"
  using assms(1) unfolding mapE_Inr_iff by (induction rule: list_all2_induct) (simp_all add: assms(2))

lemma mapE_mem: "mapE f xs = Inr ys \<Longrightarrow> y \<in> set ys \<Longrightarrow> \<exists>x \<in> set xs. f x = Inr y"
  unfolding mapE_Inr_iff by (induction rule: list_all2_induct) auto

lemma bind_selection_facts:
  "bind_selection e sel = Inr b \<Longrightarrow> erase_selection b = sel \<and> annotated e (bs_field b)"
  by (cases sel) (auto simp: bind_selection_def bindE_Inr_iff erase_selection_def bind_field_facts)

lemma bind_assignment_facts:
  "bind_assignment e a = Inr b \<Longrightarrow> erase_assignment b = a \<and> annotated e (ba_field b) \<and>
     validate_assignment_value (ba_field b) (ba_value b) = Inr ()"
  by (cases a) (auto simp: bind_assignment_def bindE_Inr_iff erase_assignment_def bind_field_facts)

lemma bind_assignments_facts:
  assumes "mapE (bind_assignment e) as = Inr bs"
  shows "map erase_assignment bs = as" "\<forall>b \<in> set bs. annotated e (ba_field b)"
proof -
  show "map erase_assignment bs = as"
    by (rule mapE_map [OF assms]) (simp add: bind_assignment_facts)
  show "\<forall>b \<in> set bs. annotated e (ba_field b)"
    using mapE_mem [OF assms] bind_assignment_facts by blast
qed

lemma bind_record_facts:
  "bind_record e r = Inr b \<Longrightarrow> erase_record b = r \<and> (\<forall>a \<in> set (br_assignments b). annotated e (ba_field a))"
  by (cases r) (auto simp: bind_record_def bindE_Inr_iff erase_record_def bind_assignments_facts)

lemma bind_expression_facts:
  "bind_expression e x = Inr b \<Longrightarrow> erase_expression b = x \<and> (\<forall>f \<in> set (expression_fields b). annotated e f)"
  by (induction x arbitrary: b) (auto simp: bindE_Inr_iff bind_field_facts)

lemma bind_sort_facts:
  "bind_sort e s = Inr b \<Longrightarrow> SortClause (bf_path (bsc_field b)) (bsc_direction b) = s \<and> annotated e (bsc_field b)"
  by (cases s) (auto simp: bind_sort_def bindE_Inr_iff bind_field_facts)

lemma bind_ranking_facts:
  "bind_ranking e r = Inr b \<Longrightarrow>
     RankingClause (brk_direction b) (brk_count b) (bf_path (brk_field b)) = r \<and> annotated e (brk_field b)"
  by (cases r) (auto simp: bind_ranking_def bindE_Inr_iff bind_field_facts)

lemma optionE_Inr_iff:
  "optionE f x = Inr y \<longleftrightarrow> (x = None \<and> y = None) \<or> (\<exists>a b. x = Some a \<and> y = Some b \<and> f a = Inr b)"
  by (cases x) (auto simp: optionE_def bindE_Inr_iff)

lemma resolve_entity_facts:
  "resolve_entity n s = Inr e \<Longrightarrow> e \<in> set (ss_entities s) \<and> es_name e = n"
  by (auto simp: resolve_entity_def split: option.splits dest: find_SomeD)

text \<open>Everything a successful \<open>bind_altrql\<close> has done.\<close>

lemma bind_altrql_cases:
  assumes "bind_altrql ir s = Inr b"
  obtains e where "resolve_entity (entity ir) s = Inr e" "b_entity b = bind_entity e"
    "mapE (bind_selection e) (projection ir) = Inr (b_projection b)"
    "mapE (bind_record e) (records_to_bind ir) = Inr (b_records b)"
    "mapE (bind_assignment e) (if operation ir = UPDATE then assignments ir else []) = Inr (b_assignments b)"
    "optionE (bind_expression e) (where_clause ir) = Inr (b_where b)"
    "mapE (bind_sort e) (sort_clauses ir) = Inr (b_sort b)"
    "optionE (bind_ranking e) (ranking ir) = Inr (b_ranking b)"
    "b_operation b = operation ir" "b_limit b = limit ir" "b_offset b = offset ir"
    "b_source_id b = ss_source_id s" "b_source_name b = ss_source_name s"
  using assms unfolding bind_altrql_def bindE_Inr_iff by fastforce

text \<open>The operation has no payload that the binder drops.\<close>

definition bindable_shape :: "query_ir \<Rightarrow> bool" where
  "bindable_shape ir \<longleftrightarrow>
     (assignments ir = [] \<or> operation ir = UPDATE) \<and> (records ir = [] \<or> operation ir = CREATE)"

lemma wf_ir_bindable: "wf_ir ir \<Longrightarrow> bindable_shape ir"
proof (cases "operation ir")
  case CREATE
  assume "wf_ir ir"
  then have "ir = (bare_ir CREATE (entity ir))\<lparr>records := records ir\<rparr>" using CREATE by (simp add: wf_ir_def)
  then have "assignments ir = []" by (metis bare_ir_def query_ir.select_convs(5) query_ir.update_convs(6) query_ir.surjective)
  with CREATE show ?thesis by (simp add: bindable_shape_def)
next
  case UPDATE
  assume "wf_ir ir"
  then have "ir = (bare_ir UPDATE (entity ir))\<lparr>assignments := assignments ir, where_clause := where_clause ir\<rparr>"
    using UPDATE by (simp add: wf_ir_def)
  then have "records ir = records ((bare_ir UPDATE (entity ir))\<lparr>assignments := assignments ir, where_clause := where_clause ir\<rparr>)"
    by (rule arg_cong)
  with UPDATE show ?thesis by (simp add: bindable_shape_def bare_ir_def)
next
  case DELETE
  assume "wf_ir ir"
  then have "ir = (bare_ir DELETE (entity ir))\<lparr>where_clause := where_clause ir\<rparr>" using DELETE by (simp add: wf_ir_def)
  then have "records ir = records ((bare_ir DELETE (entity ir))\<lparr>where_clause := where_clause ir\<rparr>)"
    "assignments ir = assignments ((bare_ir DELETE (entity ir))\<lparr>where_clause := where_clause ir\<rparr>)"
    by (auto intro: arg_cong)
  with DELETE show ?thesis by (simp add: bindable_shape_def bare_ir_def)
next
  case READ
  assume "wf_ir ir"
  with READ show ?thesis by (simp add: wf_ir_def bindable_shape_def)
qed

lemma bind_erase_lemma:
  assumes "bind_altrql ir s = Inr b" "bindable_shape ir"
  shows "erase_ir b = ir"
proof -
  obtain e where e: "resolve_entity (entity ir) s = Inr e" "b_entity b = bind_entity e"
    and sels: "mapE (bind_selection e) (projection ir) = Inr (b_projection b)"
    and recs: "mapE (bind_record e) (records_to_bind ir) = Inr (b_records b)"
    and as: "mapE (bind_assignment e) (if operation ir = UPDATE then assignments ir else []) = Inr (b_assignments b)"
    and w: "optionE (bind_expression e) (where_clause ir) = Inr (b_where b)"
    and scs: "mapE (bind_sort e) (sort_clauses ir) = Inr (b_sort b)"
    and rk: "optionE (bind_ranking e) (ranking ir) = Inr (b_ranking b)"
    and simple: "b_operation b = operation ir" "b_limit b = limit ir" "b_offset b = offset ir"
    using assms(1) by (rule bind_altrql_cases)
  have "map erase_selection (b_projection b) = projection ir"
    by (rule mapE_map [OF sels]) (simp add: bind_selection_facts)
  moreover have "map erase_record (b_records b) = records ir"
    using assms(2) by (subst mapE_map [OF recs]) (auto simp: bind_record_facts records_to_bind_def bindable_shape_def)
  moreover have "map erase_assignment (b_assignments b) = assignments ir"
    using bind_assignments_facts(1) [OF as] assms(2) by (auto simp: bindable_shape_def split: if_splits)
  moreover have "map_option erase_expression (b_where b) = where_clause ir"
    using w by (auto simp: optionE_Inr_iff bind_expression_facts)
  moreover have "map (\<lambda>s. SortClause (bf_path (bsc_field s)) (bsc_direction s)) (b_sort b) = sort_clauses ir"
    by (rule mapE_map [OF scs]) (simp add: bind_sort_facts)
  moreover have "map_option (\<lambda>r. RankingClause (brk_direction r) (brk_count r) (bf_path (brk_field r))) (b_ranking b) = ranking ir"
    using rk by (auto simp: optionE_Inr_iff bind_ranking_facts)
  moreover have "be_name (b_entity b) = entity ir"
    using e resolve_entity_facts [OF e(1)] by (simp add: bind_entity_def)
  ultimately show ?thesis by (simp add: erase_ir_def simple)
qed

section \<open>The type rules\<close>

text \<open>
  The literals, ranges and comparisons of an operand, for a statement of the type rules that does not
  follow the validator's tests.
\<close>

fun element_literals :: "value_set_element \<Rightarrow> literal list" where
  "element_literals (ElemLiteral l) = [l]"
| "element_literals (ElemRange r) = []"
| "element_literals (ElemConstraint c) = [c_value c]"
| "element_literals (ElemCompound cs) = map c_value cs"

fun element_constraints :: "value_set_element \<Rightarrow> comparison_constraint list" where
  "element_constraints (ElemConstraint c) = [c]"
| "element_constraints (ElemCompound cs) = cs"
| "element_constraints _ = []"

fun operand_elements :: "operand \<Rightarrow> value_set_element list" where
  "operand_elements (OperandLiteral l) = [ElemLiteral l]"
| "operand_elements (OperandRange r) = [ElemRange r]"
| "operand_elements (OperandSet vs) = elements vs"

fun is_compound :: "value_set_element \<Rightarrow> bool" where
  "is_compound (ElemCompound cs) \<longleftrightarrow> True"
| "is_compound _ \<longleftrightarrow> False"

definition fits :: "type_category \<Rightarrow> literal \<Rightarrow> bool" where
  "fits c l \<longleftrightarrow> l = NullLiteral \<or> literal_category l = Some c"

fun bounds_fit :: "type_category \<Rightarrow> value_set_element \<Rightarrow> bool" where
  "bounds_fit c (ElemRange r) \<longleftrightarrow>
     literal_category (r_start r) = Some c \<and> literal_category (r_end r) = Some c"
| "bounds_fit c _ \<longleftrightarrow> True"

definition elements_typed :: "type_category \<Rightarrow> value_set_element list \<Rightarrow> bool" where
  "elements_typed c els \<longleftrightarrow>
     (\<forall>el \<in> set els. (\<forall>l \<in> set (element_literals el). fits c l) \<and> bounds_fit c el \<and>
        (\<forall>k \<in> set (element_constraints el). is_ordering (c_operator k) \<longrightarrow> c_value k \<noteq> NullLiteral)) \<and>
     (c = CBOOLEAN \<longrightarrow> (\<forall>el \<in> set els. (\<forall>r. el \<noteq> ElemRange r) \<and> \<not> is_compound el \<and>
        (\<forall>k \<in> set (element_constraints el). \<not> is_ordering (c_operator k))))"

fun operator_typed :: "type_category \<Rightarrow> field_operator \<Rightarrow> operand \<Rightarrow> bool" where
  "operator_typed c (Comparison op) v \<longleftrightarrow> \<not> (is_ordering op \<and> c = CBOOLEAN)"
| "operator_typed c (StringOp s) (OperandLiteral l) \<longleftrightarrow> c = CSTRING \<and> is_string_literal l"
| "operator_typed c (StringOp s) (OperandSet vs) \<longleftrightarrow> c = CSTRING"
| "operator_typed c (StringOp s) (OperandRange r) \<longleftrightarrow> False"

definition well_typed :: "bound_field \<Rightarrow> field_operator \<Rightarrow> operand \<Rightarrow> bool" where
  "well_typed f op v \<longleftrightarrow>
     (if v = OperandLiteral NullLiteral then op = Comparison OpEQ \<or> op = Comparison OpNEQ
      else is_nested (bf_path f) \<or>
        (bf_category f \<noteq> CUNKNOWN \<and> operator_typed (bf_category f) op v \<and>
         elements_typed (bf_category f) (operand_elements v)))"

lemma null_category: "literal_category l = None \<longleftrightarrow> l = NullLiteral"
  by (cases l) auto

lemma check_category_iff: "check_category f m l = Inr () \<longleftrightarrow> fits (bf_category f) l"
  using null_category [of l] by (auto simp: check_category_def fits_def raise_if_Inr_iff split: option.split)

lemma validate_range_type_iff:
  assumes "bf_category f \<noteq> CUNKNOWN"
  shows "validate_range_type f r = Inr () \<longleftrightarrow> bf_category f \<noteq> CBOOLEAN \<and> bounds_fit (bf_category f) (ElemRange r)"
  using assms by (cases "bf_category f") (auto simp: validate_range_type_def Let_def raise_if_Inr_iff)

lemma validate_constraint_type_iff:
  "validate_constraint_type f c = Inr () \<longleftrightarrow>
     fits (bf_category f) (c_value c) \<and>
     (is_ordering (c_operator c) \<longrightarrow> c_value c \<noteq> NullLiteral \<and> bf_category f \<noteq> CBOOLEAN)"
  by (auto simp: validate_constraint_type_def raise_if_Inr_iff check_category_iff fits_def)

lemma validate_element_type_iff:
  assumes "bf_category f \<noteq> CUNKNOWN"
  shows "validate_element_type f el = Inr () \<longleftrightarrow> elements_typed (bf_category f) [el]"
  using assms
  by (cases el) (auto simp: elements_typed_def check_category_iff validate_range_type_iff
      validate_constraint_type_iff forE_Inr_iff)

lemma elements_typed_all: "elements_typed c els \<longleftrightarrow> (\<forall>el \<in> set els. elements_typed c [el])"
  by (auto simp: elements_typed_def)

lemma validate_set_type_iff:
  assumes "bf_category f \<noteq> CUNKNOWN"
  shows "validate_value_set_type f vs = Inr () \<longleftrightarrow> elements_typed (bf_category f) (elements vs)"
  unfolding elements_typed_all [of _ "elements vs"]
  by (simp add: validate_value_set_type_def forE_Inr_iff validate_element_type_iff [OF assms])

lemma string_literal_fits: "is_string_literal l \<Longrightarrow> elements_typed CSTRING [ElemLiteral l]"
  by (cases l) (auto simp: elements_typed_def fits_def)

lemma operand_type_iff:
  "validate_field_operator_and_operand f op v = Inr () \<longleftrightarrow> well_typed f op v"
proof (cases "v = OperandLiteral NullLiteral \<or> is_nested (bf_path f) \<or> bf_category f = CUNKNOWN")
  case True
  then show ?thesis
    by (cases op) (auto simp: validate_field_operator_and_operand_def validate_null_operand_def
        well_typed_def raise_if_Inr_iff is_ordering_def intro: comparison_operator.exhaust)
next
  case False
  then have "bf_category f \<noteq> CUNKNOWN" by simp
  note iffs = validate_set_type_iff [OF this] validate_range_type_iff [OF this] check_category_iff
  show ?thesis
  proof (cases op)
    case (Comparison c)
    with False show ?thesis
      by (cases v) (auto simp: validate_field_operator_and_operand_def well_typed_def
          validate_comparison_def iffs elements_typed_def)
  next
    case (StringOp s)
    with False show ?thesis
      by (cases v) (auto simp: validate_field_operator_and_operand_def well_typed_def
          validate_string_operator_def iffs raise_if_Inr_iff string_literal_fits)
  qed
qed

definition assignable :: "bound_field \<Rightarrow> literal \<Rightarrow> bool" where
  "assignable f v \<longleftrightarrow>
     (if v = NullLiteral then bf_nullable f
      else bf_category f \<noteq> CUNKNOWN \<and> literal_category v = Some (bf_category f))"

lemma assignment_type_iff: "validate_assignment_value f v = Inr () \<longleftrightarrow> assignable f v"
  by (auto simp: validate_assignment_value_def assignable_def raise_if_Inr_iff)

fun expression_typed :: "entity_schema \<Rightarrow> expression \<Rightarrow> bool" where
  "expression_typed e (FieldExpression fp op v) \<longleftrightarrow> (\<exists>f. bind_field e fp = Inr f \<and> well_typed f op v)"
| "expression_typed e (LogicalExpression op l r) \<longleftrightarrow> expression_typed e l \<and> expression_typed e r"
| "expression_typed e (NegationExpression x) \<longleftrightarrow> expression_typed e x"

definition assignment_typed :: "entity_schema \<Rightarrow> mutation_assignment \<Rightarrow> bool" where
  "assignment_typed e a \<longleftrightarrow> (\<exists>f. bind_field e (ma_field a) = Inr f \<and> assignable f (ma_value a))"

definition query_typed :: "entity_schema \<Rightarrow> query_ir \<Rightarrow> bool" where
  "query_typed e ir \<longleftrightarrow>
     (\<forall>sel \<in> set (projection ir). resolvable e (sel_path sel)) \<and>
     (\<forall>r \<in> set (records_to_bind ir). \<forall>a \<in> set (cr_assignments r). assignment_typed e a) \<and>
     (operation ir = UPDATE \<longrightarrow> (\<forall>a \<in> set (assignments ir). assignment_typed e a)) \<and>
     (\<forall>x. where_clause ir = Some x \<longrightarrow> expression_typed e x) \<and>
     (\<forall>sc \<in> set (sort_clauses ir). resolvable e (sc_field sc)) \<and>
     (\<forall>r. ranking ir = Some r \<longrightarrow> resolvable e (rc_field r))"

lemma mapE_succeeds: "(\<exists>ys. mapE f xs = Inr ys) \<longleftrightarrow> (\<forall>x \<in> set xs. \<exists>y. f x = Inr y)"
  by (induction xs) (auto simp: bindE_Inr_iff)

lemma optionE_succeeds: "(\<exists>y. optionE f x = Inr y) \<longleftrightarrow> (\<forall>a. x = Some a \<longrightarrow> (\<exists>b. f a = Inr b))"
  by (cases x) (auto simp: optionE_Inr_iff)

lemma bind_assignment_succeeds: "(\<exists>b. bind_assignment e a = Inr b) \<longleftrightarrow> assignment_typed e a"
  by (auto simp: bind_assignment_def bindE_Inr_iff assignment_typed_def assignment_type_iff)

lemma bind_expression_succeeds: "(\<exists>b. bind_expression e x = Inr b) \<longleftrightarrow> expression_typed e x"
  by (induction x) (auto simp: bindE_Inr_iff operand_type_iff)

lemma bind_succeeds_simple:
  "(\<exists>b. bind_selection e sel = Inr b) \<longleftrightarrow> resolvable e (sel_path sel)"
  "(\<exists>b. bind_sort e sc = Inr b) \<longleftrightarrow> resolvable e (sc_field sc)"
  "(\<exists>b. bind_ranking e r = Inr b) \<longleftrightarrow> resolvable e (rc_field r)"
  "(\<exists>b. bind_record e rc = Inr b) \<longleftrightarrow> (\<forall>a \<in> set (cr_assignments rc). assignment_typed e a)"
  by (simp_all add: bind_selection_def bind_sort_def bind_ranking_def bind_record_def bindE_Inr_iff
      bind_field_iff [symmetric] mapE_succeeds bind_assignment_succeeds)

lemma bind_altrql_succeeds:
  "(\<exists>b. bind_altrql ir s = Inr b) \<longleftrightarrow> (\<exists>e. resolve_entity (entity ir) s = Inr e \<and> query_typed e ir)"
proof -
  have "(\<exists>b. bind_altrql ir s = Inr b) \<longleftrightarrow>
    (\<exists>e. resolve_entity (entity ir) s = Inr e \<and>
      (\<exists>y. mapE (bind_selection e) (projection ir) = Inr y) \<and>
      (\<exists>y. mapE (bind_record e) (records_to_bind ir) = Inr y) \<and>
      (\<exists>y. mapE (bind_assignment e) (if operation ir = UPDATE then assignments ir else []) = Inr y) \<and>
      (\<exists>y. optionE (bind_expression e) (where_clause ir) = Inr y) \<and>
      (\<exists>y. mapE (bind_sort e) (sort_clauses ir) = Inr y) \<and>
      (\<exists>y. optionE (bind_ranking e) (ranking ir) = Inr y))"
    unfolding bind_altrql_def bindE_Inr_iff by blast
  also have "\<dots> \<longleftrightarrow> (\<exists>e. resolve_entity (entity ir) s = Inr e \<and> query_typed e ir)"
    unfolding mapE_succeeds optionE_succeeds bind_succeeds_simple bind_assignment_succeeds
      bind_expression_succeeds query_typed_def by auto
  finally show ?thesis .
qed

section \<open>A sample schema\<close>

definition sample_field :: "string \<Rightarrow> standard_data_type \<Rightarrow> bool \<Rightarrow> field_schema" where
  "sample_field n t nullable =
     \<lparr>fs_name = n, fs_data_type = t, fs_native = ''native'', fs_nullable = nullable,
      fs_primary_key = (n = ''id''), fs_default = None, fs_position = 0, fs_comment = None\<rparr>"

definition sample_schema :: source_schema where
  "sample_schema =
     \<lparr>ss_source_id = ''s1'', ss_source_name = ''db'', ss_version = ''1.0.0'',
      ss_entities =
        [\<lparr>es_name = ''users'', es_namespace = ''public'', es_entity_type = ''TABLE'',
          es_fields = [sample_field ''id'' TINTEGER False, sample_field ''name'' TSTRING True,
                       sample_field ''age'' TINTEGER True],
          es_primary_key = [], es_constraints = [], es_comment = None\<rparr>]\<rparr>"

definition sample_text :: string where
  "sample_text = ''UPDATE users (age: NULL) WHERE { id != {3, NULL} };''"

definition sample_ir :: query_ir where
  "sample_ir = (bare_ir UPDATE ''users'')
     \<lparr>assignments := [MutationAssignment (FieldPath ''age'' []) NullLiteral],
      where_clause := Some (FieldExpression (FieldPath ''id'' []) (Comparison OpNEQ)
        (OperandSet (ValueSet [ElemLiteral (IntegerLiteral 3), ElemLiteral NullLiteral])))\<rparr>"

definition sample_bound :: bound_ir where
  "sample_bound = projr (bind_altrql sample_ir sample_schema)"

lemma sample_parses: "parse_altrql sample_text = Inr sample_ir"
  by code_simp

lemma sample_binds: "bind_altrql sample_ir sample_schema = Inr sample_bound"
proof -
  have "isl (bind_altrql sample_ir sample_schema) = False" by code_simp
  then show ?thesis unfolding sample_bound_def by simp
qed

section \<open>Properties\<close>

text \<open>
  Binding loses nothing: for every query that the front end produced, removing the annotations of
  the bound query gives the query back: entity, projection, conditions, payloads, ordering and limits.
\<close>

theorem bind_erase:
  assumes "parse_altrql q = Inr ir" "bind_altrql ir s = Inr b"
  shows "erase_ir b = ir \<and> b_source_id b = ss_source_id s"
proof -
  obtain ts where "parse ts = Inr ir" using assms(1) by (auto simp: parse_altrql_unfold bindE_Inr_iff)
  then have "bindable_shape ir" by (intro wf_ir_bindable parse_wf_ir)
  with assms(2) show ?thesis by (auto simp: bind_erase_lemma elim: bind_altrql_cases)
qed

lemma bind_erase_witness: "erase_ir sample_bound = sample_ir"
  using bind_erase [OF sample_parses sample_binds] by simp

text \<open>
  Every field of a bound query comes from the schema: the bound entity has the name the query asked
  for and is one of the source's entities, and each bound field carries the type, nullability and key
  flag of a field of that entity whose name is the path (or, for a nested path, its first segment).
\<close>

theorem bind_fields_from_schema:
  assumes "bind_altrql ir s = Inr b"
  shows "\<exists>e \<in> set (ss_entities s). es_name e = entity ir \<and> b_entity b = bind_entity e \<and>
    list_all (annotated e) (bound_fields b)"
proof -
  obtain e where e: "resolve_entity (entity ir) s = Inr e" "b_entity b = bind_entity e"
    and sels: "mapE (bind_selection e) (projection ir) = Inr (b_projection b)"
    and recs: "mapE (bind_record e) (records_to_bind ir) = Inr (b_records b)"
    and as: "mapE (bind_assignment e) (if operation ir = UPDATE then assignments ir else []) = Inr (b_assignments b)"
    and w: "optionE (bind_expression e) (where_clause ir) = Inr (b_where b)"
    and scs: "mapE (bind_sort e) (sort_clauses ir) = Inr (b_sort b)"
    and rk: "optionE (bind_ranking e) (ranking ir) = Inr (b_ranking b)"
    using assms by (rule bind_altrql_cases)
  have "\<forall>x \<in> set (b_projection b). annotated e (bs_field x)"
    using mapE_mem [OF sels] bind_selection_facts by blast
  moreover have "\<forall>x \<in> set (b_records b). \<forall>a \<in> set (br_assignments x). annotated e (ba_field a)"
    using mapE_mem [OF recs] bind_record_facts by blast
  moreover have "\<forall>x \<in> set (b_assignments b). annotated e (ba_field x)"
    using bind_assignments_facts(2) [OF as] .
  moreover have "\<forall>x. b_where b = Some x \<longrightarrow> (\<forall>f \<in> set (expression_fields x). annotated e f)"
    using w bind_expression_facts by (auto simp: optionE_Inr_iff)
  moreover have "\<forall>x \<in> set (b_sort b). annotated e (bsc_field x)"
    using mapE_mem [OF scs] bind_sort_facts by blast
  moreover have "\<forall>x. b_ranking b = Some x \<longrightarrow> annotated e (brk_field x)"
    using rk bind_ranking_facts by (auto simp: optionE_Inr_iff)
  ultimately have "list_all (annotated e) (bound_fields b)"
    by (cases "b_where b"; cases "b_ranking b") (auto simp: bound_fields_def list_all_iff)
  with e resolve_entity_facts [OF e(1)] show ?thesis by blast
qed

lemma bind_fields_from_schema_witness:
  "list_all (annotated (hd (ss_entities sample_schema))) (bound_fields sample_bound) \<and>
   length (bound_fields sample_bound) = 2"
proof -
  have "ss_entities sample_schema = [hd (ss_entities sample_schema)]" by (simp add: sample_schema_def)
  then have "\<forall>e \<in> set (ss_entities sample_schema). e = hd (ss_entities sample_schema)"
    by (metis empty_iff list.set(1) set_ConsD)
  then have "list_all (annotated (hd (ss_entities sample_schema))) (bound_fields sample_bound)"
    using bind_fields_from_schema [OF sample_binds] by auto
  moreover have "length (bound_fields sample_bound) = 2"
    by code_simp
  ultimately show ?thesis by simp
qed

text \<open>
  C19. Binding succeeds exactly on the well typed queries: the entity exists, every path of every clause
  names a field, every condition obeys the type rules (NULL only with = and !=, literals and range
  bounds of the field's category, no ordering on booleans, string operators on string fields) and every
  assigned value has the column's category, NULL only where the column is nullable.
\<close>

theorem bind_iff_typed:
  "(\<exists>b. bind_altrql ir s = Inr b) \<longleftrightarrow> (\<exists>e. resolve_entity (entity ir) s = Inr e \<and> query_typed e ir)"
  by (rule bind_altrql_succeeds)

end
