(* ===== verification/Mongo_Data.thy ===== *)
theory Mongo_Data
  imports Lexer Ast
begin

text \<open>
  Calendar days, as Python's \<open>datetime\<close> has them, and the commands that the MongoDB lowerer
  (\<open>query_engine/lowering/mongodb.py\<close>) hands to the driver: values, tests of a field, filters, and the
  specification of a command, with one constructor per form of dict that the code builds.
\<close>

section \<open>Days\<close>

text \<open>A \<open>datetime.date\<close>: year, month, day, ordered as Python orders them.\<close>

datatype calendar_day = CalendarDay (cd_year: nat) (cd_month: nat) (cd_day: nat)

instantiation calendar_day :: linorder
begin

definition less_calendar_day :: "calendar_day \<Rightarrow> calendar_day \<Rightarrow> bool" where
  "less_calendar_day a b \<longleftrightarrow>
     cd_year a < cd_year b \<or> (cd_year a = cd_year b \<and>
       (cd_month a < cd_month b \<or> (cd_month a = cd_month b \<and> cd_day a < cd_day b)))"

definition less_eq_calendar_day :: "calendar_day \<Rightarrow> calendar_day \<Rightarrow> bool" where
  "less_eq_calendar_day a b \<longleftrightarrow> a < b \<or> a = b"

instance
  by standard (auto simp: less_calendar_day_def less_eq_calendar_day_def intro: calendar_day.expand)

end

definition valid_day :: "calendar_day \<Rightarrow> bool" where
  "valid_day d \<longleftrightarrow> 1 \<le> cd_year d \<and> cd_year d \<le> 9999 \<and> 1 \<le> cd_month d \<and> cd_month d \<le> 12 \<and>
     1 \<le> cd_day d \<and> cd_day d \<le> days_in_month (cd_year d) (cd_month d)"

definition day_of_text :: "string \<Rightarrow> calendar_day" where
  "day_of_text s = CalendarDay (decimal_val (take 4 s)) (decimal_val (take 2 (drop 5 s))) (decimal_val (drop 8 s))"

text \<open>\<open>+ timedelta(days=1)\<close>; the year 9999 ends the calendar with an \<open>OverflowError\<close>.\<close>

definition next_day :: "calendar_day \<Rightarrow> calendar_day option" where
  "next_day d =
     (if cd_day d < days_in_month (cd_year d) (cd_month d)
      then Some (CalendarDay (cd_year d) (cd_month d) (cd_day d + 1))
      else if cd_month d < 12 then Some (CalendarDay (cd_year d) (cd_month d + 1) 1)
      else if cd_year d < 9999 then Some (CalendarDay (cd_year d + 1) 1 1) else None)"

lemma day_after_less:
  "CalendarDay y m n \<le> CalendarDay y' m' n' \<longleftrightarrow>
     y < y' \<or> (y = y' \<and> (m < m' \<or> (m = m' \<and> n \<le> n')))"
  "CalendarDay y m n < CalendarDay y' m' n' \<longleftrightarrow>
     y < y' \<or> (y = y' \<and> (m < m' \<or> (m = m' \<and> n < n')))"
  by (auto simp: less_calendar_day_def less_eq_calendar_day_def)

lemma next_day_covers:
  assumes "valid_day d" "next_day d = Some e" "valid_day x"
  shows "d \<le> x \<and> x < e \<longleftrightarrow> x = d"
proof -
  obtain y m n y' m' n' where d: "d = CalendarDay y m n" and x: "x = CalendarDay y' m' n'"
    by (cases d; cases x)
  have v: "n \<le> days_in_month y m" "m \<le> 12" and v': "1 \<le> m'" "m' \<le> 12" "1 \<le> n'" "n' \<le> days_in_month y' m'"
    using assms(1,3) by (simp_all add: d x valid_day_def)
  have "x < e \<longleftrightarrow> y' < y \<or> (y' = y \<and> (m' < m \<or> (m' = m \<and> n' \<le> n)))"
  proof (cases "n < days_in_month y m")
    case True
    then have "e = CalendarDay y m (n + 1)" using assms(2) by (simp add: d next_day_def)
    then show ?thesis by (simp add: x day_after_less less_Suc_eq_le)
  next
    case False
    then have n: "y' = y \<Longrightarrow> m' = m \<Longrightarrow> n' \<le> n" using v v' by simp
    show ?thesis
    proof (cases "m < 12")
      case True
      then have "e = CalendarDay y (m + 1) 1" using assms(2) False by (simp add: d next_day_def)
      moreover have "m' < m + 1 \<longleftrightarrow> m' < m \<or> m' = m" by arith
      ultimately show ?thesis using n v'(3) by (simp add: x day_after_less) blast
    next
      case year: False
      then have "e = CalendarDay (y + 1) 1 1" using assms(2) False by (simp add: d next_day_def split: if_splits)
      then have "x < e \<longleftrightarrow> y' < y \<or> y' = y" using v'(1,3) by (simp add: x day_after_less less_Suc_eq)
      moreover have "m' < m \<or> m' = m" using v'(2) year by arith
      ultimately show ?thesis using n by blast
    qed
  qed
  moreover have "d \<le> x \<longleftrightarrow> y < y' \<or> (y = y' \<and> (m < m' \<or> (m = m' \<and> n \<le> n')))"
    by (simp only: d x day_after_less)
  moreover have "x = d \<longleftrightarrow> y' = y \<and> m' = m \<and> n' = n" by (simp add: d x)
  moreover have "n \<le> n' \<and> n' \<le> n \<longleftrightarrow> n' = n" by arith
  ultimately show ?thesis
    by (cases y y' rule: linorder_cases; cases m m' rule: linorder_cases) simp_all
qed

lemma next_day_valid: "valid_day d \<Longrightarrow> next_day d = Some e \<Longrightarrow> valid_day e"
proof -
  have "1 \<le> days_in_month y m" for y m by (simp add: days_in_month_def)
  then show "valid_day d \<Longrightarrow> next_day d = Some e \<Longrightarrow> valid_day e"
    by (cases d) (auto simp: valid_day_def next_day_def split: if_splits)
qed

section \<open>Filters\<close>

text \<open>
  \<open>MvDate s\<close> is \<open>datetime.date\<close>, \<open>MvDateTime s\<close> a \<open>datetime\<close> read from \<open>s\<close>, \<open>MvMidnight c\<close> the start of a
  day in UTC, \<open>MvToday\<close> and \<open>MvNow\<close> the clock when the query is lowered, \<open>MvTextOf el\<close> the text of an
  element whose \<open>str\<close> is not modelled.
\<close>

datatype mongo_value =
    MvNull
  | MvBool bool
  | MvInt int
  | MvFloat pyfloat
  | MvString string
  | MvDate string
  | MvDateTime string
  | MvMidnight calendar_day
  | MvToday
  | MvNow
  | MvTextOf value_set_element

datatype mongo_pattern = MongoPattern string | MongoPatternOf string value_set_element string

datatype mongo_test =
    MtCompare comparison_operator mongo_value
  | MtIn "mongo_value list"
  | MtNin "mongo_value list"
  | MtExists
  | MtRegex mongo_pattern
  | MtNotRegex mongo_pattern

datatype mongo_filter =
    MfEquals string mongo_value
  | MfTests string "mongo_test list"
  | MfAnd "mongo_filter list"
  | MfOr "mongo_filter list"
  | MfNor "mongo_filter list"
  | MfAll

section \<open>Commands\<close>

record projection_field =
  pf_path :: "string list"
  pf_alias :: "string option"
  pf_name :: string

record mongo_find =
  mf_collection :: string
  mf_filter :: mongo_filter
  mf_projection :: "(string \<times> int) list option"
  mf_projection_fields :: "projection_field list option"
  mf_sort :: "(string \<times> int) list option"
  mf_limit :: "int option"
  mf_skip :: "int option"

text \<open>\<open>ordered\<close> is always true, \<open>upsert\<close> always false.\<close>

datatype mongo_spec =
    SpecInsert string "(string \<times> mongo_value) list list"
  | SpecUpdate string mongo_filter "(string \<times> mongo_value) list"
  | SpecDelete string mongo_filter
  | SpecFind mongo_find

end
