(* ===== verification/Sql_Output.thy ===== *)
theory Sql_Output
  imports Binding Mongo_Data "HOL-Library.Sublist"
begin

text \<open>
  What the SQL lowerers share: the physical query (\<open>query_engine/domain/physical_query.py\<close>), the values
  that are handed to the database driver, the list of parameters that a lowerer appends to while it
  writes text (the closures over \<open>params\<close> are a state passed along), and LIKE patterns.

  A parameter is the Python value that the code appends. \<open>PDate s\<close> is \<open>datetime.date\<close> of the ISO text
  \<open>s\<close>, \<open>PDateTime s\<close> the result of \<open>datetime.fromisoformat\<close> on a text with a time part (the lexer only
  makes dates), \<open>PMidnight d\<close> a \<open>datetime\<close> at the start of the day \<open>d\<close>. \<open>PSpec\<close> is the dict that the MongoDB lowerer hands over.
\<close>

section \<open>Parameters and physical queries\<close>

datatype sql_param =
    PStr string
  | PInt int
  | PFloat pyfloat
  | PBool bool
  | PNone
  | PDate string
  | PDateTime string
  | PMidnight calendar_day
  | PLike string value_set_element string
  | PSpec mongo_spec

record physical_query =
  pq_dialect :: string
  pq_query :: string
  pq_parameters :: "sql_param list"
  pq_source_id :: string
  pq_source_name :: string

record physical_batch =
  pb_dialect :: string
  pb_queries :: "physical_query list"
  pb_source_id :: string
  pb_source_name :: string

datatype physical_result = SingleQuery physical_query | QueryBatch physical_batch

section \<open>Text with parameters\<close>

type_synonym 'a emitter = "sql_param list \<Rightarrow> query_error + 'a \<times> sql_param list"

definition emit_return :: "'a \<Rightarrow> 'a emitter" where
  "emit_return x = (\<lambda>ps. Inr (x, ps))"

definition emit_bind :: "'a emitter \<Rightarrow> ('a \<Rightarrow> 'b emitter) \<Rightarrow> 'b emitter" where
  "emit_bind m f = (\<lambda>ps. bindE (m ps) (\<lambda>(x, ps'). f x ps'))"

definition emit_raise :: "query_error \<Rightarrow> 'a emitter" where
  "emit_raise e = (\<lambda>ps. Inl e)"

fun emit_map :: "('a \<Rightarrow> 'b emitter) \<Rightarrow> 'a list \<Rightarrow> 'b list emitter" where
  "emit_map f [] = emit_return []"
| "emit_map f (x # xs) =
     emit_bind (f x) (\<lambda>y. emit_bind (emit_map f xs) (\<lambda>ys. emit_return (y # ys)))"

lemma emit_bind_return [simp]:
  "emit_bind (emit_return x) f = f x"
  "emit_bind m emit_return = m"
  by (auto simp: emit_bind_def emit_return_def fun_eq_iff bindE_def split: sum.split)

lemma emit_bind_assoc [simp]: "emit_bind (emit_bind m f) g = emit_bind m (\<lambda>x. emit_bind (f x) g)"
  by (auto simp: emit_bind_def fun_eq_iff bindE_def split: sum.split)

lemma emit_bind_raise [simp]: "emit_bind (emit_raise e) f = emit_raise e"
  by (simp add: emit_bind_def emit_raise_def fun_eq_iff)

lemma emit_bind_cong [fundef_cong]:
  "m = m' \<Longrightarrow> (\<And>x. f x = f' x) \<Longrightarrow> emit_bind m f = emit_bind m' f'"
  by (simp add: emit_bind_def)

lemma emit_map_cong [fundef_cong]:
  "xs = ys \<Longrightarrow> (\<And>x. x \<in> set ys \<Longrightarrow> f x = g x) \<Longrightarrow> emit_map f xs = emit_map g ys"
  by (induction ys arbitrary: xs) (auto intro!: emit_bind_cong)

lemma emit_map_map: "emit_map f (map g xs) = emit_map (f \<circ> g) xs"
  by (induction xs) simp_all

lemma emit_map_return: "emit_map (\<lambda>x. emit_return (f x)) xs = emit_return (map f xs)"
  by (induction xs) simp_all

definition parens :: "string \<Rightarrow> string" where
  "parens s = ''('' @ s @ '')''"

section \<open>Dates\<close>

definition has_time_part :: "string \<Rightarrow> bool" where
  "has_time_part s \<longleftrightarrow> CHR ''T'' \<in> set s \<or> CHR '' '' \<in> set s"

definition is_iso_date :: "string \<Rightarrow> bool" where
  "is_iso_date s \<longleftrightarrow> is_date_shape s \<and> is_calendar_date s"

definition is_date_only_literal :: "literal \<Rightarrow> bool" where
  "is_date_only_literal l \<longleftrightarrow>
     (case l of TemporalLiteral None (Some v) \<Rightarrow> \<not> has_time_part v | _ \<Rightarrow> False)"

text \<open>\<open>_invert_operator\<close>, the same in the SQL lowerers.\<close>

fun invert_operator :: "comparison_operator \<Rightarrow> comparison_operator" where
  "invert_operator OpEQ = OpNEQ"
| "invert_operator OpNEQ = OpEQ"
| "invert_operator OpGT = OpLTE"
| "invert_operator OpLT = OpGTE"
| "invert_operator OpGTE = OpLT"
| "invert_operator OpLTE = OpGT"

section \<open>LIKE patterns\<close>

text \<open>\<open>s.replace(c, r)\<close> for a single character.\<close>

definition replace_char :: "char \<Rightarrow> string \<Rightarrow> string \<Rightarrow> string" where
  "replace_char c r s = concat (map (\<lambda>x. if x = c then r else [x]) s)"

definition escape_like_operand :: "string \<Rightarrow> string" where
  "escape_like_operand s =
     replace_char CHR ''_'' [CHR 0x5C, CHR ''_'']
       (replace_char CHR ''%'' [CHR 0x5C, CHR ''%'']
         (replace_char CHR 0x5C [CHR 0x5C, CHR 0x5C] s))"

text \<open>
  \<open>str(getattr(elem, "value", ""))\<close>. The validator lets only string literals reach it; the text of a
  float and of a constraint (its value is a node object) is left symbolic.
\<close>

fun like_text :: "value_set_element \<Rightarrow> string option" where
  "like_text (ElemLiteral (StringLiteral s)) = Some s"
| "like_text (ElemLiteral (IntegerLiteral n)) = Some (show_int n)"
| "like_text (ElemLiteral (BooleanLiteral b)) = Some (if b then ''True'' else ''False'')"
| "like_text (ElemLiteral (TemporalLiteral k v)) = Some (case v of Some s \<Rightarrow> s | None \<Rightarrow> ''None'')"
| "like_text (ElemLiteral NullLiteral) = Some []"
| "like_text (ElemRange r) = Some []"
| "like_text (ElemCompound cs) = Some []"
| "like_text (ElemLiteral (FloatLiteral x)) = None"
| "like_text (ElemConstraint c) = None"

text \<open>The parameter \<open>f"{pre}{escaped}{post}"\<close>.\<close>

definition like_param :: "string \<Rightarrow> value_set_element \<Rightarrow> string \<Rightarrow> sql_param" where
  "like_param pre el post =
     (case like_text el of
        Some s \<Rightarrow> PStr (pre @ escape_like_operand s @ post)
      | None \<Rightarrow> PLike pre el post)"

text \<open>SQL's \<open>text LIKE pattern ESCAPE '\'\<close>.\<close>

fun like :: "string \<Rightarrow> string \<Rightarrow> bool" where
  "like [] t \<longleftrightarrow> t = []"
| "like (c # p) t \<longleftrightarrow>
     (if c = CHR ''%'' then (like p t \<or> (case t of [] \<Rightarrow> False | x # xs \<Rightarrow> like (c # p) xs))
      else if c = CHR ''_'' then (case t of [] \<Rightarrow> False | x # xs \<Rightarrow> like p xs)
      else if c = CHR 0x5C then
        (case p of [] \<Rightarrow> False | e # p' \<Rightarrow> (case t of [] \<Rightarrow> False | x # xs \<Rightarrow> x = e \<and> like p' xs))
      else (case t of [] \<Rightarrow> False | x # xs \<Rightarrow> x = c \<and> like p xs))"

lemma escape_like_simps:
  "escape_like_operand [] = []"
  "escape_like_operand (c # s) =
     (if c = CHR ''%'' \<or> c = CHR ''_'' \<or> c = CHR 0x5C then [CHR 0x5C, c] else [c]) @ escape_like_operand s"
  by (simp_all add: escape_like_operand_def replace_char_def)

lemma like_escape:
  "like (escape_like_operand s @ p) t \<longleftrightarrow> (\<exists>u. t = s @ u \<and> like p u)"
proof (induction s arbitrary: t)
  case Nil
  then show ?case by (simp add: escape_like_simps)
next
  case (Cons c s)
  then show ?case by (cases t) (auto simp: escape_like_simps)
qed

lemma like_percent: "like (CHR ''%'' # p) t \<longleftrightarrow> (\<exists>a b. t = a @ b \<and> like p b)"
proof (induction t)
  case Nil
  then show ?case by simp
next
  case (Cons x t)
  have "like (CHR ''%'' # p) (x # t) \<longleftrightarrow> like p (x # t) \<or> (\<exists>a b. t = a @ b \<and> like p b)"
    using Cons by simp
  also have "\<dots> \<longleftrightarrow> (\<exists>a b. x # t = a @ b \<and> like p b)"
    by (auto simp: Cons_eq_append_conv)
  finally show ?case .
qed

lemma like_patterns:
  "(like (escape_like_operand s @ ''%'') t \<longleftrightarrow> prefix s t) \<and>
   (like (''%'' @ escape_like_operand s) t \<longleftrightarrow> suffix s t) \<and>
   (like (''%'' @ escape_like_operand s @ ''%'') t \<longleftrightarrow> sublist s t)"
proof -
  have all: "like ''%'' u" for u by (simp only: like_percent) simp
  have empty: "like (escape_like_operand s) u \<longleftrightarrow> u = s" for u
    using like_escape [of s "[]" u] by simp
  show ?thesis
    by (auto simp add: like_escape like_percent all empty prefix_def suffix_def sublist_def simp del: like.simps(2))
qed

text \<open>
  C22. The escaping makes LIKE exact for every text, also one with \<open>%\<close>, \<open>_\<close> or backslashes: the patterns
  that are built for STARTS, ENDS and HAS match precisely the strings of which the operand is a prefix, a
  suffix, or a contiguous part.
\<close>

theorem like_patterns_exact:
  "(like (escape_like_operand s @ ''%'') t \<longleftrightarrow> prefix s t) \<and>
   (like (''%'' @ escape_like_operand s) t \<longleftrightarrow> suffix s t) \<and>
   (like (''%'' @ escape_like_operand s @ ''%'') t \<longleftrightarrow> sublist s t)"
  by (rule like_patterns)

end
