(* ===== verification/Postgres.thy ===== *)
theory Postgres
  imports Sql_Output
begin

text \<open>
  The PostgreSQL lowerer (\<open>query_engine/lowering/postgres.py\<close>): the nested functions of
  \<open>PostgreSQLLowerer.lower\<close>, one definition each, and their composition. The texts are written out as
  the code's format strings have them; every value goes through \<open>add_param\<close>, which appends it to the
  parameters and returns the placeholder.
\<close>

section \<open>Identifiers, parameters and literals\<close>

definition quote_ident :: "string \<Rightarrow> string" where
  "quote_ident n = CHR 0x22 # n @ [CHR 0x22]"

definition add_param :: "sql_param \<Rightarrow> string emitter" where
  "add_param v = (\<lambda>ps. Inr (CHR ''$'' # nat_digits (Suc (length ps)), ps @ [v]))"

fun convert_literal_to_parameter :: "literal \<Rightarrow> sql_param" where
  "convert_literal_to_parameter (TemporalLiteral k v) =
     (case v of
        None \<Rightarrow> PNone
      | Some s \<Rightarrow> if has_time_part s then PDateTime s else if is_iso_date s then PDate s else PStr s)"
| "convert_literal_to_parameter NullLiteral = PNone"
| "convert_literal_to_parameter (IntegerLiteral n) = PInt n"
| "convert_literal_to_parameter (FloatLiteral x) = PFloat x"
| "convert_literal_to_parameter (StringLiteral s) = PStr s"
| "convert_literal_to_parameter (BooleanLiteral b) = PBool b"

text \<open>\<open>lower_literal\<close>, and \<open>lower_group_literal\<close> with the parameters of a group.\<close>

definition lower_literal :: "literal \<Rightarrow> string emitter" where
  "lower_literal l =
     (case l of
        TemporalLiteral k v \<Rightarrow>
          if k = Some TODAY then emit_return ''CURRENT_DATE''
          else if k = Some NOW then emit_return ''CURRENT_TIMESTAMP''
          else if v \<noteq> None then add_param (convert_literal_to_parameter l)
          else emit_return ''NULL''
      | NullLiteral \<Rightarrow> emit_return ''NULL''
      | _ \<Rightarrow> add_param (convert_literal_to_parameter l))"

definition json_key :: "string \<Rightarrow> string \<Rightarrow> string" where
  "json_key arrow k = arrow @ CHR 0x27 # k @ [CHR 0x27]"

definition lower_field_path :: "bound_field \<Rightarrow> string" where
  "lower_field_path f =
     (if \<not> is_nested (bf_path f) then quote_ident (leaf (bf_path f))
      else
        (let keys = nested (bf_path f); top = quote_ident (root (bf_path f)) in
         if length keys = 1 then top @ json_key ''->>'' (hd keys)
         else foldl (\<lambda>chain k. chain @ json_key ''->'' k) top (butlast keys) @ json_key ''->>'' (last keys)))"

section \<open>String operators\<close>

definition escape_clause :: string where
  "escape_clause = '' ESCAPE '' @ [CHR 0x27, CHR 0x5C, CHR 0x27]"

definition is_null_element :: "value_set_element \<Rightarrow> bool" where
  "is_null_element el \<longleftrightarrow> el = ElemLiteral NullLiteral"

definition non_null :: "value_set_element list \<Rightarrow> value_set_element list" where
  "non_null els = filter (\<lambda>el. \<not> is_null_element el) els"

definition has_null :: "value_set_element list \<Rightarrow> bool" where
  "has_null els \<longleftrightarrow> (\<exists>el \<in> set els. is_null_element el)"

definition lower_between :: "string \<Rightarrow> lit_range \<Rightarrow> string emitter" where
  "lower_between col r =
     emit_bind (lower_literal (r_start r)) (\<lambda>a.
     emit_bind (lower_literal (r_end r)) (\<lambda>b.
     emit_return (col @ '' BETWEEN '' @ a @ '' AND '' @ b)))"

definition lower_like :: "string \<Rightarrow> string \<Rightarrow> sql_param \<Rightarrow> string emitter" where
  "lower_like col word v =
     emit_bind (add_param v) (\<lambda>p. emit_return (col @ '' '' @ word @ '' '' @ p @ escape_clause))"

definition lower_has_element :: "string \<Rightarrow> value_set_element \<Rightarrow> string emitter" where
  "lower_has_element col el =
     (case el of
        ElemRange r \<Rightarrow> lower_between col r
      | _ \<Rightarrow> lower_like col ''LIKE'' (like_param ''%'' el ''%''))"

definition lower_not_has_element :: "string \<Rightarrow> value_set_element \<Rightarrow> string emitter" where
  "lower_not_has_element col el =
     (case el of
        ElemRange r \<Rightarrow>
          emit_bind (lower_literal (r_start r)) (\<lambda>a.
          emit_bind (lower_literal (r_end r)) (\<lambda>b.
          emit_return (parens (col @ '' < '' @ a @ '' OR '' @ col @ '' > '' @ b))))
      | _ \<Rightarrow> lower_like col ''NOT LIKE'' (like_param ''%'' el ''%''))"

text \<open>The end of every branch that collects predicates.\<close>

definition combine :: "string \<Rightarrow> string list \<Rightarrow> string" where
  "combine sep preds =
     (if preds = [] then ''1=1'' else if length preds = 1 then hd preds else parens (join sep preds))"

definition lower_has_set :: "string \<Rightarrow> value_set_element list \<Rightarrow> string emitter" where
  "lower_has_set col els =
     emit_bind (emit_map (lower_has_element col) (filter (\<lambda>el. \<not> is_null_element el) els)) (\<lambda>preds.
     emit_return (combine '' OR ''
       ((if \<exists>el \<in> set els. is_null_element el then [col @ '' IS NULL''] else []) @ preds)))"

definition lower_not_has_set :: "string \<Rightarrow> value_set_element list \<Rightarrow> string emitter" where
  "lower_not_has_set col els =
     emit_bind (emit_map (lower_not_has_element col) (filter (\<lambda>el. \<not> is_null_element el) els)) (\<lambda>nl.
     emit_return
       (if \<exists>el \<in> set els. is_null_element el then
          (if nl = [] then col @ '' IS NOT NULL''
           else if length nl = 1 then parens (hd nl @ '' AND '' @ col @ '' IS NOT NULL'')
           else parens (parens (join '' AND '' nl) @ '' AND '' @ col @ '' IS NOT NULL''))
        else
          (if nl = [] then col @ '' IS NULL''
           else if length nl = 1 then parens (hd nl @ '' OR '' @ col @ '' IS NULL'')
           else parens (parens (join '' AND '' nl) @ '' OR '' @ col @ '' IS NULL''))))"

text \<open>The operand of a string operator as an element; a set has no \<open>value\<close>, like a range.\<close>

fun operand_element :: "operand \<Rightarrow> value_set_element" where
  "operand_element (OperandLiteral l) = ElemLiteral l"
| "operand_element (OperandRange r) = ElemRange r"
| "operand_element (OperandSet vs) = ElemCompound []"

definition lower_string_operator :: "string \<Rightarrow> string_operator \<Rightarrow> operand \<Rightarrow> string emitter" where
  "lower_string_operator col op v =
     (let el = operand_element v;
          direct = (case op of
              STARTS \<Rightarrow> lower_like col ''LIKE'' (like_param '''' el ''%'')
            | ENDS \<Rightarrow> lower_like col ''LIKE'' (like_param ''%'' el '''')
            | HAS \<Rightarrow> lower_like col ''LIKE'' (like_param ''%'' el ''%'')
            | NOT_HAS \<Rightarrow>
                emit_bind (lower_like col ''NOT LIKE'' (like_param ''%'' el ''%''))
                  (\<lambda>s. emit_return (parens (s @ '' OR '' @ col @ '' IS NULL''))))
      in case v of
           OperandSet vs \<Rightarrow>
             if op = HAS then lower_has_set col (elements vs)
             else if op = NOT_HAS then lower_not_has_set col (elements vs)
             else direct
         | _ \<Rightarrow> direct)"

section \<open>Comparison operators\<close>

definition is_timestamp_field :: "bound_field \<Rightarrow> bool" where
  "is_timestamp_field f \<longleftrightarrow> bf_data_type f = TTIMESTAMP \<or> bf_data_type f = TTIMESTAMPTZ"

text \<open>\<open>_parse_date_only_range\<close> and the predicate that every caller makes of it.\<close>

definition parse_date_only_range :: "string \<Rightarrow> query_error + sql_param \<times> sql_param" where
  "parse_date_only_range s =
     (if \<not> is_iso_date s then Inl PyValueError
      else case next_day (day_of_text s) of
        None \<Rightarrow> Inl PyOverflowError
      | Some d \<Rightarrow> Inr (PMidnight (day_of_text s), PMidnight d))"

definition lower_day :: "string \<Rightarrow> string \<Rightarrow> string emitter" where
  "lower_day col s =
     (case parse_date_only_range s of
        Inl e \<Rightarrow> emit_raise e
      | Inr (a, b) \<Rightarrow>
          emit_bind (add_param a) (\<lambda>p1.
          emit_bind (add_param b) (\<lambda>p2.
          emit_return (parens (col @ '' >= '' @ p1 @ '' AND '' @ col @ '' < '' @ p2)))))"

text \<open>The text of a literal that is a date without time.\<close>

definition date_only_text :: "literal \<Rightarrow> string" where
  "date_only_text l = (case l of TemporalLiteral None (Some s) \<Rightarrow> s | _ \<Rightarrow> [])"

definition lower_comparison :: "string \<Rightarrow> comparison_operator \<Rightarrow> literal \<Rightarrow> string emitter" where
  "lower_comparison col op l =
     emit_bind (lower_literal l) (\<lambda>p. emit_return (col @ '' '' @ cmp_value op @ '' '' @ p))"

definition lower_not_equal :: "string \<Rightarrow> literal \<Rightarrow> string emitter" where
  "lower_not_equal col l =
     emit_bind (lower_literal l) (\<lambda>p. emit_return (parens (col @ '' != '' @ p @ '' OR '' @ col @ '' IS NULL'')))"

fun is_simple_element :: "value_set_element \<Rightarrow> bool" where
  "is_simple_element (ElemLiteral (TemporalLiteral k v)) \<longleftrightarrow> k = None \<and> v \<noteq> None"
| "is_simple_element (ElemLiteral NullLiteral) \<longleftrightarrow> False"
| "is_simple_element (ElemLiteral l) \<longleftrightarrow> True"
| "is_simple_element _ \<longleftrightarrow> False"

fun is_date_only_element :: "value_set_element \<Rightarrow> bool" where
  "is_date_only_element (ElemLiteral l) \<longleftrightarrow> is_date_only_literal l"
| "is_date_only_element _ \<longleftrightarrow> False"

text \<open>The literals of a set in which every element is one.\<close>

definition set_literals :: "value_set_element list \<Rightarrow> literal list" where
  "set_literals els = concat (map (\<lambda>el. case el of ElemLiteral l \<Rightarrow> [l] | _ \<Rightarrow> []) els)"

definition simple_set :: "bound_field \<Rightarrow> value_set_element list \<Rightarrow> bool" where
  "simple_set f nn \<longleftrightarrow>
     list_all is_simple_element nn \<and> \<not> (is_timestamp_field f \<and> (\<exists>el \<in> set nn. is_date_only_element el))"

definition lower_compound :: "string \<Rightarrow> comparison_constraint list \<Rightarrow> string emitter" where
  "lower_compound col cs =
     emit_bind (emit_map (\<lambda>c. lower_comparison col (c_operator c) (c_value c)) cs)
       (\<lambda>preds. emit_return (parens (join '' AND '' preds)))"

definition lower_eq_constraint :: "bound_field \<Rightarrow> string \<Rightarrow> comparison_constraint \<Rightarrow> string emitter" where
  "lower_eq_constraint f col c =
     (if c_value c = NullLiteral then
        emit_return (if c_operator c = OpEQ then col @ '' IS NULL''
          else if c_operator c = OpNEQ then col @ '' IS NOT NULL''
          else col @ '' '' @ cmp_value (c_operator c) @ '' NULL'')
      else if c_operator c = OpEQ \<and> is_timestamp_field f \<and> is_date_only_literal (c_value c)
      then lower_day col (date_only_text (c_value c))
      else lower_comparison col (c_operator c) (c_value c))"

definition lower_eq_literal :: "bound_field \<Rightarrow> string \<Rightarrow> literal \<Rightarrow> string emitter" where
  "lower_eq_literal f col l =
     (case l of
        NullLiteral \<Rightarrow> emit_return (col @ '' IS NULL'')
      | TemporalLiteral k v \<Rightarrow>
          if k = Some TODAY then emit_return (col @ '' = CURRENT_DATE'')
          else if k = Some NOW then emit_return (col @ '' = CURRENT_TIMESTAMP'')
          else if is_timestamp_field f \<and> is_date_only_literal l then lower_day col (date_only_text l)
          else lower_comparison col OpEQ l
      | _ \<Rightarrow> lower_comparison col OpEQ l)"

fun lower_eq_element :: "bound_field \<Rightarrow> string \<Rightarrow> value_set_element \<Rightarrow> string emitter" where
  "lower_eq_element f col (ElemLiteral l) = lower_eq_literal f col l"
| "lower_eq_element f col (ElemRange r) = lower_between col r"
| "lower_eq_element f col (ElemConstraint c) = lower_eq_constraint f col c"
| "lower_eq_element f col (ElemCompound cs) = lower_compound col cs"

definition lower_eq_set :: "bound_field \<Rightarrow> string \<Rightarrow> value_set_element list \<Rightarrow> string emitter" where
  "lower_eq_set f col els =
     (let nn = filter (\<lambda>el. \<not> is_null_element el) els;
          has_null = (\<exists>el \<in> set els. is_null_element el);
          lits = set_literals nn
      in if simple_set f nn \<and> has_null \<and> length nn = 0 then emit_return (col @ '' IS NULL'')
         else if simple_set f nn \<and> has_null \<and> length nn = 1 then
           emit_bind (lower_literal (hd lits)) (\<lambda>p.
           emit_return (parens (col @ '' = '' @ p @ '' OR '' @ col @ '' IS NULL'')))
         else if simple_set f nn \<and> has_null then
           emit_bind (emit_map lower_literal lits) (\<lambda>ps.
           emit_return (parens (col @ '' IN '' @ parens (join '', '' ps) @ '' OR '' @ col @ '' IS NULL'')))
         else if simple_set f nn \<and> 0 < length nn then
           emit_bind (emit_map lower_literal lits) (\<lambda>ps.
           emit_return (col @ '' IN '' @ parens (join '', '' ps)))
         else
           emit_bind (emit_map (lower_eq_element f col) els) (\<lambda>preds.
           emit_return (combine '' OR '' preds)))"

text \<open>An element of a \<open>!=\<close> set: no predicate for some constraints and for a compound one.\<close>

fun lower_neq_element :: "string \<Rightarrow> value_set_element \<Rightarrow> string list emitter" where
  "lower_neq_element col (ElemLiteral l) =
     (if l = NullLiteral then emit_return [col @ '' IS NOT NULL'']
      else emit_bind (lower_not_equal col l) (\<lambda>s. emit_return [s]))"
| "lower_neq_element col (ElemRange r) =
     emit_bind (lower_literal (r_start r)) (\<lambda>a.
     emit_bind (lower_literal (r_end r)) (\<lambda>b.
     emit_return [parens (col @ '' < '' @ a @ '' OR '' @ col @ '' > '' @ b @ '' OR '' @ col @ '' IS NULL'')]))"
| "lower_neq_element col (ElemConstraint c) =
     (if c_value c = NullLiteral then
        emit_return (if c_operator c = OpEQ then [col @ '' IS NOT NULL'']
          else if c_operator c = OpNEQ then [col @ '' IS NULL''] else [])
      else
        emit_bind (lower_literal (c_value c)) (\<lambda>p.
        emit_return [parens (col @ '' '' @ cmp_value (invert_operator (c_operator c)) @ '' '' @ p @
          '' OR '' @ col @ '' IS NULL'')]))"
| "lower_neq_element col (ElemCompound cs) = emit_return []"

definition lower_neq_set :: "bound_field \<Rightarrow> string \<Rightarrow> value_set_element list \<Rightarrow> string emitter" where
  "lower_neq_set f col els =
     (let nn = filter (\<lambda>el. \<not> is_null_element el) els;
          has_null = (\<exists>el \<in> set els. is_null_element el);
          lits = set_literals nn
      in if simple_set f nn \<and> has_null \<and> length nn = 0 then emit_return (col @ '' IS NOT NULL'')
         else if simple_set f nn \<and> has_null \<and> length nn = 1 then
           emit_bind (lower_literal (hd lits)) (\<lambda>p.
           emit_return (parens (col @ '' != '' @ p @ '' AND '' @ col @ '' IS NOT NULL'')))
         else if simple_set f nn \<and> has_null then
           emit_bind (emit_map lower_literal lits) (\<lambda>ps.
           emit_return (parens (col @ '' NOT IN '' @ parens (join '', '' ps) @ '' AND '' @ col @ '' IS NOT NULL'')))
         else if simple_set f nn \<and> 0 < length nn then
           emit_bind (emit_map lower_literal lits) (\<lambda>ps.
           emit_return (parens (col @ '' NOT IN '' @ parens (join '', '' ps) @ '' OR '' @ col @ '' IS NULL'')))
         else
           emit_bind (emit_map (lower_neq_element col) els) (\<lambda>predss.
           emit_return (combine '' AND '' (concat predss))))"

text \<open>A literal operand. \<open>TODAY\<close> and \<open>NOW\<close> are compared with the operator as it is.\<close>

definition lower_direct_literal :: "bound_field \<Rightarrow> string \<Rightarrow> comparison_operator \<Rightarrow> literal \<Rightarrow> string emitter" where
  "lower_direct_literal f col op l =
     (case l of
        NullLiteral \<Rightarrow>
          emit_return (if op = OpEQ then col @ '' IS NULL''
            else if op = OpNEQ then col @ '' IS NOT NULL''
            else col @ '' '' @ cmp_value op @ '' NULL'')
      | TemporalLiteral k v \<Rightarrow>
          if k = Some TODAY then emit_return (col @ '' '' @ cmp_value op @ '' CURRENT_DATE'')
          else if k = Some NOW then emit_return (col @ '' '' @ cmp_value op @ '' CURRENT_TIMESTAMP'')
          else if op = OpEQ \<and> is_timestamp_field f \<and> is_date_only_literal l
          then lower_day col (date_only_text l)
          else lower_comparison col op l
      | _ \<Rightarrow> if op = OpNEQ then lower_not_equal col l else lower_comparison col op l)"

text \<open>
  The comparison part of \<open>lower_field_expression\<close>. A set after an ordering operator (which the parser
  never makes) reaches the fallback at the end, where the value of the set is \<open>None\<close>.
\<close>

definition lower_comparison_operator :: "bound_field \<Rightarrow> string \<Rightarrow> comparison_operator \<Rightarrow> operand \<Rightarrow> string emitter" where
  "lower_comparison_operator f col op v =
     (case v of
        OperandLiteral l \<Rightarrow> lower_direct_literal f col op l
      | OperandRange r \<Rightarrow> lower_between col r
      | OperandSet vs \<Rightarrow>
          if op = OpEQ then lower_eq_set f col (elements vs)
          else if op = OpNEQ then lower_neq_set f col (elements vs)
          else emit_bind (add_param PNone) (\<lambda>p. emit_return (col @ '' = '' @ p)))"

definition lower_field_expression :: "bound_field \<Rightarrow> field_operator \<Rightarrow> operand \<Rightarrow> string emitter" where
  "lower_field_expression f op v =
     (let col = lower_field_path f in
      case op of
        StringOp s \<Rightarrow> lower_string_operator col s v
      | Comparison c \<Rightarrow> lower_comparison_operator f col c v)"

section \<open>Expressions\<close>

definition is_parenthesised :: "string \<Rightarrow> bool" where
  "is_parenthesised s \<longleftrightarrow> s \<noteq> [] \<and> hd s = CHR ''('' \<and> last s = CHR '')''"

fun lower_expression :: "bound_expression \<Rightarrow> string emitter" where
  "lower_expression (BoundField f op v) = lower_field_expression f op v"
| "lower_expression (BoundLogical op l r) =
     emit_bind (lower_expression l) (\<lambda>a.
     emit_bind (lower_expression r) (\<lambda>b.
     emit_return (parens (a @ '' '' @ logical_value op @ '' '' @ b))))"
| "lower_expression (BoundNegation e) =
     emit_bind (lower_expression e) (\<lambda>s.
     emit_return (if is_parenthesised s then ''NOT '' @ s else ''NOT '' @ parens s))"

section \<open>Statements\<close>

definition target_table :: "bound_entity \<Rightarrow> string" where
  "target_table e =
     (if be_namespace e \<noteq> [] then quote_ident (be_namespace e) @ ''.'' @ quote_ident (be_name e)
      else quote_ident (be_name e))"

definition record_columns :: "bound_record \<Rightarrow> string list" where
  "record_columns r = map (leaf \<circ> bf_path \<circ> ba_field) (br_assignments r)"

text \<open>The loop that puts a record into the last group, or starts a new one.\<close>

definition add_to_groups :: "bound_record list list \<Rightarrow> bound_record \<Rightarrow> bound_record list list" where
  "add_to_groups groups r =
     (if groups = [] then [[r]]
      else if record_columns (hd (last groups)) = record_columns r
      then butlast groups @ [last groups @ [r]]
      else groups @ [[r]])"

definition group_records :: "bound_record list \<Rightarrow> bound_record list list" where
  "group_records rs = foldl add_to_groups [] rs"

definition lower_row :: "bound_record \<Rightarrow> string emitter" where
  "lower_row r =
     emit_bind (emit_map (lower_literal \<circ> ba_value) (br_assignments r))
       (\<lambda>vals. emit_return (parens (join '', '' vals)))"

definition lower_insert :: "string \<Rightarrow> bound_record list \<Rightarrow> string emitter" where
  "lower_insert table grp =
     emit_bind (emit_map lower_row grp) (\<lambda>rows.
     emit_return (''INSERT INTO '' @ table @ '' '' @
       parens (join '', '' (map quote_ident (record_columns (hd grp)))) @
       '' VALUES '' @ join '', '' rows @ '' RETURNING *;''))"

definition make_query :: "bound_ir \<Rightarrow> string emitter \<Rightarrow> query_error + physical_query" where
  "make_query b m =
     bindE (m []) (\<lambda>(text, ps).
     Inr \<lparr>pq_dialect = ''postgresql'', pq_query = text, pq_parameters = ps,
          pq_source_id = b_source_id b, pq_source_name = b_source_name b\<rparr>)"

definition create_records :: "bound_ir \<Rightarrow> bound_record list" where
  "create_records b =
     (if b_records b \<noteq> [] then b_records b
      else if b_assignments b \<noteq> [] then [BoundRecord (b_assignments b)] else [])"

definition lower_create :: "bound_ir \<Rightarrow> query_error + physical_result" where
  "lower_create b =
     bindE (mapE (\<lambda>grp. make_query b (lower_insert (target_table (b_entity b)) grp))
              (group_records (create_records b))) (\<lambda>qs.
     Inr (if length qs = 1 then SingleQuery (hd qs)
          else QueryBatch \<lparr>pb_dialect = ''postgresql'', pb_queries = qs,
                 pb_source_id = b_source_id b, pb_source_name = b_source_name b\<rparr>))"

definition lower_where :: "bound_expression option \<Rightarrow> string emitter" where
  "lower_where w =
     (case w of
        None \<Rightarrow> emit_return []
      | Some e \<Rightarrow> emit_bind (lower_expression e) (\<lambda>s. emit_return ('' WHERE '' @ s)))"

definition lower_set_item :: "bound_assignment \<Rightarrow> string emitter" where
  "lower_set_item a =
     emit_bind (lower_literal (ba_value a)) (\<lambda>p.
     emit_return (quote_ident (leaf (bf_path (ba_field a))) @ '' = '' @ p))"

definition lower_update :: "bound_ir \<Rightarrow> string emitter" where
  "lower_update b =
     emit_bind (emit_map lower_set_item (b_assignments b)) (\<lambda>items.
     emit_bind (lower_where (b_where b)) (\<lambda>w.
     emit_return (''UPDATE '' @ target_table (b_entity b) @ '' SET '' @ join '', '' items @ w @ '' RETURNING *;'')))"

definition lower_delete :: "bound_ir \<Rightarrow> string emitter" where
  "lower_delete b =
     emit_bind (lower_where (b_where b)) (\<lambda>w.
     emit_return (''DELETE FROM '' @ target_table (b_entity b) @ w @ '' RETURNING *;''))"

definition select_item :: "bound_selection \<Rightarrow> string" where
  "select_item s =
     (case bs_alias s of
        Some a \<Rightarrow>
          if a = [] then lower_field_path (bs_field s)
          else lower_field_path (bs_field s) @ '' AS '' @ quote_ident a
      | None \<Rightarrow> lower_field_path (bs_field s))"

definition select_clause :: "bound_ir \<Rightarrow> string" where
  "select_clause b =
     (if b_is_wildcard_projection b then ''SELECT *''
      else ''SELECT '' @ join '', '' (map select_item (b_projection b)))"

definition sort_item :: "bound_sort \<Rightarrow> string" where
  "sort_item s =
     lower_field_path (bsc_field s) @ '' '' @ sort_value (bsc_direction s) @ '' '' @
       (if bsc_direction s = ASC then ''NULLS FIRST'' else ''NULLS LAST'')"

definition order_by_items :: "bound_ir \<Rightarrow> string list" where
  "order_by_items b =
     (case b_ranking b of
        None \<Rightarrow> []
      | Some r \<Rightarrow> [lower_field_path (brk_field r) @ '' '' @
          (if brk_direction r = TOP then ''DESC'' else ''ASC'')]) @
     map sort_item (b_sort b) @
     (if b_ranking b = None \<and> b_sort b = []
      then map (\<lambda>c. quote_ident c @ '' ASC'') (be_primary_key (b_entity b)) else [])"

definition limit_value :: "bound_ir \<Rightarrow> int option" where
  "limit_value b = (case b_ranking b of Some r \<Rightarrow> Some (brk_count r) | None \<Rightarrow> b_limit b)"

definition lower_read :: "bound_ir \<Rightarrow> string emitter" where
  "lower_read b =
     emit_bind
       (case b_where b of
          None \<Rightarrow> emit_return []
        | Some e \<Rightarrow> emit_bind (lower_expression e) (\<lambda>s. emit_return [''WHERE '' @ s])) (\<lambda>w.
     emit_return (join '' ''
       ([select_clause b, ''FROM '' @ target_table (b_entity b)] @ w @
        (if order_by_items b = [] then [] else [''ORDER BY '' @ join '', '' (order_by_items b)]) @
        (case limit_value b of None \<Rightarrow> [] | Some n \<Rightarrow> [''LIMIT '' @ show_int n]) @
        (case b_offset b of None \<Rightarrow> [] | Some n \<Rightarrow> [''OFFSET '' @ show_int n])) @ '';''))"

text \<open>\<open>PostgreSQLLowerer.lower\<close>.\<close>

definition postgres_lower :: "bound_ir \<Rightarrow> query_error + physical_result" where
  "postgres_lower b =
     (case b_operation b of
        CREATE \<Rightarrow> lower_create b
      | UPDATE \<Rightarrow> bindE (make_query b (lower_update b)) (\<lambda>q. Inr (SingleQuery q))
      | DELETE \<Rightarrow> bindE (make_query b (lower_delete b)) (\<lambda>q. Inr (SingleQuery q))
      | READ \<Rightarrow> bindE (make_query b (lower_read b)) (\<lambda>q. Inr (SingleQuery q)))"

end
