(* ===== verification/Marked_Lowering.thy ===== *)
theory Marked_Lowering
  imports Postgres
begin

text \<open>
  The lowerers for SQLite (\<open>query_engine/lowering/sqlite.py\<close>) and MySQL (\<open>lowering/mysql.py\<close>). The two
  methods \<open>lower\<close> have the same statements; they differ in the words that are collected in \<open>sql_dialect\<close>,
  and in one expression (\<open>dl_unbound_element\<close>). Unlike the PostgreSQL lowerer they group the plain values
  of any set into one IN, keep the texts of dates as texts, and mark every parameter alike.
\<close>

section \<open>Dialects\<close>

record sql_dialect =
  dl_name :: string
  dl_quote :: "string \<Rightarrow> string"
  dl_table :: "bound_entity \<Rightarrow> string"
  dl_mark :: string
  dl_today :: string
  dl_now :: string
  dl_boolean :: "bool \<Rightarrow> sql_param"
  dl_json :: "string \<Rightarrow> string \<Rightarrow> string"
  dl_escape :: string
  dl_returning :: string
  dl_unbound_element :: bool

definition quote_double :: "string \<Rightarrow> string" where
  "quote_double n = CHR 0x22 # replace_char CHR 0x22 [CHR 0x22, CHR 0x22] n @ [CHR 0x22]"

definition quote_backtick :: "string \<Rightarrow> string" where
  "quote_backtick n = CHR 0x60 # replace_char CHR 0x60 [CHR 0x60, CHR 0x60] n @ [CHR 0x60]"

definition single_quoted :: "string \<Rightarrow> string" where
  "single_quoted s = CHR 0x27 # s @ [CHR 0x27]"

definition sqlite_dialect :: sql_dialect where
  "sqlite_dialect =
     \<lparr>dl_name = ''sqlite'', dl_quote = quote_double, dl_table = (\<lambda>e. quote_double (be_name e)), dl_mark = ''?'',
      dl_today = ''DATE('' @ single_quoted ''now'' @ '')'', dl_now = ''DATETIME('' @ single_quoted ''now'' @ '')'',
      dl_boolean = (\<lambda>b. PInt (if b then 1 else 0)),
      dl_json = (\<lambda>top path. ''json_extract('' @ top @ '', '' @ single_quoted path @ '')''),
      dl_escape = '' ESCAPE '' @ single_quoted [CHR 0x5C], dl_returning = '' RETURNING *'',
      dl_unbound_element = True\<rparr>"

definition mysql_table :: "bound_entity \<Rightarrow> string" where
  "mysql_table e =
     (if be_namespace e \<noteq> [] \<and> py_lower (be_namespace e) \<noteq> ''default''
      then quote_backtick (be_namespace e) @ ''.'' @ quote_backtick (be_name e)
      else quote_backtick (be_name e))"

definition mysql_dialect :: sql_dialect where
  "mysql_dialect =
     \<lparr>dl_name = ''mysql'', dl_quote = quote_backtick, dl_table = mysql_table, dl_mark = ''%s'',
      dl_today = ''CURDATE()'', dl_now = ''NOW()'', dl_boolean = PBool,
      dl_json = (\<lambda>top path. ''JSON_UNQUOTE(JSON_EXTRACT('' @ top @ '', '' @ single_quoted path @ ''))''),
      dl_escape = '' ESCAPE '' @ single_quoted [CHR 0x5C, CHR 0x5C], dl_returning = [],
      dl_unbound_element = False\<rparr>"

section \<open>Parameters, literals and columns\<close>

fun marked_parameter :: "sql_dialect \<Rightarrow> literal \<Rightarrow> sql_param" where
  "marked_parameter d (TemporalLiteral k v) = (case v of None \<Rightarrow> PNone | Some s \<Rightarrow> PStr s)"
| "marked_parameter d NullLiteral = PNone"
| "marked_parameter d (BooleanLiteral b) = dl_boolean d b"
| "marked_parameter d (IntegerLiteral n) = PInt n"
| "marked_parameter d (FloatLiteral x) = PFloat x"
| "marked_parameter d (StringLiteral s) = PStr s"

definition add_mark :: "sql_dialect \<Rightarrow> sql_param \<Rightarrow> string emitter" where
  "add_mark d v = (\<lambda>ps. Inr (dl_mark d, ps @ [v]))"

definition marked_literal :: "sql_dialect \<Rightarrow> literal \<Rightarrow> string emitter" where
  "marked_literal d l =
     (case l of
        TemporalLiteral k v \<Rightarrow>
          if k = Some TODAY then emit_return (dl_today d)
          else if k = Some NOW then emit_return (dl_now d)
          else if v \<noteq> None then add_mark d (marked_parameter d l)
          else emit_return ''NULL''
      | NullLiteral \<Rightarrow> emit_return ''NULL''
      | _ \<Rightarrow> add_mark d (marked_parameter d l))"

definition marked_field_path :: "sql_dialect \<Rightarrow> bound_field \<Rightarrow> string" where
  "marked_field_path d f =
     (if \<not> is_nested (bf_path f) then dl_quote d (leaf (bf_path f))
      else dl_json d (dl_quote d (root (bf_path f))) (''$.'' @ join ''.'' (nested (bf_path f))))"

section \<open>String operators\<close>

definition marked_between :: "sql_dialect \<Rightarrow> string \<Rightarrow> lit_range \<Rightarrow> string emitter" where
  "marked_between d col r =
     emit_bind (marked_literal d (r_start r)) (\<lambda>a.
     emit_bind (marked_literal d (r_end r)) (\<lambda>b.
     emit_return (col @ '' BETWEEN '' @ a @ '' AND '' @ b)))"

definition marked_like :: "sql_dialect \<Rightarrow> string \<Rightarrow> string \<Rightarrow> sql_param \<Rightarrow> string emitter" where
  "marked_like d col word v =
     emit_bind (add_mark d v) (\<lambda>p. emit_return (col @ '' '' @ word @ '' '' @ p @ dl_escape d))"

definition marked_has_element :: "sql_dialect \<Rightarrow> string \<Rightarrow> value_set_element \<Rightarrow> string emitter" where
  "marked_has_element d col el =
     (case el of
        ElemRange r \<Rightarrow> marked_between d col r
      | _ \<Rightarrow> marked_like d col ''LIKE'' (like_param ''%'' el ''%''))"

definition marked_not_has_element :: "sql_dialect \<Rightarrow> string \<Rightarrow> value_set_element \<Rightarrow> string emitter" where
  "marked_not_has_element d col el =
     (case el of
        ElemRange r \<Rightarrow>
          emit_bind (marked_literal d (r_start r)) (\<lambda>a.
          emit_bind (marked_literal d (r_end r)) (\<lambda>b.
          emit_return (parens (col @ '' < '' @ a @ '' OR '' @ col @ '' > '' @ b))))
      | _ \<Rightarrow> marked_like d col ''NOT LIKE'' (like_param ''%'' el ''%''))"

definition marked_has_set :: "sql_dialect \<Rightarrow> string \<Rightarrow> value_set_element list \<Rightarrow> string emitter" where
  "marked_has_set d col els =
     emit_bind (emit_map (marked_has_element d col) (non_null els)) (\<lambda>preds.
     emit_return (combine '' OR '' ((if has_null els then [col @ '' IS NULL''] else []) @ preds)))"

definition marked_not_has_set :: "sql_dialect \<Rightarrow> string \<Rightarrow> value_set_element list \<Rightarrow> string emitter" where
  "marked_not_has_set d col els =
     emit_bind (emit_map (marked_not_has_element d col) (non_null els)) (\<lambda>nl.
     emit_return
       (if has_null els then
          (if nl = [] then col @ '' IS NOT NULL''
           else if length nl = 1 then parens (hd nl @ '' AND '' @ col @ '' IS NOT NULL'')
           else parens (parens (join '' AND '' nl) @ '' AND '' @ col @ '' IS NOT NULL''))
        else
          (if nl = [] then col @ '' IS NULL''
           else if length nl = 1 then parens (hd nl @ '' OR '' @ col @ '' IS NULL'')
           else parens (parens (join '' AND '' nl) @ '' OR '' @ col @ '' IS NULL''))))"

definition marked_string_operator :: "sql_dialect \<Rightarrow> string \<Rightarrow> string_operator \<Rightarrow> operand \<Rightarrow> string emitter" where
  "marked_string_operator d col op v =
     (let el = operand_element v;
          direct = (case op of
              STARTS \<Rightarrow> marked_like d col ''LIKE'' (like_param '''' el ''%'')
            | ENDS \<Rightarrow> marked_like d col ''LIKE'' (like_param ''%'' el '''')
            | HAS \<Rightarrow> marked_like d col ''LIKE'' (like_param ''%'' el ''%'')
            | NOT_HAS \<Rightarrow>
                emit_bind (marked_like d col ''NOT LIKE'' (like_param ''%'' el ''%''))
                  (\<lambda>s. emit_return (parens (s @ '' OR '' @ col @ '' IS NULL''))))
      in case v of
           OperandSet vs \<Rightarrow>
             if op = HAS then marked_has_set d col (elements vs)
             else if op = NOT_HAS then marked_not_has_set d col (elements vs)
             else direct
         | _ \<Rightarrow> direct)"

section \<open>Comparison operators\<close>

definition zero_padded :: "nat \<Rightarrow> nat \<Rightarrow> string" where
  "zero_padded k n = replicate (k - length (nat_digits n)) CHR ''0'' @ nat_digits n"

text \<open>\<open>datetime.isoformat()\<close> at the start of a day.\<close>

definition iso_midnight :: "calendar_day \<Rightarrow> string" where
  "iso_midnight c =
     zero_padded 4 (cd_year c) @ ''-'' @ zero_padded 2 (cd_month c) @ ''-'' @ zero_padded 2 (cd_day c) @ ''T00:00:00''"

definition date_only_texts :: "string \<Rightarrow> query_error + string \<times> string" where
  "date_only_texts s =
     (if \<not> is_iso_date s then Inl PyValueError
      else case next_day (day_of_text s) of
        None \<Rightarrow> Inl PyOverflowError
      | Some c \<Rightarrow> Inr (iso_midnight (day_of_text s), iso_midnight c))"

definition marked_day :: "sql_dialect \<Rightarrow> string \<Rightarrow> string \<Rightarrow> string \<Rightarrow> string \<Rightarrow> string \<Rightarrow> string emitter" where
  "marked_day d col lower word upper s =
     (case date_only_texts s of
        Inl e \<Rightarrow> emit_raise e
      | Inr (a, b) \<Rightarrow>
          emit_bind (add_mark d (PStr a)) (\<lambda>p1.
          emit_bind (add_mark d (PStr b)) (\<lambda>p2.
          emit_return (parens (col @ '' '' @ lower @ '' '' @ p1 @ '' '' @ word @ '' '' @ col @ '' '' @ upper @ '' '' @ p2)))))"

definition marked_comparison :: "sql_dialect \<Rightarrow> string \<Rightarrow> comparison_operator \<Rightarrow> literal \<Rightarrow> string emitter" where
  "marked_comparison d col op l =
     emit_bind (marked_literal d l) (\<lambda>p. emit_return (col @ '' '' @ cmp_value op @ '' '' @ p))"

text \<open>
  The scalars that are put into IN: every literal but NULL, and but a date without time on a timestamp.
  Elements that equal one of them are the same kind, so the others are those that are not such scalars.
\<close>

fun marked_simple :: "bound_field \<Rightarrow> value_set_element \<Rightarrow> bool" where
  "marked_simple f (ElemLiteral NullLiteral) \<longleftrightarrow> False"
| "marked_simple f (ElemLiteral (TemporalLiteral k v)) \<longleftrightarrow>
     \<not> (is_timestamp_field f \<and> is_date_only_literal (TemporalLiteral k v))"
| "marked_simple f (ElemLiteral l) \<longleftrightarrow> True"
| "marked_simple f _ \<longleftrightarrow> False"

definition simple_literals :: "bound_field \<Rightarrow> value_set_element list \<Rightarrow> literal list" where
  "simple_literals f els = set_literals (filter (marked_simple f) (non_null els))"

definition marked_in :: "sql_dialect \<Rightarrow> bound_field \<Rightarrow> string \<Rightarrow> string \<Rightarrow> value_set_element list \<Rightarrow> string list emitter" where
  "marked_in d f col word els =
     (let lits = simple_literals f els in
      if lits = [] then emit_return []
      else emit_bind (emit_map (\<lambda>l. add_mark d (marked_parameter d l)) lits) (\<lambda>ps.
           emit_return [col @ '' '' @ word @ '' '' @ parens (join '', '' ps)]))"

definition marked_others :: "bound_field \<Rightarrow> value_set_element list \<Rightarrow> value_set_element list" where
  "marked_others f els = filter (\<lambda>el. \<not> marked_simple f el) (non_null els)"

text \<open>
  The loops over the other elements. In the one for \<open>=\<close>, SQLite's lowerer takes the constraints of \<open>elem\<close>,
  a variable of another branch that has no value here.
\<close>

fun marked_eq_other :: "sql_dialect \<Rightarrow> bound_field \<Rightarrow> string \<Rightarrow> value_set_element \<Rightarrow> string list emitter" where
  "marked_eq_other d f col (ElemRange r) =
     emit_bind (marked_between d col r) (\<lambda>s. emit_return [s])"
| "marked_eq_other d f col (ElemConstraint c) =
     emit_bind (marked_comparison d col (c_operator c) (c_value c)) (\<lambda>s. emit_return [s])"
| "marked_eq_other d f col (ElemCompound cs) =
     (if dl_unbound_element d then emit_raise PyUnboundLocalError
      else emit_bind (emit_map (\<lambda>c. marked_comparison d col (c_operator c) (c_value c)) cs)
        (\<lambda>preds. emit_return [parens (join '' AND '' preds)]))"
| "marked_eq_other d f col (ElemLiteral l) =
     (if is_timestamp_field f \<and> is_date_only_literal l
      then emit_bind (marked_day d col ''>='' ''AND'' ''<'' (date_only_text l)) (\<lambda>s. emit_return [s])
      else emit_return [])"

fun marked_neq_other :: "sql_dialect \<Rightarrow> bound_field \<Rightarrow> string \<Rightarrow> value_set_element \<Rightarrow> string list emitter" where
  "marked_neq_other d f col (ElemRange r) =
     emit_bind (marked_literal d (r_start r)) (\<lambda>a.
     emit_bind (marked_literal d (r_end r)) (\<lambda>b.
     emit_return [col @ '' NOT BETWEEN '' @ a @ '' AND '' @ b]))"
| "marked_neq_other d f col (ElemConstraint c) =
     emit_bind (marked_comparison d col (invert_operator (c_operator c)) (c_value c)) (\<lambda>s. emit_return [s])"
| "marked_neq_other d f col (ElemCompound cs) =
     emit_bind (emit_map (\<lambda>c. marked_comparison d col (invert_operator (c_operator c)) (c_value c)) cs)
       (\<lambda>preds. emit_return [parens (join '' OR '' preds)])"
| "marked_neq_other d f col (ElemLiteral l) =
     (if is_timestamp_field f \<and> is_date_only_literal l
      then emit_bind (marked_day d col ''<'' ''OR'' ''>='' (date_only_text l)) (\<lambda>s. emit_return [s])
      else emit_return [])"

definition marked_eq_set :: "sql_dialect \<Rightarrow> bound_field \<Rightarrow> string \<Rightarrow> value_set_element list \<Rightarrow> string emitter" where
  "marked_eq_set d f col els =
     emit_bind (marked_in d f col ''IN'' els) (\<lambda>ins.
     emit_bind (emit_map (marked_eq_other d f col) (marked_others f els)) (\<lambda>rest.
     (let preds = (if has_null els then [col @ '' IS NULL''] else []) @ ins @ concat rest in
      emit_return (if length preds = 1 then hd preds else parens (join '' OR '' preds)))))"

definition marked_neq_set :: "sql_dialect \<Rightarrow> bound_field \<Rightarrow> string \<Rightarrow> value_set_element list \<Rightarrow> string emitter" where
  "marked_neq_set d f col els =
     emit_bind (marked_in d f col ''NOT IN'' els) (\<lambda>ins.
     emit_bind (emit_map (marked_neq_other d f col) (marked_others f els)) (\<lambda>rest.
     (let preds = (if has_null els then [col @ '' IS NOT NULL''] else []) @ ins @ concat rest in
      emit_return
        (if \<not> has_null els then
           (if length preds = 1 then parens (hd preds @ '' OR '' @ col @ '' IS NULL'')
            else parens (parens (join '' AND '' preds) @ '' OR '' @ col @ '' IS NULL''))
         else if length preds = 1 then hd preds else parens (join '' AND '' preds)))))"

text \<open>A literal operand; its value after an ordering operator may be a set, whose value is \<open>None\<close>.\<close>

definition marked_direct :: "sql_dialect \<Rightarrow> bound_field \<Rightarrow> string \<Rightarrow> comparison_operator \<Rightarrow> literal \<Rightarrow> string emitter" where
  "marked_direct d f col op l =
     (if op = OpEQ \<and> is_timestamp_field f \<and> is_date_only_literal l
      then marked_day d col ''>='' ''AND'' ''<'' (date_only_text l)
      else
        emit_bind (marked_literal d l) (\<lambda>p.
        emit_return (if op = OpNEQ then parens (col @ '' != '' @ p @ '' OR '' @ col @ '' IS NULL'')
          else col @ '' '' @ cmp_value op @ '' '' @ p)))"

definition marked_null :: "string \<Rightarrow> comparison_operator \<Rightarrow> string" where
  "marked_null col op =
     (if op = OpEQ then col @ '' IS NULL'' else if op = OpNEQ then col @ '' IS NOT NULL''
      else col @ '' '' @ cmp_value op @ '' NULL'')"

definition marked_comparison_operator ::
  "sql_dialect \<Rightarrow> bound_field \<Rightarrow> string \<Rightarrow> comparison_operator \<Rightarrow> operand \<Rightarrow> string emitter" where
  "marked_comparison_operator d f col op v =
     (case v of
        OperandLiteral l \<Rightarrow> if l = NullLiteral then emit_return (marked_null col op) else marked_direct d f col op l
      | OperandRange r \<Rightarrow> marked_between d col r
      | OperandSet vs \<Rightarrow>
          if op = OpEQ then marked_eq_set d f col (elements vs)
          else if op = OpNEQ then marked_neq_set d f col (elements vs)
          else emit_bind (add_mark d PNone) (\<lambda>p. emit_return (col @ '' '' @ cmp_value op @ '' '' @ p)))"

definition marked_field_expression :: "sql_dialect \<Rightarrow> bound_field \<Rightarrow> field_operator \<Rightarrow> operand \<Rightarrow> string emitter" where
  "marked_field_expression d f op v =
     (let col = marked_field_path d f in
      case op of
        StringOp s \<Rightarrow> marked_string_operator d col s v
      | Comparison c \<Rightarrow> marked_comparison_operator d f col c v)"

fun marked_expression :: "sql_dialect \<Rightarrow> bound_expression \<Rightarrow> string emitter" where
  "marked_expression d (BoundField f op v) = marked_field_expression d f op v"
| "marked_expression d (BoundNegation e) =
     emit_bind (marked_expression d e) (\<lambda>s.
     emit_return (if is_parenthesised s then ''NOT '' @ s else ''NOT '' @ parens s))"
| "marked_expression d (BoundLogical op l r) =
     emit_bind (marked_expression d l) (\<lambda>a.
     emit_bind (marked_expression d r) (\<lambda>b.
     emit_return (parens (a @ '' '' @ logical_value op @ '' '' @ b))))"

section \<open>Statements\<close>

definition marked_query :: "sql_dialect \<Rightarrow> bound_ir \<Rightarrow> string emitter \<Rightarrow> query_error + physical_query" where
  "marked_query d b m =
     bindE (m []) (\<lambda>(text, ps).
     Inr \<lparr>pq_dialect = dl_name d, pq_query = text, pq_parameters = ps,
          pq_source_id = b_source_id b, pq_source_name = b_source_name b\<rparr>)"

definition marked_row :: "sql_dialect \<Rightarrow> bound_record \<Rightarrow> string emitter" where
  "marked_row d r =
     emit_bind (emit_map (marked_literal d \<circ> ba_value) (br_assignments r))
       (\<lambda>vals. emit_return (parens (join '', '' vals)))"

definition marked_insert :: "sql_dialect \<Rightarrow> string \<Rightarrow> bound_record list \<Rightarrow> string emitter" where
  "marked_insert d table grp =
     emit_bind (emit_map (marked_row d) grp) (\<lambda>rows.
     emit_return (''INSERT INTO '' @ table @ '' '' @
       parens (join '', '' (map (dl_quote d) (record_columns (hd grp)))) @
       '' VALUES '' @ join '', '' rows @ dl_returning d @ '';''))"

definition marked_create :: "sql_dialect \<Rightarrow> bound_ir \<Rightarrow> query_error + physical_result" where
  "marked_create d b =
     bindE (mapE (\<lambda>grp. marked_query d b (marked_insert d (dl_table d (b_entity b)) grp))
              (group_records (create_records b))) (\<lambda>qs.
     Inr (if length qs = 1 then SingleQuery (hd qs)
          else QueryBatch \<lparr>pb_dialect = dl_name d, pb_queries = qs,
                 pb_source_id = b_source_id b, pb_source_name = b_source_name b\<rparr>))"

definition marked_where :: "sql_dialect \<Rightarrow> bound_expression option \<Rightarrow> string emitter" where
  "marked_where d w =
     (case w of
        None \<Rightarrow> emit_return []
      | Some e \<Rightarrow> emit_bind (marked_expression d e) (\<lambda>s. emit_return ('' WHERE '' @ s)))"

definition marked_set_item :: "sql_dialect \<Rightarrow> bound_assignment \<Rightarrow> string emitter" where
  "marked_set_item d a =
     emit_bind (marked_literal d (ba_value a)) (\<lambda>p.
     emit_return (dl_quote d (leaf (bf_path (ba_field a))) @ '' = '' @ p))"

definition marked_update :: "sql_dialect \<Rightarrow> bound_ir \<Rightarrow> string emitter" where
  "marked_update d b =
     emit_bind (emit_map (marked_set_item d) (b_assignments b)) (\<lambda>items.
     emit_bind (marked_where d (b_where b)) (\<lambda>w.
     emit_return (''UPDATE '' @ dl_table d (b_entity b) @ '' SET '' @ join '', '' items @ w @ dl_returning d @ '';'')))"

definition marked_delete :: "sql_dialect \<Rightarrow> bound_ir \<Rightarrow> string emitter" where
  "marked_delete d b =
     emit_bind (marked_where d (b_where b)) (\<lambda>w.
     emit_return (''DELETE FROM '' @ dl_table d (b_entity b) @ w @ dl_returning d @ '';''))"

definition marked_select_item :: "sql_dialect \<Rightarrow> bound_selection \<Rightarrow> string" where
  "marked_select_item d s =
     (let col = marked_field_path d (bs_field s) in
      case bs_alias s of
        Some a \<Rightarrow> if a = [] then col else col @ '' AS '' @ dl_quote d a
      | None \<Rightarrow> col)"

definition marked_select_clause :: "sql_dialect \<Rightarrow> bound_ir \<Rightarrow> string" where
  "marked_select_clause d b =
     (if b_is_wildcard_projection b then ''SELECT *''
      else ''SELECT '' @ join '', '' (map (marked_select_item d) (b_projection b)))"

definition marked_order_by :: "sql_dialect \<Rightarrow> bound_ir \<Rightarrow> string list" where
  "marked_order_by d b =
     (case b_ranking b of
        None \<Rightarrow> []
      | Some r \<Rightarrow> [marked_field_path d (brk_field r) @ '' '' @
          (if brk_direction r = TOP then ''DESC'' else ''ASC'')]) @
     map (\<lambda>s. marked_field_path d (bsc_field s) @ '' '' @ sort_value (bsc_direction s)) (b_sort b) @
     (if b_ranking b = None \<and> b_sort b = []
      then map (\<lambda>c. dl_quote d c @ '' ASC'') (be_primary_key (b_entity b)) else [])"

definition marked_read :: "sql_dialect \<Rightarrow> bound_ir \<Rightarrow> string emitter" where
  "marked_read d b =
     emit_bind
       (case b_where b of
          None \<Rightarrow> emit_return []
        | Some e \<Rightarrow> emit_bind (marked_expression d e) (\<lambda>s. emit_return [''WHERE '' @ s])) (\<lambda>w.
     emit_return (join '' ''
       ([marked_select_clause d b, ''FROM '' @ dl_table d (b_entity b)] @ w @
        (if marked_order_by d b = [] then [] else [''ORDER BY '' @ join '', '' (marked_order_by d b)]) @
        (case limit_value b of None \<Rightarrow> [] | Some n \<Rightarrow> [''LIMIT '' @ show_int n]) @
        (case b_offset b of None \<Rightarrow> [] | Some n \<Rightarrow> [''OFFSET '' @ show_int n])) @ '';''))"

definition marked_lower :: "sql_dialect \<Rightarrow> bound_ir \<Rightarrow> query_error + physical_result" where
  "marked_lower d b =
     (case b_operation b of
        CREATE \<Rightarrow> marked_create d b
      | UPDATE \<Rightarrow> bindE (marked_query d b (marked_update d b)) (\<lambda>q. Inr (SingleQuery q))
      | DELETE \<Rightarrow> bindE (marked_query d b (marked_delete d b)) (\<lambda>q. Inr (SingleQuery q))
      | READ \<Rightarrow> bindE (marked_query d b (marked_read d b)) (\<lambda>q. Inr (SingleQuery q)))"

text \<open>\<open>SQLiteLowerer.lower\<close> and \<open>MySQLLowerer.lower\<close>.\<close>

definition sqlite_lower :: "bound_ir \<Rightarrow> query_error + physical_result" where
  "sqlite_lower = marked_lower sqlite_dialect"

definition mysql_lower :: "bound_ir \<Rightarrow> query_error + physical_result" where
  "mysql_lower = marked_lower mysql_dialect"

end
