(* ===== verification/Sql_Predicates.thy ===== *)
theory Sql_Predicates
  imports Postgres
begin

text \<open>
  An abstract view of the lowered conditions, shared by the SQL lowerers: predicates on one column and
  trees of them, and their text in a dialect. A dialect is a \<open>sql_writer\<close>: how a placeholder is spelled,
  how a value is handed to the driver, and the words for the current date and time and for escaped
  patterns. The PostgreSQL lowerer is shown to write the predicates that \<open>c_expression\<close> compiles, and the
  written text is a template of placeholders.
\<close>

section \<open>Predicates and their text\<close>

datatype sql_arg = AParam sql_param | ANull | AToday | ANow

datatype sql_pred =
    PCmp comparison_operator sql_arg
  | PIsNull
  | PNotNull
  | PBetween sql_arg sql_arg
  | PNotBetween sql_arg sql_arg
  | PIn "sql_arg list"
  | PNotIn "sql_arg list"
  | PMatch bool sql_param
  | PAnd "sql_pred list"
  | POr "sql_pred list"
  | PTrue

datatype sql_tree =
    TPred string sql_pred
  | TLogical logical_operator sql_tree sql_tree
  | TNot sql_tree

record sql_writer =
  wr_mark :: "nat \<Rightarrow> string"
  wr_encode :: "sql_param \<Rightarrow> sql_param"
  wr_today :: string
  wr_now :: string
  wr_escape :: string

definition write_param :: "sql_writer \<Rightarrow> sql_param \<Rightarrow> string emitter" where
  "write_param w v = (\<lambda>ps. Inr (wr_mark w (Suc (length ps)), ps @ [wr_encode w v]))"

fun write_arg :: "sql_writer \<Rightarrow> sql_arg \<Rightarrow> string emitter" where
  "write_arg w (AParam v) = write_param w v"
| "write_arg w ANull = emit_return ''NULL''"
| "write_arg w AToday = emit_return (wr_today w)"
| "write_arg w ANow = emit_return (wr_now w)"

fun write_pred :: "sql_writer \<Rightarrow> string \<Rightarrow> sql_pred \<Rightarrow> string emitter" where
  "write_pred w col (PCmp op a) =
     emit_bind (write_arg w a) (\<lambda>p. emit_return (col @ '' '' @ cmp_value op @ '' '' @ p))"
| "write_pred w col PIsNull = emit_return (col @ '' IS NULL'')"
| "write_pred w col PNotNull = emit_return (col @ '' IS NOT NULL'')"
| "write_pred w col (PBetween a b) =
     emit_bind (write_arg w a) (\<lambda>x. emit_bind (write_arg w b) (\<lambda>y.
     emit_return (col @ '' BETWEEN '' @ x @ '' AND '' @ y)))"
| "write_pred w col (PNotBetween a b) =
     emit_bind (write_arg w a) (\<lambda>x. emit_bind (write_arg w b) (\<lambda>y.
     emit_return (col @ '' NOT BETWEEN '' @ x @ '' AND '' @ y)))"
| "write_pred w col (PIn as) =
     emit_bind (emit_map (write_arg w) as) (\<lambda>ps. emit_return (col @ '' IN '' @ parens (join '', '' ps)))"
| "write_pred w col (PNotIn as) =
     emit_bind (emit_map (write_arg w) as) (\<lambda>ps. emit_return (col @ '' NOT IN '' @ parens (join '', '' ps)))"
| "write_pred w col (PMatch neg v) =
     emit_bind (write_param w v) (\<lambda>p.
     emit_return (col @ '' '' @ (if neg then ''NOT LIKE'' else ''LIKE'') @ '' '' @ p @ wr_escape w))"
| "write_pred w col (PAnd ps) =
     emit_bind (emit_map (write_pred w col) ps) (\<lambda>ss. emit_return (parens (join '' AND '' ss)))"
| "write_pred w col (POr ps) =
     emit_bind (emit_map (write_pred w col) ps) (\<lambda>ss. emit_return (parens (join '' OR '' ss)))"
| "write_pred w col PTrue = emit_return ''1=1''"

fun is_group :: "sql_tree \<Rightarrow> bool" where
  "is_group (TPred col (PAnd ps)) \<longleftrightarrow> True"
| "is_group (TPred col (POr ps)) \<longleftrightarrow> True"
| "is_group (TLogical op l r) \<longleftrightarrow> True"
| "is_group _ \<longleftrightarrow> False"

fun write_tree :: "sql_writer \<Rightarrow> sql_tree \<Rightarrow> string emitter" where
  "write_tree w (TPred col p) = write_pred w col p"
| "write_tree w (TLogical op l r) =
     emit_bind (write_tree w l) (\<lambda>a. emit_bind (write_tree w r) (\<lambda>b.
     emit_return (parens (a @ '' '' @ logical_value op @ '' '' @ b))))"
| "write_tree w (TNot t) =
     emit_bind (write_tree w t) (\<lambda>s. emit_return (''NOT '' @ (if is_group t then s else parens s)))"

text \<open>The dialect of PostgreSQL.\<close>

definition dollar_mark :: "nat \<Rightarrow> string" where
  "dollar_mark n = CHR ''$'' # nat_digits n"

definition postgres_writer :: sql_writer where
  "postgres_writer =
     \<lparr>wr_mark = dollar_mark, wr_encode = id, wr_today = ''CURRENT_DATE'', wr_now = ''CURRENT_TIMESTAMP'',
      wr_escape = escape_clause\<rparr>"

lemma postgres_writer_simps [simp]:
  "wr_mark postgres_writer = dollar_mark" "wr_encode postgres_writer = id"
  "wr_today postgres_writer = ''CURRENT_DATE''" "wr_now postgres_writer = ''CURRENT_TIMESTAMP''"
  "wr_escape postgres_writer = escape_clause" "write_param postgres_writer = add_param"
  by (simp_all add: postgres_writer_def write_param_def add_param_def dollar_mark_def fun_eq_iff)

abbreviation render_arg :: "sql_arg \<Rightarrow> string emitter" where
  "render_arg \<equiv> write_arg postgres_writer"

abbreviation render :: "string \<Rightarrow> sql_pred \<Rightarrow> string emitter" where
  "render \<equiv> write_pred postgres_writer"

abbreviation render_tree :: "sql_tree \<Rightarrow> string emitter" where
  "render_tree \<equiv> write_tree postgres_writer"

section \<open>Compilation of conditions\<close>

definition arg_of :: "literal \<Rightarrow> sql_arg" where
  "arg_of l =
     (case l of
        TemporalLiteral k v \<Rightarrow>
          if k = Some TODAY then AToday else if k = Some NOW then ANow
          else if v \<noteq> None then AParam (convert_literal_to_parameter l) else ANull
      | NullLiteral \<Rightarrow> ANull
      | _ \<Rightarrow> AParam (convert_literal_to_parameter l))"

definition c_between :: "lit_range \<Rightarrow> sql_pred" where
  "c_between r = PBetween (arg_of (r_start r)) (arg_of (r_end r))"

definition c_pattern :: "bool \<Rightarrow> value_set_element \<Rightarrow> sql_pred" where
  "c_pattern neg el = PMatch neg (like_param ''%'' el ''%'')"

fun c_has_element :: "value_set_element \<Rightarrow> sql_pred" where
  "c_has_element (ElemRange r) = c_between r"
| "c_has_element el = c_pattern False el"

fun c_not_has_element :: "value_set_element \<Rightarrow> sql_pred" where
  "c_not_has_element (ElemRange r) = POr [PCmp OpLT (arg_of (r_start r)), PCmp OpGT (arg_of (r_end r))]"
| "c_not_has_element el = c_pattern True el"

definition c_any :: "sql_pred list \<Rightarrow> sql_pred" where
  "c_any ps = (if ps = [] then PTrue else if length ps = 1 then hd ps else POr ps)"

definition c_all :: "sql_pred list \<Rightarrow> sql_pred" where
  "c_all ps = (if ps = [] then PTrue else if length ps = 1 then hd ps else PAnd ps)"

definition c_has_set :: "value_set_element list \<Rightarrow> sql_pred" where
  "c_has_set els = c_any ((if has_null els then [PIsNull] else []) @ map c_has_element (non_null els))"

definition c_not_has_set :: "value_set_element list \<Rightarrow> sql_pred" where
  "c_not_has_set els =
     (let nl = map c_not_has_element (non_null els) in
      if has_null els then
        (if nl = [] then PNotNull
         else if length nl = 1 then PAnd [hd nl, PNotNull] else PAnd [PAnd nl, PNotNull])
      else
        (if nl = [] then PIsNull
         else if length nl = 1 then POr [hd nl, PIsNull] else POr [PAnd nl, PIsNull]))"

definition c_string :: "string_operator \<Rightarrow> operand \<Rightarrow> sql_pred" where
  "c_string op v =
     (let el = operand_element v;
          direct = (case op of
              STARTS \<Rightarrow> PMatch False (like_param '''' el ''%'')
            | ENDS \<Rightarrow> PMatch False (like_param ''%'' el '''')
            | HAS \<Rightarrow> PMatch False (like_param ''%'' el ''%'')
            | NOT_HAS \<Rightarrow> POr [PMatch True (like_param ''%'' el ''%''), PIsNull])
      in case v of
           OperandSet vs \<Rightarrow>
             if op = HAS then c_has_set (elements vs)
             else if op = NOT_HAS then c_not_has_set (elements vs)
             else direct
         | _ \<Rightarrow> direct)"

definition c_day :: "string \<Rightarrow> query_error + sql_pred" where
  "c_day s =
     bindE (parse_date_only_range s) (\<lambda>(a, b).
     Inr (PAnd [PCmp OpGTE (AParam a), PCmp OpLT (AParam b)]))"

definition c_not_equal :: "literal \<Rightarrow> sql_pred" where
  "c_not_equal l = POr [PCmp OpNEQ (arg_of l), PIsNull]"

definition c_constraint :: "bound_field \<Rightarrow> comparison_constraint \<Rightarrow> query_error + sql_pred" where
  "c_constraint f c =
     (if c_value c = NullLiteral then
        Inr (if c_operator c = OpEQ then PIsNull else if c_operator c = OpNEQ then PNotNull
             else PCmp (c_operator c) ANull)
      else if c_operator c = OpEQ \<and> is_timestamp_field f \<and> is_date_only_literal (c_value c)
      then c_day (date_only_text (c_value c))
      else Inr (PCmp (c_operator c) (arg_of (c_value c))))"

definition c_eq_literal :: "bound_field \<Rightarrow> literal \<Rightarrow> query_error + sql_pred" where
  "c_eq_literal f l =
     (if l = NullLiteral then Inr PIsNull
      else if is_timestamp_field f \<and> is_date_only_literal l then c_day (date_only_text l)
      else Inr (PCmp OpEQ (arg_of l)))"

definition c_compound :: "comparison_constraint list \<Rightarrow> sql_pred" where
  "c_compound cs = PAnd (map (\<lambda>c. PCmp (c_operator c) (arg_of (c_value c))) cs)"

fun c_eq_element :: "bound_field \<Rightarrow> value_set_element \<Rightarrow> query_error + sql_pred" where
  "c_eq_element f (ElemLiteral l) = c_eq_literal f l"
| "c_eq_element f (ElemRange r) = Inr (c_between r)"
| "c_eq_element f (ElemConstraint c) = c_constraint f c"
| "c_eq_element f (ElemCompound cs) = Inr (c_compound cs)"

definition c_eq_set :: "bound_field \<Rightarrow> value_set_element list \<Rightarrow> query_error + sql_pred" where
  "c_eq_set f els =
     (let nn = non_null els; args = map arg_of (set_literals nn) in
      if simple_set f nn \<and> has_null els \<and> length nn = 0 then Inr PIsNull
      else if simple_set f nn \<and> has_null els \<and> length nn = 1 then Inr (POr [PCmp OpEQ (hd args), PIsNull])
      else if simple_set f nn \<and> has_null els then Inr (POr [PIn args, PIsNull])
      else if simple_set f nn \<and> 0 < length nn then Inr (PIn args)
      else bindE (mapE (c_eq_element f) els) (\<lambda>ps. Inr (c_any ps)))"

fun c_neq_element :: "value_set_element \<Rightarrow> sql_pred list" where
  "c_neq_element (ElemLiteral l) = [if l = NullLiteral then PNotNull else c_not_equal l]"
| "c_neq_element (ElemRange r) =
     [POr [PCmp OpLT (arg_of (r_start r)), PCmp OpGT (arg_of (r_end r)), PIsNull]]"
| "c_neq_element (ElemConstraint c) =
     (if c_value c = NullLiteral then
        (if c_operator c = OpEQ then [PNotNull] else if c_operator c = OpNEQ then [PIsNull] else [])
      else [POr [PCmp (invert_operator (c_operator c)) (arg_of (c_value c)), PIsNull]])"
| "c_neq_element (ElemCompound cs) = []"

definition c_neq_set :: "bound_field \<Rightarrow> value_set_element list \<Rightarrow> sql_pred" where
  "c_neq_set f els =
     (let nn = non_null els; args = map arg_of (set_literals nn) in
      if simple_set f nn \<and> has_null els \<and> length nn = 0 then PNotNull
      else if simple_set f nn \<and> has_null els \<and> length nn = 1 then PAnd [PCmp OpNEQ (hd args), PNotNull]
      else if simple_set f nn \<and> has_null els then PAnd [PNotIn args, PNotNull]
      else if simple_set f nn \<and> 0 < length nn then POr [PNotIn args, PIsNull]
      else c_all (concat (map c_neq_element els)))"

fun is_temporal :: "literal \<Rightarrow> bool" where
  "is_temporal (TemporalLiteral k v) \<longleftrightarrow> True"
| "is_temporal _ \<longleftrightarrow> False"

definition c_direct :: "bound_field \<Rightarrow> comparison_operator \<Rightarrow> literal \<Rightarrow> query_error + sql_pred" where
  "c_direct f op l =
     (if op = OpNEQ \<and> l \<noteq> NullLiteral \<and> \<not> is_temporal l then Inr (c_not_equal l)
      else c_constraint f (ComparisonConstraint op l))"

definition c_comparison :: "bound_field \<Rightarrow> comparison_operator \<Rightarrow> operand \<Rightarrow> query_error + sql_pred" where
  "c_comparison f op v =
     (case v of
        OperandLiteral l \<Rightarrow> c_direct f op l
      | OperandRange r \<Rightarrow> Inr (c_between r)
      | OperandSet vs \<Rightarrow>
          if op = OpEQ then c_eq_set f (elements vs)
          else if op = OpNEQ then Inr (c_neq_set f (elements vs))
          else Inr (PCmp OpEQ (AParam PNone)))"

definition c_field :: "bound_field \<Rightarrow> field_operator \<Rightarrow> operand \<Rightarrow> query_error + sql_pred" where
  "c_field f op v = (case op of StringOp s \<Rightarrow> Inr (c_string s v) | Comparison c \<Rightarrow> c_comparison f c v)"

fun c_expression :: "bound_expression \<Rightarrow> query_error + sql_tree" where
  "c_expression (BoundField f op v) = bindE (c_field f op v) (\<lambda>p. Inr (TPred (lower_field_path f) p))"
| "c_expression (BoundLogical op l r) =
     bindE (c_expression l) (\<lambda>a. bindE (c_expression r) (\<lambda>b. Inr (TLogical op a b)))"
| "c_expression (BoundNegation e) = bindE (c_expression e) (\<lambda>t. Inr (TNot t))"

section \<open>The lowerer writes the compiled predicates\<close>

text \<open>Writing the result of a compilation that may fail.\<close>

definition write_result :: "('a \<Rightarrow> 'b emitter) \<Rightarrow> query_error + 'a \<Rightarrow> 'b emitter" where
  "write_result r c = (case c of Inl e \<Rightarrow> emit_raise e | Inr p \<Rightarrow> r p)"

lemma write_simps [simp]: "write_result r (Inr p) = r p" "write_result r (Inl e) = emit_raise e"
  by (simp_all add: write_result_def)

definition never_fails :: "'a emitter \<Rightarrow> bool" where
  "never_fails m \<longleftrightarrow> (\<forall>ps. \<exists>x qs. m ps = Inr (x, qs))"

lemma never_fails_return [simp]: "never_fails (emit_return x)"
  by (simp add: never_fails_def emit_return_def)

lemma never_fails_param [simp]: "never_fails (write_param w v)"
  by (simp add: never_fails_def write_param_def)

lemma never_fails_bind: "never_fails m \<Longrightarrow> (\<And>x. never_fails (f x)) \<Longrightarrow> never_fails (emit_bind m f)"
  unfolding never_fails_def emit_bind_def by (metis bindE_simps(2) case_prod_conv)

lemma never_fails_map: "(\<And>x. x \<in> set xs \<Longrightarrow> never_fails (f x)) \<Longrightarrow> never_fails (emit_map f xs)"
  by (induction xs) (auto intro!: never_fails_bind)

lemma never_fails_raise: "never_fails m \<Longrightarrow> emit_bind m (\<lambda>x. emit_raise e) = emit_raise e"
  unfolding never_fails_def emit_bind_def emit_raise_def by (rule ext) (metis bindE_simps(2) case_prod_conv)

lemma never_fails_arg [simp]: "never_fails (write_arg w a)"
  by (cases a) simp_all

lemma never_fails_render [simp]: "never_fails (write_pred w col p)"
  by (induction p) (auto intro!: never_fails_bind never_fails_map)

lemma never_fails_tree [simp]: "never_fails (write_tree w t)"
  by (induction t) (auto intro!: never_fails_bind)

lemma emit_map_write:
  assumes "\<And>p. never_fails (r p)"
  shows "emit_map (\<lambda>x. write_result r (c x)) xs =
     (case mapE c xs of Inl e \<Rightarrow> emit_raise e | Inr ps \<Rightarrow> emit_map r ps)"
proof (induction xs)
  case (Cons x xs)
  then show ?case
    by (cases "c x"; cases "mapE c xs") (simp_all add: never_fails_raise assms)
qed simp

lemma lower_literal_render: "lower_literal l = render_arg (arg_of l)"
  by (cases l) (simp_all add: lower_literal_def arg_of_def)

lemma lower_literal_fun: "lower_literal = (\<lambda>l. render_arg (arg_of l))"
  by (rule ext) (rule lower_literal_render)

lemma lower_between_render: "lower_between col r = render col (c_between r)"
  by (simp add: lower_between_def c_between_def lower_literal_render)

lemma lower_comparison_render: "lower_comparison col op l = render col (PCmp op (arg_of l))"
  by (simp add: lower_comparison_def lower_literal_render)

lemma lower_not_equal_render: "lower_not_equal col l = render col (c_not_equal l)"
  by (simp add: lower_not_equal_def lower_literal_render c_not_equal_def)

lemma lower_like_render:
  "lower_like col ''LIKE'' v = render col (PMatch False v)"
  "lower_like col ''NOT LIKE'' v = render col (PMatch True v)"
  by (simp_all add: lower_like_def)

lemma lower_has_element_render: "lower_has_element col el = render col (c_has_element el)"
  by (cases el) (simp_all add: lower_has_element_def lower_between_render lower_like_render c_pattern_def
      del: write_pred.simps)

lemma lower_not_has_element_render: "lower_not_has_element col el = render col (c_not_has_element el)"
  by (cases el) (simp_all add: lower_not_has_element_def lower_literal_render lower_like_def c_pattern_def)

lemma lower_day_render: "lower_day col s = write_result (render col) (c_day s)"
  by (auto simp: lower_day_def c_day_def split: sum.split)

lemma emit_map_single: "length xs = 1 \<Longrightarrow> emit_map f xs = emit_bind (f (hd xs)) (\<lambda>y. emit_return [y])"
  by (cases xs) auto

text \<open>Emitting a list, then using its first or only element, or all of them.\<close>

lemma emit_map_length:
  assumes "\<And>ss. length ss = length xs \<Longrightarrow> g ss = h ss"
  shows "emit_bind (emit_map f xs) g = emit_bind (emit_map f xs) h"
proof -
  have len: "emit_map f xs ps = Inr (ss, qs) \<Longrightarrow> length ss = length xs" for ss ps qs
  proof (induction xs arbitrary: ss ps qs)
    case (Cons x xs)
    then show ?case by (fastforce simp: emit_bind_def emit_return_def bindE_Inr_iff)
  qed (simp add: emit_return_def)
  show ?thesis
  proof (rule ext)
    fix ps
    show "emit_bind (emit_map f xs) g ps = emit_bind (emit_map f xs) h ps"
    proof (cases "emit_map f xs ps")
      case (Inr r)
      then show ?thesis using assms [OF len, of ps "fst r" "snd r"] by (cases r) (simp add: emit_bind_def)
    qed (simp add: emit_bind_def)
  qed
qed

lemma combine_any: "emit_bind (emit_map (write_pred w col) ps) (\<lambda>ss. emit_return (combine '' OR '' ss)) = write_pred w col (c_any ps)"
proof (cases "length ps \<le> 1")
  case True
  then consider "ps = []" | p where "ps = [p]" by (cases ps) auto
  then show ?thesis by cases (simp_all add: combine_def c_any_def)
next
  case False
  have "emit_bind (emit_map (write_pred w col) ps) (\<lambda>ss. emit_return (combine '' OR '' ss)) =
      emit_bind (emit_map (write_pred w col) ps) (\<lambda>ss. emit_return (parens (join '' OR '' ss)))"
    using False by (intro emit_map_length) (auto simp: combine_def)
  with False show ?thesis by (cases ps) (auto simp: c_any_def)
qed

lemma combine_all: "emit_bind (emit_map (write_pred w col) ps) (\<lambda>ss. emit_return (combine '' AND '' ss)) = write_pred w col (c_all ps)"
proof (cases "length ps \<le> 1")
  case True
  then consider "ps = []" | p where "ps = [p]" by (cases ps) auto
  then show ?thesis by cases (simp_all add: combine_def c_all_def)
next
  case False
  have "emit_bind (emit_map (write_pred w col) ps) (\<lambda>ss. emit_return (combine '' AND '' ss)) =
      emit_bind (emit_map (write_pred w col) ps) (\<lambda>ss. emit_return (parens (join '' AND '' ss)))"
    using False by (intro emit_map_length) (auto simp: combine_def)
  with False show ?thesis by (cases ps) (auto simp: c_all_def)
qed

lemma emit_map_render: "(\<And>x. f x = write_pred w col (c x)) \<Longrightarrow> emit_map f xs = emit_map (write_pred w col) (map c xs)"
  by (induction xs) simp_all

lemma has_set_written:
  assumes "\<And>el. f el = write_pred w col (c_has_element el)"
  shows "emit_bind (emit_map f (non_null els)) (\<lambda>preds.
      emit_return (combine '' OR '' ((if has_null els then [col @ '' IS NULL''] else []) @ preds))) =
    write_pred w col (c_has_set els)"
proof -
  have "emit_bind (emit_map f (non_null els)) (\<lambda>preds.
      emit_return (combine '' OR '' ((if has_null els then [col @ '' IS NULL''] else []) @ preds))) =
      emit_bind (emit_map (write_pred w col) ((if has_null els then [PIsNull] else []) @ map c_has_element (non_null els)))
        (\<lambda>ss. emit_return (combine '' OR '' ss))"
    by (simp add: emit_map_render [where f = f and c = c_has_element, OF assms])
  then show ?thesis by (simp add: combine_any c_has_set_def)
qed

lemma not_has_set_written:
  assumes "\<And>el. f el = write_pred w col (c_not_has_element el)"
  shows "emit_bind (emit_map f (non_null els)) (\<lambda>nl. emit_return
       (if has_null els then
          (if nl = [] then col @ '' IS NOT NULL''
           else if length nl = 1 then parens (hd nl @ '' AND '' @ col @ '' IS NOT NULL'')
           else parens (parens (join '' AND '' nl) @ '' AND '' @ col @ '' IS NOT NULL''))
        else
          (if nl = [] then col @ '' IS NULL''
           else if length nl = 1 then parens (hd nl @ '' OR '' @ col @ '' IS NULL'')
           else parens (parens (join '' AND '' nl) @ '' OR '' @ col @ '' IS NULL'')))) =
    write_pred w col (c_not_has_set els)" (is "emit_bind _ (\<lambda>nl. emit_return (?text nl)) = _")
proof -
  let ?nl = "map c_not_has_element (non_null els)"
  have "emit_bind (emit_map f (non_null els)) (\<lambda>nl. emit_return (?text nl)) =
      emit_bind (emit_map (write_pred w col) ?nl) (\<lambda>nl. emit_return (?text nl))"
    by (simp only: emit_map_render [where f = f and c = c_not_has_element, OF assms])
  also have "\<dots> = write_pred w col (c_not_has_set els)"
  proof (cases "length ?nl \<le> 1")
    case True
    then consider "?nl = []" | q where "?nl = [q]" by (cases ?nl) auto
    then show ?thesis by cases (cases "has_null els"; simp add: c_not_has_set_def)+
  next
    case False
    then have "emit_bind (emit_map (write_pred w col) ?nl) (\<lambda>nl. emit_return (?text nl)) =
      emit_bind (emit_map (write_pred w col) ?nl) (\<lambda>nl. emit_return
       (if has_null els then parens (parens (join '' AND '' nl) @ '' AND '' @ col @ '' IS NOT NULL'')
        else parens (parens (join '' AND '' nl) @ '' OR '' @ col @ '' IS NULL'')))"
      by (intro emit_map_length) auto
    with False show ?thesis by (cases ?nl) (auto simp: c_not_has_set_def Let_def)
  qed
  finally show ?thesis .
qed

lemma lower_has_set_render: "lower_has_set col els = render col (c_has_set els)"
  unfolding lower_has_set_def non_null_def [symmetric] has_null_def [symmetric]
  by (rule has_set_written) (rule lower_has_element_render)

lemma lower_not_has_set_render: "lower_not_has_set col els = render col (c_not_has_set els)"
  unfolding lower_not_has_set_def non_null_def [symmetric] has_null_def [symmetric]
  by (rule not_has_set_written) (rule lower_not_has_element_render)

lemma lower_string_render: "lower_string_operator col op v = render col (c_string op v)"
  by (cases v; cases op) (simp_all add: lower_string_operator_def c_string_def Let_def
      lower_like_def lower_has_set_render lower_not_has_set_render)

lemma lower_eq_constraint_render:
  "lower_eq_constraint f col c = write_result (render col) (c_constraint f c)"
  by (simp add: lower_eq_constraint_def c_constraint_def lower_day_render lower_comparison_render
      del: write_pred.simps(1)) simp

lemma lower_eq_literal_render: "lower_eq_literal f col l = write_result (render col) (c_eq_literal f l)"
proof (cases l)
  case (TemporalLiteral k v)
  then show ?thesis
    by (cases k) (auto simp: lower_eq_literal_def c_eq_literal_def lower_day_render
        lower_comparison_def lower_literal_render arg_of_def is_date_only_literal_def
        split: temporal_keyword.splits option.splits intro: temporal_keyword.exhaust)
qed (simp_all add: lower_eq_literal_def c_eq_literal_def lower_comparison_def lower_literal_render
    is_date_only_literal_def)

lemma lower_eq_element_render: "lower_eq_element f col el = write_result (render col) (c_eq_element f el)"
proof (cases el)
  case (ElemCompound cs)
  have "emit_map (\<lambda>c. lower_comparison col (c_operator c) (c_value c)) cs =
      emit_map (render col) (map (\<lambda>c. PCmp (c_operator c) (arg_of (c_value c))) cs)"
    by (rule emit_map_render) (rule lower_comparison_render)
  then show ?thesis by (simp add: ElemCompound lower_compound_def c_compound_def)
qed (simp_all add: lower_eq_literal_render lower_between_render lower_eq_constraint_render del: write_pred.simps)

lemma set_literals_simple:
  "list_all is_simple_element nn \<Longrightarrow> length (set_literals nn) = length nn"
  by (induction nn) (auto simp: set_literals_def elim: is_simple_element.elims)

lemma lower_eq_set_render: "lower_eq_set f col els = write_result (render col) (c_eq_set f els)"
proof -
  let ?nn = "non_null els" and ?lits = "set_literals (non_null els)"
  have lits: "emit_map lower_literal ?lits = emit_map render_arg (map arg_of ?lits)"
    by (simp add: emit_map_map comp_def lower_literal_fun)
  have one: "hd (map arg_of ?lits) = arg_of (hd ?lits)" if "simple_set f ?nn" "length ?nn = 1"
    using that set_literals_simple [of ?nn] by (cases ?lits) (auto simp: simple_set_def)
  have complex: "emit_bind (emit_map (lower_eq_element f col) els) (\<lambda>ps. emit_return (combine '' OR '' ps)) =
      write_result (render col) (bindE (mapE (c_eq_element f) els) (\<lambda>ps. Inr (c_any ps)))"
  proof -
    have "emit_map (lower_eq_element f col) els =
        (case mapE (c_eq_element f) els of Inl e \<Rightarrow> emit_raise e | Inr ps \<Rightarrow> emit_map (render col) ps)"
      unfolding emit_map_write [of "render col", OF never_fails_render, symmetric] by (intro emit_map_cong refl) (rule lower_eq_element_render)
    then show ?thesis by (cases "mapE (c_eq_element f) els") (simp_all add: combine_any)
  qed
  show ?thesis
    unfolding lower_eq_set_def c_eq_set_def Let_def non_null_def [symmetric] has_null_def [symmetric]
    using lits one complex by (auto simp: lower_literal_render)
qed

lemma lower_neq_element_render:
  "lower_neq_element col el = emit_map (render col) (c_neq_element el)"
proof (cases el)
  case (ElemConstraint c)
  then show ?thesis by (simp add: lower_literal_render)
qed (simp_all add: lower_literal_render lower_not_equal_render c_not_equal_def)

lemma emit_map_append:
  "emit_map f (xs @ ys) = emit_bind (emit_map f xs) (\<lambda>as. emit_bind (emit_map f ys) (\<lambda>bs. emit_return (as @ bs)))"
proof (induction xs)
  case (Cons x xs)
  then show ?case by (simp add: comp_def)
qed simp

lemma emit_map_concat:
  "emit_bind (emit_map (\<lambda>x. emit_map f (c x)) xs) (\<lambda>yss. g (concat yss)) =
     emit_bind (emit_map f (concat (map c xs))) g"
proof (induction xs arbitrary: g)
  case (Cons x xs)
  have "emit_bind (emit_map (\<lambda>x. emit_map f (c x)) (x # xs)) (\<lambda>yss. g (concat yss)) =
      emit_bind (emit_map f (c x)) (\<lambda>ys.
        emit_bind (emit_map (\<lambda>x. emit_map f (c x)) xs) (\<lambda>yss. (\<lambda>zs. g (ys @ zs)) (concat yss)))"
    by simp
  also have "\<dots> = emit_bind (emit_map f (c x)) (\<lambda>ys.
        emit_bind (emit_map f (concat (map c xs))) (\<lambda>zs. g (ys @ zs)))"
    by (intro emit_bind_cong refl) (rule Cons.IH [of "\<lambda>zs. g (ys @ zs)" for ys])
  finally show ?case by (simp add: emit_map_append)
qed simp

lemma lower_neq_set_render: "lower_neq_set f col els = render col (c_neq_set f els)"
proof -
  let ?nn = "non_null els" and ?lits = "set_literals (non_null els)"
  have lits: "emit_map lower_literal ?lits = emit_map render_arg (map arg_of ?lits)"
    by (simp add: emit_map_map comp_def lower_literal_fun)
  have one: "hd (map arg_of ?lits) = arg_of (hd ?lits)" if "simple_set f ?nn" "length ?nn = 1"
    using that set_literals_simple [of ?nn] by (cases ?lits) (auto simp: simple_set_def)
  have complex: "emit_bind (emit_map (lower_neq_element col) els) (\<lambda>pss. emit_return (combine '' AND '' (concat pss))) =
      render col (c_all (concat (map c_neq_element els)))"
    unfolding combine_all [symmetric] emit_map_concat [symmetric]
    by (intro emit_bind_cong emit_map_cong refl) (rule lower_neq_element_render)
  show ?thesis
    unfolding lower_neq_set_def c_neq_set_def Let_def non_null_def [symmetric] has_null_def [symmetric]
    using lits one complex by (auto simp: lower_literal_render)
qed

lemma lower_direct_render: "lower_direct_literal f col op l = write_result (render col) (c_direct f op l)"
proof (cases l)
  case (TemporalLiteral k v)
  then show ?thesis
    by (cases k) (auto simp: lower_direct_literal_def c_direct_def c_constraint_def lower_day_render
        lower_comparison_def lower_literal_render arg_of_def is_date_only_literal_def
        split: temporal_keyword.splits option.splits intro: temporal_keyword.exhaust)
qed (auto simp: lower_direct_literal_def c_direct_def c_constraint_def lower_comparison_def
    lower_literal_render is_date_only_literal_def lower_not_equal_def c_not_equal_def)

lemma lower_field_render:
  "lower_field_expression f op v = write_result (render (lower_field_path f)) (c_field f op v)"
proof (cases op)
  case (Comparison c)
  then show ?thesis
    by (cases v) (simp_all add: lower_field_expression_def c_field_def lower_comparison_operator_def
        c_comparison_def lower_direct_render lower_between_render lower_eq_set_render lower_neq_set_render
        Let_def del: write_pred.simps(4)) 
next
  case (StringOp s)
  then show ?thesis by (simp add: lower_field_expression_def c_field_def lower_string_render Let_def)
qed

section \<open>Trees of predicates\<close>

lemma field_path_quoted: "\<exists>r. lower_field_path f = CHR 0x22 # r"
proof -
  have "\<exists>r. foldl (\<lambda>chain k. chain @ json_key ''->'' k) (CHR 0x22 # a) ks = CHR 0x22 # r" for a ks
    by (induction ks arbitrary: a) auto
  then obtain r where "foldl (\<lambda>chain k. chain @ json_key ''->'' k) (quote_ident (root (bf_path f)))
      (butlast (nested (bf_path f))) = CHR 0x22 # r"
    unfolding quote_ident_def by blast
  then show ?thesis by (simp add: lower_field_path_def Let_def quote_ident_def [of "leaf (bf_path f)"])
      (simp add: quote_ident_def)
qed

text \<open>The text of a column is not empty and does not start with a parenthesis.\<close>

definition bare :: "string \<Rightarrow> bool" where
  "bare s \<longleftrightarrow> s \<noteq> [] \<and> hd s \<noteq> CHR ''(''"

fun bare_columns :: "sql_tree \<Rightarrow> bool" where
  "bare_columns (TPred col p) \<longleftrightarrow> bare col"
| "bare_columns (TLogical op l r) \<longleftrightarrow> bare_columns l \<and> bare_columns r"
| "bare_columns (TNot t) \<longleftrightarrow> bare_columns t"

lemma field_path_bare: "bare (lower_field_path f)"
  using field_path_quoted [of f] by (auto simp: bare_def)

lemma c_expression_bare: "c_expression e = Inr t \<Longrightarrow> bare_columns t"
  by (induction e arbitrary: t) (auto simp: bindE_Inr_iff field_path_bare)

lemma parens_parenthesised: "is_parenthesised (parens s)"
  by (simp add: is_parenthesised_def parens_def)

lemma not_parenthesised: "c \<noteq> CHR ''('' \<Longrightarrow> \<not> is_parenthesised (c # s)"
  by (simp add: is_parenthesised_def)

lemma tree_text_parenthesised:
  assumes "write_tree w t ps = Inr (s, qs)" "bare_columns t"
  shows "is_parenthesised s \<longleftrightarrow> is_group t"
proof (cases t)
  case (TPred col p)
  then obtain c r where "col = c # r" "c \<noteq> CHR ''(''" using assms(2) by (cases col) (auto simp: bare_def)
  with assms(1) TPred show ?thesis
    by (cases p) (auto simp: emit_bind_def emit_return_def bindE_Inr_iff parens_parenthesised not_parenthesised)
qed (use assms(1) in \<open>auto simp: emit_bind_def emit_return_def bindE_Inr_iff parens_parenthesised not_parenthesised\<close>)

lemma negation_render:
  assumes "bare_columns t"
  shows "emit_bind (write_tree w t) (\<lambda>s. emit_return (if is_parenthesised s then ''NOT '' @ s else ''NOT '' @ parens s)) =
    write_tree w (TNot t)"
proof
  fix ps
  show "emit_bind (write_tree w t) (\<lambda>s. emit_return (if is_parenthesised s then ''NOT '' @ s else ''NOT '' @ parens s)) ps =
    write_tree w (TNot t) ps"
  proof (cases "write_tree w t ps")
    case (Inr r)
    then show ?thesis
      using tree_text_parenthesised [OF _ assms, of w ps "fst r" "snd r"]
      by (cases r) (simp add: emit_bind_def)
  qed (simp add: emit_bind_def)
qed

lemma lower_expression_render: "lower_expression e = write_result render_tree (c_expression e)"
proof (induction e)
  case (BoundField f op v)
  then show ?case by (cases "c_field f op v") (simp_all add: lower_field_render)
next
  case (BoundLogical op l r)
  then show ?case
    by (cases "c_expression l"; cases "c_expression r") (simp_all add: never_fails_raise)
next
  case (BoundNegation e)
  then show ?case
    using negation_render c_expression_bare [of e] by (cases "c_expression e") simp_all
qed

section \<open>Templates: text with placeholders\<close>

datatype piece = Text string | Slot sql_param

text \<open>\<open>mk n\<close> spells the \<open>n\<close>-th placeholder. The text of a template after \<open>k\<close> parameters, and the parameters it adds.\<close>

fun number :: "(nat \<Rightarrow> string) \<Rightarrow> nat \<Rightarrow> piece list \<Rightarrow> string" where
  "number mk k [] = []"
| "number mk k (Text s # ps) = s @ number mk k ps"
| "number mk k (Slot v # ps) = mk (Suc k) @ number mk (Suc k) ps"

fun slots :: "piece list \<Rightarrow> sql_param list" where
  "slots [] = []"
| "slots (Text s # ps) = slots ps"
| "slots (Slot v # ps) = v # slots ps"

lemma slots_append [simp]: "slots (p @ q) = slots p @ slots q"
  by (induction p rule: slots.induct) simp_all

lemma number_append [simp]: "number mk k (p @ q) = number mk k p @ number mk (k + length (slots p)) q"
  by (induction mk k p rule: number.induct) simp_all

definition templated :: "(nat \<Rightarrow> string) \<Rightarrow> string emitter \<Rightarrow> piece list \<Rightarrow> bool" where
  "templated mk m p \<longleftrightarrow> (\<forall>ps. m ps = Inr (number mk (length ps) p, ps @ slots p))"

fun join_pieces :: "string \<Rightarrow> piece list list \<Rightarrow> piece list" where
  "join_pieces sep [] = []"
| "join_pieces sep [p] = p"
| "join_pieces sep (p # q # r) = p @ Text sep # join_pieces sep (q # r)"

named_theorems templates

lemma templated_return [templates]: "templated mk (emit_return s) [Text s]"
  by (simp add: templated_def emit_return_def)

lemma templated_param [templates]: "templated (wr_mark w) (write_param w v) [Slot (wr_encode w v)]"
  by (simp add: templated_def write_param_def)

lemma templated_wrap:
  "templated mk m p \<Longrightarrow> templated mk (emit_bind m (\<lambda>s. emit_return (a @ s @ b))) (Text a # p @ [Text b])"
  by (simp add: templated_def emit_bind_def emit_return_def)

lemma templated_two:
  "templated mk m p \<Longrightarrow> templated mk n q \<Longrightarrow>
     templated mk (emit_bind m (\<lambda>x. emit_bind n (\<lambda>y. emit_return (a @ x @ b @ y @ c))))
       (Text a # p @ Text b # q @ [Text c])"
  by (simp add: templated_def emit_bind_def emit_return_def)

lemma emit_map_templated:
  assumes "\<And>x. x \<in> set xs \<Longrightarrow> templated mk (f x) (g x)"
  shows "\<exists>ss. emit_map f xs ps = Inr (ss, ps @ slots (join_pieces sep (map g xs))) \<and>
    join sep ss = number mk (length ps) (join_pieces sep (map g xs)) \<and> length ss = length xs"
  using assms
proof (induction xs arbitrary: ps rule: induct_list012)
  case 1
  then show ?case by (simp add: emit_return_def)
next
  case (2 x)
  then show ?case by (simp add: templated_def emit_return_def emit_bind_def)
next
  case (3 x y zs)
  have x: "f x ps = Inr (number mk (length ps) (g x), ps @ slots (g x))"
    using "3.prems" [of x] by (simp add: templated_def)
  have "\<exists>ss. emit_map f (y # zs) (ps @ slots (g x)) =
      Inr (ss, (ps @ slots (g x)) @ slots (join_pieces sep (map g (y # zs)))) \<and>
      join sep ss = number mk (length (ps @ slots (g x))) (join_pieces sep (map g (y # zs))) \<and>
      length ss = length (y # zs)"
    using "3.prems" by (intro "3.IH"(2)) auto
  then obtain ss where ss: "emit_map f (y # zs) (ps @ slots (g x)) =
      Inr (ss, (ps @ slots (g x)) @ slots (join_pieces sep (map g (y # zs))))"
    "join sep ss = number mk (length (ps @ slots (g x))) (join_pieces sep (map g (y # zs)))"
    "length ss = length (y # zs)"
    by blast
  then obtain s ss' where ss': "ss = s # ss'" by (cases ss) auto
  have "emit_map f (x # y # zs) ps =
      Inr (number mk (length ps) (g x) # ss, ps @ slots (join_pieces sep (map g (x # y # zs))))"
    using x ss(1) by (simp add: emit_bind_def emit_return_def bindE_def split: sum.splits prod.splits)
  moreover have "join sep (number mk (length ps) (g x) # ss) = number mk (length ps) (join_pieces sep (map g (x # y # zs)))"
    using ss(2) by (simp add: ss')
  ultimately show ?case using ss(3) by (intro exI [of _ "number mk (length ps) (g x) # ss"]) simp
qed

lemma templated_list:
  assumes "\<And>x. x \<in> set xs \<Longrightarrow> templated mk (f x) (g x)"
  shows "templated mk (emit_bind (emit_map f xs) (\<lambda>ss. emit_return (a @ join sep ss @ b)))
    (Text a # join_pieces sep (map g xs) @ [Text b])"
  unfolding templated_def
proof
  fix ps
  obtain ss where "emit_map f xs ps = Inr (ss, ps @ slots (join_pieces sep (map g xs)))"
    "join sep ss = number mk (length ps) (join_pieces sep (map g xs))"
    using emit_map_templated [of xs mk f g ps sep] assms by blast
  then show "emit_bind (emit_map f xs) (\<lambda>ss. emit_return (a @ join sep ss @ b)) ps =
      Inr (number mk (length ps) (Text a # join_pieces sep (map g xs) @ [Text b]),
           ps @ slots (Text a # join_pieces sep (map g xs) @ [Text b]))"
    by (simp add: emit_bind_def emit_return_def)
qed

definition has_template :: "(nat \<Rightarrow> string) \<Rightarrow> string emitter \<Rightarrow> bool" where
  "has_template mk m \<longleftrightarrow> (\<exists>p. templated mk m p)"

lemma has_template_intros [templates]:
  "has_template mk (emit_return s)"
  "has_template (wr_mark w) (write_param w v)"
  "has_template mk m \<Longrightarrow> has_template mk (emit_bind m (\<lambda>s. emit_return (a @ s @ b)))"
  "has_template mk m \<Longrightarrow> has_template mk n \<Longrightarrow>
     has_template mk (emit_bind m (\<lambda>x. emit_bind n (\<lambda>y. emit_return (a @ x @ b @ y @ c))))"
  unfolding has_template_def using templated_return templated_param templated_wrap templated_two by blast+

lemma has_template_list [templates]:
  assumes "\<And>x. x \<in> set xs \<Longrightarrow> has_template mk (f x)"
  shows "has_template mk (emit_bind (emit_map f xs) (\<lambda>ss. emit_return (a @ join sep ss @ b)))"
proof -
  have "\<forall>x. \<exists>p. x \<in> set xs \<longrightarrow> templated mk (f x) p" using assms by (auto simp: has_template_def)
  then obtain g where "\<And>x. x \<in> set xs \<Longrightarrow> templated mk (f x) (g x)" by metis
  then show ?thesis unfolding has_template_def using templated_list by blast
qed

text \<open>The same with text at one end only.\<close>

lemmas has_template_ends [templates] =
  has_template_intros(3) [where b = "[]", simplified]
  has_template_intros(3) [where a = "[]", simplified]
  has_template_intros(4) [where c = "[]", simplified]
  has_template_intros(4) [where a = "[]" and c = "[]", simplified]

lemma arg_template [templates]: "has_template (wr_mark w) (write_arg w a)"
  by (cases a) (simp_all add: templates)

lemma render_template [templates]: "has_template (wr_mark w) (write_pred w col p)"
proof (induction p)
  case (PCmp op a)
  have "has_template (wr_mark w) (emit_bind (write_arg w a) (\<lambda>p. emit_return ((col @ '' '' @ cmp_value op @ '' '') @ p @ [])))"
    by (intro templates)
  then show ?case by simp
next
  case (PBetween a b)
  have "has_template (wr_mark w) (emit_bind (write_arg w a) (\<lambda>x. emit_bind (write_arg w b) (\<lambda>y.
     emit_return ((col @ '' BETWEEN '') @ x @ '' AND '' @ y @ []))))"
    by (intro templates)
  then show ?case by simp
next
  case (PNotBetween a b)
  have "has_template (wr_mark w) (emit_bind (write_arg w a) (\<lambda>x. emit_bind (write_arg w b) (\<lambda>y.
     emit_return ((col @ '' NOT BETWEEN '') @ x @ '' AND '' @ y @ []))))"
    by (intro templates)
  then show ?case by simp
next
  case (PIn as)
  have "has_template (wr_mark w) (emit_bind (emit_map (write_arg w) as) (\<lambda>ps. emit_return ((col @ '' IN ('') @ join '', '' ps @ '')'')))"
    by (intro templates)
  then show ?case by (simp add: parens_def)
next
  case (PNotIn as)
  have "has_template (wr_mark w) (emit_bind (emit_map (write_arg w) as) (\<lambda>ps. emit_return ((col @ '' NOT IN ('') @ join '', '' ps @ '')'')))"
    by (intro templates)
  then show ?case by (simp add: parens_def)
next
  case (PMatch neg v)
  have "has_template (wr_mark w) (emit_bind (write_param w v) (\<lambda>p.
     emit_return ((col @ '' '' @ (if neg then ''NOT LIKE'' else ''LIKE'') @ '' '') @ p @ wr_escape w)))"
    by (intro templates)
  then show ?case by simp
next
  case (PAnd ps)
  then have "has_template (wr_mark w) (emit_bind (emit_map (write_pred w col) ps) (\<lambda>ss. emit_return (''('' @ join '' AND '' ss @ '')'')))"
    by (intro templates)
  then show ?case by (simp add: parens_def)
next
  case (POr ps)
  then have "has_template (wr_mark w) (emit_bind (emit_map (write_pred w col) ps) (\<lambda>ss. emit_return (''('' @ join '' OR '' ss @ '')'')))"
    by (intro templates)
  then show ?case by (simp add: parens_def)
qed (simp_all add: templates)

lemma tree_template [templates]: "has_template (wr_mark w) (write_tree w t)"
proof (induction t)
  case (TLogical op l r)
  then have "has_template (wr_mark w) (emit_bind (write_tree w l) (\<lambda>a. emit_bind (write_tree w r) (\<lambda>b.
     emit_return (''('' @ a @ ('' '' @ logical_value op @ '' '') @ b @ '')''))))"
    by (intro templates)
  then show ?case by (simp add: parens_def)
next
  case (TNot t)
  have "has_template (wr_mark w) (emit_bind (write_tree w t) (\<lambda>s. emit_return (''NOT '' @ s @ [])))"
    "has_template (wr_mark w) (emit_bind (write_tree w t) (\<lambda>s. emit_return (''NOT ('' @ s @ '')'')))"
    using TNot by (intro templates; simp)+
  then show ?case by (cases "is_group t") (simp_all add: parens_def)
qed (simp add: templates)

end
