(* ===== verification/Marked_Predicates.thy ===== *)
theory Marked_Predicates
  imports Marked_Lowering Sql_Predicates
begin

text \<open>
  The conditions that the lowerers for SQLite and MySQL write, as the predicates of \<open>Sql_Predicates\<close>: the
  two lowerers write the predicates that \<open>m_expression\<close> compiles, in the words of their dialect.
\<close>

section \<open>The writer of a dialect\<close>

text \<open>How a value is handed to the driver: dates as texts.\<close>

fun marked_encode :: "sql_dialect \<Rightarrow> sql_param \<Rightarrow> sql_param" where
  "marked_encode d (PDate s) = PStr s"
| "marked_encode d (PDateTime s) = PStr s"
| "marked_encode d (PMidnight c) = PStr (iso_midnight c)"
| "marked_encode d (PBool b) = dl_boolean d b"
| "marked_encode d p = p"

definition marked_writer :: "sql_dialect \<Rightarrow> sql_writer" where
  "marked_writer d =
     \<lparr>wr_mark = (\<lambda>n. dl_mark d), wr_encode = marked_encode d, wr_today = dl_today d, wr_now = dl_now d,
      wr_escape = dl_escape d\<rparr>"

lemma marked_writer_simps [simp]:
  "wr_today (marked_writer d) = dl_today d" "wr_now (marked_writer d) = dl_now d"
  "wr_escape (marked_writer d) = dl_escape d" "write_param (marked_writer d) v = add_mark d (marked_encode d v)"
  by (simp_all add: marked_writer_def write_param_def add_mark_def)

lemma encode_literal: "marked_encode d (convert_literal_to_parameter l) = marked_parameter d l"
  by (cases l) (simp_all split: option.split)

lemma encode_like [simp]: "marked_encode d (like_param pre el post) = like_param pre el post"
  by (simp add: like_param_def split: option.split)

lemma marked_literal_written: "marked_literal d l = write_arg (marked_writer d) (arg_of l)"
  by (cases l) (simp_all add: marked_literal_def arg_of_def encode_literal del: convert_literal_to_parameter.simps)

section \<open>Compilation of conditions\<close>

definition m_day :: "bool \<Rightarrow> string \<Rightarrow> query_error + sql_pred" where
  "m_day inside s =
     bindE (parse_date_only_range s) (\<lambda>(a, b).
     Inr (if inside then PAnd [PCmp OpGTE (AParam a), PCmp OpLT (AParam b)]
          else POr [PCmp OpLT (AParam a), PCmp OpGTE (AParam b)]))"

definition m_in :: "(sql_arg list \<Rightarrow> sql_pred) \<Rightarrow> literal list \<Rightarrow> sql_pred list" where
  "m_in mk lits = (if lits = [] then [] else [mk (map (\<lambda>l. AParam (convert_literal_to_parameter l)) lits)])"

definition m_constraint :: "comparison_constraint \<Rightarrow> sql_pred" where
  "m_constraint c = PCmp (c_operator c) (arg_of (c_value c))"

definition m_inverted :: "comparison_constraint \<Rightarrow> sql_pred" where
  "m_inverted c = PCmp (invert_operator (c_operator c)) (arg_of (c_value c))"

definition m_other_literal :: "bound_field \<Rightarrow> bool \<Rightarrow> literal \<Rightarrow> query_error + sql_pred list" where
  "m_other_literal f inside l =
     (if is_timestamp_field f \<and> is_date_only_literal l
      then bindE (m_day inside (date_only_text l)) (\<lambda>p. Inr [p]) else Inr [])"

fun m_eq_other :: "sql_dialect \<Rightarrow> bound_field \<Rightarrow> value_set_element \<Rightarrow> query_error + sql_pred list" where
  "m_eq_other d f (ElemRange r) = Inr [c_between r]"
| "m_eq_other d f (ElemConstraint c) = Inr [m_constraint c]"
| "m_eq_other d f (ElemCompound cs) =
     (if dl_unbound_element d then Inl PyUnboundLocalError else Inr [PAnd (map m_constraint cs)])"
| "m_eq_other d f (ElemLiteral l) = m_other_literal f True l"

fun m_neq_other :: "bound_field \<Rightarrow> value_set_element \<Rightarrow> query_error + sql_pred list" where
  "m_neq_other f (ElemRange r) = Inr [PNotBetween (arg_of (r_start r)) (arg_of (r_end r))]"
| "m_neq_other f (ElemConstraint c) = Inr [m_inverted c]"
| "m_neq_other f (ElemCompound cs) = Inr [POr (map m_inverted cs)]"
| "m_neq_other f (ElemLiteral l) = m_other_literal f False l"

definition m_or :: "sql_pred list \<Rightarrow> sql_pred" where
  "m_or ps = (if length ps = 1 then hd ps else POr ps)"

definition m_and :: "sql_pred list \<Rightarrow> sql_pred" where
  "m_and ps = (if length ps = 1 then hd ps else PAnd ps)"

definition m_eq_preds :: "bound_field \<Rightarrow> value_set_element list \<Rightarrow> sql_pred list list \<Rightarrow> sql_pred list" where
  "m_eq_preds f els later = (if has_null els then [PIsNull] else []) @ m_in PIn (simple_literals f els) @ concat later"

definition m_neq_preds :: "bound_field \<Rightarrow> value_set_element list \<Rightarrow> sql_pred list list \<Rightarrow> sql_pred list" where
  "m_neq_preds f els later = (if has_null els then [PNotNull] else []) @ m_in PNotIn (simple_literals f els) @ concat later"

definition m_eq_set :: "sql_dialect \<Rightarrow> bound_field \<Rightarrow> value_set_element list \<Rightarrow> query_error + sql_pred" where
  "m_eq_set d f els =
     bindE (mapE (m_eq_other d f) (marked_others f els)) (\<lambda>later. Inr (m_or (m_eq_preds f els later)))"

definition m_neq_set :: "bound_field \<Rightarrow> value_set_element list \<Rightarrow> query_error + sql_pred" where
  "m_neq_set f els =
     bindE (mapE (m_neq_other f) (marked_others f els)) (\<lambda>later.
     Inr (if has_null els then m_and (m_neq_preds f els later) else POr [m_and (m_neq_preds f els later), PIsNull]))"

definition m_direct :: "bound_field \<Rightarrow> comparison_operator \<Rightarrow> literal \<Rightarrow> query_error + sql_pred" where
  "m_direct f op l =
     (if l = NullLiteral then
        Inr (if op = OpEQ then PIsNull else if op = OpNEQ then PNotNull else PCmp op ANull)
      else if op = OpEQ \<and> is_timestamp_field f \<and> is_date_only_literal l then m_day True (date_only_text l)
      else Inr (if op = OpNEQ then c_not_equal l else PCmp op (arg_of l)))"

definition m_comparison :: "sql_dialect \<Rightarrow> bound_field \<Rightarrow> comparison_operator \<Rightarrow> operand \<Rightarrow> query_error + sql_pred" where
  "m_comparison d f op v =
     (case v of
        OperandLiteral l \<Rightarrow> m_direct f op l
      | OperandRange r \<Rightarrow> Inr (c_between r)
      | OperandSet vs \<Rightarrow>
          if op = OpEQ then m_eq_set d f (elements vs)
          else if op = OpNEQ then m_neq_set f (elements vs)
          else Inr (PCmp op (AParam PNone)))"

definition m_field :: "sql_dialect \<Rightarrow> bound_field \<Rightarrow> field_operator \<Rightarrow> operand \<Rightarrow> query_error + sql_pred" where
  "m_field d f op v = (case op of StringOp s \<Rightarrow> Inr (c_string s v) | Comparison c \<Rightarrow> m_comparison d f c v)"

fun m_expression :: "sql_dialect \<Rightarrow> bound_expression \<Rightarrow> query_error + sql_tree" where
  "m_expression d (BoundField f op v) =
     bindE (m_field d f op v) (\<lambda>p. Inr (TPred (marked_field_path d f) p))"
| "m_expression d (BoundLogical op l r) =
     bindE (m_expression d l) (\<lambda>a. bindE (m_expression d r) (\<lambda>b. Inr (TLogical op a b)))"
| "m_expression d (BoundNegation e) = bindE (m_expression d e) (\<lambda>t. Inr (TNot t))"

section \<open>The lowerers write the compiled predicates\<close>

abbreviation written :: "sql_dialect \<Rightarrow> string \<Rightarrow> sql_pred \<Rightarrow> string emitter" where
  "written d \<equiv> write_pred (marked_writer d)"

lemma marked_between_written: "marked_between d col r = written d col (c_between r)"
  by (simp add: marked_between_def c_between_def marked_literal_written)

lemma marked_comparison_written: "marked_comparison d col op l = written d col (PCmp op (arg_of l))"
  by (simp add: marked_comparison_def marked_literal_written)

lemma marked_like_written:
  "marked_like d col ''LIKE'' (like_param a el b) = written d col (PMatch False (like_param a el b))"
  "marked_like d col ''NOT LIKE'' (like_param a el b) = written d col (PMatch True (like_param a el b))"
  by (simp_all add: marked_like_def)

lemma marked_has_element_written: "marked_has_element d col el = written d col (c_has_element el)"
  by (cases el) (simp_all add: marked_has_element_def marked_between_written marked_like_written c_pattern_def
      del: write_pred.simps)

lemma marked_not_has_element_written: "marked_not_has_element d col el = written d col (c_not_has_element el)"
  by (cases el) (simp_all add: marked_not_has_element_def marked_literal_written marked_like_def c_pattern_def)

lemma marked_string_written: "marked_string_operator d col op v = written d col (c_string op v)"
proof -
  have "marked_has_set d col els = written d col (c_has_set els)"
    "marked_not_has_set d col els = written d col (c_not_has_set els)" for els
    unfolding marked_has_set_def marked_not_has_set_def
    using has_set_written [where f = "marked_has_element d col", OF marked_has_element_written]
      not_has_set_written [where f = "marked_not_has_element d col", OF marked_not_has_element_written]
    by simp_all
  then show ?thesis
    by (cases v; cases op) (simp_all add: marked_string_operator_def c_string_def Let_def marked_like_def)
qed

lemma marked_day_written:
  "marked_day d col ''>='' ''AND'' ''<'' s = write_result (written d col) (m_day True s)"
  "marked_day d col ''<'' ''OR'' ''>='' s = write_result (written d col) (m_day False s)"
  by (auto simp: marked_day_def m_day_def date_only_texts_def parse_date_only_range_def split: option.split)

lemma marked_in_written:
  "marked_in d f col ''IN'' els = emit_map (written d col) (m_in PIn (simple_literals f els))"
  "marked_in d f col ''NOT IN'' els = emit_map (written d col) (m_in PNotIn (simple_literals f els))"
  unfolding marked_in_def Let_def
  by (simp_all add: m_in_def emit_map_map comp_def encode_literal del: convert_literal_to_parameter.simps)

text \<open>One predicate, or none, as a list.\<close>

lemma write_one:
  "emit_bind (write_result r c) (\<lambda>s. emit_return [s]) = write_result (emit_map r) (bindE c (\<lambda>p. Inr [p]))"
  by (cases c) simp_all

lemma marked_eq_other_written:
  "marked_eq_other d f col el = write_result (emit_map (written d col)) (m_eq_other d f el)"
proof (cases el)
  case (ElemCompound cs)
  have "emit_map (\<lambda>c. marked_comparison d col (c_operator c) (c_value c)) cs = emit_map (written d col) (map m_constraint cs)"
    by (rule emit_map_render) (simp only: m_constraint_def marked_comparison_written)
  with ElemCompound show ?thesis by simp
qed (simp_all add: m_other_literal_def write_one marked_day_written marked_between_written marked_comparison_written
    m_constraint_def del: write_pred.simps)

lemma marked_neq_other_written:
  "marked_neq_other d f col el = write_result (emit_map (written d col)) (m_neq_other f el)"
proof (cases el)
  case (ElemCompound cs)
  have "emit_map (\<lambda>c. marked_comparison d col (invert_operator (c_operator c)) (c_value c)) cs =
      emit_map (written d col) (map m_inverted cs)"
    by (rule emit_map_render) (simp only: m_inverted_def marked_comparison_written)
  with ElemCompound show ?thesis by simp
next
  case (ElemRange r)
  then show ?thesis by (simp add: marked_literal_written)
qed (simp_all add: m_other_literal_def write_one marked_day_written marked_comparison_written m_inverted_def
    del: write_pred.simps)

lemma or_written:
  "emit_bind (emit_map (written d col) ps) (\<lambda>ss. emit_return (if length ss = 1 then hd ss else parens (join '' OR '' ss))) =
     written d col (m_or ps)"
  "emit_bind (emit_map (written d col) ps) (\<lambda>ss. emit_return (if length ss = 1 then hd ss else parens (join '' AND '' ss))) =
     written d col (m_and ps)"
proof -
  consider p where "ps = [p]" | "length ps \<noteq> 1" by (cases ps; cases "tl ps") auto
  then show "emit_bind (emit_map (written d col) ps) (\<lambda>ss. emit_return (if length ss = 1 then hd ss else parens (join '' OR '' ss))) =
     written d col (m_or ps)"
    "emit_bind (emit_map (written d col) ps) (\<lambda>ss. emit_return (if length ss = 1 then hd ss else parens (join '' AND '' ss))) =
     written d col (m_and ps)"
    by (cases, simp add: m_or_def, (subst emit_map_length; simp add: m_or_def),
        cases, simp add: m_and_def, (subst emit_map_length; simp add: m_and_def))
qed

text \<open>Predicates that are written one part after the other.\<close>

lemma parts_written:
  "emit_bind (emit_map r as) (\<lambda>xs. emit_bind (emit_map (emit_map r) bs) (\<lambda>ys. g (pre @ xs @ concat ys))) =
     emit_bind (emit_map r (as @ concat bs)) (\<lambda>zs. g (pre @ zs))"
proof -
  have "emit_bind (emit_map (emit_map r) bs) (\<lambda>ys. g (pre @ xs @ concat ys)) =
      emit_bind (emit_map r (concat bs)) (\<lambda>zs. g (pre @ xs @ zs))" for xs
    using emit_map_concat [of r "\<lambda>x. x" bs "\<lambda>zs. g (pre @ xs @ zs)"] by simp
  then show ?thesis by (simp add: emit_map_append)
qed

lemma null_part:
  "emit_bind (emit_map (written d col) ps) (\<lambda>zs. g ((if b then [col @ '' IS NULL''] else []) @ zs)) =
     emit_bind (emit_map (written d col) ((if b then [PIsNull] else []) @ ps)) g"
  "emit_bind (emit_map (written d col) ps) (\<lambda>zs. g ((if b then [col @ '' IS NOT NULL''] else []) @ zs)) =
     emit_bind (emit_map (written d col) ((if b then [PNotNull] else []) @ ps)) g"
  by (simp_all add: comp_def)

lemma written_list_fails: "never_fails (emit_map (written d col) ps)"
  by (rule never_fails_map) simp

lemma others_written:
  assumes "\<And>el. m el = write_result (emit_map (written d col)) (c el)"
  shows "emit_map m els =
    (case mapE c els of Inl e \<Rightarrow> emit_raise e | Inr pss \<Rightarrow> emit_map (emit_map (written d col)) pss)"
  unfolding emit_map_write [of "emit_map (written d col)", OF written_list_fails, symmetric]
  by (intro emit_map_cong refl) (rule assms)

lemma marked_eq_set_written: "marked_eq_set d f col els = write_result (written d col) (m_eq_set d f els)"
proof -
  let ?g = "\<lambda>ss. emit_return (if length ss = 1 then hd ss else parens (join '' OR '' ss)) :: string emitter"
  let ?null = "if has_null els then [col @ '' IS NULL''] else []"
  note others = others_written [of "marked_eq_other d f col", OF marked_eq_other_written, of "marked_others f els"]
  have set: "marked_eq_set d f col els = emit_bind (emit_map (written d col) (m_in PIn (simple_literals f els))) (\<lambda>ins.
      emit_bind (emit_map (marked_eq_other d f col) (marked_others f els)) (\<lambda>later. ?g (?null @ ins @ concat later)))"
    unfolding marked_eq_set_def marked_in_written Let_def by (rule refl)
  show ?thesis
  proof (cases "mapE (m_eq_other d f) (marked_others f els)")
    case (Inl e)
    then show ?thesis unfolding set others by (simp add: m_eq_set_def never_fails_raise [OF written_list_fails])
  next
    case (Inr pss)
    have "marked_eq_set d f col els =
        emit_bind (emit_map (written d col) (m_in PIn (simple_literals f els) @ concat pss)) (\<lambda>zs. ?g (?null @ zs))"
      unfolding set others Inr sum.case by (rule parts_written [where g = ?g and pre = ?null])
    also have "\<dots> = emit_bind (emit_map (written d col) (m_eq_preds f els pss)) ?g"
      unfolding m_eq_preds_def by (rule null_part(1) [where g = ?g])
    finally show ?thesis by (simp only: or_written m_eq_set_def Inr bindE_simps write_simps)
  qed
qed

lemma marked_neq_set_written: "marked_neq_set d f col els = write_result (written d col) (m_neq_set f els)"
proof -
  let ?and = "\<lambda>ss. if length ss = 1 then hd ss else parens (join '' AND '' ss)"
  let ?close = "\<lambda>s. emit_return (if has_null els then s else parens (s @ '' OR '' @ col @ '' IS NULL'')) :: string emitter"
  let ?g = "\<lambda>ss. ?close (?and ss)"
  let ?null = "if has_null els then [col @ '' IS NOT NULL''] else []"
  note others = others_written [of "marked_neq_other d f col", OF marked_neq_other_written, of "marked_others f els"]
  have set: "marked_neq_set d f col els = emit_bind (emit_map (written d col) (m_in PNotIn (simple_literals f els))) (\<lambda>ins.
      emit_bind (emit_map (marked_neq_other d f col) (marked_others f els)) (\<lambda>later. ?g (?null @ ins @ concat later)))"
    unfolding marked_neq_set_def marked_in_written Let_def by (intro emit_bind_cong refl) simp
  show ?thesis
  proof (cases "mapE (m_neq_other f) (marked_others f els)")
    case (Inl e)
    then show ?thesis unfolding set others by (simp add: m_neq_set_def never_fails_raise [OF written_list_fails])
  next
    case (Inr pss)
    have "marked_neq_set d f col els =
        emit_bind (emit_map (written d col) (m_in PNotIn (simple_literals f els) @ concat pss)) (\<lambda>zs. ?g (?null @ zs))"
      unfolding set others Inr sum.case by (rule parts_written [where g = ?g and pre = ?null])
    also have "\<dots> = emit_bind (emit_map (written d col) (m_neq_preds f els pss)) ?g"
      unfolding m_neq_preds_def by (rule null_part(2) [where g = ?g])
    also have "\<dots> = emit_bind (emit_bind (emit_map (written d col) (m_neq_preds f els pss)) (\<lambda>ss. emit_return (?and ss))) ?close"
      by (simp only: emit_bind_assoc emit_bind_return)
    also have "\<dots> = emit_bind (written d col (m_and (m_neq_preds f els pss))) ?close"
      by (simp only: or_written)
    finally show ?thesis by (cases "has_null els") (simp_all add: m_neq_set_def Inr)
  qed
qed

lemma marked_direct_written:
  "l \<noteq> NullLiteral \<Longrightarrow> marked_direct d f col op l = write_result (written d col) (m_direct f op l)"
  by (simp add: marked_direct_def m_direct_def marked_day_written marked_literal_written c_not_equal_def)

lemma marked_field_written:
  "marked_field_expression d f op v = write_result (written d (marked_field_path d f)) (m_field d f op v)"
proof (cases op)
  case (Comparison c)
  show ?thesis
  proof (cases v)
    case (OperandLiteral l)
    then show ?thesis
      by (cases "l = NullLiteral") (simp_all add: Comparison marked_field_expression_def m_field_def m_comparison_def
          marked_comparison_operator_def marked_direct_written, simp add: m_direct_def marked_null_def)
  qed (simp_all add: Comparison marked_field_expression_def m_field_def m_comparison_def
      marked_comparison_operator_def marked_between_written marked_eq_set_written marked_neq_set_written
      del: write_pred.simps(4))
qed (simp add: marked_field_expression_def m_field_def marked_string_written)

section \<open>Trees\<close>

definition plain_dialect :: "sql_dialect \<Rightarrow> bool" where
  "plain_dialect d \<longleftrightarrow> (\<forall>n. bare (dl_quote d n)) \<and> (\<forall>top path. bare (dl_json d top path))"

lemma dialects_plain: "plain_dialect sqlite_dialect" "plain_dialect mysql_dialect"
  by (simp_all add: plain_dialect_def sqlite_dialect_def mysql_dialect_def bare_def quote_double_def quote_backtick_def)

lemma marked_path_bare: "plain_dialect d \<Longrightarrow> bare (marked_field_path d f)"
  by (simp add: plain_dialect_def marked_field_path_def)

lemma m_expression_bare: "plain_dialect d \<Longrightarrow> m_expression d e = Inr t \<Longrightarrow> bare_columns t"
  by (induction e arbitrary: t) (auto simp: bindE_Inr_iff marked_path_bare)

lemma marked_expression_written:
  assumes "plain_dialect d"
  shows "marked_expression d e = write_result (write_tree (marked_writer d)) (m_expression d e)"
proof (induction e)
  case (BoundField f op v)
  then show ?case by (cases "m_field d f op v") (simp_all add: marked_field_written)
next
  case (BoundLogical op l r)
  then show ?case
    by (cases "m_expression d l"; cases "m_expression d r") (simp_all add: never_fails_raise)
next
  case (BoundNegation e)
  then show ?case
    using negation_render m_expression_bare [OF assms, of e] by (cases "m_expression d e") simp_all
qed

end
