(* ===== verification/Sql_Semantics.thy ===== *)
theory Sql_Semantics
  imports Sql_Predicates
begin

text \<open>
  What a lowered condition selects. The meaning of a condition is the one that \<open>USAGE.md\<close> and
  \<open>docs/altrql/specification.md\<close> document (two-valued logic, \<open>!=\<close> and \<open>NOT HAS\<close> also true of NULL, a date
  compared with a timestamp means the whole day); the lowered predicates are evaluated in SQL's
  three-valued logic. The database is a parameter: a record of what it reads a parameter as, of the
  current date and time, and of LIKE and the day of a value. \<open>lawful_database\<close> is what the lowerer relies on.
\<close>

section \<open>The database\<close>

record 'v database =
  db_value :: "sql_param \<Rightarrow> 'v option"
  db_today :: 'v
  db_now :: 'v
  db_string :: "'v \<Rightarrow> string"
  db_like :: "'v \<Rightarrow> sql_param \<Rightarrow> bool option"
  db_day :: "'v \<Rightarrow> calendar_day"

definition lawful_database :: "('v :: linorder) database \<Rightarrow> bool" where
  "lawful_database db \<longleftrightarrow>
     (\<forall>p. db_value db p = None \<longleftrightarrow> p = PNone) \<and>
     (\<forall>u s. db_like db u (PStr s) = Some (like s (db_string db u))) \<and>
     (\<forall>d v u. valid_day d \<longrightarrow> valid_day (db_day db u) \<longrightarrow> db_value db (PMidnight d) = Some v \<longrightarrow>
        (v \<le> u \<longleftrightarrow> d \<le> db_day db u))"

section \<open>Three-valued evaluation\<close>

fun not3 :: "bool option \<Rightarrow> bool option" where
  "not3 None = None"
| "not3 (Some b) = Some (\<not> b)"

fun and3 :: "bool option \<Rightarrow> bool option \<Rightarrow> bool option" where
  "and3 (Some False) _ = Some False"
| "and3 (Some True) b = b"
| "and3 None (Some False) = Some False"
| "and3 None _ = None"

definition or3 :: "bool option \<Rightarrow> bool option \<Rightarrow> bool option" where
  "or3 a b = not3 (and3 (not3 a) (not3 b))"

definition all3 :: "bool option list \<Rightarrow> bool option" where
  "all3 bs = foldr and3 bs (Some True)"

definition any3 :: "bool option list \<Rightarrow> bool option" where
  "any3 bs = foldr or3 bs (Some False)"

fun sql_compares :: "comparison_operator \<Rightarrow> 'v :: linorder \<Rightarrow> 'v \<Rightarrow> bool" where
  "sql_compares OpEQ a b \<longleftrightarrow> a = b"
| "sql_compares OpNEQ a b \<longleftrightarrow> a \<noteq> b"
| "sql_compares OpGT a b \<longleftrightarrow> b < a"
| "sql_compares OpLT a b \<longleftrightarrow> a < b"
| "sql_compares OpGTE a b \<longleftrightarrow> b \<le> a"
| "sql_compares OpLTE a b \<longleftrightarrow> a \<le> b"

fun compare3 :: "comparison_operator \<Rightarrow> ('v :: linorder) option \<Rightarrow> 'v option \<Rightarrow> bool option" where
  "compare3 op (Some a) (Some b) = Some (sql_compares op a b)"
| "compare3 op _ _ = None"

fun arg_value :: "'v database \<Rightarrow> sql_arg \<Rightarrow> 'v option" where
  "arg_value db (AParam p) = db_value db p"
| "arg_value db ANull = None"
| "arg_value db AToday = Some (db_today db)"
| "arg_value db ANow = Some (db_now db)"

fun pred_value :: "('v :: linorder) database \<Rightarrow> 'v option \<Rightarrow> sql_pred \<Rightarrow> bool option" where
  "pred_value db x (PCmp op a) = compare3 op x (arg_value db a)"
| "pred_value db x PIsNull = Some (x = None)"
| "pred_value db x PNotNull = Some (x \<noteq> None)"
| "pred_value db x (PBetween a b) =
     and3 (compare3 OpGTE x (arg_value db a)) (compare3 OpLTE x (arg_value db b))"
| "pred_value db x (PNotBetween a b) =
     not3 (and3 (compare3 OpGTE x (arg_value db a)) (compare3 OpLTE x (arg_value db b)))"
| "pred_value db x (PIn as) = any3 (map (\<lambda>a. compare3 OpEQ x (arg_value db a)) as)"
| "pred_value db x (PNotIn as) = not3 (any3 (map (\<lambda>a. compare3 OpEQ x (arg_value db a)) as))"
| "pred_value db x (PMatch neg p) =
     (case x of None \<Rightarrow> None | Some u \<Rightarrow> (if neg then not3 (db_like db u p) else db_like db u p))"
| "pred_value db x (PAnd ps) = all3 (map (pred_value db x) ps)"
| "pred_value db x (POr ps) = any3 (map (pred_value db x) ps)"
| "pred_value db x PTrue = Some True"

fun tree_value :: "('v :: linorder) database \<Rightarrow> (string \<Rightarrow> 'v option) \<Rightarrow> sql_tree \<Rightarrow> bool option" where
  "tree_value db cols (TPred col p) = pred_value db (cols col) p"
| "tree_value db cols (TLogical op l r) =
     (if op = LAnd then and3 (tree_value db cols l) (tree_value db cols r)
      else or3 (tree_value db cols l) (tree_value db cols r))"
| "tree_value db cols (TNot t) = not3 (tree_value db cols t)"

text \<open>A row is selected when the condition is true, not when it is unknown.\<close>

definition selects :: "('v :: linorder) database \<Rightarrow> (string \<Rightarrow> 'v option) \<Rightarrow> sql_tree \<Rightarrow> bool" where
  "selects db cols t \<longleftrightarrow> tree_value db cols t = Some True"

section \<open>The meaning of a condition\<close>

definition literal_value :: "'v database \<Rightarrow> literal \<Rightarrow> 'v option" where
  "literal_value db l =
     (case l of
        TemporalLiteral k v \<Rightarrow>
          if k = Some TODAY then Some (db_today db)
          else if k = Some NOW then Some (db_now db)
          else db_value db (convert_literal_to_parameter l)
      | _ \<Rightarrow> db_value db (convert_literal_to_parameter l))"

definition means_day :: "bound_field \<Rightarrow> literal \<Rightarrow> bool" where
  "means_day f l \<longleftrightarrow> is_timestamp_field f \<and> is_date_only_literal l"

definition literal_equal :: "('v :: linorder) database \<Rightarrow> bound_field \<Rightarrow> literal \<Rightarrow> 'v option \<Rightarrow> bool" where
  "literal_equal db f l x \<longleftrightarrow>
     (case x of
        None \<Rightarrow> l = NullLiteral
      | Some u \<Rightarrow>
          if means_day f l then db_day db u = day_of_text (date_only_text l)
          else literal_value db l = Some u)"

definition constraint_holds ::
  "('v :: linorder) database \<Rightarrow> bound_field \<Rightarrow> comparison_operator \<Rightarrow> literal \<Rightarrow> 'v option \<Rightarrow> bool" where
  "constraint_holds db f op l x \<longleftrightarrow>
     (if op = OpEQ then literal_equal db f l x
      else if op = OpNEQ then \<not> literal_equal db f l x
      else compare3 op x (literal_value db l) = Some True)"

definition range_holds :: "('v :: linorder) database \<Rightarrow> lit_range \<Rightarrow> 'v option \<Rightarrow> bool" where
  "range_holds db r x \<longleftrightarrow>
     compare3 OpGTE x (literal_value db (r_start r)) = Some True \<and>
     compare3 OpLTE x (literal_value db (r_end r)) = Some True"

fun element_holds :: "('v :: linorder) database \<Rightarrow> bound_field \<Rightarrow> value_set_element \<Rightarrow> 'v option \<Rightarrow> bool" where
  "element_holds db f (ElemLiteral l) x \<longleftrightarrow> literal_equal db f l x"
| "element_holds db f (ElemRange r) x \<longleftrightarrow> range_holds db r x"
| "element_holds db f (ElemConstraint c) x \<longleftrightarrow> constraint_holds db f (c_operator c) (c_value c) x"
| "element_holds db f (ElemCompound cs) x \<longleftrightarrow>
     list_all (\<lambda>c. constraint_holds db f (c_operator c) (c_value c) x) cs"

fun operand_equal :: "('v :: linorder) database \<Rightarrow> bound_field \<Rightarrow> operand \<Rightarrow> 'v option \<Rightarrow> bool" where
  "operand_equal db f (OperandLiteral l) x \<longleftrightarrow> literal_equal db f l x"
| "operand_equal db f (OperandRange r) x \<longleftrightarrow> range_holds db r x"
| "operand_equal db f (OperandSet vs) x \<longleftrightarrow> list_ex (\<lambda>el. element_holds db f el x) (elements vs)"

text \<open>\<open>HAS\<close> with an element: a text that contains the literal; NULL finds the NULLs.\<close>

fun contains_element :: "('v :: linorder) database \<Rightarrow> value_set_element \<Rightarrow> 'v option \<Rightarrow> bool" where
  "contains_element db (ElemLiteral (StringLiteral s)) x \<longleftrightarrow>
     (case x of None \<Rightarrow> False | Some u \<Rightarrow> sublist s (db_string db u))"
| "contains_element db (ElemLiteral NullLiteral) x \<longleftrightarrow> x = None"
| "contains_element db (ElemRange r) x \<longleftrightarrow> range_holds db r x"
| "contains_element db _ x \<longleftrightarrow> False"

fun literal_text :: "operand \<Rightarrow> string" where
  "literal_text (OperandLiteral (StringLiteral s)) = s"
| "literal_text _ = []"

definition string_holds :: "('v :: linorder) database \<Rightarrow> string_operator \<Rightarrow> operand \<Rightarrow> 'v option \<Rightarrow> bool" where
  "string_holds db op v x \<longleftrightarrow>
     (case op of
        STARTS \<Rightarrow> (case x of None \<Rightarrow> False | Some u \<Rightarrow> prefix (literal_text v) (db_string db u))
      | ENDS \<Rightarrow> (case x of None \<Rightarrow> False | Some u \<Rightarrow> suffix (literal_text v) (db_string db u))
      | HAS \<Rightarrow> list_ex (\<lambda>el. contains_element db el x) (operand_elements v)
      | NOT_HAS \<Rightarrow> \<not> list_ex (\<lambda>el. contains_element db el x) (operand_elements v))"

definition field_holds ::
  "('v :: linorder) database \<Rightarrow> bound_field \<Rightarrow> field_operator \<Rightarrow> operand \<Rightarrow> 'v option \<Rightarrow> bool" where
  "field_holds db f op v x \<longleftrightarrow>
     (case op of
        StringOp s \<Rightarrow> string_holds db s v x
      | Comparison c \<Rightarrow>
          if c = OpEQ then operand_equal db f v x
          else if c = OpNEQ then \<not> operand_equal db f v x
          else (case v of OperandLiteral l \<Rightarrow> constraint_holds db f c l x | _ \<Rightarrow> False))"

fun holds :: "('v :: linorder) database \<Rightarrow> (bound_field \<Rightarrow> 'v option) \<Rightarrow> bound_expression \<Rightarrow> bool" where
  "holds db row (BoundField f op v) \<longleftrightarrow> field_holds db f op v (row f)"
| "holds db row (BoundLogical op l r) \<longleftrightarrow>
     (if op = LAnd then holds db row l \<and> holds db row r else holds db row l \<or> holds db row r)"
| "holds db row (BoundNegation e) \<longleftrightarrow> \<not> holds db row e"

section \<open>The conditions that are lowered faithfully\<close>

definition has_value :: "literal \<Rightarrow> bool" where
  "has_value l \<longleftrightarrow> arg_of l \<noteq> ANull"

text \<open>
  \<open>!=\<close> with a date-like literal: the lowerer leaves out the NULLs, and for a date alone it compares with
  the start of the day.
\<close>

definition constraint_ok :: "bound_field \<Rightarrow> comparison_operator \<Rightarrow> literal \<Rightarrow> bool \<Rightarrow> bool" where
  "constraint_ok f op l null \<longleftrightarrow>
     (if l = NullLiteral then op = OpEQ \<or> op = OpNEQ
      else has_value l \<and> (op = OpNEQ \<longrightarrow> \<not> null \<and> \<not> means_day f l))"

definition range_ok :: "lit_range \<Rightarrow> bool" where
  "range_ok r \<longleftrightarrow> has_value (r_start r) \<and> has_value (r_end r)"

text \<open>Elements of a set after \<open>=\<close>; \<open>null\<close> says that the field is NULL in the row.\<close>

fun eq_element_ok :: "bound_field \<Rightarrow> bool \<Rightarrow> value_set_element \<Rightarrow> bool" where
  "eq_element_ok f null (ElemLiteral l) \<longleftrightarrow> l = NullLiteral \<or> has_value l"
| "eq_element_ok f null (ElemRange r) \<longleftrightarrow> range_ok r"
| "eq_element_ok f null (ElemConstraint c) \<longleftrightarrow> constraint_ok f (c_operator c) (c_value c) null"
| "eq_element_ok f null (ElemCompound cs) \<longleftrightarrow>
     cs \<noteq> [] \<and> list_all (\<lambda>c. has_value (c_value c) \<and> constraint_ok f (c_operator c) (c_value c) null \<and>
       \<not> (c_operator c = OpEQ \<and> means_day f (c_value c))) cs"

text \<open>After \<open>!=\<close>, a compound constraint is dropped by the lowerer.\<close>

fun neq_element_ok :: "bound_field \<Rightarrow> bool \<Rightarrow> value_set_element \<Rightarrow> bool" where
  "neq_element_ok f null (ElemLiteral l) \<longleftrightarrow> l = NullLiteral \<or> (has_value l \<and> \<not> means_day f l)"
| "neq_element_ok f null (ElemRange r) \<longleftrightarrow> range_ok r"
| "neq_element_ok f null (ElemConstraint c) \<longleftrightarrow>
     constraint_ok f (c_operator c) (c_value c) null \<and> \<not> (c_operator c = OpEQ \<and> means_day f (c_value c))"
| "neq_element_ok f null (ElemCompound cs) \<longleftrightarrow> False"

fun has_element_ok :: "value_set_element \<Rightarrow> bool" where
  "has_element_ok (ElemLiteral l) \<longleftrightarrow> l = NullLiteral \<or> is_string_literal l"
| "has_element_ok (ElemRange r) \<longleftrightarrow> range_ok r"
| "has_element_ok _ \<longleftrightarrow> False"

fun field_ok :: "bound_field \<Rightarrow> field_operator \<Rightarrow> operand \<Rightarrow> bool \<Rightarrow> bool" where
  "field_ok f (Comparison op) (OperandLiteral l) null \<longleftrightarrow>
     (if op = OpNEQ \<and> \<not> is_temporal l then True else constraint_ok f op l null)"
| "field_ok f (Comparison op) (OperandRange r) null \<longleftrightarrow> op = OpEQ \<and> range_ok r"
| "field_ok f (Comparison op) (OperandSet vs) null \<longleftrightarrow>
     elements vs \<noteq> [] \<and>
     (op = OpEQ \<and> list_all (eq_element_ok f null) (elements vs) \<or>
      op = OpNEQ \<and> list_all (neq_element_ok f null) (elements vs))"
| "field_ok f (StringOp s) (OperandLiteral l) null \<longleftrightarrow> is_string_literal l"
| "field_ok f (StringOp s) (OperandRange r) null \<longleftrightarrow> False"
| "field_ok f (StringOp s) (OperandSet vs) null \<longleftrightarrow>
     (s = HAS \<or> s = NOT_HAS) \<and> elements vs \<noteq> [] \<and> list_all has_element_ok (elements vs)"

text \<open>Conditions whose lowered form is true or false, never unknown, on a NULL.\<close>

fun null_safe :: "field_operator \<Rightarrow> operand \<Rightarrow> bool" where
  "null_safe (Comparison op) (OperandLiteral l) \<longleftrightarrow> l = NullLiteral \<or> (op = OpNEQ \<and> \<not> is_temporal l)"
| "null_safe (Comparison op) (OperandSet vs) \<longleftrightarrow> op = OpNEQ \<or> (op = OpEQ \<and> has_null (elements vs))"
| "null_safe (StringOp s) (OperandSet vs) \<longleftrightarrow> s = NOT_HAS \<or> (s = HAS \<and> has_null (elements vs))"
| "null_safe (StringOp s) (OperandLiteral l) \<longleftrightarrow> s = NOT_HAS"
| "null_safe _ _ \<longleftrightarrow> False"

text \<open>\<open>exact\<close>: two-valued and right; \<open>supported\<close>: selects the right rows.\<close>

fun exact :: "(bound_field \<Rightarrow> 'v option) \<Rightarrow> bound_expression \<Rightarrow> bool" where
  "exact row (BoundField f op v) \<longleftrightarrow>
     field_ok f op v (row f = None) \<and> (row f = None \<longrightarrow> null_safe op v)"
| "exact row (BoundLogical op l r) \<longleftrightarrow> exact row l \<and> exact row r"
| "exact row (BoundNegation e) \<longleftrightarrow> exact row e"

fun supported :: "(bound_field \<Rightarrow> 'v option) \<Rightarrow> bound_expression \<Rightarrow> bool" where
  "supported row (BoundField f op v) \<longleftrightarrow> field_ok f op v (row f = None)"
| "supported row (BoundLogical op l r) \<longleftrightarrow> supported row l \<and> supported row r"
| "supported row (BoundNegation e) \<longleftrightarrow> exact row e"

text \<open>The values of a timestamp field are moments of a calendar day.\<close>

definition dated :: "'v database \<Rightarrow> bound_field \<Rightarrow> 'v option \<Rightarrow> bool" where
  "dated db f x \<longleftrightarrow> (case x of None \<Rightarrow> True | Some u \<Rightarrow> is_timestamp_field f \<longrightarrow> valid_day (db_day db u))"

definition lawful_row :: "'v database \<Rightarrow> (bound_field \<Rightarrow> 'v option) \<Rightarrow> bound_expression \<Rightarrow> bool" where
  "lawful_row db row e \<longleftrightarrow> list_all (\<lambda>f. dated db f (row f)) (expression_fields e)"

section \<open>Truth values\<close>

lemma tri_cases: obtains "x = None" | "x = Some True" | "x = Some False"
  by (cases x) auto

lemma and3_simps [simp]:
  "and3 (Some a) (Some b) = Some (a \<and> b)" "and3 x (Some True) = x" "and3 x (Some False) = Some False"
  subgoal by (cases a) simp_all
  subgoal by (cases x rule: tri_cases) simp_all
  subgoal by (cases x rule: tri_cases) simp_all
  done

lemma or3_simps [simp]:
  "or3 (Some a) (Some b) = Some (a \<or> b)" "or3 x (Some True) = Some True" "or3 x (Some False) = x"
  "or3 (Some True) x = Some True" "or3 (Some False) x = x" "or3 None None = None"
  subgoal by (simp add: or3_def)
  subgoal by (cases x rule: tri_cases) (simp_all add: or3_def)
  subgoal by (cases x rule: tri_cases) (simp_all add: or3_def)
  subgoal by (cases x rule: tri_cases) (simp_all add: or3_def)
  subgoal by (cases x rule: tri_cases) (simp_all add: or3_def)
  subgoal by (simp add: or3_def)
  done

lemma fold3_simps [simp]:
  "all3 [] = Some True" "all3 (b # bs) = and3 b (all3 bs)"
  "any3 [] = Some False" "any3 (b # bs) = or3 b (any3 bs)"
  by (simp_all add: all3_def any3_def)

lemma true3 [simp]:
  "and3 a b = Some True \<longleftrightarrow> a = Some True \<and> b = Some True"
  "or3 a b = Some True \<longleftrightarrow> a = Some True \<or> b = Some True"
  "not3 a = Some True \<longleftrightarrow> a = Some False"
  subgoal by (cases a rule: tri_cases; cases b rule: tri_cases) simp_all
  subgoal by (cases a rule: tri_cases; cases b rule: tri_cases) simp_all
  subgoal by (cases a rule: tri_cases) simp_all
  done

lemma fold3_two_valued:
  assumes "\<And>x. x \<in> set xs \<Longrightarrow> g x = Some (h x)"
  shows "all3 (map g xs) = Some (list_all h xs)" "any3 (map g xs) = Some (list_ex h xs)"
  using assms by (induction xs) simp_all

lemma fold3_true:
  "all3 bs = Some True \<longleftrightarrow> list_all (\<lambda>b. b = Some True) bs"
  "any3 bs = Some True \<longleftrightarrow> list_ex (\<lambda>b. b = Some True) bs"
  by (induction bs) simp_all

lemma fold3_map_true:
  "all3 (map g xs) = Some True \<longleftrightarrow> (\<forall>x \<in> set xs. g x = Some True)"
  "any3 (map g xs) = Some True \<longleftrightarrow> (\<exists>x \<in> set xs. g x = Some True)"
  by (induction xs) simp_all

lemma any3_false: "any3 bs = Some False \<longleftrightarrow> list_all (\<lambda>b. b = Some False) bs"
proof (induction bs)
  case (Cons b bs)
  then show ?case by (cases b rule: tri_cases; cases "any3 bs" rule: tri_cases) simp_all
qed simp

lemma pred_value_any: "ps \<noteq> [] \<Longrightarrow> pred_value db x (c_any ps) = any3 (map (pred_value db x) ps)"
  by (cases ps) (auto simp: c_any_def)

lemma pred_value_all: "pred_value db x (c_all ps) = all3 (map (pred_value db x) ps)"
  by (cases ps) (auto simp: c_all_def)

lemma three_valued_defined:
  "and3 a b \<noteq> None" "or3 a b \<noteq> None" if "a \<noteq> None" "b \<noteq> None"
  using that by auto

lemma not3_defined: "a \<noteq> None \<Longrightarrow> not3 a \<noteq> None"
  by auto

lemma fold3_defined:
  "list_all (\<lambda>b. b \<noteq> None) bs \<Longrightarrow> all3 bs \<noteq> None \<and> any3 bs \<noteq> None"
  by (induction bs) (auto simp del: not_None_eq intro: three_valued_defined)

end
