(* ===== verification/Sql_Selection.thy ===== *)
theory Sql_Selection
  imports Sql_Semantics
begin

text \<open>
  The lowered conditions select the rows that the documented meaning asks for: literals and days, the
  conditions on one field, and whole expressions.
\<close>

section \<open>Literals and days\<close>

lemma lawful_param: "lawful_database db \<Longrightarrow> db_value db p = None \<longleftrightarrow> p = PNone"
  by (simp add: lawful_database_def)

lemma lawful_like: "lawful_database db \<Longrightarrow> db_like db u (PStr s) = Some (like s (db_string db u))"
  by (simp add: lawful_database_def)

lemma lawful_midnight:
  "lawful_database db \<Longrightarrow> valid_day d \<Longrightarrow> valid_day (db_day db u) \<Longrightarrow> db_value db (PMidnight d) = Some v \<Longrightarrow>
     v \<le> u \<longleftrightarrow> d \<le> db_day db u"
  unfolding lawful_database_def by blast

lemma literal_param: "convert_literal_to_parameter l = PNone \<longleftrightarrow> l = NullLiteral \<or> (\<exists>k. l = TemporalLiteral k None)"
  by (cases l) (auto split: option.split)

lemma lawful_value:
  assumes "lawful_database db"
  shows "arg_value db (arg_of l) = literal_value db l"
proof -
  have "db_value db PNone = None" by (simp add: lawful_param [OF assms])
  then show ?thesis by (cases l) (simp_all add: arg_of_def literal_value_def split: option.split)
qed

lemma valued:
  assumes "lawful_database db" "has_value l"
  shows "\<exists>w. literal_value db l = Some w"
proof -
  have "arg_value db (arg_of l) \<noteq> None"
    using assms(2) by (cases l) (auto simp: has_value_def arg_of_def lawful_param [OF assms(1)] literal_param
        simp del: convert_literal_to_parameter.simps not_None_eq split: if_splits)
  then show ?thesis by (simp add: lawful_value [OF assms(1)])
qed

lemma null_value: "lawful_database db \<Longrightarrow> literal_value db NullLiteral = None"
  by (simp add: literal_value_def lawful_param)

lemma decimal_val_bound:
  assumes "list_all is_decimal s"
  shows "decimal_val s < 10 ^ length s"
  using assms
proof (induction s rule: rev_induct)
  case (snoc c s)
  then have "48 \<le> (of_char c :: nat)" "(of_char c :: nat) \<le> 57" by (simp_all add: is_decimal_def)
  then have "digit_val c < 10" by (simp add: digit_val_def)
  moreover have "decimal_val (s @ [c]) = 10 * decimal_val s + digit_val c" by (simp add: decimal_val_def)
  ultimately show ?case using snoc by simp
qed (simp add: decimal_val_def)

lemma iso_date_valid: "is_iso_date s \<Longrightarrow> valid_day (day_of_text s)"
proof -
  assume s: "is_iso_date s"
  then have "list_all is_decimal (take 4 s)" "length (take 4 s) = 4"
    by (auto simp: is_iso_date_def is_date_shape_def)
  then have "decimal_val (take 4 s) \<le> 9999" using decimal_val_bound [of "take 4 s"] by simp
  with s show ?thesis
    unfolding is_iso_date_def is_calendar_date_def valid_day_def day_of_text_def Let_def calendar_day.sel by blast
qed

lemma day_value:
  assumes "lawful_database db" "c_day s = Inr p" "valid_day (db_day db u)"
  shows "pred_value db (Some u) p = Some (db_day db u = day_of_text s)"
proof -
  obtain e where iso: "is_iso_date s" and e: "next_day (day_of_text s) = Some e"
    and p: "p = PAnd [PCmp OpGTE (AParam (PMidnight (day_of_text s))), PCmp OpLT (AParam (PMidnight e))]"
    using assms(2) by (auto simp: c_day_def parse_date_only_range_def split: if_splits option.splits)
  have d: "valid_day (day_of_text s)" using iso by (rule iso_date_valid)
  have ve: "valid_day e" using d e by (rule next_day_valid)
  have "db_value db (PMidnight d') \<noteq> None" for d' by (simp add: lawful_param [OF assms(1)])
  then obtain v w where v: "db_value db (PMidnight (day_of_text s)) = Some v" "db_value db (PMidnight e) = Some w"
    by blast
  have "v \<le> u \<longleftrightarrow> day_of_text s \<le> db_day db u" "w \<le> u \<longleftrightarrow> e \<le> db_day db u"
    using lawful_midnight [OF assms(1) d assms(3) v(1)] lawful_midnight [OF assms(1) ve assms(3) v(2)] .
  then have "v \<le> u \<and> u < w \<longleftrightarrow> db_day db u = day_of_text s"
    using next_day_covers [OF d e assms(3)] by (simp add: not_le [symmetric])
  with v show ?thesis by (simp add: p)
qed

lemma day_unknown: "c_day s = Inr p \<Longrightarrow> pred_value db None p = None"
  by (auto simp: c_day_def bindE_Inr_iff)

section \<open>Constraints and elements\<close>

lemma literal_equal_simps:
  "lawful_database db \<Longrightarrow> literal_equal db f NullLiteral x \<longleftrightarrow> x = None"
  "\<not> means_day f l \<Longrightarrow> l \<noteq> NullLiteral \<Longrightarrow> literal_equal db f l x \<longleftrightarrow> compare3 OpEQ x (literal_value db l) = Some True"
  by (cases x; auto simp: literal_equal_def null_value means_day_def is_date_only_literal_def)
    (cases x; cases "literal_value db l"; auto simp: literal_equal_def)

lemma constraint_true:
  assumes "lawful_database db" "dated db f x" "constraint_ok f op l (x = None)"
    and "c_constraint f (ComparisonConstraint op l) = Inr p"
  shows "pred_value db x p = Some True \<longleftrightarrow> constraint_holds db f op l x"
proof (cases "l = NullLiteral")
  case True
  then show ?thesis
    using assms by (auto simp: constraint_ok_def c_constraint_def constraint_holds_def literal_equal_simps)
next
  case False
  show ?thesis
  proof (cases "op = OpEQ \<and> means_day f l")
    case True
    then have day: "c_day (date_only_text l) = Inr p" using assms(4) False
      by (simp add: c_constraint_def means_day_def)
    show ?thesis
    proof (cases x)
      case None
      with day True False show ?thesis by (simp add: day_unknown constraint_holds_def literal_equal_def)
    next
      case (Some u)
      then have "valid_day (db_day db u)" using assms(2) True by (simp add: dated_def means_day_def)
      then show ?thesis
        using day_value [OF assms(1) day] True Some by (simp add: constraint_holds_def literal_equal_def)
    qed
  next
    case no_day: False
    then have p: "p = PCmp op (arg_of l)" using assms(4) False
      by (auto simp: c_constraint_def means_day_def split: if_splits)
    show ?thesis
    proof (cases "op = OpNEQ")
      case True
      then obtain u w where "x = Some u" "literal_value db l = Some w" "\<not> means_day f l"
        using assms(3) False valued [OF assms(1), of l] by (auto simp: constraint_ok_def)
      then show ?thesis using True False
        by (simp add: p lawful_value [OF assms(1)] constraint_holds_def literal_equal_simps)
    next
      case neq: False
      show ?thesis
        using no_day neq False
        by (cases "op = OpEQ") (simp_all add: p lawful_value [OF assms(1)] constraint_holds_def literal_equal_simps)
    qed
  qed
qed

lemma eq_literal_constraint: "c_eq_literal f l = c_constraint f (ComparisonConstraint OpEQ l)"
  by (simp add: c_eq_literal_def c_constraint_def)

lemma has_value_not_null: "has_value l \<Longrightarrow> l \<noteq> NullLiteral"
  by (auto simp: has_value_def arg_of_def)

lemma range_true:
  "lawful_database db \<Longrightarrow> pred_value db x (c_between r) = Some True \<longleftrightarrow> range_holds db r x"
  by (simp add: c_between_def range_holds_def lawful_value)

lemma compound_true:
  assumes "lawful_database db" "dated db f x"
    and "has_value l \<and> constraint_ok f op l (x = None) \<and> \<not> (op = OpEQ \<and> means_day f l)"
  shows "pred_value db x (PCmp op (arg_of l)) = Some True \<longleftrightarrow> constraint_holds db f op l x"
proof -
  have "c_constraint f (ComparisonConstraint op l) = Inr (PCmp op (arg_of l))"
    using assms(3) has_value_not_null [of l] by (auto simp: c_constraint_def means_day_def)
  with assms show ?thesis by (intro constraint_true) simp_all
qed

lemma eq_element_true:
  assumes "lawful_database db" "dated db f x" "eq_element_ok f (x = None) el" "c_eq_element f el = Inr p"
  shows "pred_value db x p = Some True \<longleftrightarrow> element_holds db f el x"
proof (cases el)
  case (ElemLiteral l)
  then have "pred_value db x p = Some True \<longleftrightarrow> constraint_holds db f OpEQ l x"
    using assms by (intro constraint_true) (auto simp: eq_literal_constraint constraint_ok_def)
  then show ?thesis by (simp add: ElemLiteral constraint_holds_def)
next
  case (ElemRange r)
  with assms show ?thesis by (auto simp: range_true)
next
  case (ElemConstraint c)
  then show ?thesis using assms constraint_true [OF assms(1,2), of "c_operator c" "c_value c" p] by simp
next
  case (ElemCompound cs)
  then have p: "p = PAnd (map (\<lambda>c. PCmp (c_operator c) (arg_of (c_value c))) cs)"
    using assms(4) by (simp add: c_compound_def)
  have "pred_value db x (PCmp (c_operator c) (arg_of (c_value c))) = Some True \<longleftrightarrow>
      constraint_holds db f (c_operator c) (c_value c) x" if "c \<in> set cs" for c
    using assms(3) that by (intro compound_true [OF assms(1,2)]) (simp add: ElemCompound list_all_iff)
  then show ?thesis
    by (simp add: p ElemCompound fold3_true list_all_iff del: pred_value.simps(1))
qed

lemma neq_constraint_true:
  assumes "lawful_database db" "has_value l" "op = OpNEQ \<longrightarrow> x \<noteq> None" "op = OpEQ \<or> op = OpNEQ \<longrightarrow> \<not> means_day f l"
  shows "pred_value db x (POr [PCmp (invert_operator op) (arg_of l), PIsNull]) = Some True \<longleftrightarrow>
    \<not> constraint_holds db f op l x"
proof -
  obtain w where w: "literal_value db l = Some w" using valued [OF assms(1,2)] by blast
  have l: "l \<noteq> NullLiteral" using assms(2) by (rule has_value_not_null)
  show ?thesis
  proof (cases x)
    case None
    with w l assms(3) show ?thesis
      by (cases op) (simp_all add: constraint_holds_def literal_equal_def)
  next
    case (Some u)
    with w l assms(4) show ?thesis
      by (cases op) (auto simp: constraint_holds_def literal_equal_def lawful_value [OF assms(1)])
  qed
qed

lemma neq_element_true:
  assumes "lawful_database db" "neq_element_ok f (x = None) el"
  shows "list_all (\<lambda>p. pred_value db x p = Some True) (c_neq_element el) \<longleftrightarrow> \<not> element_holds db f el x"
proof (cases el)
  case (ElemLiteral l)
  show ?thesis
  proof (cases "l = NullLiteral")
    case True
    then show ?thesis by (simp add: ElemLiteral literal_equal_simps(1) [OF assms(1)])
  next
    case False
    then have "pred_value db x (c_not_equal l) = Some True \<longleftrightarrow> \<not> constraint_holds db f OpEQ l x"
      using assms(2) neq_constraint_true [OF assms(1), of l OpEQ x f] by (simp add: ElemLiteral c_not_equal_def)
    with False show ?thesis by (simp add: ElemLiteral constraint_holds_def)
  qed
next
  case (ElemRange r)
  then obtain a b where "literal_value db (r_start r) = Some a" "literal_value db (r_end r) = Some b"
    using assms valued by (fastforce simp: range_ok_def)
  then show ?thesis
    by (cases x) (auto simp: ElemRange range_holds_def lawful_value [OF assms(1)])
next
  case (ElemConstraint c)
  show ?thesis
  proof (cases "c_value c = NullLiteral")
    case True
    then show ?thesis using assms(2)
      by (auto simp: ElemConstraint constraint_ok_def constraint_holds_def literal_equal_simps(1) [OF assms(1)])
  next
    case False
    then have "pred_value db x (POr [PCmp (invert_operator (c_operator c)) (arg_of (c_value c)), PIsNull]) = Some True \<longleftrightarrow>
        \<not> constraint_holds db f (c_operator c) (c_value c) x"
      using assms(2) by (intro neq_constraint_true [OF assms(1)]) (auto simp: ElemConstraint constraint_ok_def)
    with False show ?thesis by (simp add: ElemConstraint)
  qed
next
  case (ElemCompound cs)
  with assms(2) show ?thesis by simp
qed

section \<open>Sets\<close>

lemma mapE_list_ex:
  assumes "mapE c els = Inr ps" "\<And>el p. el \<in> set els \<Longrightarrow> c el = Inr p \<Longrightarrow> g p \<longleftrightarrow> h el"
  shows "list_ex g ps \<longleftrightarrow> list_ex h els"
proof -
  have "list_all2 (\<lambda>el p. c el = Inr p) els ps" using assms(1) by (simp add: mapE_Inr_iff)
  then show ?thesis using assms(2) by (induction rule: list_all2_induct) auto
qed

lemma simple_elements:
  assumes "simple_set f nn"
  shows "nn = map ElemLiteral (set_literals nn)"
    and "l \<in> set (set_literals nn) \<Longrightarrow> has_value l \<and> \<not> means_day f l \<and> l \<noteq> NullLiteral"
proof -
  have lit: "\<exists>l. el = ElemLiteral l \<and> has_value l \<and> \<not> means_day f l" if "el \<in> set nn" for el
  proof -
    have "is_simple_element el" "is_timestamp_field f \<longrightarrow> \<not> is_date_only_element el"
      using assms that by (auto simp: simple_set_def list_all_iff)
    then show ?thesis
      by (cases el rule: is_simple_element.cases) (auto simp: has_value_def arg_of_def means_day_def)
  qed
  then have "\<forall>el \<in> set nn. \<exists>l. el = ElemLiteral l" by blast
  then show "nn = map ElemLiteral (set_literals nn)"
    by (induction nn) (auto simp: set_literals_def)
  show "l \<in> set (set_literals nn) \<Longrightarrow> has_value l \<and> \<not> means_day f l \<and> l \<noteq> NullLiteral"
    using lit has_value_not_null by (fastforce simp: set_literals_def)
qed

lemma elements_split:
  assumes "lawful_database db"
  shows "list_ex (\<lambda>el. element_holds db f el x) els \<longleftrightarrow>
    (has_null els \<and> x = None) \<or> list_ex (\<lambda>el. element_holds db f el x) (non_null els)"
proof -
  have "element_holds db f el x \<longleftrightarrow> x = None" if "is_null_element el" for el
    using that by (auto simp: is_null_element_def literal_equal_simps(1) [OF assms])
  then show ?thesis by (auto simp: list_ex_iff has_null_def non_null_def)
qed

text \<open>A set of plain values, as the meaning and as the list of arguments.\<close>

lemma simple_set_holds:
  assumes "lawful_database db" "simple_set f (non_null els)"
  shows "list_ex (\<lambda>el. element_holds db f el x) els \<longleftrightarrow>
    (has_null els \<and> x = None) \<or>
    list_ex (\<lambda>l. compare3 OpEQ x (literal_value db l) = Some True) (set_literals (non_null els))"
proof -
  let ?lits = "set_literals (non_null els)"
  have "list_ex (\<lambda>el. element_holds db f el x) (non_null els) \<longleftrightarrow> list_ex (\<lambda>l. element_holds db f (ElemLiteral l) x) ?lits"
    by (subst simple_elements(1) [OF assms(2)]) (simp add: list_ex_iff)
  also have "\<dots> \<longleftrightarrow> list_ex (\<lambda>l. compare3 OpEQ x (literal_value db l) = Some True) ?lits"
    using simple_elements(2) [OF assms(2)] by (auto simp: list_ex_iff literal_equal_simps(2))
  finally show ?thesis using elements_split [OF assms(1), of f x els] by blast
qed

lemma any_equal_true:
  assumes "lawful_database db"
  shows "any3 (map (\<lambda>a. compare3 OpEQ x (arg_value db a)) (map arg_of lits)) = Some True \<longleftrightarrow>
    list_ex (\<lambda>l. compare3 OpEQ x (literal_value db l) = Some True) lits"
  by (simp add: fold3_map_true list_ex_iff lawful_value [OF assms])

lemma any_equal_false:
  assumes "lawful_database db" "\<And>l. l \<in> set lits \<Longrightarrow> has_value l" "x = Some u"
  shows "any3 (map (\<lambda>a. compare3 OpEQ x (arg_value db a)) (map arg_of lits)) = Some False \<longleftrightarrow>
    \<not> list_ex (\<lambda>l. compare3 OpEQ x (literal_value db l) = Some True) lits"
proof -
  have "compare3 OpEQ x (literal_value db l) = Some False \<longleftrightarrow> compare3 OpEQ x (literal_value db l) \<noteq> Some True"
    if "l \<in> set lits" for l
    using valued [OF assms(1) assms(2) [OF that]] assms(3) by auto
  then show ?thesis by (auto simp: any3_false list_all_iff list_ex_iff lawful_value [OF assms(1)])
qed

lemma set_literals_length: "simple_set f nn \<Longrightarrow> length (set_literals nn) = length nn"
  using simple_elements(1) [of f nn] by (metis length_map)

lemma eq_set_true:
  assumes "lawful_database db" "dated db f x" "els \<noteq> []" "list_all (eq_element_ok f (x = None)) els"
    and "c_eq_set f els = Inr p"
  shows "pred_value db x p = Some True \<longleftrightarrow> list_ex (\<lambda>el. element_holds db f el x) els"
proof (cases "simple_set f (non_null els) \<and> (has_null els \<or> 0 < length (non_null els))")
  case True
  let ?lits = "set_literals (non_null els)"
  note meaning = simple_set_holds [OF assms(1), of f els x]
  have len: "length (non_null els) = length ?lits" using True set_literals_length by metis
  consider "has_null els" "?lits = []" "p = PIsNull"
    | l where "has_null els" "?lits = [l]" "p = POr [PCmp OpEQ (arg_of l), PIsNull]"
    | "has_null els" "p = POr [PIn (map arg_of ?lits), PIsNull]"
    | "\<not> has_null els" "p = PIn (map arg_of ?lits)"
    using assms(5) True unfolding c_eq_set_def Let_def len
    by (cases ?lits; cases "tl ?lits") (auto split: if_splits)
  then show ?thesis
    using True meaning
    by cases (auto simp: any_equal_true [OF assms(1)] lawful_value [OF assms(1)] simp del: map_map)
next
  case False
  then have "\<not> (simple_set f (non_null els) \<and> has_null els)" "\<not> (simple_set f (non_null els) \<and> 0 < length (non_null els))"
    by auto
  then obtain ps where ps: "mapE (c_eq_element f) els = Inr ps" "p = c_any ps"
    using assms(5) by (auto simp: c_eq_set_def Let_def bindE_Inr_iff split: if_splits)
  then have "ps \<noteq> []" using assms(3) by (auto simp: mapE_Inr_iff)
  then have "pred_value db x p = Some True \<longleftrightarrow> list_ex (\<lambda>p. pred_value db x p = Some True) ps"
    by (simp add: ps pred_value_any fold3_map_true list_ex_iff)
  also have "\<dots> \<longleftrightarrow> list_ex (\<lambda>el. element_holds db f el x) els"
    using ps(1) by (rule mapE_list_ex) (use assms(4) in \<open>simp add: eq_element_true [OF assms(1,2)] list_all_iff\<close>)
  finally show ?thesis .
qed

lemma neq_set_true:
  assumes "lawful_database db" "list_all (neq_element_ok f (x = None)) els" "els \<noteq> []"
  shows "pred_value db x (c_neq_set f els) = Some True \<longleftrightarrow> \<not> list_ex (\<lambda>el. element_holds db f el x) els"
proof (cases "simple_set f (non_null els) \<and> (has_null els \<or> 0 < length (non_null els))")
  case True
  let ?lits = "set_literals (non_null els)"
  note meaning = simple_set_holds [OF assms(1), of f els x]
  have len: "length (non_null els) = length ?lits" using True set_literals_length by metis
  have vals: "\<And>l. l \<in> set ?lits \<Longrightarrow> has_value l" using True simple_elements(2) by blast
  consider "has_null els" "?lits = []" "c_neq_set f els = PNotNull"
    | l where "has_null els" "?lits = [l]" "c_neq_set f els = PAnd [PCmp OpNEQ (arg_of l), PNotNull]"
    | "has_null els" "c_neq_set f els = PAnd [PNotIn (map arg_of ?lits), PNotNull]"
    | "\<not> has_null els" "c_neq_set f els = POr [PNotIn (map arg_of ?lits), PIsNull]"
    using True unfolding c_neq_set_def Let_def len by (cases ?lits; cases "tl ?lits") auto
  then show ?thesis
  proof cases
    case 1
    with True meaning show ?thesis by auto
  next
    case (2 l)
    then obtain w where "literal_value db l = Some w" using vals valued [OF assms(1), of l] by auto
    with 2 True meaning show ?thesis by (cases x) (auto simp: lawful_value [OF assms(1)])
  next
    case 3
    with True meaning show ?thesis
      by (cases x) (auto simp: any_equal_false [OF assms(1) vals refl] simp del: map_map)
  next
    case 4
    with True meaning show ?thesis
      by (cases x) (auto simp: any_equal_false [OF assms(1) vals refl] list_ex_iff simp del: map_map)
  qed
next
  case False
  then have "c_neq_set f els = c_all (concat (map c_neq_element els))"
    by (auto simp: c_neq_set_def Let_def)
  then have "pred_value db x (c_neq_set f els) = Some True \<longleftrightarrow>
      (\<forall>el \<in> set els. list_all (\<lambda>p. pred_value db x p = Some True) (c_neq_element el))"
    by (auto simp: pred_value_all fold3_map_true list_all_iff)
  also have "\<dots> \<longleftrightarrow> (\<forall>el \<in> set els. \<not> element_holds db f el x)"
    by (rule ball_cong [OF refl], rule neq_element_true [OF assms(1)]) (use assms(2) in \<open>simp add: list_all_iff\<close>)
  finally show ?thesis by (simp add: list_ex_iff)
qed

section \<open>Strings\<close>

lemmas like_cons = like_patterns [unfolded append_Cons append_Nil]

lemma string_param: "like_param pre (ElemLiteral (StringLiteral s)) post = PStr (pre @ escape_like_operand s @ post)"
  by (simp add: like_param_def)

lemma has_element_cases:
  assumes "has_element_ok el" "\<not> is_null_element el"
  obtains s where "el = ElemLiteral (StringLiteral s)" | r where "el = ElemRange r" "range_ok r"
proof (cases el)
  case (ElemLiteral l)
  with assms that(1) show ?thesis by (cases l) (auto simp: is_null_element_def)
qed (use assms that in auto)

lemma contains_true:
  assumes "lawful_database db" "has_element_ok el" "\<not> is_null_element el"
  shows "pred_value db x (c_has_element el) = Some True \<longleftrightarrow> contains_element db el x"
    and "x = Some u \<Longrightarrow> pred_value db x (c_not_has_element el) = Some True \<longleftrightarrow> \<not> contains_element db el x"
proof -
  show "pred_value db x (c_has_element el) = Some True \<longleftrightarrow> contains_element db el x"
    using assms(2,3)
  proof (rule has_element_cases)
    fix s assume "el = ElemLiteral (StringLiteral s)"
    then show ?thesis
      by (cases x) (simp_all add: c_pattern_def string_param lawful_like [OF assms(1)] like_cons del: like.simps)
  next
    fix r assume "el = ElemRange r"
    then show ?thesis by (simp add: range_true [OF assms(1)])
  qed
  assume x: "x = Some u"
  show "pred_value db x (c_not_has_element el) = Some True \<longleftrightarrow> \<not> contains_element db el x"
    using assms(2,3)
  proof (rule has_element_cases)
    fix s assume "el = ElemLiteral (StringLiteral s)"
    then show ?thesis by (simp add: x c_pattern_def string_param lawful_like [OF assms(1)] like_cons del: like.simps)
  next
    fix r assume r: "el = ElemRange r" "range_ok r"
    then obtain a b where "literal_value db (r_start r) = Some a" "literal_value db (r_end r) = Some b"
      using valued [OF assms(1)] by (fastforce simp: range_ok_def)
    with r show ?thesis by (auto simp: x range_holds_def lawful_value [OF assms(1)])
  qed
qed

lemma contains_split:
  "list_ex (\<lambda>el. contains_element db el x) els \<longleftrightarrow>
     (has_null els \<and> x = None) \<or> list_ex (\<lambda>el. contains_element db el x) (non_null els)"
proof -
  have "contains_element db el x \<longleftrightarrow> x = None" if "is_null_element el" for el
    using that by (auto simp: is_null_element_def)
  then show ?thesis by (auto simp: list_ex_iff has_null_def non_null_def)
qed

lemma non_null_ok:
  "list_all has_element_ok els \<Longrightarrow> el \<in> set (non_null els) \<Longrightarrow> has_element_ok el \<and> \<not> is_null_element el"
  by (simp add: list_all_iff non_null_def)

lemma set_not_empty: "els \<noteq> [] \<Longrightarrow> has_null els \<or> non_null els \<noteq> []"
  by (cases els) (auto simp: has_null_def non_null_def)

lemma has_set_true:
  assumes "lawful_database db" "list_all has_element_ok els" "els \<noteq> []"
  shows "pred_value db x (c_has_set els) = Some True \<longleftrightarrow> list_ex (\<lambda>el. contains_element db el x) els"
proof -
  have "(\<exists>el \<in> set (non_null els). pred_value db x (c_has_element el) = Some True) \<longleftrightarrow>
      list_ex (\<lambda>el. contains_element db el x) (non_null els)"
    using non_null_ok [OF assms(2)] contains_true(1) [OF assms(1)] by (auto simp: list_ex_iff)
  moreover have "any3 (map (pred_value db x) (map c_has_element (non_null els))) = Some True \<longleftrightarrow>
      (\<exists>el \<in> set (non_null els). pred_value db x (c_has_element el) = Some True)"
    by (simp only: fold3_map_true set_map bex_simps)
  ultimately show ?thesis
    using set_not_empty [OF assms(3)] contains_split [of db x els]
    by (cases "has_null els") (simp_all add: c_has_set_def pred_value_any del: map_map)
qed

lemma not_has_set_true:
  assumes "lawful_database db" "list_all has_element_ok els" "els \<noteq> []"
  shows "pred_value db x (c_not_has_set els) = Some True \<longleftrightarrow> \<not> list_ex (\<lambda>el. contains_element db el x) els"
proof -
  let ?nl = "map c_not_has_element (non_null els)"
  have any: "all3 (map (pred_value db x) ?nl) = Some True \<longleftrightarrow> \<not> list_ex (\<lambda>el. contains_element db el x) (non_null els)"
    if "x = Some u" for u
    using non_null_ok [OF assms(2)] contains_true(2) [OF assms(1) _ _ that]
    by (auto simp: list_ex_iff fold3_map_true simp del: map_map)
  have none: "\<not> list_ex (\<lambda>el. contains_element db el None) (non_null els)"
  proof -
    have "\<not> contains_element db el None" if "el \<in> set (non_null els)" for el
      using non_null_ok [OF assms(2) that] by (auto elim: has_element_cases simp: range_holds_def)
    then show ?thesis by (simp add: list_ex_iff)
  qed
  consider "?nl = []" | p where "?nl = [p]" | "?nl \<noteq> []" "length ?nl \<noteq> 1" by (cases ?nl; cases "tl ?nl") auto
  then show ?thesis
    using any none set_not_empty [OF assms(3)] contains_split [of db x els]
    by cases (cases x; cases "has_null els"; simp add: c_not_has_set_def Let_def)+
qed

section \<open>One field\<close>

lemma string_literal_cases: "is_string_literal l \<Longrightarrow> \<exists>s. l = StringLiteral s"
  by (cases l) auto

lemma string_true:
  assumes "lawful_database db" "field_ok f (StringOp op) v null"
  shows "pred_value db x (c_string op v) = Some True \<longleftrightarrow> string_holds db op v x"
proof (cases v)
  case (OperandLiteral l)
  then obtain s where "v = OperandLiteral (StringLiteral s)" using assms(2) string_literal_cases by auto
  then show ?thesis
    by (cases x; cases op) (simp_all add: c_string_def string_param string_holds_def lawful_like [OF assms(1)]
        like_cons del: like.simps)
next
  case (OperandSet vs)
  then consider "op = HAS" | "op = NOT_HAS" using assms(2) by auto
  then show ?thesis
    using assms(2) has_set_true [OF assms(1)] not_has_set_true [OF assms(1)]
    by cases (simp_all add: OperandSet c_string_def string_holds_def)
qed (use assms(2) in simp)

lemma not_equal_true:
  assumes "lawful_database db" "l \<noteq> NullLiteral" "\<not> is_temporal l"
  shows "pred_value db x (c_not_equal l) = Some True \<longleftrightarrow> \<not> literal_equal db f l x"
proof -
  have "has_value l" "\<not> means_day f l"
    using assms(2,3) by (cases l; simp add: has_value_def arg_of_def means_day_def is_date_only_literal_def)+
  then show ?thesis
    using neq_constraint_true [OF assms(1), of l OpEQ x f] by (simp add: c_not_equal_def constraint_holds_def)
qed

lemma comparison_true:
  assumes "lawful_database db" "dated db f x" "field_ok f (Comparison op) v (x = None)"
    and "c_comparison f op v = Inr p"
  shows "pred_value db x p = Some True \<longleftrightarrow> field_holds db f (Comparison op) v x"
proof (cases v)
  case (OperandLiteral l)
  have meaning: "field_holds db f (Comparison op) v x \<longleftrightarrow> constraint_holds db f op l x"
    by (simp add: field_holds_def OperandLiteral constraint_holds_def)
  show ?thesis
  proof (cases "op = OpNEQ \<and> l \<noteq> NullLiteral \<and> \<not> is_temporal l")
    case True
    then have "p = c_not_equal l" using assms(4) by (simp add: OperandLiteral c_comparison_def c_direct_def)
    with True show ?thesis
      unfolding meaning using not_equal_true [OF assms(1), of l x f] by (simp add: constraint_holds_def)
  next
    case False
    then have "constraint_ok f op l (x = None)" "c_constraint f (ComparisonConstraint op l) = Inr p"
      using assms(3,4) by (auto simp: OperandLiteral c_comparison_def c_direct_def constraint_ok_def split: if_splits)
    then show ?thesis unfolding meaning by (rule constraint_true [OF assms(1,2)])
  qed
next
  case (OperandRange r)
  then show ?thesis using assms(3,4) by (auto simp: c_comparison_def field_holds_def range_true [OF assms(1)])
next
  case (OperandSet vs)
  then consider "op = OpEQ" | "op = OpNEQ" using assms(3) by auto
  then show ?thesis
  proof cases
    case 1
    then show ?thesis
      using assms(3,4) eq_set_true [OF assms(1,2), of "elements vs" p]
      by (simp add: OperandSet c_comparison_def field_holds_def)
  next
    case 2
    then show ?thesis
      using assms(3,4) neq_set_true [OF assms(1), of f x "elements vs"]
      by (auto simp: OperandSet c_comparison_def field_holds_def)
  qed
qed

lemma field_true:
  assumes "lawful_database db" "dated db f x" "field_ok f op v (x = None)" "c_field f op v = Inr p"
  shows "pred_value db x p = Some True \<longleftrightarrow> field_holds db f op v x"
proof (cases op)
  case (StringOp s)
  then show ?thesis
    using assms(3,4) string_true [OF assms(1), of f s v] by (auto simp: c_field_def field_holds_def)
next
  case (Comparison c)
  then show ?thesis
    using assms(3,4) comparison_true [OF assms(1,2), of c v p] by (simp add: c_field_def)
qed

section \<open>Definite values\<close>

text \<open>A predicate whose arguments all have a value is true or false on a field that has one.\<close>

definition valued_arg :: "sql_arg \<Rightarrow> bool" where
  "valued_arg a \<longleftrightarrow> a \<noteq> ANull \<and> a \<noteq> AParam PNone"

fun valued_pred :: "sql_pred \<Rightarrow> bool" where
  "valued_pred (PCmp op a) \<longleftrightarrow> valued_arg a"
| "valued_pred (PBetween a b) \<longleftrightarrow> valued_arg a \<and> valued_arg b"
| "valued_pred (PNotBetween a b) \<longleftrightarrow> valued_arg a \<and> valued_arg b"
| "valued_pred (PIn as) \<longleftrightarrow> list_all valued_arg as"
| "valued_pred (PNotIn as) \<longleftrightarrow> list_all valued_arg as"
| "valued_pred (PMatch neg v) \<longleftrightarrow> (\<exists>s. v = PStr s)"
| "valued_pred (PAnd ps) \<longleftrightarrow> (\<forall>p \<in> set ps. valued_pred p)"
| "valued_pred (POr ps) \<longleftrightarrow> (\<forall>p \<in> set ps. valued_pred p)"
| "valued_pred _ \<longleftrightarrow> True"

lemma valued_arg_value:
  assumes "lawful_database db" "valued_arg a"
  shows "\<exists>w. arg_value db a = Some w"
proof (cases a)
  case (AParam p)
  then show ?thesis using assms(2) lawful_param [OF assms(1), of p] by (auto simp: valued_arg_def)
qed (use assms(2) in \<open>auto simp: valued_arg_def\<close>)

lemma valued_compare:
  "lawful_database db \<Longrightarrow> valued_arg a \<Longrightarrow> compare3 op (Some u) (arg_value db a) \<noteq> None"
  using valued_arg_value by fastforce

lemma valued_pred_defined:
  assumes "lawful_database db"
  shows "valued_pred p \<Longrightarrow> pred_value db (Some u) p \<noteq> None"
proof (induction p)
  case (PCmp op a)
  then show ?case using valued_compare [OF assms] by simp
next
  case (PBetween a b)
  then have "compare3 OpGTE (Some u) (arg_value db a) \<noteq> None" "compare3 OpLTE (Some u) (arg_value db b) \<noteq> None"
    using valued_compare [OF assms] by simp_all
  then show ?case by (simp only: pred_value.simps) (rule three_valued_defined)
next
  case (PNotBetween a b)
  then have "compare3 OpGTE (Some u) (arg_value db a) \<noteq> None" "compare3 OpLTE (Some u) (arg_value db b) \<noteq> None"
    using valued_compare [OF assms] by simp_all
  then show ?case by (simp only: pred_value.simps) (rule not3_defined, rule three_valued_defined)
next
  case (PIn as)
  then have "list_all (\<lambda>b. b \<noteq> None) (map (\<lambda>a. compare3 OpEQ (Some u) (arg_value db a)) as)"
    using valued_compare [OF assms] by (simp add: list_all_iff)
  then show ?case by (simp only: pred_value.simps) (rule fold3_defined [THEN conjunct2])
next
  case (PNotIn as)
  then have "list_all (\<lambda>b. b \<noteq> None) (map (\<lambda>a. compare3 OpEQ (Some u) (arg_value db a)) as)"
    using valued_compare [OF assms] by (simp add: list_all_iff)
  then show ?case by (simp only: pred_value.simps) (rule not3_defined, rule fold3_defined [THEN conjunct2])
next
  case (PMatch neg v)
  then show ?case by (auto simp: lawful_like [OF assms])
next
  case (PAnd ps)
  then show ?case by (simp only: pred_value.simps) (rule fold3_defined [THEN conjunct1]; simp add: list_all_iff)
next
  case (POr ps)
  then show ?case by (simp only: pred_value.simps) (rule fold3_defined [THEN conjunct2]; simp add: list_all_iff)
qed simp_all

lemma arg_valued: "has_value l \<Longrightarrow> valued_arg (arg_of l)"
  by (cases l) (auto simp: has_value_def valued_arg_def arg_of_def literal_param
      simp del: convert_literal_to_parameter.simps split: if_splits)

lemma day_valued: "c_day s = Inr p \<Longrightarrow> valued_pred p"
  by (auto simp: c_day_def bindE_Inr_iff parse_date_only_range_def valued_arg_def split: if_splits option.splits)

lemma constraint_valued:
  assumes "constraint_ok f op l null" "c_constraint f (ComparisonConstraint op l) = Inr p"
  shows "valued_pred p"
proof (cases "l = NullLiteral")
  case True
  with assms show ?thesis by (auto simp: c_constraint_def constraint_ok_def)
next
  case False
  then have "has_value l" using assms(1) by (simp add: constraint_ok_def)
  with False assms(2) show ?thesis by (auto simp: c_constraint_def arg_valued day_valued split: if_splits)
qed

lemma between_valued: "range_ok r \<Longrightarrow> valued_pred (c_between r)"
  by (simp add: range_ok_def c_between_def arg_valued)

lemma eq_element_valued:
  assumes "eq_element_ok f null el" "c_eq_element f el = Inr p"
  shows "valued_pred p"
proof (cases el)
  case (ElemLiteral l)
  with assms show ?thesis
    by (intro constraint_valued [of f OpEQ l null]) (auto simp: eq_literal_constraint constraint_ok_def)
next
  case (ElemConstraint c)
  then show ?thesis using assms constraint_valued [of f "c_operator c" "c_value c" null p] by simp
qed (use assms in \<open>auto simp: between_valued c_compound_def list_all_iff arg_valued\<close>)

lemma neq_element_valued: "neq_element_ok f null el \<Longrightarrow> p \<in> set (c_neq_element el) \<Longrightarrow> valued_pred p"
  by (cases el) (auto simp: c_not_equal_def range_ok_def arg_valued constraint_ok_def split: if_splits)

lemma any_valued: "\<forall>p \<in> set ps. valued_pred p \<Longrightarrow> valued_pred (c_any ps) \<and> valued_pred (c_all ps)"
  by (cases ps) (auto simp: c_any_def c_all_def)

lemma simple_args_valued: "simple_set f nn \<Longrightarrow> list_all valued_arg (map arg_of (set_literals nn))"
  using simple_elements(2) [of f nn] by (auto simp: list_all_iff arg_valued)

lemma hd_valued: "list_all valued_arg as \<Longrightarrow> length as = 1 \<Longrightarrow> valued_arg (hd as)"
  by (cases as) auto

lemma eq_set_valued:
  assumes "list_all (eq_element_ok f null) els" "c_eq_set f els = Inr p"
  shows "valued_pred p"
proof (cases "simple_set f (non_null els) \<and> (has_null els \<or> 0 < length (non_null els))")
  case True
  then have args: "list_all valued_arg (map arg_of (set_literals (non_null els)))"
    and len: "length (map arg_of (set_literals (non_null els))) = length (non_null els)"
    using simple_args_valued set_literals_length by (blast, metis length_map)
  from True assms(2) show ?thesis
    using args hd_valued [OF args] len
    by (auto simp: c_eq_set_def Let_def simp del: map_map list.pred_map split: if_splits)
next
  case False
  then have "\<not> (simple_set f (non_null els) \<and> has_null els)" "\<not> (simple_set f (non_null els) \<and> 0 < length (non_null els))"
    by auto
  then obtain ps where ps: "mapE (c_eq_element f) els = Inr ps" "p = c_any ps"
    using assms(2) by (auto simp: c_eq_set_def Let_def bindE_Inr_iff split: if_splits)
  have "list_all2 (\<lambda>el p. c_eq_element f el = Inr p) els ps" using ps(1) by (simp add: mapE_Inr_iff)
  then have "\<forall>p \<in> set ps. valued_pred p"
    using assms(1) by (induction rule: list_all2_induct) (auto intro: eq_element_valued)
  then show ?thesis by (simp add: ps any_valued)
qed

lemma neq_set_valued:
  assumes "list_all (neq_element_ok f null) els"
  shows "valued_pred (c_neq_set f els)"
proof (cases "simple_set f (non_null els) \<and> (has_null els \<or> 0 < length (non_null els))")
  case True
  then have args: "list_all valued_arg (map arg_of (set_literals (non_null els)))"
    and len: "length (map arg_of (set_literals (non_null els))) = length (non_null els)"
    using simple_args_valued set_literals_length by (blast, metis length_map)
  from True show ?thesis
    using args hd_valued [OF args] len by (auto simp: c_neq_set_def Let_def simp del: map_map list.pred_map)
next
  case False
  then have "c_neq_set f els = c_all (concat (map c_neq_element els))" by (auto simp: c_neq_set_def Let_def)
  moreover have "\<forall>p \<in> set (concat (map c_neq_element els)). valued_pred p"
    using assms by (auto simp: list_all_iff intro: neq_element_valued)
  ultimately show ?thesis by (simp add: any_valued)
qed

lemma has_element_valued:
  assumes "has_element_ok el" "\<not> is_null_element el"
  shows "valued_pred (c_has_element el)" "valued_pred (c_not_has_element el)"
  using assms by (auto elim!: has_element_cases simp: c_pattern_def string_param between_valued range_ok_def arg_valued)

lemma string_valued:
  assumes "field_ok f (StringOp op) v null"
  shows "valued_pred (c_string op v)"
proof (cases v)
  case (OperandLiteral l)
  then obtain s where "v = OperandLiteral (StringLiteral s)" using assms string_literal_cases by auto
  then show ?thesis by (cases op) (simp_all add: c_string_def string_param)
next
  case (OperandSet vs)
  then have ok: "list_all has_element_ok (elements vs)" and op: "op = HAS \<or> op = NOT_HAS" using assms by auto
  have "\<forall>p \<in> set (map c_has_element (non_null (elements vs))). valued_pred p"
    "\<forall>p \<in> set (map c_not_has_element (non_null (elements vs))). valued_pred p"
    using non_null_ok [OF ok] has_element_valued by auto
  then have "valued_pred (c_has_set (elements vs))" "valued_pred (c_not_has_set (elements vs))"
    unfolding c_has_set_def c_not_has_set_def Let_def
    by (auto intro!: any_valued [THEN conjunct1] hd_in_set simp del: set_map list.map_sel)
  with op show ?thesis by (auto simp: c_string_def OperandSet)
qed (use assms in simp)

lemma field_valued:
  assumes "field_ok f op v null" "c_field f op v = Inr p"
  shows "valued_pred p"
proof (cases op)
  case (StringOp s)
  with assms show ?thesis using string_valued [of f s v null] by (simp add: c_field_def)
next
  case (Comparison c)
  show ?thesis
  proof (cases v)
    case (OperandLiteral l)
    show ?thesis
    proof (cases "c = OpNEQ \<and> l \<noteq> NullLiteral \<and> \<not> is_temporal l")
      case True
      then have "has_value l" by (cases l) (simp_all add: has_value_def arg_of_def)
      with True assms(2) show ?thesis
        by (auto simp: Comparison OperandLiteral c_field_def c_comparison_def c_direct_def c_not_equal_def arg_valued)
    next
      case False
      then have "constraint_ok f c l null" "c_constraint f (ComparisonConstraint c l) = Inr p"
        using assms by (auto simp: Comparison OperandLiteral c_field_def c_comparison_def c_direct_def
            constraint_ok_def split: if_splits)
      then show ?thesis by (rule constraint_valued)
    qed
  qed (use assms in \<open>auto simp: Comparison c_field_def c_comparison_def between_valued
      intro: eq_set_valued neq_set_valued split: if_splits\<close>)
qed

text \<open>Conditions that are decided on a NULL.\<close>

lemma or_null_decided: "pred_value db None (POr [p, PIsNull]) \<noteq> None" "pred_value db None (POr [p, q, PIsNull]) \<noteq> None"
  by simp_all

lemma and_not_null_decided: "pred_value db None (PAnd [p, PNotNull]) \<noteq> None"
  by simp

lemma neq_element_decided: "neq_element_ok f True el \<Longrightarrow> p \<in> set (c_neq_element el) \<Longrightarrow> pred_value db None p \<noteq> None"
  by (cases el) (auto simp: c_not_equal_def split: if_splits)

lemma neq_set_decided:
  assumes "list_all (neq_element_ok f True) els"
  shows "pred_value db None (c_neq_set f els) \<noteq> None"
proof -
  have "list_all (\<lambda>b. b \<noteq> None) (map (pred_value db None) (concat (map c_neq_element els)))"
    using assms neq_element_decided by (fastforce simp: list_all_iff)
  then have "pred_value db None (c_all (concat (map c_neq_element els))) \<noteq> None"
    unfolding pred_value_all by (rule fold3_defined [THEN conjunct1])
  then show ?thesis
    using or_null_decided and_not_null_decided by (auto simp: c_neq_set_def Let_def)
qed

lemma true_decided: "pred_value db x p = Some True \<Longrightarrow> pred_value db x p \<noteq> None"
  by simp

lemma not_has_set_decided: "pred_value db None (c_not_has_set els) \<noteq> None"
  using or_null_decided and_not_null_decided by (auto simp: c_not_has_set_def Let_def)

lemma has_null_finds:
  assumes "lawful_database db" "has_null els"
  shows "list_ex (\<lambda>el. element_holds db f el None) els" "list_ex (\<lambda>el. contains_element db el None) els"
  using assms elements_split [OF assms(1), of f None els] contains_split [of db None els] by auto

lemma null_safe_decided:
  assumes "lawful_database db" "field_ok f op v True" "null_safe op v" "c_field f op v = Inr p"
  shows "pred_value db None p \<noteq> None"
proof (cases op)
  case (StringOp s)
  then have p: "p = c_string s v" using assms(4) by (simp add: c_field_def)
  have "pred_value db None p = Some True \<or> s = NOT_HAS"
  proof (cases "s = NOT_HAS")
    case False
    then obtain vs where "v = OperandSet vs" "s = HAS" "has_null (elements vs)"
      using assms(2,3) StringOp by (cases v) auto
    then show ?thesis
      using string_true [OF assms(1) assms(2) [unfolded StringOp], of None] has_null_finds(2) [OF assms(1)]
      by (simp add: p string_holds_def)
  qed simp
  moreover have "pred_value db None (c_string NOT_HAS v) \<noteq> None"
    using or_null_decided not_has_set_decided by (cases v) (auto simp: c_string_def)
  ultimately show ?thesis by (auto simp: p)
next
  case (Comparison c)
  show ?thesis
  proof (cases v)
    case (OperandLiteral l)
    with assms(2-4) show ?thesis
      by (auto simp: Comparison c_field_def c_comparison_def c_direct_def c_constraint_def c_not_equal_def
          constraint_ok_def split: if_splits)
  next
    case (OperandRange r)
    with assms(3) show ?thesis by (simp add: Comparison)
  next
    case (OperandSet vs)
    show ?thesis
    proof (cases "c = OpNEQ")
      case True
      with assms(2,4) show ?thesis
        using neq_set_decided [of f "elements vs" db] by (auto simp: Comparison OperandSet c_field_def c_comparison_def)
    next
      case False
      then have "c = OpEQ" "has_null (elements vs)" using assms(3) by (auto simp: Comparison OperandSet)
      then have "pred_value db None p = Some True"
        using field_true [OF assms(1) _ _ assms(4), of None] assms(2) has_null_finds(1) [OF assms(1), of "elements vs" f]
        by (simp add: Comparison OperandSet dated_def field_holds_def)
      then show ?thesis by simp
    qed
  qed
qed

section \<open>Expressions\<close>

lemma lawful_row_simps [simp]:
  "lawful_row db row (BoundField f op v) \<longleftrightarrow> dated db f (row f)"
  "lawful_row db row (BoundLogical l a b) \<longleftrightarrow> lawful_row db row a \<and> lawful_row db row b"
  "lawful_row db row (BoundNegation a) \<longleftrightarrow> lawful_row db row a"
  by (simp_all add: lawful_row_def)

lemma exact_value:
  assumes "lawful_database db" "\<And>f. row f = cols (lower_field_path f)"
  shows "lawful_row db row e \<Longrightarrow> exact row e \<Longrightarrow> c_expression e = Inr t \<Longrightarrow>
    tree_value db cols t = Some (holds db row e)"
proof (induction e arbitrary: t)
  case (BoundField f op v)
  then obtain p where p: "c_field f op v = Inr p" "t = TPred (lower_field_path f) p"
    by (auto simp: bindE_Inr_iff)
  have ok: "field_ok f op v (row f = None)" and dated: "dated db f (row f)" using BoundField by simp_all
  have true: "pred_value db (row f) p = Some True \<longleftrightarrow> field_holds db f op v (row f)"
    by (rule field_true [OF assms(1) dated ok p(1)])
  have "pred_value db (row f) p \<noteq> None"
  proof (cases "row f")
    case None
    then show ?thesis using null_safe_decided [OF assms(1) _ _ p(1)] BoundField.prems by simp
  next
    case (Some u)
    then show ?thesis using valued_pred_defined [OF assms(1) field_valued [OF ok p(1)]] by simp
  qed
  with true have "pred_value db (row f) p = Some (field_holds db f op v (row f))"
    by (cases "pred_value db (row f) p") auto
  then show ?case by (simp add: p assms(2) [symmetric])
next
  case (BoundLogical op l r)
  then show ?case by (auto simp: bindE_Inr_iff)
next
  case (BoundNegation e)
  then show ?case by (auto simp: bindE_Inr_iff)
qed

lemma supported_selects:
  assumes "lawful_database db" "\<And>f. row f = cols (lower_field_path f)"
  shows "lawful_row db row e \<Longrightarrow> supported row e \<Longrightarrow> c_expression e = Inr t \<Longrightarrow>
    tree_value db cols t = Some True \<longleftrightarrow> holds db row e"
proof (induction e arbitrary: t)
  case (BoundField f op v)
  then obtain p where p: "c_field f op v = Inr p" "t = TPred (lower_field_path f) p"
    by (auto simp: bindE_Inr_iff)
  then show ?case
    using field_true [OF assms(1) _ _ p(1), of "row f"] BoundField.prems by (simp add: assms(2) [symmetric])
next
  case (BoundLogical op l r)
  then show ?case by (auto simp: bindE_Inr_iff)
next
  case (BoundNegation e)
  then obtain t' where t: "c_expression e = Inr t'" "t = TNot t'" by (auto simp: bindE_Inr_iff)
  have "tree_value db cols t' = Some (holds db row e)"
    using BoundNegation.prems by (intro exact_value [OF assms(1)] assms(2) t(1)) simp_all
  then show ?case by (simp add: t)
qed

end
