(* ===== verification/Marked_Selection.thy ===== *)
theory Marked_Selection
  imports Marked_Predicates Sql_Selection
begin

text \<open>
  What the conditions that are written for SQLite and MySQL select: on the supported part of the language
  their value in SQL's three-valued logic is the documented two-valued meaning (\<open>holds\<close> of
  \<open>Sql_Semantics\<close>). The predicates keep the values as PostgreSQL's driver would get them; a database
  that gets them in the encoding of the dialect is \<open>through d db\<close>.
\<close>

definition through :: "sql_dialect \<Rightarrow> 'v database \<Rightarrow> 'v database" where
  "through d db = db \<lparr>db_value := db_value db \<circ> marked_encode d\<rparr>"

section \<open>The supported conditions\<close>

text \<open>Literals that are handed over as a value: in a set also \<open>TODAY\<close> and \<open>NOW\<close> become a NULL parameter.\<close>

fun given :: "literal \<Rightarrow> bool" where
  "given (TemporalLiteral k v) \<longleftrightarrow> k = None \<and> v \<noteq> None"
| "given NullLiteral \<longleftrightarrow> False"
| "given l \<longleftrightarrow> True"

text \<open>Constraints inside a set: the lowerers compare, without NULL and without days.\<close>

definition plain_constraint :: "bound_field \<Rightarrow> bool \<Rightarrow> comparison_constraint \<Rightarrow> bool" where
  "plain_constraint f null c \<longleftrightarrow>
     has_value (c_value c) \<and> (c_operator c = OpNEQ \<longrightarrow> \<not> null) \<and>
     (c_operator c = OpEQ \<or> c_operator c = OpNEQ \<longrightarrow> \<not> means_day f (c_value c))"

fun marked_element_ok :: "sql_dialect \<Rightarrow> bound_field \<Rightarrow> bool \<Rightarrow> bool \<Rightarrow> value_set_element \<Rightarrow> bool" where
  "marked_element_ok d f eq null (ElemLiteral l) \<longleftrightarrow> l = NullLiteral \<or> given l"
| "marked_element_ok d f eq null (ElemRange r) \<longleftrightarrow> range_ok r"
| "marked_element_ok d f eq null (ElemConstraint c) \<longleftrightarrow> plain_constraint f null c"
| "marked_element_ok d f eq null (ElemCompound cs) \<longleftrightarrow>
     (eq \<longrightarrow> \<not> dl_unbound_element d) \<and> cs \<noteq> [] \<and> list_all (plain_constraint f null) cs"

fun marked_field_ok :: "sql_dialect \<Rightarrow> bound_field \<Rightarrow> field_operator \<Rightarrow> operand \<Rightarrow> bool \<Rightarrow> bool" where
  "marked_field_ok d f (Comparison op) (OperandLiteral l) null \<longleftrightarrow>
     (if l = NullLiteral then op = OpEQ \<or> op = OpNEQ
      else has_value l \<and> (op = OpNEQ \<longrightarrow> \<not> means_day f l) \<and>
        (null \<longrightarrow> op = OpNEQ))"
| "marked_field_ok d f (Comparison op) (OperandRange r) null \<longleftrightarrow> op = OpEQ \<and> range_ok r \<and> \<not> null"
| "marked_field_ok d f (Comparison op) (OperandSet vs) null \<longleftrightarrow>
     elements vs \<noteq> [] \<and> (op = OpEQ \<or> op = OpNEQ) \<and>
     list_all (marked_element_ok d f (op = OpEQ) null) (elements vs) \<and>
     (null \<longrightarrow> op = OpNEQ \<or> has_null (elements vs))"
| "marked_field_ok d f (StringOp s) v null \<longleftrightarrow>
     field_ok f (StringOp s) v null \<and> (null \<longrightarrow> null_safe (StringOp s) v)"

fun marked_exact :: "sql_dialect \<Rightarrow> (bound_field \<Rightarrow> 'v option) \<Rightarrow> bound_expression \<Rightarrow> bool" where
  "marked_exact d row (BoundField f op v) \<longleftrightarrow> marked_field_ok d f op v (row f = None)"
| "marked_exact d row (BoundLogical op l r) \<longleftrightarrow> marked_exact d row l \<and> marked_exact d row r"
| "marked_exact d row (BoundNegation e) \<longleftrightarrow> marked_exact d row e"

section \<open>Lists of truth values\<close>

lemma fold3_some:
  "any3 (map Some bs) = Some (list_ex id bs)" "all3 (map Some bs) = Some (list_all id bs)"
  by (induction bs) simp_all

lemma all3_false: "Some False \<in> set bs \<Longrightarrow> all3 bs = Some False"
proof (induction bs)
  case (Cons b bs)
  then show ?case by (cases "all3 bs" rule: tri_cases; cases b rule: tri_cases) auto
qed simp

lemma pred_value_or: "pred_value db x (m_or ps) = any3 (map (pred_value db x) ps)"
  by (cases ps; cases "tl ps") (auto simp: m_or_def)

lemma pred_value_and: "pred_value db x (m_and ps) = all3 (map (pred_value db x) ps)"
  by (cases ps; cases "tl ps") (auto simp: m_and_def)

lemma compare3_negated:
  "compare3 OpLT x y = not3 (compare3 OpGTE x y)" "compare3 OpGT x y = not3 (compare3 OpLTE x y)"
  "compare3 OpGTE x y = not3 (compare3 OpLT x y)"
  by (cases x; cases y; simp add: not_le not_less)+

lemma not3_not3 [simp]: "not3 (not3 b) = b"
  by (cases b rule: tri_cases) simp_all

section \<open>Days\<close>

lemma m_day_inside: "m_day True s = c_day s"
  by (simp add: m_day_def c_day_def)

lemma day_outside:
  assumes "lawful_database db" "m_day False s = Inr p" "valid_day (db_day db u)"
  shows "pred_value db (Some u) p = Some (db_day db u \<noteq> day_of_text s)"
proof -
  obtain a b where ab: "parse_date_only_range s = Inr (a, b)" "p = POr [PCmp OpLT (AParam a), PCmp OpGTE (AParam b)]"
    using assms(2) by (auto simp: m_day_def bindE_Inr_iff)
  then have "c_day s = Inr (PAnd [PCmp OpGTE (AParam a), PCmp OpLT (AParam b)])" by (simp add: c_day_def)
  note inside = day_value [OF assms(1) this assms(3)]
  have "pred_value db (Some u) p = not3 (pred_value db (Some u) (PAnd [PCmp OpGTE (AParam a), PCmp OpLT (AParam b)]))"
    unfolding ab(2) by (simp add: or3_def compare3_negated(1) [of "Some u" "db_value db a"]
        compare3_negated(3) [of "Some u" "db_value db b"])
  then show ?thesis by (simp add: inside del: pred_value.simps)
qed

section \<open>Elements\<close>

lemma given_value: "given l \<Longrightarrow> literal_value db l = db_value db (convert_literal_to_parameter l) \<and> has_value l"
  by (cases l) (auto simp: literal_value_def has_value_def arg_of_def)

lemma constraint_decides:
  assumes "lawful_database db" "plain_constraint f False c"
  shows "pred_value db (Some u) (m_constraint c) = Some (constraint_holds db f (c_operator c) (c_value c) (Some u))"
    and "pred_value db (Some u) (m_inverted c) = Some (\<not> constraint_holds db f (c_operator c) (c_value c) (Some u))"
proof -
  obtain w where w: "literal_value db (c_value c) = Some w"
    using valued [OF assms(1)] assms(2) by (auto simp: plain_constraint_def)
  show "pred_value db (Some u) (m_constraint c) = Some (constraint_holds db f (c_operator c) (c_value c) (Some u))"
    "pred_value db (Some u) (m_inverted c) = Some (\<not> constraint_holds db f (c_operator c) (c_value c) (Some u))"
    using assms(2) w
    by (cases "c_operator c"; auto simp: m_constraint_def m_inverted_def plain_constraint_def constraint_holds_def
        literal_equal_def lawful_value [OF assms(1)])+
qed

lemma constraint_null: "plain_constraint f True c \<Longrightarrow> \<not> constraint_holds db f (c_operator c) (c_value c) None"
  using has_value_not_null by (auto simp: plain_constraint_def constraint_holds_def literal_equal_def)

lemma element_null: "marked_element_ok d f eq True el \<Longrightarrow> \<not> is_null_element el \<Longrightarrow> \<not> element_holds db f el None"
  by (cases el) (auto simp: is_null_element_def literal_equal_def range_holds_def constraint_null list_all_iff
      neq_Nil_conv)

lemma range_decides:
  assumes "lawful_database db" "range_ok r"
  shows "pred_value db (Some u) (c_between r) = Some (range_holds db r (Some u))"
    and "pred_value db (Some u) (PNotBetween (arg_of (r_start r)) (arg_of (r_end r))) = Some (\<not> range_holds db r (Some u))"
proof -
  obtain a b where "literal_value db (r_start r) = Some a" "literal_value db (r_end r) = Some b"
    using valued [OF assms(1)] assms(2) by (fastforce simp: range_ok_def)
  then show "pred_value db (Some u) (c_between r) = Some (range_holds db r (Some u))"
    "pred_value db (Some u) (PNotBetween (arg_of (r_start r)) (arg_of (r_end r))) = Some (\<not> range_holds db r (Some u))"
    by (simp_all add: c_between_def range_holds_def lawful_value [OF assms(1)])
qed

lemma other_literal:
  "\<not> marked_simple f (ElemLiteral l) \<Longrightarrow> \<not> is_null_element (ElemLiteral l) \<Longrightarrow> means_day f l \<and> l \<noteq> NullLiteral"
  by (cases l) (auto simp: is_null_element_def means_day_def)

lemma day_element:
  assumes "lawful_database db" "dated db f (Some u)" "means_day f l" "m_other_literal f inside l = Inr ps"
  shows "map (pred_value db (Some u)) ps = [Some (literal_equal db f l (Some u) = inside)]"
proof -
  obtain p where p: "m_day inside (date_only_text l) = Inr p" "ps = [p]"
    using assms(3,4) by (auto simp: m_other_literal_def means_day_def bindE_Inr_iff)
  have "valid_day (db_day db u)" using assms(2,3) by (simp add: dated_def means_day_def)
  then show ?thesis
    using p day_value [OF assms(1), of "date_only_text l" p u] day_outside [OF assms(1), of "date_only_text l" p u] assms(3)
    by (cases inside) (simp_all add: m_day_inside literal_equal_def)
qed

lemma eq_other_decides:
  assumes "lawful_database db" "dated db f (Some u)" "marked_element_ok d f True False el"
    and "\<not> marked_simple f el" "\<not> is_null_element el" "m_eq_other d f el = Inr ps"
  shows "map (pred_value db (Some u)) ps = [Some (element_holds db f el (Some u))]"
proof (cases el)
  case (ElemLiteral l)
  with assms other_literal [of f l] show ?thesis using day_element [OF assms(1,2), of l True ps] by simp
next
  case (ElemCompound cs)
  then have "map (pred_value db (Some u)) (map m_constraint cs) =
      map Some (map (\<lambda>c. constraint_holds db f (c_operator c) (c_value c) (Some u)) cs)"
    using assms(3) by (auto simp: constraint_decides [OF assms(1)] list_all_iff)
  with assms(6) ElemCompound show ?thesis
    by (auto simp del: map_map simp: fold3_some list_all_iff split: if_splits)
qed (use assms in \<open>auto simp: constraint_decides range_decides\<close>)

lemma neq_other_decides:
  assumes "lawful_database db" "dated db f (Some u)" "marked_element_ok d f False False el"
    and "\<not> marked_simple f el" "\<not> is_null_element el" "m_neq_other f el = Inr ps"
  shows "map (pred_value db (Some u)) ps = [Some (\<not> element_holds db f el (Some u))]"
proof (cases el)
  case (ElemLiteral l)
  with assms other_literal [of f l] show ?thesis using day_element [OF assms(1,2), of l False ps] by simp
next
  case (ElemCompound cs)
  then have "map (pred_value db (Some u)) (map m_inverted cs) =
      map Some (map (\<lambda>c. \<not> constraint_holds db f (c_operator c) (c_value c) (Some u)) cs)"
    using assms(3) by (auto simp: constraint_decides [OF assms(1)] list_all_iff)
  with assms(6) ElemCompound show ?thesis
    by (auto simp del: map_map simp: fold3_some list_ex_iff list_all_iff)
qed (use assms in \<open>auto simp: constraint_decides range_decides simp del: pred_value.simps\<close>)

section \<open>Sets\<close>

lemma elements_partition:
  "list_ex P els \<longleftrightarrow> (has_null els \<and> P (ElemLiteral NullLiteral)) \<or> list_ex (\<lambda>l. P (ElemLiteral l)) (simple_literals f els) \<or>
     list_ex P (marked_others f els)"
proof -
  have "l \<in> set (simple_literals f els) \<longleftrightarrow> ElemLiteral l \<in> set els \<and> marked_simple f (ElemLiteral l)" for l
    by (cases l) (auto simp: simple_literals_def set_literals_def non_null_def is_null_element_def split: value_set_element.splits)
  moreover have "\<exists>l. el = ElemLiteral l" if "marked_simple f el" for el
    using that by (cases el) simp_all
  ultimately show ?thesis
    unfolding list_ex_iff marked_others_def has_null_def non_null_def is_null_element_def by (auto; metis)
qed

lemma args_given:
  assumes "list_all (marked_element_ok d f eq null) els" "l \<in> set (simple_literals f els)"
  shows "given l \<and> \<not> means_day f l \<and> l \<noteq> NullLiteral"
proof -
  have "ElemLiteral l \<in> set els" "marked_simple f (ElemLiteral l)"
    using assms(2) by (auto simp: simple_literals_def set_literals_def non_null_def split: value_set_element.splits)
  then show ?thesis using assms(1) by (cases l) (auto simp: list_all_iff means_day_def is_date_only_literal_def)
qed

lemma in_decides:
  assumes "lawful_database db" "\<And>l. l \<in> set lits \<Longrightarrow> given l \<and> \<not> means_day f l \<and> l \<noteq> NullLiteral"
  shows "any3 (map (\<lambda>a. compare3 OpEQ (Some u) (arg_value db a)) (map (\<lambda>l. AParam (convert_literal_to_parameter l)) lits)) =
    Some (list_ex (\<lambda>l. literal_equal db f l (Some u)) lits)"
proof -
  have "compare3 OpEQ (Some u) (db_value db (convert_literal_to_parameter l)) = Some (literal_equal db f l (Some u))"
    if "l \<in> set lits" for l
    using assms(2) [OF that] given_value [of l db] valued [OF assms(1), of l] by (auto simp: literal_equal_def)
  then show ?thesis by (simp add: comp_def fold3_two_valued(2))
qed

lemma others_decide:
  assumes "mapE m xs = Inr pss" "\<And>el ps. el \<in> set xs \<Longrightarrow> m el = Inr ps \<Longrightarrow> map g ps = [Some (h el)]"
  shows "map g (concat pss) = map Some (map h xs)"
proof -
  have "list_all2 (\<lambda>el ps. m el = Inr ps) xs pss" using assms(1) by (simp add: mapE_Inr_iff)
  then show ?thesis using assms(2) by (induction rule: list_all2_induct) auto
qed

lemma marked_others_ok:
  "list_all ok els \<Longrightarrow> el \<in> set (marked_others f els) \<Longrightarrow> ok el \<and> \<not> marked_simple f el \<and> \<not> is_null_element el"
  by (simp add: marked_others_def non_null_def list_all_iff)

lemma eq_set_decides:
  assumes "lawful_database db" "dated db f (Some u)" "list_all (marked_element_ok d f True False) els"
    and "m_eq_set d f els = Inr p"
  shows "pred_value db (Some u) p = Some (list_ex (\<lambda>el. element_holds db f el (Some u)) els)"
proof -
  let ?h = "\<lambda>el. element_holds db f el (Some u)" and ?pv = "pred_value db (Some u)"
  obtain pss where pss: "mapE (m_eq_other d f) (marked_others f els) = Inr pss" "p = m_or (m_eq_preds f els pss)"
    using assms(4) by (auto simp: m_eq_set_def bindE_Inr_iff)
  have later: "map ?pv (concat pss) = map Some (map ?h (marked_others f els))"
    using pss(1) by (rule others_decide) (rule eq_other_decides [OF assms(1,2)]; use marked_others_ok [OF assms(3)] in blast)
  let ?ins = "if simple_literals f els = [] then [] else [list_ex (\<lambda>l. ?h (ElemLiteral l)) (simple_literals f els)]"
  have ins: "map ?pv (m_in PIn (simple_literals f els)) = map Some ?ins"
    using in_decides [OF assms(1) args_given [OF assms(3)]] by (simp add: m_in_def del: map_map)
  have "map ?pv (m_eq_preds f els pss) =
      map Some ((if has_null els then [False] else []) @ ?ins @ map ?h (marked_others f els))"
    unfolding m_eq_preds_def map_append later ins by simp
  then have "?pv p = Some (list_ex id ((if has_null els then [False] else []) @ ?ins @ map ?h (marked_others f els)))"
    unfolding pss(2) pred_value_or by (simp only: fold3_some)
  then show ?thesis
    using elements_partition [of ?h els f] by (simp add: literal_equal_simps(1) [OF assms(1)] list_ex_iff) blast
qed

lemma neq_set_decides:
  assumes "lawful_database db" "dated db f (Some u)" "list_all (marked_element_ok d f False False) els"
    and "m_neq_set f els = Inr p"
  shows "pred_value db (Some u) p = Some (\<not> list_ex (\<lambda>el. element_holds db f el (Some u)) els)"
proof -
  let ?h = "\<lambda>el. element_holds db f el (Some u)" and ?pv = "pred_value db (Some u)"
  obtain pss where pss: "mapE (m_neq_other f) (marked_others f els) = Inr pss"
    "p = (if has_null els then m_and (m_neq_preds f els pss) else POr [m_and (m_neq_preds f els pss), PIsNull])"
    using assms(4) by (auto simp: m_neq_set_def bindE_Inr_iff)
  have later: "map ?pv (concat pss) = map Some (map (\<lambda>el. \<not> ?h el) (marked_others f els))"
    using pss(1) by (rule others_decide) (rule neq_other_decides [OF assms(1,2)]; use marked_others_ok [OF assms(3)] in blast)
  let ?ins = "if simple_literals f els = [] then [] else [\<not> list_ex (\<lambda>l. ?h (ElemLiteral l)) (simple_literals f els)]"
  have ins: "map ?pv (m_in PNotIn (simple_literals f els)) = map Some ?ins"
    using in_decides [OF assms(1) args_given [OF assms(3)]] by (simp add: m_in_def del: map_map)
  let ?all = "(if has_null els then [True] else []) @ ?ins @ map (\<lambda>el. \<not> ?h el) (marked_others f els)"
  have "map ?pv (m_neq_preds f els pss) = map Some ?all"
    unfolding m_neq_preds_def map_append later ins by simp
  then have "?pv (m_and (m_neq_preds f els pss)) = Some (list_all id ?all)"
    unfolding pred_value_and by (simp only: fold3_some)
  then have "?pv p = Some (list_all id ?all)" by (simp add: pss(2) del: list_all_append)
  then show ?thesis
    using elements_partition [of ?h els f]
    by (simp add: literal_equal_simps(1) [OF assms(1)] list_ex_iff list_all_iff) blast
qed

text \<open>On a NULL.\<close>

lemma eq_set_null:
  "has_null els \<Longrightarrow> m_eq_set d f els = Inr p \<Longrightarrow> pred_value db None p = Some True"
  by (auto simp: m_eq_set_def bindE_Inr_iff pred_value_or m_eq_preds_def)

lemma neq_set_null:
  assumes "lawful_database db" "list_all (marked_element_ok d f False True) els" "m_neq_set f els = Inr p"
  shows "pred_value db None p = Some (\<not> list_ex (\<lambda>el. element_holds db f el None) els)"
proof (cases "has_null els")
  case True
  then obtain pss where p: "p = m_and (PNotNull # m_in PNotIn (simple_literals f els) @ concat pss)"
    using assms(3) by (auto simp: m_neq_set_def m_neq_preds_def bindE_Inr_iff)
  have "pred_value db None p = Some False" unfolding p pred_value_and by (rule all3_false) simp
  with has_null_finds(1) [OF assms(1) True] show ?thesis by simp
next
  case False
  then have "pred_value db None p = Some True" using assms(3) by (auto simp: m_neq_set_def bindE_Inr_iff)
  moreover have "\<not> list_ex (\<lambda>el. element_holds db f el None) els"
    using False assms(2) by (auto simp: list_ex_iff list_all_iff has_null_def dest: element_null [of d f False])
  ultimately show ?thesis by simp
qed

section \<open>One field\<close>

lemma direct_decides:
  assumes "lawful_database db" "dated db f x" "marked_field_ok d f (Comparison op) (OperandLiteral l) (x = None)"
    and "m_direct f op l = Inr p"
  shows "pred_value db x p = Some (field_holds db f (Comparison op) (OperandLiteral l) x)"
proof (cases "l = NullLiteral")
  case True
  with assms(3,4) show ?thesis
    by (auto simp: m_direct_def field_holds_def literal_equal_simps(1) [OF assms(1)])
next
  case l: False
  show ?thesis
  proof (cases x)
    case None
    with l assms(3,4) show ?thesis by (auto simp: m_direct_def c_not_equal_def field_holds_def literal_equal_def)
  next
    case (Some u)
    show ?thesis
    proof (cases "op = OpEQ \<and> means_day f l")
      case True
      then have "c_day (date_only_text l) = Inr p" "valid_day (db_day db u)"
        using l assms(2,4) by (simp_all add: Some m_direct_def m_day_inside means_day_def dated_def)
      with True Some show ?thesis by (simp add: day_value [OF assms(1)] field_holds_def literal_equal_def)
    next
      case False
      obtain w where w: "literal_value db l = Some w" using valued [OF assms(1), of l] l assms(3) by auto
      have "p = (if op = OpNEQ then c_not_equal l else PCmp op (arg_of l))"
        using l False assms(4) by (auto simp: m_direct_def means_day_def)
      with l False w Some assms(3) show ?thesis
        by (cases op) (auto simp: c_not_equal_def field_holds_def constraint_holds_def literal_equal_def
            lawful_value [OF assms(1)])
    qed
  qed
qed

lemma marked_field_decides:
  assumes "lawful_database db" "dated db f x" "marked_field_ok d f op v (x = None)" "m_field d f op v = Inr p"
  shows "pred_value db x p = Some (field_holds db f op v x)"
proof (cases op)
  case (StringOp s)
  then have ok: "field_ok f op v (x = None)" "x = None \<longrightarrow> null_safe op v" and p: "c_field f op v = Inr p"
    using assms(3,4) by (simp_all add: m_field_def c_field_def)
  have "pred_value db x p \<noteq> None"
  proof (cases x)
    case None
    then show ?thesis using null_safe_decided [OF assms(1) _ _ p] ok by simp
  next
    case (Some u)
    then show ?thesis using valued_pred_defined [OF assms(1) field_valued [OF ok(1) p]] by simp
  qed
  with field_true [OF assms(1,2) ok(1) p] show ?thesis by (cases "pred_value db x p") auto
next
  case (Comparison c)
  show ?thesis
  proof (cases v)
    case (OperandLiteral l)
    with assms(3,4) show ?thesis
      unfolding Comparison OperandLiteral by (intro direct_decides [OF assms(1,2)]) (simp_all add: m_field_def m_comparison_def)
  next
    case (OperandRange r)
    with assms(3,4) obtain u where "x = Some u" "c = OpEQ" "range_ok r" "p = c_between r"
      by (auto simp: Comparison m_field_def m_comparison_def)
    then show ?thesis by (simp add: Comparison OperandRange range_decides(1) [OF assms(1)] field_holds_def)
  next
    case (OperandSet vs)
    note facts = assms(3,4) [unfolded Comparison OperandSet]
    consider "c = OpEQ" "m_eq_set d f (elements vs) = Inr p" | "c = OpNEQ" "m_neq_set f (elements vs) = Inr p"
      using facts by (auto simp: m_field_def m_comparison_def)
    then show ?thesis
    proof cases
      case 1
      show ?thesis
      proof (cases x)
        case None
        then have "has_null (elements vs)" using facts(1) 1(1) by simp
        then show ?thesis
          using eq_set_null [OF _ 1(2)] has_null_finds(1) [OF assms(1)]
          by (simp add: Comparison OperandSet 1(1) None field_holds_def)
      next
        case (Some u)
        then show ?thesis
          using eq_set_decides [OF assms(1) _ _ 1(2), of u] assms(2) facts(1) 1(1)
          by (simp add: Comparison OperandSet field_holds_def)
      qed
    next
      case 2
      then show ?thesis
        using neq_set_decides [OF assms(1) _ _ 2(2), where d = d] neq_set_null [OF assms(1) _ 2(2), where d = d] assms(2) facts(1)
        by (cases x) (simp_all add: Comparison OperandSet field_holds_def)
    qed
  qed
qed

section \<open>Expressions\<close>

lemma marked_exact_value:
  assumes "lawful_database db" "\<And>f. row f = cols (marked_field_path d f)"
  shows "lawful_row db row e \<Longrightarrow> marked_exact d row e \<Longrightarrow> m_expression d e = Inr t \<Longrightarrow>
    tree_value db cols t = Some (holds db row e)"
proof (induction e arbitrary: t)
  case (BoundField f op v)
  then obtain p where "m_field d f op v = Inr p" "t = TPred (marked_field_path d f) p"
    by (auto simp: bindE_Inr_iff)
  with BoundField.prems show ?case
    using marked_field_decides [OF assms(1), of f "row f" d op v p] by (simp add: assms(2) [symmetric])
qed (auto simp: bindE_Inr_iff)

end
