(* ===== verification/Postgres_Statements.thy ===== *)
theory Postgres_Statements
  imports Sql_Predicates
begin

text \<open>
  Properties of the statements that the PostgreSQL lowerer writes: the numbering of the placeholders,
  the independence of the text from the values of literals, and the grouping of the records of a CREATE.
\<close>

fun queries_of :: "physical_result \<Rightarrow> physical_query list" where
  "queries_of (SingleQuery q) = [q]"
| "queries_of (QueryBatch b) = pb_queries b"

section \<open>Placeholders\<close>

definition may_template :: "(nat \<Rightarrow> string) \<Rightarrow> string emitter \<Rightarrow> bool" where
  "may_template mk m \<longleftrightarrow> (\<exists>e. m = emit_raise e) \<or> has_template mk m"

lemma may_template_result:
  assumes "may_template mk m" "m [] = Inr (s, ps)"
  shows "\<exists>p. s = number mk 0 p \<and> ps = slots p"
  using assms unfolding may_template_def
proof (elim disjE exE)
  fix e assume "m = emit_raise e"
  with assms(2) show ?thesis by (simp add: emit_raise_def)
next
  assume "has_template mk m"
  then obtain p where "templated mk m p" by (auto simp: has_template_def)
  with assms(2) show ?thesis by (auto simp: templated_def)
qed

lemma has_template_never_fails: "has_template mk m \<Longrightarrow> never_fails m"
  by (auto simp: has_template_def templated_def never_fails_def)

lemma may_template_wrap:
  "may_template mk m \<Longrightarrow> may_template mk (emit_bind m (\<lambda>s. emit_return (a @ s @ b)))"
  unfolding may_template_def using has_template_intros(3) by force

lemma may_template_two:
  assumes "has_template mk m" "may_template mk n"
  shows "may_template mk (emit_bind m (\<lambda>x. emit_bind n (\<lambda>y. emit_return (a @ x @ b @ y @ c))))"
  using assms(2) unfolding may_template_def
proof (elim disjE exE)
  fix e assume "n = emit_raise e"
  then show "(\<exists>e. emit_bind m (\<lambda>x. emit_bind n (\<lambda>y. emit_return (a @ x @ b @ y @ c))) = emit_raise e) \<or>
      has_template mk (emit_bind m (\<lambda>x. emit_bind n (\<lambda>y. emit_return (a @ x @ b @ y @ c))))"
    using never_fails_raise [OF has_template_never_fails [OF assms(1)], of e] by auto
qed (use has_template_intros(4) [OF assms(1)] in blast)

lemma expression_template: "may_template dollar_mark (lower_expression e)"
  by (cases "c_expression e") (auto simp: lower_expression_render may_template_def tree_template [of postgres_writer, simplified])

lemma literal_template [templates]: "has_template dollar_mark (lower_literal l)"
  by (simp add: lower_literal_render arg_template [of postgres_writer, simplified])

lemma where_template: "may_template dollar_mark (lower_where w)"
proof (cases w)
  case None
  then show ?thesis by (simp add: lower_where_def may_template_def templates)
next
  case (Some e)
  have "may_template dollar_mark (emit_bind (lower_expression e) (\<lambda>s. emit_return ('' WHERE '' @ s @ [])))"
    by (rule may_template_wrap) (rule expression_template)
  then show ?thesis by (simp add: lower_where_def Some)
qed

lemma row_template [templates]: "has_template dollar_mark (lower_row r)"
proof -
  have "has_template dollar_mark (emit_bind (emit_map (lower_literal \<circ> ba_value) (br_assignments r))
      (\<lambda>vals. emit_return (''('' @ join '', '' vals @ '')'')))"
    by (rule has_template_list) (simp add: literal_template)
  then show ?thesis by (simp add: lower_row_def parens_def)
qed

lemma insert_template: "has_template dollar_mark (lower_insert table grp)"
proof -
  have "has_template dollar_mark (emit_bind (emit_map lower_row grp) (\<lambda>rows. emit_return
      ((''INSERT INTO '' @ table @ '' '' @ parens (join '', '' (map quote_ident (record_columns (hd grp)))) @
        '' VALUES '') @ join '', '' rows @ '' RETURNING *;'')))"
    by (rule has_template_list) (rule row_template)
  then show ?thesis by (simp add: lower_insert_def)
qed

lemma set_item_template [templates]: "has_template dollar_mark (lower_set_item a)"
proof -
  have "has_template dollar_mark (emit_bind (lower_literal (ba_value a)) (\<lambda>p.
      emit_return ((quote_ident (leaf (bf_path (ba_field a))) @ '' = '') @ p @ [])))"
    by (intro templates)
  then show ?thesis by (simp add: lower_set_item_def)
qed

lemma update_template: "may_template dollar_mark (lower_update b)"
proof -
  let ?items = "emit_bind (emit_map lower_set_item (b_assignments b)) (\<lambda>items. emit_return ([] @ join '', '' items @ []))"
  have "has_template dollar_mark ?items" by (rule has_template_list) (rule set_item_template)
  then have "may_template dollar_mark (emit_bind ?items (\<lambda>x. emit_bind (lower_where (b_where b)) (\<lambda>y.
      emit_return ((''UPDATE '' @ target_table (b_entity b) @ '' SET '') @ x @ [] @ y @ '' RETURNING *;''))))"
    using where_template by (rule may_template_two)
  then show ?thesis by (simp add: lower_update_def)
qed

lemma delete_template: "may_template dollar_mark (lower_delete b)"
proof -
  have "may_template dollar_mark (emit_bind (lower_where (b_where b)) (\<lambda>w.
      emit_return ((''DELETE FROM '' @ target_table (b_entity b)) @ w @ '' RETURNING *;'')))"
    by (rule may_template_wrap) (rule where_template)
  then show ?thesis by (simp add: lower_delete_def)
qed

lemma join_around:
  "join sep (xs @ [y] @ zs) =
     (if xs = [] then [] else join sep xs @ sep) @ y @ (if zs = [] then [] else sep @ join sep zs)"
proof (induction xs rule: induct_list012)
  case 1
  then show ?case by (cases zs) auto
next
  case (2 x)
  then show ?case by (cases zs) auto
qed simp

lemma read_template: "may_template dollar_mark (lower_read b)"
proof -
  define tail where "tail =
      (if order_by_items b = [] then [] else [''ORDER BY '' @ join '', '' (order_by_items b)]) @
      (case limit_value b of None \<Rightarrow> [] | Some n \<Rightarrow> [''LIMIT '' @ show_int n]) @
      (case b_offset b of None \<Rightarrow> [] | Some n \<Rightarrow> [''OFFSET '' @ show_int n])"
  define head where "head = [select_clause b, ''FROM '' @ target_table (b_entity b)]"
  have read: "lower_read b = emit_bind
       (case b_where b of
          None \<Rightarrow> emit_return []
        | Some e \<Rightarrow> emit_bind (lower_expression e) (\<lambda>s. emit_return [''WHERE '' @ s]))
       (\<lambda>w. emit_return (join '' '' (head @ w @ tail) @ '';''))"
    by (simp add: lower_read_def head_def tail_def)
  show ?thesis
  proof (cases "b_where b")
    case None
    then show ?thesis by (simp add: read may_template_def templates)
  next
    case (Some e)
    have "may_template dollar_mark (emit_bind (lower_expression e) (\<lambda>s. emit_return
        ((join '' '' head @ '' WHERE '') @ s @ ((if tail = [] then [] else '' '' @ join '' '' tail) @ '';''))))"
      by (rule may_template_wrap) (rule expression_template)
    moreover have "join '' '' (head @ [''WHERE '' @ s] @ tail) @ '';'' =
        (join '' '' head @ '' WHERE '') @ s @ ((if tail = [] then [] else '' '' @ join '' '' tail) @ '';'')" for s
      by (simp only: join_around) (simp add: head_def)
    ultimately show ?thesis by (simp add: read Some)
  qed
qed

lemma make_query_facts:
  assumes "make_query b m = Inr q"
  shows "m [] = Inr (pq_query q, pq_parameters q) \<and> pq_source_id q = b_source_id b \<and>
    pq_source_name q = b_source_name b"
  using assms by (auto simp: make_query_def bindE_Inr_iff)

text \<open>The queries that a lowered statement consists of, and the emitters that wrote them.\<close>

definition statement_emitters :: "bound_ir \<Rightarrow> string emitter list" where
  "statement_emitters b =
     (case b_operation b of
        CREATE \<Rightarrow> map (lower_insert (target_table (b_entity b))) (group_records (create_records b))
      | UPDATE \<Rightarrow> [lower_update b]
      | DELETE \<Rightarrow> [lower_delete b]
      | READ \<Rightarrow> [lower_read b])"

lemma postgres_lower_queries:
  assumes "postgres_lower b = Inr r"
  shows "list_all2 (\<lambda>m q. make_query b m = Inr q) (statement_emitters b) (queries_of r)"
proof (cases "b_operation b = CREATE")
  case True
  then obtain qs where qs: "mapE (\<lambda>grp. make_query b (lower_insert (target_table (b_entity b)) grp))
      (group_records (create_records b)) = Inr qs"
    and r: "r = (if length qs = 1 then SingleQuery (hd qs)
      else QueryBatch \<lparr>pb_dialect = ''postgresql'', pb_queries = qs,
             pb_source_id = b_source_id b, pb_source_name = b_source_name b\<rparr>)"
    using assms by (auto simp: postgres_lower_def lower_create_def bindE_Inr_iff)
  have "queries_of r = qs" by (cases qs) (auto simp: r)
  with qs show ?thesis by (simp add: statement_emitters_def True mapE_Inr_iff list.rel_map)
qed (use assms in \<open>auto simp: postgres_lower_def statement_emitters_def bindE_Inr_iff
    split: query_operation.splits\<close>)

lemma statement_templates:
  assumes "m \<in> set (statement_emitters b)"
  shows "may_template dollar_mark m"
proof (cases "b_operation b")
  case CREATE
  then show ?thesis using assms insert_template by (auto simp: statement_emitters_def may_template_def)
qed (use assms update_template delete_template read_template in \<open>simp_all add: statement_emitters_def\<close>)

lemma list_all2_right: "list_all2 P xs ys \<Longrightarrow> y \<in> set ys \<Longrightarrow> \<exists>x \<in> set xs. P x y"
  by (induction rule: list_all2_induct) auto

text \<open>
  C18. Placeholders and parameters agree. Each SQL text that the lowerer writes is a template whose slots
  are numbered \<open>$1\<close>, \<open>$2\<close>, ... from left to right without gaps or repetition, and the list of
  parameters holds exactly the values of the slots in that order. The query is sent to the source the
  bound query names.
\<close>

theorem postgres_placeholders:
  assumes "postgres_lower b = Inr r" "q \<in> set (queries_of r)"
  shows "\<exists>pieces. pq_query q = number dollar_mark 0 pieces \<and> pq_parameters q = slots pieces \<and> pq_source_id q = b_source_id b"
proof -
  obtain m where m: "m \<in> set (statement_emitters b)" "make_query b m = Inr q"
    using list_all2_right [OF postgres_lower_queries [OF assms(1)] assms(2)] by blast
  then show ?thesis
    using may_template_result [OF statement_templates, OF m(1)] make_query_facts [OF m(2)] by blast
qed

definition sample_query :: physical_query where
  "sample_query = hd (queries_of (projr (postgres_lower sample_bound)))"

lemma sample_lowers: "postgres_lower sample_bound = Inr (SingleQuery sample_query)"
proof -
  have "postgres_lower sample_bound = Inr (SingleQuery (hd (queries_of (projr (postgres_lower sample_bound)))))"
    by code_simp
  then show ?thesis by (simp only: sample_query_def)
qed

lemma postgres_placeholders_witness:
  "\<exists>pieces. pq_query sample_query = number dollar_mark 0 pieces \<and> pq_parameters sample_query = slots pieces \<and>
     pq_source_id sample_query = b_source_id sample_bound"
  using postgres_placeholders [OF sample_lowers] by simp

section \<open>Grouping of records\<close>

definition uniform :: "bound_record list \<Rightarrow> bool" where
  "uniform g \<longleftrightarrow> g \<noteq> [] \<and> list_all (\<lambda>r. record_columns r = record_columns (hd g)) g"

text \<open>Neighbouring groups have different columns.\<close>

fun separated :: "bound_record list list \<Rightarrow> bool" where
  "separated (g # h # gs) \<longleftrightarrow> record_columns (hd g) \<noteq> record_columns (hd h) \<and> separated (h # gs)"
| "separated _ \<longleftrightarrow> True"

lemma separated_snoc:
  "separated (gs @ [g]) \<longleftrightarrow> separated gs \<and> (gs = [] \<or> record_columns (hd (last gs)) \<noteq> record_columns (hd g))"
  by (induction gs rule: separated.induct) simp_all

lemma uniform_single: "uniform [r]"
  by (simp add: uniform_def)

lemma uniform_snoc: "uniform g \<Longrightarrow> record_columns (hd g) = record_columns r \<Longrightarrow> uniform (g @ [r])"
  by (simp add: uniform_def)

lemma uniform_nonempty: "uniform g \<Longrightarrow> g \<noteq> []"
  by (simp add: uniform_def)

lemma add_to_groups_snoc:
  assumes "list_all uniform (hs @ [g])" "separated (hs @ [g])"
  shows "list_all uniform (add_to_groups (hs @ [g]) r) \<and> separated (add_to_groups (hs @ [g]) r)"
proof (cases "record_columns (hd g) = record_columns r")
  case True
  have "g \<noteq> []" "uniform (g @ [r])"
    using assms(1) True by (simp_all add: uniform_nonempty uniform_snoc)
  with True assms show ?thesis by (simp add: add_to_groups_def separated_snoc)
next
  case False
  then have "add_to_groups (hs @ [g]) r = (hs @ [g]) @ [[r]]" by (simp add: add_to_groups_def)
  with False assms show ?thesis by (simp only: separated_snoc) (simp add: separated_snoc uniform_single)
qed

lemma add_to_groups_concat: "concat (add_to_groups gs r) = concat gs @ [r]"
proof (cases gs rule: rev_cases)
  case (snoc hs g)
  then show ?thesis by (simp add: add_to_groups_def)
qed (simp add: add_to_groups_def)

lemma group_records_snoc: "group_records (rs @ [r]) = add_to_groups (group_records rs) r"
  by (simp add: group_records_def)

lemma group_records_concat: "concat (group_records rs) = rs"
proof (induction rs rule: rev_induct)
  case (snoc r rs)
  then show ?case by (simp add: group_records_snoc add_to_groups_concat)
qed (simp add: group_records_def)

lemma group_records_invariant: "list_all uniform (group_records rs) \<and> separated (group_records rs)"
proof (induction rs rule: rev_induct)
  case Nil
  then show ?case by (simp add: group_records_def)
next
  case (snoc r rs)
  show ?case
  proof (cases "group_records rs" rule: rev_cases)
    case Nil
    then show ?thesis by (simp add: group_records_snoc add_to_groups_def uniform_single)
  next
    case (snoc hs g)
    with \<open>list_all uniform (group_records rs) \<and> separated (group_records rs)\<close> show ?thesis
      unfolding group_records_snoc by (metis add_to_groups_snoc)
  qed
qed

text \<open>The values that a record hands to the driver.\<close>

definition literal_params :: "literal \<Rightarrow> sql_param list" where
  "literal_params l = (case arg_of l of AParam v \<Rightarrow> [v] | _ \<Rightarrow> [])"

definition record_params :: "bound_record \<Rightarrow> sql_param list" where
  "record_params r = concat (map (literal_params \<circ> ba_value) (br_assignments r))"

lemma lower_literal_appends: "\<exists>s. lower_literal l ps = Inr (s, ps @ literal_params l)"
  by (cases "arg_of l") (simp_all add: lower_literal_render literal_params_def add_param_def emit_return_def)

lemma emit_map_appends:
  assumes "\<And>x ps. x \<in> set xs \<Longrightarrow> \<exists>s. f x ps = Inr (s, ps @ g x)"
  shows "\<exists>ss. emit_map f xs ps = Inr (ss, ps @ concat (map g xs))"
  using assms
proof (induction xs arbitrary: ps)
  case (Cons x xs)
  obtain s where s: "f x ps = Inr (s, ps @ g x)" using Cons.prems by fastforce
  obtain ss where "emit_map f xs (ps @ g x) = Inr (ss, (ps @ g x) @ concat (map g xs))"
    using Cons.IH [of "ps @ g x"] Cons.prems by fastforce
  with s show ?case by (simp add: emit_bind_def emit_return_def)
qed (simp add: emit_return_def)

lemma lower_row_appends: "\<exists>s. lower_row r ps = Inr (s, ps @ record_params r)"
proof -
  have "\<exists>ss. emit_map (lower_literal \<circ> ba_value) (br_assignments r) ps =
      Inr (ss, ps @ concat (map (literal_params \<circ> ba_value) (br_assignments r)))"
    by (rule emit_map_appends) (simp add: lower_literal_appends)
  then show ?thesis by (auto simp: lower_row_def record_params_def emit_bind_def emit_return_def)
qed

lemma insert_parameters:
  assumes "make_query b (lower_insert table grp) = Inr q"
  shows "pq_parameters q = concat (map record_params grp)"
proof -
  obtain ss where "emit_map lower_row grp [] = Inr (ss, [] @ concat (map record_params grp))"
    using emit_map_appends [of grp lower_row record_params "[]"] lower_row_appends by blast
  with assms show ?thesis
    by (auto simp: make_query_def lower_insert_def emit_bind_def emit_return_def)
qed

lemma insert_all_parameters:
  assumes "list_all2 (\<lambda>g q. make_query b (lower_insert table g) = Inr q) gs qs"
  shows "concat (map pq_parameters qs) = concat (map record_params (concat gs))"
  using assms by (induction rule: list_all2_induct) (simp_all add: insert_parameters)

text \<open>
  C21. A CREATE writes one INSERT per group of neighbouring records with the same columns, and the values
  reach the driver in the order of the query: the groups are not empty, all rows of a group have the
  column list of the INSERT, neighbouring INSERTs differ in their columns, and the parameters of the
  INSERTs one after the other are the values of the records one after the other.
\<close>

theorem create_in_order:
  assumes "postgres_lower b = Inr r" "b_operation b = CREATE"
  shows "length (queries_of r) = length (group_records (create_records b)) \<and>
    list_all uniform (group_records (create_records b)) \<and> separated (group_records (create_records b)) \<and>
    concat (map pq_parameters (queries_of r)) = concat (map record_params (create_records b))"
proof -
  have all: "list_all2 (\<lambda>g q. make_query b (lower_insert (target_table (b_entity b)) g) = Inr q)
      (group_records (create_records b)) (queries_of r)"
    using postgres_lower_queries [OF assms(1)] assms(2) by (simp add: statement_emitters_def list.rel_map)
  then show ?thesis
    using insert_all_parameters [OF all] list_all2_lengthD [OF all] group_records_invariant
    by (simp add: group_records_concat)
qed

definition sample_row :: "(string \<times> literal) list \<Rightarrow> bound_record" where
  "sample_row r = BoundRecord (map (\<lambda>(n, l).
     BoundAssignment (bound_field_of (FieldPath n []) (sample_field n TINTEGER True)) l) r)"

definition sample_create :: bound_ir where
  "sample_create = sample_bound \<lparr>b_operation := CREATE, b_assignments := [], b_where := None,
     b_records :=
       [sample_row [(''id'', IntegerLiteral 1), (''age'', NullLiteral)],
        sample_row [(''id'', IntegerLiteral 2), (''age'', IntegerLiteral 7)],
        sample_row [(''id'', IntegerLiteral 3)]]\<rparr>"

definition sample_batch :: physical_result where
  "sample_batch = projr (postgres_lower sample_create)"

lemma sample_create_lowers: "postgres_lower sample_create = Inr sample_batch"
proof -
  have "\<not> isl (postgres_lower sample_create)" by code_simp
  then show ?thesis by (simp add: sample_batch_def)
qed

lemma create_in_order_witness:
  "concat (map pq_parameters (queries_of sample_batch)) = [PInt 1, PInt 2, PInt 7, PInt 3] \<and>
   length (queries_of sample_batch) = 2"
proof -
  have "b_operation sample_create = CREATE" by code_simp
  note facts = create_in_order [OF sample_create_lowers this]
  have "concat (map record_params (create_records sample_create)) = [PInt 1, PInt 2, PInt 7, PInt 3]"
    "length (group_records (create_records sample_create)) = 2"
    by code_simp+
  with facts show ?thesis by simp
qed

end
