(* ===== verification/Classification.thy ===== *)
theory Classification
  imports Binding
begin

text \<open>
  Mutation classification (\<open>query_engine/classification/models.py\<close>, \<open>classifier.py\<close>): which bound
  queries touch every record of an entity and must be confirmed.
\<close>

datatype mutation_scope = NOT_APPLICABLE | CONSTRAINED | MASS

record mutation_classification =
  mc_operation :: query_operation
  mc_scope :: mutation_scope
  mc_requires_confirmation :: bool
  mc_entity :: string
  mc_description :: string

definition classify_query :: "bound_ir \<Rightarrow> mutation_classification" where
  "classify_query b =
     (let n = be_name (b_entity b);
          cls = (\<lambda>scope confirm descr. \<lparr>mc_operation = b_operation b, mc_scope = scope,
                   mc_requires_confirmation = confirm, mc_entity = n, mc_description = descr\<rparr>)
      in case b_operation b of
        READ \<Rightarrow> cls NOT_APPLICABLE False (''Read query on entity '' @ quoted n @ ''.'')
      | CREATE \<Rightarrow> cls NOT_APPLICABLE False (''Create record on entity '' @ quoted n @ ''.'')
      | UPDATE \<Rightarrow>
          if b_where b = None
          then cls MASS True (''Mass UPDATE on entity '' @ quoted n @ '' without WHERE clause.'')
          else cls CONSTRAINED False (''Constrained UPDATE on entity '' @ quoted n @ '' with WHERE filter.'')
      | DELETE \<Rightarrow>
          if b_where b = None
          then cls MASS True (''Mass DELETE on entity '' @ quoted n @ '' without WHERE clause.'')
          else cls CONSTRAINED False (''Constrained DELETE on entity '' @ quoted n @ '' with WHERE filter.''))"

lemma classify_confirmation:
  "mc_requires_confirmation (classify_query b) \<longleftrightarrow>
     (b_operation b = UPDATE \<or> b_operation b = DELETE) \<and> b_where b = None"
  by (simp add: classify_query_def Let_def split: query_operation.split)

lemma classify_mass: "mc_scope (classify_query b) = MASS \<longleftrightarrow> mc_requires_confirmation (classify_query b)"
  by (simp add: classify_query_def Let_def split: query_operation.split)

text \<open>
  Confirmation is asked for exactly when it must be. For a query text that parses and binds, the
  classification demands a confirmation, and calls the query MASS, if and only if the query is a DELETE
  without a WHERE block: the grammar and the validator leave no way to write an UPDATE without one, and
  binding neither adds nor drops the condition.
\<close>

theorem confirmation_iff_mass_delete:
  assumes "parse_altrql q = Inr ir" "bind_altrql ir s = Inr b"
  shows "(mc_requires_confirmation (classify_query b) \<longleftrightarrow> operation ir = DELETE \<and> where_clause ir = None) \<and>
    (mc_scope (classify_query b) = MASS \<longleftrightarrow> mc_requires_confirmation (classify_query b)) \<and>
    mc_entity (classify_query b) = entity ir"
proof -
  obtain ts where p: "parse ts = Inr ir" using assms(1) by (auto simp: parse_altrql_unfold bindE_Inr_iff)
  then have wf: "wf_ir ir" by (rule parse_wf_ir)
  then have e: "erase_ir b = ir" using assms(2) by (simp add: bind_erase_lemma wf_ir_bindable)
  have "operation ir = UPDATE \<longrightarrow> where_clause ir \<noteq> None" using wf by (auto simp: wf_ir_def)
  then show ?thesis
    unfolding classify_mass classify_confirmation e [symmetric]
    by (auto simp: erase_ir_def classify_query_def Let_def split: query_operation.splits)
qed

lemma confirmation_iff_mass_delete_witness:
  "mc_requires_confirmation (classify_query sample_bound) \<longleftrightarrow>
     operation sample_ir = DELETE \<and> where_clause sample_ir = None"
  using confirmation_iff_mass_delete [OF sample_parses sample_binds] by simp

end
