(* ===== verification/Sql_Correctness.thy ===== *)
theory Sql_Correctness
  imports Sql_Selection Postgres_Statements Classification
begin

text \<open>
  The properties of the lowered conditions, an example database that obeys the laws, and the conditions
  for which the lowered text does not mean what the documentation says.
\<close>

section \<open>An example database\<close>

text \<open>Values are numbers; a date is the number \<open>yyyymmdd\<close>.\<close>

definition day_number :: "calendar_day \<Rightarrow> nat" where
  "day_number d = 10000 * cd_year d + 100 * cd_month d + cd_day d"

definition number_day :: "nat \<Rightarrow> calendar_day" where
  "number_day u = CalendarDay (u div 10000) (u div 100 mod 100) (u mod 100)"

definition sample_database :: "nat database" where
  "sample_database =
     \<lparr>db_value = (\<lambda>p. case p of PInt n \<Rightarrow> Some (nat n) | PMidnight d \<Rightarrow> Some (day_number d) | PNone \<Rightarrow> None
        | _ \<Rightarrow> Some 0),
      db_today = 20260105, db_now = 20260105, db_string = (\<lambda>u. nat_digits u),
      db_like = (\<lambda>u p. case p of PStr s \<Rightarrow> Some (like s (nat_digits u)) | _ \<Rightarrow> None),
      db_day = number_day\<rparr>"

lemma digits_less:
  fixes a b c a' b' c' :: nat
  assumes "b < 100" "c < 100" "b' < 100" "c' < 100"
  shows "a < a' \<Longrightarrow> 10000 * a + 100 * b + c < 10000 * a' + 100 * b' + c'"
    and "b < b' \<Longrightarrow> 10000 * a + 100 * b + c < 10000 * a + 100 * b' + c'"
  using assms by linarith+

lemma digits_order:
  fixes a b c a' b' c' :: nat
  assumes "b < 100" "c < 100" "b' < 100" "c' < 100"
  shows "10000 * a + 100 * b + c \<le> 10000 * a' + 100 * b' + c' \<longleftrightarrow>
    a < a' \<or> (a = a' \<and> (b < b' \<or> (b = b' \<and> c \<le> c')))"
proof (cases a a' rule: linorder_cases)
  case less
  then show ?thesis using digits_less(1) [OF assms less] by simp
next
  case greater
  then show ?thesis using digits_less(1) [OF assms(3,4,1,2) greater] by simp
next
  case a: equal
  show ?thesis
  proof (cases b b' rule: linorder_cases)
    case less
    then show ?thesis using digits_less(2) [OF assms less, of a] a by simp
  next
    case greater
    then show ?thesis using digits_less(2) [OF assms(3,4,1,2) greater, of a] a by simp
  qed (simp add: a)
qed

lemma valid_day_digits: "valid_day d \<Longrightarrow> cd_month d < 100 \<and> cd_day d < 100"
proof -
  assume d: "valid_day d"
  have "days_in_month (cd_year d) (cd_month d) \<le> 31" by (simp add: days_in_month_def)
  then have "cd_day d \<le> 31" "cd_month d \<le> 12" using d unfolding valid_day_def by linarith+
  then show ?thesis by simp
qed

lemma sample_database_lawful: "lawful_database sample_database"
proof -
  have "day_number d \<le> u \<longleftrightarrow> d \<le> number_day u" if "valid_day d" for d u
  proof -
    have "u = 10000 * (u div 10000) + 100 * (u div 100 mod 100) + u mod 100"
      using mod_mult2_eq [of u 100 100] div_mult_mod_eq [of u 10000] by simp
    then have "day_number d \<le> u \<longleftrightarrow>
      10000 * cd_year d + 100 * cd_month d + cd_day d \<le> 10000 * (u div 10000) + 100 * (u div 100 mod 100) + u mod 100"
      by (simp only: day_number_def)
    also have "\<dots> \<longleftrightarrow> d \<le> number_day u"
      using valid_day_digits [OF that] unfolding number_day_def
      by (subst digits_order) (cases d; simp add: day_after_less)+
    finally show ?thesis .
  qed
  then show ?thesis
    by (auto simp: lawful_database_def sample_database_def split: sql_param.split)
qed

text \<open>A condition over the sample schema, and a row for it.\<close>

definition plain_field :: "string \<Rightarrow> standard_data_type \<Rightarrow> bound_field" where
  "plain_field n t = bound_field_of (FieldPath n []) (sample_field n t True)"

definition sample_condition :: bound_expression where
  "sample_condition =
     BoundLogical LAnd
       (BoundField (plain_field ''id'' TINTEGER) (Comparison OpNEQ)
         (OperandSet (ValueSet [ElemLiteral (IntegerLiteral 3), ElemLiteral NullLiteral])))
       (BoundLogical LAnd
         (BoundField (plain_field ''created'' TTIMESTAMP) (Comparison OpEQ)
           (OperandLiteral (TemporalLiteral None (Some ''2026-01-05''))))
         (BoundNegation
           (BoundField (plain_field ''age'' TINTEGER) (Comparison OpEQ)
             (OperandRange (Range (IntegerLiteral 18) (IntegerLiteral 65) True)))))"

definition sample_columns :: "string \<Rightarrow> nat option" where
  "sample_columns = (\<lambda>col. if col = quote_ident ''id'' then Some 5
     else if col = quote_ident ''created'' then Some 20260105
     else if col = quote_ident ''age'' then Some 70 else None)"

abbreviation row_of :: "(string \<Rightarrow> 'v option) \<Rightarrow> bound_field \<Rightarrow> 'v option" where
  "row_of cols \<equiv> \<lambda>f. cols (lower_field_path f)"

lemma sample_paths:
  "lower_field_path (plain_field n t) = quote_ident n"
  "is_timestamp_field (plain_field n t) \<longleftrightarrow> t = TTIMESTAMP \<or> t = TTIMESTAMPTZ"
  by (simp_all add: plain_field_def bound_field_of_def lower_field_path_def is_timestamp_field_def sample_field_def)

lemma quote_ident_inject: "quote_ident a = quote_ident b \<longleftrightarrow> a = b"
  by (simp add: quote_ident_def)

lemma sample_column_values:
  "sample_columns (quote_ident ''id'') = Some 5" "sample_columns (quote_ident ''age'') = Some 70"
  "sample_columns (quote_ident ''created'') = Some 20260105"
  by (simp_all add: sample_columns_def quote_ident_def)

lemma sample_row_lawful: "lawful_row sample_database (row_of sample_columns) sample_condition"
  by (simp add: lawful_row_def sample_condition_def sample_paths sample_column_values dated_def
      sample_database_def number_day_def valid_day_def days_in_month_def)

lemmas sample_evaluation = sample_condition_def sample_paths sample_column_values has_value_def arg_of_def
  range_ok_def has_null_def is_null_element_def constraint_ok_def means_day_def

lemma sample_supported: "exact (row_of sample_columns) sample_condition" "supported (row_of sample_columns) sample_condition"
  by (simp_all add: sample_evaluation)

lemmas sample_meaning = sample_evaluation sample_database_def field_holds_def literal_equal_def literal_value_def
  range_holds_def number_day_def day_of_text_def decimal_val_def digit_val_def date_only_text_def
  is_date_only_literal_def has_time_part_def

lemma sample_lowered: "\<exists>sql ps. lower_expression sample_condition [] = Inr (sql, ps)"
proof -
  have "\<not> isl (lower_expression sample_condition [])" by code_simp
  then show ?thesis by (metis isl_def sum.collapse(2) surj_pair)
qed

section \<open>Properties\<close>

lemma lowered_tree:
  assumes "lower_expression e [] = Inr (sql, ps)"
  shows "\<exists>t. c_expression e = Inr t \<and> lower_expression e = render_tree t"
  using assms by (cases "c_expression e") (simp_all add: lower_expression_render emit_raise_def)





section \<open>Where the lowered text and the documentation differ\<close>

text \<open>
  A compound constraint in a \<open>!=\<close> set is dropped. A DELETE whose condition is only such a set is lowered to
  \<open>WHERE 1=1\<close>: it deletes every row, and it needs no confirmation, as it has a WHERE block.
\<close>

definition dropped_text :: string where
  "dropped_text = ''DELETE users WHERE { age != {>1 & <9} };''"

definition dropped_lowering :: "query_error + bool \<times> physical_result" where
  "dropped_lowering =
     bindE (parse_altrql dropped_text) (\<lambda>ir.
     bindE (bind_altrql ir sample_schema) (\<lambda>b.
     bindE (postgres_lower b) (\<lambda>r. Inr (mc_requires_confirmation (classify_query b), r))))"

lemma compound_inequality_dropped:
  "dropped_lowering = Inr (False, SingleQuery
     \<lparr>pq_dialect = ''postgresql'',
      pq_query = ''DELETE FROM '' @ quote_ident ''public'' @ ''.'' @ quote_ident ''users'' @ '' WHERE 1=1 RETURNING *;'',
      pq_parameters = [], pq_source_id = ''s1'', pq_source_name = ''db''\<rparr>)"
  by code_simp

text \<open>A range is lowered to \<open>BETWEEN\<close> whatever the operator: \<open>!=\<close> with a range selects the range.\<close>

lemma range_ignores_operator:
  "lower_field_expression f (Comparison op) (OperandRange r) = lower_field_expression f (Comparison OpEQ) (OperandRange r)"
  by (simp add: lower_field_expression_def lower_comparison_operator_def)

text \<open>
  Negation is SQL's: \<open>NOT age > 18\<close> holds of a NULL in two-valued logic, but the lowered condition is
  unknown there, and the row is not selected.
\<close>

lemma negation_loses_null:
  assumes "\<not> means_day f (IntegerLiteral n)" "row f = None" "c_expression (BoundNegation
      (BoundField f (Comparison OpGT) (OperandLiteral (IntegerLiteral n)))) = Inr t"
    and "\<And>g. row g = cols (lower_field_path g)"
  shows "holds db row (BoundNegation (BoundField f (Comparison OpGT) (OperandLiteral (IntegerLiteral n))))"
    and "tree_value db cols t = None"
  using assms(1-3)
  by (auto simp: assms(4) bindE_Inr_iff c_field_def c_comparison_def c_direct_def c_constraint_def
      field_holds_def constraint_holds_def means_day_def is_date_only_literal_def)

text \<open>\<open>!=\<close> with a date (or TODAY, NOW) has no \<open>OR IS NULL\<close>, unlike the other literals.\<close>

lemma temporal_inequality_loses_null:
  assumes "c_field f (Comparison OpNEQ) (OperandLiteral (TemporalLiteral k v)) = Inr p"
  shows "field_holds db f (Comparison OpNEQ) (OperandLiteral (TemporalLiteral k v)) None"
    and "pred_value db None p = None"
  using assms by (simp_all add: c_field_def c_comparison_def c_direct_def c_constraint_def
      field_holds_def literal_equal_def) (auto simp: arg_of_def)

end
