(* ===== verification/Marked_Correctness.thy ===== *)
theory Marked_Correctness
  imports Marked_Selection Sql_Correctness "HOL-Library.List_Lexorder" "HOL-Library.Char_ord"
begin

text \<open>
  The properties of the conditions lowered for SQLite and MySQL, their agreement with PostgreSQL, an
  example database for both dialects, and the conditions that are lowered to something else.
\<close>

section \<open>The text of a midnight\<close>

lemma decimal_val_zeros: "decimal_val (replicate k CHR ''0'' @ s) = decimal_val s"
proof (induction k)
  case (Suc k)
  have "decimal_val (CHR ''0'' # t) = decimal_val t" for t by (simp add: decimal_val_def digit_val_def)
  with Suc show ?case by simp
qed simp

lemma length_nat_digits: "n < 10 ^ k \<Longrightarrow> 0 < k \<Longrightarrow> length (nat_digits n) \<le> k"
proof (induction n arbitrary: k rule: nat_digits.induct)
  case (1 n)
  show ?case
  proof (cases "n < 10")
    case True
    with 1 show ?thesis by (subst nat_digits.simps) simp
  next
    case False
    then obtain j where k: "k = Suc j" "0 < j" using 1 by (cases k; cases "k - 1") auto
    then have "n div 10 < 10 ^ j" using 1(2) by (simp add: less_mult_imp_div_less mult.commute)
    with 1(1) [of j] False k show ?thesis by (subst nat_digits.simps) simp
  qed
qed

lemma zero_padded_facts:
  "decimal_val (zero_padded k n) = n" "n < 10 ^ k \<Longrightarrow> 0 < k \<Longrightarrow> length (zero_padded k n) = k"
  using nat_digits_spell [of n] length_nat_digits [of n k] by (simp_all add: zero_padded_def decimal_val_zeros)

lemma midnight_day:
  assumes "valid_day c"
  shows "day_of_text (take 10 (iso_midnight c)) = c"
proof -
  have "cd_year c < 10 ^ 4" "cd_month c < 10 ^ 2" "cd_day c < 10 ^ 2"
    using assms valid_day_digits [OF assms] by (simp_all add: valid_day_def)
  then have len: "length (zero_padded 4 (cd_year c)) = 4" "length (zero_padded 2 (cd_month c)) = 2"
    "length (zero_padded 2 (cd_day c)) = 2"
    by (simp_all add: zero_padded_facts(2))
  have "take 10 (iso_midnight c) = zero_padded 4 (cd_year c) @ ''-'' @ zero_padded 2 (cd_month c) @ ''-'' @
      zero_padded 2 (cd_day c)"
    by (simp add: iso_midnight_def len)
  then show ?thesis by (simp add: day_of_text_def len zero_padded_facts(1) calendar_day.expand)
qed

section \<open>An example database\<close>

text \<open>As \<open>sample_database\<close>, but dates come as texts.\<close>

definition text_database :: "nat database" where
  "text_database = sample_database \<lparr>db_value := (\<lambda>p. case p of
       PInt n \<Rightarrow> Some (nat n) | PStr s \<Rightarrow> Some (day_number (day_of_text (take 10 s))) | PNone \<Rightarrow> None | _ \<Rightarrow> Some 0)\<rparr>"

lemma dialects_boolean: "d \<in> {sqlite_dialect, mysql_dialect} \<Longrightarrow> dl_boolean d b \<noteq> PNone"
  by (auto simp: sqlite_dialect_def mysql_dialect_def)

lemma text_database_lawful:
  assumes "d \<in> {sqlite_dialect, mysql_dialect}"
  shows "lawful_database (through d text_database)"
proof -
  have days: "valid_day c \<Longrightarrow> valid_day (db_day sample_database u) \<Longrightarrow> day_number c \<le> u \<longleftrightarrow> c \<le> db_day sample_database u" for c u
    using sample_database_lawful by (simp add: lawful_database_def sample_database_def)
  have none: "db_value text_database p = None \<longleftrightarrow> p = PNone" for p
    by (cases p) (simp_all add: text_database_def)
  have "marked_encode d p = PNone \<longleftrightarrow> p = PNone" for p
    using dialects_boolean [OF assms] by (cases p) simp_all
  moreover have "db_like text_database = db_like sample_database" "db_string text_database = db_string sample_database"
    "db_day text_database = db_day sample_database"
    by (simp_all add: text_database_def)
  moreover have "db_value text_database (PStr (iso_midnight c)) = Some (day_number c)" if "valid_day c" for c
    using that by (simp add: text_database_def midnight_day)
  ultimately show ?thesis
    using days sample_database_lawful by (simp add: lawful_database_def through_def none)
qed

abbreviation marked_row_of :: "sql_dialect \<Rightarrow> (string \<Rightarrow> 'v option) \<Rightarrow> bound_field \<Rightarrow> 'v option" where
  "marked_row_of d cols \<equiv> \<lambda>f. cols (marked_field_path d f)"

definition lite_columns :: "string \<Rightarrow> nat option" where
  "lite_columns = (\<lambda>col. if col = quote_double ''id'' then Some 5
     else if col = quote_double ''created'' then Some 20260105
     else if col = quote_double ''age'' then Some 70 else None)"

lemma lite_paths: "marked_field_path sqlite_dialect (plain_field n t) = quote_double n"
  by (simp add: plain_field_def bound_field_of_def marked_field_path_def sqlite_dialect_def)

lemma lite_column_values:
  "lite_columns (quote_double ''id'') = Some 5" "lite_columns (quote_double ''age'') = Some 70"
  "lite_columns (quote_double ''created'') = Some 20260105"
  by (simp_all add: lite_columns_def quote_double_def replace_char_def)

lemma lite_sample:
  "lawful_row (through sqlite_dialect text_database) (marked_row_of sqlite_dialect lite_columns) sample_condition"
  "marked_exact sqlite_dialect (marked_row_of sqlite_dialect lite_columns) sample_condition"
  by (simp_all add: lawful_row_def sample_evaluation lite_paths lite_column_values dated_def through_def
      text_database_def sample_database_def number_day_def valid_day_def days_in_month_def)

lemma lite_lowered: "\<exists>sql ps. marked_expression sqlite_dialect sample_condition [] = Inr (sql, ps)"
proof -
  have "\<not> isl (marked_expression sqlite_dialect sample_condition [])" by code_simp
  then show ?thesis by (metis isl_def sum.collapse(2) surj_pair)
qed

section \<open>Properties\<close>

lemma marked_tree:
  assumes "d \<in> {sqlite_dialect, mysql_dialect}" "marked_expression d e [] = Inr (sql, ps)"
  shows "\<exists>t. m_expression d e = Inr t \<and> marked_expression d e = write_tree (marked_writer d) t"
proof -
  have "plain_dialect d" using assms(1) dialects_plain by blast
  then show ?thesis
    using assms(2) by (cases "m_expression d e") (simp_all add: marked_expression_written emit_raise_def)
qed



section \<open>Where the lowered text and the documentation differ\<close>

definition lowered_with :: "(bound_ir \<Rightarrow> query_error + physical_result) \<Rightarrow> string \<Rightarrow> query_error + physical_result" where
  "lowered_with low text = bindE (parse_altrql text) (\<lambda>ir. bindE (bind_altrql ir sample_schema) low)"

text \<open>
  SQLite's lowerer names a variable of another branch where it lowers a compound constraint of an \<open>=\<close> set:
  the query raises an exception, on the other dialects it is lowered.
\<close>

lemma sqlite_compound_raises:
  "lowered_with sqlite_lower ''GET users WHERE { age = {>1 & <9} };'' = Inl PyUnboundLocalError"
  "\<not> isl (lowered_with mysql_lower ''GET users WHERE { age = {>1 & <9} };'')"
  "\<not> isl (lowered_with postgres_lower ''GET users WHERE { age = {>1 & <9} };'')"
  by code_simp+

text \<open>\<open>TODAY\<close> in a set becomes a NULL parameter of \<open>IN\<close>: no row is selected.\<close>

lemma today_in_set_is_null:
  "marked_expression sqlite_dialect (BoundField (plain_field ''created'' TTIMESTAMP) (Comparison OpEQ)
     (OperandSet (ValueSet [ElemLiteral (TemporalLiteral (Some TODAY) None)]))) [] =
   Inr (quote_double ''created'' @ '' IN (?)'', [PNone])"
  by code_simp

text \<open>An OFFSET without LIMIT is written as such, which neither SQLite nor MySQL accepts.\<close>

lemma offset_without_limit:
  "\<exists>b q. bindE (parse_altrql ''GET users OFFSET 5;'') (\<lambda>ir. bind_altrql ir sample_schema) = Inr b \<and>
     sqlite_lower b = Inr (SingleQuery q) \<and>
     pq_query q = ''SELECT * FROM '' @ quote_double ''users'' @ '' ORDER BY '' @ quote_double ''id'' @ '' ASC OFFSET 5;''"
proof -
  let ?q = "\<lparr>pq_dialect = ''sqlite'',
    pq_query = ''SELECT * FROM '' @ quote_double ''users'' @ '' ORDER BY '' @ quote_double ''id'' @ '' ASC OFFSET 5;'',
    pq_parameters = [], pq_source_id = ''s1'', pq_source_name = ''db''\<rparr>"
  have "lowered_with sqlite_lower ''GET users OFFSET 5;'' = Inr (SingleQuery ?q)" by code_simp
  then obtain b where "bindE (parse_altrql ''GET users OFFSET 5;'') (\<lambda>ir. bind_altrql ir sample_schema) = Inr b"
    "sqlite_lower b = Inr (SingleQuery ?q)"
    by (auto simp: lowered_with_def bindE_Inr_iff)
  then show ?thesis by (intro exI [of _ b] exI [of _ ?q]) simp
qed

text \<open>
  SQLite stores what its own \<open>DATETIME('now')\<close> returns as a text with a space, and compares texts. The
  lowerer writes the bounds of a day with a \<open>T\<close>: a time of that day is before the lower bound, and a time
  of the next day is before the upper bound. The condition selects the rows of the next day.
\<close>

definition sqlite_texts :: "string database" where
  "sqlite_texts =
     \<lparr>db_value = (\<lambda>p. case p of PStr s \<Rightarrow> Some s | PNone \<Rightarrow> None | _ \<Rightarrow> Some []), db_today = [], db_now = [],
      db_string = id, db_like = (\<lambda>u p. None), db_day = day_of_text \<circ> take 10\<rparr>"

lemma sqlite_day_selects_next_day:
  assumes "m_day True ''2026-01-05'' = Inr p"
  shows "pred_value (through sqlite_dialect sqlite_texts) (Some ''2026-01-05 10:00:00'') p = Some False"
    and "pred_value (through sqlite_dialect sqlite_texts) (Some ''2026-01-06 10:00:00'') p = Some True"
proof -
  have "parse_date_only_range ''2026-01-05'' = Inr (PMidnight (CalendarDay 2026 1 5), PMidnight (CalendarDay 2026 1 6))"
    by code_simp
  then have p: "p = PAnd [PCmp OpGTE (AParam (PMidnight (CalendarDay 2026 1 5))), PCmp OpLT (AParam (PMidnight (CalendarDay 2026 1 6)))]"
    using assms by (simp add: m_day_def)
  have days: "iso_midnight (CalendarDay 2026 (Suc 0) 5) = ''2026-01-05T00:00:00''" "iso_midnight (CalendarDay 2026 (Suc 0) 6) = ''2026-01-06T00:00:00''"
    by code_simp+
  have "\<not> ''2026-01-05T00:00:00'' \<le> ''2026-01-05 10:00:00''" "''2026-01-05T00:00:00'' \<le> ''2026-01-06 10:00:00''"
    "''2026-01-06 10:00:00'' < ''2026-01-06T00:00:00''"
    by (simp_all add: less_char_def)
  then show "pred_value (through sqlite_dialect sqlite_texts) (Some ''2026-01-05 10:00:00'') p = Some False"
    "pred_value (through sqlite_dialect sqlite_texts) (Some ''2026-01-06 10:00:00'') p = Some True"
    by (simp_all add: p through_def sqlite_texts_def days)
qed

end
