(* ===== verification/Mongo_Lowering.thy ===== *)
theory Mongo_Lowering
  imports Marked_Lowering "HOL-Library.AList"
begin

text \<open>
  The MongoDB lowerer (\<open>query_engine/lowering/mongodb.py\<close>): one definition per branch of
  \<open>lower_field_expression\<close>, and the commands of \<open>MongoDBLowerer.lower\<close>. A dict that the code fills by key is
  an association list updated in place, as Python's dicts keep the position of a key.
\<close>

section \<open>Values and patterns\<close>

fun mongo_parameter :: "literal \<Rightarrow> mongo_value" where
  "mongo_parameter (TemporalLiteral k v) =
     (if k = Some TODAY then MvToday
      else if k = Some NOW then MvNow
      else case v of
        None \<Rightarrow> MvNull
      | Some s \<Rightarrow> if has_time_part s then MvDateTime s else if is_iso_date s then MvDate s else MvString s)"
| "mongo_parameter NullLiteral = MvNull"
| "mongo_parameter (BooleanLiteral b) = MvBool b"
| "mongo_parameter (IntegerLiteral n) = MvInt n"
| "mongo_parameter (FloatLiteral x) = MvFloat x"
| "mongo_parameter (StringLiteral s) = MvString s"

text \<open>\<open>re.escape\<close>.\<close>

definition regex_special :: "char list" where
  "regex_special = ''()[]{}?*+-|^$.&~# '' @ [CHR 0x5C, CHR 0x09, CHR 0x0A, CHR 0x0D, CHR 0x0B, CHR 0x0C]"

definition re_escape :: "string \<Rightarrow> string" where
  "re_escape s = concat (map (\<lambda>c. if c \<in> set regex_special then [CHR 0x5C, c] else [c]) s)"

definition pattern_of :: "string \<Rightarrow> value_set_element \<Rightarrow> string \<Rightarrow> mongo_pattern" where
  "pattern_of pre el post =
     (case like_text el of
        Some s \<Rightarrow> MongoPattern (pre @ re_escape s @ post)
      | None \<Rightarrow> MongoPatternOf pre el post)"

text \<open>\<open>str(getattr(lit, "value", ""))\<close> of the end of a range.\<close>

definition text_value :: "literal \<Rightarrow> mongo_value" where
  "text_value l =
     (case like_text (ElemLiteral l) of Some s \<Rightarrow> MvString s | None \<Rightarrow> MvTextOf (ElemLiteral l))"

definition not_null_test :: "string \<Rightarrow> mongo_filter" where
  "not_null_test path = MfTests path [MtCompare OpNEQ MvNull, MtExists]"

section \<open>String operators\<close>

definition mongo_has_element :: "string \<Rightarrow> value_set_element \<Rightarrow> mongo_filter" where
  "mongo_has_element path el =
     (case el of
        ElemRange r \<Rightarrow> MfTests path [MtCompare OpGTE (text_value (r_start r)), MtCompare OpLTE (text_value (r_end r))]
      | _ \<Rightarrow> MfTests path [MtRegex (pattern_of [] el [])])"

definition mongo_not_has_element :: "string \<Rightarrow> value_set_element \<Rightarrow> mongo_filter" where
  "mongo_not_has_element path el =
     (case el of
        ElemRange r \<Rightarrow> MfOr [MfTests path [MtCompare OpLT (text_value (r_start r))],
                            MfTests path [MtCompare OpGT (text_value (r_end r))]]
      | _ \<Rightarrow> MfTests path [MtNotRegex (pattern_of [] el [])])"

definition mongo_has_set :: "string \<Rightarrow> value_set_element list \<Rightarrow> mongo_filter" where
  "mongo_has_set path els =
     (let preds = (if has_null els then [MfEquals path MvNull] else []) @ map (mongo_has_element path) (non_null els) in
      if preds = [] then MfAll else if length preds = 1 then hd preds else MfOr preds)"

definition mongo_not_has_set :: "string \<Rightarrow> value_set_element list \<Rightarrow> mongo_filter" where
  "mongo_not_has_set path els =
     (let nl = map (mongo_not_has_element path) (non_null els) in
      if has_null els then (if nl = [] then not_null_test path else MfAnd (nl @ [not_null_test path]))
      else if nl = [] then MfEquals path MvNull
      else if length nl = 1 then MfOr [hd nl, MfEquals path MvNull]
      else MfOr [MfAnd nl, MfEquals path MvNull])"

definition mongo_string_operator :: "string \<Rightarrow> string_operator \<Rightarrow> operand \<Rightarrow> mongo_filter" where
  "mongo_string_operator path op v =
     (let el = operand_element v;
          direct = (case op of
              STARTS \<Rightarrow> MfTests path [MtRegex (pattern_of ''^'' el [])]
            | ENDS \<Rightarrow> MfTests path [MtRegex (pattern_of [] el ''$'')]
            | HAS \<Rightarrow> MfTests path [MtRegex (pattern_of [] el [])]
            | NOT_HAS \<Rightarrow> MfOr [MfTests path [MtNotRegex (pattern_of [] el [])], MfEquals path MvNull])
      in case v of
           OperandSet vs \<Rightarrow>
             if op = HAS then mongo_has_set path (elements vs)
             else if op = NOT_HAS then mongo_not_has_set path (elements vs)
             else direct
         | _ \<Rightarrow> direct)"

section \<open>Comparison operators\<close>

definition mongo_null :: "string \<Rightarrow> comparison_operator \<Rightarrow> mongo_filter" where
  "mongo_null path op =
     (if op = OpEQ then MfEquals path MvNull else if op = OpNEQ then not_null_test path
      else MfTests path [MtCompare op MvNull])"

definition mongo_between :: "string \<Rightarrow> lit_range \<Rightarrow> mongo_filter" where
  "mongo_between path r =
     MfTests path [MtCompare OpGTE (mongo_parameter (r_start r)), MtCompare OpLTE (mongo_parameter (r_end r))]"

definition mongo_outside :: "string \<Rightarrow> lit_range \<Rightarrow> mongo_filter list" where
  "mongo_outside path r =
     [MfTests path [MtCompare OpLT (mongo_parameter (r_start r))], MfTests path [MtCompare OpGT (mongo_parameter (r_end r))]]"

definition mongo_range :: "string \<Rightarrow> comparison_operator \<Rightarrow> lit_range \<Rightarrow> mongo_filter" where
  "mongo_range path op r =
     (if op = OpNEQ then MfOr (mongo_outside path r @ [MfEquals path MvNull]) else mongo_between path r)"

text \<open>\<open>_parse_date_only_range\<close>; the bounds as one dict, or as two filters of a disjunction.\<close>

definition mongo_days :: "string \<Rightarrow> query_error + calendar_day \<times> calendar_day" where
  "mongo_days s =
     (if \<not> is_iso_date s then Inl PyValueError
      else case next_day (day_of_text s) of None \<Rightarrow> Inl PyOverflowError | Some c \<Rightarrow> Inr (day_of_text s, c))"

definition mongo_day :: "string \<Rightarrow> string \<Rightarrow> query_error + mongo_filter" where
  "mongo_day path s =
     bindE (mongo_days s) (\<lambda>(a, b).
     Inr (MfTests path [MtCompare OpGTE (MvMidnight a), MtCompare OpLT (MvMidnight b)]))"

definition mongo_not_day :: "string \<Rightarrow> string \<Rightarrow> query_error + mongo_filter" where
  "mongo_not_day path s =
     bindE (mongo_days s) (\<lambda>(a, b).
     Inr (MfOr [MfTests path [MtCompare OpLT (MvMidnight a)], MfTests path [MtCompare OpGTE (MvMidnight b)]]))"

text \<open>A dict over the operators of a compound constraint: of two with the same operator the last one stays.\<close>

definition operator_dict :: "comparison_constraint list \<Rightarrow> (comparison_operator \<times> mongo_value) list" where
  "operator_dict cs = foldl (\<lambda>d c. AList.update (c_operator c) (mongo_parameter (c_value c)) d) [] cs"

fun mongo_eq_other :: "bound_field \<Rightarrow> string \<Rightarrow> value_set_element \<Rightarrow> query_error + mongo_filter list" where
  "mongo_eq_other f path (ElemRange r) = Inr [mongo_between path r]"
| "mongo_eq_other f path (ElemConstraint c) = Inr [MfTests path [MtCompare (c_operator c) (mongo_parameter (c_value c))]]"
| "mongo_eq_other f path (ElemCompound cs) = Inr [MfTests path (map (\<lambda>(op, v). MtCompare op v) (operator_dict cs))]"
| "mongo_eq_other f path (ElemLiteral l) =
     (if is_timestamp_field f \<and> is_date_only_literal l
      then bindE (mongo_day path (date_only_text l)) (\<lambda>d. Inr [d]) else Inr [])"

fun mongo_neq_other :: "bound_field \<Rightarrow> string \<Rightarrow> value_set_element \<Rightarrow> query_error + mongo_filter list" where
  "mongo_neq_other f path (ElemRange r) = Inr [MfOr (mongo_outside path r)]"
| "mongo_neq_other f path (ElemConstraint c) =
     Inr [MfTests path [MtCompare (invert_operator (c_operator c)) (mongo_parameter (c_value c))]]"
| "mongo_neq_other f path (ElemCompound cs) =
     Inr [MfOr (map (\<lambda>c. MfTests path [MtCompare (invert_operator (c_operator c)) (mongo_parameter (c_value c))]) cs)]"
| "mongo_neq_other f path (ElemLiteral l) =
     (if is_timestamp_field f \<and> is_date_only_literal l
      then bindE (mongo_not_day path (date_only_text l)) (\<lambda>d. Inr [d]) else Inr [])"

text \<open>The scalars of a set: alone as a value, else in one list.\<close>

definition mongo_in :: "string \<Rightarrow> literal list \<Rightarrow> mongo_filter list" where
  "mongo_in path lits =
     (if lits = [] then []
      else if length lits = 1 then [MfEquals path (mongo_parameter (hd lits))]
      else [MfTests path [MtIn (map mongo_parameter lits)]])"

definition mongo_nin :: "string \<Rightarrow> literal list \<Rightarrow> mongo_filter list" where
  "mongo_nin path lits =
     (if lits = [] then []
      else if length lits = 1 then [MfTests path [MtCompare OpNEQ (mongo_parameter (hd lits))]]
      else [MfTests path [MtNin (map mongo_parameter lits)]])"

definition mongo_eq_set :: "bound_field \<Rightarrow> string \<Rightarrow> value_set_element list \<Rightarrow> query_error + mongo_filter" where
  "mongo_eq_set f path els =
     bindE (mapE (mongo_eq_other f path) (marked_others f els)) (\<lambda>more.
     (let preds = (if has_null els then [MfEquals path MvNull] else []) @ mongo_in path (simple_literals f els) @ concat more in
      Inr (if length preds = 1 then hd preds else if preds = [] then MfAll else MfOr preds)))"

definition mongo_neq_set :: "bound_field \<Rightarrow> string \<Rightarrow> value_set_element list \<Rightarrow> query_error + mongo_filter" where
  "mongo_neq_set f path els =
     bindE (mapE (mongo_neq_other f path) (marked_others f els)) (\<lambda>more.
     (let preds = mongo_nin path (simple_literals f els) @ concat more @ (if has_null els then [not_null_test path] else []) in
      Inr (if length preds = 1 then hd preds else MfAnd preds)))"

text \<open>A literal operand; a set after an ordering operator has the value \<open>None\<close>.\<close>

definition mongo_direct :: "bound_field \<Rightarrow> string \<Rightarrow> comparison_operator \<Rightarrow> literal \<Rightarrow> query_error + mongo_filter" where
  "mongo_direct f path op l =
     (if op = OpEQ then
        (if is_timestamp_field f \<and> is_date_only_literal l then mongo_day path (date_only_text l)
         else Inr (MfEquals path (mongo_parameter l)))
      else Inr (MfTests path [MtCompare op (mongo_parameter l)]))"

definition mongo_comparison_operator :: "bound_field \<Rightarrow> string \<Rightarrow> comparison_operator \<Rightarrow> operand \<Rightarrow> query_error + mongo_filter" where
  "mongo_comparison_operator f path op v =
     (case v of
        OperandLiteral l \<Rightarrow> if l = NullLiteral then Inr (mongo_null path op) else mongo_direct f path op l
      | OperandRange r \<Rightarrow> Inr (mongo_range path op r)
      | OperandSet vs \<Rightarrow>
          if op = OpEQ then mongo_eq_set f path (elements vs)
          else if op = OpNEQ then mongo_neq_set f path (elements vs)
          else Inr (MfTests path [MtCompare op MvNull]))"

definition mongo_field_expression :: "bound_field \<Rightarrow> field_operator \<Rightarrow> operand \<Rightarrow> query_error + mongo_filter" where
  "mongo_field_expression f op v =
     (let path = full_path (bf_path f) in
      case op of
        StringOp s \<Rightarrow> Inr (mongo_string_operator path s v)
      | Comparison c \<Rightarrow> mongo_comparison_operator f path c v)"

fun mongo_expression :: "bound_expression \<Rightarrow> query_error + mongo_filter" where
  "mongo_expression (BoundField f op v) = mongo_field_expression f op v"
| "mongo_expression (BoundNegation e) = bindE (mongo_expression e) (\<lambda>x. Inr (MfNor [x]))"
| "mongo_expression (BoundLogical op l r) =
     bindE (mongo_expression l) (\<lambda>a. bindE (mongo_expression r) (\<lambda>b.
     Inr (if op = LAnd then MfAnd [a, b] else MfOr [a, b])))"

section \<open>Commands\<close>

definition mongo_document :: "bound_assignment list \<Rightarrow> (string \<times> mongo_value) list" where
  "mongo_document as = foldl (\<lambda>d a. AList.update (full_path (bf_path (ba_field a))) (mongo_parameter (ba_value a)) d) [] as"

definition mongo_query :: "bound_ir \<Rightarrow> string \<Rightarrow> mongo_spec \<Rightarrow> physical_result" where
  "mongo_query b name spec =
     SingleQuery \<lparr>pq_dialect = ''mongodb'', pq_query = ''mongodb:'' @ name, pq_parameters = [PSpec spec],
       pq_source_id = b_source_id b, pq_source_name = b_source_name b\<rparr>"

definition mongo_filter_of :: "bound_ir \<Rightarrow> query_error + mongo_filter" where
  "mongo_filter_of b = (case b_where b of None \<Rightarrow> Inr MfAll | Some e \<Rightarrow> mongo_expression e)"

definition projection_field_of :: "bound_selection \<Rightarrow> projection_field" where
  "projection_field_of s =
     (let col = full_path (bf_path (bs_field s)) in
      \<lparr>pf_path = segments (bf_path (bs_field s)), pf_alias = bs_alias s,
       pf_name = (case bs_alias s of Some a \<Rightarrow> if a = [] then col else a | None \<Rightarrow> col)\<rparr>)"

definition projection_dict :: "bound_selection list \<Rightarrow> (string \<times> int) list" where
  "projection_dict sels =
     (let cols = map (\<lambda>s. full_path (bf_path (bs_field s))) sels;
          dict = foldl (\<lambda>d c. AList.update c 1 d) [] cols
      in if ''_id'' \<in> set cols then dict else AList.update ''_id'' 0 dict)"

definition mongo_sort :: "bound_ir \<Rightarrow> (string \<times> int) list" where
  "mongo_sort b =
     (case b_ranking b of
        None \<Rightarrow> []
      | Some r \<Rightarrow> [(full_path (bf_path (brk_field r)), if brk_direction r = TOP then -1 else 1)]) @
     map (\<lambda>s. (full_path (bf_path (bsc_field s)), if bsc_direction s = ASC then 1 else -1)) (b_sort b) @
     (if b_ranking b = None \<and> b_sort b = [] then
        (if be_primary_key (b_entity b) \<noteq> [] then map (\<lambda>c. (c, 1)) (be_primary_key (b_entity b)) else [(''_id'', 1)])
      else [])"

definition mongo_find_of :: "bound_ir \<Rightarrow> mongo_filter \<Rightarrow> mongo_find" where
  "mongo_find_of b filt =
     (let projected = \<not> b_is_wildcard_projection b \<and> b_projection b \<noteq> [] in
      \<lparr>mf_collection = be_name (b_entity b), mf_filter = filt,
       mf_projection = (if projected then Some (projection_dict (b_projection b)) else None),
       mf_projection_fields = (if projected then Some (map projection_field_of (b_projection b)) else None),
       mf_sort = (if mongo_sort b = [] then None else Some (mongo_sort b)),
       mf_limit = limit_value b, mf_skip = b_offset b\<rparr>)"

text \<open>\<open>MongoDBLowerer.lower\<close>.\<close>

definition mongo_lower :: "bound_ir \<Rightarrow> query_error + physical_result" where
  "mongo_lower b =
     (let coll = be_name (b_entity b) in
      case b_operation b of
        CREATE \<Rightarrow> Inr (mongo_query b ''insert_many''
          (SpecInsert coll (map (mongo_document \<circ> br_assignments) (create_records b))))
      | UPDATE \<Rightarrow> bindE (mongo_filter_of b) (\<lambda>filt.
          Inr (mongo_query b ''update_many'' (SpecUpdate coll filt (mongo_document (b_assignments b)))))
      | DELETE \<Rightarrow> bindE (mongo_filter_of b) (\<lambda>filt. Inr (mongo_query b ''delete_many'' (SpecDelete coll filt)))
      | READ \<Rightarrow> bindE (mongo_filter_of b) (\<lambda>filt. Inr (mongo_query b ''find'' (SpecFind (mongo_find_of b filt)))))"

end
