(* ===== verification/Mongo_Selection.thy ===== *)
theory Mongo_Selection
  imports Mongo_Lowering Marked_Selection Sql_Correctness
begin

text \<open>
  What a MongoDB filter selects, for documents whose fields hold single values, and the refinement: on the
  supported part of the language the filter that is lowered selects exactly the documents on which the
  condition holds. A field may be missing, or present and null; a filter is true or false, never unknown.
  The regular expressions are those the lowerer writes: escaped text between \<open>^\<close> and \<open>$\<close>.
\<close>

section \<open>Regular expressions\<close>

text \<open>What is left of the text after the pattern, from its start. \<open>$\<close> also stands before a final line end.\<close>

fun regex_rest :: "string \<Rightarrow> string \<Rightarrow> string option" where
  "regex_rest [] t = Some t"
| "regex_rest (c # p) t =
     (if c = CHR 0x5C then
        (case p of [] \<Rightarrow> None | e # q \<Rightarrow> (case t of [] \<Rightarrow> None | x # u \<Rightarrow> if x = e then regex_rest q u else None))
      else if c = CHR ''$'' \<and> p = [] then (if t = [] \<or> t = [CHR 0x0A] then Some t else None)
      else (case t of [] \<Rightarrow> None | x # u \<Rightarrow> if x = c then regex_rest p u else None))"

definition regex_matches :: "string \<Rightarrow> string \<Rightarrow> bool" where
  "regex_matches p t \<longleftrightarrow>
     (case p of
        c # q \<Rightarrow> if c = CHR ''^'' then regex_rest q t \<noteq> None else list_ex (\<lambda>u. regex_rest p u \<noteq> None) (suffixes t)
      | [] \<Rightarrow> True)"

lemma regex_rest_escape: "regex_rest (re_escape s @ p) t = (if prefix s t then regex_rest p (drop (length s) t) else None)"
proof (induction s arbitrary: t)
  case Nil
  then show ?case by (simp add: re_escape_def)
next
  case (Cons c s)
  have special: "CHR 0x5C \<in> set regex_special" "CHR ''$'' \<in> set regex_special" by (simp_all add: regex_special_def)
  show ?case
  proof (cases "c \<in> set regex_special")
    case True
    then have "re_escape (c # s) = CHR 0x5C # c # re_escape s" by (simp add: re_escape_def)
    then show ?thesis using Cons by (cases t) simp_all
  next
    case False
    then have "re_escape (c # s) = c # re_escape s" "c \<noteq> CHR 0x5C" "c \<noteq> CHR ''$''"
      using special by (auto simp: re_escape_def)
    then show ?thesis using Cons by (cases t) simp_all
  qed
qed

lemma escape_not_anchor: "re_escape s @ p = CHR ''^'' # q \<Longrightarrow> s = []"
proof (cases s)
  case (Cons c u)
  have "CHR ''^'' \<in> set regex_special" by (simp add: regex_special_def)
  moreover assume "re_escape s @ p = CHR ''^'' # q"
  ultimately show "s = []" by (auto simp: Cons re_escape_def split: if_splits)
qed simp

lemma regex_search:
  assumes "\<And>r. q \<noteq> CHR ''^'' # r"
  shows "regex_matches q t \<longleftrightarrow> (\<exists>a u. t = a @ u \<and> regex_rest q u \<noteq> None)"
proof -
  have "list_ex P (suffixes t) \<longleftrightarrow> (\<exists>a u. t = a @ u \<and> P u)" for P :: "string \<Rightarrow> bool"
    by (auto simp: list_ex_iff set_suffixes_eq suffix_def)
  moreover have "\<exists>a u. t = a @ u" by blast
  moreover have "c \<noteq> CHR ''^''" if "q = c # r" for c r using assms [of r] that by blast
  ultimately show ?thesis
    by (cases q) (auto simp: regex_matches_def simp del: regex_rest.simps(2))
qed

lemma regex_unanchored:
  assumes "p = [] \<or> p = ''$''"
  shows "regex_matches (re_escape s @ p) t \<longleftrightarrow> (\<exists>a u. t = a @ u \<and> regex_rest (re_escape s @ p) u \<noteq> None)"
proof (rule regex_search)
  show "re_escape s @ p \<noteq> CHR ''^'' # r" for r
    using escape_not_anchor [of s p r] assms by (auto simp: re_escape_def)
qed

lemma regex_prefix: "regex_matches (CHR ''^'' # re_escape s) t \<longleftrightarrow> prefix s t"
  using regex_rest_escape [of s "[]" t] by (simp add: regex_matches_def)

lemma regex_sublist: "regex_matches (re_escape s) t \<longleftrightarrow> sublist s t"
proof -
  have "regex_rest (re_escape s) u \<noteq> None \<longleftrightarrow> prefix s u" for u
    using regex_rest_escape [of s "[]" u] by simp
  then have "regex_matches (re_escape s) t \<longleftrightarrow> (\<exists>a u. t = a @ u \<and> prefix s u)"
    using regex_unanchored [of "[]" s t] by simp
  also have "\<dots> \<longleftrightarrow> sublist s t" by (simp add: sublist_def prefix_def) blast
  finally show ?thesis .
qed

lemma regex_suffix:
  assumes "t = [] \<or> last t \<noteq> CHR 0x0A"
  shows "regex_matches (re_escape s @ ''$'') t \<longleftrightarrow> suffix s t"
proof -
  have "regex_rest (re_escape s @ ''$'') u \<noteq> None \<longleftrightarrow> u = s \<or> u = s @ [CHR 0x0A]" for u
    unfolding regex_rest_escape prefix_def by auto
  then have "regex_matches (re_escape s @ ''$'') t \<longleftrightarrow> (\<exists>a u. t = a @ u \<and> (u = s \<or> u = s @ [CHR 0x0A]))"
    using regex_unanchored [of "''$''" s t] by simp
  also have "\<dots> \<longleftrightarrow> (\<exists>a. t = a @ s)" using assms by auto
  finally show ?thesis by (simp add: suffix_def)
qed

section \<open>Evaluation of filters\<close>

fun mongo_reads :: "'v database \<Rightarrow> mongo_value \<Rightarrow> 'v option" where
  "mongo_reads db MvNull = None"
| "mongo_reads db (MvBool b) = db_value db (PBool b)"
| "mongo_reads db (MvInt n) = db_value db (PInt n)"
| "mongo_reads db (MvFloat x) = db_value db (PFloat x)"
| "mongo_reads db (MvString s) = db_value db (PStr s)"
| "mongo_reads db (MvDate s) = db_value db (PDate s)"
| "mongo_reads db (MvDateTime s) = db_value db (PDateTime s)"
| "mongo_reads db (MvMidnight c) = db_value db (PMidnight c)"
| "mongo_reads db MvToday = Some (db_today db)"
| "mongo_reads db MvNow = Some (db_now db)"
| "mongo_reads db (MvTextOf el) = None"

text \<open>A missing field compares like null; null equals null and nothing else.\<close>

definition mongo_compares :: "('v :: linorder) database \<Rightarrow> 'v option \<Rightarrow> comparison_operator \<Rightarrow> mongo_value \<Rightarrow> bool" where
  "mongo_compares db x op v \<longleftrightarrow>
     (case (x, mongo_reads db v) of
        (Some u, Some w) \<Rightarrow> sql_compares op u w
      | (None, None) \<Rightarrow> op = OpEQ \<or> op = OpGTE \<or> op = OpLTE
      | _ \<Rightarrow> op = OpNEQ)"

fun pattern_matches :: "mongo_pattern \<Rightarrow> string \<Rightarrow> bool" where
  "pattern_matches (MongoPattern p) t \<longleftrightarrow> regex_matches p t"
| "pattern_matches (MongoPatternOf pre el post) t \<longleftrightarrow> False"

definition field_value :: "'v option option \<Rightarrow> 'v option" where
  "field_value y = (case y of None \<Rightarrow> None | Some x \<Rightarrow> x)"

fun test_holds :: "('v :: linorder) database \<Rightarrow> 'v option option \<Rightarrow> mongo_test \<Rightarrow> bool" where
  "test_holds db y (MtCompare op v) \<longleftrightarrow> mongo_compares db (field_value y) op v"
| "test_holds db y (MtIn vs) \<longleftrightarrow> list_ex (mongo_compares db (field_value y) OpEQ) vs"
| "test_holds db y (MtNin vs) \<longleftrightarrow> \<not> list_ex (mongo_compares db (field_value y) OpEQ) vs"
| "test_holds db y MtExists \<longleftrightarrow> y \<noteq> None"
| "test_holds db y (MtRegex p) \<longleftrightarrow>
     (case field_value y of None \<Rightarrow> False | Some u \<Rightarrow> pattern_matches p (db_string db u))"
| "test_holds db y (MtNotRegex p) \<longleftrightarrow>
     \<not> (case field_value y of None \<Rightarrow> False | Some u \<Rightarrow> pattern_matches p (db_string db u))"

type_synonym 'v stored_document = "string \<Rightarrow> 'v option option"

fun filter_holds :: "('v :: linorder) database \<Rightarrow> 'v stored_document \<Rightarrow> mongo_filter \<Rightarrow> bool" where
  "filter_holds db doc (MfEquals path v) \<longleftrightarrow> mongo_compares db (field_value (doc path)) OpEQ v"
| "filter_holds db doc (MfTests path ts) \<longleftrightarrow> list_all (test_holds db (doc path)) ts"
| "filter_holds db doc (MfAnd fs) \<longleftrightarrow> (\<forall>g \<in> set fs. filter_holds db doc g)"
| "filter_holds db doc (MfOr fs) \<longleftrightarrow> (\<exists>g \<in> set fs. filter_holds db doc g)"
| "filter_holds db doc (MfNor fs) \<longleftrightarrow> \<not> (\<exists>g \<in> set fs. filter_holds db doc g)"
| "filter_holds db doc MfAll \<longleftrightarrow> True"

section \<open>The supported conditions\<close>

definition mongo_constraint_ok :: "bound_field \<Rightarrow> comparison_constraint \<Rightarrow> bool" where
  "mongo_constraint_ok f c \<longleftrightarrow>
     (if c_value c = NullLiteral then c_operator c = OpEQ \<or> c_operator c = OpNEQ
      else has_value (c_value c) \<and> (c_operator c = OpEQ \<or> c_operator c = OpNEQ \<longrightarrow> \<not> means_day f (c_value c)))"

text \<open>Of two constraints with the same operator the driver gets the last only.\<close>

fun mongo_element_ok :: "bound_field \<Rightarrow> value_set_element \<Rightarrow> bool" where
  "mongo_element_ok f (ElemLiteral l) \<longleftrightarrow> l = NullLiteral \<or> has_value l"
| "mongo_element_ok f (ElemRange r) \<longleftrightarrow> range_ok r"
| "mongo_element_ok f (ElemConstraint c) \<longleftrightarrow> mongo_constraint_ok f c"
| "mongo_element_ok f (ElemCompound cs) \<longleftrightarrow>
     list_all (mongo_constraint_ok f) cs \<and> distinct (map c_operator cs)"

text \<open>
  After \<open>!=\<close>, the elements whose filter finds a null or missing field when the documented meaning does.
  The set may also name NULL, which excludes those fields in both.
\<close>

fun finds_null :: "bound_field \<Rightarrow> value_set_element \<Rightarrow> bool" where
  "finds_null f (ElemLiteral l) \<longleftrightarrow> \<not> means_day f l"
| "finds_null f (ElemRange r) \<longleftrightarrow> False"
| "finds_null f (ElemConstraint c) \<longleftrightarrow> c_operator c = OpEQ \<or> c_operator c = OpNEQ"
| "finds_null f (ElemCompound cs) \<longleftrightarrow> False"

fun mongo_text_ok :: "value_set_element \<Rightarrow> bool" where
  "mongo_text_ok (ElemLiteral l) \<longleftrightarrow> l = NullLiteral \<or> is_string_literal l"
| "mongo_text_ok _ \<longleftrightarrow> False"

definition no_line_end :: "'v database \<Rightarrow> 'v option \<Rightarrow> bool" where
  "no_line_end db x \<longleftrightarrow> (case x of None \<Rightarrow> True | Some u \<Rightarrow> db_string db u = [] \<or> last (db_string db u) \<noteq> CHR 0x0A)"

fun mongo_field_ok :: "'v database \<Rightarrow> bound_field \<Rightarrow> field_operator \<Rightarrow> operand \<Rightarrow> 'v option \<Rightarrow> bool" where
  "mongo_field_ok db f (Comparison op) (OperandLiteral l) x \<longleftrightarrow>
     (if l = NullLiteral then op = OpEQ \<or> op = OpNEQ else has_value l \<and> (op = OpNEQ \<longrightarrow> \<not> means_day f l))"
| "mongo_field_ok db f (Comparison op) (OperandRange r) x \<longleftrightarrow> (op = OpEQ \<or> op = OpNEQ) \<and> range_ok r"
| "mongo_field_ok db f (Comparison op) (OperandSet vs) x \<longleftrightarrow>
     elements vs \<noteq> [] \<and> list_all (mongo_element_ok f) (elements vs) \<and>
     (op = OpEQ \<or> op = OpNEQ \<and> (x = None \<longrightarrow> has_null (elements vs) \<or> list_all (finds_null f) (elements vs)))"
| "mongo_field_ok db f (StringOp s) (OperandLiteral l) x \<longleftrightarrow> is_string_literal l \<and> (s = ENDS \<longrightarrow> no_line_end db x)"
| "mongo_field_ok db f (StringOp s) (OperandRange r) x \<longleftrightarrow> False"
| "mongo_field_ok db f (StringOp s) (OperandSet vs) x \<longleftrightarrow>
     (s = HAS \<or> s = NOT_HAS) \<and> elements vs \<noteq> [] \<and> list_all mongo_text_ok (elements vs)"

fun mongo_supported :: "'v database \<Rightarrow> (bound_field \<Rightarrow> 'v option) \<Rightarrow> bound_expression \<Rightarrow> bool" where
  "mongo_supported db row (BoundField f op v) \<longleftrightarrow> mongo_field_ok db f op v (row f)"
| "mongo_supported db row (BoundLogical op l r) \<longleftrightarrow> mongo_supported db row l \<and> mongo_supported db row r"
| "mongo_supported db row (BoundNegation e) \<longleftrightarrow> mongo_supported db row e"

section \<open>Values and constraints\<close>

lemma mongo_reads_parameter:
  assumes "lawful_database db"
  shows "mongo_reads db (mongo_parameter l) = literal_value db l"
  using lawful_param [OF assms, of PNone]
  by (cases l) (auto simp: literal_value_def split: option.split)

lemma mongo_constraint_holds:
  assumes "lawful_database db" "mongo_constraint_ok f c"
  shows "mongo_compares db x (c_operator c) (mongo_parameter (c_value c)) \<longleftrightarrow>
    constraint_holds db f (c_operator c) (c_value c) x"
proof (cases "c_value c = NullLiteral")
  case True
  with assms(2) show ?thesis
    by (cases x) (auto simp: mongo_constraint_ok_def mongo_compares_def constraint_holds_def literal_equal_simps(1) [OF assms(1)])
next
  case False
  with assms(2) obtain w where w: "literal_value db (c_value c) = Some w"
    using valued [OF assms(1)] by (auto simp: mongo_constraint_ok_def)
  from False assms(2) show ?thesis
    by (cases x; cases "c_operator c")
      (auto simp: mongo_constraint_ok_def mongo_compares_def mongo_reads_parameter [OF assms(1)] w
        constraint_holds_def literal_equal_def)
qed

lemma mongo_compares_invert:
  "x \<noteq> None \<or> op = OpEQ \<or> op = OpNEQ \<Longrightarrow> x \<noteq> None \<longrightarrow> mongo_reads db v \<noteq> None \<or> op = OpEQ \<or> op = OpNEQ \<Longrightarrow>
   mongo_compares db x (invert_operator op) v \<longleftrightarrow> \<not> mongo_compares db x op v"
  by (cases x; cases "mongo_reads db v"; cases op) (auto simp: mongo_compares_def)

lemma mongo_equal:
  assumes "lawful_database db" "\<not> means_day f l" "l = NullLiteral \<or> has_value l"
  shows "mongo_compares db x OpEQ (mongo_parameter l) \<longleftrightarrow> literal_equal db f l x"
    and "mongo_compares db x OpNEQ (mongo_parameter l) \<longleftrightarrow> \<not> literal_equal db f l x"
proof -
  have "mongo_constraint_ok f (ComparisonConstraint op l)" if "op = OpEQ \<or> op = OpNEQ" for op
    using assms(2,3) that by (auto simp: mongo_constraint_ok_def)
  from mongo_constraint_holds [OF assms(1) this]
  show "mongo_compares db x OpEQ (mongo_parameter l) \<longleftrightarrow> literal_equal db f l x"
    "mongo_compares db x OpNEQ (mongo_parameter l) \<longleftrightarrow> \<not> literal_equal db f l x"
    by (force simp: constraint_holds_def)+
qed

lemma mongo_null_holds:
  "lawful_database db \<Longrightarrow> mongo_compares db x OpEQ MvNull \<longleftrightarrow> x = None"
  "filter_holds db doc (not_null_test path) \<longleftrightarrow> field_value (doc path) \<noteq> None"
  by (cases x; simp add: mongo_compares_def)
    (cases "doc path"; cases "field_value (doc path)"; auto simp: not_null_test_def mongo_compares_def field_value_def)

lemma mongo_range_holds:
  assumes "lawful_database db" "range_ok r"
  shows "filter_holds db doc (mongo_between path r) \<longleftrightarrow> range_holds db r (field_value (doc path))"
    and "field_value (doc path) \<noteq> None \<Longrightarrow>
      (\<exists>g \<in> set (mongo_outside path r). filter_holds db doc g) \<longleftrightarrow> \<not> range_holds db r (field_value (doc path))"
    and "field_value (doc path) = None \<Longrightarrow> \<not> (\<exists>g \<in> set (mongo_outside path r). filter_holds db doc g)"
proof -
  obtain a b where "literal_value db (r_start r) = Some a" "literal_value db (r_end r) = Some b"
    using valued [OF assms(1)] assms(2) by (fastforce simp: range_ok_def)
  then show "filter_holds db doc (mongo_between path r) \<longleftrightarrow> range_holds db r (field_value (doc path))"
    "field_value (doc path) \<noteq> None \<Longrightarrow>
      (\<exists>g \<in> set (mongo_outside path r). filter_holds db doc g) \<longleftrightarrow> \<not> range_holds db r (field_value (doc path))"
    "field_value (doc path) = None \<Longrightarrow> \<not> (\<exists>g \<in> set (mongo_outside path r). filter_holds db doc g)"
    by (auto simp: mongo_between_def mongo_outside_def mongo_compares_def mongo_reads_parameter [OF assms(1)]
        range_holds_def split: option.splits)
qed

lemma mongo_day_holds:
  assumes "lawful_database db" "mongo_days s = Inr (a, b)" "field_value (doc path) = Some u" "valid_day (db_day db u)"
  shows "filter_holds db doc (MfTests path [MtCompare OpGTE (MvMidnight a), MtCompare OpLT (MvMidnight b)]) \<longleftrightarrow>
      db_day db u = day_of_text s"
    and "filter_holds db doc (MfOr [MfTests path [MtCompare OpLT (MvMidnight a)], MfTests path [MtCompare OpGTE (MvMidnight b)]]) \<longleftrightarrow>
      db_day db u \<noteq> day_of_text s"
proof -
  have "c_day s = Inr (PAnd [PCmp OpGTE (AParam (PMidnight a)), PCmp OpLT (AParam (PMidnight b))])"
    using assms(2) by (auto simp: c_day_def mongo_days_def parse_date_only_range_def split: if_splits option.splits)
  note day = day_value [OF assms(1) this assms(4)]
  obtain v w where "db_value db (PMidnight a) = Some v" "db_value db (PMidnight b) = Some w"
    using lawful_param [OF assms(1), of "PMidnight a"] lawful_param [OF assms(1), of "PMidnight b"] by auto
  with day show "filter_holds db doc (MfTests path [MtCompare OpGTE (MvMidnight a), MtCompare OpLT (MvMidnight b)]) \<longleftrightarrow>
      db_day db u = day_of_text s"
    "filter_holds db doc (MfOr [MfTests path [MtCompare OpLT (MvMidnight a)], MfTests path [MtCompare OpGTE (MvMidnight b)]]) \<longleftrightarrow>
      db_day db u \<noteq> day_of_text s"
    by (auto simp: assms(3) mongo_compares_def)
qed

section \<open>Strings\<close>

lemma mongo_pattern_string: "pattern_of pre (ElemLiteral (StringLiteral s)) post = MongoPattern (pre @ re_escape s @ post)"
  by (simp add: pattern_of_def)

lemma text_element_cases:
  assumes "mongo_text_ok el" "\<not> is_null_element el"
  obtains s where "el = ElemLiteral (StringLiteral s)"
  using assms string_literal_cases by (cases el) (auto simp: is_null_element_def)

lemma mongo_text_ok_holds: "mongo_text_ok el \<Longrightarrow> has_element_ok el"
  by (cases el) auto

lemma mongo_has_element_holds:
  assumes "mongo_text_ok el" "\<not> is_null_element el"
  shows "filter_holds db doc (mongo_has_element path el) \<longleftrightarrow> contains_element db el (field_value (doc path))"
    and "filter_holds db doc (mongo_not_has_element path el) \<longleftrightarrow> \<not> contains_element db el (field_value (doc path))"
  using assms by (auto elim!: text_element_cases simp: mongo_has_element_def mongo_not_has_element_def
      mongo_pattern_string regex_sublist split: option.splits)

lemma non_null_text:
  "list_all mongo_text_ok els \<Longrightarrow> el \<in> set (non_null els) \<Longrightarrow> mongo_text_ok el \<and> \<not> is_null_element el"
  by (simp add: list_all_iff non_null_def)

lemma one_of: "(if length fs = 1 then filter_holds db doc (hd fs) else \<exists>g \<in> set fs. filter_holds db doc g) \<longleftrightarrow>
    (\<exists>g \<in> set fs. filter_holds db doc g)"
  "(if length fs = 1 then filter_holds db doc (hd fs) else \<forall>g \<in> set fs. filter_holds db doc g) \<longleftrightarrow>
    (\<forall>g \<in> set fs. filter_holds db doc g)"
  by (cases fs; cases "tl fs"; simp)+

lemma mongo_has_set_holds:
  assumes "lawful_database db" "list_all mongo_text_ok els" "els \<noteq> []"
  shows "filter_holds db doc (mongo_has_set path els) \<longleftrightarrow>
    list_ex (\<lambda>el. contains_element db el (field_value (doc path))) els"
proof -
  let ?x = "field_value (doc path)"
  let ?preds = "(if has_null els then [MfEquals path MvNull] else []) @ map (mongo_has_element path) (non_null els)"
  have "?preds \<noteq> []" using set_not_empty [OF assms(3)] by auto
  then have "filter_holds db doc (mongo_has_set path els) \<longleftrightarrow> (\<exists>g \<in> set ?preds. filter_holds db doc g)"
    unfolding mongo_has_set_def Let_def by (cases ?preds; cases "tl ?preds") auto
  also have "\<dots> \<longleftrightarrow> (has_null els \<and> ?x = None) \<or> (\<exists>el \<in> set (non_null els). filter_holds db doc (mongo_has_element path el))"
    by (simp add: mongo_null_holds(1) [OF assms(1)] bex_Un)
  also have "(\<exists>el \<in> set (non_null els). filter_holds db doc (mongo_has_element path el)) \<longleftrightarrow>
      list_ex (\<lambda>el. contains_element db el ?x) (non_null els)"
    using mongo_has_element_holds(1) [of _ db doc path] non_null_text [OF assms(2)] by (simp add: list_ex_iff)
  finally show ?thesis by (simp add: contains_split [of db ?x els])
qed

lemma contains_null: "mongo_text_ok el \<Longrightarrow> \<not> is_null_element el \<Longrightarrow> \<not> contains_element db el None"
  by (auto elim: text_element_cases)

lemma mongo_not_has_set_holds:
  assumes "lawful_database db" "list_all mongo_text_ok els" "els \<noteq> []"
  shows "filter_holds db doc (mongo_not_has_set path els) \<longleftrightarrow>
    \<not> list_ex (\<lambda>el. contains_element db el (field_value (doc path))) els"
proof -
  let ?x = "field_value (doc path)" and ?nl = "map (mongo_not_has_element path) (non_null els)"
  have "filter_holds db doc (mongo_not_has_element path el) \<longleftrightarrow> \<not> contains_element db el ?x" if "el \<in> set (non_null els)" for el
    using mongo_has_element_holds(2) [of el db doc path] non_null_text [OF assms(2) that] by blast
  then have all: "(\<forall>g \<in> set ?nl. filter_holds db doc g) \<longleftrightarrow> \<not> list_ex (\<lambda>el. contains_element db el ?x) (non_null els)"
    by (simp add: list_ex_iff)
  have none: "?x = None \<Longrightarrow> \<not> list_ex (\<lambda>el. contains_element db el ?x) (non_null els)"
    using contains_null non_null_text [OF assms(2)] by (auto simp: list_ex_iff)
  show ?thesis
  proof (cases "has_null els")
    case True
    then have "filter_holds db doc (mongo_not_has_set path els) \<longleftrightarrow> (\<forall>g \<in> set ?nl. filter_holds db doc g) \<and> ?x \<noteq> None"
      by (auto simp: mongo_not_has_set_def Let_def mongo_null_holds(2))
    with True all show ?thesis by (auto simp: contains_split [of db ?x els])
  next
    case False
    then have "?nl \<noteq> []" using set_not_empty [OF assms(3)] by simp
    with False have "filter_holds db doc (mongo_not_has_set path els) \<longleftrightarrow> (\<forall>g \<in> set ?nl. filter_holds db doc g) \<or> ?x = None"
      unfolding mongo_not_has_set_def Let_def
      by (cases ?nl; cases "tl ?nl") (auto simp: mongo_null_holds(1) [OF assms(1)])
    with False all none show ?thesis by (auto simp: contains_split [of db ?x els])
  qed
qed

lemma mongo_string_holds:
  assumes "lawful_database db" "mongo_field_ok db f (StringOp op) v (field_value (doc path))"
  shows "filter_holds db doc (mongo_string_operator path op v) \<longleftrightarrow> string_holds db op v (field_value (doc path))"
proof (cases v)
  case (OperandLiteral l)
  then obtain s where s: "v = OperandLiteral (StringLiteral s)" using assms(2) string_literal_cases by auto
  note regex = regex_prefix regex_sublist regex_suffix
  show ?thesis
    using assms(2)
    by (cases op; cases "field_value (doc path)")
      (auto simp: s mongo_string_operator_def mongo_pattern_string string_holds_def regex no_line_end_def
        mongo_null_holds(1) [OF assms(1)])
next
  case (OperandSet vs)
  then consider "op = HAS" | "op = NOT_HAS" using assms(2) by auto
  then show ?thesis
    using assms(2) mongo_has_set_holds [OF assms(1)] mongo_not_has_set_holds [OF assms(1)]
    by cases (simp_all add: OperandSet mongo_string_operator_def string_holds_def Let_def)
qed (use assms(2) in simp)

section \<open>Sets\<close>

lemma operator_dict_tests:
  assumes "distinct (map c_operator cs)"
  shows "operator_dict cs = map (\<lambda>c. (c_operator c, mongo_parameter (c_value c))) cs"
  using assms
proof (induction cs rule: rev_induct)
  case (snoc c cs)
  have new: "AList.update k v al = al @ [(k, v)]" if "k \<notin> fst ` set al" for k :: comparison_operator and v :: mongo_value and al
    using that by (induction al) auto
  have "operator_dict (cs @ [c]) = AList.update (c_operator c) (mongo_parameter (c_value c)) (operator_dict cs)"
    by (simp add: operator_dict_def)
  with snoc show ?case by (simp add: new image_image)
qed (simp add: operator_dict_def)

lemma eq_other_holds:
  assumes "lawful_database db" "dated db f (field_value (doc path))" "mongo_element_ok f el"
    and "\<not> marked_simple f el" "\<not> is_null_element el" "mongo_eq_other f path el = Inr gs"
  shows "(\<exists>g \<in> set gs. filter_holds db doc g) \<longleftrightarrow> element_holds db f el (field_value (doc path))"
proof (cases el)
  case (ElemLiteral l)
  then have day: "means_day f l" using other_literal assms(4,5) by blast
  then obtain a b where ab: "mongo_days (date_only_text l) = Inr (a, b)"
      "gs = [MfTests path [MtCompare OpGTE (MvMidnight a), MtCompare OpLT (MvMidnight b)]]"
    using assms(6) by (auto simp: ElemLiteral mongo_day_def means_day_def bindE_Inr_iff)
  show ?thesis
  proof (cases "field_value (doc path)")
    case None
    with day show ?thesis
      using lawful_param [OF assms(1), of "PMidnight a"]
      by (auto simp: ElemLiteral ab(2) mongo_compares_def literal_equal_def means_day_def is_date_only_literal_def split: option.splits)
  next
    case (Some u)
    with assms(2) day have "valid_day (db_day db u)" by (simp add: dated_def means_day_def)
    with day Some show ?thesis
      using mongo_day_holds(1) [where doc = doc and path = path, OF assms(1) ab(1) Some] by (simp add: ElemLiteral ab(2) literal_equal_def)
  qed
next
  case (ElemRange r)
  with assms show ?thesis using mongo_range_holds(1) [OF assms(1)] by auto
next
  case (ElemConstraint c)
  with assms show ?thesis by (auto simp: mongo_constraint_holds)
next
  case (ElemCompound cs)
  then have ok: "\<And>c. c \<in> set cs \<Longrightarrow> mongo_constraint_ok f c" "distinct (map c_operator cs)"
    and gs: "gs = [MfTests path (map (\<lambda>(op, v). MtCompare op v) (operator_dict cs))]"
    using assms(3,6) by (auto simp: list_all_iff)
  show ?thesis
    unfolding gs operator_dict_tests [OF ok(2)]
    by (auto simp: ElemCompound list_all_iff mongo_constraint_holds [OF assms(1) ok(1)])
qed

lemma neq_other_holds:
  assumes "lawful_database db" "dated db f (field_value (doc path))" "mongo_element_ok f el"
    and "\<not> marked_simple f el" "\<not> is_null_element el" "mongo_neq_other f path el = Inr gs"
  shows "field_value (doc path) \<noteq> None \<or> finds_null f el \<Longrightarrow>
    (\<forall>g \<in> set gs. filter_holds db doc g) \<longleftrightarrow> \<not> element_holds db f el (field_value (doc path))"
proof (cases el)
  case (ElemLiteral l)
  assume found: "field_value (doc path) \<noteq> None \<or> finds_null f el"
  have day: "means_day f l" using other_literal assms(4,5) ElemLiteral by blast
  then obtain a b where ab: "mongo_days (date_only_text l) = Inr (a, b)"
      "gs = [MfOr [MfTests path [MtCompare OpLT (MvMidnight a)], MfTests path [MtCompare OpGTE (MvMidnight b)]]]"
    using assms(6) by (auto simp: ElemLiteral mongo_not_day_def means_day_def bindE_Inr_iff)
  obtain u where u: "field_value (doc path) = Some u" using found day by (auto simp: ElemLiteral)
  with assms(2) day have "valid_day (db_day db u)" by (simp add: dated_def means_day_def)
  with day u show ?thesis
    using mongo_day_holds(2) [where doc = doc and path = path, OF assms(1) ab(1) u] by (simp add: ElemLiteral ab(2) literal_equal_def)
next
  case (ElemRange r)
  moreover assume "field_value (doc path) \<noteq> None \<or> finds_null f el"
  ultimately show ?thesis using assms mongo_range_holds(2) [OF assms(1), of r doc path] by auto
next
  case (ElemConstraint c)
  moreover assume "field_value (doc path) \<noteq> None \<or> finds_null f el"
  ultimately have "mongo_compares db (field_value (doc path)) (invert_operator (c_operator c)) (mongo_parameter (c_value c)) \<longleftrightarrow>
      \<not> mongo_compares db (field_value (doc path)) (c_operator c) (mongo_parameter (c_value c))"
    using assms(3) valued [OF assms(1), of "c_value c"]
    by (intro mongo_compares_invert) (auto simp: mongo_constraint_ok_def mongo_reads_parameter [OF assms(1)] split: if_splits)
  with ElemConstraint assms show ?thesis by (auto simp: mongo_constraint_holds)
next
  case (ElemCompound cs)
  moreover assume "field_value (doc path) \<noteq> None \<or> finds_null f el"
  ultimately have x: "field_value (doc path) \<noteq> None" by simp
  have "mongo_compares db (field_value (doc path)) (invert_operator (c_operator c)) (mongo_parameter (c_value c)) \<longleftrightarrow>
      \<not> constraint_holds db f (c_operator c) (c_value c) (field_value (doc path))" if "c \<in> set cs" for c
  proof -
    have ok: "mongo_constraint_ok f c" using assms(3) that by (simp add: ElemCompound list_all_iff)
    then have "mongo_compares db (field_value (doc path)) (invert_operator (c_operator c)) (mongo_parameter (c_value c)) \<longleftrightarrow>
        \<not> mongo_compares db (field_value (doc path)) (c_operator c) (mongo_parameter (c_value c))"
      using x valued [OF assms(1), of "c_value c"]
      by (intro mongo_compares_invert) (auto simp: mongo_constraint_ok_def mongo_reads_parameter [OF assms(1)] split: if_splits)
    with mongo_constraint_holds [OF assms(1) ok] show ?thesis by simp
  qed
  with ElemCompound assms(6) show ?thesis by (auto simp: list_all_iff)
qed

lemma mongo_in_holds:
  assumes "lawful_database db" "\<And>l. l \<in> set lits \<Longrightarrow> has_value l \<and> \<not> means_day f l"
  shows "(\<exists>g \<in> set (mongo_in path lits). filter_holds db doc g) \<longleftrightarrow>
      list_ex (\<lambda>l. literal_equal db f l (field_value (doc path))) lits"
    and "(\<forall>g \<in> set (mongo_nin path lits). filter_holds db doc g) \<longleftrightarrow>
      \<not> list_ex (\<lambda>l. literal_equal db f l (field_value (doc path))) lits"
proof -
  let ?x = "field_value (doc path)"
  have eq: "mongo_compares db ?x OpEQ (mongo_parameter l) \<longleftrightarrow> literal_equal db f l ?x"
    "mongo_compares db ?x OpNEQ (mongo_parameter l) \<longleftrightarrow> \<not> literal_equal db f l ?x" if "l \<in> set lits" for l
    using assms(2) [OF that] mongo_equal [OF assms(1)] by auto
  consider "lits = []" | l where "lits = [l]" | "lits \<noteq> []" "length lits \<noteq> 1" by (cases lits; cases "tl lits") auto
  then show "(\<exists>g \<in> set (mongo_in path lits). filter_holds db doc g) \<longleftrightarrow> list_ex (\<lambda>l. literal_equal db f l ?x) lits"
    "(\<forall>g \<in> set (mongo_nin path lits). filter_holds db doc g) \<longleftrightarrow> \<not> list_ex (\<lambda>l. literal_equal db f l ?x) lits"
    by (cases; auto simp: mongo_in_def mongo_nin_def eq list_ex_iff)+
qed

lemma simple_args:
  assumes "list_all (mongo_element_ok f) els" "l \<in> set (simple_literals f els)"
  shows "has_value l \<and> \<not> means_day f l"
proof -
  have "ElemLiteral l \<in> set els" "marked_simple f (ElemLiteral l)"
    using assms(2) by (auto simp: simple_literals_def set_literals_def non_null_def split: value_set_element.splits)
  then show ?thesis using assms(1) by (cases l) (auto simp: list_all_iff means_day_def is_date_only_literal_def)
qed

lemma others_hold:
  assumes "mapE m xs = Inr gss" "\<And>el gs. el \<in> set xs \<Longrightarrow> m el = Inr gs \<Longrightarrow> Q gs \<longleftrightarrow> h el"
  shows "(\<exists>gs \<in> set gss. Q gs) \<longleftrightarrow> list_ex h xs" "(\<forall>gs \<in> set gss. Q gs) \<longleftrightarrow> list_all h xs"
proof -
  have "list_all2 (\<lambda>el gs. m el = Inr gs) xs gss" using assms(1) by (simp add: mapE_Inr_iff)
  then have "(\<exists>gs \<in> set gss. Q gs) = list_ex h xs \<and> (\<forall>gs \<in> set gss. Q gs) = list_all h xs"
    using assms(2) by (induction rule: list_all2_induct) auto
  then show "(\<exists>gs \<in> set gss. Q gs) \<longleftrightarrow> list_ex h xs" "(\<forall>gs \<in> set gss. Q gs) \<longleftrightarrow> list_all h xs" by simp_all
qed

lemma marked_others_nonempty:
  assumes "els \<noteq> []" "\<not> has_null els" "simple_literals f els = []"
  shows "marked_others f els \<noteq> []"
proof
  assume "marked_others f els = []"
  moreover obtain el where el: "el \<in> set els" "\<not> is_null_element el" using assms(1,2) by (cases els) (auto simp: has_null_def)
  ultimately have "marked_simple f el" by (auto simp: marked_others_def non_null_def filter_empty_conv)
  then obtain l where "el = ElemLiteral l" by (cases el) auto
  with el \<open>marked_simple f el\<close> have "l \<in> set (simple_literals f els)"
    by (force simp: simple_literals_def set_literals_def non_null_def)
  with assms(3) show False by simp
qed

lemma eq_other_nonempty:
  "\<not> marked_simple f el \<Longrightarrow> \<not> is_null_element el \<Longrightarrow> mongo_eq_other f path el = Inr gs \<Longrightarrow> gs \<noteq> []"
  using other_literal [of f] by (cases el) (auto simp: means_day_def bindE_Inr_iff)

lemma concat_nonempty:
  assumes "mapE m xs = Inr gss" "xs \<noteq> []" "\<And>x gs. x \<in> set xs \<Longrightarrow> m x = Inr gs \<Longrightarrow> gs \<noteq> []"
  shows "concat gss \<noteq> []"
proof -
  have "list_all2 (\<lambda>x gs. m x = Inr gs) xs gss" using assms(1) by (simp add: mapE_Inr_iff)
  with assms(2,3) show ?thesis by (cases xs; cases gss) auto
qed

lemma mongo_eq_set_holds:
  assumes "lawful_database db" "dated db f (field_value (doc path))" "list_all (mongo_element_ok f) els" "els \<noteq> []"
    and "mongo_eq_set f path els = Inr g"
  shows "filter_holds db doc g \<longleftrightarrow> list_ex (\<lambda>el. element_holds db f el (field_value (doc path))) els"
proof -
  let ?x = "field_value (doc path)" and ?null = "if has_null els then [MfEquals path MvNull] else []"
  obtain gss where gss: "mapE (mongo_eq_other f path) (marked_others f els) = Inr gss"
    and g: "g = (let ps = ?null @ mongo_in path (simple_literals f els) @ concat gss in
      if length ps = 1 then hd ps else if ps = [] then MfAll else MfOr ps)"
    using assms(5) unfolding mongo_eq_set_def bindE_Inr_iff Let_def sum.inject by blast
  define ps where "ps = ?null @ mongo_in path (simple_literals f els) @ concat gss"
  have others: "(\<exists>gs \<in> set gss. \<exists>h \<in> set gs. filter_holds db doc h) \<longleftrightarrow> list_ex (\<lambda>el. element_holds db f el ?x) (marked_others f els)"
    using gss by (rule others_hold) (rule eq_other_holds [where doc = doc and path = path, OF assms(1,2)]; use marked_others_ok [OF assms(3)] in blast)
  have parts: "(\<exists>h \<in> set ps. filter_holds db doc h) \<longleftrightarrow> list_ex (\<lambda>el. element_holds db f el ?x) els"
    using others mongo_in_holds(1) [where doc = doc and path = path and lits = "simple_literals f els", OF assms(1) simple_args [OF assms(3)]]
      elements_partition [of "\<lambda>el. element_holds db f el ?x" els f]
    by (simp add: ps_def bex_Un mongo_null_holds(1) [OF assms(1)] literal_equal_simps(1) [OF assms(1)])
  have "concat gss \<noteq> []" if "\<not> has_null els" "simple_literals f els = []"
    using gss marked_others_nonempty [OF assms(4) that]
    by (rule concat_nonempty) (use eq_other_nonempty marked_others_ok [OF assms(3)] in blast)
  then have "ps \<noteq> []" by (auto simp: ps_def mongo_in_def)
  then have "filter_holds db doc g \<longleftrightarrow> (\<exists>h \<in> set ps. filter_holds db doc h)"
    using one_of(1) [of ps db doc] by (auto simp: g ps_def [symmetric] Let_def)
  with parts show ?thesis by simp
qed

lemma mongo_neq_set_holds:
  assumes "lawful_database db" "dated db f (field_value (doc path))" "list_all (mongo_element_ok f) els"
    and "field_value (doc path) = None \<longrightarrow> has_null els \<or> list_all (finds_null f) els"
    and "mongo_neq_set f path els = Inr g"
  shows "filter_holds db doc g \<longleftrightarrow> \<not> list_ex (\<lambda>el. element_holds db f el (field_value (doc path))) els"
proof -
  let ?x = "field_value (doc path)" and ?null = "if has_null els then [not_null_test path] else []"
  obtain gss where gss: "mapE (mongo_neq_other f path) (marked_others f els) = Inr gss"
    and g: "g = (let ps = mongo_nin path (simple_literals f els) @ concat gss @ ?null in if length ps = 1 then hd ps else MfAnd ps)"
    using assms(5) unfolding mongo_neq_set_def bindE_Inr_iff Let_def sum.inject by blast
  define ps where "ps = mongo_nin path (simple_literals f els) @ concat gss @ ?null"
  have "filter_holds db doc g \<longleftrightarrow> (\<forall>h \<in> set ps. filter_holds db doc h)"
    using one_of(2) [of ps db doc] by (auto simp: g ps_def [symmetric] Let_def)
  also have "\<dots> \<longleftrightarrow> \<not> list_ex (\<lambda>el. element_holds db f el ?x) els"
  proof (cases "?x = None \<and> has_null els")
    case True
    then have "not_null_test path \<in> set ps" by (simp add: ps_def)
    with True show ?thesis using has_null_finds(1) [OF assms(1), of els f] mongo_null_holds(2) by metis
  next
    case False
    then have found: "?x \<noteq> None \<or> finds_null f el" if "el \<in> set els" for el
      using that assms(4) by (auto simp: list_all_iff)
    have inside: "el \<in> set els" if "el \<in> set (marked_others f els)" for el
      using that by (auto simp: marked_others_def non_null_def)
    have others: "(\<forall>gs \<in> set gss. \<forall>h \<in> set gs. filter_holds db doc h) \<longleftrightarrow> list_all (\<lambda>el. \<not> element_holds db f el ?x) (marked_others f els)"
      using gss by (rule others_hold) (rule neq_other_holds [where doc = doc and path = path, OF assms(1,2)]; use marked_others_ok [OF assms(3)] inside found in blast)
    have "(\<forall>h \<in> set ?null. filter_holds db doc h) \<longleftrightarrow> \<not> (has_null els \<and> ?x = None)"
      by (simp add: mongo_null_holds(2))
    with others show ?thesis
      using mongo_in_holds(2) [where doc = doc and path = path and lits = "simple_literals f els", OF assms(1) simple_args [OF assms(3)]]
        elements_partition [of "\<lambda>el. element_holds db f el ?x" els f]
      by (auto simp: ps_def literal_equal_simps(1) [OF assms(1)] list_ex_iff list_all_iff ball_Un)
  qed
  finally show ?thesis .
qed

section \<open>Expressions\<close>

lemma mongo_comparison_holds:
  assumes "lawful_database db" "dated db f (field_value (doc path))"
    and "mongo_field_ok db f (Comparison op) v (field_value (doc path))" "mongo_comparison_operator f path op v = Inr g"
  shows "filter_holds db doc g \<longleftrightarrow> field_holds db f (Comparison op) v (field_value (doc path))"
proof (cases v)
  case (OperandLiteral l)
  let ?x = "field_value (doc path)"
  show ?thesis
  proof (cases "l = NullLiteral")
    case True
    with OperandLiteral assms(3,4) show ?thesis
      by (auto simp: mongo_comparison_operator_def mongo_null_def mongo_null_holds(1) [OF assms(1)] mongo_null_holds(2)
          field_holds_def literal_equal_simps(1) [OF assms(1)])
  next
    case l: False
    show ?thesis
    proof (cases "op = OpEQ \<and> means_day f l")
      case True
      then have "mongo_eq_other f path (ElemLiteral l) = Inr [g]"
        using OperandLiteral l assms(4) by (auto simp: mongo_comparison_operator_def mongo_direct_def means_day_def)
      moreover have "\<not> marked_simple f (ElemLiteral l)" "\<not> is_null_element (ElemLiteral l)"
        using True l by (cases l; auto simp: means_day_def is_null_element_def is_date_only_literal_def)+
      ultimately show ?thesis
        using eq_other_holds [where doc = doc and path = path, OF assms(1,2), of "ElemLiteral l" "[g]"] OperandLiteral l assms(3) True
        by (simp add: field_holds_def)
    next
      case False
      then have "mongo_constraint_ok f (ComparisonConstraint op l)"
        using l assms(3) by (auto simp: OperandLiteral mongo_constraint_ok_def)
      from mongo_constraint_holds [OF assms(1) this, of ?x] False l assms(4) show ?thesis
        by (auto simp: OperandLiteral mongo_comparison_operator_def mongo_direct_def means_day_def field_holds_def
            constraint_holds_def split: if_splits)
    qed
  qed
next
  case (OperandRange r)
  then have "op = OpEQ \<or> op = OpNEQ" "range_ok r" "g = mongo_range path op r"
    using assms(3,4) by (auto simp: mongo_comparison_operator_def)
  then show ?thesis
    using mongo_range_holds [OF assms(1), of r doc path]
    by (cases "field_value (doc path) = None")
      (auto simp: OperandRange mongo_range_def field_holds_def mongo_null_holds(1) [OF assms(1)] range_holds_def)
next
  case (OperandSet vs)
  note facts = assms(3,4) [unfolded OperandSet]
  consider "op = OpEQ" "mongo_eq_set f path (elements vs) = Inr g" | "op = OpNEQ" "mongo_neq_set f path (elements vs) = Inr g"
    using facts by (auto simp: mongo_comparison_operator_def)
  then show ?thesis
  proof cases
    case 1
    with facts show ?thesis
      using mongo_eq_set_holds [where doc = doc and path = path, OF assms(1,2) _ _ 1(2)] by (simp add: OperandSet field_holds_def)
  next
    case 2
    with facts show ?thesis
      using mongo_neq_set_holds [where doc = doc and path = path, OF assms(1,2) _ _ 2(2)] by (simp add: OperandSet field_holds_def)
  qed
qed

abbreviation document_row :: "'v stored_document \<Rightarrow> bound_field \<Rightarrow> 'v option" where
  "document_row doc \<equiv> \<lambda>f. field_value (doc (full_path (bf_path f)))"

lemma mongo_expression_holds:
  assumes "lawful_database db"
  shows "lawful_row db (document_row doc) e \<Longrightarrow> mongo_supported db (document_row doc) e \<Longrightarrow> mongo_expression e = Inr g \<Longrightarrow>
    filter_holds db doc g \<longleftrightarrow> holds db (document_row doc) e"
proof (induction e arbitrary: g)
  case (BoundField f op v)
  show ?case
  proof (cases op)
    case (StringOp s)
    with BoundField show ?thesis
      using mongo_string_holds [OF assms, of f s v doc "full_path (bf_path f)"]
      by (auto simp: mongo_field_expression_def Let_def field_holds_def)
  next
    case (Comparison c)
    with BoundField show ?thesis
      using mongo_comparison_holds [OF assms, of f doc "full_path (bf_path f)" c v g]
      by (simp add: mongo_field_expression_def Let_def)
  qed
qed (auto simp: bindE_Inr_iff split: if_splits)

end
