(* ===== verification/Mongo_Correctness.thy ===== *)
theory Mongo_Correctness
  imports Mongo_Selection
begin

text \<open>
  The property of the filters lowered for MongoDB, an example document, and the conditions that are lowered
  to something else.
\<close>

section \<open>An example document\<close>

definition sample_doc :: "nat stored_document" where
  "sample_doc = (\<lambda>path. if path = ''id'' then Some (Some 5) else if path = ''created'' then Some (Some 20260105)
     else if path = ''age'' then Some (Some 70) else None)"

lemma plain_path: "full_path (bf_path (plain_field n t)) = n"
  by (simp add: plain_field_def bound_field_of_def full_path_def segments_def)

lemma sample_doc_values:
  "field_value (sample_doc ''id'') = Some 5" "field_value (sample_doc ''created'') = Some 20260105"
  "field_value (sample_doc ''age'') = Some 70"
  by (simp_all add: sample_doc_def field_value_def)

lemma sample_doc_row:
  "lawful_row sample_database (document_row sample_doc) sample_condition"
  "mongo_supported sample_database (document_row sample_doc) sample_condition"
  "holds sample_database (document_row sample_doc) sample_condition"
  by (simp_all add: lawful_row_def sample_meaning plain_path sample_doc_values dated_def valid_day_def days_in_month_def)

lemma mongo_sample_lowered: "\<exists>g. mongo_expression sample_condition = Inr g"
proof -
  have "\<not> isl (mongo_expression sample_condition)" by code_simp
  then show ?thesis by (metis isl_def sum.collapse(2))
qed

section \<open>Properties\<close>



section \<open>Where the filter and the documentation differ\<close>

text \<open>
  Of two constraints with the same operator in one compound constraint only the last one is sent: the dict
  over the operators has one entry for both.
\<close>

lemma repeated_operator_lost:
  "mongo_eq_other f path (ElemCompound
     [ComparisonConstraint OpGT (IntegerLiteral 10), ComparisonConstraint OpGT (IntegerLiteral 5)]) =
   Inr [MfTests path [MtCompare OpGT (MvInt 5)]]"
  by (simp add: operator_dict_def)

text \<open>
  A \<open>!=\<close> set of a range does not find a document without the field, although the comment in the code counts on
  \<open>$ne\<close> and \<open>$nin\<close>, which do; a direct range and a set of values do find it.
\<close>

lemma range_set_misses_missing:
  assumes "doc ''age'' = None"
  shows "\<exists>g. mongo_comparison_operator f ''age'' OpNEQ (OperandSet (ValueSet
      [ElemRange (Range (IntegerLiteral 1) (IntegerLiteral 5) True)])) = Inr g \<and> \<not> filter_holds sample_database doc g"
    and "\<exists>g. mongo_comparison_operator f ''age'' OpNEQ (OperandRange (Range (IntegerLiteral 1) (IntegerLiteral 5) True)) = Inr g \<and>
      filter_holds sample_database doc g"
    and "\<exists>g. mongo_comparison_operator f ''age'' OpNEQ (OperandSet (ValueSet
      [ElemLiteral (IntegerLiteral 1), ElemLiteral (IntegerLiteral 5)])) = Inr g \<and> filter_holds sample_database doc g"
  using assms
  by (simp_all add: mongo_comparison_operator_def mongo_neq_set_def marked_others_def simple_literals_def set_literals_def
      non_null_def has_null_def is_null_element_def mongo_outside_def mongo_nin_def mongo_range_def field_value_def
      mongo_compares_def sample_database_def)

text \<open>The last line end of a text is not seen by \<open>$\<close>: ENDS finds a text that ends otherwise.\<close>

lemma ends_before_line_end:
  "pattern_matches (pattern_of [] (ElemLiteral (StringLiteral ''b'')) ''$'') (''ab'' @ [CHR 0x0A])"
  by code_simp

text \<open>
  A value for a nested field is stored under the key with the dots, while conditions, sorts and projections
  on the same path look into the nested document.
\<close>

lemma nested_create_flattened:
  "map fst (mongo_document [BoundAssignment
     (bound_field_of (FieldPath ''address'' [''city'']) (sample_field ''address'' TJSON True)) (StringLiteral ''Rome'')]) = [''address.city'']"
  by code_simp

end
