(* ===== verification/Lowering_Safety.thy ===== *)
theory Lowering_Safety
  imports Marked_Lowering Postgres_Statements
begin

text \<open>
  No value of a query ever reaches the text of a lowered statement, for PostgreSQL, SQLite and MySQL: two
  queries that differ only in the values of their literals are lowered to the same texts, with as many
  parameters. The proof relates two runs of the text writers (\<open>same_text\<close>), which sequencing, branching
  and loops preserve.
\<close>

section \<open>Queries without their values\<close>

text \<open>Strings, numbers and truth values are blanked; dates, keywords and NULL are kept, as the texts differ for them.\<close>

fun mask_literal :: "literal \<Rightarrow> literal" where
  "mask_literal (StringLiteral s) = StringLiteral []"
| "mask_literal (IntegerLiteral n) = IntegerLiteral 0"
| "mask_literal (FloatLiteral x) = FloatLiteral (PFin 0 0)"
| "mask_literal (BooleanLiteral b) = BooleanLiteral False"
| "mask_literal l = l"

fun mask_range :: "lit_range \<Rightarrow> lit_range" where
  "mask_range (Range a b i) = Range (mask_literal a) (mask_literal b) i"

fun mask_constraint :: "comparison_constraint \<Rightarrow> comparison_constraint" where
  "mask_constraint (ComparisonConstraint op l) = ComparisonConstraint op (mask_literal l)"

fun mask_element :: "value_set_element \<Rightarrow> value_set_element" where
  "mask_element (ElemLiteral l) = ElemLiteral (mask_literal l)"
| "mask_element (ElemRange r) = ElemRange (mask_range r)"
| "mask_element (ElemConstraint c) = ElemConstraint (mask_constraint c)"
| "mask_element (ElemCompound cs) = ElemCompound (map mask_constraint cs)"

fun mask_operand :: "operand \<Rightarrow> operand" where
  "mask_operand (OperandLiteral l) = OperandLiteral (mask_literal l)"
| "mask_operand (OperandRange r) = OperandRange (mask_range r)"
| "mask_operand (OperandSet vs) = OperandSet (ValueSet (map mask_element (elements vs)))"

fun mask_expression :: "bound_expression \<Rightarrow> bound_expression" where
  "mask_expression (BoundField f op v) = BoundField f op (mask_operand v)"
| "mask_expression (BoundLogical op l r) = BoundLogical op (mask_expression l) (mask_expression r)"
| "mask_expression (BoundNegation e) = BoundNegation (mask_expression e)"

fun mask_assignment :: "bound_assignment \<Rightarrow> bound_assignment" where
  "mask_assignment (BoundAssignment f l) = BoundAssignment f (mask_literal l)"

fun mask_record :: "bound_record \<Rightarrow> bound_record" where
  "mask_record (BoundRecord as) = BoundRecord (map mask_assignment as)"

definition mask_ir :: "bound_ir \<Rightarrow> bound_ir" where
  "mask_ir b = b \<lparr>b_where := map_option mask_expression (b_where b),
     b_assignments := map mask_assignment (b_assignments b), b_records := map mask_record (b_records b)\<rparr>"

section \<open>The interface: a lowerer that writes no values\<close>

definition query_shape :: "physical_query \<Rightarrow> string \<times> string \<times> nat" where
  "query_shape q = (pq_dialect q, pq_query q, length (pq_parameters q))"

definition statement_shape :: "query_error + physical_result \<Rightarrow> query_error + (string \<times> string \<times> nat) list" where
  "statement_shape r = map_sum id (map query_shape \<circ> queries_of) r"

locale value_free_lowerer =
  fixes low :: "bound_ir \<Rightarrow> query_error + physical_result"
  assumes masked: "statement_shape (low (mask_ir b)) = statement_shape (low b)"
begin

lemma same_shape: "mask_ir b = mask_ir b' \<Longrightarrow> statement_shape (low b) = statement_shape (low b')"
  by (metis masked)

lemma same_failure: "mask_ir b = mask_ir b' \<Longrightarrow> low b = Inl e \<Longrightarrow> low b' = Inl e"
  using same_shape [of b b'] by (cases "low b'") (simp_all add: statement_shape_def)

end

section \<open>Writers that agree\<close>

definition same_text :: "'a emitter \<Rightarrow> 'a emitter \<Rightarrow> bool" where
  "same_text m m' \<longleftrightarrow>
     (\<forall>ps ps'. length ps = length ps' \<longrightarrow>
       rel_sum (=) (\<lambda>(x, qs) (y, qs'). x = y \<and> length qs = length qs') (m ps) (m' ps'))"

named_theorems agreement

lemma same_return [agreement]: "same_text (emit_return x) (emit_return x)"
  by (simp add: same_text_def emit_return_def)

lemma same_raise [agreement]: "same_text (emit_raise e) (emit_raise e)"
  by (simp add: same_text_def emit_raise_def)

lemma same_param [agreement]: "same_text (add_param v) (add_param w)" "same_text (add_mark d v) (add_mark d w)"
  by (simp_all add: same_text_def add_param_def add_mark_def)

lemma same_bind [agreement]:
  assumes "same_text m m'" "\<And>x. same_text (f x) (f' x)"
  shows "same_text (emit_bind m f) (emit_bind m' f')"
  unfolding same_text_def
proof (intro allI impI)
  fix ps ps' :: "sql_param list" assume "length ps = length ps'"
  then have "rel_sum (=) (\<lambda>(x, qs) (y, qs'). x = y \<and> length qs = length qs') (m ps) (m' ps')"
    using assms(1) by (simp add: same_text_def)
  then show "rel_sum (=) (\<lambda>(x, qs) (y, qs'). x = y \<and> length qs = length qs') (emit_bind m f ps) (emit_bind m' f' ps')"
    using assms(2) by (cases "m ps"; cases "m' ps'") (auto simp: emit_bind_def same_text_def)
qed

lemma same_if [agreement]:
  "(P \<Longrightarrow> same_text a a') \<Longrightarrow> (\<not> P \<Longrightarrow> same_text b b') \<Longrightarrow> same_text (if P then a else b) (if P then a' else b')"
  by simp

lemma same_map:
  assumes "\<And>x. x \<in> set xs \<Longrightarrow> same_text (f (h x)) (g x)"
  shows "same_text (emit_map f (map h xs)) (emit_map g xs)"
  using assms by (induction xs) (auto intro!: agreement)

lemma same_day [agreement]: "same_text (lower_day col s) (lower_day col s)"
  "same_text (marked_day d col a w b s) (marked_day d col a w b s)"
  by (auto simp: lower_day_def marked_day_def intro!: agreement split: sum.split)

section \<open>What masking keeps\<close>

lemma mask_literal_simps [simp]:
  "mask_literal l = NullLiteral \<longleftrightarrow> l = NullLiteral" "is_date_only_literal (mask_literal l) = is_date_only_literal l"
  "date_only_text (mask_literal l) = date_only_text l"
  by (cases l; simp add: is_date_only_literal_def date_only_text_def)+

lemma mask_sel [simp]:
  "r_start (mask_range r) = mask_literal (r_start r)" "r_end (mask_range r) = mask_literal (r_end r)"
  "c_operator (mask_constraint c) = c_operator c" "c_value (mask_constraint c) = mask_literal (c_value c)"
  "ba_field (mask_assignment a) = ba_field a" "ba_value (mask_assignment a) = mask_literal (ba_value a)"
  "br_assignments (mask_record rc) = map mask_assignment (br_assignments rc)"
  by (cases r; cases c; cases a; cases rc; simp)+

lemma mask_element_simps [simp]:
  "is_null_element (mask_element el) = is_null_element el" "is_simple_element (mask_element el) = is_simple_element el"
  "is_date_only_element (mask_element el) = is_date_only_element el" "marked_simple f (mask_element el) = marked_simple f el"
proof -
  have lit: "is_null_element (ElemLiteral (mask_literal l)) = is_null_element (ElemLiteral l)"
    "is_simple_element (ElemLiteral (mask_literal l)) = is_simple_element (ElemLiteral l)"
    "marked_simple f (ElemLiteral (mask_literal l)) = marked_simple f (ElemLiteral l)" for l
    by (cases l; simp add: is_null_element_def)+
  show "is_null_element (mask_element el) = is_null_element el" "is_simple_element (mask_element el) = is_simple_element el"
    "is_date_only_element (mask_element el) = is_date_only_element el" "marked_simple f (mask_element el) = marked_simple f el"
    using lit by (cases el; simp add: is_null_element_def)+
qed

lemma mask_elements [simp]:
  "non_null (map mask_element els) = map mask_element (non_null els)" "has_null (map mask_element els) = has_null els"
  "set_literals (map mask_element els) = map mask_literal (set_literals els)"
  "simple_set f (map mask_element els) = simple_set f els"
  "marked_others f (map mask_element els) = map mask_element (marked_others f els)"
  by (simp_all add: non_null_def has_null_def set_literals_def simple_set_def marked_others_def filter_map comp_def
      map_concat list_all_iff) (induction els; auto split: value_set_element.split)

lemma mask_simple [simp]: "simple_literals f (map mask_element els) = map mask_literal (simple_literals f els)"
  by (simp add: simple_literals_def filter_map comp_def)

section \<open>PostgreSQL\<close>

lemma same_value: "mask_literal l = mask_literal k \<Longrightarrow> same_text (lower_literal l) (lower_literal k)"
  by (cases l; cases k) (auto simp: lower_literal_def intro!: agreement)

lemma mask_mask [simp]: "mask_literal (mask_literal l) = mask_literal l"
  by (cases l) simp_all

lemma same_literal [agreement]: "same_text (lower_literal (mask_literal l)) (lower_literal l)"
  by (rule same_value) simp

lemma same_between [agreement]: "same_text (lower_between col (mask_range r)) (lower_between col r)"
  by (auto simp: lower_between_def intro!: agreement)

lemma same_like [agreement]: "same_text (lower_like col word v) (lower_like col word w)"
  by (auto simp: lower_like_def intro!: agreement)

lemma same_comparison [agreement]:
  "same_text (lower_comparison col op (mask_literal l)) (lower_comparison col op l)"
  "same_text (lower_not_equal col (mask_literal l)) (lower_not_equal col l)"
  by (auto simp: lower_comparison_def lower_not_equal_def intro!: agreement)

lemma same_has_element [agreement]:
  "same_text (lower_has_element col (mask_element el)) (lower_has_element col el)"
  "same_text (lower_not_has_element col (mask_element el)) (lower_not_has_element col el)"
  by (cases el; auto simp: lower_has_element_def lower_not_has_element_def intro!: agreement)+

lemma same_has_set [agreement]:
  "same_text (lower_has_set col (map mask_element els)) (lower_has_set col els)"
  "same_text (lower_not_has_set col (map mask_element els)) (lower_not_has_set col els)"
  unfolding lower_has_set_def lower_not_has_set_def non_null_def [symmetric] has_null_def [symmetric] mask_elements
  by (intro agreement same_map)+

lemma same_string: "same_text (lower_string_operator col op (mask_operand v)) (lower_string_operator col op v)"
  by (cases v; cases op) (auto simp: lower_string_operator_def Let_def intro!: agreement)

lemma same_eq_element: "same_text (lower_eq_element f col (mask_element el)) (lower_eq_element f col el)"
proof (cases el)
  case (ElemLiteral l)
  show ?thesis by (cases l) (auto simp: ElemLiteral lower_eq_literal_def is_date_only_literal_def lower_comparison_def intro!: agreement same_value)
next
  case (ElemCompound cs)
  then show ?thesis by (auto simp: lower_compound_def intro!: agreement same_map)
qed (auto simp: lower_eq_constraint_def intro!: agreement)

lemma same_neq_element: "same_text (lower_neq_element col (mask_element el)) (lower_neq_element col el)"
  by (cases el) (auto intro!: agreement)

lemma hd_literals: "length (non_null els) = 1 \<Longrightarrow> simple_set f (non_null els) \<Longrightarrow>
  hd (map mask_literal (set_literals (non_null els))) = mask_literal (hd (set_literals (non_null els)))"
  using set_literals_simple [of "non_null els"] by (cases "set_literals (non_null els)") (auto simp: simple_set_def)

lemma same_sets:
  "same_text (lower_eq_set f col (map mask_element els)) (lower_eq_set f col els)"
  "same_text (lower_neq_set f col (map mask_element els)) (lower_neq_set f col els)"
  unfolding lower_eq_set_def lower_neq_set_def Let_def non_null_def [symmetric] has_null_def [symmetric]
    mask_elements length_map
  by (intro same_if same_bind same_map same_return same_literal same_eq_element same_neq_element; simp add: hd_literals [of els f] agreement)+

lemma same_direct: "same_text (lower_direct_literal f col op (mask_literal l)) (lower_direct_literal f col op l)"
  by (cases l) (auto simp: lower_direct_literal_def is_date_only_literal_def lower_comparison_def lower_not_equal_def intro!: agreement same_value)

lemma same_expression: "same_text (lower_expression (mask_expression e)) (lower_expression e)"
proof (induction e)
  case (BoundField f op v)
  have "same_text (lower_comparison_operator f col c (mask_operand v)) (lower_comparison_operator f col c v)" for col c
    by (cases v) (auto simp: lower_comparison_operator_def intro!: agreement same_direct same_sets)
  then show ?case by (cases op) (simp_all add: lower_field_expression_def Let_def same_string)
qed (auto intro!: agreement)

section \<open>SQLite and MySQL\<close>

lemma same_marked_value: "mask_literal l = mask_literal k \<Longrightarrow> same_text (marked_literal d l) (marked_literal d k)"
  by (cases l; cases k) (auto simp: marked_literal_def intro!: agreement)

lemma same_marked_literal [agreement]: "same_text (marked_literal d (mask_literal l)) (marked_literal d l)"
  by (rule same_marked_value) simp

lemma same_marked_parts [agreement]:
  "same_text (marked_between d col (mask_range r)) (marked_between d col r)"
  "same_text (marked_like d col word v) (marked_like d col word w)"
  "same_text (marked_comparison d col op (mask_literal l)) (marked_comparison d col op l)"
  by (auto simp: marked_between_def marked_like_def marked_comparison_def intro!: agreement)

lemma same_marked_element [agreement]:
  "same_text (marked_has_element d col (mask_element el)) (marked_has_element d col el)"
  "same_text (marked_not_has_element d col (mask_element el)) (marked_not_has_element d col el)"
  by (cases el; auto simp: marked_has_element_def marked_not_has_element_def intro!: agreement)+

lemma same_marked_string: "same_text (marked_string_operator d col op (mask_operand v)) (marked_string_operator d col op v)"
proof -
  have "same_text (marked_has_set d col (map mask_element els)) (marked_has_set d col els)"
    "same_text (marked_not_has_set d col (map mask_element els)) (marked_not_has_set d col els)" for els
    unfolding marked_has_set_def marked_not_has_set_def mask_elements by (intro agreement same_map)+
  then show ?thesis by (cases v; cases op) (auto simp: marked_string_operator_def Let_def intro!: agreement)
qed

lemma same_marked_other:
  "same_text (marked_eq_other d f col (mask_element el)) (marked_eq_other d f col el)"
  "same_text (marked_neq_other d f col (mask_element el)) (marked_neq_other d f col el)"
  by (cases el; auto intro!: agreement same_map)+

lemma same_marked_in: "same_text (marked_in d f col word (map mask_element els)) (marked_in d f col word els)"
  unfolding marked_in_def Let_def mask_simple map_is_Nil_conv
  by (intro same_if same_bind same_map same_param same_return)

lemma same_marked_sets:
  "same_text (marked_eq_set d f col (map mask_element els)) (marked_eq_set d f col els)"
  "same_text (marked_neq_set d f col (map mask_element els)) (marked_neq_set d f col els)"
  unfolding marked_eq_set_def marked_neq_set_def Let_def mask_elements
  by (intro same_bind same_map same_return same_marked_in same_marked_other)+

lemma same_marked_direct: "same_text (marked_direct d f col op (mask_literal l)) (marked_direct d f col op l)"
  unfolding marked_direct_def mask_literal_simps by (intro agreement)

lemma same_marked_expression: "same_text (marked_expression d (mask_expression e)) (marked_expression d e)"
proof (induction e)
  case (BoundField f op v)
  have "same_text (marked_comparison_operator d f col c (mask_operand v)) (marked_comparison_operator d f col c v)" for col c
    by (cases v) (auto simp: marked_comparison_operator_def intro!: agreement same_marked_direct same_marked_sets)
  then show ?case by (cases op) (simp_all add: marked_field_expression_def Let_def same_marked_string)
qed (auto intro!: agreement)

section \<open>Statements\<close>

lemma mask_columns [simp]: "record_columns (mask_record r) = record_columns r"
  by (simp add: record_columns_def comp_def)

lemma mask_groups: "group_records (map mask_record rs) = map (map mask_record) (group_records rs)"
proof (induction rs rule: rev_induct)
  case (snoc r rs)
  show ?case
  proof (cases "group_records rs" rule: rev_cases)
    case (snoc hs g)
    then have "g \<noteq> []" using group_records_invariant [of rs] by (simp add: uniform_nonempty)
    with snoc \<open>group_records (map mask_record rs) = _\<close> show ?thesis
      by (simp add: group_records_snoc add_to_groups_def list.map_sel)
  qed (use snoc in \<open>simp add: group_records_snoc add_to_groups_def\<close>)
qed (simp add: group_records_def)

lemma mask_ir_sel [simp]:
  "b_operation (mask_ir b) = b_operation b" "b_entity (mask_ir b) = b_entity b" "b_sort (mask_ir b) = b_sort b"
  "b_where (mask_ir b) = map_option mask_expression (b_where b)" "b_ranking (mask_ir b) = b_ranking b"
  "b_assignments (mask_ir b) = map mask_assignment (b_assignments b)" "b_projection (mask_ir b) = b_projection b"
  "b_is_wildcard_projection (mask_ir b) = b_is_wildcard_projection b" "b_offset (mask_ir b) = b_offset b"
  "b_limit (mask_ir b) = b_limit b" "create_records (mask_ir b) = map mask_record (create_records b)"
  by (simp_all add: mask_ir_def create_records_def b_is_wildcard_projection_def)

lemma mask_clauses [simp]:
  "select_clause (mask_ir b) = select_clause b" "order_by_items (mask_ir b) = order_by_items b"
  "limit_value (mask_ir b) = limit_value b" "marked_select_clause d (mask_ir b) = marked_select_clause d b"
  "marked_order_by d (mask_ir b) = marked_order_by d b"
  by (simp_all add: select_clause_def order_by_items_def limit_value_def marked_select_clause_def marked_order_by_def split: option.split)

lemma same_rows [agreement]:
  "same_text (lower_row (mask_record r)) (lower_row r)" "same_text (marked_row d (mask_record r)) (marked_row d r)"
  "same_text (lower_set_item (mask_assignment a)) (lower_set_item a)"
  "same_text (marked_set_item d (mask_assignment a)) (marked_set_item d a)"
  unfolding lower_row_def marked_row_def lower_set_item_def marked_set_item_def mask_sel
  by (auto intro!: agreement same_map)

lemma same_where [agreement]:
  "same_text (lower_where (map_option mask_expression w)) (lower_where w)"
  "same_text (marked_where d (map_option mask_expression w)) (marked_where d w)"
  by (cases w; auto simp: lower_where_def marked_where_def intro!: agreement same_expression same_marked_expression)+

lemma same_statements:
  "g \<noteq> [] \<Longrightarrow> same_text (lower_insert table (map mask_record g)) (lower_insert table g)"
  "g \<noteq> [] \<Longrightarrow> same_text (marked_insert d table (map mask_record g)) (marked_insert d table g)"
  "same_text (lower_update (mask_ir b)) (lower_update b)" "same_text (lower_delete (mask_ir b)) (lower_delete b)"
  "same_text (marked_update d (mask_ir b)) (marked_update d b)" "same_text (marked_delete d (mask_ir b)) (marked_delete d b)"
  by (auto simp: lower_insert_def marked_insert_def lower_update_def lower_delete_def marked_update_def
      marked_delete_def list.map_sel intro!: agreement same_map)

lemma same_reads: "same_text (lower_read (mask_ir b)) (lower_read b)" "same_text (marked_read d (mask_ir b)) (marked_read d b)"
  by (cases "b_where b"; auto simp: lower_read_def marked_read_def intro!: agreement same_expression same_marked_expression)+

lemma same_query:
  assumes "same_text m m'"
  shows "map_sum id query_shape (make_query b m) = map_sum id query_shape (make_query b' m')"
    and "map_sum id query_shape (marked_query d b m) = map_sum id query_shape (marked_query d b' m')"
proof -
  have "rel_sum (=) (\<lambda>(x, qs) (y, qs'). x = y \<and> length qs = length qs') (m []) (m' [])"
    using assms by (simp add: same_text_def)
  then show "map_sum id query_shape (make_query b m) = map_sum id query_shape (make_query b' m')"
    "map_sum id query_shape (marked_query d b m) = map_sum id query_shape (marked_query d b' m')"
    by (cases "m []"; cases "m' []"; auto simp: make_query_def marked_query_def query_shape_def)+
qed

lemma same_queries:
  assumes "\<And>x. x \<in> set xs \<Longrightarrow> map_sum id s (f (h x)) = map_sum id s (g x)"
  shows "map_sum id (map s) (mapE f (map h xs)) = map_sum id (map s) (mapE g xs)"
  using assms
proof (induction xs)
  case (Cons x xs)
  have "map_sum id s (f (h x)) = map_sum id s (g x)" by (rule Cons.prems) simp
  moreover have "map_sum id (map s) (mapE f (map h xs)) = map_sum id (map s) (mapE g xs)"
    by (rule Cons.IH) (rule Cons.prems, simp)
  ultimately show ?case
    by (cases "f (h x)"; cases "g x"; cases "mapE f (map h xs)"; cases "mapE g xs") (auto simp: comp_def)
qed simp

text \<open>A statement of one query, and one of the queries that a CREATE makes.\<close>

lemma single_shape: "statement_shape (bindE r (\<lambda>q. Inr (SingleQuery q))) = map_sum id (\<lambda>q. [query_shape q]) r"
  by (cases r) (simp_all add: statement_shape_def)

lemma batch_shape:
  "statement_shape (bindE r (\<lambda>qs. Inr (if length qs = 1 then SingleQuery (hd qs)
     else QueryBatch \<lparr>pb_dialect = n, pb_queries = qs, pb_source_id = i, pb_source_name = m\<rparr>))) =
   map_sum id (map query_shape) r"
proof (cases r)
  case (Inr qs)
  then show ?thesis by (cases qs; cases "tl qs") (auto simp: statement_shape_def)
qed (simp add: statement_shape_def)

lemma single_same:
  "map_sum id query_shape r = map_sum id query_shape r' \<Longrightarrow>
   map_sum id (\<lambda>q. [query_shape q]) r = map_sum id (\<lambda>q. [query_shape q]) r'"
  by (cases r; cases r') auto

lemma groups_nonempty: "g \<in> set (group_records rs) \<Longrightarrow> g \<noteq> []"
  using group_records_invariant [of rs] by (auto simp: list_all_iff uniform_nonempty)

interpretation postgres: value_free_lowerer postgres_lower
proof
  fix b
  show "statement_shape (postgres_lower (mask_ir b)) = statement_shape (postgres_lower b)"
  proof (cases "b_operation b")
    case CREATE
    have "statement_shape (lower_create (mask_ir b)) = statement_shape (lower_create b)"
      unfolding lower_create_def batch_shape mask_ir_sel mask_groups
      by (intro same_queries same_query same_statements groups_nonempty)
    then show ?thesis by (simp add: postgres_lower_def CREATE)
  qed (simp_all add: postgres_lower_def single_shape; intro single_same same_query same_statements same_reads)+
qed

lemma marked_masked: "statement_shape (marked_lower d (mask_ir b)) = statement_shape (marked_lower d b)"
proof (cases "b_operation b")
  case CREATE
  have "statement_shape (marked_create d (mask_ir b)) = statement_shape (marked_create d b)"
    unfolding marked_create_def batch_shape mask_ir_sel mask_groups
    by (intro same_queries same_query same_statements groups_nonempty)
  then show ?thesis by (simp add: marked_lower_def CREATE)
qed (simp_all add: marked_lower_def single_shape; intro single_same same_query same_statements same_reads)+

interpretation sqlite: value_free_lowerer sqlite_lower
  by unfold_locales (simp add: sqlite_lower_def marked_masked)

interpretation mysql: value_free_lowerer mysql_lower
  by unfold_locales (simp add: mysql_lower_def marked_masked)

text \<open>
  C7. No value of a query gets into the text of its SQL: whatever strings, numbers and truth values two
  queries carry, if they are the same otherwise, then each of the lowerers for PostgreSQL, SQLite and
  MySQL fails on both with the same error, or writes the same texts for the same dialect with the same
  number of parameters. A value cannot end a literal, comment out a clause or add a statement.
\<close>

theorem text_independent_of_values:
  assumes "low \<in> {postgres_lower, sqlite_lower, mysql_lower}" "mask_ir b = mask_ir b'"
  shows "statement_shape (low b) = statement_shape (low b')"
  using assms(1)
proof (elim insertE emptyE)
  show "low = postgres_lower \<Longrightarrow> ?thesis" using postgres.same_shape [OF assms(2)] by simp
  show "low = sqlite_lower \<Longrightarrow> ?thesis" using sqlite.same_shape [OF assms(2)] by simp
  show "low = mysql_lower \<Longrightarrow> ?thesis" using mysql.same_shape [OF assms(2)] by simp
qed

text \<open>Two queries for a name, the second with an attempt to add a statement.\<close>

definition query_named :: "string \<Rightarrow> bound_ir" where
  "query_named s = sample_bound \<lparr>b_where := Some (BoundField
     (bound_field_of (FieldPath ''name'' []) (sample_field ''name'' TSTRING True)) (Comparison OpEQ)
     (OperandLiteral (StringLiteral s)))\<rparr>"

definition hostile_name :: string where
  "hostile_name = [CHR 0x27] @ ''; DROP TABLE users; --''"

lemma text_independent_of_values_witness:
  "statement_shape (mysql_lower (query_named hostile_name)) = statement_shape (mysql_lower (query_named ''Ada''))"
proof (rule text_independent_of_values)
  show "mysql_lower \<in> {postgres_lower, sqlite_lower, mysql_lower}" by simp
  show "mask_ir (query_named hostile_name) = mask_ir (query_named ''Ada'')" by (simp add: mask_ir_def query_named_def)
qed

end
