(* ===== verification/Logical_Resolution.thy ===== *)
theory Logical_Resolution
  imports Binding
begin

text \<open>
  From a query on a logical model to one on a physical source (\<open>binding/logical_resolver.py\<close>): the
  entity mapping is searched, the names of its field mappings and the aliases of the projection make a
  dictionary, and the first segment of every path is looked up in it.
\<close>

section \<open>Definitions\<close>

text \<open>The test of the search loop, on the names of one entity mapping.\<close>

definition entity_matches :: "string \<Rightarrow> entity_mapping \<Rightarrow> bool" where
  "entity_matches n em \<longleftrightarrow>
     (let target = rstrip_s (py_lower (py_strip n)); lower = py_lower n;
          log_name = py_lower (em_logical_name em); phys_name = py_lower (em_physical_name em);
          log_id = py_lower (em_logical_id em)
      in log_name = lower \<or> log_id = lower \<or> phys_name = lower \<or>
         (log_name \<noteq> [] \<and> rstrip_s log_name = target) \<or>
         (phys_name \<noteq> [] \<and> rstrip_s phys_name = target))"

definition add_mapping_keys :: "field_mapping \<Rightarrow> (string \<rightharpoonup> string) \<Rightarrow> (string \<rightharpoonup> string)" where
  "add_mapping_keys fm m =
     m(py_lower (fm_logical_name fm) \<mapsto> fm_physical_name fm,
       fm_logical_id fm \<mapsto> fm_physical_name fm,
       py_lower (fm_physical_name fm) \<mapsto> fm_physical_name fm,
       fm_physical_name fm \<mapsto> fm_physical_name fm)"

definition add_alias :: "field_selection \<Rightarrow> (string \<rightharpoonup> string) \<Rightarrow> (string \<rightharpoonup> string)" where
  "add_alias sel m =
     (case sel_alias sel of
        None \<Rightarrow> m
      | Some a \<Rightarrow>
          if a = [] then m
          else case m (py_lower (root (sel_path sel))) of
            None \<Rightarrow> m
          | Some c \<Rightarrow> m(py_lower a \<mapsto> c))"

definition field_map :: "entity_mapping \<Rightarrow> field_selection list \<Rightarrow> (string \<rightharpoonup> string)" where
  "field_map em sels = fold add_alias sels (fold add_mapping_keys (em_fields em) (\<lambda>_. None))"

definition resolve_path :: "(string \<rightharpoonup> string) \<Rightarrow> field_path \<Rightarrow> field_path" where
  "resolve_path m fp =
     (case m (py_lower (root fp)) of
        Some c \<Rightarrow> FieldPath c (nested fp)
      | None \<Rightarrow>
          (case m (root fp) of
             Some c \<Rightarrow> FieldPath c (nested fp)
           | None \<Rightarrow> fp))"

fun resolve_expression :: "(string \<rightharpoonup> string) \<Rightarrow> expression \<Rightarrow> expression" where
  "resolve_expression m (FieldExpression fp op v) = FieldExpression (resolve_path m fp) op v"
| "resolve_expression m (LogicalExpression op l r) =
     LogicalExpression op (resolve_expression m l) (resolve_expression m r)"
| "resolve_expression m (NegationExpression e) = NegationExpression (resolve_expression m e)"

definition resolve_selection :: "(string \<rightharpoonup> string) \<Rightarrow> field_selection \<Rightarrow> field_selection" where
  "resolve_selection m sel =
     (let fp = resolve_path m (sel_path sel) in
      FieldSelection fp
        (if sel_alias sel = None \<and> leaf fp \<noteq> leaf (sel_path sel)
         then Some (leaf (sel_path sel)) else sel_alias sel))"

definition resolve_assignment :: "(string \<rightharpoonup> string) \<Rightarrow> mutation_assignment \<Rightarrow> mutation_assignment" where
  "resolve_assignment m a = MutationAssignment (resolve_path m (ma_field a)) (ma_value a)"

definition resolve_record :: "(string \<rightharpoonup> string) \<Rightarrow> create_record \<Rightarrow> create_record" where
  "resolve_record m r = CreateRecord (map (resolve_assignment m) (cr_assignments r))"

definition resolve_sort :: "(string \<rightharpoonup> string) \<Rightarrow> sort_clause \<Rightarrow> sort_clause" where
  "resolve_sort m s = SortClause (resolve_path m (sc_field s)) (sc_direction s)"

definition resolve_ranking :: "(string \<rightharpoonup> string) \<Rightarrow> ranking_clause \<Rightarrow> ranking_clause" where
  "resolve_ranking m r = RankingClause (rc_direction r) (rc_count r) (resolve_path m (rc_field r))"

definition resolve_logical_ir :: "query_ir \<Rightarrow> source_mapping \<Rightarrow> query_error + query_ir" where
  "resolve_logical_ir ir sm =
     (case find (entity_matches (entity ir)) (sm_entities sm) of
        None \<Rightarrow> Inl (LogicalEntityNotFoundError (entity ir) (sm_model_id sm))
      | Some em \<Rightarrow>
          (let m = field_map em (projection ir) in
           Inr \<lparr>operation = operation ir, entity = em_physical_name em,
                projection = map (resolve_selection m) (projection ir),
                where_clause = map_option (resolve_expression m) (where_clause ir),
                assignments = map (resolve_assignment m) (assignments ir),
                records = map (resolve_record m) (records ir),
                sort_clauses = map (resolve_sort m) (sort_clauses ir),
                ranking = map_option (resolve_ranking m) (ranking ir),
                limit = limit ir, offset = offset ir\<rparr>))"

section \<open>The dictionary of names\<close>

definition physical_names :: "entity_mapping \<Rightarrow> string set" where
  "physical_names em = fm_physical_name ` set (em_fields em)"

text \<open>The keys that a field mapping answers to.\<close>

definition field_keys :: "entity_mapping \<Rightarrow> string set" where
  "field_keys em = (\<Union>fm \<in> set (em_fields em).
     {py_lower (fm_logical_name fm), fm_logical_id fm, py_lower (fm_physical_name fm), fm_physical_name fm})"

lemma ran_add_mapping_keys: "ran (add_mapping_keys fm m) \<subseteq> insert (fm_physical_name fm) (ran m)"
  by (auto simp: add_mapping_keys_def ran_def split: if_splits)

lemma ran_fold_field_mappings: "ran (fold add_mapping_keys fms m) \<subseteq> fm_physical_name ` set fms \<union> ran m"
proof (induction fms arbitrary: m)
  case (Cons fm fms)
  from Cons.IH [of "add_mapping_keys fm m"] ran_add_mapping_keys [of fm m] show ?case by auto
qed simp

lemma ran_add_alias: "ran (add_alias sel m) \<subseteq> ran m"
  by (auto simp: add_alias_def ran_def split: option.splits if_splits)

lemma ran_fold_aliases: "ran (fold add_alias sels m) \<subseteq> ran m"
proof (induction sels arbitrary: m)
  case (Cons sel sels)
  from Cons.IH [of "add_alias sel m"] ran_add_alias [of sel m] show ?case by auto
qed simp

lemma ran_field_map: "ran (field_map em sels) \<subseteq> physical_names em"
proof -
  have "ran (field_map em sels) \<subseteq> ran (fold add_mapping_keys (em_fields em) (\<lambda>_. None))"
    unfolding field_map_def by (rule ran_fold_aliases)
  also have "\<dots> \<subseteq> physical_names em"
    using ran_fold_field_mappings [of "em_fields em" "\<lambda>_. None"] by (simp add: physical_names_def)
  finally show ?thesis .
qed

lemma dom_fold_field_mappings:
  "dom (fold add_mapping_keys fms m) =
     (\<Union>fm \<in> set fms. {py_lower (fm_logical_name fm), fm_logical_id fm,
        py_lower (fm_physical_name fm), fm_physical_name fm}) \<union> dom m"
proof (induction fms arbitrary: m)
  case (Cons fm fms)
  show ?case using Cons.IH [of "add_mapping_keys fm m"] by (auto simp: add_mapping_keys_def)
qed simp

lemma dom_add_alias: "dom m \<subseteq> dom (add_alias sel m)"
  by (auto simp: add_alias_def split: option.split)

lemma dom_fold_aliases: "dom m \<subseteq> dom (fold add_alias sels m)"
proof (induction sels arbitrary: m)
  case (Cons sel sels)
  from Cons.IH [of "add_alias sel m"] dom_add_alias [of m sel] show ?case by auto
qed simp

lemma field_keys_mapped: "field_keys em \<subseteq> dom (field_map em sels)"
proof -
  have "field_keys em = dom (fold add_mapping_keys (em_fields em) (\<lambda>_. None))"
    by (simp add: field_keys_def dom_fold_field_mappings)
  then show ?thesis unfolding field_map_def using dom_fold_aliases by metis
qed

lemma resolve_path_cases:
  "(root (resolve_path m fp) \<in> ran m \<and> nested (resolve_path m fp) = nested fp) \<or>
   (resolve_path m fp = fp \<and> m (py_lower (root fp)) = None \<and> m (root fp) = None)"
  by (auto simp: resolve_path_def ran_def split: option.split)

section \<open>Properties\<close>

fun expression_paths :: "expression \<Rightarrow> field_path list" where
  "expression_paths (FieldExpression fp op v) = [fp]"
| "expression_paths (LogicalExpression op l r) = expression_paths l @ expression_paths r"
| "expression_paths (NegationExpression e) = expression_paths e"

text \<open>Every path of a query, in the order of its clauses.\<close>

definition ir_paths :: "query_ir \<Rightarrow> field_path list" where
  "ir_paths ir =
     map sel_path (projection ir) @ (case where_clause ir of None \<Rightarrow> [] | Some e \<Rightarrow> expression_paths e) @
     map ma_field (assignments ir) @ map ma_field (concat (map cr_assignments (records ir))) @
     map sc_field (sort_clauses ir) @ (case ranking ir of None \<Rightarrow> [] | Some r \<Rightarrow> [rc_field r])"

lemma expression_paths_resolve:
  "expression_paths (resolve_expression m e) = map (resolve_path m) (expression_paths e)"
  by (induction e) simp_all

lemma concat_records_resolve:
  "map ma_field (concat (map cr_assignments (map (resolve_record m) rs))) =
     map (resolve_path m) (map ma_field (concat (map cr_assignments rs)))"
  by (induction rs) (simp_all add: resolve_record_def resolve_assignment_def comp_def)

lemma resolve_logical_ir_cases:
  assumes "resolve_logical_ir ir sm = Inr r"
  obtains em m where "find (entity_matches (entity ir)) (sm_entities sm) = Some em"
    "m = field_map em (projection ir)"
    "r = \<lparr>operation = operation ir, entity = em_physical_name em,
          projection = map (resolve_selection m) (projection ir),
          where_clause = map_option (resolve_expression m) (where_clause ir),
          assignments = map (resolve_assignment m) (assignments ir),
          records = map (resolve_record m) (records ir),
          sort_clauses = map (resolve_sort m) (sort_clauses ir),
          ranking = map_option (resolve_ranking m) (ranking ir),
          limit = limit ir, offset = offset ir\<rparr>"
    "ir_paths r = map (resolve_path m) (ir_paths ir)"
proof -
  obtain em where em: "find (entity_matches (entity ir)) (sm_entities sm) = Some em"
    using assms by (auto simp: resolve_logical_ir_def split: option.splits)
  let ?m = "field_map em (projection ir)"
  have r: "r = \<lparr>operation = operation ir, entity = em_physical_name em,
          projection = map (resolve_selection ?m) (projection ir),
          where_clause = map_option (resolve_expression ?m) (where_clause ir),
          assignments = map (resolve_assignment ?m) (assignments ir),
          records = map (resolve_record ?m) (records ir),
          sort_clauses = map (resolve_sort ?m) (sort_clauses ir),
          ranking = map_option (resolve_ranking ?m) (ranking ir),
          limit = limit ir, offset = offset ir\<rparr>"
    using assms em by (simp add: resolve_logical_ir_def Let_def)
  have "ir_paths r = map (resolve_path ?m) (ir_paths ir)"
    unfolding r ir_paths_def
    by (cases "where_clause ir"; cases "ranking ir")
      (simp_all add: comp_def resolve_selection_def Let_def resolve_assignment_def resolve_sort_def
        resolve_ranking_def expression_paths_resolve concat_records_resolve [unfolded map_map comp_def])
  with em r show thesis by (rule that [OF _ refl])
qed

text \<open>
  What a name means, without the dictionary: the column of the last field mapping that answers to it, in lower
  case first and then as it is written.
\<close>

definition answers_to :: "field_mapping \<Rightarrow> string set" where
  "answers_to fm = {py_lower (fm_logical_name fm), fm_logical_id fm, py_lower (fm_physical_name fm), fm_physical_name fm}"

definition mapped_column :: "entity_mapping \<Rightarrow> string \<Rightarrow> string option" where
  "mapped_column em k = map_option fm_physical_name (find (\<lambda>fm. k \<in> answers_to fm) (rev (em_fields em)))"

definition logical_column :: "entity_mapping \<Rightarrow> string \<Rightarrow> string option" where
  "logical_column em n = (case mapped_column em (py_lower n) of Some c \<Rightarrow> Some c | None \<Rightarrow> mapped_column em n)"

definition physical_path :: "entity_mapping \<Rightarrow> field_path \<Rightarrow> field_path" where
  "physical_path em fp = (case logical_column em (root fp) of Some c \<Rightarrow> FieldPath c (nested fp) | None \<Rightarrow> fp)"

text \<open>The aliases of a projection, in lower case.\<close>

definition alias_keys :: "field_selection list \<Rightarrow> string list" where
  "alias_keys sels = map py_lower (filter (\<lambda>a. a \<noteq> []) (List.map_filter sel_alias sels))"

lemma mapping_keys_lookup:
  "add_mapping_keys fm m k = (if k \<in> answers_to fm then Some (fm_physical_name fm) else m k)"
  by (auto simp: add_mapping_keys_def answers_to_def)

lemma fold_mapping_keys_lookup:
  "fold add_mapping_keys fms (\<lambda>_. None) k = map_option fm_physical_name (find (\<lambda>fm. k \<in> answers_to fm) (rev fms))"
  by (induction fms rule: rev_induct) (simp_all add: mapping_keys_lookup)

lemma alias_keys_simps [simp]:
  "alias_keys [] = []"
  "alias_keys (sel # sels) =
     (case sel_alias sel of None \<Rightarrow> [] | Some a \<Rightarrow> if a = [] then [] else [py_lower a]) @ alias_keys sels"
  "alias_keys (sels @ sels') = alias_keys sels @ alias_keys sels'"
  by (simp_all add: alias_keys_def List.map_filter_simps List.map_filter_def split: option.split)

lemma fold_aliases_other: "k \<notin> set (alias_keys sels) \<Longrightarrow> fold add_alias sels m k = m k"
proof (induction sels arbitrary: m)
  case (Cons sel sels)
  have "add_alias sel m k = m k" using Cons.prems by (auto simp: add_alias_def split: option.splits if_splits)
  with Cons show ?case by simp
qed simp

lemma fold_aliases_alias:
  assumes "distinct (alias_keys sels)" "sel \<in> set sels" "sel_alias sel = Some a" "a \<noteq> []"
    and "py_lower (root (sel_path sel)) \<notin> set (alias_keys sels)" "m (py_lower (root (sel_path sel))) = Some c"
  shows "fold add_alias sels m (py_lower a) = Some c"
proof -
  obtain pre post where s: "sels = pre @ sel # post" using assms(2) by (meson split_list)
  let ?m = "fold add_alias pre m"
  have "?m (py_lower (root (sel_path sel))) = Some c"
    using fold_aliases_other [of _ pre m] assms(5,6) by (simp add: s)
  then have "add_alias sel ?m (py_lower a) = Some c" using assms(3,4) by (simp add: add_alias_def)
  moreover have "py_lower a \<notin> set (alias_keys post)" using assms(1,3,4) by (simp add: s)
  ultimately show ?thesis by (simp add: s fold_aliases_other)
qed

lemma resolve_path_plain:
  assumes "root fp \<notin> set (alias_keys sels)" "py_lower (root fp) \<notin> set (alias_keys sels)"
  shows "resolve_path (field_map em sels) fp = physical_path em fp"
  using assms unfolding resolve_path_def physical_path_def logical_column_def mapped_column_def field_map_def
  by (simp add: fold_aliases_other fold_mapping_keys_lookup split: option.split)

lemma resolve_path_alias:
  assumes "distinct (alias_keys sels)" "sel \<in> set sels" "sel_alias sel = Some a" "a \<noteq> []"
    and "py_lower (root (sel_path sel)) \<notin> set (alias_keys sels)" "mapped_column em (py_lower (root (sel_path sel))) = Some c"
    and "py_lower (root fp) = py_lower a"
  shows "resolve_path (field_map em sels) fp = FieldPath c (nested fp)"
proof -
  have "field_map em sels (py_lower a) = Some c"
    unfolding field_map_def
    by (rule fold_aliases_alias [OF assms(1-5)]) (use assms(6) in \<open>simp add: mapped_column_def fold_mapping_keys_lookup\<close>)
  with assms(7) show ?thesis by (simp add: resolve_path_def)
qed

text \<open>The name under which a selected column is returned.\<close>

definition output_name :: "field_selection \<Rightarrow> string" where
  "output_name sel = (case sel_alias sel of Some a \<Rightarrow> a | None \<Rightarrow> leaf (sel_path sel))"

lemma output_name_resolve: "output_name (resolve_selection m sel) = output_name sel"
  by (auto simp: output_name_def resolve_selection_def Let_def split: option.split)


text \<open>
  A client sees the names it asked for: the resolution changes the columns that a projection reads,
  never the names of the returned columns nor their order.
\<close>

theorem resolve_logical_output_names:
  assumes "resolve_logical_ir ir sm = Inr r"
  shows "map output_name (projection r) = map output_name (projection ir)"
  using assms by (auto elim!: resolve_logical_ir_cases simp: comp_def output_name_resolve)

lemma resolved_root_resolvable:
  assumes "root (resolve_path m fp) \<in> fs_name ` set (es_fields e)"
  shows "resolvable e (resolve_path m fp)"
proof -
  obtain f where f: "f \<in> set (es_fields e)" "fs_name f = root (resolve_path m fp)" using assms by auto
  show ?thesis
  proof (cases "is_nested (resolve_path m fp)")
    case True
    with f show ?thesis by (auto simp: resolvable_def)
  next
    case False
    then have "full_path (resolve_path m fp) = root (resolve_path m fp)"
      by (cases "resolve_path m fp"; cases "nested (resolve_path m fp)") auto
    with f show ?thesis by (auto simp: resolvable_def)
  qed
qed

text \<open>
  Resolution prepares binding: if the columns of the mapping that is used all exist in the physical
  entity, then every path whose first segment the mapping knows (in any case) resolves in the binder.
\<close>

theorem resolve_logical_bindable:
  assumes "resolve_logical_ir ir sm = Inr r" "find (entity_matches (entity ir)) (sm_entities sm) = Some em"
    and "physical_names em \<subseteq> fs_name ` set (es_fields e)"
  shows "list_all2 (\<lambda>fp fp'. py_lower (root fp) \<in> field_keys em \<or> root fp \<in> field_keys em \<longrightarrow> resolvable e fp')
    (ir_paths ir) (ir_paths r)"
proof -
  obtain em' m where em: "find (entity_matches (entity ir)) (sm_entities sm) = Some em'"
    and m: "m = field_map em' (projection ir)"
    and paths: "ir_paths r = map (resolve_path m) (ir_paths ir)"
    using assms(1) by (rule resolve_logical_ir_cases)
  have "em' = em" using em assms(2) by simp
  have "resolvable e (resolve_path m fp)"
    if "py_lower (root fp) \<in> field_keys em \<or> root fp \<in> field_keys em" for fp
  proof (rule resolved_root_resolvable)
    have "m (py_lower (root fp)) \<noteq> None \<or> m (root fp) \<noteq> None"
      using that field_keys_mapped [of em "projection ir"] by (auto simp: m \<open>em' = em\<close>)
    then have "root (resolve_path m fp) \<in> ran m" using resolve_path_cases [of m fp] by auto
    then show "root (resolve_path m fp) \<in> fs_name ` set (es_fields e)"
      using ran_field_map [of em "projection ir"] assms(3) by (auto simp: m \<open>em' = em\<close>)
  qed
  then show ?thesis by (simp add: paths list.rel_map list.rel_refl)
qed

lemma resolve_expression_sound [simp]: "sound_expr (resolve_expression m e) = sound_expr e"
  by (induction e) simp_all

lemma aliases_distinct:
  "distinct (map output_name sels) \<Longrightarrow> distinct (List.map_filter sel_alias sels)"
proof (induction sels)
  case (Cons sel sels)
  have "a \<in> output_name ` set sels" if "a \<in> set (List.map_filter sel_alias sels)" for a
    using that by (force simp: List.map_filter_def output_name_def image_iff split: option.splits)
  with Cons show ?case
    by (auto simp: List.map_filter_simps output_name_def split: option.splits)
qed (simp add: List.map_filter_simps)

lemma map_ma_field_resolve: "map (full_path \<circ> ma_field) (map (resolve_assignment m) as) =
    map (\<lambda>a. full_path (resolve_path m (ma_field a))) as"
  by (simp add: resolve_assignment_def)

text \<open>
  When resolution preserves validity: if the output columns of the query have distinct names and no
  two fields of a payload are mapped to one column, then the resolved query passes the semantic
  validator whenever the query did.
\<close>

theorem resolve_logical_valid:
  assumes "resolve_logical_ir ir sm = Inr r" "validate_ir ir = Inr ()"
    and "distinct (map output_name (projection ir))"
    and "distinct_fields (assignments r)" "\<forall>rec \<in> set (records r). distinct_fields (cr_assignments rec)"
  shows "validate_ir r = Inr ()"
proof -
  obtain em m where "find (entity_matches (entity ir)) (sm_entities sm) = Some em"
    and "m = field_map em (projection ir)"
    and r: "r = \<lparr>operation = operation ir, entity = em_physical_name em,
          projection = map (resolve_selection m) (projection ir),
          where_clause = map_option (resolve_expression m) (where_clause ir),
          assignments = map (resolve_assignment m) (assignments ir),
          records = map (resolve_record m) (records ir),
          sort_clauses = map (resolve_sort m) (sort_clauses ir),
          ranking = map_option (resolve_ranking m) (ranking ir),
          limit = limit ir, offset = offset ir\<rparr>"
    and "ir_paths r = map (resolve_path m) (ir_paths ir)"
    using assms(1) by (rule resolve_logical_ir_cases)
  have "distinct (map output_name (projection r))"
    using assms(3) by (simp add: r comp_def output_name_resolve)
  then have al: "distinct (List.map_filter sel_alias (projection r))" by (rule aliases_distinct)
  have "sound_statement (operation ir) ir" using assms(2) sound_statement_iff by blast
  then have "sound_statement (operation r) r"
    using al assms(4,5) by (cases "operation ir")
      (auto simp: r no_ordering_def resolve_ranking_def resolve_record_def)
  then show ?thesis using sound_statement_iff by blast
qed

section \<open>A sample mapping, and what resolution gets wrong\<close>

definition sample_map_field :: "string \<Rightarrow> string \<Rightarrow> field_mapping" where
  "sample_map_field l p =
     \<lparr>fm_id = ''f'' @ l, fm_entity_mapping_id = ''em'', fm_logical_id = ''lf-'' @ l, fm_logical_name = l,
      fm_physical_name = p, fm_rule = None\<rparr>"

definition sample_mapping :: source_mapping where
  "sample_mapping =
     \<lparr>sm_id = ''m1'', sm_model_id = ''model'', sm_source_id = ''s1'', sm_version = ''1.0.0'',
      sm_status = ACTIVE, sm_provenance = USER, sm_error = None,
      sm_entities = [\<lparr>em_id = ''em'', em_source_mapping_id = ''m1'', em_logical_id = ''le'',
        em_logical_name = ''Customer'', em_physical_name = ''users'', em_namespace = ''public'',
        em_fields = [sample_map_field ''FullName'' ''name'', sample_map_field ''Years'' ''age'']\<rparr>]\<rparr>"

definition sample_logical :: query_ir where
  "sample_logical = (bare_ir READ ''customers'')
     \<lparr>projection := [FieldSelection (FieldPath ''fullname'' []) None],
      where_clause := Some (FieldExpression (FieldPath ''years'' []) (Comparison OpGT)
        (OperandLiteral (IntegerLiteral 17)))\<rparr>"

definition sample_resolved :: query_ir where
  "sample_resolved = (bare_ir READ ''users'')
     \<lparr>projection := [FieldSelection (FieldPath ''name'' []) (Some ''fullname'')],
      where_clause := Some (FieldExpression (FieldPath ''age'' []) (Comparison OpGT)
        (OperandLiteral (IntegerLiteral 17)))\<rparr>"

lemma sample_resolves: "resolve_logical_ir sample_logical sample_mapping = Inr sample_resolved"
  by code_simp


lemma resolve_logical_output_names_witness:
  "map output_name (projection sample_resolved) = [''fullname'']"
proof -
  have "map output_name (projection sample_logical) = [''fullname'']" by code_simp
  with resolve_logical_output_names [OF sample_resolves] show ?thesis by simp
qed

lemma resolve_logical_bindable_witness:
  "list_all (resolvable (hd (ss_entities sample_schema))) (ir_paths sample_resolved)"
proof -
  let ?em = "hd (sm_entities sample_mapping)"
  have em: "find (entity_matches (entity sample_logical)) (sm_entities sample_mapping) = Some ?em"
    by code_simp
  have names: "physical_names ?em = {''name'', ''age''}"
    by (simp add: physical_names_def sample_mapping_def sample_map_field_def)
  have "physical_names ?em \<subseteq> fs_name ` set (es_fields (hd (ss_entities sample_schema)))"
    unfolding names by (simp add: sample_schema_def sample_field_def)
  from resolve_logical_bindable [OF sample_resolves em this]
  have "list_all2 (\<lambda>fp fp'. py_lower (root fp) \<in> field_keys ?em \<or> root fp \<in> field_keys ?em \<longrightarrow>
      resolvable (hd (ss_entities sample_schema)) fp') (ir_paths sample_logical) (ir_paths sample_resolved)" .
  moreover have "list_all (\<lambda>fp. py_lower (root fp) \<in> field_keys ?em) (ir_paths sample_logical)"
    by code_simp
  ultimately show ?thesis by (auto simp: list_all_length list_all2_conv_all_nth)
qed

lemma resolve_logical_valid_witness: "validate_ir sample_resolved = Inr ()"
proof (rule resolve_logical_valid [OF sample_resolves])
  show "validate_ir sample_logical = Inr ()" by code_simp
  show "distinct (map output_name (projection sample_logical))" by code_simp
  show "distinct_fields (assignments sample_resolved)" by code_simp
  show "\<forall>rec \<in> set (records sample_resolved). distinct_fields (cr_assignments rec)" by code_simp
qed

text \<open>
  The premises of the last property are needed. Field names are compared exactly by the validator and
  up to case by the resolver, so two distinct fields of a payload can become one column; and the query
  is not validated again.
\<close>

lemma resolution_repeats_column:
  "let ir = (bare_ir UPDATE ''Customer'')
         \<lparr>assignments := [MutationAssignment (FieldPath ''Years'' []) (IntegerLiteral 1),
                         MutationAssignment (FieldPath ''years'' []) (IntegerLiteral 2)],
          where_clause := Some (FieldExpression (FieldPath ''FullName'' []) (Comparison OpEQ)
            (OperandLiteral NullLiteral))\<rparr>
   in validate_ir ir = Inr () \<and>
      map_sum id (map (full_path \<circ> ma_field) \<circ> assignments) (resolve_logical_ir ir sample_mapping) =
        Inr [''age'', ''age'']"
  by code_simp

text \<open>
  The aliases of a projection are added to the dictionary one after the other, over the names of the
  fields. A projection that swaps two names reads one column twice.
\<close>

lemma aliases_capture_fields:
  "map_sum id (map sel_path \<circ> projection)
     (resolve_logical_ir ((bare_ir READ ''Customer'')
        \<lparr>projection := [FieldSelection (FieldPath ''FullName'' []) (Some ''years''),
                       FieldSelection (FieldPath ''Years'' []) (Some ''fullname'')]\<rparr>) sample_mapping) =
   Inr [FieldPath ''name'' [], FieldPath ''name'' []]"
  by code_simp

text \<open>A field without a mapping is passed on, although the docstring promises an error.\<close>

lemma unmapped_field_passes:
  "map_sum id (map sel_path \<circ> projection)
     (resolve_logical_ir ((bare_ir READ ''Customer'')
        \<lparr>projection := [FieldSelection (FieldPath ''shoe_size'' []) None]\<rparr>) sample_mapping) =
   Inr [FieldPath ''shoe_size'' []]"
  by code_simp

end
