(* ===== verification/Plan_Data.thy ===== *)
theory Plan_Data
  imports Complex_Main "HOL-Library.AList" Classification Logical_Resolution Sql_Output
begin

text \<open>
  The data of query planning: sources and candidate mappings (\<open>domain/source.py\<close>, the resolution results of
  \<open>domain/mapping.py\<close>), the plans of \<open>query_engine/planning/models.py\<close>, and the rows that connectors
  return (\<open>domain/query.py\<close>). A Python \<open>dict\<close> is an association list in insertion order; setting a key
  that exists keeps its place.
\<close>

section \<open>Dictionaries\<close>

type_synonym 'v dict = "(string \<times> 'v) list"

abbreviation dict_get :: "'v dict \<Rightarrow> string \<Rightarrow> 'v option" where
  "dict_get d k \<equiv> map_of d k"

abbreviation dict_set :: "string \<Rightarrow> 'v \<Rightarrow> 'v dict \<Rightarrow> 'v dict" where
  "dict_set k v d \<equiv> AList.update k v d"

definition dict_of :: "(string \<times> 'v) list \<Rightarrow> 'v dict" where
  "dict_of kvs = foldl (\<lambda>d (k, v). dict_set k v d) [] kvs"

lemma dict_of_snoc: "dict_of (kvs @ [(k, v)]) = dict_set k v (dict_of kvs)"
  by (simp add: dict_of_def)

lemma dict_of_get: "dict_get (dict_of kvs) k = map_of (rev kvs) k"
proof (induction kvs rule: rev_induct)
  case (snoc kv kvs)
  then show ?case by (cases kv) (simp add: dict_of_snoc update_conv' )
qed (simp add: dict_of_def)

lemma dict_of_distinct: "distinct (map fst (dict_of kvs))"
proof (induction kvs rule: rev_induct)
  case (snoc kv kvs)
  then show ?case by (cases kv) (simp add: dict_of_snoc distinct_update)
qed (simp add: dict_of_def)

lemma dict_of_keys: "fst ` set (dict_of kvs) = fst ` set kvs"
proof (induction kvs rule: rev_induct)
  case (snoc kv kvs)
  then show ?case by (cases kv) (simp add: dict_of_snoc dom_update)
qed (simp add: dict_of_def)

section \<open>Sources and candidates\<close>

datatype source_type = POSTGRESQL | SQLITE | MYSQL | MONGODB

fun source_type_name :: "source_type \<Rightarrow> string" where
  "source_type_name POSTGRESQL = ''POSTGRESQL''"
| "source_type_name SQLITE = ''SQLITE''"
| "source_type_name MYSQL = ''MYSQL''"
| "source_type_name MONGODB = ''MONGODB''"

datatype source_status = SourceActive | SourceInactive | SourceError | SourceUnreachable | SourceUnknown

record source =
  src_id :: string
  src_name :: string
  src_type :: source_type
  src_host :: "string option"
  src_port :: "int option"
  src_database_name :: "string option"
  src_username :: "string option"
  src_password :: "string option"
  src_file_path :: "string option"
  src_status :: source_status

record resolved_field =
  rfi_logical_field_id :: string
  rfi_logical_field_name :: string
  rfi_physical_field_name :: string
  rfi_transformation_rule :: "string option"
  rfi_logical_data_type :: "string option"
  rfi_physical_data_type :: "string option"

record source_candidate =
  cand_mapping_id :: string
  cand_mapping_status :: mapping_status
  cand_mapping_provenance :: mapping_provenance
  cand_source_id :: string
  cand_source_name :: string
  cand_source_type :: string
  cand_entity_mapping_id :: string
  cand_physical_entity :: string
  cand_physical_namespace :: string
  cand_field_mappings :: "resolved_field list"

section \<open>Plans\<close>

datatype execution_status = SUCCESS | FAILED | EXCLUDED

datatype exclusion_reason =
    PHYSICAL_ENTITY_NOT_FOUND
  | NO_ACTIVE_MAPPING
  | INCOMPLETE_FIELD_MAPPING
  | SOURCE_CAPABILITY_MISMATCH
  | SOURCE_UNREACHABLE
  | EXECUTION_FAILED
  | EXECUTION_TIMEOUT
  | NORMALIZATION_FAILED

record source_exclusion =
  xs_source_id :: string
  xs_source_name :: "string option"
  xs_source_type :: "string option"
  xs_physical_entity :: "string option"
  xs_status :: execution_status
  xs_reason :: exclusion_reason
  xs_message :: string

record ephemeral_field =
  ef_name :: string
  ef_data_type :: string
  ef_is_primary_key :: bool
  ef_source_field_names :: "string dict"

record ephemeral_projection =
  ep_entity_name :: string
  ep_canonical_fields :: "ephemeral_field list"
  ep_participating :: "string list"
  ep_excluded :: "source_exclusion list"

record candidate_evaluation =
  ev_source_id :: string
  ev_source_name :: string
  ev_source_type :: source_type
  ev_mapping_id :: string
  ev_physical_entity :: string
  ev_is_eligible :: bool
  ev_rejection_reason :: "string option"
  ev_unmapped_fields :: "string list"
  ev_missing_capabilities :: "string list"

record plan_context =
  pc_logical_model_id :: "string option"
  pc_target_entity :: string
  pc_operation :: query_operation
  pc_is_wildcard :: bool
  pc_projected :: "string list"
  pc_filters :: "string list"
  pc_mutations :: "string list"
  pc_sorts :: "string list"
  pc_requires_returning :: bool
  pc_requires_transactions :: bool

definition all_referenced_fields :: "plan_context \<Rightarrow> string list" where
  "all_referenced_fields c = remdups (pc_projected c @ pc_filters c @ pc_mutations c @ pc_sorts c)"

record physical_plan =
  pp_logical_model_id :: string
  pp_target_entity :: string
  pp_source_id :: string
  pp_source_name :: string
  pp_source_type :: source_type
  pp_mapping_id :: string
  pp_physical_entity :: string
  pp_resolved_ir :: query_ir
  pp_bound_ir :: bound_ir
  pp_classification :: mutation_classification
  pp_physical_query :: physical_result
  pp_logical_to_physical :: "string dict"
  pp_physical_to_logical :: "string dict"
  pp_candidates :: "candidate_evaluation list"

record federated_plan =
  fp_logical_model_id :: string
  fp_target_entity :: string
  fp_logical_ir :: query_ir
  fp_physical_plans :: "physical_plan list"
  fp_candidates :: "candidate_evaluation list"
  fp_excluded :: "source_exclusion list"
  fp_is_ephemeral :: bool
  fp_projection :: "ephemeral_projection option"

definition accepted_sources :: "federated_plan \<Rightarrow> string list" where
  "accepted_sources p = map pp_source_id (fp_physical_plans p)"

definition rejected_sources :: "federated_plan \<Rightarrow> string list" where
  "rejected_sources p = map ev_source_id (filter (\<lambda>e. \<not> ev_is_eligible e) (fp_candidates p))"

section \<open>Rows\<close>

text \<open>
  A value that a connector returns, as far as it is compared: \<open>None\<close>; a number (\<open>int\<close>, \<open>bool\<close>, finite
  \<open>float\<close>, \<open>Decimal\<close>) with its exact value; a text; a value of another ordered class (\<open>date\<close>, \<open>datetime\<close>,
  \<open>UUID\<close>) with a number that orders it in its class; a value without order. All but \<open>None\<close> come with
  their \<open>str()\<close>.
\<close>

datatype py_value =
    VNone
  | VNum rat string
  | VStr string
  | VObj string rat string
  | VOther string

type_synonym row = "py_value dict"

end
