(* ===== verification/Row_Order.thy ===== *)
theory Row_Order
  imports Main "HOL-Library.Multiset"
begin

text \<open>
  Python's \<open>list.sort(key=cmp_to_key(cmp))\<close>, a stable sort, and what a comparison function has to
  promise for it: the interface \<open>row_order\<close>. Its lemmas are the facts that the federated merge rests on:
  the result is sorted and stable, it is the only such list, and a prefix of the sorted whole can be
  computed from prefixes of sorted parts.
\<close>

section \<open>Stable sorting\<close>

fun insert_by :: "('a \<Rightarrow> 'a \<Rightarrow> int) \<Rightarrow> 'a \<Rightarrow> 'a list \<Rightarrow> 'a list" where
  "insert_by cmp x [] = [x]"
| "insert_by cmp x (y # ys) = (if cmp y x < 0 then y # insert_by cmp x ys else x # y # ys)"

definition sort_by :: "('a \<Rightarrow> 'a \<Rightarrow> int) \<Rightarrow> 'a list \<Rightarrow> 'a list" where
  "sort_by cmp xs = foldr (insert_by cmp) xs []"

text \<open>Insertion behind the equal elements, for a proof from the other end of the list.\<close>

fun insert_after :: "('a \<Rightarrow> 'a \<Rightarrow> int) \<Rightarrow> 'a \<Rightarrow> 'a list \<Rightarrow> 'a list" where
  "insert_after cmp x [] = [x]"
| "insert_after cmp x (y # ys) = (if cmp y x \<le> 0 then y # insert_after cmp x ys else x # y # ys)"

lemma sort_by_simps [simp]: "sort_by cmp [] = []" "sort_by cmp (x # xs) = insert_by cmp x (sort_by cmp xs)"
  by (simp_all add: sort_by_def)

lemma mset_insert_by [simp]: "mset (insert_by cmp x ys) = add_mset x (mset ys)"
  by (induction ys) auto

lemma mset_sort_by [simp]: "mset (sort_by cmp xs) = mset xs"
  by (induction xs) simp_all

lemma set_sort_by [simp]: "set (sort_by cmp xs) = set xs"
  using mset_eq_setD [OF mset_sort_by] .

lemma set_insert_by [simp]: "set (insert_by cmp x ys) = insert x (set ys)"
  by (induction ys) auto

lemma length_sort_by [simp]: "length (sort_by cmp xs) = length xs"
  by (metis mset_sort_by size_mset)

lemma sort_by_append: "sort_by cmp (xs @ ys) = foldr (insert_by cmp) xs (sort_by cmp ys)"
  by (simp add: sort_by_def)

lemma take_insert_by: "take m (insert_by cmp x (take m ys)) = take m (insert_by cmp x ys)"
proof (induction ys arbitrary: m)
  case (Cons y ys)
  then show ?case by (cases m) (auto simp: take_Cons' min_def)
qed simp

lemma take_insert_after: "take m (insert_after cmp x (take m ys)) = take m (insert_after cmp x ys)"
proof (induction ys arbitrary: m)
  case (Cons y ys)
  then show ?case by (cases m) (auto simp: take_Cons' min_def)
qed simp

lemma take_insert_all_by:
  "take m (foldr (insert_by cmp) xs (take m ys)) = take m (foldr (insert_by cmp) xs ys)"
proof (induction xs)
  case (Cons x xs)
  then show ?case by (metis comp_apply foldr.simps(2) take_insert_by)
qed simp

lemma take_insert_all_after:
  "take m (foldl (\<lambda>zs x. insert_after cmp x zs) (take m ys) xs) = take m (foldl (\<lambda>zs x. insert_after cmp x zs) ys xs)"
proof (induction xs arbitrary: ys)
  case (Cons x xs)
  have "take m (foldl (\<lambda>zs x. insert_after cmp x zs) (take m ys) (x # xs)) =
      take m (foldl (\<lambda>zs x. insert_after cmp x zs) (take m (insert_after cmp x (take m ys))) xs)"
    by (simp add: Cons.IH)
  also have "\<dots> = take m (foldl (\<lambda>zs x. insert_after cmp x zs) ys (x # xs))"
    by (simp add: take_insert_after Cons.IH)
  finally show ?case .
qed simp

section \<open>What a comparison promises\<close>

locale row_order =
  fixes cmp :: "'a \<Rightarrow> 'a \<Rightarrow> int"
    and ok :: "'a \<Rightarrow> bool"
  assumes cmp_flip: "ok a \<Longrightarrow> ok b \<Longrightarrow> cmp b a < 0 \<longleftrightarrow> 0 < cmp a b"
    and cmp_trans: "ok a \<Longrightarrow> ok b \<Longrightarrow> ok c \<Longrightarrow> cmp a b \<le> 0 \<Longrightarrow> cmp b c \<le> 0 \<Longrightarrow> cmp a c \<le> 0"
begin

lemma cmp_total: "ok a \<Longrightarrow> ok b \<Longrightarrow> \<not> cmp a b < 0 \<Longrightarrow> cmp b a \<le> 0"
  using cmp_flip [of b a] by linarith

lemma cmp_le_iff: "ok a \<Longrightarrow> ok b \<Longrightarrow> cmp a b \<le> 0 \<longleftrightarrow> \<not> cmp b a < 0"
  using cmp_flip [of a b] by linarith

lemma sorted_insert_by:
  assumes "ok x" "\<forall>y \<in> set ys. ok y" "sorted_wrt (\<lambda>a b. cmp a b \<le> 0) ys"
  shows "sorted_wrt (\<lambda>a b. cmp a b \<le> 0) (insert_by cmp x ys)"
  using assms(2,3)
proof (induction ys)
  case (Cons y ys)
  show ?case
  proof (cases "cmp y x < 0")
    case True
    with Cons show ?thesis by auto
  next
    case False
    then have xy: "cmp x y \<le> 0" using Cons.prems(1) assms(1) by (intro cmp_total) auto
    then have "\<forall>z \<in> set ys. cmp x z \<le> 0"
      using Cons.prems assms(1) cmp_trans [of x y] by auto
    with False xy Cons.prems show ?thesis by auto
  qed
qed simp

lemma sorted_sort_by: "\<forall>x \<in> set xs. ok x \<Longrightarrow> sorted_wrt (\<lambda>a b. cmp a b \<le> 0) (sort_by cmp xs)"
  by (induction xs) (auto intro: sorted_insert_by)

lemma sort_by_sorted: "sorted_wrt (\<lambda>a b. cmp a b \<le> 0) xs \<Longrightarrow> \<forall>x \<in> set xs. ok x \<Longrightarrow> sort_by cmp xs = xs"
proof (induction xs)
  case (Cons x xs)
  then have "sort_by cmp xs = xs" by simp
  with Cons.prems show ?case by (cases xs) (auto simp: cmp_le_iff)
qed simp

lemma insert_after_by_commute:
  assumes "ok x" "ok y" "\<forall>z \<in> set zs. ok z"
  shows "insert_by cmp x (insert_after cmp y zs) = insert_after cmp y (insert_by cmp x zs)"
  using assms(3)
proof (induction zs)
  case Nil
  then show ?case using cmp_le_iff [OF assms(1,2)] by auto
next
  case (Cons z zs)
  then have z: "ok z" by simp
  note flip = cmp_le_iff [OF assms(1,2)] cmp_le_iff [OF assms(1) z] cmp_le_iff [OF assms(2) z]
    cmp_le_iff [OF assms(2,1)] cmp_le_iff [OF z assms(1)] cmp_le_iff [OF z assms(2)]
  note trans = cmp_trans [OF z assms(1,2)] cmp_trans [OF assms(1) z assms(2)] cmp_trans [OF assms(1,2) z]
    cmp_trans [OF z assms(2,1)] cmp_trans [OF assms(2) z assms(1)] cmp_trans [OF assms(2,1) z]
  show ?case using Cons flip trans by auto
qed

lemma sort_by_snoc: "\<forall>x \<in> set xs. ok x \<Longrightarrow> ok y \<Longrightarrow> sort_by cmp (xs @ [y]) = insert_after cmp y (sort_by cmp xs)"
proof (induction xs)
  case (Cons x xs)
  then show ?case using insert_after_by_commute [of x y "sort_by cmp xs"] by simp
qed simp

lemma sort_by_append_after:
  "\<forall>x \<in> set xs. ok x \<Longrightarrow> \<forall>y \<in> set ys. ok y \<Longrightarrow>
     sort_by cmp (xs @ ys) = foldl (\<lambda>zs y. insert_after cmp y zs) (sort_by cmp xs) ys"
proof (induction ys rule: rev_induct)
  case (snoc y ys)
  then show ?case using sort_by_snoc [of "xs @ ys" y] by auto
qed simp

lemma sorted_take: "sorted_wrt P xs \<Longrightarrow> sorted_wrt P (take m xs)"
  by (metis append_take_drop_id sorted_wrt_append)

lemma take_sorted_again:
  "\<forall>x \<in> set xs. ok x \<Longrightarrow> sort_by cmp (take m (sort_by cmp xs)) = take m (sort_by cmp xs)"
  using set_take_subset [of m "sort_by cmp xs"]
  by (intro sort_by_sorted sorted_take sorted_sort_by) auto

lemma take_sort_tail:
  assumes "\<forall>x \<in> set xs. ok x"
  shows "take m (sort_by cmp (ys @ take m (sort_by cmp xs))) = take m (sort_by cmp (ys @ xs))"
  by (simp add: sort_by_append take_sorted_again [OF assms] take_insert_all_by)

lemma take_sort_front:
  assumes "\<forall>x \<in> set xs. ok x" "\<forall>y \<in> set ys. ok y"
  shows "take m (sort_by cmp (take m (sort_by cmp xs) @ ys)) = take m (sort_by cmp (xs @ ys))"
proof -
  have "\<forall>x \<in> set (take m (sort_by cmp xs)). ok x" using assms(1) by (auto dest: in_set_takeD)
  then show ?thesis
    using assms by (simp add: sort_by_append_after take_sorted_again take_insert_all_after)
qed

text \<open>The first \<open>m\<close> rows of the whole come from the first \<open>m\<close> rows of the sorted parts.\<close>

lemma take_sort_parts:
  assumes "\<forall>xs \<in> set xss. \<forall>x \<in> set xs. ok x"
  shows "take m (sort_by cmp (concat (map (\<lambda>xs. take m (sort_by cmp xs)) xss))) = take m (sort_by cmp (concat xss))"
  using assms
proof (induction xss)
  case (Cons xs xss)
  let ?T = "\<lambda>xs. take m (sort_by cmp xs)"
  have ok: "\<forall>x \<in> set xs. ok x" "\<forall>x \<in> set (concat xss). ok x" using Cons.prems by auto
  have okT: "\<forall>x \<in> set (concat (map ?T xss)). ok x"
    using Cons.prems by (auto dest!: in_set_takeD)
  have "take m (sort_by cmp (concat (map ?T (xs # xss)))) = take m (sort_by cmp (xs @ concat (map ?T xss)))"
    using take_sort_front [OF ok(1) okT] by simp
  also have "\<dots> = take m (sort_by cmp (xs @ ?T (concat (map ?T xss))))"
    by (rule take_sort_tail [OF okT, symmetric])
  also have "\<dots> = take m (sort_by cmp (xs @ ?T (concat xss)))"
    using Cons by simp
  also have "\<dots> = take m (sort_by cmp (xs @ concat xss))"
    by (rule take_sort_tail [OF ok(2)])
  finally show ?case by simp
qed simp

text \<open>Stability, and that it leaves no choice.\<close>

lemma filter_insert_by:
  assumes "ok z" "ok x" "\<forall>y \<in> set ys. ok y"
  shows "filter (\<lambda>y. cmp z y = 0) (insert_by cmp x ys) = filter (\<lambda>y. cmp z y = 0) (x # ys)"
  using assms(3)
proof (induction ys)
  case (Cons y ys)
  then have y: "ok y" by simp
  show ?case
  proof (cases "cmp y x < 0 \<and> cmp z x = 0 \<and> cmp z y = 0")
    case True
    then have "cmp x z \<le> 0" using cmp_le_iff [OF assms(2,1)] by simp
    then have "cmp x y \<le> 0" using True cmp_trans [OF assms(2,1) y] by simp
    with True show ?thesis using cmp_le_iff [OF assms(2) y] by simp
  qed (use Cons in auto)
qed simp

lemma sort_by_stable:
  "ok z \<Longrightarrow> \<forall>x \<in> set xs. ok x \<Longrightarrow> filter (\<lambda>y. cmp z y = 0) (sort_by cmp xs) = filter (\<lambda>y. cmp z y = 0) xs"
  by (induction xs) (simp_all add: filter_insert_by)

end

end
