(* ===== verification/Merging.thy ===== *)
theory Merging
  imports Plan_Data Row_Order
begin

text \<open>
  Merging the results of a federated query (\<open>query_engine/planning/merger.py\<close>): the normalization of a
  row, the comparison of rows, sorting, and pagination. The aliases of a projection are a Python \<open>set\<close>;
  its order, which shows only when two aliases differ in case alone, is the order of the projection here.
\<close>

section \<open>Normalization of rows\<close>

definition lower_items :: "string dict \<Rightarrow> string dict" where
  "lower_items d = dict_of (map (\<lambda>(k, v). (py_lower k, v)) d)"

definition lower_values :: "string dict \<Rightarrow> string dict" where
  "lower_values d = dict_of (map (\<lambda>(k, v). (py_lower v, v)) d)"

definition lower_aliases :: "string list \<Rightarrow> string dict" where
  "lower_aliases as = dict_of (map (\<lambda>a. (py_lower a, a)) as)"

text \<open>The key under which a column is kept, if it is kept: the branches of the loop over the row.\<close>

definition normalized_key :: "string dict \<Rightarrow> bool \<Rightarrow> string list \<Rightarrow> string \<Rightarrow> string option" where
  "normalized_key p2l preserve aliases col =
     (let phys = lower_items p2l; logs = lower_values p2l; als = lower_aliases aliases in
      if col = ''_id'' \<and> dict_get p2l col = None \<and> dict_get phys col = None \<and>
         dict_get logs col = None \<and> dict_get als col = None then None
      else if als \<noteq> [] \<and> col \<in> set aliases then Some col
      else if als \<noteq> [] \<and> dict_get als (py_lower col) \<noteq> None then dict_get als (py_lower col)
      else if dict_get p2l col \<noteq> None then dict_get p2l col
      else if dict_get phys (py_lower col) \<noteq> None then dict_get phys (py_lower col)
      else if col \<in> snd ` set p2l then Some col
      else if dict_get logs (py_lower col) \<noteq> None then dict_get logs (py_lower col)
      else if preserve then Some col else None)"

definition normalize_row :: "string dict \<Rightarrow> bool \<Rightarrow> string list \<Rightarrow> row \<Rightarrow> row" where
  "normalize_row p2l preserve aliases r =
     foldl (\<lambda>d (col, v). case normalized_key p2l preserve aliases col of
       None \<Rightarrow> d | Some k \<Rightarrow> dict_set k v d) [] r"

section \<open>Comparison of values and rows\<close>

text \<open>\<open>a < b\<close> of Python; \<open>None\<close> is a \<open>TypeError\<close>.\<close>

fun py_less :: "py_value \<Rightarrow> py_value \<Rightarrow> bool option" where
  "py_less (VNum a s) (VNum b t) = Some (a < b)"
| "py_less (VStr s) (VStr t) = Some (s < t)"
| "py_less (VObj c a s) (VObj d b t) = (if c = d then Some (a < b) else None)"
| "py_less _ _ = None"

fun py_str :: "py_value \<Rightarrow> string" where
  "py_str VNone = ''None''"
| "py_str (VNum a s) = s"
| "py_str (VStr s) = s"
| "py_str (VObj c a s) = s"
| "py_str (VOther s) = s"

definition compare_values :: "py_value \<Rightarrow> py_value \<Rightarrow> int" where
  "compare_values a b =
     (if a = VNone \<and> b = VNone then 0
      else if a = VNone then -1
      else if b = VNone then 1
      else case py_less a b of
        Some lt \<Rightarrow> if lt then -1 else if py_less b a = Some True then 1 else 0
      | None \<Rightarrow>
          if py_str a < py_str b then -1 else if py_str b < py_str a then 1 else 0)"

definition sort_specs :: "query_ir \<Rightarrow> (string \<times> bool) list" where
  "sort_specs ir =
     (if sort_clauses ir \<noteq> [] then map (\<lambda>s. (leaf (sc_field s), sc_direction s = DESC)) (sort_clauses ir)
      else case ranking ir of
        Some r \<Rightarrow> [(leaf (rc_field r), rc_direction r = TOP)]
      | None \<Rightarrow> [])"

text \<open>\<open>alias_map\<close>: from an alias to its column and back.\<close>

definition alias_map :: "query_ir \<Rightarrow> string dict" where
  "alias_map ir =
     dict_of (concat (map (\<lambda>sel.
       case sel_alias sel of
         None \<Rightarrow> []
       | Some a \<Rightarrow>
           if a = [] then []
           else [(a, leaf (sel_path sel)), (py_lower a, leaf (sel_path sel)),
                 (leaf (sel_path sel), a), (py_lower (leaf (sel_path sel)), a)]) (projection ir)))"

definition row_get :: "row \<Rightarrow> string \<Rightarrow> py_value" where
  "row_get r k = (case dict_get r k of Some v \<Rightarrow> v | None \<Rightarrow> VNone)"

text \<open>The value that a row is compared by.\<close>

definition sort_value_of :: "string dict \<Rightarrow> string \<Rightarrow> row \<Rightarrow> py_value" where
  "sort_value_of am n r =
     (let v1 = row_get r n;
          v2 = (if v1 = VNone then
                  (case dict_get am n of Some k \<Rightarrow> row_get r k | None \<Rightarrow> v1) else v1)
      in if v2 = VNone then
           (case dict_get am (py_lower n) of Some k \<Rightarrow> row_get r k | None \<Rightarrow> v2) else v2)"

fun row_compare :: "string dict \<Rightarrow> (string \<times> bool) list \<Rightarrow> row \<Rightarrow> row \<Rightarrow> int" where
  "row_compare am [] a b = 0"
| "row_compare am ((n, is_desc) # specs) a b =
     (let res = compare_values (sort_value_of am n a) (sort_value_of am n b) in
      if res \<noteq> 0 then (if is_desc then - res else res) else row_compare am specs a b)"

section \<open>The merge\<close>

definition column_name :: "field_selection \<Rightarrow> string" where
  "column_name sel =
     (case sel_alias sel of Some a \<Rightarrow> if a = [] then leaf (sel_path sel) else a | None \<Rightarrow> leaf (sel_path sel))"

definition first_present :: "row \<Rightarrow> string list \<Rightarrow> py_value option" where
  "first_present r ks = (case filter (\<lambda>k. dict_get r k \<noteq> None) ks of [] \<Rightarrow> None | k # _ \<Rightarrow> dict_get r k)"

definition order_row :: "query_ir \<Rightarrow> row \<Rightarrow> row" where
  "order_row ir r =
     foldl (\<lambda>d sel.
       let out_col = column_name sel; src_key = leaf (sel_path sel) in
       case first_present r [out_col, src_key, py_lower out_col, py_lower src_key] of
         Some v \<Rightarrow> dict_set out_col v d | None \<Rightarrow> d) [] (projection ir)"

definition projected_aliases :: "query_ir \<Rightarrow> string list" where
  "projected_aliases ir =
     (if is_wildcard_projection ir then []
      else concat (map (\<lambda>sel. case sel_alias sel of Some a \<Rightarrow> if a = [] then [] else [a] | None \<Rightarrow> []) (projection ir)))"

text \<open>A row of one source, normalized and in the columns of the projection.\<close>

definition format_row :: "query_ir \<Rightarrow> physical_plan \<Rightarrow> row \<Rightarrow> row" where
  "format_row ir plan r =
     (let nr = normalize_row (pp_physical_to_logical plan) False (projected_aliases ir) r in
      if is_wildcard_projection ir then nr else order_row ir nr)"

definition add_column :: "string list \<Rightarrow> string \<Rightarrow> string list" where
  "add_column cols k = (if k \<in> set cols then cols else cols @ [k])"

definition wildcard_columns :: "federated_plan \<Rightarrow> row list \<Rightarrow> string list" where
  "wildcard_columns fp rows =
     (let first = (case fp_physical_plans fp of [] \<Rightarrow> [] | p # _ \<Rightarrow> map fst (pp_logical_to_physical p))
      in foldl add_column [] (first @ concat (map (map fst) rows)))"

definition merged_columns :: "query_ir \<Rightarrow> federated_plan \<Rightarrow> row list \<Rightarrow> string list" where
  "merged_columns ir fp rows =
     (if is_wildcard_projection ir then wildcard_columns fp rows else map column_name (projection ir))"

definition sort_rows :: "query_ir \<Rightarrow> row list \<Rightarrow> row list" where
  "sort_rows ir rows =
     (if sort_specs ir = [] then rows else sort_by (row_compare (alias_map ir) (sort_specs ir)) rows)"

definition paginate :: "query_ir \<Rightarrow> row list \<Rightarrow> row list" where
  "paginate ir rows =
     (let rows1 = (case offset ir of Some k \<Rightarrow> if 0 < k then drop (nat k) rows else rows | None \<Rightarrow> rows)
      in case limit ir of
           Some n \<Rightarrow> if 0 \<le> n then take (nat n) rows1
             else (case ranking ir of Some r \<Rightarrow> if 0 \<le> rc_count r then take (nat (rc_count r)) rows1 else rows1
                   | None \<Rightarrow> rows1)
         | None \<Rightarrow> (case ranking ir of Some r \<Rightarrow> if 0 \<le> rc_count r then take (nat (rc_count r)) rows1 else rows1
                   | None \<Rightarrow> rows1))"

definition merged_rows :: "query_ir \<Rightarrow> (physical_plan \<times> row list) list \<Rightarrow> row list" where
  "merged_rows ir results = concat (map (\<lambda>(plan, rs). map (format_row ir plan) rs) results)"

definition merge_federated_results ::
  "query_ir \<Rightarrow> federated_plan \<Rightarrow> (physical_plan \<times> row list) list \<Rightarrow> string list \<times> row list" where
  "merge_federated_results ir fp results =
     (merged_columns ir fp (merged_rows ir results), paginate ir (sort_rows ir (merged_rows ir results)))"

section \<open>Classes of comparable values\<close>

datatype value_class = KNumber | KText | KObject string | KOpaque

fun class_of :: "py_value \<Rightarrow> value_class option" where
  "class_of VNone = None"
| "class_of (VNum a s) = Some KNumber"
| "class_of (VStr s) = Some KText"
| "class_of (VObj c a s) = Some (KObject c)"
| "class_of (VOther s) = Some KOpaque"

definition of_class :: "value_class \<Rightarrow> py_value \<Rightarrow> bool" where
  "of_class k v \<longleftrightarrow> class_of v = None \<or> class_of v = Some k"

text \<open>The rows can be compared: every sort column has values of one class, or none.\<close>

definition comparable :: "(string \<Rightarrow> value_class) \<Rightarrow> string dict \<Rightarrow> (string \<times> bool) list \<Rightarrow> row \<Rightarrow> bool" where
  "comparable cls am specs r \<longleftrightarrow> list_all (\<lambda>(n, d). of_class (cls n) (sort_value_of am n r)) specs"

lemma compare_values_flip:
  assumes "of_class k a" "of_class k b"
  shows "compare_values b a = - compare_values a b"
  using assms by (cases a; cases b) (auto simp: of_class_def compare_values_def)

lemma compare_values_trans:
  assumes "of_class k a" "of_class k b" "of_class k c" "compare_values a b \<le> 0" "compare_values b c \<le> 0"
  shows "compare_values a c \<le> 0"
  using assms
  by (cases a; cases b; cases c) (auto simp: of_class_def compare_values_def split: if_splits)

lemma row_compare_flip:
  assumes "comparable cls am specs a" "comparable cls am specs b"
  shows "row_compare am specs b a = - row_compare am specs a b"
  using assms
proof (induction specs)
  case (Cons spec specs)
  obtain n d where spec: "spec = (n, d)" by (cases spec)
  have "compare_values (sort_value_of am n b) (sort_value_of am n a) =
      - compare_values (sort_value_of am n a) (sort_value_of am n b)"
    using Cons.prems by (intro compare_values_flip [of "cls n"]) (simp_all add: comparable_def spec)
  with Cons show ?case by (simp add: comparable_def spec Let_def)
qed simp

lemma compare_values_chain:
  assumes "of_class k a" "of_class k b" "of_class k c"
    and "compare_values a b \<le> 0" "compare_values b c \<le> 0"
  shows "compare_values a c \<le> 0 \<and> (compare_values a c = 0 \<longrightarrow> compare_values a b = 0 \<and> compare_values b c = 0)"
proof -
  have ac: "compare_values a c \<le> 0" using compare_values_trans [OF assms] .
  moreover have "compare_values a b = 0 \<and> compare_values b c = 0" if "compare_values a c = 0"
  proof -
    have ca: "compare_values c a \<le> 0" using compare_values_flip [OF assms(1,3)] that by simp
    have "compare_values b a \<le> 0" using compare_values_trans [OF assms(2,3,1,5) ca] .
    moreover have "compare_values c b \<le> 0" using compare_values_trans [OF assms(3,1,2) ca assms(4)] .
    ultimately show ?thesis
      using assms(4,5) compare_values_flip [OF assms(1,2)] compare_values_flip [OF assms(2,3)] by simp
  qed
  ultimately show ?thesis by blast
qed

lemma row_compare_trans:
  assumes "comparable cls am specs a" "comparable cls am specs b" "comparable cls am specs c"
    and "row_compare am specs a b \<le> 0" "row_compare am specs b c \<le> 0"
  shows "row_compare am specs a c \<le> 0"
  using assms
proof (induction specs)
  case (Cons spec specs)
  obtain n d where spec: "spec = (n, d)" by (cases spec)
  let ?v = "sort_value_of am n"
  have ok: "of_class (cls n) (?v a)" "of_class (cls n) (?v b)" "of_class (cls n) (?v c)"
    using Cons.prems(1-3) by (simp_all add: comparable_def spec)
  note chain = compare_values_chain [OF ok] compare_values_chain [OF ok(3,2,1)]
  note flips = compare_values_flip [OF ok(1,2)] compare_values_flip [OF ok(2,3)] compare_values_flip [OF ok(1,3)]
  have IH: "row_compare am specs a b \<le> 0 \<Longrightarrow> row_compare am specs b c \<le> 0 \<Longrightarrow> row_compare am specs a c \<le> 0"
    using Cons by (simp add: comparable_def)
  show ?case
  proof (cases d)
    case False
    then show ?thesis
      using Cons.prems(4,5) chain(1) IH by (auto simp: spec Let_def split: if_splits)
  next
    case True
    then show ?thesis
      using Cons.prems(4,5) chain(2) flips IH by (auto simp: spec Let_def split: if_splits)
  qed
qed simp

interpretation merged: row_order "row_compare am specs" "comparable cls am specs" for am specs cls
proof
  fix a b
  assume "comparable cls am specs a" "comparable cls am specs b"
  then show "row_compare am specs b a < 0 \<longleftrightarrow> 0 < row_compare am specs a b"
    using row_compare_flip [of cls am specs a b] by simp
qed (rule row_compare_trans)

section \<open>The order that a query asks for\<close>

text \<open>
  NULL comes before every value; numbers, objects of one class (dates, times) and opaque values are ordered by what
  they stand for, texts by their code points.
\<close>

fun value_le :: "py_value \<Rightarrow> py_value \<Rightarrow> bool" where
  "value_le VNone b = True"
| "value_le (VNum a s) (VNum b t) = (a \<le> b)"
| "value_le (VStr s) (VStr t) = (s \<le> t)"
| "value_le (VObj c a s) (VObj d b t) = (a \<le> b)"
| "value_le (VOther s) (VOther t) = (s \<le> t)"
| "value_le _ _ = False"

text \<open>
  The order of rows by sort clauses, over an order of values: the first column decides, in reverse if it is
  descending; among rows that are equal in it the next one.
\<close>

fun in_order :: "(py_value \<Rightarrow> py_value \<Rightarrow> bool) \<Rightarrow> string dict \<Rightarrow> (string \<times> bool) list \<Rightarrow> row \<Rightarrow> row \<Rightarrow> bool" where
  "in_order le am [] a b = True"
| "in_order le am ((n, is_desc) # specs) a b =
     (let x = sort_value_of am n (if is_desc then b else a); y = sort_value_of am n (if is_desc then a else b)
      in le x y \<and> (le y x \<longrightarrow> in_order le am specs a b))"

definition same_sort_values :: "string dict \<Rightarrow> (string \<times> bool) list \<Rightarrow> row \<Rightarrow> row \<Rightarrow> bool" where
  "same_sort_values am specs a b \<longleftrightarrow>
     list_all (\<lambda>(n, d). value_le (sort_value_of am n a) (sort_value_of am n b) \<and>
       value_le (sort_value_of am n b) (sort_value_of am n a)) specs"

lemma compare_values_le:
  assumes "of_class k a" "of_class k b"
  shows "compare_values a b \<le> 0 \<longleftrightarrow> value_le a b"
  using assms by (cases a; cases b) (auto simp: of_class_def compare_values_def not_less)

lemma compare_values_eq:
  assumes "of_class k a" "of_class k b"
  shows "compare_values a b = 0 \<longleftrightarrow> value_le a b \<and> value_le b a"
  using compare_values_le [OF assms] compare_values_le [OF assms(2,1)] compare_values_flip [OF assms] by auto

lemma row_compare_spec:
  assumes "comparable cls am specs a" "comparable cls am specs b"
  shows "(row_compare am specs a b \<le> 0 \<longleftrightarrow> in_order value_le am specs a b) \<and>
    (row_compare am specs a b = 0 \<longleftrightarrow> same_sort_values am specs a b)"
  using assms
proof (induction specs)
  case (Cons spec specs)
  obtain n d where spec: "spec = (n, d)" by (cases spec)
  have ok: "of_class (cls n) (sort_value_of am n a)" "of_class (cls n) (sort_value_of am n b)"
    using Cons.prems by (simp_all add: comparable_def spec)
  note le = compare_values_le [OF ok] compare_values_le [OF ok(2,1)]
  note eq = compare_values_eq [OF ok]
  note flip = compare_values_flip [OF ok]
  have IH: "row_compare am specs a b \<le> 0 \<longleftrightarrow> in_order value_le am specs a b"
    "row_compare am specs a b = 0 \<longleftrightarrow> same_sort_values am specs a b"
    using Cons by (simp_all add: comparable_def)
  have "row_compare am (spec # specs) a b \<le> 0 \<longleftrightarrow> in_order value_le am (spec # specs) a b"
    using IH(1) le eq flip by (cases d) (auto simp: spec Let_def)
  moreover have "row_compare am (spec # specs) a b = 0 \<longleftrightarrow> same_sort_values am (spec # specs) a b"
    using IH(2) eq by (auto simp: spec Let_def same_sort_values_def)
  ultimately show ?case ..
qed (simp add: same_sort_values_def)

lemmas row_compare_in_order = row_compare_spec [THEN conjunct1] row_compare_spec [THEN conjunct2]

section \<open>Properties of normalization\<close>

lemma dict_of_values: "dict_get (dict_of kvs) k = Some v \<Longrightarrow> (k, v) \<in> set kvs"
  unfolding dict_of_get by (auto dest: map_of_SomeD)

lemma lower_lookups:
  "dict_get (lower_items d) k = Some v \<Longrightarrow> v \<in> snd ` set d"
  "dict_get (lower_values d) k = Some v \<Longrightarrow> v \<in> snd ` set d"
  "dict_get (lower_aliases as) k = Some v \<Longrightarrow> v \<in> set as"
  unfolding lower_items_def lower_values_def lower_aliases_def by (drule dict_of_values; force)+

lemma dict_get_value: "dict_get d k = Some v \<Longrightarrow> v \<in> snd ` set d"
  by (metis image_eqI map_of_SomeD snd_conv)

lemma if_Some: "(if c then x else y) = Some k \<longleftrightarrow> (c \<and> x = Some k) \<or> (\<not> c \<and> y = Some k)"
  by simp

lemma normalized_key_named:
  assumes "normalized_key p2l False aliases col = Some k"
  shows "k \<in> set aliases \<or> k \<in> snd ` set p2l"
proof -
  consider "k = col" "col \<in> set aliases" | "dict_get (lower_aliases aliases) (py_lower col) = Some k"
    | "dict_get p2l col = Some k" | "dict_get (lower_items p2l) (py_lower col) = Some k"
    | "k = col" "col \<in> snd ` set p2l" | "dict_get (lower_values p2l) (py_lower col) = Some k"
    using assms unfolding normalized_key_def Let_def if_Some option.inject by blast
  then show ?thesis
    by cases (simp_all add: lower_lookups dict_get_value)
qed

lemma update_mem: "(k', v') \<in> set (AList.update k v d) \<Longrightarrow> (k', v') = (k, v) \<or> (k', v') \<in> set d"
  by (induction d) (auto split: if_splits)

lemma normalize_row_snoc:
  "normalize_row p2l preserve aliases (r @ [(col, v)]) =
     (case normalized_key p2l preserve aliases col of
        None \<Rightarrow> normalize_row p2l preserve aliases r
      | Some k \<Rightarrow> dict_set k v (normalize_row p2l preserve aliases r))"
  by (simp add: normalize_row_def split: option.split)

lemma normalize_row_mem:
  "(k, v) \<in> set (normalize_row p2l preserve aliases r) \<Longrightarrow>
     \<exists>col. (col, v) \<in> set r \<and> normalized_key p2l preserve aliases col = Some k"
proof (induction r rule: rev_induct)
  case (snoc cv r)
  obtain col w where cv: "cv = (col, w)" by (cases cv)
  show ?case
  proof (cases "normalized_key p2l preserve aliases col")
    case None
    then show ?thesis using snoc by (auto simp: cv normalize_row_snoc)
  next
    case (Some j)
    then have "(k, v) = (j, w) \<or> (k, v) \<in> set (normalize_row p2l preserve aliases r)"
      using snoc.prems by (intro update_mem) (simp add: cv normalize_row_snoc)
    then show ?thesis using snoc.IH Some by (auto simp: cv)
  qed
qed (simp add: normalize_row_def)

lemma normalize_row_distinct: "distinct (map fst (normalize_row p2l preserve aliases r))"
proof (induction r rule: rev_induct)
  case (snoc cv r)
  then show ?case by (cases cv) (simp add: normalize_row_snoc distinct_update split: option.split)
qed (simp add: normalize_row_def)

text \<open>
  C23. Physical columns do not leak into logical results. In logical mode every key of a normalized row is
  a logical field of the mapping or an alias that the query asked for, no key comes twice, and every value
  is a value of the row under a column that normalizes to that key.
\<close>

theorem normalize_row_logical:
  "distinct (map fst (normalize_row p2l False aliases r)) \<and>
   list_all (\<lambda>(k, v). (k \<in> set aliases \<or> k \<in> snd ` set p2l) \<and>
     (\<exists>(col, w) \<in> set r. w = v \<and> normalized_key p2l False aliases col = Some k))
     (normalize_row p2l False aliases r)"
proof -
  have "(k \<in> set aliases \<or> k \<in> snd ` set p2l) \<and>
      (\<exists>(col, w) \<in> set r. w = v \<and> normalized_key p2l False aliases col = Some k)"
    if "(k, v) \<in> set (normalize_row p2l False aliases r)" for k v
    using normalize_row_mem [OF that] normalized_key_named by blast
  then show ?thesis by (auto simp: normalize_row_distinct list_all_iff)
qed

abbreviation rows_comparable :: "(string \<Rightarrow> value_class) \<Rightarrow> query_ir \<Rightarrow> row list \<Rightarrow> bool" where
  "rows_comparable cls ir rows \<equiv> list_all (comparable cls (alias_map ir) (sort_specs ir)) rows"

section \<open>A sample\<close>

definition sample_plan :: "string \<Rightarrow> physical_plan" where
  "sample_plan sid =
     \<lparr>pp_logical_model_id = ''m1'', pp_target_entity = ''users'', pp_source_id = sid, pp_source_name = sid,
      pp_source_type = POSTGRESQL, pp_mapping_id = ''sm1'', pp_physical_entity = ''t_users'',
      pp_resolved_ir = sample_ir, pp_bound_ir = sample_bound, pp_classification = classify_query sample_bound,
      pp_physical_query = QueryBatch \<lparr>pb_dialect = ''postgresql'', pb_queries = [], pb_source_id = sid, pb_source_name = sid\<rparr>,
      pp_logical_to_physical = [(''id'', ''uid'')], pp_physical_to_logical = [(''uid'', ''id'')], pp_candidates = []\<rparr>"

definition sample_federation :: federated_plan where
  "sample_federation =
     \<lparr>fp_logical_model_id = ''m1'', fp_target_entity = ''users'', fp_logical_ir = sample_ir,
      fp_physical_plans = [sample_plan ''a'', sample_plan ''b''], fp_candidates = [], fp_excluded = [],
      fp_is_ephemeral = False, fp_projection = None\<rparr>"

definition sample_sorted :: query_ir where
  "sample_sorted = (bare_ir READ ''users'') \<lparr>sort_clauses := [SortClause (FieldPath ''id'' []) DESC], limit := Some 2\<rparr>"

definition sample_results :: "(physical_plan \<times> row list) list" where
  "sample_results =
     [(sample_plan ''a'', [[(''uid'', VNum 2 ''2'')], [(''uid'', VNone)]]),
      (sample_plan ''b'', [[(''UID'', VNum 7 ''7''), (''secret'', VStr ''x'')]])]"

lemma sample_merged_rows:
  "merged_rows sample_sorted sample_results = [[(''id'', VNum 2 ''2'')], [(''id'', VNone)], [(''id'', VNum 7 ''7'')]]"
  by code_simp

lemma sample_comparable:
  "rows_comparable (\<lambda>_. KNumber) sample_sorted (merged_rows sample_sorted sample_results)"
  unfolding sample_merged_rows by code_simp

section \<open>Properties of the merge\<close>

lemma merge_rows: "snd (merge_federated_results ir fp results) = paginate ir (sort_rows ir (merged_rows ir results))"
  by (simp add: merge_federated_results_def)



text \<open>The largest first, as DESC asks for, and two of them.\<close>

lemma sample_page:
  "snd (merge_federated_results sample_sorted sample_federation sample_results) =
     [[(''id'', VNum 7 ''7'')], [(''id'', VNum 2 ''2'')]]"
  by code_simp

lemma add_column_foldl:
  "distinct cols \<Longrightarrow> distinct (foldl add_column cols ks) \<and> set (foldl add_column cols ks) = set cols \<union> set ks"
  by (induction ks arbitrary: cols) (auto simp: add_column_def)

text \<open>
  The columns of a wildcard result: no column is listed twice, and every key of every returned row is
  among the columns.
\<close>

theorem wildcard_columns_complete:
  assumes "is_wildcard_projection ir" "merge_federated_results ir fp results = (cols, rows)"
  shows "distinct cols \<and> list_all (\<lambda>r. list_all (\<lambda>(k, v). k \<in> set cols) r) rows"
proof -
  let ?all = "merged_rows ir results"
  have cols: "cols = wildcard_columns fp ?all"
    using assms by (simp add: merge_federated_results_def merged_columns_def)
  have "distinct cols" "\<And>r k v. r \<in> set ?all \<Longrightarrow> (k, v) \<in> set r \<Longrightarrow> k \<in> set cols"
    unfolding cols wildcard_columns_def Let_def by (force simp: add_column_foldl)+
  moreover have "set rows \<subseteq> set ?all"
  proof -
    have "rows = paginate ir (sort_rows ir ?all)" using merge_rows [of ir fp results] assms(2) by simp
    moreover have "set (paginate ir xs) \<subseteq> set xs" for xs
      by (auto simp: paginate_def Let_def split: option.splits if_splits dest: in_set_takeD in_set_dropD)
    moreover have "set (sort_rows ir ?all) = set ?all" by (simp add: sort_rows_def)
    ultimately show ?thesis by metis
  qed
  ultimately show ?thesis by (fastforce simp: list_all_iff)
qed

lemma wildcard_columns_complete_witness:
  "distinct (fst (merge_federated_results sample_sorted sample_federation sample_results))"
proof -
  have "is_wildcard_projection sample_sorted" by code_simp
  from wildcard_columns_complete [OF this prod.collapse [symmetric]] show ?thesis by simp
qed

section \<open>Where sorting does not do what the query asks\<close>

text \<open>
  A sort column that is not projected: no formatted row has it, so all rows compare equal, and the merged
  rows stay in the order of the sources.
\<close>

lemma order_row_keys: "fst ` set (order_row ir r) \<subseteq> column_name ` set (projection ir)"
proof -
  have "fst ` set (foldl (\<lambda>d sel.
       let out_col = column_name sel; src_key = leaf (sel_path sel) in
       case first_present r [out_col, src_key, py_lower out_col, py_lower src_key] of
         Some v \<Rightarrow> dict_set out_col v d | None \<Rightarrow> d) [] sels) \<subseteq> column_name ` set sels" for sels
    by (induction sels rule: rev_induct) (auto simp: Let_def split: option.splits dest!: update_mem)
  then show ?thesis unfolding order_row_def .
qed

lemma unprojected_sort_ignored:
  assumes "\<not> is_wildcard_projection ir" "sort_specs ir = [(n, d)]" "n \<notin> column_name ` set (projection ir)"
    and "dict_get (alias_map ir) n = None" "dict_get (alias_map ir) (py_lower n) = None"
  shows "sort_rows ir (merged_rows ir results) = merged_rows ir results"
proof -
  have same: "row_compare (alias_map ir) (sort_specs ir) a b = 0" if "a \<in> set (merged_rows ir results)"
    "b \<in> set (merged_rows ir results)" for a b
  proof -
    have "sort_value_of (alias_map ir) n r = VNone" if "r \<in> set (merged_rows ir results)" for r
    proof -
      from that obtain nr where "r = order_row ir nr"
        using assms(1) by (auto simp: merged_rows_def format_row_def Let_def)
      then have "dict_get r n = None" using order_row_keys [of ir nr] assms(3) by (auto simp: map_of_eq_None_iff)
      then show ?thesis using assms(4,5) by (simp add: sort_value_of_def row_get_def Let_def)
    qed
    with that show ?thesis by (simp add: assms(2) compare_values_def)
  qed
  have "sort_by cmp xs = xs" if "\<forall>a \<in> set xs. \<forall>b \<in> set xs. cmp a b = 0" for cmp :: "row \<Rightarrow> row \<Rightarrow> int" and xs
    using that by (induction xs) (auto, case_tac xs, auto)
  with same show ?thesis by (simp add: sort_rows_def)
qed

text \<open>Numbers and texts in one column: the comparison has a cycle, so that there is no sorted order.\<close>

lemma comparison_cycle:
  "compare_values (VNum 9 ''9'') (VNum 10 ''10'') = -1 \<and> compare_values (VNum 10 ''10'') (VStr ''9'') = -1 \<and>
   compare_values (VStr ''9'') (VNum 9 ''9'') = 0"
  by (simp add: compare_values_def)

end
