(* ===== verification/Planning.thy ===== *)
theory Planning
  imports Merging Postgres_Statements "HOL-Library.Product_Lexorder"
begin

text \<open>
  Source selection and query planning (\<open>query_engine/planning/selector.py\<close>, \<open>planner.py\<close>): the logical
  context of a query, the evaluation of candidate mappings, the pushdown of limits, the ephemeral
  projection of physical entities that no model maps, and the compilation of the plans. The lowerers of
  the dialects are looked up in a registry (\<open>lowering/registry.py\<close>), an argument here; the services that
  the planner asks (mappings, schemas, sources) are arguments too, as they read a database.
\<close>

datatype plan_error =
    QueryError query_error
  | NoActiveSourceMappingError string "string option"
  | IncompleteFieldMappingError string "string list"
  | SourceCapabilityMismatchError string string
  | PhysicalEntityNotFoundError string
  | UnsupportedDialectError string
  | UnknownSourceType string

section \<open>The logical context\<close>

definition alias_to_canonical :: "query_ir \<Rightarrow> string dict" where
  "alias_to_canonical ir =
     dict_of (concat (map (\<lambda>sel. case sel_alias sel of
         Some a \<Rightarrow> if a = [] then [] else [(py_lower a, root (sel_path sel))]
       | None \<Rightarrow> []) (projection ir)))"

fun collect_expr_fields :: "expression \<Rightarrow> string list" where
  "collect_expr_fields (FieldExpression fp op v) = [root fp]"
| "collect_expr_fields (LogicalExpression op l r) = collect_expr_fields l @ collect_expr_fields r"
| "collect_expr_fields (NegationExpression e) = collect_expr_fields e"

definition sort_field_name :: "query_ir \<Rightarrow> field_path \<Rightarrow> string" where
  "sort_field_name ir fp =
     (case dict_get (alias_to_canonical ir) (py_lower (root fp)) of Some c \<Rightarrow> c | None \<Rightarrow> root fp)"

definition extract_logical_context :: "query_ir \<Rightarrow> string option \<Rightarrow> plan_context" where
  "extract_logical_context ir model =
     \<lparr>pc_logical_model_id = model, pc_target_entity = entity ir, pc_operation = operation ir,
      pc_is_wildcard = is_wildcard_projection ir,
      pc_projected = (if is_wildcard_projection ir then [] else map (root \<circ> sel_path) (projection ir)),
      pc_filters = (case where_clause ir of None \<Rightarrow> [] | Some e \<Rightarrow> collect_expr_fields e),
      pc_mutations = map (root \<circ> ma_field) (assignments ir) @
        concat (map (\<lambda>rec. map (root \<circ> ma_field) (cr_assignments rec)) (records ir)),
      pc_sorts = map (sort_field_name ir \<circ> sc_field) (sort_clauses ir) @
        (case ranking ir of None \<Rightarrow> [] | Some r \<Rightarrow> [sort_field_name ir (rc_field r)]),
      pc_requires_returning = (operation ir = CREATE \<or> operation ir = UPDATE \<or> operation ir = DELETE),
      pc_requires_transactions = False\<rparr>"

section \<open>Candidates\<close>

text \<open>\<open>coerce_source_type\<close>: the values and the names of the enum agree, so the second try fails too.\<close>

definition coerce_source_type :: "string \<Rightarrow> plan_error + source_type" where
  "coerce_source_type s =
     (case find (\<lambda>t. source_type_name t = py_upper s) [POSTGRESQL, SQLITE, MYSQL, MONGODB] of
        Some t \<Rightarrow> Inr t | None \<Rightarrow> Inl (UnknownSourceType s))"

datatype parameter_style =
    POSITIONAL_NUMERIC | POSITIONAL_QMARK | POSITIONAL_FORMAT | NAMED | DOCUMENT_BSON

record source_capabilities =
  cap_schema_discovery :: bool
  cap_read :: bool
  cap_write :: bool
  cap_cdc :: bool
  cap_batch_execution :: bool
  cap_streaming :: bool
  cap_custom_query :: bool
  cap_supports_transactions :: bool
  cap_supports_returning :: bool
  cap_supports_date_only_equality :: bool
  cap_parameter_style :: parameter_style
  cap_max_batch_size :: "nat option"
  cap_entity_types :: "string list"
  cap_supported_operations :: "string list"

definition default_capabilities :: source_capabilities where
  "default_capabilities =
     \<lparr>cap_schema_discovery = True, cap_read = True, cap_write = True, cap_cdc = False,
      cap_batch_execution = True, cap_streaming = False, cap_custom_query = False,
      cap_supports_transactions = True, cap_supports_returning = True,
      cap_supports_date_only_equality = True, cap_parameter_style = POSITIONAL_NUMERIC,
      cap_max_batch_size = Some 1000, cap_entity_types = [], cap_supported_operations = []\<rparr>"

definition get_static_source_capabilities :: "source_type \<Rightarrow> source_capabilities" where
  "get_static_source_capabilities t =
     (case t of
        POSTGRESQL \<Rightarrow> default_capabilities
          \<lparr>cap_custom_query := True, cap_supports_returning := True, cap_parameter_style := POSITIONAL_NUMERIC,
           cap_entity_types := [''TABLE'', ''VIEW''], cap_supported_operations := [''SELECT'', ''INSERT'', ''UPDATE'', ''DELETE'', ''SCHEMA_DISCOVERY'']\<rparr>
      | MYSQL \<Rightarrow> default_capabilities
          \<lparr>cap_custom_query := True, cap_supports_returning := False, cap_parameter_style := POSITIONAL_FORMAT,
           cap_entity_types := [''TABLE'', ''VIEW''], cap_supported_operations := [''SELECT'', ''INSERT'', ''UPDATE'', ''DELETE'', ''SCHEMA_DISCOVERY'']\<rparr>
      | SQLITE \<Rightarrow> default_capabilities
          \<lparr>cap_custom_query := True, cap_supports_returning := True, cap_parameter_style := POSITIONAL_QMARK,
           cap_entity_types := [''TABLE'', ''VIEW''], cap_supported_operations := [''SELECT'', ''INSERT'', ''UPDATE'', ''DELETE'', ''SCHEMA_DISCOVERY'']\<rparr>
      | MONGODB \<Rightarrow> default_capabilities
          \<lparr>cap_custom_query := True, cap_supports_returning := True, cap_parameter_style := DOCUMENT_BSON,
           cap_entity_types := [''COLLECTION''], cap_supported_operations := [''find'', ''insert_many'', ''update_many'', ''delete_many'', ''SCHEMA_DISCOVERY'']\<rparr>)"

definition mapped_fields :: "source_candidate \<Rightarrow> string list" where
  "mapped_fields c =
     map py_lower (filter (\<lambda>n. n \<noteq> []) (map rfi_logical_field_name (cand_field_mappings c))) @
     map py_lower (filter (\<lambda>n. n \<noteq> []) (map rfi_physical_field_name (cand_field_mappings c)))"

text \<open>The referenced fields are a Python \<open>set\<close>; its order is that of the first mention here.\<close>

definition unmapped_fields :: "plan_context \<Rightarrow> source_candidate \<Rightarrow> string list" where
  "unmapped_fields ctx c =
     (let mapped = mapped_fields c in
      filter (\<lambda>f. f \<notin> set mapped \<and> rstrip_s f \<notin> rstrip_s ` set mapped)
        (remdups (map py_lower (all_referenced_fields ctx))))"

definition missing_capabilities :: "plan_context \<Rightarrow> source_type \<Rightarrow> string list" where
  "missing_capabilities ctx t =
     (if pc_operation ctx \<noteq> READ \<and> \<not> cap_custom_query (get_static_source_capabilities t)
      then [''custom_query''] else [])"

definition evaluate_candidate :: "plan_context \<Rightarrow> source_candidate \<Rightarrow> plan_error + candidate_evaluation" where
  "evaluate_candidate ctx c =
     bindE (coerce_source_type (cand_source_type c)) (\<lambda>t.
     (let unmapped = unmapped_fields ctx c;
          missing = (if unmapped = [] then missing_capabilities ctx t else []);
          reason = (if unmapped \<noteq> [] then
                      Some (''Candidate does not map required logical field(s): '' @ join '', '' unmapped)
                    else if missing \<noteq> [] then
                      Some (''Candidate lacks required capabilities: '' @ join '', '' missing)
                    else None)
      in Inr \<lparr>ev_source_id = cand_source_id c, ev_source_name = cand_source_name c, ev_source_type = t,
              ev_mapping_id = cand_mapping_id c, ev_physical_entity = cand_physical_entity c,
              ev_is_eligible = (unmapped = [] \<and> missing = []), ev_rejection_reason = reason,
              ev_unmapped_fields = unmapped, ev_missing_capabilities = missing\<rparr>))"

definition evaluate_candidates ::
  "plan_context \<Rightarrow> source_candidate list \<Rightarrow> plan_error + source_candidate list \<times> candidate_evaluation list" where
  "evaluate_candidates ctx cs =
     bindE (mapE (evaluate_candidate ctx) cs) (\<lambda>evs.
     Inr (map fst (filter (\<lambda>(c, ev). ev_is_eligible ev) (zip cs evs)), evs))"

text \<open>The candidates are sorted by the pair of source and mapping.\<close>

definition candidate_key :: "source_candidate \<Rightarrow> string \<times> string" where
  "candidate_key c = (cand_source_id c, cand_mapping_id c)"

definition select_all_eligible_sources ::
  "plan_context \<Rightarrow> source_candidate list \<Rightarrow> plan_error + source_candidate list \<times> candidate_evaluation list" where
  "select_all_eligible_sources ctx cs =
     (if cs = [] then Inl (NoActiveSourceMappingError (pc_target_entity ctx) (pc_logical_model_id ctx))
      else bindE (evaluate_candidates ctx cs) (\<lambda>(eligible, evs).
        (let unmapped = remdups (concat (map ev_unmapped_fields evs));
             caps = remdups (concat (map ev_missing_capabilities evs))
         in if eligible = [] then
              (if unmapped \<noteq> [] then Inl (IncompleteFieldMappingError (pc_target_entity ctx) (sort unmapped))
               else if caps \<noteq> [] then
                 Inl (SourceCapabilityMismatchError (pc_target_entity ctx) (join '', '' (sort caps)))
               else Inl (NoActiveSourceMappingError (pc_target_entity ctx) (pc_logical_model_id ctx)))
            else Inr (sort_key candidate_key eligible, evs))))"

definition select_source ::
  "plan_context \<Rightarrow> source_candidate list \<Rightarrow> plan_error + source_candidate \<times> candidate_evaluation list" where
  "select_source ctx cs =
     bindE (select_all_eligible_sources ctx cs) (\<lambda>(eligible, evs). Inr (hd eligible, evs))"

section \<open>Pushdown of limits\<close>

definition has_limit :: "query_ir \<Rightarrow> bool" where
  "has_limit ir \<longleftrightarrow>
     (case limit ir of Some n \<Rightarrow> 0 \<le> n | None \<Rightarrow> False) \<or>
     (case ranking ir of Some r \<Rightarrow> 0 \<le> rc_count r | None \<Rightarrow> False)"

definition pushed_limit :: "query_ir \<Rightarrow> int option" where
  "pushed_limit ir =
     (if (sort_clauses ir \<noteq> [] \<or> ranking ir \<noteq> None) \<and> has_limit ir then
        Some ((case offset ir of Some k \<Rightarrow> if 0 < k then k else 0 | None \<Rightarrow> 0) +
              (case limit ir of Some n \<Rightarrow> n | None \<Rightarrow> (case ranking ir of Some r \<Rightarrow> rc_count r | None \<Rightarrow> 0)))
      else None)"

text \<open>\<open>ir.model_copy(update=_compute_federated_plan_ir_updates(ir))\<close>.\<close>

definition federated_plan_ir :: "query_ir \<Rightarrow> query_ir" where
  "federated_plan_ir ir = ir
     \<lparr>offset := None, limit := pushed_limit ir,
      sort_clauses :=
        (case ranking ir of
           Some r \<Rightarrow> if sort_clauses ir = []
             then [SortClause (rc_field r) (if rc_direction r = TOP then DESC else ASC)] else sort_clauses ir
         | None \<Rightarrow> sort_clauses ir),
      ranking := None\<rparr>"

section \<open>Ephemeral projections\<close>

definition discovered_fields :: "source \<Rightarrow> entity_schema \<Rightarrow> field_schema list" where
  "discovered_fields src e = filter (\<lambda>f. \<not> (fs_name f = ''_id'' \<and> src_type src = MONGODB)) (es_fields e)"

definition source_field_map :: "source \<Rightarrow> entity_schema \<Rightarrow> field_schema dict" where
  "source_field_map src e = dict_of (map (\<lambda>f. (py_lower (fs_name f), f)) (discovered_fields src e))"

type_synonym discovered = "source \<times> source_schema \<times> entity_schema"

definition source_field_maps :: "discovered list \<Rightarrow> field_schema dict dict" where
  "source_field_maps ms = dict_of (map (\<lambda>(src, schema, e). (src_id src, source_field_map src e)) ms)"

text \<open>\<open>source_field_maps[src.id][name]\<close>.\<close>

definition field_in :: "discovered list \<Rightarrow> string \<Rightarrow> string \<Rightarrow> field_schema option" where
  "field_in ms sid n = (case dict_get (source_field_maps ms) sid of None \<Rightarrow> None | Some m \<Rightarrow> dict_get m n)"

definition source_ids :: "discovered list \<Rightarrow> string list" where
  "source_ids ms = map (\<lambda>(src, schema, e). src_id src) ms"

definition field_names_in :: "discovered list \<Rightarrow> string list \<Rightarrow> string \<Rightarrow> string dict" where
  "field_names_in ms sids n =
     dict_of (concat (map (\<lambda>sid. case field_in ms sid n of Some f \<Rightarrow> [(sid, fs_name f)] | None \<Rightarrow> []) sids))"

text \<open>Wildcard: the fields of the first source that all have, with compatible types.\<close>

definition common_field :: "discovered list \<Rightarrow> field_schema \<Rightarrow> ephemeral_field option" where
  "common_field ms f =
     (let n = py_lower (fs_name f) in
      if \<not> list_all (\<lambda>sid. field_in ms sid n \<noteq> None) (source_ids ms) then None
      else if \<not> list_all (\<lambda>sid. case field_in ms sid n of Some g \<Rightarrow> types_compatible (fs_data_type f) (fs_data_type g)
                | None \<Rightarrow> False) (source_ids ms) then None
      else Some \<lparr>ef_name = fs_name f, ef_data_type = type_name (fs_data_type f),
                 ef_is_primary_key = fs_primary_key f,
                 ef_source_field_names = field_names_in ms (source_ids ms) n\<rparr>)"

definition missing_fields :: "discovered list \<Rightarrow> string list \<Rightarrow> source \<Rightarrow> string list" where
  "missing_fields ms referenced src = filter (\<lambda>r. field_in ms (src_id src) (py_lower r) = None) referenced"

definition missing_exclusion :: "source \<Rightarrow> entity_schema \<Rightarrow> string list \<Rightarrow> source_exclusion" where
  "missing_exclusion src e missing =
     \<lparr>xs_source_id = src_id src, xs_source_name = Some (src_name src),
      xs_source_type = Some (source_type_name (src_type src)), xs_physical_entity = Some (es_name e),
      xs_status = EXCLUDED, xs_reason = INCOMPLETE_FIELD_MAPPING,
      xs_message = ''Physical entity '' @ quoted (es_name e) @ '' in source '' @ quoted (src_name src) @
        '' does not contain requested field(s): '' @ join '', '' missing @ ''.''\<rparr>"

definition requested_field :: "discovered list \<Rightarrow> string list \<Rightarrow> string \<Rightarrow> ephemeral_field" where
  "requested_field ms participating r =
     (let first = (case participating of [] \<Rightarrow> None | sid # _ \<Rightarrow> field_in ms sid (py_lower r)) in
      \<lparr>ef_name = r,
       ef_data_type = (case first of Some f \<Rightarrow> type_name (fs_data_type f) | None \<Rightarrow> ''STRING''),
       ef_is_primary_key = (case first of Some f \<Rightarrow> fs_primary_key f | None \<Rightarrow> False),
       ef_source_field_names = field_names_in ms participating (py_lower r)\<rparr>)"

definition referenced_by :: "plan_context \<Rightarrow> string list" where
  "referenced_by ctx = (if pc_projected ctx \<noteq> [] then pc_projected ctx else all_referenced_fields ctx)"

definition synthesize_ephemeral_projection ::
  "plan_context \<Rightarrow> discovered list \<Rightarrow> source_exclusion list \<Rightarrow> ephemeral_projection" where
  "synthesize_ephemeral_projection ctx ms excluded =
     (let result = (\<lambda>fields participating exs. \<lparr>ep_entity_name = pc_target_entity ctx,
            ep_canonical_fields = fields, ep_participating = participating, ep_excluded = exs\<rparr>)
      in case ms of
        [] \<Rightarrow> result [] [] excluded
      | (first_src, first_schema, first_entity) # _ \<Rightarrow>
          if pc_is_wildcard ctx then
            result (List.map_filter (common_field ms) (discovered_fields first_src first_entity)) (source_ids ms) excluded
          else
            (let referenced = referenced_by ctx;
                 lacking = filter (\<lambda>(src, schema, e). missing_fields ms referenced src \<noteq> []) ms;
                 participating = source_ids (filter (\<lambda>(src, schema, e). missing_fields ms referenced src = []) ms)
             in result (if participating = [] then [] else map (requested_field ms participating) referenced)
                  participating
                  (excluded @ map (\<lambda>(src, schema, e). missing_exclusion src e (missing_fields ms referenced src)) lacking)))"

section \<open>Selection: what it guarantees\<close>

lemma evaluate_candidate_facts:
  assumes "evaluate_candidate ctx c = Inr ev"
  shows "ev_source_id ev = cand_source_id c" "ev_mapping_id ev = cand_mapping_id c"
    and "ev_unmapped_fields ev = unmapped_fields ctx c"
    and "ev_is_eligible ev \<longleftrightarrow> unmapped_fields ctx c = []"
  using assms
  by (auto simp: evaluate_candidate_def bindE_Inr_iff Let_def missing_capabilities_def
      get_static_source_capabilities_def default_capabilities_def split: source_type.splits)

text \<open>Every candidate has a known source type: then every candidate is evaluated.\<close>

definition known_type :: "source_candidate \<Rightarrow> bool" where
  "known_type c \<longleftrightarrow> (case coerce_source_type (cand_source_type c) of Inl e \<Rightarrow> False | Inr t \<Rightarrow> True)"

definition evaluation :: "plan_context \<Rightarrow> source_candidate \<Rightarrow> candidate_evaluation" where
  "evaluation ctx c = projr (evaluate_candidate ctx c)"

definition covers :: "plan_context \<Rightarrow> source_candidate \<Rightarrow> bool" where
  "covers ctx c \<longleftrightarrow> unmapped_fields ctx c = []"

lemma evaluate_candidate_known: "known_type c \<Longrightarrow> evaluate_candidate ctx c = Inr (evaluation ctx c)"
  by (auto simp: known_type_def evaluation_def evaluate_candidate_def Let_def split: sum.splits)

lemma evaluate_candidate_Inr: "evaluate_candidate ctx c = Inr ev \<Longrightarrow> known_type c \<and> ev = evaluation ctx c"
  by (auto simp: known_type_def evaluation_def evaluate_candidate_def bindE_Inr_iff Let_def)

lemma evaluation_facts:
  assumes "known_type c"
  shows "ev_unmapped_fields (evaluation ctx c) = unmapped_fields ctx c"
    and "ev_is_eligible (evaluation ctx c) \<longleftrightarrow> covers ctx c"
  using evaluate_candidate_facts [OF evaluate_candidate_known [OF assms]] by (simp_all add: covers_def)

lemma evaluate_all:
  "mapE (evaluate_candidate ctx) cs = Inr evs \<longleftrightarrow> list_all known_type cs \<and> evs = map (evaluation ctx) cs"
proof (induction cs arbitrary: evs)
  case (Cons c cs)
  show ?case
  proof (cases "evaluate_candidate ctx c")
    case (Inl e)
    then have "\<not> known_type c" using evaluate_candidate_known by fastforce
    then show ?thesis by (simp add: Inl)
  next
    case (Inr ev)
    then show ?thesis using evaluate_candidate_Inr [OF Inr] by (auto simp: bindE_Inr_iff Cons.IH)
  qed
qed auto

lemma eligible_candidates:
  "list_all known_type cs \<Longrightarrow>
     map fst (filter (\<lambda>(c, ev). ev_is_eligible ev) (zip cs (map (evaluation ctx) cs))) = filter (covers ctx) cs"
  by (induction cs) (simp_all add: evaluation_facts)

lemma evaluate_candidates_Inr:
  "evaluate_candidates ctx cs = Inr (eligible, evs) \<longleftrightarrow>
     list_all known_type cs \<and> eligible = filter (covers ctx) cs \<and> evs = map (evaluation ctx) cs"
  by (auto simp: evaluate_candidates_def bindE_Inr_iff evaluate_all eligible_candidates)

lemma select_success:
  "select_all_eligible_sources ctx cs = Inr (es, evs) \<longleftrightarrow>
     list_all known_type cs \<and> evs = map (evaluation ctx) cs \<and> filter (covers ctx) cs \<noteq> [] \<and>
     es = sort_key candidate_key (filter (covers ctx) cs)"
  by (cases "cs = []")
    (auto simp: select_all_eligible_sources_def bindE_Inr_iff evaluate_candidates_Inr Let_def split: if_splits)

text \<open>
  C25. Selection is deterministic: it picks exactly the candidates that map every referenced field, in the
  order of source and mapping ids, and the result does not depend on the order in which the registry
  lists the candidates.
\<close>

theorem selection_order_independent:
  assumes "select_all_eligible_sources ctx cs = Inr (es, evs)" "mset cs' = mset cs" "inj_on candidate_key (set cs)"
  shows "set es = set (filter (covers ctx) cs) \<and> sorted (map candidate_key es) \<and>
    (\<exists>evs'. select_all_eligible_sources ctx cs' = Inr (es, evs') \<and> mset evs' = mset evs)"
proof -
  have known: "list_all known_type cs" and evs: "evs = map (evaluation ctx) cs" and ne: "filter (covers ctx) cs \<noteq> []"
    and es: "es = sort_key candidate_key (filter (covers ctx) cs)"
    using assms(1) by (simp_all add: select_success)
  have sets: "set cs' = set cs" using assms(2) by (rule mset_eq_setD)
  have same: "mset (filter (covers ctx) cs') = mset (filter (covers ctx) cs)" using assms(2) by (simp add: mset_filter)
  have "sort_key candidate_key (filter (covers ctx) cs') = es"
  proof (rule sort_key_inj_key_eq)
    show "mset (filter (covers ctx) cs') = mset es" using same by (simp add: es)
    show "inj_on candidate_key (set (filter (covers ctx) cs'))" using assms(3) by (auto simp: sets inj_on_def)
  qed (simp add: es)
  moreover have "filter (covers ctx) cs' \<noteq> []" using ne same by (metis mset_zero_iff)
  moreover have "list_all known_type cs'" using known by (simp add: list_all_iff sets)
  ultimately have "select_all_eligible_sources ctx cs' = Inr (es, map (evaluation ctx) cs')"
    by (simp add: select_success)
  moreover have "mset (map (evaluation ctx) cs') = mset evs" using assms(2) by (simp add: evs)
  ultimately show ?thesis by (auto simp: es)
qed

definition sample_candidate :: "string \<Rightarrow> string \<Rightarrow> source_candidate" where
  "sample_candidate sid fld =
     \<lparr>cand_mapping_id = ''m'' @ sid, cand_mapping_status = ACTIVE,
      cand_mapping_provenance = USER, cand_source_id = sid, cand_source_name = sid,
      cand_source_type = ''postgresql'', cand_entity_mapping_id = ''em'', cand_physical_entity = ''t_users'', cand_physical_namespace = ''public'',
      cand_field_mappings = [\<lparr>rfi_logical_field_id = ''f'', rfi_logical_field_name = fld, rfi_physical_field_name = ''uid'',
        rfi_transformation_rule = None, rfi_logical_data_type = None, rfi_physical_data_type = None\<rparr>]\<rparr>"

definition sample_context :: plan_context where
  "sample_context = extract_logical_context sample_sorted None"

lemma selection_order_independent_witness:
  "\<exists>evs'. select_all_eligible_sources sample_context [sample_candidate ''a'' ''id'', sample_candidate ''b'' ''ID''] =
     Inr ([sample_candidate ''a'' ''id'', sample_candidate ''b'' ''ID''], evs')"
proof -
  let ?a = "sample_candidate ''a'' ''id''" and ?b = "sample_candidate ''b'' ''ID''"
  have "list_all known_type [?b, ?a]" "filter (covers sample_context) [?b, ?a] = [?b, ?a]"
    "sort_key candidate_key [?b, ?a] = [?a, ?b]"
    by code_simp+
  then have "select_all_eligible_sources sample_context [?b, ?a] = Inr ([?a, ?b], map (evaluation sample_context) [?b, ?a])"
    unfolding select_success by (simp only: list.distinct simp_thms not_False_eq_True)
  moreover have "inj_on candidate_key (set [?b, ?a])" by (simp add: candidate_key_def sample_candidate_def)
  moreover have "mset [?a, ?b] = mset [?b, ?a]" by simp
  ultimately show ?thesis using selection_order_independent by blast
qed

text \<open>
  C26. When no candidate covers the query, the error names the reason: with candidates of known source
  types none of which maps all fields, the error is the incomplete mapping, and it lists, sorted and
  without repetition, exactly the fields that some candidate lacks.
\<close>

theorem selection_incomplete:
  assumes "list_all known_type cs" "\<not> list_ex (covers ctx) cs" "cs \<noteq> []"
  shows "\<exists>fs. select_all_eligible_sources ctx cs = Inl (IncompleteFieldMappingError (pc_target_entity ctx) fs) \<and>
    sorted fs \<and> distinct fs \<and> fs \<noteq> [] \<and> set fs = (\<Union>c \<in> set cs. set (unmapped_fields ctx c))"
proof (intro exI conjI)
  let ?lacking = "remdups (concat (map ev_unmapped_fields (map (evaluation ctx) cs)))"
  have none: "filter (covers ctx) cs = []" using assms(2) by (induction cs) auto
  have ev: "evaluate_candidates ctx cs = Inr ([], map (evaluation ctx) cs)"
    using assms(1) none by (simp add: evaluate_candidates_Inr)
  show all: "set (sort ?lacking) = (\<Union>c \<in> set cs. set (unmapped_fields ctx c))"
    using assms(1) by (auto simp: list_all_iff evaluation_facts)
  obtain c where "c \<in> set cs" "unmapped_fields ctx c \<noteq> []"
    using none assms(3) by (cases cs) (auto simp: covers_def split: if_splits)
  then have "set (sort ?lacking) \<noteq> {}" unfolding all by (auto dest: last_in_set)
  then show ne: "sort ?lacking \<noteq> []" by (metis set_empty)
  then have "?lacking \<noteq> []" by (metis sort_key_simps(1))
  then show "select_all_eligible_sources ctx cs = Inl (IncompleteFieldMappingError (pc_target_entity ctx) (sort ?lacking))"
    using assms(3) ev by (simp add: select_all_eligible_sources_def Let_def del: map_map set_concat remdups_eq_nil_iff)
qed simp_all

lemma selection_incomplete_witness:
  "\<exists>fs. select_all_eligible_sources sample_context [sample_candidate ''a'' ''name''] =
     Inl (IncompleteFieldMappingError ''users'' fs) \<and> fs \<noteq> []"
proof -
  have "list_all known_type [sample_candidate ''a'' ''name'']"
    "\<not> list_ex (covers sample_context) [sample_candidate ''a'' ''name'']"
    "pc_target_entity sample_context = ''users''"
    by code_simp+
  then show ?thesis using selection_incomplete [of "[sample_candidate ''a'' ''name'']" sample_context] by auto
qed

end
