(* ===== verification/Registry_Store.thy ===== *)
theory Registry_Store
  imports Schema Plan_Data
begin

text \<open>
  The metadata store: the tables of \<open>infrastructure/database/models.py\<close> and the repositories over them,
  \<open>infrastructure/database/repository.py\<close> and \<open>registry_repository.py\<close>. A table is a list of rows. Tables
  that are read \<open>ORDER BY updated_at DESC\<close> (or \<open>created_at\<close>, \<open>discovered_at\<close>) hold the row that was
  written last first: the clock is taken to be strictly increasing, and timestamps are left out. A failed
  write raises \<open>IntegrityError\<close>, and the session is rolled back. \<open>st_foreign_keys\<close> is SQLite's
  \<open>PRAGMA foreign_keys\<close> of the connection: without it neither references are checked nor
  \<open>ON DELETE CASCADE\<close> is carried out.
\<close>

datatype registry_error =
    LogicalModelNotFoundError string
  | LogicalModelAlreadyExistsError string
  | LogicalEntityNotFoundError string
  | LogicalFieldNotFoundError string
  | SourceMappingNotFoundError string
  | MappingValidationError string
  | DuplicateMappingError string string string
  | SourceNotFoundError string
  | SourceAlreadyExistsError string
  | SchemaDiscoveryError string
  | IntegrityError

section \<open>Tables\<close>

record model_row =
  mr_id :: string
  mr_name :: string
  mr_version :: string
  mr_description :: "string option"

record entity_row =
  er_id :: string
  er_model_id :: string
  er_name :: string
  er_description :: "string option"

record mapping_row =
  mp_id :: string
  mp_model_id :: string
  mp_source_id :: string
  mp_version :: string
  mp_status :: mapping_status
  mp_provenance :: mapping_provenance
  mp_error :: "string option"

record entity_mapping_row =
  emr_id :: string
  emr_source_mapping_id :: string
  emr_logical_id :: string
  emr_logical_name :: string
  emr_physical_name :: string
  emr_namespace :: string

text \<open>The rows of fields and of field mappings have the columns of the domain objects.\<close>

record registry_store =
  st_sources :: "source list"
  st_snapshots :: "(string \<times> source_schema) list"
  st_models :: "model_row list"
  st_entities :: "entity_row list"
  st_fields :: "logical_field list"
  st_mappings :: "mapping_row list"
  st_entity_mappings :: "entity_mapping_row list"
  st_field_mappings :: "field_mapping list"
  st_foreign_keys :: bool

type_synonym 'a result = "registry_error + 'a \<times> registry_store"

definition find_row :: "('r \<Rightarrow> string) \<Rightarrow> string \<Rightarrow> 'r list \<Rightarrow> 'r option" where
  "find_row key k table = find (\<lambda>r. key r = k) table"

text \<open>A new row comes first in a table that is read by recency, and last in the others.\<close>

definition insert_first :: "('r \<Rightarrow> string) \<Rightarrow> 'r \<Rightarrow> 'r list \<Rightarrow> registry_error + 'r list" where
  "insert_first key r table = (if key r \<in> key ` set table then Inl IntegrityError else Inr (r # table))"

definition insert_last :: "('r \<Rightarrow> string) \<Rightarrow> 'r \<Rightarrow> 'r list \<Rightarrow> registry_error + 'r list" where
  "insert_last key r table = (if key r \<in> key ` set table then Inl IntegrityError else Inr (table @ [r]))"

fun insert_all :: "('r \<Rightarrow> string) \<Rightarrow> 'r list \<Rightarrow> 'r list \<Rightarrow> registry_error + 'r list" where
  "insert_all key [] table = Inr table"
| "insert_all key (r # rs) table = bindE (insert_last key r table) (insert_all key rs)"

definition update_row :: "('r \<Rightarrow> string) \<Rightarrow> string \<Rightarrow> ('r \<Rightarrow> 'r) \<Rightarrow> 'r list \<Rightarrow> 'r list" where
  "update_row key k f table = map (\<lambda>r. if key r = k then f r else r) table"

text \<open>Writing \<open>updated_at\<close> brings a row to the front.\<close>

definition touch_row :: "('r \<Rightarrow> string) \<Rightarrow> string \<Rightarrow> 'r list \<Rightarrow> 'r list" where
  "touch_row key k table = filter (\<lambda>r. key r = k) table @ filter (\<lambda>r. key r \<noteq> k) table"

definition delete_rows :: "('r \<Rightarrow> bool) \<Rightarrow> 'r list \<Rightarrow> 'r list" where
  "delete_rows P table = filter (\<lambda>r. \<not> P r) table"

text \<open>A foreign key of a new row.\<close>

definition check_reference :: "registry_store \<Rightarrow> bool \<Rightarrow> registry_error + unit" where
  "check_reference st found = raise_if (st_foreign_keys st \<and> \<not> found) IntegrityError"

section \<open>From rows to domain objects\<close>

definition entity_to_domain :: "registry_store \<Rightarrow> entity_row \<Rightarrow> logical_entity" where
  "entity_to_domain st e =
     \<lparr>le_id = er_id e, le_model_id = er_model_id e, le_name = er_name e, le_description = er_description e,
      le_fields = sort_key lf_name (filter (\<lambda>f. lf_entity_id f = er_id e) (st_fields st))\<rparr>"

definition model_to_domain :: "registry_store \<Rightarrow> model_row \<Rightarrow> logical_model" where
  "model_to_domain st m =
     \<lparr>lm_id = mr_id m, lm_name = mr_name m, lm_version = mr_version m, lm_description = mr_description m,
      lm_entities = map (entity_to_domain st)
        (sort_key er_name (filter (\<lambda>e. er_model_id e = mr_id m) (st_entities st)))\<rparr>"

definition entity_mapping_to_domain :: "registry_store \<Rightarrow> entity_mapping_row \<Rightarrow> entity_mapping" where
  "entity_mapping_to_domain st em =
     \<lparr>em_id = emr_id em, em_source_mapping_id = emr_source_mapping_id em, em_logical_id = emr_logical_id em,
      em_logical_name = emr_logical_name em, em_physical_name = emr_physical_name em,
      em_namespace = emr_namespace em,
      em_fields = filter (\<lambda>f. fm_entity_mapping_id f = emr_id em) (st_field_mappings st)\<rparr>"

definition source_mapping_to_domain :: "registry_store \<Rightarrow> mapping_row \<Rightarrow> source_mapping" where
  "source_mapping_to_domain st m =
     \<lparr>sm_id = mp_id m, sm_model_id = mp_model_id m, sm_source_id = mp_source_id m, sm_version = mp_version m,
      sm_status = mp_status m, sm_provenance = mp_provenance m, sm_error = mp_error m,
      sm_entities = map (entity_mapping_to_domain st)
        (filter (\<lambda>em. emr_source_mapping_id em = mp_id m) (st_entity_mappings st))\<rparr>"

section \<open>Sources and snapshots\<close>

definition get_source_by_id :: "registry_store \<Rightarrow> string \<Rightarrow> source option" where
  "get_source_by_id st i = find_row src_id i (st_sources st)"

definition get_source_by_name :: "registry_store \<Rightarrow> string \<Rightarrow> source option" where
  "get_source_by_name st n = find_row src_name n (st_sources st)"

definition insert_source :: "source \<Rightarrow> registry_store \<Rightarrow> source result" where
  "insert_source s st =
     bindE (raise_if (src_name s \<in> src_name ` set (st_sources st)) IntegrityError) (\<lambda>_.
     bindE (insert_first src_id s (st_sources st)) (\<lambda>t. Inr (s, st\<lparr>st_sources := t\<rparr>)))"

text \<open>An empty password keeps the stored one.\<close>

definition update_source_row :: "source \<Rightarrow> registry_store \<Rightarrow> source result" where
  "update_source_row s st =
     (case get_source_by_id st (src_id s) of
        None \<Rightarrow> Inl (SourceNotFoundError (src_id s))
      | Some old \<Rightarrow>
          (let s' = (if src_password s = None \<or> src_password s = Some [] then s\<lparr>src_password := src_password old\<rparr> else s)
           in if \<exists>r \<in> set (st_sources st). src_id r \<noteq> src_id s \<and> src_name r = src_name s then Inl IntegrityError
              else Inr (s', st\<lparr>st_sources := update_row src_id (src_id s) (\<lambda>_. s') (st_sources st)\<rparr>)))"

definition update_source_status :: "string \<Rightarrow> source_status \<Rightarrow> registry_store \<Rightarrow> registry_store" where
  "update_source_status i status st =
     st\<lparr>st_sources := update_row src_id i (\<lambda>s. s\<lparr>src_status := status\<rparr>) (st_sources st)\<rparr>"

definition save_schema_snapshot :: "string \<Rightarrow> source_schema \<Rightarrow> registry_store \<Rightarrow> registry_store" where
  "save_schema_snapshot i schema st = st\<lparr>st_snapshots := (i, schema) # st_snapshots st\<rparr>"

definition latest_snapshot :: "registry_store \<Rightarrow> string \<Rightarrow> source_schema option" where
  "latest_snapshot st i = map_of (st_snapshots st) i"

section \<open>Cascades\<close>

definition delete_field_mappings_of :: "(string \<Rightarrow> bool) \<Rightarrow> registry_store \<Rightarrow> registry_store" where
  "delete_field_mappings_of P st =
     st\<lparr>st_field_mappings := delete_rows (\<lambda>f. P (fm_entity_mapping_id f)) (st_field_mappings st)\<rparr>"

definition delete_entity_mappings_where :: "(entity_mapping_row \<Rightarrow> bool) \<Rightarrow> registry_store \<Rightarrow> registry_store" where
  "delete_entity_mappings_where P st =
     (let gone = map emr_id (filter P (st_entity_mappings st));
          st1 = (if st_foreign_keys st then delete_field_mappings_of (\<lambda>i. i \<in> set gone) st else st)
      in st1\<lparr>st_entity_mappings := delete_rows P (st_entity_mappings st)\<rparr>)"

definition delete_mappings_where :: "(mapping_row \<Rightarrow> bool) \<Rightarrow> registry_store \<Rightarrow> registry_store" where
  "delete_mappings_where P st =
     (let gone = map mp_id (filter P (st_mappings st));
          st1 = (if st_foreign_keys st
                 then delete_entity_mappings_where (\<lambda>em. emr_source_mapping_id em \<in> set gone) st else st)
      in st1\<lparr>st_mappings := delete_rows P (st_mappings st)\<rparr>)"

definition delete_fields_of :: "(string \<Rightarrow> bool) \<Rightarrow> registry_store \<Rightarrow> registry_store" where
  "delete_fields_of P st = st\<lparr>st_fields := delete_rows (\<lambda>f. P (lf_entity_id f)) (st_fields st)\<rparr>"

definition delete_source_row :: "string \<Rightarrow> registry_store \<Rightarrow> bool \<times> registry_store" where
  "delete_source_row i st =
     (let st1 = (if st_foreign_keys st
                 then (delete_mappings_where (\<lambda>m. mp_source_id m = i) st)
                   \<lparr>st_snapshots := filter (\<lambda>(j, s). j \<noteq> i) (st_snapshots st)\<rparr> else st)
      in (get_source_by_id st i \<noteq> None, st1\<lparr>st_sources := delete_rows (\<lambda>s. src_id s = i) (st_sources st)\<rparr>))"

section \<open>Models, entities and fields\<close>

definition get_model_by_id :: "registry_store \<Rightarrow> string \<Rightarrow> logical_model option" where
  "get_model_by_id st i = map_option (model_to_domain st) (find_row mr_id i (st_models st))"

definition get_model_by_name :: "registry_store \<Rightarrow> string \<Rightarrow> logical_model option" where
  "get_model_by_name st n = map_option (model_to_domain st) (find_row mr_name n (st_models st))"

definition list_models :: "registry_store \<Rightarrow> logical_model list" where
  "list_models st = map (model_to_domain st) (st_models st)"

definition get_entity_row :: "registry_store \<Rightarrow> string \<Rightarrow> entity_row option" where
  "get_entity_row st i = find_row er_id i (st_entities st)"

definition get_stored_entity :: "registry_store \<Rightarrow> string \<Rightarrow> logical_entity option" where
  "get_stored_entity st i = map_option (entity_to_domain st) (get_entity_row st i)"

definition get_stored_field :: "registry_store \<Rightarrow> string \<Rightarrow> logical_field option" where
  "get_stored_field st i = find_row lf_id i (st_fields st)"

text \<open>\<open>row_of_entity\<close> and \<open>rows_of_fields\<close>: the rows that an entity is written as.\<close>

definition row_of_entity :: "string \<Rightarrow> logical_entity \<Rightarrow> entity_row" where
  "row_of_entity mid e = \<lparr>er_id = le_id e, er_model_id = mid, er_name = le_name e, er_description = le_description e\<rparr>"

definition rows_of_fields :: "logical_entity \<Rightarrow> logical_field list" where
  "rows_of_fields e = map (\<lambda>f. f\<lparr>lf_entity_id := le_id e\<rparr>) (le_fields e)"

definition insert_model :: "logical_model \<Rightarrow> registry_store \<Rightarrow> logical_model result" where
  "insert_model m st =
     bindE (raise_if (lm_name m \<in> mr_name ` set (st_models st)) IntegrityError) (\<lambda>_.
     bindE (insert_first mr_id \<lparr>mr_id = lm_id m, mr_name = lm_name m, mr_version = lm_version m,
              mr_description = lm_description m\<rparr> (st_models st)) (\<lambda>ms.
     bindE (insert_all er_id (map (row_of_entity (lm_id m)) (lm_entities m)) (st_entities st)) (\<lambda>es.
     bindE (insert_all lf_id (concat (map rows_of_fields (lm_entities m))) (st_fields st)) (\<lambda>fs.
     (let st' = st\<lparr>st_models := ms, st_entities := es, st_fields := fs\<rparr> in
      case get_model_by_id st' (lm_id m) of None \<Rightarrow> Inl IntegrityError | Some m' \<Rightarrow> Inr (m', st'))))))"

definition update_model_row :: "logical_model \<Rightarrow> registry_store \<Rightarrow> logical_model result" where
  "update_model_row m st =
     (if find_row mr_id (lm_id m) (st_models st) = None then Inl (LogicalModelNotFoundError (lm_id m))
      else if \<exists>r \<in> set (st_models st). mr_id r \<noteq> lm_id m \<and> mr_name r = lm_name m then Inl IntegrityError
      else (let st' = st\<lparr>st_models := touch_row mr_id (lm_id m)
                  (update_row mr_id (lm_id m) (\<lambda>r. r\<lparr>mr_name := lm_name m, mr_version := lm_version m,
                     mr_description := lm_description m\<rparr>) (st_models st))\<rparr>
            in case get_model_by_id st' (lm_id m) of None \<Rightarrow> Inl IntegrityError | Some m' \<Rightarrow> Inr (m', st')))"

definition delete_model_row :: "string \<Rightarrow> registry_store \<Rightarrow> bool \<times> registry_store" where
  "delete_model_row i st =
     (let gone = map er_id (filter (\<lambda>e. er_model_id e = i) (st_entities st));
          st1 = (if st_foreign_keys st
                 then (delete_mappings_where (\<lambda>m. mp_model_id m = i) (delete_fields_of (\<lambda>e. e \<in> set gone) st))
                   \<lparr>st_entities := delete_rows (\<lambda>e. er_model_id e = i) (st_entities st)\<rparr> else st)
      in (find_row mr_id i (st_models st) \<noteq> None, st1\<lparr>st_models := delete_rows (\<lambda>m. mr_id m = i) (st_models st)\<rparr>))"

definition insert_entity :: "logical_entity \<Rightarrow> registry_store \<Rightarrow> logical_entity result" where
  "insert_entity e st =
     bindE (check_reference st (find_row mr_id (le_model_id e) (st_models st) \<noteq> None)) (\<lambda>_.
     bindE (insert_last er_id (row_of_entity (le_model_id e) e) (st_entities st)) (\<lambda>es.
     bindE (insert_all lf_id (rows_of_fields e) (st_fields st)) (\<lambda>fs.
     (let st' = st\<lparr>st_entities := es, st_fields := fs,
            st_models := touch_row mr_id (le_model_id e) (st_models st)\<rparr>
      in case get_stored_entity st' (le_id e) of None \<Rightarrow> Inl IntegrityError | Some e' \<Rightarrow> Inr (e', st')))))"

definition update_entity_row :: "logical_entity \<Rightarrow> registry_store \<Rightarrow> logical_entity result" where
  "update_entity_row e st =
     (case get_entity_row st (le_id e) of
        None \<Rightarrow> Inl (LogicalEntityNotFoundError (le_id e))
      | Some r \<Rightarrow>
          (let st' = st\<lparr>st_entities := update_row er_id (le_id e)
                   (\<lambda>r. r\<lparr>er_name := le_name e, er_description := le_description e\<rparr>) (st_entities st),
                 st_models := touch_row mr_id (er_model_id r) (st_models st)\<rparr>
           in case get_stored_entity st' (le_id e) of None \<Rightarrow> Inl IntegrityError | Some e' \<Rightarrow> Inr (e', st')))"

text \<open>An entity is deleted through the ORM, which deletes its fields first.\<close>

definition delete_entity_row :: "string \<Rightarrow> registry_store \<Rightarrow> bool \<times> registry_store" where
  "delete_entity_row i st =
     (case get_entity_row st i of
        None \<Rightarrow> (False, st)
      | Some r \<Rightarrow>
          (True, (delete_fields_of (\<lambda>e. e = i) st)
             \<lparr>st_entities := delete_rows (\<lambda>e. er_id e = i) (st_entities st),
              st_models := touch_row mr_id (er_model_id r) (st_models st)\<rparr>))"

definition insert_field :: "logical_field \<Rightarrow> registry_store \<Rightarrow> logical_field result" where
  "insert_field f st =
     bindE (check_reference st (get_entity_row st (lf_entity_id f) \<noteq> None)) (\<lambda>_.
     bindE (insert_last lf_id f (st_fields st)) (\<lambda>fs.
     Inr (f, st\<lparr>st_fields := fs,
       st_models := (case get_entity_row st (lf_entity_id f) of
           None \<Rightarrow> st_models st | Some e \<Rightarrow> touch_row mr_id (er_model_id e) (st_models st))\<rparr>)))"

definition update_field_row :: "logical_field \<Rightarrow> registry_store \<Rightarrow> logical_field result" where
  "update_field_row f st =
     (case get_stored_field st (lf_id f) of
        None \<Rightarrow> Inl (LogicalFieldNotFoundError (lf_id f))
      | Some old \<Rightarrow>
          (let f' = old\<lparr>lf_name := lf_name f, lf_data_type := lf_data_type f, lf_primary_key := lf_primary_key f,
                 lf_nullable := lf_nullable f\<rparr>
           in Inr (f', st\<lparr>st_fields := update_row lf_id (lf_id f) (\<lambda>_. f') (st_fields st)\<rparr>)))"

definition delete_field_row :: "string \<Rightarrow> registry_store \<Rightarrow> bool \<times> registry_store" where
  "delete_field_row i st =
     (get_stored_field st i \<noteq> None, st\<lparr>st_fields := delete_rows (\<lambda>f. lf_id f = i) (st_fields st)\<rparr>)"

section \<open>Mappings\<close>

definition get_source_mapping_by_id :: "registry_store \<Rightarrow> string \<Rightarrow> source_mapping option" where
  "get_source_mapping_by_id st i = map_option (source_mapping_to_domain st) (find_row mp_id i (st_mappings st))"

text \<open>A filter that is absent or empty does not restrict the list.\<close>

definition list_source_mappings :: "registry_store \<Rightarrow> string option \<Rightarrow> string option \<Rightarrow> source_mapping list" where
  "list_source_mappings st model src =
     map (source_mapping_to_domain st)
       (filter (\<lambda>m. (case model of None \<Rightarrow> True | Some i \<Rightarrow> i = [] \<or> mp_model_id m = i) \<and>
                    (case src of None \<Rightarrow> True | Some i \<Rightarrow> i = [] \<or> mp_source_id m = i)) (st_mappings st))"

definition row_of_entity_mapping :: "string \<Rightarrow> entity_mapping \<Rightarrow> entity_mapping_row" where
  "row_of_entity_mapping mid em =
     \<lparr>emr_id = em_id em, emr_source_mapping_id = mid, emr_logical_id = em_logical_id em,
      emr_logical_name = em_logical_name em, emr_physical_name = em_physical_name em, emr_namespace = em_namespace em\<rparr>"

definition rows_of_field_mappings :: "entity_mapping \<Rightarrow> field_mapping list" where
  "rows_of_field_mappings em = map (\<lambda>f. f\<lparr>fm_entity_mapping_id := em_id em\<rparr>) (em_fields em)"

definition insert_entity_mappings :: "string \<Rightarrow> entity_mapping list \<Rightarrow> registry_store \<Rightarrow> registry_error + registry_store" where
  "insert_entity_mappings mid ems st =
     bindE (insert_all emr_id (map (row_of_entity_mapping mid) ems) (st_entity_mappings st)) (\<lambda>es.
     bindE (insert_all fm_id (concat (map rows_of_field_mappings ems)) (st_field_mappings st)) (\<lambda>fs.
     Inr (st\<lparr>st_entity_mappings := es, st_field_mappings := fs\<rparr>)))"

text \<open>\<open>read_back\<close>: the mapping as it is stored after the flush.\<close>

definition read_back :: "string \<Rightarrow> registry_store \<Rightarrow> source_mapping result" where
  "read_back i st = (case get_source_mapping_by_id st i of None \<Rightarrow> Inl IntegrityError | Some m \<Rightarrow> Inr (m, st))"

definition insert_source_mapping :: "source_mapping \<Rightarrow> registry_store \<Rightarrow> source_mapping result" where
  "insert_source_mapping m st =
     bindE (check_reference st (find_row mr_id (sm_model_id m) (st_models st) \<noteq> None \<and>
              get_source_by_id st (sm_source_id m) \<noteq> None)) (\<lambda>_.
     bindE (insert_first mp_id \<lparr>mp_id = sm_id m, mp_model_id = sm_model_id m, mp_source_id = sm_source_id m,
              mp_version = sm_version m, mp_status = sm_status m, mp_provenance = sm_provenance m,
              mp_error = sm_error m\<rparr> (st_mappings st)) (\<lambda>ms.
     bindE (insert_entity_mappings (sm_id m) (sm_entities m) (st\<lparr>st_mappings := ms\<rparr>)) (read_back (sm_id m))))"

definition write_mapping_row :: "source_mapping \<Rightarrow> registry_store \<Rightarrow> registry_store" where
  "write_mapping_row m st =
     st\<lparr>st_mappings := touch_row mp_id (sm_id m)
          (update_row mp_id (sm_id m) (\<lambda>r. r\<lparr>mp_version := sm_version m, mp_status := sm_status m,
             mp_provenance := sm_provenance m, mp_error := sm_error m\<rparr>) (st_mappings st))\<rparr>"

definition update_mapping :: "bool \<Rightarrow> source_mapping \<Rightarrow> registry_store \<Rightarrow> source_mapping result" where
  "update_mapping replace m st =
     (if find_row mp_id (sm_id m) (st_mappings st) = None then Inl (SourceMappingNotFoundError (sm_id m))
      else (let st1 = write_mapping_row m st in
            if replace then
              bindE (insert_entity_mappings (sm_id m) (sm_entities m)
                (delete_entity_mappings_where (\<lambda>em. emr_source_mapping_id em = sm_id m) st1)) (read_back (sm_id m))
            else read_back (sm_id m) st1))"

definition delete_mapping_row :: "string \<Rightarrow> registry_store \<Rightarrow> bool \<times> registry_store" where
  "delete_mapping_row i st =
     (find_row mp_id i (st_mappings st) \<noteq> None, delete_mappings_where (\<lambda>m. mp_id m = i) st)"

definition insert_entity_mapping :: "entity_mapping \<Rightarrow> registry_store \<Rightarrow> entity_mapping result" where
  "insert_entity_mapping em st =
     bindE (check_reference st (find_row mp_id (em_source_mapping_id em) (st_mappings st) \<noteq> None)) (\<lambda>_.
     bindE (insert_entity_mappings (em_source_mapping_id em) [em] st) (\<lambda>st1.
     (let st' = st1\<lparr>st_mappings := touch_row mp_id (em_source_mapping_id em) (st_mappings st1)\<rparr>
      in Inr (entity_mapping_to_domain st' (row_of_entity_mapping (em_source_mapping_id em) em), st'))))"

definition delete_entity_mapping_row :: "string \<Rightarrow> registry_store \<Rightarrow> bool \<times> registry_store" where
  "delete_entity_mapping_row i st =
     (find_row emr_id i (st_entity_mappings st) \<noteq> None, delete_entity_mappings_where (\<lambda>em. emr_id em = i) st)"

definition insert_field_mapping :: "field_mapping \<Rightarrow> registry_store \<Rightarrow> field_mapping result" where
  "insert_field_mapping f st =
     bindE (check_reference st (find_row emr_id (fm_entity_mapping_id f) (st_entity_mappings st) \<noteq> None)) (\<lambda>_.
     bindE (insert_last fm_id f (st_field_mappings st)) (\<lambda>fs. Inr (f, st\<lparr>st_field_mappings := fs\<rparr>)))"

definition delete_field_mapping_row :: "string \<Rightarrow> registry_store \<Rightarrow> bool \<times> registry_store" where
  "delete_field_mapping_row i st =
     (find_row fm_id i (st_field_mappings st) \<noteq> None,
      st\<lparr>st_field_mappings := delete_rows (\<lambda>f. fm_id f = i) (st_field_mappings st)\<rparr>)"

section \<open>Summary\<close>

definition registry_summary :: "registry_store \<Rightarrow> nat dict" where
  "registry_summary st =
     [(''logical_models_count'', length (st_models st)),
      (''logical_entities_count'', length (st_entities st)),
      (''logical_fields_count'', length (st_fields st)),
      (''source_mappings_count'', length (st_mappings st)),
      (''entity_mappings_count'', length (st_entity_mappings st)),
      (''field_mappings_count'', length (st_field_mappings st)),
      (''active_mappings_count'', length (filter (\<lambda>m. mp_status m = ACTIVE \<or> mp_status m = VALIDATED) (st_mappings st))),
      (''draft_mappings_count'', length (filter (\<lambda>m. mp_status m = DRAFT) (st_mappings st)))]"

end
