(* ===== verification/Registry.thy ===== *)
theory Registry
  imports Registry_Store Classification
begin

text \<open>
  The registry of logical models and mappings, and of the sources behind them:
  \<open>application/registry_service.py\<close>, \<open>schema_service.py\<close> and \<open>source_service.py\<close>. An operation takes the
  metadata store and returns an error, after which the session is rolled back, or a value and the new
  store. The identifiers that the code draws from \<open>uuid4\<close> are arguments, and so are the physical
  databases: \<open>discover\<close> is the schema that a connector reads (or the text of its exception), \<open>probe\<close>
  whether it connects.
\<close>

definition orelse :: "'a option \<Rightarrow> 'a option \<Rightarrow> 'a option" where
  "orelse a b = (case a of Some x \<Rightarrow> Some x | None \<Rightarrow> b)"

text \<open>\<open>s or t\<close> on strings.\<close>

definition or_text :: "string \<Rightarrow> string \<Rightarrow> string" where
  "or_text s t = (if s = [] then t else s)"

definition optionE_or :: "registry_error \<Rightarrow> 'a option \<Rightarrow> registry_error + 'a" where
  "optionE_or e x = (case x of None \<Rightarrow> Inl e | Some y \<Rightarrow> Inr y)"

section \<open>Sources and schemas\<close>

definition get_source :: "string \<Rightarrow> registry_store \<Rightarrow> registry_error + source" where
  "get_source i st = optionE_or (SourceNotFoundError i) (get_source_by_id st i)"

definition create_source ::
  "(source \<Rightarrow> registry_error + bool) \<Rightarrow> source \<Rightarrow> bool \<Rightarrow> registry_store \<Rightarrow> source result" where
  "create_source probe s test_first st =
     (if get_source_by_name st (src_name s) \<noteq> None then Inl (SourceAlreadyExistsError (src_name s))
      else bindE (if test_first
                  then bindE (probe s) (\<lambda>up. Inr (if up then SourceActive else SourceUnreachable))
                  else Inr SourceUnknown) (\<lambda>status. insert_source (s\<lparr>src_status := status\<rparr>) st))"

record source_update =
  su_name :: "string option"
  su_host :: "string option"
  su_port :: "int option"
  su_database_name :: "string option"
  su_username :: "string option"
  su_password :: "string option"
  su_file_path :: "string option"

definition update_source :: "string \<Rightarrow> source_update \<Rightarrow> registry_store \<Rightarrow> source result" where
  "update_source i u st =
     bindE (get_source i st) (\<lambda>s.
     bindE (case su_name u of
          None \<Rightarrow> Inr (src_name s)
        | Some n \<Rightarrow>
            if n = [] \<or> n = src_name s then Inr (src_name s)
            else (case get_source_by_name st n of
                    None \<Rightarrow> Inr n
                  | Some other \<Rightarrow> if src_id other \<noteq> src_id s then Inl (SourceAlreadyExistsError n) else Inr n)) (\<lambda>n.
     update_source_row (s\<lparr>src_name := n,
         src_host := orelse (su_host u) (src_host s),
         src_port := orelse (su_port u) (src_port s),
         src_database_name := orelse (su_database_name u) (src_database_name s),
         src_username := orelse (su_username u) (src_username s),
         src_password := (case su_password u of None \<Rightarrow> src_password s
            | Some p \<Rightarrow> if py_strip p = [] then src_password s else Some p),
         src_file_path := orelse (su_file_path u) (src_file_path s)\<rparr>) st))"

definition test_source_connection ::
  "(source \<Rightarrow> registry_error + bool) \<Rightarrow> string \<Rightarrow> registry_store \<Rightarrow> bool result" where
  "test_source_connection probe i st =
     bindE (get_source i st) (\<lambda>s. bindE (probe s) (\<lambda>up.
     Inr (up, update_source_status i (if up then SourceActive else SourceUnreachable) st)))"

definition get_latest_schema :: "string \<Rightarrow> registry_store \<Rightarrow> registry_error + source_schema option" where
  "get_latest_schema i st = bindE (get_source i st) (\<lambda>s. Inr (latest_snapshot st i))"

definition discover_and_save_schema ::
  "(source \<Rightarrow> string + source_schema) \<Rightarrow> string \<Rightarrow> registry_store \<Rightarrow> source_schema result" where
  "discover_and_save_schema discover i st =
     bindE (get_source i st) (\<lambda>s.
     (case discover s of
        Inl message \<Rightarrow> Inl (SchemaDiscoveryError message)
      | Inr schema \<Rightarrow> Inr (schema, update_source_status i SourceActive (save_schema_snapshot i schema st))))"

section \<open>Models, entities, fields\<close>

definition create_model ::
  "string \<Rightarrow> string \<Rightarrow> string \<Rightarrow> string option \<Rightarrow> logical_entity list \<Rightarrow> registry_store \<Rightarrow> logical_model result" where
  "create_model i name version descr es st =
     (if get_model_by_name st name \<noteq> None then Inl (LogicalModelAlreadyExistsError name)
      else insert_model \<lparr>lm_id = i, lm_name = name, lm_version = version, lm_description = descr, lm_entities = es\<rparr> st)"

definition get_model :: "string \<Rightarrow> registry_store \<Rightarrow> registry_error + logical_model" where
  "get_model i st =
     optionE_or (LogicalModelNotFoundError i)
       (orelse (get_model_by_id st i)
         (orelse (get_model_by_name st i)
           (find (\<lambda>m. py_lower (lm_name m) = py_lower i) (list_models st))))"

definition update_model ::
  "string \<Rightarrow> string option \<Rightarrow> string option \<Rightarrow> string option \<Rightarrow> registry_store \<Rightarrow> logical_model result" where
  "update_model i name version descr st =
     bindE (get_model i st) (\<lambda>m.
     bindE (case name of
          None \<Rightarrow> Inr (lm_name m)
        | Some n \<Rightarrow>
            if n = [] \<or> n = lm_name m then Inr (lm_name m)
            else (case get_model_by_name st n of
                    None \<Rightarrow> Inr n
                  | Some other \<Rightarrow> if lm_id other \<noteq> i then Inl (LogicalModelAlreadyExistsError n) else Inr n)) (\<lambda>n.
     update_model_row (m\<lparr>lm_name := n,
         lm_version := (case version of None \<Rightarrow> lm_version m | Some v \<Rightarrow> v),
         lm_description := orelse descr (lm_description m)\<rparr>) st))"

definition add_entity ::
  "string \<Rightarrow> string \<Rightarrow> string \<Rightarrow> string option \<Rightarrow> logical_field list \<Rightarrow> registry_store \<Rightarrow> logical_entity result" where
  "add_entity new model_id name descr fs st =
     bindE (get_model model_id st) (\<lambda>m.
     if get_entity_by_name m name \<noteq> None
     then Inl (MappingValidationError (''Logical entity '' @ quoted name @ '' already exists in model '' @
            quoted (lm_name m) @ ''.''))
     else insert_entity \<lparr>le_id = new, le_model_id = model_id, le_name = name, le_description = descr, le_fields = fs\<rparr> st)"

definition update_entity ::
  "string \<Rightarrow> string option \<Rightarrow> string option \<Rightarrow> registry_store \<Rightarrow> logical_entity result" where
  "update_entity i name descr st =
     bindE (optionE_or (LogicalEntityNotFoundError i) (get_stored_entity st i)) (\<lambda>e.
     update_entity_row (e\<lparr>le_name := (case name of None \<Rightarrow> le_name e | Some n \<Rightarrow> n),
        le_description := orelse descr (le_description e)\<rparr>) st)"

definition add_field ::
  "string \<Rightarrow> string \<Rightarrow> string \<Rightarrow> standard_data_type \<Rightarrow> bool \<Rightarrow> bool \<Rightarrow> registry_store \<Rightarrow> logical_field result" where
  "add_field new entity_id name t pk nullable st =
     bindE (optionE_or (LogicalEntityNotFoundError entity_id) (get_stored_entity st entity_id)) (\<lambda>e.
     if get_field_by_name e name \<noteq> None
     then Inl (MappingValidationError (''Logical field '' @ quoted name @ '' already exists in entity '' @
            quoted (le_name e) @ ''.''))
     else insert_field \<lparr>lf_id = new, lf_entity_id = entity_id, lf_name = name, lf_data_type = t,
            lf_primary_key = pk, lf_nullable = nullable\<rparr> st)"

definition update_field ::
  "string \<Rightarrow> string option \<Rightarrow> standard_data_type option \<Rightarrow> bool option \<Rightarrow> bool option \<Rightarrow> registry_store \<Rightarrow> logical_field result" where
  "update_field i name t pk nullable st =
     bindE (optionE_or (LogicalFieldNotFoundError i) (get_stored_field st i)) (\<lambda>f.
     update_field_row (f\<lparr>lf_name := (case name of None \<Rightarrow> lf_name f | Some n \<Rightarrow> n),
        lf_data_type := (case t of None \<Rightarrow> lf_data_type f | Some x \<Rightarrow> x),
        lf_primary_key := (case pk of None \<Rightarrow> lf_primary_key f | Some x \<Rightarrow> x),
        lf_nullable := (case nullable of None \<Rightarrow> lf_nullable f | Some x \<Rightarrow> x)\<rparr>) st)"

section \<open>Source mappings\<close>

definition find_entity :: "logical_model \<Rightarrow> string \<Rightarrow> string \<Rightarrow> logical_entity option" where
  "find_entity m i n = orelse (get_entity_by_id m i) (get_entity_by_name m n)"

definition find_field :: "logical_entity \<Rightarrow> string \<Rightarrow> string \<Rightarrow> logical_field option" where
  "find_field e i n = orelse (get_field_by_id e i) (get_field_by_name e n)"

text \<open>Names of entities and fields are taken from the model where it has them.\<close>

definition align_field :: "logical_entity \<Rightarrow> field_mapping \<Rightarrow> field_mapping" where
  "align_field e f =
     (case find_field e (fm_logical_id f) (fm_logical_name f) of
        None \<Rightarrow> f | Some lf \<Rightarrow> f\<lparr>fm_logical_name := lf_name lf\<rparr>)"

definition align_entity :: "logical_model \<Rightarrow> entity_mapping \<Rightarrow> entity_mapping" where
  "align_entity m em =
     (case find_entity m (em_logical_id em) (em_logical_name em) of
        None \<Rightarrow> em
      | Some e \<Rightarrow> em\<lparr>em_logical_name := le_name e, em_fields := map (align_field e) (em_fields em)\<rparr>)"

definition create_source_mapping ::
  "string \<Rightarrow> string \<Rightarrow> string \<Rightarrow> string \<Rightarrow> mapping_status \<Rightarrow> mapping_provenance \<Rightarrow> entity_mapping list \<Rightarrow>
   registry_store \<Rightarrow> source_mapping result" where
  "create_source_mapping new model_id source_id version status prov ems st =
     bindE (get_model model_id st) (\<lambda>m.
     bindE (get_source source_id st) (\<lambda>s.
     if \<exists>o' \<in> set (list_source_mappings st (Some model_id) (Some source_id)). sm_version o' = version
     then Inl (DuplicateMappingError model_id source_id version)
     else insert_source_mapping
       \<lparr>sm_id = new, sm_model_id = model_id, sm_source_id = source_id, sm_version = version,
        sm_status = (if status = ACTIVE then DRAFT else status), sm_provenance = prov, sm_error = None,
        sm_entities = map (align_entity m) ems\<rparr> st))"

definition get_source_mapping :: "string \<Rightarrow> registry_store \<Rightarrow> registry_error + source_mapping" where
  "get_source_mapping i st = optionE_or (SourceMappingNotFoundError i) (get_source_mapping_by_id st i)"

record mapping_update =
  mu_version :: "string option"
  mu_status :: "mapping_status option"
  mu_provenance :: "mapping_provenance option"
  mu_error :: "string option"
  mu_entities :: "entity_mapping list option"

definition update_source_mapping :: "string \<Rightarrow> mapping_update \<Rightarrow> registry_store \<Rightarrow> source_mapping result" where
  "update_source_mapping i u st =
     bindE (get_source_mapping i st) (\<lambda>m0.
     (let m = m0\<lparr>sm_version := (case mu_version u of None \<Rightarrow> sm_version m0 | Some v \<Rightarrow> v),
            sm_provenance := (case mu_provenance u of None \<Rightarrow> sm_provenance m0 | Some p \<Rightarrow> p),
            sm_error := orelse (mu_error u) (sm_error m0)\<rparr>
      in case mu_entities u of
           Some ems \<Rightarrow>
             bindE (get_model (sm_model_id m) st) (\<lambda>model.
             update_mapping True (m\<lparr>sm_entities := map (align_entity model) ems, sm_status := DRAFT, sm_error := None\<rparr>) st)
         | None \<Rightarrow>
             (case mu_status u of
                None \<Rightarrow> update_mapping False m st
              | Some status \<Rightarrow>
                  if status = ACTIVE \<and> sm_status m \<noteq> VALIDATED
                  then Inl (MappingValidationError ''Cannot directly transition to ACTIVE without validation.'')
                  else update_mapping False (m\<lparr>sm_status := status\<rparr>) st)))"

definition add_entity_mapping ::
  "string \<Rightarrow> string \<Rightarrow> string \<Rightarrow> string \<Rightarrow> string \<Rightarrow> field_mapping list \<Rightarrow> registry_store \<Rightarrow> entity_mapping result" where
  "add_entity_mapping new mapping_id entity_id physical namespace fms st =
     bindE (get_source_mapping mapping_id st) (\<lambda>m.
     bindE (get_model (sm_model_id m) st) (\<lambda>model.
     bindE (optionE_or (LogicalEntityNotFoundError entity_id) (get_entity_by_id model entity_id)) (\<lambda>e.
     bindE (insert_entity_mapping
         \<lparr>em_id = new, em_source_mapping_id = mapping_id, em_logical_id = le_id e, em_logical_name = le_name e,
          em_physical_name = physical, em_namespace = namespace, em_fields = map (align_field e) fms\<rparr> st) (\<lambda>(created, st1).
     bindE (update_mapping False (m\<lparr>sm_status := DRAFT, sm_error := None\<rparr>) st1) (\<lambda>(m', st2).
     Inr (created, st2))))))"

definition add_field_mapping ::
  "string \<Rightarrow> string \<Rightarrow> string \<Rightarrow> string \<Rightarrow> string option \<Rightarrow> registry_store \<Rightarrow> field_mapping result" where
  "add_field_mapping new emid field_id physical rule st =
     bindE (optionE_or (LogicalFieldNotFoundError field_id) (get_stored_field st field_id)) (\<lambda>f.
     insert_field_mapping
       \<lparr>fm_id = new, fm_entity_mapping_id = emid, fm_logical_id = field_id, fm_logical_name = lf_name f,
        fm_physical_name = physical, fm_rule = rule\<rparr> st)"

section \<open>Validation and activation\<close>

fun first_fault :: "('a \<Rightarrow> string option) \<Rightarrow> 'a list \<Rightarrow> string option" where
  "first_fault f [] = None"
| "first_fault f (x # xs) = (case f x of None \<Rightarrow> first_fault f xs | Some message \<Rightarrow> Some message)"

definition find_physical_entity :: "source_schema \<Rightarrow> entity_mapping \<Rightarrow> entity_schema option" where
  "find_physical_entity schema em =
     (let named = filter (\<lambda>e. py_lower (es_name e) = py_lower (em_physical_name em)) (ss_entities schema);
          spaced = filter (\<lambda>e. em_namespace em = [] \<or> py_lower (es_namespace e) = py_lower (em_namespace em) \<or>
                     em_namespace em \<in> {''public'', ''main'', ''default''}) named
      in case spaced of e # _ \<Rightarrow> Some e | [] \<Rightarrow> (case named of e # _ \<Rightarrow> Some e | [] \<Rightarrow> None))"

definition find_physical_field :: "entity_schema \<Rightarrow> string \<Rightarrow> field_schema option" where
  "find_physical_field e n = orelse (get_field e n) (find (\<lambda>f. py_lower (fs_name f) = py_lower n) (es_fields e))"

definition field_fault :: "logical_entity \<Rightarrow> entity_schema \<Rightarrow> field_mapping \<Rightarrow> string option" where
  "field_fault e pe fm =
     (case find_field e (fm_logical_id fm) (fm_logical_name fm) of
        None \<Rightarrow> Some (''Logical field '' @ quoted (or_text (fm_logical_name fm) (fm_logical_id fm)) @
          '' not found in entity '' @ quoted (le_name e) @ ''.'')
      | Some lf \<Rightarrow>
          (case find_physical_field pe (fm_physical_name fm) of
             None \<Rightarrow> Some (''Physical field '' @ quoted (fm_physical_name fm) @ '' not found in table '' @
               quoted (es_name pe) @ ''.'')
           | Some pf \<Rightarrow>
               if types_compatible (lf_data_type lf) (fs_data_type pf) then None
               else Some (''Logical field '' @ quoted (lf_name lf) @ '' ('' @ type_name (lf_data_type lf) @
                 '') cannot map to physical field '' @ quoted (fs_name pf) @ '' ('' @ type_name (fs_data_type pf) @ '').'')))"

definition entity_fault :: "logical_model \<Rightarrow> source \<Rightarrow> source_schema \<Rightarrow> entity_mapping \<Rightarrow> string option" where
  "entity_fault m s schema em =
     (case find_entity m (em_logical_id em) (em_logical_name em) of
        None \<Rightarrow> Some (''Logical entity '' @ quoted (or_text (em_logical_name em) (em_logical_id em)) @
          '' not found in model '' @ quoted (lm_name m) @ ''.'')
      | Some e \<Rightarrow>
          (case find_physical_entity schema em of
             None \<Rightarrow> Some (''Physical entity '' @ quoted (em_namespace em @ ''.'' @ em_physical_name em) @
               '' does not exist in discovered schema of source '' @ quoted (src_name s) @ ''.'')
           | Some pe \<Rightarrow>
               if em_fields em = []
               then Some (''Entity '' @ quoted (or_text (em_logical_name em) (em_physical_name em)) @ '' has no mapped fields.'')
               else first_fault (field_fault e pe) (em_fields em)))"

type_synonym verdict = "bool \<times> string option \<times> source_mapping"

definition record_verdict ::
  "source_mapping \<Rightarrow> mapping_status \<Rightarrow> string option \<Rightarrow> registry_store \<Rightarrow> verdict result" where
  "record_verdict m status message st =
     bindE (update_mapping False (m\<lparr>sm_status := status, sm_error := message\<rparr>) st) (\<lambda>(m', st').
     Inr ((status = VALIDATED, message, m'), st'))"

definition physical_schema_of ::
  "(source \<Rightarrow> string + source_schema) \<Rightarrow> source \<Rightarrow> registry_store \<Rightarrow> source_schema result" where
  "physical_schema_of discover s st =
     (case latest_snapshot st (src_id s) of
        Some schema \<Rightarrow> Inr (schema, st)
      | None \<Rightarrow> discover_and_save_schema discover (src_id s) st)"

definition error_text :: "registry_error \<Rightarrow> string" where
  "error_text e = (case e of SchemaDiscoveryError message \<Rightarrow> message
     | SourceNotFoundError i \<Rightarrow> ''Source with id '' @ quoted i @ '' was not found.'' | _ \<Rightarrow> [])"

definition validate_source_mapping ::
  "(source \<Rightarrow> string + source_schema) \<Rightarrow> string \<Rightarrow> registry_store \<Rightarrow> verdict result" where
  "validate_source_mapping discover i st =
     bindE (get_source_mapping i st) (\<lambda>m.
     bindE (get_model (sm_model_id m) st) (\<lambda>model.
     case get_source_by_id st (sm_source_id m) of
       None \<Rightarrow> record_verdict m ERROR (Some (''Physical source '' @ quoted (sm_source_id m) @ '' was not found.'')) st
     | Some s \<Rightarrow>
         (case physical_schema_of discover s st of
            Inl e \<Rightarrow> record_verdict m ERROR
              (Some (''Physical schema discovery failed for source '' @ quoted (src_name s) @ '': '' @ error_text e)) st
          | Inr (schema, st1) \<Rightarrow>
              if sm_entities m = [] then record_verdict m DRAFT (Some ''No entity mappings defined yet.'') st1
              else (case first_fault (entity_fault model s schema) (sm_entities m) of
                      Some message \<Rightarrow> record_verdict m ERROR (Some message) st1
                    | None \<Rightarrow> record_verdict m VALIDATED None st1))))"

fun demote_others :: "source_mapping \<Rightarrow> source_mapping list \<Rightarrow> registry_store \<Rightarrow> registry_error + registry_store" where
  "demote_others m [] st = Inr st"
| "demote_others m (o' # os) st =
     (if sm_id o' \<noteq> sm_id m \<and> sm_source_id o' = sm_source_id m \<and> sm_status o' = ACTIVE
      then bindE (update_mapping False (o'\<lparr>sm_status := VALIDATED\<rparr>) st) (\<lambda>(_, st'). demote_others m os st')
      else demote_others m os st)"

fun status_name :: "mapping_status \<Rightarrow> string" where
  "status_name DRAFT = ''DRAFT''"
| "status_name ACTIVE = ''ACTIVE''"
| "status_name VALIDATED = ''VALIDATED''"
| "status_name ERROR = ''ERROR''"

definition activate_source_mapping :: "string \<Rightarrow> registry_store \<Rightarrow> source_mapping result" where
  "activate_source_mapping i st =
     bindE (get_source_mapping i st) (\<lambda>m.
     if sm_status m \<noteq> VALIDATED
     then Inl (MappingValidationError (''Cannot activate mapping with status '' @ quoted (status_name (sm_status m)) @
            ''. Only VALIDATED mappings can be activated.''))
     else bindE (demote_others m (list_source_mappings st (Some (sm_model_id m)) None) st) (\<lambda>st1.
          update_mapping False (m\<lparr>sm_status := ACTIVE, sm_error := None\<rparr>) st1))"

section \<open>Alignment proposals\<close>

record field_proposal =
  fpr_id :: string
  fpr_logical_id :: "string option"
  fpr_logical_name :: "string option"
  fpr_physical_name :: "string option"
  fpr_rule :: "string option"

record entity_proposal =
  epr_id :: string
  epr_logical_id :: "string option"
  epr_logical_name :: "string option"
  epr_physical_name :: "string option"
  epr_namespace :: "string option"
  epr_fields :: "field_proposal list"

text \<open>\<open>x or ""\<close>, and a lookup that is skipped for an absent or empty key.\<close>

definition text_or_empty :: "string option \<Rightarrow> string" where
  "text_or_empty x = (case x of None \<Rightarrow> [] | Some s \<Rightarrow> s)"

definition lookup_if_given :: "(string \<Rightarrow> 'a option) \<Rightarrow> string option \<Rightarrow> 'a option" where
  "lookup_if_given f x = (if text_or_empty x = [] then None else f (text_or_empty x))"

definition ingest_field :: "logical_entity option \<Rightarrow> field_proposal \<Rightarrow> field_mapping" where
  "ingest_field e p =
     (let lf = (case e of None \<Rightarrow> None | Some e' \<Rightarrow>
            orelse (lookup_if_given (get_field_by_id e') (fpr_logical_id p))
              (lookup_if_given (get_field_by_name e') (fpr_logical_name p)))
      in \<lparr>fm_id = fpr_id p, fm_entity_mapping_id = [],
          fm_logical_id = (case lf of None \<Rightarrow> text_or_empty (fpr_logical_id p) | Some f \<Rightarrow> lf_id f),
          fm_logical_name = (case lf of None \<Rightarrow> text_or_empty (fpr_logical_name p) | Some f \<Rightarrow> lf_name f),
          fm_physical_name = text_or_empty (fpr_physical_name p), fm_rule = fpr_rule p\<rparr>)"

definition ingest_entity :: "logical_model \<Rightarrow> entity_proposal \<Rightarrow> entity_mapping" where
  "ingest_entity m p =
     (let e = orelse (lookup_if_given (get_entity_by_id m) (epr_logical_id p))
            (lookup_if_given (get_entity_by_name m) (epr_logical_name p))
      in \<lparr>em_id = epr_id p, em_source_mapping_id = [],
          em_logical_id = (case e of None \<Rightarrow> text_or_empty (epr_logical_id p) | Some x \<Rightarrow> le_id x),
          em_logical_name = (case e of None \<Rightarrow> text_or_empty (epr_logical_name p) | Some x \<Rightarrow> le_name x),
          em_physical_name = text_or_empty (epr_physical_name p),
          em_namespace = (case epr_namespace p of None \<Rightarrow> ''public'' | Some n \<Rightarrow> n),
          em_fields = map (ingest_field e) (epr_fields p)\<rparr>)"

definition ingest_align_suggestions ::
  "string \<Rightarrow> string \<Rightarrow> string \<Rightarrow> string \<Rightarrow> entity_proposal list \<Rightarrow> registry_store \<Rightarrow> source_mapping result" where
  "ingest_align_suggestions new model_id source_id version ps st =
     bindE (get_model model_id st) (\<lambda>m.
     bindE (get_source source_id st) (\<lambda>s.
     insert_source_mapping
       \<lparr>sm_id = new, sm_model_id = model_id, sm_source_id = source_id, sm_version = version, sm_status = DRAFT,
        sm_provenance = ALTR_ALIGN, sm_error = None, sm_entities = map (ingest_entity m) ps\<rparr> st))"

section \<open>Resolution of an entity\<close>

text \<open>A name up to case and trailing \<open>s\<close>; an empty name matches the empty target only.\<close>

definition name_matches :: "string \<Rightarrow> string \<Rightarrow> bool" where
  "name_matches n target \<longleftrightarrow> py_lower n = target \<or> (n \<noteq> [] \<and> rstrip_s (py_lower n) = rstrip_s target)"

definition aliases_entity :: "string \<Rightarrow> entity_mapping \<Rightarrow> bool" where
  "aliases_entity target em \<longleftrightarrow>
     name_matches (em_physical_name em) target \<or> name_matches (em_logical_name em) target \<or>
     (em_logical_id em \<noteq> [] \<and> py_lower (em_logical_id em) = target)"

definition find_target_entity :: "logical_model \<Rightarrow> source_mapping list \<Rightarrow> string \<Rightarrow> logical_entity option" where
  "find_target_entity m active n =
     orelse (orelse (get_entity_by_name m n) (get_entity_by_id m n))
       (case List.map_filter (\<lambda>em. if aliases_entity (py_lower (py_strip n)) em
              then find_entity m (em_logical_id em) (em_logical_name em) else None)
            (concat (map sm_entities active)) of
          [] \<Rightarrow> None | e # _ \<Rightarrow> Some e)"

definition maps_entity :: "logical_entity \<Rightarrow> entity_mapping \<Rightarrow> bool" where
  "maps_entity e em \<longleftrightarrow>
     (let target = py_lower (py_strip (le_name e)) in
      em_logical_id em = le_id e \<or> name_matches (em_logical_name em) target \<or> name_matches (em_physical_name em) target)"

definition resolve_field :: "logical_entity \<Rightarrow> entity_schema option \<Rightarrow> field_mapping \<Rightarrow> resolved_field" where
  "resolve_field e pe fm =
     (let lf = find_field e (fm_logical_id fm) (fm_logical_name fm);
          pf = (case pe of None \<Rightarrow> None | Some p \<Rightarrow> find_physical_field p (fm_physical_name fm))
      in \<lparr>rfi_logical_field_id = (case lf of None \<Rightarrow> fm_logical_id fm | Some f \<Rightarrow> lf_id f),
          rfi_logical_field_name = (case lf of None \<Rightarrow> fm_logical_name fm | Some f \<Rightarrow> lf_name f),
          rfi_physical_field_name = fm_physical_name fm,
          rfi_transformation_rule = fm_rule fm,
          rfi_logical_data_type = map_option (type_name \<circ> lf_data_type) lf,
          rfi_physical_data_type = map_option (type_name \<circ> fs_data_type) pf\<rparr>)"

definition resolve_candidate :: "registry_store \<Rightarrow> logical_entity \<Rightarrow> source_mapping \<Rightarrow> source_candidate option" where
  "resolve_candidate st e m =
     (case find (maps_entity e) (sm_entities m) of
        None \<Rightarrow> None
      | Some em \<Rightarrow>
          (case get_source_by_id st (sm_source_id m) of
             None \<Rightarrow> None
           | Some s \<Rightarrow>
               (let pe = (case latest_snapshot st (src_id s) of
                      None \<Rightarrow> None
                    | Some schema \<Rightarrow> find (\<lambda>p. py_lower (es_name p) = py_lower (em_physical_name em)) (ss_entities schema))
                in Some \<lparr>cand_mapping_id = sm_id m, cand_mapping_status = sm_status m,
                     cand_mapping_provenance = sm_provenance m, cand_source_id = src_id s, cand_source_name = src_name s,
                     cand_source_type = source_type_name (src_type s), cand_entity_mapping_id = em_id em,
                     cand_physical_entity = em_physical_name em, cand_physical_namespace = em_namespace em,
                     cand_field_mappings = map (resolve_field e pe) (em_fields em)\<rparr>)))"

record entity_resolution =
  res_model_id :: string
  res_model_name :: string
  res_entity_id :: string
  res_entity_name :: string
  res_candidates :: "source_candidate list"

definition resolve_logical_entity :: "string \<Rightarrow> string \<Rightarrow> registry_store \<Rightarrow> registry_error + entity_resolution" where
  "resolve_logical_entity model_id n st =
     bindE (get_model model_id st) (\<lambda>m.
     (let active = filter (\<lambda>sm. sm_status sm = ACTIVE) (list_source_mappings st (Some (lm_id m)) None) in
      case find_target_entity m active n of
        None \<Rightarrow> Inl (LogicalEntityNotFoundError (''Logical entity '' @ quoted n @ '' was not found in model '' @
            quoted (lm_name m) @ ''.''))
      | Some e \<Rightarrow> Inr \<lparr>res_model_id = lm_id m, res_model_name = lm_name m, res_entity_id = le_id e,
            res_entity_name = le_name e, res_candidates = List.map_filter (resolve_candidate st e) active\<rparr>))"

section \<open>Physical entities across the sources\<close>

definition matches_physical :: "string \<Rightarrow> entity_schema \<Rightarrow> bool" where
  "matches_physical n e \<longleftrightarrow>
     (let target = py_lower (py_strip n); name = py_lower (py_strip (es_name e)) in
      name = target \<or> (name \<noteq> [] \<and> rstrip_s name = rstrip_s target))"

definition physical_exclusion :: "source \<Rightarrow> string \<Rightarrow> string \<Rightarrow> source_exclusion" where
  "physical_exclusion s n message =
     \<lparr>xs_source_id = src_id s, xs_source_name = Some (src_name s), xs_source_type = Some (source_type_name (src_type s)),
      xs_physical_entity = Some n, xs_status = EXCLUDED, xs_reason = PHYSICAL_ENTITY_NOT_FOUND, xs_message = message\<rparr>"

definition locate_physical ::
  "registry_store \<Rightarrow> string \<Rightarrow> source \<Rightarrow> (source \<times> source_schema \<times> entity_schema) + source_exclusion" where
  "locate_physical st n s =
     (case latest_snapshot st (src_id s) of
        None \<Rightarrow> Inr (physical_exclusion s n (''No schema snapshot discovered yet for source '' @ quoted (src_name s) @ ''.''))
      | Some schema \<Rightarrow>
          if ss_entities schema = []
          then Inr (physical_exclusion s n (''No schema snapshot discovered yet for source '' @ quoted (src_name s) @ ''.''))
          else (case find (matches_physical n) (ss_entities schema) of
                  Some e \<Rightarrow> Inl (s, schema, e)
                | None \<Rightarrow> Inr (physical_exclusion s n (''Physical entity '' @ quoted n @ '' not found in source '' @
                    quoted (src_name s) @ ''.''))))"

definition find_sources_with_physical_entity ::
  "string \<Rightarrow> registry_store \<Rightarrow> (source \<times> source_schema \<times> entity_schema) list \<times> source_exclusion list" where
  "find_sources_with_physical_entity n st =
     (let located = map (locate_physical st n) (filter (\<lambda>s. src_status s = SourceActive) (st_sources st))
      in (List.map_filter (\<lambda>x. case x of Inl y \<Rightarrow> Some y | Inr _ \<Rightarrow> None) located,
          List.map_filter (\<lambda>x. case x of Inl _ \<Rightarrow> None | Inr y \<Rightarrow> Some y) located))"

end
