(* ===== verification/Registry_Invariants.thy ===== *)
theory Registry_Invariants
  imports Registry "HOL-Library.Multiset"
begin

text \<open>
  The registry as a state machine: the operations that its services offer, the histories they make, and
  what every history keeps: keys and names are unique, and a source has at most one active mapping in a
  model, as long as activation goes through \<open>activate_source_mapping\<close>.
\<close>

section \<open>Operations and histories\<close>

datatype registry_command =
    CreateSource source bool
  | UpdateSource string source_update
  | DeleteSource string
  | TestSource string
  | DiscoverSchema string
  | CreateModel string string string "string option" "logical_entity list"
  | UpdateModel string "string option" "string option" "string option"
  | DeleteModel string
  | AddEntity string string string "string option" "logical_field list"
  | UpdateEntity string "string option" "string option"
  | DeleteEntity string
  | AddField string string string standard_data_type bool bool
  | UpdateField string "string option" "standard_data_type option" "bool option" "bool option"
  | DeleteField string
  | CreateMapping string string string string mapping_status mapping_provenance "entity_mapping list"
  | UpdateMapping string mapping_update
  | DeleteMapping string
  | AddEntityMapping string string string string string "field_mapping list"
  | DeleteEntityMapping string
  | AddFieldMapping string string string string "string option"
  | DeleteFieldMapping string
  | ValidateMapping string
  | ActivateMapping string
  | IngestSuggestions string string string string "entity_proposal list"

text \<open>The physical databases, as far as the registry sees them.\<close>

record databases =
  db_probe :: "source \<Rightarrow> registry_error + bool"
  db_discover :: "source \<Rightarrow> string + source_schema"

definition new_store :: "'a result \<Rightarrow> registry_error + registry_store" where
  "new_store r = bindE r (\<lambda>(_, st). Inr st)"

fun run_command :: "databases \<Rightarrow> registry_command \<Rightarrow> registry_store \<Rightarrow> registry_error + registry_store" where
  "run_command db (CreateSource s test) st = new_store (create_source (db_probe db) s test st)"
| "run_command db (UpdateSource i u) st = new_store (update_source i u st)"
| "run_command db (DeleteSource i) st = Inr (snd (delete_source_row i st))"
| "run_command db (TestSource i) st = new_store (test_source_connection (db_probe db) i st)"
| "run_command db (DiscoverSchema i) st = new_store (discover_and_save_schema (db_discover db) i st)"
| "run_command db (CreateModel i n v d es) st = new_store (create_model i n v d es st)"
| "run_command db (UpdateModel i n v d) st = new_store (update_model i n v d st)"
| "run_command db (DeleteModel i) st = Inr (snd (delete_model_row i st))"
| "run_command db (AddEntity new m n d fs) st = new_store (add_entity new m n d fs st)"
| "run_command db (UpdateEntity i n d) st = new_store (update_entity i n d st)"
| "run_command db (DeleteEntity i) st = Inr (snd (delete_entity_row i st))"
| "run_command db (AddField new e n t pk nul) st = new_store (add_field new e n t pk nul st)"
| "run_command db (UpdateField i n t pk nul) st = new_store (update_field i n t pk nul st)"
| "run_command db (DeleteField i) st = Inr (snd (delete_field_row i st))"
| "run_command db (CreateMapping new m s v status prov ems) st =
     new_store (create_source_mapping new m s v status prov ems st)"
| "run_command db (UpdateMapping i u) st = new_store (update_source_mapping i u st)"
| "run_command db (DeleteMapping i) st = Inr (snd (delete_mapping_row i st))"
| "run_command db (AddEntityMapping new m e p ns fms) st = new_store (add_entity_mapping new m e p ns fms st)"
| "run_command db (DeleteEntityMapping i) st = Inr (snd (delete_entity_mapping_row i st))"
| "run_command db (AddFieldMapping new em f p r) st = new_store (add_field_mapping new em f p r st)"
| "run_command db (DeleteFieldMapping i) st = Inr (snd (delete_field_mapping_row i st))"
| "run_command db (ValidateMapping i) st = new_store (validate_source_mapping (db_discover db) i st)"
| "run_command db (ActivateMapping i) st = new_store (activate_source_mapping i st)"
| "run_command db (IngestSuggestions new m s v ps) st = new_store (ingest_align_suggestions new m s v ps st)"

text \<open>A history of commands; a command that fails is rolled back and leaves the store as it is.\<close>

inductive history :: "databases \<Rightarrow> registry_store \<Rightarrow> registry_command list \<Rightarrow> registry_store \<Rightarrow> bool"
  for db where
  start: "history db st [] st"
| succeeded: "history db st cs st1 \<Longrightarrow> run_command db c st1 = Inr st2 \<Longrightarrow> history db st (cs @ [c]) st2"
| failed: "history db st cs st1 \<Longrightarrow> run_command db c st1 = Inl e \<Longrightarrow> history db st (cs @ [c]) st1"

section \<open>Tables\<close>

lemma insert_first_Inr [simp]:
  "insert_first key r t = Inr t' \<longleftrightarrow> key r \<notin> key ` set t \<and> t' = r # t"
  by (auto simp: insert_first_def)

lemma insert_last_Inr [simp]:
  "insert_last key r t = Inr t' \<longleftrightarrow> key r \<notin> key ` set t \<and> t' = t @ [r]"
  by (auto simp: insert_last_def)

lemma insert_all_append: "insert_all key rs t = Inr t' \<Longrightarrow> t' = t @ rs"
  by (induction key rs t rule: insert_all.induct) (auto simp: bindE_Inr_iff)

lemma insert_all_distinct: "insert_all key rs t = Inr t' \<Longrightarrow> distinct (map key t) \<Longrightarrow> distinct (map key t')"
  by (induction key rs t rule: insert_all.induct) (auto simp: bindE_Inr_iff)

lemma update_row_keys: "(\<And>r. g (f r) = g r) \<Longrightarrow> map g (update_row key k f t) = map g t"
  by (simp add: update_row_def)

lemma set_update_row: "set (update_row key k f t) = (\<lambda>r. if key r = k then f r else r) ` set t"
  by (simp add: update_row_def)

lemma mset_touch_row [simp]: "mset (touch_row key k t) = mset t"
  by (simp add: touch_row_def)

lemma set_touch_row [simp]: "set (touch_row key k t) = set t"
  by (rule mset_eq_setD) simp

lemma distinct_touch_row [simp]: "distinct (map g (touch_row key k t)) \<longleftrightarrow> distinct (map g t)"
  by (rule mset_eq_imp_distinct_iff) simp

lemma distinct_delete_rows: "distinct (map g t) \<Longrightarrow> distinct (map g (delete_rows P t))"
  by (simp add: delete_rows_def distinct_map_filter)

lemma set_delete_rows [simp]: "set (delete_rows P t) = {r \<in> set t. \<not> P r}"
  by (auto simp: delete_rows_def)

text \<open>A row whose new name no other row has.\<close>

lemma update_row_names:
  assumes "distinct (map key t)" "distinct (map nm t)" "\<And>r. key r = k \<Longrightarrow> nm (f r) = n"
    and "\<forall>r \<in> set t. key r \<noteq> k \<longrightarrow> nm r \<noteq> n"
  shows "distinct (map nm (update_row key k f t))"
  using assms
proof (induction t)
  case (Cons r t)
  have tail: "distinct (map nm (update_row key k f t))" using Cons by simp
  have names: "nm q \<in> nm ` set t \<or> nm q = n" if "q \<in> set (update_row key k f t)" for q
    using that Cons.prems(3) by (auto simp: update_row_def)
  show ?case
  proof (cases "key r = k")
    case True
    then have "key q \<noteq> k" if "q \<in> set t" for q using Cons.prems(1) that True by (metis distinct.simps(2) image_eqI list.simps(9) list.set_map)
    then have same: "update_row key k f t = t" by (simp add: update_row_def map_idI)
    have "n \<notin> nm ` set t" using Cons.prems(4) \<open>\<And>q. q \<in> set t \<Longrightarrow> key q \<noteq> k\<close> by fastforce
    then show ?thesis using True Cons.prems(2,3) same by (simp add: update_row_def)
  next
    case False
    then have "nm r \<noteq> n" "nm r \<notin> nm ` set t" using Cons.prems(2,4) by simp_all
    then have "nm r \<notin> set (map nm (update_row key k f t))" using names by force
    moreover have "update_row key k f (r # t) = r # update_row key k f t" using False by (simp add: update_row_def)
    ultimately show ?thesis using tail by (simp only: list.map distinct.simps simp_thms)
  qed
qed (simp add: update_row_def)

lemma find_row_Some: "find_row key k t = Some r \<Longrightarrow> r \<in> set t \<and> key r = k"
  by (auto simp: find_row_def dest: find_SomeD)

section \<open>Keys and names are unique\<close>

definition keys_ok :: "registry_store \<Rightarrow> bool" where
  "keys_ok st \<longleftrightarrow>
     distinct (map src_id (st_sources st)) \<and> distinct (map src_name (st_sources st)) \<and>
     distinct (map mr_id (st_models st)) \<and> distinct (map mr_name (st_models st)) \<and>
     distinct (map er_id (st_entities st)) \<and> distinct (map lf_id (st_fields st)) \<and>
     distinct (map mp_id (st_mappings st)) \<and> distinct (map emr_id (st_entity_mappings st)) \<and>
     distinct (map fm_id (st_field_mappings st))"

named_theorems keeps_keys

lemma keys_sources [keeps_keys]:
  "insert_source s st = Inr (x, st') \<Longrightarrow> keys_ok st \<Longrightarrow> keys_ok st'"
  "update_source_row s st = Inr (x, st') \<Longrightarrow> keys_ok st \<Longrightarrow> keys_ok st'"
  "keys_ok st \<Longrightarrow> keys_ok (update_source_status i status st)"
  "keys_ok st \<Longrightarrow> keys_ok (save_schema_snapshot i schema st)"
proof -
  show "insert_source s st = Inr (x, st') \<Longrightarrow> keys_ok st \<Longrightarrow> keys_ok st'"
    by (auto simp: insert_source_def result_iffs keys_ok_def)
  show "keys_ok st \<Longrightarrow> keys_ok (update_source_status i status st)"
    by (simp add: update_source_status_def keys_ok_def update_row_keys)
  show "keys_ok st \<Longrightarrow> keys_ok (save_schema_snapshot i schema st)"
    by (simp add: save_schema_snapshot_def keys_ok_def)
  show "update_source_row s st = Inr (x, st') \<Longrightarrow> keys_ok st \<Longrightarrow> keys_ok st'"
  proof -
    assume upd: "update_source_row s st = Inr (x, st')" and ok: "keys_ok st"
    then have x: "src_id x = src_id s" "src_name x = src_name s"
      and st': "st' = st\<lparr>st_sources := update_row src_id (src_id s) (\<lambda>_. x) (st_sources st)\<rparr>"
      and other: "\<forall>r \<in> set (st_sources st). src_id r \<noteq> src_id s \<longrightarrow> src_name r \<noteq> src_name s"
      by (auto simp: update_source_row_def Let_def split: option.splits if_splits)
    have "map src_id (st_sources st') = map src_id (st_sources st)" by (simp add: st' x update_row_def)
    moreover have "distinct (map src_name (st_sources st'))"
      using ok other x unfolding st' keys_ok_def by (simp add: update_row_names)
    ultimately show "keys_ok st'" using ok by (simp add: keys_ok_def st')
  qed
qed

lemma keys_deleted [keeps_keys]:
  "keys_ok st \<Longrightarrow> keys_ok (delete_field_mappings_of P st)"
  "keys_ok st \<Longrightarrow> keys_ok (delete_entity_mappings_where P' st)"
  "keys_ok st \<Longrightarrow> keys_ok (delete_mappings_where P'' st)"
  "keys_ok st \<Longrightarrow> keys_ok (delete_fields_of P st)"
  by (auto simp: keys_ok_def delete_field_mappings_of_def delete_entity_mappings_where_def
      delete_mappings_where_def delete_fields_of_def distinct_delete_rows Let_def)

lemma keys_deletes [keeps_keys]:
  "keys_ok st \<Longrightarrow> keys_ok (snd (delete_source_row i st))"
  "keys_ok st \<Longrightarrow> keys_ok (snd (delete_model_row i st))"
  "keys_ok st \<Longrightarrow> keys_ok (snd (delete_entity_row i st))"
  "keys_ok st \<Longrightarrow> keys_ok (snd (delete_field_row i st))"
  "keys_ok st \<Longrightarrow> keys_ok (snd (delete_mapping_row i st))"
  "keys_ok st \<Longrightarrow> keys_ok (snd (delete_entity_mapping_row i st))"
  "keys_ok st \<Longrightarrow> keys_ok (snd (delete_field_mapping_row i st))"
  using keys_deleted(3) [of st] keys_deleted(4) [of st]
  by (auto simp: delete_source_row_def delete_model_row_def delete_entity_row_def delete_field_row_def
      delete_mapping_row_def delete_entity_mapping_row_def delete_field_mapping_row_def Let_def
      keys_deleted distinct_delete_rows split: option.splits)
    (auto simp: keys_ok_def delete_field_mappings_of_def delete_entity_mappings_where_def
      delete_mappings_where_def delete_fields_of_def distinct_delete_rows Let_def)

lemma read_back_Inr: "read_back i st = Inr (m, st') \<longleftrightarrow> get_source_mapping_by_id st i = Some m \<and> st' = st"
  by (auto simp: read_back_def split: option.split)

lemma insert_entity_mappings_Inr:
  assumes "insert_entity_mappings i ems st = Inr st'"
  shows "\<exists>es fs. insert_all emr_id (map (row_of_entity_mapping i) ems) (st_entity_mappings st) = Inr es \<and>
    insert_all fm_id (concat (map rows_of_field_mappings ems)) (st_field_mappings st) = Inr fs \<and>
    st' = st\<lparr>st_entity_mappings := es, st_field_mappings := fs\<rparr>"
  using assms by (auto simp: insert_entity_mappings_def bindE_Inr_iff)

lemma keys_insert_entity_mappings:
  "insert_entity_mappings i ems st = Inr st' \<Longrightarrow> keys_ok st \<Longrightarrow> keys_ok st'"
  by (auto dest!: insert_entity_mappings_Inr simp: keys_ok_def insert_all_distinct)

lemma keys_write_mapping_row: "keys_ok st \<Longrightarrow> keys_ok (write_mapping_row m st)"
  by (simp add: keys_ok_def write_mapping_row_def update_row_keys)

lemma keys_mappings [keeps_keys]:
  "insert_source_mapping m st = Inr (x, st') \<Longrightarrow> keys_ok st \<Longrightarrow> keys_ok st'"
  "update_mapping b m st = Inr (x, st') \<Longrightarrow> keys_ok st \<Longrightarrow> keys_ok st'"
  "insert_entity_mapping em st = Inr (y, st') \<Longrightarrow> keys_ok st \<Longrightarrow> keys_ok st'"
  "insert_field_mapping f st = Inr (z, st') \<Longrightarrow> keys_ok st \<Longrightarrow> keys_ok st'"
proof -
  show "insert_source_mapping m st = Inr (x, st') \<Longrightarrow> keys_ok st \<Longrightarrow> keys_ok st'"
    by (auto simp: insert_source_mapping_def bindE_Inr_iff read_back_Inr keys_ok_def
        dest!: insert_entity_mappings_Inr insert_all_distinct)
  show "update_mapping b m st = Inr (x, st') \<Longrightarrow> keys_ok st \<Longrightarrow> keys_ok st'"
    using keys_insert_entity_mappings [OF _ keys_deleted(2) [OF keys_write_mapping_row]] keys_write_mapping_row
    by (auto simp: update_mapping_def Let_def bindE_Inr_iff read_back_Inr split: if_splits)
  show "insert_entity_mapping em st = Inr (y, st') \<Longrightarrow> keys_ok st \<Longrightarrow> keys_ok st'"
    using keys_insert_entity_mappings
    by (auto simp: insert_entity_mapping_def Let_def bindE_Inr_iff keys_ok_def)
  show "insert_field_mapping f st = Inr (z, st') \<Longrightarrow> keys_ok st \<Longrightarrow> keys_ok st'"
    by (auto simp: insert_field_mapping_def bindE_Inr_iff keys_ok_def)
qed

lemma keys_models [keeps_keys]:
  "insert_model m st = Inr (x, st') \<Longrightarrow> keys_ok st \<Longrightarrow> keys_ok st'"
  "update_model_row m st = Inr (x, st') \<Longrightarrow> keys_ok st \<Longrightarrow> keys_ok st'"
proof -
  show "insert_model m st = Inr (x, st') \<Longrightarrow> keys_ok st \<Longrightarrow> keys_ok st'"
    by (auto simp: insert_model_def bindE_Inr_iff raise_if_Inr_iff Let_def keys_ok_def insert_all_distinct
        split: option.splits)
  assume upd: "update_model_row m st = Inr (x, st')" and ok: "keys_ok st"
  let ?f = "\<lambda>r. r\<lparr>mr_name := lm_name m, mr_version := lm_version m, mr_description := lm_description m\<rparr>"
  have st': "st' = st\<lparr>st_models := touch_row mr_id (lm_id m) (update_row mr_id (lm_id m) ?f (st_models st))\<rparr>"
    and other: "\<forall>r \<in> set (st_models st). mr_id r \<noteq> lm_id m \<longrightarrow> mr_name r \<noteq> lm_name m"
    using upd by (auto simp: update_model_row_def Let_def split: option.splits if_splits)
  have "distinct (map mr_name (update_row mr_id (lm_id m) ?f (st_models st)))"
    using ok other by (intro update_row_names) (simp_all add: keys_ok_def)
  then show "keys_ok st'" using ok by (simp add: st' keys_ok_def update_row_keys)
qed

lemma keys_entities [keeps_keys]:
  "insert_entity e st = Inr (x, st') \<Longrightarrow> keys_ok st \<Longrightarrow> keys_ok st'"
  "update_entity_row e st = Inr (x, st') \<Longrightarrow> keys_ok st \<Longrightarrow> keys_ok st'"
  "insert_field f st = Inr (y, st') \<Longrightarrow> keys_ok st \<Longrightarrow> keys_ok st'"
  "update_field_row f st = Inr (y, st') \<Longrightarrow> keys_ok st \<Longrightarrow> keys_ok st'"
proof -
  show "insert_entity e st = Inr (x, st') \<Longrightarrow> keys_ok st \<Longrightarrow> keys_ok st'"
    by (auto simp: insert_entity_def bindE_Inr_iff Let_def keys_ok_def insert_all_distinct split: option.splits)
  show "update_entity_row e st = Inr (x, st') \<Longrightarrow> keys_ok st \<Longrightarrow> keys_ok st'"
    by (auto simp: update_entity_row_def Let_def keys_ok_def update_row_keys split: option.splits)
  show "insert_field f st = Inr (y, st') \<Longrightarrow> keys_ok st \<Longrightarrow> keys_ok st'"
    by (auto simp: insert_field_def bindE_Inr_iff keys_ok_def split: option.splits)
  assume upd: "update_field_row f st = Inr (y, st')" and ok: "keys_ok st"
  then have "lf_id y = lf_id f" and st': "st' = st\<lparr>st_fields := update_row lf_id (lf_id f) (\<lambda>_. y) (st_fields st)\<rparr>"
    by (auto simp: update_field_row_def get_stored_field_def Let_def split: option.splits dest: find_row_Some)
  then have "map lf_id (st_fields st') = map lf_id (st_fields st)" by (simp add: update_row_def)
  then show "keys_ok st'" using ok by (simp add: st' keys_ok_def)
qed

section \<open>Services\<close>

lemma demote_keeps:
  assumes "\<And>o' x st st'. P st \<Longrightarrow> sm_status o' \<noteq> ACTIVE \<Longrightarrow> update_mapping False o' st = Inr (x, st') \<Longrightarrow> P st'"
  shows "demote_others m os st = Inr st' \<Longrightarrow> P st \<Longrightarrow> P st'"
proof (induction m os st rule: demote_others.induct)
  case (2 m o' os st)
  show ?case
  proof (cases "sm_id o' \<noteq> sm_id m \<and> sm_source_id o' = sm_source_id m \<and> sm_status o' = ACTIVE")
    case True
    then obtain x st1 where u: "update_mapping False (o'\<lparr>sm_status := VALIDATED\<rparr>) st = Inr (x, st1)"
      and d: "demote_others m os st1 = Inr st'"
      using 2(3) by (auto simp: bindE_Inr_iff)
    have "P st1" by (rule assms [OF 2(4) _ u]) simp
    then show ?thesis using 2(1) [OF True u refl d] by blast
  next
    case False
    then have "demote_others m os st = Inr st'" using 2(3) by (simp only: demote_others.simps if_False)
    then show ?thesis using 2(2) [OF False] 2(4) by blast
  qed
qed simp

lemma new_store_Inr: "new_store r = Inr st \<longleftrightarrow> (\<exists>x. r = Inr (x, st))"
  by (auto simp: new_store_def bindE_Inr_iff)

lemma keys_verdict:
  "record_verdict m s msg st = Inr (x, st') \<Longrightarrow> keys_ok st \<Longrightarrow> keys_ok st'"
  by (auto simp: record_verdict_def bindE_Inr_iff keeps_keys)

lemma discover_Inr:
  assumes "discover_and_save_schema d i st = Inr (schema, st')"
  shows "st' = update_source_status i SourceActive (save_schema_snapshot i schema st)"
proof -
  obtain s where "(case d s of Inl message \<Rightarrow> Inl (SchemaDiscoveryError message)
      | Inr schema \<Rightarrow> Inr (schema, update_source_status i SourceActive (save_schema_snapshot i schema st))) = Inr (schema, st')"
    using assms by (auto simp: discover_and_save_schema_def bindE_Inr_iff)
  then show ?thesis by (cases "d s") auto
qed

lemma keys_discover [keeps_keys]:
  "discover_and_save_schema d i st = Inr (x, st') \<Longrightarrow> keys_ok st \<Longrightarrow> keys_ok st'"
  by (drule discover_Inr) (simp add: keeps_keys)

lemma keys_physical_schema:
  "physical_schema_of d s st = Inr (x, st') \<Longrightarrow> keys_ok st \<Longrightarrow> keys_ok st'"
  by (auto simp: physical_schema_of_def keeps_keys split: option.splits)

text \<open>Every branch of the validation ends in a verdict, after at most one discovery.\<close>

lemma validate_verdict:
  assumes "validate_source_mapping d i st = Inr (x, st')"
  obtains m status msg st1 where "get_source_mapping_by_id st i = Some m" "record_verdict m status msg st1 = Inr (x, st')"
    "status \<noteq> ACTIVE" "st1 = st \<or> (\<exists>s schema. physical_schema_of d s st = Inr (schema, st1))"
proof -
  obtain m model where m: "get_source_mapping_by_id st i = Some m" and r: "(case get_source_by_id st (sm_source_id m) of
       None \<Rightarrow> record_verdict m ERROR (Some (''Physical source '' @ quoted (sm_source_id m) @ '' was not found.'')) st
     | Some s \<Rightarrow>
         (case physical_schema_of d s st of
            Inl e \<Rightarrow> record_verdict m ERROR
              (Some (''Physical schema discovery failed for source '' @ quoted (src_name s) @ '': '' @ error_text e)) st
          | Inr (schema, st1) \<Rightarrow>
              if sm_entities m = [] then record_verdict m DRAFT (Some ''No entity mappings defined yet.'') st1
              else (case first_fault (entity_fault model s schema) (sm_entities m) of
                      Some message \<Rightarrow> record_verdict m ERROR (Some message) st1
                    | None \<Rightarrow> record_verdict m VALIDATED None st1))) = Inr (x, st')"
    using assms by (auto simp: validate_source_mapping_def bindE_Inr_iff get_source_mapping_def optionE_or_def
        split: option.splits [where option = "get_source_mapping_by_id st i"])
  show ?thesis
  proof (cases "get_source_by_id st (sm_source_id m)")
    case None
    then show ?thesis using that [OF m] r by simp
  next
    case (Some s)
    show ?thesis
    proof (cases "physical_schema_of d s st")
      case (Inl e)
      then show ?thesis using that [OF m] r Some by simp
    next
      case (Inr y)
      obtain schema st1 where y: "y = (schema, st1)" by (cases y)
      from r Some Inr y obtain status msg where "record_verdict m status msg st1 = Inr (x, st')" "status \<noteq> ACTIVE"
        by (auto split: if_splits option.splits)
      then show ?thesis using that [OF m] Inr y by blast
    qed
  qed
qed

lemma keys_validate:
  assumes "validate_source_mapping d i st = Inr (x, st')" "keys_ok st"
  shows "keys_ok st'"
  using assms(1)
proof (rule validate_verdict)
  fix m status msg st1
  assume v: "record_verdict m status msg st1 = Inr (x, st')"
    and "st1 = st \<or> (\<exists>s schema. physical_schema_of d s st = Inr (schema, st1))"
  then have "keys_ok st1" using assms(2) keys_physical_schema by blast
  with v show ?thesis by (rule keys_verdict)
qed

lemma keys_activate:
  assumes "activate_source_mapping i st = Inr (x, st')" "keys_ok st"
  shows "keys_ok st'"
proof -
  obtain m st1 where d: "demote_others m (list_source_mappings st (Some (sm_model_id m)) None) st = Inr st1"
    and u: "update_mapping False (m\<lparr>sm_status := ACTIVE, sm_error := None\<rparr>) st1 = Inr (x, st')"
    using assms(1) by (auto simp: activate_source_mapping_def bindE_Inr_iff split: if_splits)
  have "keys_ok st1" by (rule demote_keeps [where P = keys_ok, OF keys_mappings(2) d assms(2)])
  with u show ?thesis by (rule keeps_keys)
qed

lemma run_keeps_keys:
  assumes "run_command db c st = Inr st'" "keys_ok st"
  shows "keys_ok st'"
proof (cases c)
  case (ValidateMapping i)
  then show ?thesis using assms keys_validate by (auto simp: new_store_Inr)
next
  case (ActivateMapping i)
  then show ?thesis using assms keys_activate by (auto simp: new_store_Inr)
next
  case (UpdateMapping i u)
  then show ?thesis using assms
    by (auto simp: new_store_Inr update_source_mapping_def Let_def bindE_Inr_iff keeps_keys split: option.splits if_splits)
next
  case (CreateSource s t)
  then show ?thesis using assms
    by (auto simp: new_store_Inr create_source_def bindE_Inr_iff keeps_keys split: option.splits if_splits sum.splits)
next
  case (UpdateSource i u)
  then show ?thesis using assms
    by (auto simp: new_store_Inr update_source_def bindE_Inr_iff keeps_keys)
next
  case (TestSource i)
  then show ?thesis using assms
    by (auto simp: new_store_Inr test_source_connection_def bindE_Inr_iff keeps_keys split: option.splits if_splits sum.splits)
next
  case (DiscoverSchema i)
  then show ?thesis using assms
    by (auto simp: new_store_Inr keeps_keys)
next
  case (CreateModel i n v d es)
  then show ?thesis using assms
    by (auto simp: new_store_Inr create_model_def bindE_Inr_iff keeps_keys split: option.splits if_splits sum.splits)
next
  case (UpdateModel i n v d)
  then show ?thesis using assms
    by (auto simp: new_store_Inr update_model_def bindE_Inr_iff keeps_keys)
next
  case (AddEntity i m n d fs)
  then show ?thesis using assms
    by (auto simp: new_store_Inr add_entity_def bindE_Inr_iff keeps_keys split: option.splits if_splits sum.splits)
next
  case (UpdateEntity i n d)
  then show ?thesis using assms
    by (auto simp: new_store_Inr update_entity_def bindE_Inr_iff keeps_keys)
next
  case (AddField i e n t pk nul)
  then show ?thesis using assms
    by (auto simp: new_store_Inr add_field_def bindE_Inr_iff keeps_keys split: option.splits if_splits sum.splits)
next
  case (UpdateField i n t pk nul)
  then show ?thesis using assms
    by (auto simp: new_store_Inr update_field_def bindE_Inr_iff keeps_keys)
next
  case (CreateMapping i m s v stt prov ems)
  then show ?thesis using assms
    by (auto simp: new_store_Inr create_source_mapping_def bindE_Inr_iff keeps_keys split: option.splits if_splits sum.splits)
next
  case (AddEntityMapping i m e p ns fms)
  then show ?thesis using assms
    by (auto simp: new_store_Inr add_entity_mapping_def bindE_Inr_iff keeps_keys split: option.splits if_splits sum.splits)
next
  case (AddFieldMapping i em f p r)
  then show ?thesis using assms
    by (auto simp: new_store_Inr add_field_mapping_def bindE_Inr_iff keeps_keys split: option.splits if_splits sum.splits)
next
  case (IngestSuggestions i m s v ps)
  then show ?thesis using assms
    by (auto simp: new_store_Inr ingest_align_suggestions_def bindE_Inr_iff keeps_keys split: option.splits if_splits sum.splits)
qed (use assms keys_deletes in auto)

section \<open>At most one active mapping\<close>

definition active_keys :: "registry_store \<Rightarrow> (string \<times> string \<times> string) list" where
  "active_keys st =
     map (\<lambda>r. (mp_id r, mp_model_id r, mp_source_id r)) (filter (\<lambda>r. mp_status r = ACTIVE) (st_mappings st))"

definition one_active :: "registry_store \<Rightarrow> bool" where
  "one_active st \<longleftrightarrow>
     (\<forall>x \<in> set (active_keys st). \<forall>y \<in> set (active_keys st). snd x = snd y \<longrightarrow> fst x = fst y)"

lemma one_active_mono: "set (active_keys st') \<subseteq> set (active_keys st) \<Longrightarrow> one_active st \<Longrightarrow> one_active st'"
  unfolding one_active_def by (meson subset_iff)

lemma active_keys_mem:
  "(i, m, s) \<in> set (active_keys st) \<longleftrightarrow>
     (\<exists>r \<in> set (st_mappings st). mp_status r = ACTIVE \<and> mp_id r = i \<and> mp_model_id r = m \<and> mp_source_id r = s)"
  by (auto simp: active_keys_def)

named_theorems mapping_rows

lemma mappings_source [mapping_rows]: "insert_source src st = Inr (x, st') \<Longrightarrow> st_mappings st' = st_mappings st"
  by (auto simp: insert_source_def bindE_Inr_iff )

lemma mappings_source_update [mapping_rows]: "update_source_row src st = Inr (x, st') \<Longrightarrow> st_mappings st' = st_mappings st"
  by (auto simp: update_source_row_def Let_def split: option.splits if_splits)

lemma mappings_model [mapping_rows]: "insert_model m st = Inr (x, st') \<Longrightarrow> st_mappings st' = st_mappings st"
  by (auto simp: insert_model_def bindE_Inr_iff Let_def split: option.splits)

lemma mappings_model_update [mapping_rows]: "update_model_row m st = Inr (x, st') \<Longrightarrow> st_mappings st' = st_mappings st"
  by (auto simp: update_model_row_def Let_def split: option.splits if_splits)

lemma mappings_entity [mapping_rows]: "insert_entity e st = Inr (x, st') \<Longrightarrow> st_mappings st' = st_mappings st"
  by (auto simp: insert_entity_def bindE_Inr_iff Let_def split: option.splits)

lemma mappings_entity_update [mapping_rows]: "update_entity_row e st = Inr (x, st') \<Longrightarrow> st_mappings st' = st_mappings st"
  by (auto simp: update_entity_row_def Let_def split: option.splits)

lemma mappings_field [mapping_rows]: "insert_field f st = Inr (x, st') \<Longrightarrow> st_mappings st' = st_mappings st"
  by (auto simp: insert_field_def bindE_Inr_iff )

lemma mappings_field_update [mapping_rows]: "update_field_row f st = Inr (x, st') \<Longrightarrow> st_mappings st' = st_mappings st"
  by (auto simp: update_field_row_def Let_def split: option.splits)

lemma mappings_field_mapping [mapping_rows]: "insert_field_mapping fm st = Inr (x, st') \<Longrightarrow> st_mappings st' = st_mappings st"
  by (auto simp: insert_field_mapping_def bindE_Inr_iff )

lemma mappings_entity_mappings [mapping_rows]: "insert_entity_mappings i ems st = Inr st' \<Longrightarrow> st_mappings st' = st_mappings st"
  by (auto dest!: insert_entity_mappings_Inr)

lemma mappings_elsewhere [mapping_rows]:
  "st_mappings (update_source_status i status st) = st_mappings st"
  "st_mappings (save_schema_snapshot i schema st) = st_mappings st"
  "st_mappings (delete_fields_of Q st) = st_mappings st"
  "st_mappings (snd (delete_entity_row i st)) = st_mappings st"
  "st_mappings (snd (delete_field_row i st)) = st_mappings st"
  "st_mappings (snd (delete_field_mapping_row i st)) = st_mappings st"
  "st_mappings (snd (delete_entity_mapping_row i st)) = st_mappings st"
  "st_mappings (delete_entity_mappings_where P st) = st_mappings st"
  by (simp_all add: update_source_status_def save_schema_snapshot_def delete_entity_row_def delete_field_row_def
      delete_field_mapping_row_def delete_entity_mapping_row_def delete_entity_mappings_where_def
      delete_field_mappings_of_def delete_fields_of_def Let_def split: option.split)

lemma mappings_discover [mapping_rows]:
  "discover_and_save_schema d i st = Inr (x, st') \<Longrightarrow> st_mappings st' = st_mappings st"
  "physical_schema_of d s st = Inr (x, st') \<Longrightarrow> st_mappings st' = st_mappings st"
  by (auto simp: physical_schema_of_def mapping_rows dest!: discover_Inr split: option.splits)

lemma mappings_deleted [mapping_rows]:
  "set (st_mappings (delete_mappings_where P st)) \<subseteq> set (st_mappings st)"
  "set (st_mappings (snd (delete_mapping_row i st))) \<subseteq> set (st_mappings st)"
  "set (st_mappings (snd (delete_source_row i st))) \<subseteq> set (st_mappings st)"
  "set (st_mappings (snd (delete_model_row i st))) \<subseteq> set (st_mappings st)"
  by (auto simp: delete_mapping_row_def delete_source_row_def delete_model_row_def delete_mappings_where_def
      delete_fields_of_def Let_def)

lemma active_keys_subset: "set (st_mappings st') \<subseteq> set (st_mappings st) \<Longrightarrow> set (active_keys st') \<subseteq> set (active_keys st)"
  by (auto simp: active_keys_def)

lemma one_active_same: "set (st_mappings st') \<subseteq> set (st_mappings st) \<Longrightarrow> one_active st \<Longrightarrow> one_active st'"
  by (rule one_active_mono [OF active_keys_subset])

definition rewritten :: "source_mapping \<Rightarrow> mapping_row \<Rightarrow> mapping_row" where
  "rewritten m r = (if mp_id r = sm_id m then r\<lparr>mp_version := sm_version m, mp_status := sm_status m,
     mp_provenance := sm_provenance m, mp_error := sm_error m\<rparr> else r)"

lemma rewritten_simps [simp]:
  "mp_id (rewritten m r) = mp_id r" "mp_model_id (rewritten m r) = mp_model_id r"
  "mp_source_id (rewritten m r) = mp_source_id r"
  "mp_status (rewritten m r) = (if mp_id r = sm_id m then sm_status m else mp_status r)"
  by (simp_all add: rewritten_def)

lemma update_mapping_rows:
  assumes "update_mapping b m st = Inr (x, st')"
  shows "set (st_mappings st') = rewritten m ` set (st_mappings st)"
    and "\<exists>r \<in> set (st_mappings st). mp_id r = sm_id m \<and> x = source_mapping_to_domain st' (rewritten m r)"
proof -
  have "st_mappings st' = st_mappings (write_mapping_row m st)" and x: "get_source_mapping_by_id st' (sm_id m) = Some x"
    using assms by (auto simp: update_mapping_def Let_def bindE_Inr_iff read_back_Inr mapping_rows split: if_splits)
  then show rows: "set (st_mappings st') = rewritten m ` set (st_mappings st)"
    by (simp add: write_mapping_row_def set_update_row rewritten_def cong: if_cong)
  obtain q where "q \<in> set (st_mappings st')" "mp_id q = sm_id m" "x = source_mapping_to_domain st' q"
    using x by (auto simp: get_source_mapping_by_id_def dest!: find_row_Some)
  then show "\<exists>r \<in> set (st_mappings st). mp_id r = sm_id m \<and> x = source_mapping_to_domain st' (rewritten m r)"
    by (auto simp: rows)
qed

section \<open>Activation\<close>

text \<open>What of a mapping matters for activation.\<close>

definition row_view :: "mapping_row \<Rightarrow> string \<times> string \<times> string \<times> mapping_status" where
  "row_view r = (mp_id r, mp_model_id r, mp_source_id r, mp_status r)"

lemma active_keys_view: "set (active_keys st) = {(i, m, s). (i, m, s, ACTIVE) \<in> row_view ` set (st_mappings st)}"
  by (auto simp: active_keys_def row_view_def)

definition demotes :: "source_mapping \<Rightarrow> source_mapping \<Rightarrow> bool" where
  "demotes m o' \<longleftrightarrow> sm_id o' \<noteq> sm_id m \<and> sm_source_id o' = sm_source_id m \<and> sm_status o' = ACTIVE"

lemma update_view:
  assumes "update_mapping b m st = Inr (x, st')"
  shows "row_view ` set (st_mappings st') =
    (\<lambda>r. (mp_id r, mp_model_id r, mp_source_id r, if mp_id r = sm_id m then sm_status m else mp_status r)) ` set (st_mappings st)"
  by (simp add: update_mapping_rows(1) [OF assms] image_image row_view_def)

lemma demote_view:
  "demote_others m os st = Inr st' \<Longrightarrow>
     row_view ` set (st_mappings st') =
     (\<lambda>r. (mp_id r, mp_model_id r, mp_source_id r,
        if \<exists>o' \<in> set os. demotes m o' \<and> sm_id o' = mp_id r then VALIDATED else mp_status r)) ` set (st_mappings st)"
proof (induction os arbitrary: st)
  case Nil
  then show ?case by (simp add: row_view_def)
next
  case (Cons o' os)
  show ?case
  proof (cases "demotes m o'")
    case True
    then obtain x st1 where u: "update_mapping False (o'\<lparr>sm_status := VALIDATED\<rparr>) st = Inr (x, st1)"
      and d: "demote_others m os st1 = Inr st'"
      using Cons.prems by (auto simp: demotes_def bindE_Inr_iff)
    show ?thesis
      unfolding Cons.IH [OF d] update_mapping_rows(1) [OF u] image_image using True by (intro image_cong) auto
  next
    case False
    then have "demote_others m os st = Inr st'" using Cons.prems unfolding demotes_def by (simp only: demote_others.simps if_False)
    from Cons.IH [OF this] False show ?thesis by simp
  qed
qed

text \<open>The statuses after an activation: one goes up, the others of the same model and source go down.\<close>

definition status_after :: "mapping_row \<Rightarrow> mapping_row \<Rightarrow> mapping_status" where
  "status_after a r =
     (if mp_id r = mp_id a then ACTIVE
      else if (mp_model_id a = [] \<or> mp_model_id r = mp_model_id a) \<and> mp_source_id r = mp_source_id a \<and> mp_status r = ACTIVE
      then VALIDATED else mp_status r)"

lemma row_unique: "keys_ok st \<Longrightarrow> r \<in> set (st_mappings st) \<Longrightarrow> q \<in> set (st_mappings st) \<Longrightarrow> mp_id r = mp_id q \<Longrightarrow> r = q"
  by (auto simp: keys_ok_def distinct_map dest: inj_onD)

lemma activate_view:
  assumes "activate_source_mapping i st = Inr (x, st')" "keys_ok st"
  obtains a where "a \<in> set (st_mappings st)" "mp_id a = i" "mp_status a = VALIDATED" "sm_id x = i" "sm_status x = ACTIVE"
    "row_view ` set (st_mappings st') = (\<lambda>r. (mp_id r, mp_model_id r, mp_source_id r, status_after a r)) ` set (st_mappings st)"
proof -
  obtain a st1 where a: "find_row mp_id i (st_mappings st) = Some a" "mp_status a = VALIDATED"
    and d: "demote_others (source_mapping_to_domain st a)
        (list_source_mappings st (Some (mp_model_id a)) None) st = Inr st1"
    and u: "update_mapping False ((source_mapping_to_domain st a)\<lparr>sm_status := ACTIVE, sm_error := None\<rparr>) st1 = Inr (x, st')"
    using assms(1)
    by (auto simp: activate_source_mapping_def bindE_Inr_iff get_source_mapping_def optionE_or_def
        get_source_mapping_by_id_def source_mapping_to_domain_def split: option.splits if_splits)
  then have mem: "a \<in> set (st_mappings st)" "mp_id a = i" by (auto dest: find_row_Some)
  let ?m = "source_mapping_to_domain st a" and ?os = "list_source_mappings st (Some (mp_model_id a)) None"
  have down: "(\<exists>o' \<in> set ?os. demotes ?m o' \<and> sm_id o' = mp_id r) \<longleftrightarrow>
      mp_id r \<noteq> i \<and> (mp_model_id a = [] \<or> mp_model_id r = mp_model_id a) \<and> mp_source_id r = mp_source_id a \<and> mp_status r = ACTIVE"
    if r: "r \<in> set (st_mappings st)" for r
    using mem r
    by (auto simp: list_source_mappings_def demotes_def source_mapping_to_domain_def dest: row_unique [OF assms(2) _ r])
  have "row_view ` set (st_mappings st') =
      (\<lambda>v. case v of (j, m, s, t) \<Rightarrow> (j, m, s, if j = i then ACTIVE else t)) ` (row_view ` set (st_mappings st1))"
    unfolding update_view [OF u] image_image using mem by (simp add: row_view_def source_mapping_to_domain_def cong: if_cong)
  also have "\<dots> = (\<lambda>r. (mp_id r, mp_model_id r, mp_source_id r, status_after a r)) ` set (st_mappings st)"
    unfolding demote_view [OF d] image_image using down mem by (intro image_cong) (auto simp: status_after_def)
  finally have view: "row_view ` set (st_mappings st') =
      (\<lambda>r. (mp_id r, mp_model_id r, mp_source_id r, status_after a r)) ` set (st_mappings st)" .
  have "sm_id x = i" "sm_status x = ACTIVE"
    using update_mapping_rows(2) [OF u] mem by (auto simp: source_mapping_to_domain_def)
  with mem a(2) view that show ?thesis by blast
qed

text \<open>
  C27. Activation raises exactly one mapping and lowers exactly its rivals. If \<open>activate_source_mapping\<close>
  succeeds, the mapping was VALIDATED and is ACTIVE; every other ACTIVE mapping of the same model and
  source goes back to VALIDATED; no other status changes, and no mapping appears or disappears.
\<close>

theorem activate_exclusive:
  assumes "activate_source_mapping i st = Inr (m, st')" "keys_ok st"
  shows "sm_id m = i \<and> sm_status m = ACTIVE \<and>
    (\<exists>a \<in> set (st_mappings st). mp_id a = i \<and> mp_status a = VALIDATED \<and>
      row_view ` set (st_mappings st') =
        (\<lambda>r. (mp_id r, mp_model_id r, mp_source_id r, status_after a r)) ` set (st_mappings st))"
  using assms by (elim activate_view) blast+

lemma activate_one_active:
  assumes "activate_source_mapping i st = Inr (x, st')" "keys_ok st" "one_active st"
  shows "one_active st'"
  using assms(1,2)
proof (rule activate_view)
  fix a
  assume a: "a \<in> set (st_mappings st)" "mp_id a = i" and
    view: "row_view ` set (st_mappings st') = (\<lambda>r. (mp_id r, mp_model_id r, mp_source_id r, status_after a r)) ` set (st_mappings st)"
  have mem: "(j, m, s) \<in> set (active_keys st') \<longleftrightarrow>
      (\<exists>r \<in> set (st_mappings st). mp_id r = j \<and> mp_model_id r = m \<and> mp_source_id r = s \<and> status_after a r = ACTIVE)" for j m s
    unfolding active_keys_view view by auto
  have before: "r = q" if "r \<in> set (st_mappings st)" "q \<in> set (st_mappings st)" "mp_status r = ACTIVE" "mp_status q = ACTIVE"
    "mp_model_id r = mp_model_id q" "mp_source_id r = mp_source_id q" for r q
  proof -
    have "(mp_id r, mp_model_id r, mp_source_id r) \<in> set (active_keys st)" "(mp_id q, mp_model_id r, mp_source_id r) \<in> set (active_keys st)"
      using that by (auto simp: active_keys_mem)
    then have "mp_id r = mp_id q" using assms(3) unfolding one_active_def by fastforce
    then show "r = q" using row_unique [OF assms(2)] that by blast
  qed
  have after: "status_after a r = ACTIVE \<longleftrightarrow> mp_id r = i \<or>
      (mp_status r = ACTIVE \<and> \<not> ((mp_model_id a = [] \<or> mp_model_id r = mp_model_id a) \<and> mp_source_id r = mp_source_id a))" for r
    using a by (auto simp: status_after_def)
  have one: "mp_id r = mp_id q" if "r \<in> set (st_mappings st)" "q \<in> set (st_mappings st)" "status_after a r = ACTIVE"
    "status_after a q = ACTIVE" "mp_model_id r = mp_model_id q" "mp_source_id r = mp_source_id q" for r q
  proof (cases "mp_id r = i \<or> mp_id q = i")
    case True
    then have "r = a \<or> q = a" using row_unique [OF assms(2)] a that by blast
    then show ?thesis using that(3-6) a unfolding after by auto
  next
    case False
    then show ?thesis using that before unfolding after by blast
  qed
  have ids: "j = k" if jk: "(j, m, s) \<in> set (active_keys st')" "(k, m, s) \<in> set (active_keys st')" for j k m s
  proof -
    obtain r where r: "r \<in> set (st_mappings st)" "mp_id r = j" "mp_model_id r = m" "mp_source_id r = s" "status_after a r = ACTIVE"
      using jk(1) unfolding mem by blast
    obtain q where q: "q \<in> set (st_mappings st)" "mp_id q = k" "mp_model_id q = m" "mp_source_id q = s" "status_after a q = ACTIVE"
      using jk(2) unfolding mem by blast
    show ?thesis using one [OF r(1) q(1) r(5) q(5)] r q by simp
  qed
  show "one_active st'"
    unfolding one_active_def
  proof (intro ballI impI)
    fix x y
    assume "x \<in> set (active_keys st')" "y \<in> set (active_keys st')" "snd x = snd y"
    then show "fst x = fst y" by (cases x rule: prod_cases3; cases y rule: prod_cases3) (simp add: ids)
  qed
qed

section \<open>Every history\<close>

lemma passive_update:
  assumes "update_mapping b m st = Inr (x, st')" "sm_status m \<noteq> ACTIVE"
  shows "set (active_keys st') \<subseteq> set (active_keys st)"
  unfolding active_keys_view update_view [OF assms(1)] using assms(2) by (auto simp: row_view_def split: if_splits)

lemma same_status_update:
  assumes "update_mapping b m st = Inr (x, st')" "keys_ok st" "r \<in> set (st_mappings st)" "mp_id r = sm_id m"
    "sm_status m = mp_status r"
  shows "set (active_keys st') \<subseteq> set (active_keys st)"
proof -
  have "mp_status q = sm_status m" if "q \<in> set (st_mappings st)" "mp_id q = sm_id m" for q
    using row_unique [OF assms(2) that(1) assms(3)] that assms(4,5) by simp
  then show ?thesis
    unfolding active_keys_view update_view [OF assms(1)] by (auto simp: row_view_def split: if_splits)
qed

lemma insert_mapping_active:
  assumes "insert_source_mapping m st = Inr (x, st')" "sm_status m \<noteq> ACTIVE"
  shows "set (active_keys st') \<subseteq> set (active_keys st)"
proof -
  obtain r where "st_mappings st' = r # st_mappings st" "mp_status r = sm_status m"
    using assms(1) by (auto simp: insert_source_mapping_def bindE_Inr_iff read_back_Inr mapping_rows)
  then show ?thesis using assms(2) by (simp add: active_keys_def)
qed

lemma insert_entity_mapping_active:
  "insert_entity_mapping em st = Inr (x, st') \<Longrightarrow> set (active_keys st') = set (active_keys st)"
  by (auto simp: insert_entity_mapping_def bindE_Inr_iff Let_def active_keys_def mapping_rows)

lemma update_source_mapping_active:
  assumes "update_source_mapping i u st = Inr (x, st')" "keys_ok st" "mu_status u \<noteq> Some ACTIVE"
  shows "set (active_keys st') \<subseteq> set (active_keys st)"
proof -
  let ?edit = "\<lambda>m. m\<lparr>sm_version := (case mu_version u of None \<Rightarrow> sm_version m | Some v \<Rightarrow> v),
      sm_provenance := (case mu_provenance u of None \<Rightarrow> sm_provenance m | Some p \<Rightarrow> p),
      sm_error := orelse (mu_error u) (sm_error m)\<rparr>"
  obtain r where r: "r \<in> set (st_mappings st)" "mp_id r = i"
    and found: "get_source_mapping i st = Inr (source_mapping_to_domain st r)"
    using assms(1) by (auto simp: update_source_mapping_def bindE_Inr_iff get_source_mapping_def optionE_or_def
        get_source_mapping_by_id_def split: option.splits dest: find_row_Some)
  let ?m = "?edit (source_mapping_to_domain st r)"
  have m: "sm_id ?m = mp_id r" "sm_status ?m = mp_status r" by (simp_all add: source_mapping_to_domain_def)
  consider ems model where "update_mapping True (?m\<lparr>sm_entities := map (align_entity model) ems, sm_status := DRAFT, sm_error := None\<rparr>) st = Inr (x, st')"
    | "update_mapping False ?m st = Inr (x, st')"
    | status where "status \<noteq> ACTIVE" "update_mapping False (?m\<lparr>sm_status := status\<rparr>) st = Inr (x, st')"
    using assms(1,3) found
    by (cases "mu_entities u"; cases "mu_status u") (auto simp: update_source_mapping_def Let_def bindE_Inr_iff split: if_splits)
  then show ?thesis
  proof cases
    case (1 ems model)
    then show ?thesis by (rule passive_update) simp
  next
    case 2
    then show ?thesis using same_status_update [OF 2 assms(2) r(1)] m by simp
  next
    case (3 status)
    then show ?thesis by (intro passive_update [OF 3(2)]) simp
  qed
qed

text \<open>A request that sets a mapping ACTIVE without going through the activation.\<close>

fun forces_active :: "registry_command \<Rightarrow> bool" where
  "forces_active (UpdateMapping i u) \<longleftrightarrow> mu_status u = Some ACTIVE"
| "forces_active _ \<longleftrightarrow> False"

lemma run_active:
  assumes "run_command db c st = Inr st'" "keys_ok st" "one_active st" "\<not> forces_active c"
  shows "one_active st'"
proof -
  have quiet: "one_active st'" if "set (st_mappings st') \<subseteq> set (st_mappings st)"
    using that assms(3) by (rule one_active_same)
  show ?thesis
proof (cases c)
  case (ValidateMapping i)
  then obtain x where "validate_source_mapping (db_discover db) i st = Inr (x, st')"
    using assms(1) by (auto simp: new_store_Inr)
  then show ?thesis
  proof (rule validate_verdict)
    fix m status msg st1
    assume v: "record_verdict m status msg st1 = Inr (x, st')" "status \<noteq> ACTIVE"
      and "st1 = st \<or> (\<exists>s schema. physical_schema_of (db_discover db) s st = Inr (schema, st1))"
    then have "st_mappings st1 = st_mappings st" by (auto simp: mapping_rows)
    then have "set (active_keys st') \<subseteq> set (active_keys st)"
      using v passive_update [of False] by (fastforce simp: record_verdict_def bindE_Inr_iff active_keys_def)
    then show ?thesis using assms(3) by (rule one_active_mono)
  qed
next
  case (ActivateMapping i)
  then show ?thesis using assms activate_one_active by (auto simp: new_store_Inr)
next
  case (UpdateMapping i u)
  then show ?thesis using assms update_source_mapping_active one_active_mono by (auto simp: new_store_Inr) blast
next
  case (CreateMapping i m s v status prov ems)
  then obtain x sm where "insert_source_mapping sm st = Inr (x, st')" "sm_status sm \<noteq> ACTIVE"
    using assms(1) by (auto simp: new_store_Inr create_source_mapping_def bindE_Inr_iff split: if_splits)
  then show ?thesis using assms(3) insert_mapping_active one_active_mono by blast
next
  case (IngestSuggestions i m s v ps)
  then obtain x sm where "insert_source_mapping sm st = Inr (x, st')" "sm_status sm \<noteq> ACTIVE"
    using assms(1) by (auto simp: new_store_Inr ingest_align_suggestions_def bindE_Inr_iff)
  then show ?thesis using assms(3) insert_mapping_active one_active_mono by blast
next
  case (AddEntityMapping i m e p ns fms)
  then obtain em y st1 x sm where "insert_entity_mapping em st = Inr (y, st1)"
    "update_mapping False (sm\<lparr>sm_status := DRAFT, sm_error := None\<rparr>) st1 = Inr (x, st')"
    using assms(1) by (auto simp: new_store_Inr add_entity_mapping_def bindE_Inr_iff)
  then have "set (active_keys st') \<subseteq> set (active_keys st)"
    using passive_update [of False] insert_entity_mapping_active by fastforce
  then show ?thesis using assms(3) by (rule one_active_mono)
next
  case (CreateSource s t)
  then show ?thesis using assms(1)
    by (intro quiet) (auto simp: new_store_Inr create_source_def bindE_Inr_iff mapping_rows split: if_splits)
next
  case (UpdateSource i u)
  then show ?thesis using assms(1)
    by (intro quiet) (auto simp: new_store_Inr update_source_def bindE_Inr_iff mapping_rows split: if_splits)
next
  case (TestSource i)
  then show ?thesis using assms(1)
    by (intro quiet) (auto simp: new_store_Inr test_source_connection_def bindE_Inr_iff mapping_rows split: if_splits)
next
  case (CreateModel i n v d es)
  then show ?thesis using assms(1)
    by (intro quiet) (auto simp: new_store_Inr create_model_def bindE_Inr_iff mapping_rows split: if_splits)
next
  case (UpdateModel i n v d)
  then show ?thesis using assms(1)
    by (intro quiet) (auto simp: new_store_Inr update_model_def bindE_Inr_iff mapping_rows split: if_splits)
next
  case (AddEntity i m n d fs)
  then show ?thesis using assms(1)
    by (intro quiet) (auto simp: new_store_Inr add_entity_def bindE_Inr_iff mapping_rows split: if_splits)
next
  case (UpdateEntity i n d)
  then show ?thesis using assms(1)
    by (intro quiet) (auto simp: new_store_Inr update_entity_def bindE_Inr_iff mapping_rows split: if_splits)
next
  case (AddField i e n t pk nul)
  then show ?thesis using assms(1)
    by (intro quiet) (auto simp: new_store_Inr add_field_def bindE_Inr_iff mapping_rows split: if_splits)
next
  case (UpdateField i n t pk nul)
  then show ?thesis using assms(1)
    by (intro quiet) (auto simp: new_store_Inr update_field_def bindE_Inr_iff mapping_rows split: if_splits)
next
  case (AddFieldMapping i em f p r)
  then show ?thesis using assms(1)
    by (intro quiet) (auto simp: new_store_Inr add_field_mapping_def bindE_Inr_iff mapping_rows split: if_splits)
next
  case (DiscoverSchema i)
  then show ?thesis using assms(1) by (intro quiet) (auto simp: new_store_Inr mapping_rows)
qed (use assms(1) quiet mappings_deleted in \<open>auto simp: mappings_elsewhere\<close>)
qed

lemma history_keys_lemma: "history db st cs st' \<Longrightarrow> keys_ok st \<Longrightarrow> keys_ok st'"
  by (induction rule: history.induct) (auto intro: run_keeps_keys)

text \<open>
  C28. Keys stay unique. In every history of registry operations, whatever the databases answer, the
  identifiers of each table and the names of sources and of models stay distinct.
\<close>

theorem history_keys:
  assumes "history db st cs st'" "keys_ok st"
  shows "keys_ok st'"
  using assms by (rule history_keys_lemma)

text \<open>
  C29. At most one mapping of a model to a source is ACTIVE, in every history in which no request sets the
  status of a mapping to ACTIVE through \<open>update_source_mapping\<close>: activation, validation, creation in any
  status, ingestion, edits and deletions all keep the invariant that \<open>activate_source_mapping\<close> states.
\<close>

theorem history_one_active:
  assumes "history db st cs st'" "keys_ok st" "one_active st" "\<not> list_ex forces_active cs"
  shows "one_active st'"
  using assms
proof (induction rule: history.induct)
  case (succeeded st cs st1 c st2)
  then show ?case using history_keys_lemma [OF succeeded.hyps(1)] by (auto intro: run_active)
qed auto

section \<open>Samples\<close>

definition empty_store :: registry_store where
  "empty_store = \<lparr>st_sources = [], st_snapshots = [], st_models = [], st_entities = [], st_fields = [],
     st_mappings = [], st_entity_mappings = [], st_field_mappings = [], st_foreign_keys = False\<rparr>"

definition sample_source :: "string \<Rightarrow> source" where
  "sample_source i =
     \<lparr>src_id = i, src_name = ''db '' @ i, src_type = POSTGRESQL, src_host = Some ''localhost'', src_port = Some 5432,
      src_database_name = Some ''app'', src_username = Some ''app'', src_password = Some ''secret'', src_file_path = None,
      src_status = SourceUnknown\<rparr>"

definition sample_databases :: databases where
  "sample_databases = \<lparr>db_probe = (\<lambda>_. Inr True), db_discover = (\<lambda>s. Inr sample_schema)\<rparr>"

definition sample_logical_field :: "string \<Rightarrow> standard_data_type \<Rightarrow> logical_field" where
  "sample_logical_field n t =
     \<lparr>lf_id = ''lf_'' @ n, lf_entity_id = [], lf_name = n, lf_data_type = t, lf_primary_key = False, lf_nullable = True\<rparr>"

definition sample_users :: logical_entity where
  "sample_users = \<lparr>le_id = ''le_users'', le_model_id = [], le_name = ''users'', le_description = None,
     le_fields = [sample_logical_field ''id'' TINTEGER, sample_logical_field ''name'' TSTRING]\<rparr>"

definition sample_users_mapping :: "string \<Rightarrow> entity_mapping" where
  "sample_users_mapping i = \<lparr>em_id = i, em_source_mapping_id = [], em_logical_id = ''le_users'', em_logical_name = [],
     em_physical_name = ''Users'', em_namespace = ''public'',
     em_fields = [\<lparr>fm_id = i @ ''1'', fm_entity_mapping_id = [], fm_logical_id = ''lf_id'', fm_logical_name = [],
                   fm_physical_name = ''ID'', fm_rule = None\<rparr>]\<rparr>"

text \<open>Two versions of a mapping are validated and activated in turn.\<close>

definition sample_history :: "registry_command list" where
  "sample_history =
     [CreateSource (sample_source ''s1'') True, CreateModel ''m1'' ''shop'' ''1.0.0'' None [sample_users],
      CreateMapping ''a'' ''m1'' ''s1'' ''1.0.0'' ACTIVE USER [sample_users_mapping ''e1''],
      CreateMapping ''b'' ''m1'' ''s1'' ''2.0.0'' DRAFT USER [sample_users_mapping ''e2''],
      ValidateMapping ''a'', ActivateMapping ''a'', ValidateMapping ''b'', ActivateMapping ''b'']"

fun replay :: "databases \<Rightarrow> registry_command list \<Rightarrow> registry_store \<Rightarrow> registry_store" where
  "replay db [] st = st"
| "replay db (c # cs) st = replay db cs (case run_command db c st of Inl e \<Rightarrow> st | Inr st' \<Rightarrow> st')"

lemma history_append: "history db st cs st1 \<Longrightarrow> history db st (cs @ ds) (replay db ds st1)"
proof (induction ds arbitrary: cs st1)
  case (Cons d ds)
  have "history db st (cs @ [d]) (case run_command db d st1 of Inl e \<Rightarrow> st1 | Inr st' \<Rightarrow> st')"
    using Cons.prems by (auto intro: history.succeeded history.failed split: sum.split)
  from Cons.IH [OF this] show ?case by simp
qed simp

lemma replay_history: "history db st cs (replay db cs st)"
  using history_append [OF history.start, of db st cs] by simp

definition sample_store :: registry_store where
  "sample_store =
     \<lparr>st_sources = [(sample_source ''s1'')\<lparr>src_status := SourceActive\<rparr>], st_snapshots = [(''s1'', sample_schema)],
      st_models = [\<lparr>mr_id = ''m1'', mr_name = ''shop'', mr_version = ''1.0.0'', mr_description = None\<rparr>],
      st_entities = [\<lparr>er_id = ''le_users'', er_model_id = ''m1'', er_name = ''users'', er_description = None\<rparr>],
      st_fields = [(sample_logical_field ''id'' TINTEGER)\<lparr>lf_entity_id := ''le_users''\<rparr>,
        (sample_logical_field ''name'' TSTRING)\<lparr>lf_entity_id := ''le_users''\<rparr>],
      st_mappings =
        [\<lparr>mp_id = ''b'', mp_model_id = ''m1'', mp_source_id = ''s1'', mp_version = ''2.0.0'', mp_status = ACTIVE,
          mp_provenance = USER, mp_error = None\<rparr>,
         \<lparr>mp_id = ''a'', mp_model_id = ''m1'', mp_source_id = ''s1'', mp_version = ''1.0.0'', mp_status = VALIDATED,
          mp_provenance = USER, mp_error = None\<rparr>],
      st_entity_mappings =
        [\<lparr>emr_id = ''e1'', emr_source_mapping_id = ''a'', emr_logical_id = ''le_users'', emr_logical_name = ''users'',
          emr_physical_name = ''Users'', emr_namespace = ''public''\<rparr>,
         \<lparr>emr_id = ''e2'', emr_source_mapping_id = ''b'', emr_logical_id = ''le_users'', emr_logical_name = ''users'',
          emr_physical_name = ''Users'', emr_namespace = ''public''\<rparr>],
      st_field_mappings =
        [\<lparr>fm_id = ''e11'', fm_entity_mapping_id = ''e1'', fm_logical_id = ''lf_id'', fm_logical_name = ''id'',
          fm_physical_name = ''ID'', fm_rule = None\<rparr>,
         \<lparr>fm_id = ''e21'', fm_entity_mapping_id = ''e2'', fm_logical_id = ''lf_id'', fm_logical_name = ''id'',
          fm_physical_name = ''ID'', fm_rule = None\<rparr>],
      st_foreign_keys = False\<rparr>"

lemma sample_replay: "replay sample_databases sample_history empty_store = sample_store"
  by code_simp

lemma sample_statuses: "map row_view (st_mappings sample_store) = [(''b'', ''m1'', ''s1'', ACTIVE), (''a'', ''m1'', ''s1'', VALIDATED)]"
  by code_simp

lemma empty_store_ok: "keys_ok empty_store" "one_active empty_store"
  by code_simp+

lemma sample_store_ok: "keys_ok sample_store" "one_active sample_store" "[] \<notin> mr_id ` set (st_models sample_store)"
  by code_simp+

lemma history_keys_witness: "keys_ok sample_store"
  using history_keys [OF replay_history empty_store_ok(1)] unfolding sample_replay [symmetric] .

lemma history_one_active_witness: "one_active sample_store"
proof -
  have "\<not> list_ex forces_active sample_history" by code_simp
  then show ?thesis
    unfolding sample_replay [symmetric] by (rule history_one_active [OF replay_history empty_store_ok])
qed

lemma activate_exclusive_witness:
  "\<exists>m st'. activate_source_mapping ''a'' sample_store = Inr (m, st') \<and> sm_status m = ACTIVE \<and>
     row_view ` set (st_mappings st') = {(''a'', ''m1'', ''s1'', ACTIVE), (''b'', ''m1'', ''s1'', VALIDATED)}"
proof -
  have "isl (activate_source_mapping ''a'' sample_store) = False" by code_simp
  then obtain m st' where act: "activate_source_mapping ''a'' sample_store = Inr (m, st')"
    by (cases "activate_source_mapping ''a'' sample_store") auto
  note keys = sample_store_ok(1)
  from activate_exclusive [OF act keys] have "sm_status m = ACTIVE" by blast
  moreover have "row_view ` set (st_mappings (snd (projr (activate_source_mapping ''a'' sample_store)))) =
      {(''a'', ''m1'', ''s1'', ACTIVE), (''b'', ''m1'', ''s1'', VALIDATED)}" by code_simp
  ultimately show ?thesis using act by simp
qed

end
