(* ===== verification/Registry_Validation.thy ===== *)
theory Registry_Validation
  imports Registry_Invariants
begin

text \<open>
  What a VALIDATED mapping promises, and what the resolution of an entity returns; and the sequences of
  requests after which a mapping is ACTIVE without the promise.
\<close>

section \<open>Validation\<close>

definition field_fits :: "logical_entity \<Rightarrow> entity_schema \<Rightarrow> field_mapping \<Rightarrow> bool" where
  "field_fits e pe fm \<longleftrightarrow>
     (\<exists>lf pf. find_field e (fm_logical_id fm) (fm_logical_name fm) = Some lf \<and>
        find_physical_field pe (fm_physical_name fm) = Some pf \<and> types_compatible (lf_data_type lf) (fs_data_type pf))"

definition entity_fits :: "logical_model \<Rightarrow> source_schema \<Rightarrow> entity_mapping \<Rightarrow> bool" where
  "entity_fits m schema em \<longleftrightarrow>
     (\<exists>e pe. find_entity m (em_logical_id em) (em_logical_name em) = Some e \<and>
        find_physical_entity schema em = Some pe \<and> em_fields em \<noteq> [] \<and> (\<forall>fm \<in> set (em_fields em). field_fits e pe fm))"

definition mapping_fits :: "logical_model \<Rightarrow> source_schema \<Rightarrow> source_mapping \<Rightarrow> bool" where
  "mapping_fits m schema sm \<longleftrightarrow> sm_entities sm \<noteq> [] \<and> (\<forall>em \<in> set (sm_entities sm). entity_fits m schema em)"

lemma first_fault_None: "first_fault f xs = None \<longleftrightarrow> (\<forall>x \<in> set xs. f x = None)"
  by (induction xs) (auto split: option.split)

lemma field_fault_None: "field_fault e pe fm = None \<longleftrightarrow> field_fits e pe fm"
  by (auto simp: field_fault_def field_fits_def split: option.splits)

lemma entity_fault_None: "entity_fault m s schema em = None \<longleftrightarrow> entity_fits m schema em"
  by (auto simp: entity_fault_def entity_fits_def first_fault_None field_fault_None split: option.splits)

lemma mapping_fault_None:
  "sm_entities sm \<noteq> [] \<Longrightarrow> first_fault (entity_fault m s schema) (sm_entities sm) = None \<longleftrightarrow> mapping_fits m schema sm"
  by (simp add: first_fault_None entity_fault_None mapping_fits_def)

lemma domain_simps:
  "sm_id (source_mapping_to_domain st r) = mp_id r" "sm_model_id (source_mapping_to_domain st r) = mp_model_id r"
  "sm_source_id (source_mapping_to_domain st r) = mp_source_id r" "sm_status (source_mapping_to_domain st r) = mp_status r"
  by (simp_all add: source_mapping_to_domain_def)

text \<open>A discovery leaves a snapshot, and a verdict leaves everything but the row of the mapping.\<close>

lemma physical_schema_snapshot:
  assumes "physical_schema_of d s st = Inr (schema, st1)"
  shows "latest_snapshot st1 (src_id s) = Some schema" "st_entity_mappings st1 = st_entity_mappings st"
    "st_field_mappings st1 = st_field_mappings st"
  using assms
  by (auto simp: physical_schema_of_def update_source_status_def save_schema_snapshot_def latest_snapshot_def
      dest!: discover_Inr split: option.splits)

lemma physical_schema_failed:
  "physical_schema_of d s st = Inl e \<Longrightarrow> latest_snapshot st (src_id s) = None"
  by (auto simp: physical_schema_of_def split: option.splits)

lemma record_verdict_result:
  assumes "record_verdict (source_mapping_to_domain st r) status msg st1 = Inr ((ok, m, x), st')"
    and "st_entity_mappings st1 = st_entity_mappings st" "st_field_mappings st1 = st_field_mappings st"
  shows "ok \<longleftrightarrow> status = VALIDATED" "m = msg" "sm_status x = status" "sm_error x = msg"
    "sm_id x = mp_id r" "sm_entities x = sm_entities (source_mapping_to_domain st r)"
    "latest_snapshot st' = latest_snapshot st1"
    "\<exists>q \<in> set (st_mappings st1). mp_id q = mp_id r \<and> sm_model_id x = mp_model_id q \<and> sm_source_id x = mp_source_id q"
proof -
  let ?m = "(source_mapping_to_domain st r)\<lparr>sm_status := status, sm_error := msg\<rparr>"
  have u: "update_mapping False ?m st1 = Inr (x, st')" and ok: "ok \<longleftrightarrow> status = VALIDATED" "m = msg"
    using assms(1) by (auto simp: record_verdict_def bindE_Inr_iff)
  have st': "st' = write_mapping_row ?m st1"
    using u by (auto simp: update_mapping_def read_back_Inr split: if_splits)
  obtain q where q: "q \<in> set (st_mappings st1)" "mp_id q = sm_id ?m" "x = source_mapping_to_domain st' (rewritten ?m q)"
    using update_mapping_rows(2) [OF u] by blast
  show "ok \<longleftrightarrow> status = VALIDATED" "m = msg" by (fact ok)+
  show "latest_snapshot st' = latest_snapshot st1" by (rule ext) (simp add: st' write_mapping_row_def latest_snapshot_def)
  show "sm_status x = status" "sm_error x = msg" "sm_id x = mp_id r"
    using q by (simp_all add: source_mapping_to_domain_def rewritten_def)
  show "sm_entities x = sm_entities (source_mapping_to_domain st r)"
    using q assms(2,3)
    by (simp add: source_mapping_to_domain_def rewritten_def entity_mapping_to_domain_def st' write_mapping_row_def)
  show "\<exists>q \<in> set (st_mappings st1). mp_id q = mp_id r \<and> sm_model_id x = mp_model_id q \<and> sm_source_id x = mp_source_id q"
    using q by (auto simp: source_mapping_to_domain_def rewritten_def)
qed

text \<open>
  C30. Validation accepts exactly the mappings that fit. Whatever \<open>validate_source_mapping\<close> answers is
  recorded in the mapping, and the answer is yes if and only if the source exists, has a schema after the
  call, the mapping has entities, and every entity and field of it is found in the model and in the schema
  with compatible types.
\<close>

theorem validate_exact:
  assumes "validate_source_mapping d i st = Inr ((ok, msg, m), st')" "keys_ok st"
  shows "sm_id m = i \<and> sm_error m = msg \<and> (sm_status m = VALIDATED \<longleftrightarrow> ok) \<and>
    (ok \<longleftrightarrow> (\<exists>model s schema. get_model (sm_model_id m) st = Inr model \<and>
       get_source_by_id st (sm_source_id m) = Some s \<and> latest_snapshot st' (src_id s) = Some schema \<and>
       mapping_fits model schema m))"
proof -
  obtain r where r: "r \<in> set (st_mappings st)" "mp_id r = i"
    and found: "get_source_mapping i st = Inr (source_mapping_to_domain st r)"
    using assms(1) by (auto simp: validate_source_mapping_def bindE_Inr_iff get_source_mapping_def optionE_or_def
        get_source_mapping_by_id_def dest: find_row_Some split: option.splits)
  obtain model where model: "get_model (mp_model_id r) st = Inr model"
    and run: "(case get_source_by_id st (mp_source_id r) of
       None \<Rightarrow> record_verdict (source_mapping_to_domain st r) ERROR
         (Some (''Physical source '' @ quoted (mp_source_id r) @ '' was not found.'')) st
     | Some s \<Rightarrow>
         (case physical_schema_of d s st of
            Inl e \<Rightarrow> record_verdict (source_mapping_to_domain st r) ERROR
              (Some (''Physical schema discovery failed for source '' @ quoted (src_name s) @ '': '' @ error_text e)) st
          | Inr (schema, st1) \<Rightarrow>
              if sm_entities (source_mapping_to_domain st r) = []
              then record_verdict (source_mapping_to_domain st r) DRAFT (Some ''No entity mappings defined yet.'') st1
              else (case first_fault (entity_fault model s schema) (sm_entities (source_mapping_to_domain st r)) of
                      Some message \<Rightarrow> record_verdict (source_mapping_to_domain st r) ERROR (Some message) st1
                    | None \<Rightarrow> record_verdict (source_mapping_to_domain st r) VALIDATED None st1))) = Inr ((ok, msg, m), st')"
    using assms(1) unfolding validate_source_mapping_def found bindE_simps domain_simps bindE_Inr_iff by blast
  let ?m = "source_mapping_to_domain st r"
  have same: "sm_model_id m = mp_model_id r" "sm_source_id m = mp_source_id r"
    if "\<exists>q \<in> set (st_mappings st1). mp_id q = mp_id r \<and> sm_model_id m = mp_model_id q \<and> sm_source_id m = mp_source_id q"
      "st_mappings st1 = st_mappings st" for st1
    using that row_unique [OF assms(2) _ r(1)] by auto
  show ?thesis
  proof (cases "get_source_by_id st (mp_source_id r)")
    case None
    with run have v: "record_verdict ?m ERROR (Some (''Physical source '' @ quoted (mp_source_id r) @ '' was not found.'')) st
        = Inr ((ok, msg, m), st')" by simp
    note res = record_verdict_result [OF v refl refl]
    show ?thesis using res(1-5) r(2) same [OF res(8) refl] None by simp
  next
    case (Some s)
    show ?thesis
    proof (cases "physical_schema_of d s st")
      case (Inl e)
      with run Some obtain txt1 where v: "record_verdict ?m ERROR (Some txt1) st = Inr ((ok, msg, m), st')" by simp
      note res = record_verdict_result [OF v refl refl]
      show ?thesis using res(1-5,7) r(2) same [OF res(8) refl] Some physical_schema_failed [OF Inl] by simp
    next
      case (Inr y)
      obtain schema st1 where y: "y = (schema, st1)" by (cases y)
      note snap = physical_schema_snapshot [OF Inr [unfolded y]]
      have rows: "st_mappings st1 = st_mappings st" using mappings_discover(2) Inr y by blast
      obtain status msg' where v: "record_verdict ?m status msg' st1 = Inr ((ok, msg, m), st')"
        and fits: "status = VALIDATED \<longleftrightarrow> mapping_fits model schema ?m"
        using run Some Inr y mapping_fault_None [of ?m model s schema]
        by (auto simp: mapping_fits_def split: if_splits option.splits)
      note res = record_verdict_result [OF v snap(2,3)]
      have "mapping_fits model schema m \<longleftrightarrow> mapping_fits model schema ?m" by (simp add: mapping_fits_def res(6))
      then show ?thesis using res(1-5,7) r(2) same [OF res(8) rows] Some model snap(1) fits by auto
    qed
  qed
qed

lemma validate_exact_witness:
  "\<exists>m st' model schema. validate_source_mapping (db_discover sample_databases) ''a'' sample_store = Inr ((True, None, m), st') \<and>
     sm_status m = VALIDATED \<and> mapping_fits model schema m"
proof -
  have "(case validate_source_mapping (db_discover sample_databases) ''a'' sample_store of
      Inr ((ok, msg, m), st') \<Rightarrow> ok \<and> msg = None | _ \<Rightarrow> False)" by code_simp
  then obtain m st' where v: "validate_source_mapping (db_discover sample_databases) ''a'' sample_store = Inr ((True, None, m), st')"
    by (auto split: sum.splits prod.splits)
  from validate_exact [OF v sample_store_ok(1)] v show ?thesis by blast
qed

section \<open>Resolution\<close>

lemma get_model_stored:
  assumes "get_model i st = Inr m"
  shows "\<exists>r \<in> set (st_models st). m = model_to_domain st r"
  using assms
  by (auto simp: get_model_def optionE_or_def orelse_def get_model_by_id_def get_model_by_name_def list_models_def
      split: option.splits dest!: find_row_Some find_SomeD)

lemma resolve_candidate_facts:
  assumes "resolve_candidate st e (source_mapping_to_domain st r) = Some c"
  shows "cand_mapping_id c = mp_id r" "cand_mapping_status c = mp_status r" "cand_source_id c = mp_source_id r"
    "get_source_by_id st (cand_source_id c) \<noteq> None"
proof -
  have "src_id s = i" if "get_source_by_id st i = Some s" for i s
    using that by (auto simp: get_source_by_id_def dest: find_row_Some)
  then show "cand_mapping_id c = mp_id r" "cand_mapping_status c = mp_status r" "cand_source_id c = mp_source_id r"
    "get_source_by_id st (cand_source_id c) \<noteq> None"
    using assms by (auto simp: resolve_candidate_def domain_simps Let_def split: option.splits)
qed

lemma map_filter_mem: "y \<in> set (List.map_filter h xs) \<longleftrightarrow> (\<exists>x \<in> set xs. h x = Some y)"
  by (induction xs) (auto simp: List.map_filter_def)

lemma map_filter_distinct:
  assumes "distinct (map f xs)" "\<And>x y. x \<in> set xs \<Longrightarrow> h x = Some y \<Longrightarrow> g y = f x"
  shows "distinct (map g (List.map_filter h xs))"
  using assms
proof (induction xs)
  case (Cons x xs)
  have "g ` set (List.map_filter h xs) \<subseteq> f ` set xs"
    using Cons.prems(2) by (force simp: List.map_filter_def)
  moreover have "distinct (map g (List.map_filter h xs))" using Cons by simp
  ultimately show ?case
    using Cons.prems(1) Cons.prems(2) [of x] by (cases "h x") (auto simp: List.map_filter_def)
qed (simp add: List.map_filter_def)

lemma resolve_sources_once_lemma:
  assumes "resolve_logical_entity model_id n st = Inr res" "keys_ok st" "one_active st" "[] \<notin> mr_id ` set (st_models st)"
  shows "distinct (map cand_source_id (res_candidates res)) \<and>
    list_all (\<lambda>c. cand_mapping_status c = ACTIVE \<and> get_source_by_id st (cand_source_id c) \<noteq> None \<and>
      (cand_mapping_id c, res_model_id res, cand_source_id c) \<in> set (active_keys st)) (res_candidates res)"
proof -
  obtain m e where m: "get_model model_id st = Inr m" and id: "res_model_id res = lm_id m" and cands: "res_candidates res =
      List.map_filter (resolve_candidate st e) (filter (\<lambda>sm. sm_status sm = ACTIVE) (list_source_mappings st (Some (lm_id m)) None))"
    using assms(1) by (auto simp: resolve_logical_entity_def bindE_Inr_iff Let_def split: option.splits)
  obtain mr where "mr \<in> set (st_models st)" "m = model_to_domain st mr" using get_model_stored [OF m] by blast
  then have ne: "lm_id m \<noteq> []" using assms(4) by (force simp: model_to_domain_def)
  let ?rows = "filter (\<lambda>r. mp_model_id r = lm_id m \<and> mp_status r = ACTIVE) (st_mappings st)"
  have "filter (\<lambda>sm. sm_status sm = ACTIVE) (list_source_mappings st (Some (lm_id m)) None) = map (source_mapping_to_domain st) ?rows"
    using ne by (simp add: list_source_mappings_def filter_map comp_def domain_simps filter_filter conj_commute)
  then have eq: "res_candidates res = List.map_filter (resolve_candidate st e \<circ> source_mapping_to_domain st) ?rows"
    unfolding cands by (simp add: List.map_filter_def filter_map comp_def)
  have once: "r = q" if "r \<in> set ?rows" "q \<in> set ?rows" "mp_source_id r = mp_source_id q" for r q
  proof -
    have "(mp_id r, lm_id m, mp_source_id r) \<in> set (active_keys st)" "(mp_id q, lm_id m, mp_source_id r) \<in> set (active_keys st)"
      using that by (auto simp: active_keys_mem)
    then have "mp_id r = mp_id q" using assms(3) unfolding one_active_def by fastforce
    then show ?thesis using row_unique [OF assms(2)] that by simp
  qed
  have "distinct (st_mappings st)" using assms(2) by (auto simp: keys_ok_def distinct_map)
  then have "distinct (map mp_source_id ?rows)" using once by (simp add: distinct_map inj_on_def)
  then have "distinct (map cand_source_id (res_candidates res))"
    unfolding eq by (rule map_filter_distinct) (auto dest: resolve_candidate_facts)
  moreover have "cand_mapping_status c = ACTIVE \<and> get_source_by_id st (cand_source_id c) \<noteq> None \<and>
      (cand_mapping_id c, lm_id m, cand_source_id c) \<in> set (active_keys st)" if c: "c \<in> set (res_candidates res)" for c
  proof -
    obtain r where "r \<in> set ?rows" "resolve_candidate st e (source_mapping_to_domain st r) = Some c"
      using c unfolding eq map_filter_mem comp_def by blast
    then show ?thesis using resolve_candidate_facts [of st e r c] by (auto simp: active_keys_mem)
  qed
  ultimately show ?thesis by (simp add: list_all_iff id)
qed

text \<open>
  The stores that the registry reaches from an empty one, with foreign keys enforced or not, when no request sets the
  status of a mapping to ACTIVE through \<open>update_source_mapping\<close>.
\<close>

definition reached :: "registry_store \<Rightarrow> bool" where
  "reached st \<longleftrightarrow>
     (\<exists>db fk cs. history db (empty_store\<lparr>st_foreign_keys := fk\<rparr>) cs st \<and> \<not> list_ex forces_active cs)"

lemma history_active_lemma:
  "history db st cs st' \<Longrightarrow> keys_ok st \<Longrightarrow> one_active st \<Longrightarrow> \<not> list_ex forces_active cs \<Longrightarrow> one_active st'"
proof (induction rule: history.induct)
  case (succeeded st cs st1 c st2)
  then show ?case using history_keys_lemma [OF succeeded.hyps(1)] by (auto intro: run_active)
qed auto

lemma reached_ok: "reached st \<Longrightarrow> keys_ok st \<and> one_active st"
proof -
  assume "reached st"
  then obtain db fk cs where h: "history db (empty_store\<lparr>st_foreign_keys := fk\<rparr>) cs st" "\<not> list_ex forces_active cs"
    unfolding reached_def by blast
  have "keys_ok (empty_store\<lparr>st_foreign_keys := fk\<rparr>)" "one_active (empty_store\<lparr>st_foreign_keys := fk\<rparr>)"
    by (simp_all add: keys_ok_def one_active_def active_keys_def empty_store_def)
  then show ?thesis using history_keys_lemma [OF h(1)] history_active_lemma [OF h(1)] h(2) by blast
qed

lemma replay_reached: "\<not> list_ex forces_active cs \<Longrightarrow> reached (replay db cs empty_store)"
proof -
  have "empty_store\<lparr>st_foreign_keys := False\<rparr> = empty_store" by (simp add: empty_store_def)
  then show "\<not> list_ex forces_active cs \<Longrightarrow> reached (replay db cs empty_store)"
    using replay_history [of db empty_store cs] unfolding reached_def by metis
qed

lemma sample_store_reached: "reached sample_store"
proof -
  have "\<not> list_ex forces_active sample_history" by code_simp
  from replay_reached [OF this] show ?thesis unfolding sample_replay [symmetric] .
qed



section \<open>Where the promise is lost\<close>

text \<open>Setting the status through an update makes a second mapping ACTIVE beside the first.\<close>

lemma update_activates_second:
  "let update = \<lparr>mu_version = None, mu_status = Some ACTIVE, mu_provenance = None, mu_error = None, mu_entities = None\<rparr>
   in one_active sample_store \<and> \<not> one_active (replay sample_databases [UpdateMapping ''a'' update] sample_store)"
  by code_simp

text \<open>A mapping that is created as VALIDATED is activated although it does not fit: it has no entities.\<close>

lemma created_validated_activates:
  "row_view ` set (st_mappings (replay sample_databases
       [CreateMapping ''c'' ''m1'' ''s1'' ''3.0.0'' VALIDATED USER [], ActivateMapping ''c''] sample_store)) =
     {(''a'', ''m1'', ''s1'', VALIDATED), (''b'', ''m1'', ''s1'', VALIDATED), (''c'', ''m1'', ''s1'', ACTIVE)}"
  by code_simp

text \<open>
  A field mapping to a column that does not exist is added to an ACTIVE mapping. The mapping stays ACTIVE,
  and a validation would refuse it.
\<close>

lemma added_field_stays_active:
  "let st = replay sample_databases [AddFieldMapping ''f9'' ''e2'' ''lf_name'' ''no_such_column'' None] sample_store
   in (''b'', ''m1'', ''s1'', ACTIVE) \<in> row_view ` set (st_mappings st) \<and>
      (''b'', ''m1'', ''s1'', ERROR) \<in> row_view ` set (st_mappings (replay sample_databases [ValidateMapping ''b''] st))"
  by code_simp

text \<open>Without foreign keys a deleted model leaves its entities, fields and mappings behind.\<close>

lemma deleted_model_leaves_rows:
  "let st = replay sample_databases [DeleteModel ''m1''] sample_store
   in st_models st = [] \<and> length (st_mappings st) = 2 \<and> length (st_entities st) = 1 \<and> length (st_fields st) = 2"
  by code_simp

text \<open>An entity that is added to a model by the model's name is stored, but never belongs to the model.\<close>

lemma entity_by_model_name_lost:
  "let st = replay sample_databases [AddEntity ''le_orders'' ''shop'' ''orders'' None []] sample_store
   in length (st_entities st) = 2 \<and>
      (case get_model ''shop'' st of Inr m \<Rightarrow> map le_name (lm_entities m) = [''users''] | _ \<Rightarrow> False)"
  by code_simp

end
