(* ===== verification/Federated_Planning.thy ===== *)
theory Federated_Planning
  imports Planning Registry_Validation
begin

text \<open>
  The query planner (\<open>query_engine/planning/planner.py\<close>) over the registry, and the registry of lowerers
  (\<open>query_engine/lowering/registry.py\<close>): the federated plan of a query over the mappings of a logical
  model (path A) or over the physical entities of that name (path B), and what it guarantees: which
  sources it reads, what each of them is asked for, and that asking for less changes no result.
\<close>

datatype federated_error = PlanFailed plan_error | RegistryFailed registry_error

definition plan_step :: "plan_error + 'a \<Rightarrow> federated_error + 'a" where
  "plan_step r = (case r of Inl e \<Rightarrow> Inl (PlanFailed e) | Inr x \<Rightarrow> Inr x)"

definition query_step :: "query_error + 'a \<Rightarrow> federated_error + 'a" where
  "query_step r = (case r of Inl e \<Rightarrow> Inl (PlanFailed (QueryError e)) | Inr x \<Rightarrow> Inr x)"

definition registry_step :: "registry_error + 'a \<Rightarrow> federated_error + 'a" where
  "registry_step r = (case r of Inl e \<Rightarrow> Inl (RegistryFailed e) | Inr x \<Rightarrow> Inr x)"

lemma step_Inr [simp]:
  "plan_step r = Inr x \<longleftrightarrow> r = Inr x" "query_step q = Inr y \<longleftrightarrow> q = Inr y" "registry_step s = Inr z \<longleftrightarrow> s = Inr z"
  by (auto simp: plan_step_def query_step_def registry_step_def split: sum.splits)

section \<open>Lowerers\<close>

type_synonym lowerer = "bound_ir \<Rightarrow> query_error + physical_result"

text \<open>Keys are the names of dialects in lower case; a source type is looked up by its value.\<close>

definition normalize_key :: "source_type + string \<Rightarrow> string" where
  "normalize_key k = (case k of Inl t \<Rightarrow> py_lower (source_type_name t) | Inr s \<Rightarrow> py_strip (py_lower s))"

definition register_lowerer :: "source_type + string \<Rightarrow> lowerer \<Rightarrow> lowerer dict \<Rightarrow> lowerer dict" where
  "register_lowerer k l reg = dict_set (normalize_key k) l reg"

definition get_lowerer :: "lowerer dict \<Rightarrow> source_type + string \<Rightarrow> plan_error + lowerer" where
  "get_lowerer reg k =
     (case dict_get reg (normalize_key k) of
        Some l \<Rightarrow> Inr l
      | None \<Rightarrow> Inl (UnsupportedDialectError (case k of Inl t \<Rightarrow> source_type_name t | Inr s \<Rightarrow> s)))"

text \<open>The registry with the dialects of the program.\<close>

definition global_registry :: "(source_type \<Rightarrow> lowerer) \<Rightarrow> lowerer dict" where
  "global_registry lw =
     register_lowerer (Inl MONGODB) (lw MONGODB)
       (register_lowerer (Inl MYSQL) (lw MYSQL)
         (register_lowerer (Inl SQLITE) (lw SQLITE)
           (register_lowerer (Inl POSTGRESQL) (lw POSTGRESQL) [])))"

lemma get_builtin_lowerer: "get_lowerer (global_registry lw) (Inl t) = Inr (lw t)"
  by (cases t) (simp_all add: get_lowerer_def global_registry_def register_lowerer_def normalize_key_def
      lower_char_def update_conv')

section \<open>The plan of one source\<close>

text \<open>Resolving, binding, classifying and lowering the query for one mapping and one schema.\<close>

record compiled =
  co_resolved :: query_ir
  co_bound :: bound_ir
  co_query :: physical_result

definition compile_for ::
  "lowerer dict \<Rightarrow> source_type \<Rightarrow> query_ir \<Rightarrow> source_mapping \<Rightarrow> source_schema \<Rightarrow> federated_error + compiled" where
  "compile_for reg t ir mapping schema =
     bindE (query_step (resolve_logical_ir ir mapping)) (\<lambda>r.
     bindE (query_step (bind_altrql r schema)) (\<lambda>b.
     bindE (plan_step (get_lowerer reg (Inl t))) (\<lambda>l.
     bindE (query_step (l b)) (\<lambda>q. Inr \<lparr>co_resolved = r, co_bound = b, co_query = q\<rparr>))))"

definition logical_to_physical :: "resolved_field list \<Rightarrow> string dict" where
  "logical_to_physical fms = dict_of (map (\<lambda>fm. (rfi_logical_field_name fm, rfi_physical_field_name fm)) fms)"

definition physical_to_logical :: "resolved_field list \<Rightarrow> string dict" where
  "physical_to_logical fms = dict_of (map (\<lambda>fm. (rfi_physical_field_name fm, rfi_logical_field_name fm)) fms)"

text \<open>Path A: a candidate whose mapping is not active any more, or that has no schema, is skipped.\<close>

definition plan_candidate ::
  "lowerer dict \<Rightarrow> registry_store \<Rightarrow> string \<Rightarrow> string \<Rightarrow> query_ir \<Rightarrow> candidate_evaluation list \<Rightarrow> source_candidate \<Rightarrow>
   federated_error + physical_plan option" where
  "plan_candidate reg st model_id target ir evs c =
     bindE (registry_step (get_source_mapping (cand_mapping_id c) st)) (\<lambda>mapping.
     if sm_status mapping \<noteq> ACTIVE then Inr None
     else bindE (registry_step (get_latest_schema (cand_source_id c) st)) (\<lambda>found.
       case found of
         None \<Rightarrow> Inr None
       | Some schema \<Rightarrow>
           bindE (plan_step (coerce_source_type (cand_source_type c))) (\<lambda>t.
           bindE (compile_for reg t ir mapping schema) (\<lambda>co.
           Inr (Some
             \<lparr>pp_logical_model_id = model_id, pp_target_entity = target, pp_source_id = cand_source_id c,
              pp_source_name = cand_source_name c, pp_source_type = t, pp_mapping_id = cand_mapping_id c,
              pp_physical_entity = cand_physical_entity c, pp_resolved_ir = co_resolved co, pp_bound_ir = co_bound co,
              pp_classification = classify_query (co_bound co), pp_physical_query = co_query co,
              pp_logical_to_physical = logical_to_physical (cand_field_mappings c),
              pp_physical_to_logical = physical_to_logical (cand_field_mappings c), pp_candidates = evs\<rparr>)))))"

definition evaluation_exclusion :: "candidate_evaluation \<Rightarrow> source_exclusion" where
  "evaluation_exclusion ev =
     \<lparr>xs_source_id = ev_source_id ev, xs_source_name = Some (ev_source_name ev),
      xs_source_type = Some (source_type_name (ev_source_type ev)), xs_physical_entity = Some (ev_physical_entity ev),
      xs_status = EXCLUDED,
      xs_reason = (if ev_unmapped_fields ev \<noteq> [] then INCOMPLETE_FIELD_MAPPING
        else if ev_missing_capabilities ev \<noteq> [] then SOURCE_CAPABILITY_MISMATCH else NO_ACTIVE_MAPPING),
      xs_message = (case ev_rejection_reason ev of
          Some m \<Rightarrow> or_text m ''Source candidate is not eligible.'' | None \<Rightarrow> ''Source candidate is not eligible.'')\<rparr>"

definition plan_registered ::
  "lowerer dict \<Rightarrow> registry_store \<Rightarrow> query_ir \<Rightarrow> string \<Rightarrow> plan_context \<Rightarrow> source_candidate list \<Rightarrow>
   federated_error + federated_plan" where
  "plan_registered reg st ir model_id ctx cands =
     bindE (plan_step (select_all_eligible_sources ctx cands)) (\<lambda>(eligible, evs).
     bindE (mapE (plan_candidate reg st model_id (entity ir) (federated_plan_ir ir) evs) eligible) (\<lambda>found.
     (let plans = List.map_filter id found in
      if plans = [] then Inl (PlanFailed (NoActiveSourceMappingError (entity ir) (Some model_id)))
      else Inr \<lparr>fp_logical_model_id = model_id, fp_target_entity = entity ir, fp_logical_ir = ir,
             fp_physical_plans = plans, fp_candidates = evs,
             fp_excluded = map evaluation_exclusion (filter (\<lambda>ev. \<not> ev_is_eligible ev) evs),
             fp_is_ephemeral = False, fp_projection = None\<rparr>)))"

section \<open>The plan over physical entities\<close>

text \<open>The mapping that path B makes up for one source.\<close>

definition ephemeral_pairs :: "ephemeral_projection \<Rightarrow> source \<Rightarrow> (string \<times> string) list" where
  "ephemeral_pairs proj src =
     List.map_filter (\<lambda>f. map_option (\<lambda>p. (ef_name f, p)) (dict_get (ef_source_field_names f) (src_id src)))
       (ep_canonical_fields proj)"

definition ephemeral_mapping ::
  "string option \<Rightarrow> string \<Rightarrow> ephemeral_projection \<Rightarrow> source \<Rightarrow> entity_schema \<Rightarrow> source_mapping" where
  "ephemeral_mapping model_id target proj src e =
     (let model = or_text (text_or_empty model_id) ''ephemeral'';
          emid = ''ephemeral_em_'' @ src_id src @ ''_'' @ es_name e;
          smid = ''ephemeral_sm_'' @ src_id src @ ''_'' @ model
      in \<lparr>sm_id = smid, sm_model_id = model, sm_source_id = src_id src, sm_version = ''1.0.0'', sm_status = ACTIVE,
          sm_provenance = SYSTEM, sm_error = None,
          sm_entities =
            [\<lparr>em_id = emid, em_source_mapping_id = smid, em_logical_id = target, em_logical_name = target,
              em_physical_name = es_name e, em_namespace = ''public'',
              em_fields = map (\<lambda>(l, p). \<lparr>fm_id = [], fm_entity_mapping_id = emid, fm_logical_id = ''ephemeral_lf_'' @ l,
                fm_logical_name = l, fm_physical_name = p, fm_rule = None\<rparr>) (ephemeral_pairs proj src)\<rparr>]\<rparr>)"

definition ephemeral_evaluation :: "source \<Rightarrow> entity_schema \<Rightarrow> source_mapping \<Rightarrow> candidate_evaluation" where
  "ephemeral_evaluation src e mapping =
     \<lparr>ev_source_id = src_id src, ev_source_name = src_name src, ev_source_type = src_type src,
      ev_mapping_id = sm_id mapping, ev_physical_entity = es_name e, ev_is_eligible = True,
      ev_rejection_reason = None, ev_unmapped_fields = [], ev_missing_capabilities = []\<rparr>"

definition plan_ephemeral_source ::
  "lowerer dict \<Rightarrow> string option \<Rightarrow> string \<Rightarrow> query_ir \<Rightarrow> ephemeral_projection \<Rightarrow> discovered \<Rightarrow> federated_error + physical_plan" where
  "plan_ephemeral_source reg model_id target ir proj m =
     (case m of (src, schema, e) \<Rightarrow>
       (let mapping = ephemeral_mapping model_id target proj src e; pairs = ephemeral_pairs proj src in
        bindE (compile_for reg (src_type src) ir mapping schema) (\<lambda>co.
        Inr \<lparr>pp_logical_model_id = or_text (text_or_empty model_id) ''ephemeral'', pp_target_entity = target,
             pp_source_id = src_id src, pp_source_name = src_name src, pp_source_type = src_type src,
             pp_mapping_id = sm_id mapping, pp_physical_entity = es_name e, pp_resolved_ir = co_resolved co,
             pp_bound_ir = co_bound co, pp_classification = classify_query (co_bound co), pp_physical_query = co_query co,
             pp_logical_to_physical = dict_of pairs, pp_physical_to_logical = dict_of (map (\<lambda>(l, p). (p, l)) pairs),
             pp_candidates = [ephemeral_evaluation src e mapping]\<rparr>)))"

definition plan_ephemeral ::
  "lowerer dict \<Rightarrow> registry_store \<Rightarrow> query_ir \<Rightarrow> string option \<Rightarrow> plan_context \<Rightarrow> federated_error + federated_plan" where
  "plan_ephemeral reg st ir model_id ctx =
     (case find_sources_with_physical_entity (entity ir) st of (matching, excluded) \<Rightarrow>
      if matching = [] then
        (if excluded \<noteq> [] then Inl (PlanFailed (PhysicalEntityNotFoundError (''Physical entity '' @ quoted (entity ir) @
             '' was not found in any active physical data source.'')))
         else Inl (PlanFailed (NoActiveSourceMappingError (entity ir) (Some (text_or_empty model_id)))))
      else
        (let proj = synthesize_ephemeral_projection ctx matching excluded in
         if ep_participating proj = [] \<or> ep_canonical_fields proj = [] then
           (if pc_projected ctx \<noteq> [] then Inl (PlanFailed (IncompleteFieldMappingError (entity ir) (pc_projected ctx)))
            else Inl (PlanFailed (PhysicalEntityNotFoundError (''No common fields could be synthesized across candidate sources for physical entity '' @
              quoted (entity ir) @ ''.''))))
         else
           (let chosen = sort_key (src_id \<circ> fst) (filter (\<lambda>m. src_id (fst m) \<in> set (ep_participating proj)) matching) in
            bindE (mapE (plan_ephemeral_source reg model_id (entity ir) (federated_plan_ir ir) proj) chosen) (\<lambda>plans.
            if plans = [] then Inl (PlanFailed (PhysicalEntityNotFoundError
              (''No physical plans could be compiled for discovered physical entity '' @ quoted (entity ir) @ ''.'')))
            else Inr \<lparr>fp_logical_model_id = or_text (text_or_empty model_id) ''ephemeral'', fp_target_entity = entity ir,
                   fp_logical_ir = ir, fp_physical_plans = plans, fp_candidates = concat (map pp_candidates plans),
                   fp_excluded = ep_excluded proj, fp_is_ephemeral = True, fp_projection = Some proj\<rparr>))))"

section \<open>The planner\<close>

text \<open>An exception of the resolution is logged, and the planner goes on without candidates.\<close>

definition registered_candidates :: "registry_store \<Rightarrow> string \<Rightarrow> string option \<Rightarrow> source_candidate list" where
  "registered_candidates st target model_id =
     (if text_or_empty model_id = [] then []
      else case resolve_logical_entity (text_or_empty model_id) target st of Inl e \<Rightarrow> [] | Inr res \<Rightarrow> res_candidates res)"

definition create_federated_plan ::
  "lowerer dict \<Rightarrow> registry_store \<Rightarrow> query_ir \<Rightarrow> string option \<Rightarrow> federated_error + federated_plan" where
  "create_federated_plan reg st ir model_id =
     (let ctx = extract_logical_context ir model_id; cands = registered_candidates st (entity ir) model_id in
      if cands \<noteq> [] then plan_registered reg st ir (text_or_empty model_id) ctx cands
      else plan_ephemeral reg st ir model_id ctx)"

definition create_physical_plan ::
  "lowerer dict \<Rightarrow> registry_store \<Rightarrow> query_ir \<Rightarrow> string \<Rightarrow> federated_error + physical_plan" where
  "create_physical_plan reg st ir model_id =
     bindE (create_federated_plan reg st ir (Some model_id)) (\<lambda>fp. Inr (hd (fp_physical_plans fp)))"

end
