(* ===== verification/Federated_Correctness.thy ===== *)
theory Federated_Correctness
  imports Federated_Planning
begin

text \<open>
  What the planner and the merger guarantee together.
\<close>

section \<open>The sources of a plan\<close>

lemma map_filter_plans:
  assumes "list_all2 (\<lambda>c x. f c = Inr x) cs found" "\<And>c p. f c = Inr (Some p) \<Longrightarrow> g p = h c"
    and "sorted_wrt (<) (map h cs)"
  shows "sorted_wrt (<) (map g (List.map_filter id found)) \<and> g ` set (List.map_filter id found) \<subseteq> h ` set cs"
  using assms(1,3)
proof (induction rule: list_all2_induct)
  case (Cons c cs x xs)
  then have IH: "sorted_wrt (<) (map g (List.map_filter id xs))" "g ` set (List.map_filter id xs) \<subseteq> h ` set cs"
    by (simp_all add: id_def)
  show ?case
  proof (cases x)
    case None
    then show ?thesis using IH by (auto simp: map_filter_simps id_def)
  next
    case (Some p)
    then have p: "g p = h c" using assms(2) Cons.hyps(1) by simp
    have "\<forall>y \<in> h ` set cs. h c < y" using Cons.prems by auto
    then have "\<forall>y \<in> g ` set (List.map_filter id xs). h c < y" using IH(2) by blast
    then show ?thesis using IH Some p by (auto simp: map_filter_simps id_def)
  qed
qed (simp add: map_filter_simps id_def)

lemma federated_ir_shape:
  "limit (federated_plan_ir ir) = pushed_limit ir" "offset (federated_plan_ir ir) = None"
  "ranking (federated_plan_ir ir) = None" "operation (federated_plan_ir ir) = operation ir"
  "entity (federated_plan_ir ir) = entity ir" "projection (federated_plan_ir ir) = projection ir"
  by (simp_all add: federated_plan_ir_def)

definition asks_for :: "query_ir \<Rightarrow> physical_plan \<Rightarrow> bool" where
  "asks_for ir p \<longleftrightarrow>
     b_operation (pp_bound_ir p) = operation ir \<and> b_limit (pp_bound_ir p) = pushed_limit ir \<and>
     b_offset (pp_bound_ir p) = None \<and> b_ranking (pp_bound_ir p) = None \<and>
     pp_classification p = classify_query (pp_bound_ir p)"

lemma compile_for_Inr:
  assumes "compile_for reg t (federated_plan_ir ir) mapping schema = Inr co"
  shows "resolve_logical_ir (federated_plan_ir ir) mapping = Inr (co_resolved co)"
    "bind_altrql (co_resolved co) schema = Inr (co_bound co)"
    "\<exists>l. get_lowerer reg (Inl t) = Inr l \<and> l (co_bound co) = Inr (co_query co)"
    "b_operation (co_bound co) = operation ir" "b_limit (co_bound co) = pushed_limit ir"
    "b_offset (co_bound co) = None" "b_ranking (co_bound co) = None"
proof -
  show r: "resolve_logical_ir (federated_plan_ir ir) mapping = Inr (co_resolved co)"
    and b: "bind_altrql (co_resolved co) schema = Inr (co_bound co)"
    and "\<exists>l. get_lowerer reg (Inl t) = Inr l \<and> l (co_bound co) = Inr (co_query co)"
    using assms by (auto simp: compile_for_def bindE_Inr_iff)
  have shape: "operation (co_resolved co) = operation ir" "limit (co_resolved co) = pushed_limit ir"
    "offset (co_resolved co) = None" "ranking (co_resolved co) = None"
    by (rule resolve_logical_ir_cases [OF r], simp add: federated_ir_shape)+
  show "b_operation (co_bound co) = operation ir" "b_limit (co_bound co) = pushed_limit ir"
    "b_offset (co_bound co) = None" "b_ranking (co_bound co) = None"
    by (rule bind_altrql_cases [OF b], simp add: shape optionE_def)+
qed

text \<open>What a plan of path A rests on in the registry.\<close>

definition grounded :: "registry_store \<Rightarrow> physical_plan \<Rightarrow> bool" where
  "grounded st p \<longleftrightarrow>
     (\<exists>r \<in> set (st_mappings st). mp_id r = pp_mapping_id p \<and> mp_status r = ACTIVE) \<and>
     (\<exists>schema. latest_snapshot st (pp_source_id p) = Some schema \<and> bind_altrql (pp_resolved_ir p) schema = Inr (pp_bound_ir p))"

lemma plan_candidate_facts:
  assumes "plan_candidate reg st model_id target (federated_plan_ir ir) evs c = Inr (Some p)"
  shows "pp_source_id p = cand_source_id c" "pp_mapping_id p = cand_mapping_id c" "grounded st p" "asks_for ir p"
proof -
  obtain mapping schema t co where m: "get_source_mapping (cand_mapping_id c) st = Inr mapping" "sm_status mapping = ACTIVE"
    and s: "get_latest_schema (cand_source_id c) st = Inr (Some schema)"
    and co: "compile_for reg t (federated_plan_ir ir) mapping schema = Inr co"
    and p: "p = \<lparr>pp_logical_model_id = model_id, pp_target_entity = target, pp_source_id = cand_source_id c,
              pp_source_name = cand_source_name c, pp_source_type = t, pp_mapping_id = cand_mapping_id c,
              pp_physical_entity = cand_physical_entity c, pp_resolved_ir = co_resolved co, pp_bound_ir = co_bound co,
              pp_classification = classify_query (co_bound co), pp_physical_query = co_query co,
              pp_logical_to_physical = logical_to_physical (cand_field_mappings c),
              pp_physical_to_logical = physical_to_logical (cand_field_mappings c), pp_candidates = evs\<rparr>"
    using assms by (auto simp: plan_candidate_def bindE_Inr_iff split: if_splits option.splits)
  have "\<exists>r \<in> set (st_mappings st). mp_id r = cand_mapping_id c \<and> mp_status r = ACTIVE"
    using m by (auto simp: get_source_mapping_def optionE_or_def get_source_mapping_by_id_def domain_simps
        split: option.splits dest: find_row_Some)
  moreover have "latest_snapshot st (cand_source_id c) = Some schema" using s by (auto simp: get_latest_schema_def bindE_Inr_iff)
  ultimately show "pp_source_id p = cand_source_id c" "pp_mapping_id p = cand_mapping_id c" "grounded st p" "asks_for ir p"
    using compile_for_Inr [OF co] by (simp_all add: p grounded_def asks_for_def)
qed

lemma ephemeral_plan_facts:
  assumes "plan_ephemeral_source reg model_id target (federated_plan_ir ir) proj m = Inr p"
  shows "pp_source_id p = src_id (fst m)" "asks_for ir p"
  using assms compile_for_Inr
  by (auto simp: plan_ephemeral_source_def bindE_Inr_iff Let_def asks_for_def split: prod.splits)

text \<open>
  C32. Whatever path the planner takes, every source is asked for the operation of the query, without an
  offset and without a ranking, and for the pushed down number of rows: the merge alone cuts the page.
\<close>

theorem plan_asks_for:
  assumes "create_federated_plan reg st ir model_id = Inr fp"
  shows "fp_physical_plans fp \<noteq> [] \<and> list_all (asks_for ir) (fp_physical_plans fp)"
proof (cases "registered_candidates st (entity ir) model_id = []")
  case False
  then obtain eligible evs found where m: "mapE (plan_candidate reg st (text_or_empty model_id) (entity ir) (federated_plan_ir ir) evs) eligible = Inr found"
    and fp: "fp_physical_plans fp = List.map_filter id found" "List.map_filter id found \<noteq> []"
    using assms by (auto simp: create_federated_plan_def plan_registered_def bindE_Inr_iff Let_def split: if_splits)
  have "asks_for ir p" if "p \<in> set (List.map_filter id found)" for p
    using that mapE_mem [OF m] plan_candidate_facts(4) unfolding map_filter_mem id_apply by blast
  then show ?thesis using fp by (simp add: list_all_iff)
next
  case True
  then have "plan_ephemeral reg st ir model_id (extract_logical_context ir model_id) = Inr fp"
    using assms by (simp add: create_federated_plan_def)
  then obtain proj chosen where m: "mapE (plan_ephemeral_source reg model_id (entity ir) (federated_plan_ir ir) proj) chosen = Inr (fp_physical_plans fp)"
    and "fp_physical_plans fp \<noteq> []"
    by (auto simp: plan_ephemeral_def bindE_Inr_iff Let_def split: if_splits prod.splits)
  moreover have "asks_for ir p" if "p \<in> set (fp_physical_plans fp)" for p
    using that mapE_mem [OF m] ephemeral_plan_facts(2) by blast
  ultimately show ?thesis by (simp add: list_all_iff)
qed


section \<open>Pushing the limit down\<close>

lemma sort_specs_federated: "sort_specs (federated_plan_ir ir) = sort_specs ir"
  by (cases "ranking ir") (auto simp: sort_specs_def federated_plan_ir_def)

text \<open>
  What is assumed of the databases. The order \<open>le\<close> of values by which a source sorts is its own, but it agrees with
  the order of the merge on numbers, on dates and times, and on NULL, which comes first in ascending order
  (PostgreSQL by the NULLS FIRST and NULLS LAST that the lowerer writes, the others by default). Nothing is assumed of
  texts: their order depends on the collation of the source. What a source may answer when its complete result is
  \<open>full\<close>: all the rows in some order, or, when a limit was pushed down, the first rows of some arrangement of them that
  is in the order of the sort clauses.
\<close>

definition collates :: "(py_value \<Rightarrow> py_value \<Rightarrow> bool) \<Rightarrow> bool" where
  "collates le \<longleftrightarrow>
     (\<forall>k a b. k \<noteq> KText \<and> k \<noteq> KOpaque \<and> of_class k a \<and> of_class k b \<longrightarrow> le a b = value_le a b)"

definition answers :: "(py_value \<Rightarrow> py_value \<Rightarrow> bool) \<Rightarrow> query_ir \<Rightarrow> physical_plan \<Rightarrow> row list \<Rightarrow> row list \<Rightarrow> bool" where
  "answers le ir p full rows \<longleftrightarrow>
     (\<exists>table. mset table = mset full \<and>
        (case pushed_limit ir of
           None \<Rightarrow> rows = table
         | Some n \<Rightarrow>
             sorted_wrt (in_order le (alias_map ir) (sort_specs ir)) (map (format_row ir p) table) \<and>
             rows = take (nat n) table))"

text \<open>No sort column holds texts.\<close>

definition no_text_order :: "(string \<Rightarrow> value_class) \<Rightarrow> query_ir \<Rightarrow> bool" where
  "no_text_order cls ir \<longleftrightarrow> list_all (\<lambda>(n, d). cls n \<noteq> KText \<and> cls n \<noteq> KOpaque) (sort_specs ir)"

lemma in_order_collates:
  assumes "collates le" "comparable cls am specs a" "comparable cls am specs b"
    and "list_all (\<lambda>(n, d). cls n \<noteq> KText \<and> cls n \<noteq> KOpaque) specs"
  shows "in_order le am specs a b = in_order value_le am specs a b"
  using assms(2-4)
proof (induction specs)
  case (Cons spec specs)
  obtain n d where spec: "spec = (n, d)" by (cases spec)
  let ?v = "sort_value_of am n"
  have "cls n \<noteq> KText \<and> cls n \<noteq> KOpaque" "of_class (cls n) (?v a)" "of_class (cls n) (?v b)"
    using Cons.prems by (simp_all add: comparable_def spec)
  then have "le (?v a) (?v b) = value_le (?v a) (?v b)" "le (?v b) (?v a) = value_le (?v b) (?v a)"
    using assms(1) unfolding collates_def by blast+
  with Cons show ?case by (simp add: spec comparable_def Let_def)
qed simp

definition same_tables :: "(physical_plan \<times> row list) list \<Rightarrow> (physical_plan \<times> row list) list \<Rightarrow> bool" where
  "same_tables = list_all2 (\<lambda>(p, xs) (q, ys). p = q \<and> mset xs = mset ys)"

text \<open>A page is cut from the rows that were asked for.\<close>

lemma paginate_pushed:
  assumes "validate_ir ir = Inr ()" "pushed_limit ir = Some m"
  shows "sort_specs ir \<noteq> []" "paginate ir (take (nat m) rows) = paginate ir rows"
proof -
  have sound: "sound_statement (operation ir) ir" using assms(1) sound_statement_iff by blast
  have some: "(sort_clauses ir \<noteq> [] \<or> ranking ir \<noteq> None) \<and> has_limit ir"
    and m: "m = (case offset ir of Some k \<Rightarrow> if 0 < k then k else 0 | None \<Rightarrow> 0) +
      (case limit ir of Some n \<Rightarrow> n | None \<Rightarrow> (case ranking ir of Some r \<Rightarrow> rc_count r | None \<Rightarrow> 0))"
    using assms(2) unfolding pushed_limit_def by (simp_all split: if_splits)
  then show "sort_specs ir \<noteq> []" by (auto simp: sort_specs_def)
  define k where "k = (case offset ir of Some k \<Rightarrow> if 0 < k then k else 0 | None \<Rightarrow> 0)"
  define n where "n = (case limit ir of Some n \<Rightarrow> n | None \<Rightarrow> (case ranking ir of Some r \<Rightarrow> rc_count r | None \<Rightarrow> 0))"
  have pos: "\<And>l. limit ir = Some l \<Longrightarrow> 0 \<le> l" "\<And>r. ranking ir = Some r \<Longrightarrow> 0 \<le> rc_count r"
    using sound by (cases "operation ir"; force simp: no_ordering_def)+
  have n: "0 \<le> n" "0 \<le> k"
    using pos by (auto simp: n_def k_def split: option.split)
  have skip: "(case offset ir of Some j \<Rightarrow> if 0 < j then drop (nat j) xs else xs | None \<Rightarrow> xs) = drop (nat k) xs" for xs :: "row list"
    by (simp add: k_def split: option.split)
  have limited: "limit ir \<noteq> None \<or> ranking ir \<noteq> None" using some by (auto simp: has_limit_def split: option.splits)
  have page: "paginate ir xs = take (nat n) (drop (nat k) xs)" for xs
    unfolding paginate_def Let_def skip
    using limited pos by (cases "limit ir"; cases "ranking ir") (simp_all add: n_def)
  have "nat m = nat k + nat n" using n m by (simp add: k_def n_def nat_add_distrib)
  then show "paginate ir (take (nat m) rows) = paginate ir rows"
    by (simp add: page drop_take)
qed

lemma merged_rows_concat: "merged_rows ir results = concat (map (\<lambda>(p, rs). map (format_row ir p) rs) results)"
  by (simp add: merged_rows_def)

lemma comparable_mset: "mset xs = mset ys \<Longrightarrow> rows_comparable cls ir xs \<longleftrightarrow> rows_comparable cls ir ys"
  using mset_eq_setD [of xs ys] by (simp add: list_all_iff)

text \<open>The tables behind the answers.\<close>

lemma sorted_answer:
  assumes "collates le" "no_text_order cls ir" "rows_comparable cls ir xs"
    and "sorted_wrt (in_order le (alias_map ir) (sort_specs ir)) xs"
  shows "sort_rows ir xs = xs"
proof -
  have ok: "\<forall>r \<in> set xs. comparable cls (alias_map ir) (sort_specs ir) r" using assms(3) by (simp add: list_all_iff)
  have "row_compare (alias_map ir) (sort_specs ir) a b \<le> 0"
    if "a \<in> set xs" "b \<in> set xs" "in_order le (alias_map ir) (sort_specs ir) a b" for a b
    using that ok row_compare_in_order(1) [of cls] in_order_collates [OF assms(1), of cls]
      assms(2) [unfolded no_text_order_def] by blast
  then have "sorted_wrt (\<lambda>a b. row_compare (alias_map ir) (sort_specs ir) a b \<le> 0) xs"
    by (rule sorted_wrt_mono_rel [OF _ assms(4)])
  then show ?thesis using merged.sort_by_sorted [OF _ ok] by (simp add: sort_rows_def)
qed

lemma answers_tables:
  assumes "list_all2 (\<lambda>(p, rows) (q, full). p = q \<and> answers (le p) ir p full rows) results fulls"
    and "\<And>p. collates (le p)" "no_text_order cls ir" "rows_comparable cls ir (merged_rows ir fulls)"
  obtains tables where "same_tables tables fulls"
    "list_all2 (\<lambda>(p, rows) (q, table). p = q \<and> map (format_row ir p) rows =
       (case pushed_limit ir of None \<Rightarrow> map (format_row ir p) table
        | Some n \<Rightarrow> take (nat n) (sort_rows ir (map (format_row ir p) table)))) results tables"
  using assms(1,4)
proof (induction results fulls arbitrary: thesis rule: list_all2_induct)
  case Nil
  then show ?case by (auto simp: same_tables_def)
next
  case (Cons x xs y ys)
  obtain p rows full where xy: "x = (p, rows)" "y = (p, full)" "answers (le p) ir p full rows"
    using Cons.hyps(1) by (cases x; cases y) auto
  have ok: "rows_comparable cls ir (map (format_row ir p) full)" "rows_comparable cls ir (merged_rows ir ys)"
    using Cons.prems(2) xy(2) by (simp_all add: merged_rows_def)
  obtain table where t: "mset table = mset full"
    "case pushed_limit ir of None \<Rightarrow> rows = table
     | Some n \<Rightarrow> sorted_wrt (in_order (le p) (alias_map ir) (sort_specs ir)) (map (format_row ir p) table) \<and> rows = take (nat n) table"
    using xy(3) unfolding answers_def by blast
  have "rows_comparable cls ir (map (format_row ir p) table)"
    using ok(1) mset_eq_setD [OF t(1)] by (auto simp: list_all_iff)
  then have "sorted_wrt (in_order (le p) (alias_map ir) (sort_specs ir)) (map (format_row ir p) table) \<Longrightarrow>
      sort_rows ir (map (format_row ir p) table) = map (format_row ir p) table"
    by (rule sorted_answer [OF assms(2,3)])
  then have here: "map (format_row ir p) rows =
       (case pushed_limit ir of None \<Rightarrow> map (format_row ir p) table
        | Some n \<Rightarrow> take (nat n) (sort_rows ir (map (format_row ir p) table)))"
    using t(2) by (auto simp: take_map split: option.splits)
  obtain tables where "same_tables tables ys" "list_all2 (\<lambda>(p, rows) (q, table). p = q \<and> map (format_row ir p) rows =
       (case pushed_limit ir of None \<Rightarrow> map (format_row ir p) table
        | Some n \<Rightarrow> take (nat n) (sort_rows ir (map (format_row ir p) table)))) xs tables"
    using Cons.IH ok(2) by blast
  then show ?case
    using Cons.prems(1) [of "(p, table) # tables"] t(1) here xy by (simp add: same_tables_def)
qed

lemma same_tables_mset:
  "same_tables tables fulls \<Longrightarrow> mset (merged_rows ir tables) = mset (merged_rows ir fulls)"
  unfolding same_tables_def
proof (induction rule: list_all2_induct)
  case (Cons x xs y ys)
  then show ?case by (auto simp: merged_rows_def split: prod.splits)
qed (simp add: merged_rows_def)

lemma pushed_rows:
  assumes "list_all2 (\<lambda>(p, rows) (q, table). p = q \<and> map (format_row ir p) rows = take n (sort_rows ir (map (format_row ir p) table)))
    results tables"
  shows "merged_rows ir results = concat (map (\<lambda>xs. take n (sort_rows ir xs)) (map (\<lambda>(p, rs). map (format_row ir p) rs) tables))"
  using assms by (induction rule: list_all2_induct) (auto simp: merged_rows_def)

lemma unpushed_rows:
  assumes "list_all2 (\<lambda>(p, rows) (q, table). p = q \<and> map (format_row ir p) rows = map (format_row ir p) table) results tables"
  shows "merged_rows ir results = merged_rows ir tables"
  using assms by (induction rule: list_all2_induct) (auto simp: merged_rows_def)


section \<open>Ephemeral fields\<close>

lemma field_names_in_get:
  "dict_get (field_names_in ms sids n) sid = (if sid \<in> set sids then map_option fs_name (field_in ms sid n) else None)"
proof (induction sids rule: rev_induct)
  case (snoc s sids)
  have "field_names_in ms (sids @ [s]) n =
      (case field_in ms s n of Some f \<Rightarrow> dict_set s (fs_name f) (field_names_in ms sids n) | None \<Rightarrow> field_names_in ms sids n)"
    by (simp add: field_names_in_def dict_of_snoc split: option.split)
  then show ?case using snoc by (auto simp: update_conv' split: option.split)
qed (simp add: field_names_in_def dict_of_def)

text \<open>A field of an ephemeral projection, seen from one source.\<close>

definition found_in :: "discovered list \<Rightarrow> ephemeral_field \<Rightarrow> string \<Rightarrow> bool" where
  "found_in ms f sid \<longleftrightarrow>
     (case field_in ms sid (py_lower (ef_name f)) of
        None \<Rightarrow> False | Some g \<Rightarrow> dict_get (ef_source_field_names f) sid = Some (fs_name g))"

lemma common_field_found:
  assumes "common_field ms f = Some c" "sid \<in> set (source_ids ms)"
  shows "found_in ms c sid \<and>
    (\<exists>g. field_in ms sid (py_lower (ef_name c)) = Some g \<and> types_compatible (fs_data_type f) (fs_data_type g) \<and>
       ef_data_type c = type_name (fs_data_type f))"
proof -
  have c: "c = \<lparr>ef_name = fs_name f, ef_data_type = type_name (fs_data_type f), ef_is_primary_key = fs_primary_key f,
      ef_source_field_names = field_names_in ms (source_ids ms) (py_lower (fs_name f))\<rparr>"
    and all: "list_all (\<lambda>sid. case field_in ms sid (py_lower (fs_name f)) of Some g \<Rightarrow> types_compatible (fs_data_type f) (fs_data_type g)
       | None \<Rightarrow> False) (source_ids ms)"
    using assms(1) by (auto simp: common_field_def Let_def split: if_splits)
  obtain g where g: "field_in ms sid (py_lower (fs_name f)) = Some g" "types_compatible (fs_data_type f) (fs_data_type g)"
    using all assms(2) by (fastforce simp: list_all_iff split: option.splits)
  then show ?thesis using assms(2) by (simp add: c found_in_def field_names_in_get)
qed

lemma requested_field_found:
  assumes "missing_fields ms referenced src = []" "src_id src \<in> set participating" "r \<in> set referenced"
  shows "found_in ms (requested_field ms participating r) (src_id src)"
proof -
  obtain g where "field_in ms (src_id src) (py_lower r) = Some g"
    using assms(1,3) by (fastforce simp: missing_fields_def filter_empty_conv)
  then show ?thesis using assms(2) by (simp add: found_in_def requested_field_def field_names_in_get Let_def)
qed

text \<open>
  C35. An ephemeral projection promises no field that a source lacks. Every canonical field is a field of
  every participating source, up to case, under the physical name that the projection records for that
  source; and no matching source is lost: it participates, or it is among the excluded ones.
\<close>

theorem ephemeral_fields_everywhere:
  "(let proj = synthesize_ephemeral_projection ctx ms excluded in
    list_all (\<lambda>f. list_all (found_in ms f) (ep_participating proj)) (ep_canonical_fields proj) \<and>
    set (source_ids ms) \<subseteq> set (ep_participating proj) \<union> xs_source_id ` set (ep_excluded proj))"
proof (cases ms)
  case Nil
  then show ?thesis by (simp add: synthesize_ephemeral_projection_def source_ids_def)
next
  case (Cons m rest)
  obtain src schema e where m: "m = (src, schema, e)" by (cases m)
  let ?proj = "synthesize_ephemeral_projection ctx ms excluded"
  show ?thesis
  proof (cases "pc_is_wildcard ctx")
    case True
    have "?proj = \<lparr>ep_entity_name = pc_target_entity ctx,
        ep_canonical_fields = List.map_filter (common_field ms) (discovered_fields src e),
        ep_participating = source_ids ms, ep_excluded = excluded\<rparr>"
      using True by (simp add: synthesize_ephemeral_projection_def Cons m Let_def)
    then show ?thesis using common_field_found by (auto simp: list_all_iff map_filter_mem)
  next
    case False
    let ?ref = "referenced_by ctx"
    let ?has = "\<lambda>(src, schema, e). missing_fields ms ?ref src = []"
    let ?part = "source_ids (filter ?has ms)"
    have proj: "?proj = \<lparr>ep_entity_name = pc_target_entity ctx,
        ep_canonical_fields = (if ?part = [] then [] else map (requested_field ms ?part) ?ref), ep_participating = ?part,
        ep_excluded = excluded @ map (\<lambda>(src, schema, e). missing_exclusion src e (missing_fields ms ?ref src))
          (filter (\<lambda>(src, schema, e). missing_fields ms ?ref src \<noteq> []) ms)\<rparr>"
      using False by (simp add: synthesize_ephemeral_projection_def Cons m Let_def)
    have "found_in ms (requested_field ms ?part r) sid" if in_ref: "r \<in> set ?ref" and part: "sid \<in> set ?part" for r sid
    proof -
      obtain s where "sid = src_id s" "missing_fields ms ?ref s = []"
        using part by (auto simp: source_ids_def)
      then show ?thesis using requested_field_found in_ref part by blast
    qed
    then have "list_all (\<lambda>f. list_all (found_in ms f) (ep_participating ?proj)) (ep_canonical_fields ?proj)"
      by (auto simp: proj list_all_iff)
    moreover have "sid \<in> set ?part \<or> sid \<in> xs_source_id ` set (ep_excluded ?proj)" if matching: "sid \<in> set (source_ids ms)" for sid
    proof -
      obtain s sc en where s: "(s, sc, en) \<in> set ms" "sid = src_id s" using matching by (auto simp: source_ids_def)
      show ?thesis
      proof (cases "missing_fields ms ?ref s = []")
        case True
        then have "(s, sc, en) \<in> set (filter ?has ms)" using s by simp
        then show ?thesis using s(2) by (force simp: source_ids_def)
      next
        case False
        then have "(s, sc, en) \<in> set (filter (\<lambda>(src, schema, e). missing_fields ms ?ref src \<noteq> []) ms)" using s by simp
        then have "missing_exclusion s en (missing_fields ms ?ref s) \<in> set (ep_excluded ?proj)"
          unfolding proj by force
        then show ?thesis using s(2) by (force simp: missing_exclusion_def)
      qed
    qed
    ultimately show ?thesis by (auto simp: proj)
  qed
qed

section \<open>Samples\<close>

definition sample_lowerers :: "lowerer dict" where
  "sample_lowerers = global_registry (\<lambda>_. postgres_lower)"

text \<open>The sample store with physical names spelled as in the schema, and how it comes about.\<close>

definition exact_store :: registry_store where
  "exact_store = sample_store
     \<lparr>st_entity_mappings := map (\<lambda>r. r\<lparr>emr_physical_name := ''users''\<rparr>) (st_entity_mappings sample_store),
      st_field_mappings := map (\<lambda>f. f\<lparr>fm_physical_name := ''id''\<rparr>) (st_field_mappings sample_store)\<rparr>"

definition exact_users_mapping :: "string \<Rightarrow> entity_mapping" where
  "exact_users_mapping i = (sample_users_mapping i)
     \<lparr>em_physical_name := ''users'', em_fields := map (\<lambda>f. f\<lparr>fm_physical_name := ''id''\<rparr>) (em_fields (sample_users_mapping i))\<rparr>"

definition exact_history :: "registry_command list" where
  "exact_history =
     [CreateSource (sample_source ''s1'') True, CreateModel ''m1'' ''shop'' ''1.0.0'' None [sample_users],
      CreateMapping ''a'' ''m1'' ''s1'' ''1.0.0'' ACTIVE USER [exact_users_mapping ''e1''],
      CreateMapping ''b'' ''m1'' ''s1'' ''2.0.0'' DRAFT USER [exact_users_mapping ''e2''],
      ValidateMapping ''a'', ActivateMapping ''a'', ValidateMapping ''b'', ActivateMapping ''b'']"

lemma exact_store_reached: "reached exact_store"
proof -
  have "\<not> list_ex forces_active exact_history" by code_simp
  from replay_reached [OF this, of sample_databases] show ?thesis
    by (rule back_subst [where P = reached]) code_simp
qed

definition exact_plan :: federated_plan where
  "exact_plan = projr (create_federated_plan sample_lowerers exact_store sample_sorted (Some ''shop''))"

lemma exact_plan:
  "create_federated_plan sample_lowerers exact_store sample_sorted (Some ''shop'') = Inr exact_plan"
  "\<not> fp_is_ephemeral exact_plan"
proof -
  let ?result = "create_federated_plan sample_lowerers exact_store sample_sorted (Some ''shop'')"
  have "(case ?result of Inl e \<Rightarrow> False | Inr fp \<Rightarrow> \<not> fp_is_ephemeral fp)" by code_simp
  then show "?result = Inr exact_plan" "\<not> fp_is_ephemeral exact_plan"
    unfolding exact_plan_def by (cases ?result; simp)+
qed

lemma plan_asks_for_witness: "list_all (asks_for sample_sorted) (fp_physical_plans exact_plan)"
  using plan_asks_for [OF exact_plan(1)] by blast


text \<open>A forced second ACTIVE mapping: the plan reads the source twice.\<close>

lemma forced_mapping_read_twice:
  "(let update = \<lparr>mu_version = None, mu_status = Some ACTIVE, mu_provenance = None, mu_error = None, mu_entities = None\<rparr>;
        st = replay sample_databases [UpdateMapping ''a'' update] exact_store
    in map_sum (\<lambda>e. ()) accepted_sources (create_federated_plan sample_lowerers st sample_sorted (Some ''shop'')) =
       Inr [''s1'', ''s1''])"
  by code_simp

text \<open>Two sources with complete results of three rows in all, of which one row each is asked for.\<close>

definition sample_top :: query_ir where
  "sample_top = (bare_ir READ ''users'') \<lparr>sort_clauses := [SortClause (FieldPath ''id'' []) DESC], limit := Some 1\<rparr>"

definition sample_complete :: "(physical_plan \<times> row list) list" where
  "sample_complete =
     [(sample_plan ''a'', [[(''uid'', VNone)], [(''uid'', VNum 2 ''2'')]]), (sample_plan ''b'', [[(''uid'', VNum 7 ''7'')]])]"

definition sample_answers :: "(physical_plan \<times> row list) list" where
  "sample_answers =
     [(sample_plan ''a'', [[(''uid'', VNum 2 ''2'')]]), (sample_plan ''b'', [[(''uid'', VNum 7 ''7'')]])]"


text \<open>
  Texts are sorted by their collation in the database and by their code points in the merge. A source that does not
  distinguish cases answers apple when it is asked for the first name, while of its complete result the merge would
  take Banana.
\<close>

lemma collation_changes_page:
  "(let ir = (bare_ir READ ''users'') \<lparr>sort_clauses := [SortClause (FieldPath ''name'' []) ASC], limit := Some 1\<rparr>;
        full = [[(''name'', VStr ''apple'')], [(''name'', VStr ''Banana'')]]
    in pushed_limit ir = Some 1 \<and> paginate ir (sort_rows ir (take 1 full)) = [[(''name'', VStr ''apple'')]] \<and>
       paginate ir (sort_rows ir full) = [[(''name'', VStr ''Banana'')]])"
  by code_simp

text \<open>
  Validation finds physical names up to case, the binder only as they are spelled: the sample mapping is
  valid and ACTIVE, and every query through it fails.
\<close>

lemma validated_mapping_does_not_bind:
  "(case validate_source_mapping (db_discover sample_databases) ''b'' sample_store of
      Inr ((ok, msg, m), st) \<Rightarrow> ok | Inl e \<Rightarrow> False) \<and>
   create_federated_plan sample_lowerers sample_store sample_sorted (Some ''shop'') =
     Inl (PlanFailed (QueryError (UnknownEntityError ''Users'' ''db'')))"
proof
  show "case validate_source_mapping (db_discover sample_databases) ''b'' sample_store of
      Inr ((ok, msg, m), st) \<Rightarrow> ok | Inl e \<Rightarrow> False" by code_simp
  have "isl (create_federated_plan sample_lowerers sample_store sample_sorted (Some ''shop'')) \<and>
      projl (create_federated_plan sample_lowerers sample_store sample_sorted (Some ''shop'')) =
        PlanFailed (QueryError (UnknownEntityError ''Users'' ''db''))" by code_simp
  then show "create_federated_plan sample_lowerers sample_store sample_sorted (Some ''shop'') =
     Inl (PlanFailed (QueryError (UnknownEntityError ''Users'' ''db'')))"
    by (metis sum.collapse(1))
qed

end
