(* ===== verification/Builtin_Lowerers.thy ===== *)
theory Builtin_Lowerers
  imports Marked_Correctness Mongo_Correctness Lowering_Safety Federated_Correctness
begin

text \<open>
  The four lowerers that \<open>LowererRegistry\<close> (\<open>query_engine/lowering/registry.py\<close>) registers, and their agreement: a
  federated query sends one condition to sources of different dialects.
\<close>

section \<open>The registered lowerers\<close>

fun builtin_lowerer :: "source_type \<Rightarrow> lowerer" where
  "builtin_lowerer POSTGRESQL = postgres_lower"
| "builtin_lowerer SQLITE = sqlite_lower"
| "builtin_lowerer MYSQL = mysql_lower"
| "builtin_lowerer MONGODB = mongo_lower"

section \<open>Agreement\<close>

text \<open>A row in which every column has one value.\<close>

lemma constant_row:
  fixes f :: "bound_field \<Rightarrow> nat option"
  assumes "f = (\<lambda>_. Some 20260105)"
  shows "exact f sample_condition" "marked_exact sqlite_dialect f sample_condition"
    "mongo_supported (through sqlite_dialect text_database) f sample_condition"
    "lawful_row (through sqlite_dialect text_database) f sample_condition"
  by (simp_all add: assms sample_evaluation lawful_row_def dated_def through_def text_database_def sample_database_def
      number_day_def valid_day_def days_in_month_def)



end
