(* ===== verification/Versions.thy ===== *)
theory Versions
  imports Numbers Row_Order "HOL-Library.Sublist" "HOL-Library.Product_Lexorder"
begin

text \<open>
  Semantic versions and the direct upgrade resolver (\<open>domain/semver.py\<close>): the reader of version texts,
  the precedence of versions, release channels, and the choice of the release to upgrade to.

  The comparison of versions is shown to be the lexicographic order of a key, so that the laws of an order
  come from the library, and the releases are sorted by the stable sort of \<open>Row_Order\<close>. CPython reads no
  numeral of more than 4300 digits: the reader rejects such a version, as the code does; the comparison of
  pre-release identifiers, where such a numeral would raise, reads numerals of any length.
\<close>

section \<open>Texts\<close>

text \<open>\<open>s.split(c)\<close> for a separator of one character, and a cut at its first occurrence.\<close>

fun split_on :: "char \<Rightarrow> string \<Rightarrow> string list" where
  "split_on c [] = [[]]"
| "split_on c (x # s) =
     (if x = c then [] # split_on c s
      else (case split_on c s of [] \<Rightarrow> [[x]] | p # ps \<Rightarrow> (x # p) # ps))"

fun cut_at :: "char \<Rightarrow> string \<Rightarrow> string \<times> string option" where
  "cut_at c [] = ([], None)"
| "cut_at c (x # s) = (if x = c then ([], Some s) else (case cut_at c s of (a, b) \<Rightarrow> (x # a, b)))"

lemma split_on_not_Nil [simp]: "split_on c s \<noteq> []"
  by (cases s) (auto split: list.splits)

lemma join_split_on: "join [c] (split_on c s) = s"
proof (induction s)
  case (Cons x s)
  then show ?case by (cases "split_on c s"; cases "tl (split_on c s)") auto
qed simp

lemma split_on_single: "c \<notin> set s \<Longrightarrow> split_on c s = [s]"
  by (induction s) auto

lemma split_on_append: "c \<notin> set s \<Longrightarrow> split_on c (s @ c # t) = s # split_on c t"
  by (induction s) auto

lemma split_on_join:
  "ps \<noteq> [] \<Longrightarrow> \<forall>p \<in> set ps. c \<notin> set p \<Longrightarrow> split_on c (join [c] ps) = ps"
proof (induction ps rule: induct_list012)
  case (3 p q ps)
  then show ?case by (simp add: split_on_append)
qed (simp_all add: split_on_single)

lemma split_on_free: "p \<in> set (split_on c s) \<Longrightarrow> c \<notin> set p"
proof (induction s arbitrary: p)
  case (Cons x s)
  then show ?case by (cases "split_on c s") (auto split: if_splits)
qed simp

lemma cut_at_None: "c \<notin> set s \<Longrightarrow> cut_at c s = (s, None)"
  by (induction s) auto

lemma cut_at_Some: "c \<notin> set s \<Longrightarrow> cut_at c (s @ c # t) = (s, Some t)"
  by (induction s) auto

lemma cut_at_text: "cut_at c s = (a, b) \<Longrightarrow> s = a @ (case b of None \<Rightarrow> [] | Some t \<Rightarrow> c # t) \<and> c \<notin> set a"
  by (induction s arbitrary: a) (auto split: if_splits prod.splits)

section \<open>Release channels\<close>

datatype release_channel = ALPHA | BETA | STABLE

text \<open>\<open>ReleaseChannel.from_string\<close>; \<open>None\<close> is the \<open>ValueError\<close>.\<close>

definition channel_from_string :: "string \<Rightarrow> release_channel option" where
  "channel_from_string s =
     (let v = py_lower (py_strip s) in
      if v \<in> {''alpha'', ''a''} then Some ALPHA
      else if v \<in> {''beta'', ''b'', ''rc''} then Some BETA
      else if v \<in> {''stable'', ''release'', ''ga''} then Some STABLE
      else None)"

section \<open>Versions\<close>

record semver =
  sv_major :: nat
  sv_minor :: nat
  sv_patch :: nat
  sv_prerelease :: "string option"
  sv_build :: "string option"
  sv_raw :: string

definition format_parts :: "nat \<Rightarrow> nat \<Rightarrow> nat \<Rightarrow> string option \<Rightarrow> string option \<Rightarrow> string" where
  "format_parts a b c pre build =
     nat_digits a @ ''.'' @ nat_digits b @ ''.'' @ nat_digits c @
     (case pre of None \<Rightarrow> [] | Some p \<Rightarrow> ''-'' @ p) @ (case build of None \<Rightarrow> [] | Some m \<Rightarrow> ''+'' @ m)"

definition format_version :: "semver \<Rightarrow> string" where
  "format_version v = format_parts (sv_major v) (sv_minor v) (sv_patch v) (sv_prerelease v) (sv_build v)"

definition is_prerelease :: "semver \<Rightarrow> bool" where
  "is_prerelease v \<longleftrightarrow> sv_prerelease v \<noteq> None"

definition version_channel :: "semver \<Rightarrow> release_channel" where
  "version_channel v =
     (case sv_prerelease v of
        None \<Rightarrow> STABLE
      | Some p \<Rightarrow>
          if sublist ''alpha'' (py_lower p) then ALPHA
          else if sublist ''beta'' (py_lower p) \<or> sublist ''rc'' (py_lower p) then BETA
          else ALPHA)"

section \<open>Reading a version\<close>

text \<open>
  The regular expression, read from left to right: no \<open>+\<close> occurs before the build metadata and no \<open>-\<close>
  before the pre-release, so the text is cut at the first of each.
\<close>

definition ident_char :: "char \<Rightarrow> bool" where
  "ident_char c \<longleftrightarrow>
     is_decimal c \<or> (65 \<le> ord c \<and> ord c \<le> 90) \<or> (97 \<le> ord c \<and> ord c \<le> 122) \<or> c = CHR ''-''"

definition numeric_identifier :: "string \<Rightarrow> bool" where
  "numeric_identifier s \<longleftrightarrow> s \<noteq> [] \<and> list_all is_decimal s \<and> (hd s = CHR ''0'' \<longrightarrow> s = ''0'')"

definition prerelease_identifier :: "string \<Rightarrow> bool" where
  "prerelease_identifier s \<longleftrightarrow>
     s \<noteq> [] \<and> list_all ident_char s \<and> (list_all is_decimal s \<longrightarrow> numeric_identifier s)"

definition build_identifier :: "string \<Rightarrow> bool" where
  "build_identifier s \<longleftrightarrow> s \<noteq> [] \<and> list_all ident_char s"

definition dotted :: "(string \<Rightarrow> bool) \<Rightarrow> string option \<Rightarrow> bool" where
  "dotted P s \<longleftrightarrow> (case s of None \<Rightarrow> True | Some t \<Rightarrow> list_all P (split_on CHR ''.'' t))"

definition drop_v :: "string \<Rightarrow> string" where
  "drop_v s = (case s of [] \<Rightarrow> [] | c # r \<Rightarrow> if c = CHR ''v'' then r else s)"

text \<open>\<open>SemVer.parse\<close> and \<open>SemVer.try_parse\<close>; \<open>None\<close> is the \<open>ValueError\<close>.\<close>

definition parse_version :: "string \<Rightarrow> semver option" where
  "parse_version s =
     (let clean = py_strip s; (main, build) = cut_at CHR ''+'' (drop_v clean); (core, pre) = cut_at CHR ''-'' main;
          nums = split_on CHR ''.'' core
      in if length nums = 3 \<and> list_all numeric_identifier nums \<and> dotted prerelease_identifier pre \<and>
            dotted build_identifier build
         then (case map py_int nums of
                 [Some a, Some b, Some c] \<Rightarrow>
                   Some \<lparr>sv_major = nat a, sv_minor = nat b, sv_patch = nat c, sv_prerelease = pre,
                     sv_build = build, sv_raw = clean\<rparr>
               | _ \<Rightarrow> None)
         else None)"

section \<open>Precedence\<close>

definition str_isdigit :: "string \<Rightarrow> bool" where
  "str_isdigit s \<longleftrightarrow> s \<noteq> [] \<and> list_all py_isdigit s"

text \<open>The comparison of two different identifiers, and of two lists of them.\<close>

definition identifier_less :: "string \<Rightarrow> string \<Rightarrow> bool" where
  "identifier_less s t \<longleftrightarrow>
     (if str_isdigit s \<and> str_isdigit t then decimal_val s < decimal_val t
      else if str_isdigit s then True
      else if str_isdigit t then False
      else s < t)"

fun identifiers_less :: "string list \<Rightarrow> string list \<Rightarrow> bool" where
  "identifiers_less (s # ss) (t # ts) = (if s = t then identifiers_less ss ts else identifier_less s t)"
| "identifiers_less ss ts = (length ss < length ts)"

definition core :: "semver \<Rightarrow> nat \<times> nat \<times> nat" where
  "core v = (sv_major v, sv_minor v, sv_patch v)"

definition version_eq :: "semver \<Rightarrow> semver \<Rightarrow> bool" where
  "version_eq v w \<longleftrightarrow> core v = core w \<and> sv_prerelease v = sv_prerelease w"

definition version_less :: "semver \<Rightarrow> semver \<Rightarrow> bool" where
  "version_less v w \<longleftrightarrow>
     (if core v \<noteq> core w then core v < core w
      else case (sv_prerelease v, sv_prerelease w) of
        (None, _) \<Rightarrow> False
      | (Some p, None) \<Rightarrow> True
      | (Some p, Some q) \<Rightarrow> identifiers_less (split_on CHR ''.'' p) (split_on CHR ''.'' q))"

text \<open>\<open>total_ordering\<close> derives \<open>>\<close> and \<open>>=\<close> from these two.\<close>

definition version_greater :: "semver \<Rightarrow> semver \<Rightarrow> bool" where
  "version_greater v w \<longleftrightarrow> \<not> version_less v w \<and> \<not> version_eq v w"

definition version_ge :: "semver \<Rightarrow> semver \<Rightarrow> bool" where
  "version_ge v w \<longleftrightarrow> \<not> version_less v w"

subsection \<open>The precedence is an order\<close>

text \<open>The versions that the reader accepts.\<close>

definition valid_version :: "semver \<Rightarrow> bool" where
  "valid_version v \<longleftrightarrow> dotted prerelease_identifier (sv_prerelease v)"

definition identifier_key :: "string \<Rightarrow> bool \<times> nat \<times> string" where
  "identifier_key s = (if str_isdigit s then (False, decimal_val s, []) else (True, 0, s))"

definition version_key :: "semver \<Rightarrow> (nat \<times> nat \<times> nat) \<times> bool \<times> (bool \<times> nat \<times> string) list" where
  "version_key v =
     (core v, (case sv_prerelease v of
        None \<Rightarrow> (True, []) | Some p \<Rightarrow> (False, map identifier_key (split_on CHR ''.'' p))))"

lemma ident_char_digit: "ident_char c \<Longrightarrow> py_isdigit c \<longleftrightarrow> is_decimal c"
  by (auto simp: ident_char_def py_isdigit_def)

lemma identifier_isdigit: "prerelease_identifier s \<Longrightarrow> str_isdigit s \<longleftrightarrow> numeric_identifier s"
  by (auto simp: prerelease_identifier_def str_isdigit_def numeric_identifier_def ident_char_digit list_all_iff)

lemma decimal_val_snoc: "decimal_val (s @ [c]) = 10 * decimal_val s + digit_val c"
  by (simp add: decimal_val_def)

lemma decimal_digit: "is_decimal c \<Longrightarrow> digit_val c < 10 \<and> char_of (48 + digit_val c) = c"
  by (auto simp: is_decimal_def digit_val_def)

lemma numeric_pos: "list_all is_decimal s \<Longrightarrow> s \<noteq> [] \<Longrightarrow> hd s \<noteq> CHR ''0'' \<Longrightarrow> 0 < decimal_val s"
proof (induction s rule: rev_induct)
  case (snoc c s)
  show ?case
  proof (cases "s = []")
    case True
    with snoc.prems have "ord c \<noteq> ord (CHR ''0'')" by (simp only: of_char_eq_iff) simp
    with True snoc.prems have "digit_val c \<noteq> 0" by (auto simp: digit_val_def is_decimal_def)
    with True show ?thesis by (simp add: decimal_val_def)
  next
    case False
    with snoc show ?thesis by (simp add: decimal_val_snoc)
  qed
qed simp

lemma numeric_digits: "numeric_identifier s \<Longrightarrow> nat_digits (decimal_val s) = s"
proof (induction s rule: rev_induct)
  case (snoc c s)
  then have c: "digit_val c < 10" "char_of (48 + digit_val c) = c"
    using decimal_digit [of c] by (auto simp: numeric_identifier_def)
  show ?case
  proof (cases "s = []")
    case True
    with c show ?thesis by (subst nat_digits.simps) (simp add: decimal_val_def)
  next
    case False
    with snoc.prems have s: "numeric_identifier s" "hd s \<noteq> CHR ''0''"
      by (auto simp: numeric_identifier_def)
    then have "0 < decimal_val s" by (intro numeric_pos) (auto simp: numeric_identifier_def)
    with c s snoc.IH show ?thesis by (subst nat_digits.simps) (simp add: decimal_val_snoc)
  qed
qed (simp add: numeric_identifier_def)

lemma identifier_key_inj:
  "prerelease_identifier s \<Longrightarrow> prerelease_identifier t \<Longrightarrow> identifier_key s = identifier_key t \<longleftrightarrow> s = t"
  unfolding identifier_key_def by (simp add: identifier_isdigit) (metis numeric_digits)

lemma identifier_less_key:
  "prerelease_identifier s \<Longrightarrow> prerelease_identifier t \<Longrightarrow> s \<noteq> t \<Longrightarrow>
   identifier_less s t \<longleftrightarrow> identifier_key s < identifier_key t"
  unfolding identifier_less_def identifier_key_def
  by (cases "str_isdigit s"; cases "str_isdigit t") (simp_all only: if_True if_False simp_thms less_prod_simp less_bool_def, auto)

lemma nil_less_iff: "([] :: 'a :: linorder list) < xs \<longleftrightarrow> 0 < length xs"
  by (cases xs) simp_all

lemma identifiers_less_key:
  "list_all prerelease_identifier ss \<Longrightarrow> list_all prerelease_identifier ts \<Longrightarrow>
   identifiers_less ss ts \<longleftrightarrow> map identifier_key ss < map identifier_key ts"
proof (induction ss ts rule: identifiers_less.induct)
  case (1 s ss t ts)
  then show ?case by (auto simp: identifier_less_key identifier_key_inj)
qed (simp_all add: nil_less_iff)

lemma version_less_key: "valid_version v \<Longrightarrow> valid_version w \<Longrightarrow> version_less v w \<longleftrightarrow> version_key v < version_key w"
  by (auto simp: version_less_def version_key_def valid_version_def dotted_def identifiers_less_key less_prod_def'
      split: option.splits)

lemma map_identifier_key_inj:
  "list_all prerelease_identifier ss \<Longrightarrow> list_all prerelease_identifier ts \<Longrightarrow>
   map identifier_key ss = map identifier_key ts \<longleftrightarrow> ss = ts"
proof (induction ss arbitrary: ts)
  case (Cons s ss)
  then show ?case by (cases ts) (auto simp: identifier_key_inj)
qed auto

lemma version_eq_key: "valid_version v \<Longrightarrow> valid_version w \<Longrightarrow> version_eq v w \<longleftrightarrow> version_key v = version_key w"
  by (auto simp: version_eq_def version_key_def valid_version_def dotted_def map_identifier_key_inj
      split: option.splits) (metis join_split_on)

text \<open>The comparison that \<open>sort\<close> makes of two keys.\<close>

definition version_cmp :: "semver \<Rightarrow> semver \<Rightarrow> int" where
  "version_cmp v w = (if version_less v w then -1 else if version_less w v then 1 else 0)"

interpretation versions: row_order version_cmp valid_version
  by unfold_locales (auto simp: version_cmp_def version_less_key split: if_splits)

subsection \<open>Reading and writing\<close>

lemma set_split_on: "set s \<subseteq> insert c (\<Union> (set ` set (split_on c s)))"
proof (induction s)
  case (Cons x s)
  then show ?case by (cases "split_on c s") auto
qed simp

lemma dotted_chars:
  assumes "dotted P (Some s)" "\<And>p. P p \<Longrightarrow> list_all ident_char p"
  shows "list_all (\<lambda>x. ident_char x \<or> x = CHR ''.'') s"
  using assms set_split_on [of s "CHR ''.''"] unfolding dotted_def list_all_iff by fastforce

lemma ident_char_not_space: "ident_char x \<or> x = CHR ''.'' \<Longrightarrow> \<not> py_isspace x"
  by (auto simp: ident_char_def is_decimal_def py_isspace_def)

lemma py_strip_id:
  assumes "list_all (\<lambda>x. \<not> py_isspace x) s"
  shows "py_strip s = s"
proof -
  have "dropWhile py_isspace t = t" if "set t = set s" for t
    using assms that by (cases t) (auto simp: list_all_iff)
  then show ?thesis by (simp add: py_strip_def py_lstrip_def)
qed

text \<open>What the reader has found when it accepts a text.\<close>

lemma parse_version_SomeE:
  assumes "parse_version s = Some v"
  obtains "drop_v (py_strip s) = format_version v" "sv_raw v = py_strip s" "valid_version v"
    "dotted build_identifier (sv_build v)"
proof -
  obtain main build core pre where cuts: "cut_at CHR ''+'' (drop_v (py_strip s)) = (main, build)" "cut_at CHR ''-'' main = (core, pre)"
    by (meson surj_pair)
  from assms cuts have ok: "length (split_on CHR ''.'' core) = 3" "list_all numeric_identifier (split_on CHR ''.'' core)"
      "dotted prerelease_identifier pre" "dotted build_identifier build"
    by (auto simp: parse_version_def Let_def split: if_splits)
  then obtain a b c where nums: "split_on CHR ''.'' core = [a, b, c]"
    by (auto simp: length_Suc_conv numeral_3_eq_3)
  with assms cuts ok have v: "v = \<lparr>sv_major = decimal_val a, sv_minor = decimal_val b, sv_patch = decimal_val c,
      sv_prerelease = pre, sv_build = build, sv_raw = py_strip s\<rparr>"
    by (auto simp: parse_version_def Let_def py_int_def split: if_splits)
  have digits: "nat_digits (decimal_val a) = a" "nat_digits (decimal_val b) = b" "nat_digits (decimal_val c) = c"
    using ok(2) nums by (auto intro: numeric_digits)
  have "drop_v (py_strip s) = core @ (case pre of None \<Rightarrow> [] | Some p \<Rightarrow> CHR ''-'' # p) @
      (case build of None \<Rightarrow> [] | Some m \<Rightarrow> CHR ''+'' # m)"
    using cut_at_text [OF cuts(1)] cut_at_text [OF cuts(2)] by simp
  moreover have "core = a @ ''.'' @ b @ ''.'' @ c"
    using join_split_on [of "CHR ''.''" core] nums by simp
  ultimately have "drop_v (py_strip s) = format_version v"
    by (simp add: v format_version_def format_parts_def digits split: option.splits)
  with that ok nums show thesis
    by (auto simp: v valid_version_def digits numeric_identifier_def)
qed

lemma format_chars:
  assumes "valid_version v" "dotted build_identifier (sv_build v)"
  shows "list_all (\<lambda>x. \<not> py_isspace x) (format_version v)"
proof -
  have "list_all (\<lambda>x. \<not> py_isspace x) (nat_digits n)" for n
    using nat_digits_spell [of n] by (auto simp: list_all_iff is_decimal_def py_isspace_def)
  moreover have "list_all (\<lambda>x. \<not> py_isspace x) p" if "dotted P (Some p)" "\<And>p. P p \<Longrightarrow> list_all ident_char p" for P p
    using dotted_chars [OF that] ident_char_not_space by (auto simp: list_all_iff)
  moreover have "\<And>p. prerelease_identifier p \<Longrightarrow> list_all ident_char p" "\<And>p. build_identifier p \<Longrightarrow> list_all ident_char p"
    by (simp_all add: prerelease_identifier_def build_identifier_def)
  ultimately show ?thesis
    using assms by (auto simp: format_version_def format_parts_def valid_version_def py_isspace_def split: option.splits)
qed

lemma drop_v_format: "drop_v (format_version v) = format_version v"
proof -
  have "nat_digits (sv_major v) \<noteq> []" "list_all is_decimal (nat_digits (sv_major v))"
    using nat_digits_spell by auto
  then show ?thesis
    by (cases "nat_digits (sv_major v)") (auto simp: format_version_def format_parts_def drop_v_def is_decimal_def)
qed

lemma parse_version_text:
  assumes "parse_version s = Some v" "drop_v (py_strip t) = drop_v (py_strip s)"
  shows "parse_version t = Some (v\<lparr>sv_raw := py_strip t\<rparr>)"
proof -
  obtain main build core pre where cuts: "cut_at CHR ''+'' (drop_v (py_strip s)) = (main, build)" "cut_at CHR ''-'' main = (core, pre)"
    by (meson surj_pair)
  with assms show ?thesis
    by (auto simp: parse_version_def Let_def split: if_splits list.splits option.splits)
qed

text \<open>
  A version is written the way it is read. The text of a version that \<open>SemVer.parse\<close> returns is the
  text that it has read, without surrounding blanks and leading \<open>v\<close>, and parsing it again gives the same
  version.
\<close>

theorem parse_version_format:
  assumes "parse_version s = Some v"
  shows "format_version v = drop_v (py_strip s) \<and>
    parse_version (format_version v) = Some (v\<lparr>sv_raw := format_version v\<rparr>)"
proof -
  from assms obtain "drop_v (py_strip s) = format_version v" "sv_raw v = py_strip s"
    and chars: "list_all (\<lambda>x. \<not> py_isspace x) (format_version v)"
    by (elim parse_version_SomeE) (auto intro: format_chars)
  moreover from this have "parse_version (format_version v) = Some (v\<lparr>sv_raw := format_version v\<rparr>)"
    using parse_version_text [OF assms, of "format_version v"] by (simp add: py_strip_id drop_v_format)
  ultimately show ?thesis by simp
qed

lemma parse_version_format_witness:
  "\<exists>v. parse_version ''v1.2.10-rc.1+x86'' = Some v \<and> format_version v = ''1.2.10-rc.1+x86'' \<and> sv_patch v = 10"
proof -
  let ?v = "\<lparr>sv_major = 1, sv_minor = 2, sv_patch = 10, sv_prerelease = Some ''rc.1'', sv_build = Some ''x86'',
      sv_raw = ''v1.2.10-rc.1+x86''\<rparr>"
  have p: "parse_version ''v1.2.10-rc.1+x86'' = Some ?v" by code_simp
  have "drop_v (py_strip ''v1.2.10-rc.1+x86'') = ''1.2.10-rc.1+x86''" by code_simp
  with parse_version_format [OF p] have "format_version ?v = ''1.2.10-rc.1+x86''" by (simp only:)
  with p show ?thesis by (intro exI [of _ ?v]) simp
qed

section \<open>Direct upgrades\<close>

record release =
  rl_version :: semver
  rl_tag_name :: string
  rl_name :: string
  rl_published_at :: "string option"
  rl_body :: "string option"
  rl_prerelease :: bool
  rl_html_url :: "string option"
  rl_tarball_url :: "string option"
  rl_channel :: "release_channel option"

text \<open>\<open>__post_init__\<close>.\<close>

definition make_release :: "release \<Rightarrow> release" where
  "make_release r =
     r\<lparr>rl_channel := (case rl_channel r of None \<Rightarrow> Some (version_channel (rl_version r)) | Some c \<Rightarrow> Some c)\<rparr>"

record upgrade_plan =
  up_current :: semver
  up_target :: "semver option"
  up_available :: bool
  up_channel :: release_channel
  up_release :: "release option"
  up_all_releases :: "release list"
  up_check_available :: bool
  up_error_code :: "string option"
  up_message :: "string option"
  up_retry_after :: "int option"
  up_latest :: "semver option"

definition is_channel_allowed :: "release_channel \<Rightarrow> release_channel \<Rightarrow> bool" where
  "is_channel_allowed release user =
     (case user of ALPHA \<Rightarrow> True | BETA \<Rightarrow> release = BETA \<or> release = STABLE | STABLE \<Rightarrow> release = STABLE)"

text \<open>The loop over \<open>seen_versions\<close>, whose members are compared by \<open>__eq__\<close>.\<close>

fun unique_releases :: "semver list \<Rightarrow> release list \<Rightarrow> release list" where
  "unique_releases seen [] = []"
| "unique_releases seen (r # rs) =
     (if list_ex (version_eq (rl_version r)) seen then unique_releases seen rs
      else r # unique_releases (rl_version r # seen) rs)"

definition release_cmp :: "release \<Rightarrow> release \<Rightarrow> int" where
  "release_cmp a b = version_cmp (rl_version a) (rl_version b)"

definition resolve_direct_upgrade :: "semver \<Rightarrow> release list \<Rightarrow> release_channel option \<Rightarrow> upgrade_plan" where
  "resolve_direct_upgrade current available channel =
     (let target_channel = (case channel of None \<Rightarrow> version_channel current | Some c \<Rightarrow> c);
          compatible = filter (\<lambda>r. is_channel_allowed (version_channel (rl_version r)) target_channel) available;
          uniq = unique_releases [] (sort_by release_cmp compatible);
          newer = filter (\<lambda>r. version_greater (rl_version r) current) uniq;
          plan = \<lparr>up_current = current, up_target = None, up_available = False, up_channel = target_channel,
            up_release = None, up_all_releases = uniq, up_check_available = True, up_error_code = None,
            up_message = None, up_retry_after = None,
            up_latest = Some (if uniq = [] then current else rl_version (last uniq))\<rparr>
      in if newer = [] then plan
         else plan\<lparr>up_target := Some (rl_version (last newer)), up_available := True,
           up_release := Some (last newer), up_latest := Some (rl_version (last newer))\<rparr>)"

text \<open>A release has a version that the reader accepts.\<close>

abbreviation valid_release :: "release \<Rightarrow> bool" where
  "valid_release r \<equiv> valid_version (rl_version r)"

interpretation releases: row_order release_cmp valid_release
  by unfold_locales (auto simp: release_cmp_def intro: versions.cmp_trans dest: versions.cmp_flip)

abbreviation release_key :: "release \<Rightarrow> (nat \<times> nat \<times> nat) \<times> bool \<times> (bool \<times> nat \<times> string) list" where
  "release_key r \<equiv> version_key (rl_version r)"

lemma version_greater_key: "valid_version v \<Longrightarrow> valid_version w \<Longrightarrow> version_greater v w \<longleftrightarrow> version_key w < version_key v"
  by (auto simp: version_greater_def version_less_key version_eq_key)

lemma release_cmp_key: "valid_release a \<Longrightarrow> valid_release b \<Longrightarrow> release_cmp a b \<le> 0 \<longleftrightarrow> release_key a \<le> release_key b"
  by (auto simp: release_cmp_def version_cmp_def version_less_key)

text \<open>Eliminating duplicates in a sorted list leaves a strictly sorted list of the same versions.\<close>

lemma insert_Diff_fresh: "A = B - insert k S \<Longrightarrow> k \<notin> S \<Longrightarrow> insert k A = insert k B - S"
  by auto

lemma unique_releases_sorted:
  assumes "\<forall>r \<in> set rs. valid_release r" "list_all valid_version seen"
    and "sorted (map release_key rs)"
  shows "sorted_wrt (<) (map release_key (unique_releases seen rs)) \<and> set (unique_releases seen rs) \<subseteq> set rs \<and>
    release_key ` set (unique_releases seen rs) = release_key ` set rs - version_key ` set seen"
  using assms
proof (induction rs arbitrary: seen)
  case (Cons r rs)
  have ex: "list_ex (version_eq (rl_version r)) seen \<longleftrightarrow> release_key r \<in> version_key ` set seen"
    using Cons.prems by (auto simp: list_ex_iff list_all_iff version_eq_key)
  show ?case
  proof (cases "list_ex (version_eq (rl_version r)) seen")
    case True
    with Cons.prems Cons.IH [of seen] ex show ?thesis by (auto simp: list_all_iff)
  next
    case False
    let ?u = "unique_releases (rl_version r # seen) rs"
    from Cons.prems Cons.IH [of "rl_version r # seen"]
    have ih: "sorted_wrt (<) (map release_key ?u)" "set ?u \<subseteq> set rs"
        "release_key ` set ?u = release_key ` set rs - insert (release_key r) (version_key ` set seen)" by auto
    have "release_key r < release_key u" if "u \<in> set ?u" for u
      using that ih(2,3) Cons.prems(3) by (auto simp: order.strict_iff_order)
    then have "sorted_wrt (<) (map release_key (r # ?u))" using ih(1) by simp
    moreover have "release_key ` set (r # ?u) = release_key ` set (r # rs) - version_key ` set seen"
      using insert_Diff_fresh [OF ih(3)] ex False by (simp only: list.set image_insert simp_thms)
    moreover have "unique_releases seen (r # rs) = r # ?u" using False by simp
    moreover have "set (r # ?u) \<subseteq> set (r # rs)" using ih(2) by auto
    ultimately show ?thesis by (simp only: simp_thms)
  qed
qed simp

lemma sorted_sort_releases:
  assumes "\<forall>r \<in> set rs. valid_release r"
  shows "sorted (map release_key (sort_by release_cmp rs))"
proof -
  have "sorted_wrt (\<lambda>a b. release_key a \<le> release_key b) (sort_by release_cmp rs)"
    using releases.sorted_sort_by [OF assms] by (rule sorted_wrt_mono_rel [rotated]) (use assms release_cmp_key in auto)
  then show ?thesis by (simp add: sorted_wrt_map)
qed

lemma last_of_filter_greatest:
  assumes "sorted_wrt (<) (map f us)" "filter P us \<noteq> []" "u \<in> set us" "P u"
  shows "f u \<le> (f (last (filter P us)) :: 'k :: linorder)"
  using assms
proof (induction us)
  case (Cons v us)
  show ?case
  proof (cases "filter P us = []")
    case True
    with Cons.prems show ?thesis by (auto simp: filter_empty_conv)
  next
    case False
    then have "last (filter P us) \<in> set us" using last_in_set by fastforce
    with False Cons show ?thesis by auto
  qed
qed simp

text \<open>
  C40. An upgrade is never a downgrade and never stops halfway. Among versions that the reader accepts, the
  resolver offers a release if and only if some release that the channel allows is newer than the current
  version; the release it offers is one of them, strictly newer than the current version, and no allowed
  release is newer still. The releases of the plan are strictly ascending.
\<close>

theorem resolve_upgrade_highest:
  assumes "valid_version current" "list_all valid_release available"
  shows "(let plan = resolve_direct_upgrade current available channel;
              allowed = filter (\<lambda>r. is_channel_allowed (version_channel (rl_version r)) (up_channel plan)) available
          in up_target plan = map_option rl_version (up_release plan) \<and>
             (up_available plan \<longleftrightarrow> list_ex (\<lambda>r. version_less current (rl_version r)) allowed) \<and>
             (case up_release plan of
                None \<Rightarrow> \<not> up_available plan
              | Some t \<Rightarrow> up_available plan \<and> t \<in> set allowed \<and> version_less current (rl_version t) \<and>
                  list_all (\<lambda>r. \<not> version_less (rl_version t) (rl_version r)) allowed) \<and>
             sorted_wrt (\<lambda>a b. version_less (rl_version a) (rl_version b)) (up_all_releases plan))"
proof -
  define ch where "ch = (case channel of None \<Rightarrow> version_channel current | Some c \<Rightarrow> c)"
  define allowed where "allowed = filter (\<lambda>r. is_channel_allowed (version_channel (rl_version r)) ch) available"
  define uniq where "uniq = unique_releases [] (sort_by release_cmp allowed)"
  define newer where "newer = filter (\<lambda>r. version_greater (rl_version r) current) uniq"
  have ok: "\<forall>r \<in> set allowed. valid_release r" using assms(2) by (auto simp: allowed_def list_all_iff)
  then have uniq: "sorted_wrt (<) (map release_key uniq)" "set uniq \<subseteq> set allowed"
      "release_key ` set uniq = release_key ` set allowed"
    using unique_releases_sorted [of "sort_by release_cmp allowed" "[]"] sorted_sort_releases [OF ok]
    by (auto simp: uniq_def)
  have less: "version_less current (rl_version r) \<longleftrightarrow> version_key current < release_key r"
      "version_greater (rl_version r) current \<longleftrightarrow> version_key current < release_key r" if "r \<in> set allowed" for r
    using that ok assms(1) by (simp_all add: version_less_key version_greater_key)
  have some: "newer \<noteq> [] \<longleftrightarrow> (\<exists>r \<in> set allowed. version_less current (rl_version r))"
  proof -
    have "newer \<noteq> [] \<longleftrightarrow> (\<exists>k \<in> release_key ` set uniq. version_key current < k)"
      using uniq(2) less by (auto simp: newer_def filter_empty_conv)
    then show ?thesis using less by (simp add: uniq(3)) 
  qed
  have best: "last newer \<in> set allowed \<and> version_key current < release_key (last newer) \<and>
      (\<forall>r \<in> set allowed. release_key r \<le> release_key (last newer))" if some_newer: "newer \<noteq> []"
  proof -
    from that have l: "last newer \<in> set uniq" "version_greater (rl_version (last newer)) current"
      using last_in_set [OF that] by (auto simp: newer_def)
    have "release_key r \<le> release_key (last newer)" if r: "r \<in> set allowed" for r
    proof (cases "version_key current < release_key r")
      case True
      from r have "release_key r \<in> release_key ` set uniq" unfolding uniq(3) by (rule imageI)
      then obtain u where u: "u \<in> set uniq" "release_key u = release_key r" by (elim imageE) simp
      from uniq(2) u(1) have "u \<in> set allowed" by (rule subsetD)
      from less(2) [OF this] u(2) True have "version_greater (rl_version u) current" by simp
      with last_of_filter_greatest [OF uniq(1), of "\<lambda>r. version_greater (rl_version r) current" u] u some_newer
      show ?thesis unfolding newer_def by simp
    next
      case False
      with l uniq(2) less show ?thesis by (meson linorder_not_less order.strict_trans2 order.strict_implies_order subsetD)
    qed
    with l uniq(2) less show ?thesis by blast
  qed
  have sorted: "sorted_wrt (\<lambda>a b. version_less (rl_version a) (rl_version b)) uniq"
    using uniq(1) unfolding sorted_wrt_map
    by (rule sorted_wrt_mono_rel [rotated]) (use uniq(2) ok version_less_key in blast)
  have no_better: "list_all (\<lambda>r. \<not> version_less (rl_version (last newer)) (rl_version r)) allowed" if "newer \<noteq> []"
    using best [OF that] ok by (auto simp: list_all_iff version_less_key linorder_not_less)
  let ?plan = "resolve_direct_upgrade current available channel"
  have "up_channel ?plan = ch" and plan: "up_all_releases ?plan = uniq" "up_available ?plan \<longleftrightarrow> newer \<noteq> []"
      "up_release ?plan = (if newer = [] then None else Some (last newer))"
      "up_target ?plan = map_option rl_version (up_release ?plan)"
    by (simp_all add: resolve_direct_upgrade_def Let_def ch_def uniq_def newer_def allowed_def)
  then have allowed: "filter (\<lambda>r. is_channel_allowed (version_channel (rl_version r)) (up_channel ?plan)) available = allowed"
    by (simp add: allowed_def)
  show ?thesis
    unfolding Let_def allowed plan
    using some best no_better sorted less(1)
    by (cases "newer = []") (simp_all only: list_ex_iff option.simps if_True if_False simp_thms bex_simps)
qed

text \<open>A sample: from 1.9.0 on the beta channel the upgrade goes to the pre-release of 2.0.0.\<close>

definition sample_release :: "string \<Rightarrow> semver \<Rightarrow> release" where
  "sample_release tag v = make_release
     \<lparr>rl_version = v, rl_tag_name = tag, rl_name = tag, rl_published_at = None, rl_body = None, rl_prerelease = False,
      rl_html_url = None, rl_tarball_url = None, rl_channel = None\<rparr>"

definition sample_version :: "nat \<Rightarrow> nat \<Rightarrow> string option \<Rightarrow> semver" where
  "sample_version a b pre = \<lparr>sv_major = a, sv_minor = b, sv_patch = 0, sv_prerelease = pre, sv_build = None, sv_raw = []\<rparr>"

lemma resolve_upgrade_highest_witness:
  "let releases = [sample_release ''a'' (sample_version 2 0 (Some ''rc.2'')), sample_release ''b'' (sample_version 1 10 None),
         sample_release ''c'' (sample_version 2 0 (Some ''alpha''))];
       plan = resolve_direct_upgrade (sample_version 1 9 None) releases (Some BETA)
   in up_target plan = Some (sample_version 2 0 (Some ''rc.2'')) \<and>
      sorted_wrt (\<lambda>a b. version_less (rl_version a) (rl_version b)) (up_all_releases plan)"
proof -
  let ?rs = "[sample_release ''a'' (sample_version 2 0 (Some ''rc.2'')), sample_release ''b'' (sample_version 1 10 None),
         sample_release ''c'' (sample_version 2 0 (Some ''alpha''))]"
  have "valid_version (sample_version 1 9 None)" "list_all valid_release ?rs" by code_simp+
  from resolve_upgrade_highest [OF this, of "Some BETA"]
  have "sorted_wrt (\<lambda>a b. version_less (rl_version a) (rl_version b))
      (up_all_releases (resolve_direct_upgrade (sample_version 1 9 None) ?rs (Some BETA)))"
    by (simp only: Let_def)
  moreover have "up_target (resolve_direct_upgrade (sample_version 1 9 None) ?rs (Some BETA)) =
      Some (sample_version 2 0 (Some ''rc.2''))" by code_simp
  ultimately show ?thesis by (simp only: Let_def simp_thms)
qed

end
