(* ===== verification/Updates.thy ===== *)
theory Updates
  imports Versions
begin

text \<open>
  The data of the update system (\<open>domain/updates.py\<close>): the states of an update, the request that the
  application leaves for the supervisor, the status that the supervisor writes, and when a stored status is
  obsolete. Both are dictionaries in JSON files whose members are texts, as \<open>UpdateRequest.to_dict\<close> writes them;
  a member that is absent is \<open>None\<close>, and the time stamps are left out. Files with members that are null or no
  texts are outside the model: the supervisor keeps a null \<open>current_version\<close>, which its later steps may not accept.
\<close>

datatype update_state =
    IDLE
  | REQUESTED
  | STAGING
  | APPLYING
  | HEALTH_CHECK
  | COMPLETED
  | FAILED
  | CANCELLED
  | ROLLING_BACK
  | ROLLED_BACK

fun state_value :: "update_state \<Rightarrow> string" where
  "state_value IDLE = ''idle''"
| "state_value REQUESTED = ''requested''"
| "state_value STAGING = ''staging''"
| "state_value APPLYING = ''applying''"
| "state_value HEALTH_CHECK = ''health_check''"
| "state_value COMPLETED = ''completed''"
| "state_value FAILED = ''failed''"
| "state_value CANCELLED = ''cancelled''"
| "state_value ROLLING_BACK = ''rolling_back''"
| "state_value ROLLED_BACK = ''rolled_back''"

definition is_active :: "update_state \<Rightarrow> bool" where
  "is_active s \<longleftrightarrow> s \<in> {REQUESTED, STAGING, APPLYING, HEALTH_CHECK, ROLLING_BACK}"

definition is_cancellable :: "update_state \<Rightarrow> bool" where
  "is_cancellable s \<longleftrightarrow> s \<in> {REQUESTED, STAGING}"

definition is_critical :: "update_state \<Rightarrow> bool" where
  "is_critical s \<longleftrightarrow> s \<in> {APPLYING, HEALTH_CHECK, ROLLING_BACK}"

definition is_terminal :: "update_state \<Rightarrow> bool" where
  "is_terminal s \<longleftrightarrow> s \<in> {COMPLETED, FAILED, CANCELLED, ROLLED_BACK, IDLE}"

lemmas state_defs = is_active_def is_cancellable_def is_critical_def is_terminal_def

lemma terminal_iff_not_active: "is_terminal s \<longleftrightarrow> \<not> is_active s"
  by (cases s) (simp_all add: state_defs)

lemma active_cancellable_or_critical: "is_active s \<longleftrightarrow> is_cancellable s \<noteq> is_critical s"
  by (cases s) (simp_all add: state_defs)

record update_request =
  rq_request_id :: "string option"
  rq_current_version :: "string option"
  rq_target_version :: "string option"
  rq_target_image :: "string option"

record update_status =
  us_state :: update_state
  us_current_version :: string
  us_request_id :: "string option"
  us_target_version :: "string option"
  us_progress :: int
  us_message :: string
  us_error :: "string option"
  us_rollback_performed :: bool

text \<open>\<open>s or t\<close> for a text that may be \<open>None\<close>; the empty text is false.\<close>

definition text_or :: "string option \<Rightarrow> string \<Rightarrow> string" where
  "text_or s t = (case s of None \<Rightarrow> t | Some u \<Rightarrow> if u = [] then t else u)"

definition read_version :: "string \<Rightarrow> semver option" where
  "read_version s = (if s = [] then None else parse_version s)"

text \<open>The running version is given as a text or as a version.\<close>

definition is_stale_update_status :: "update_status \<Rightarrow> string + semver \<Rightarrow> bool" where
  "is_stale_update_status st running =
     (if us_state st = IDLE then False
      else case (case running of Inl s \<Rightarrow> parse_version s | Inr v \<Rightarrow> Some v) of
        None \<Rightarrow> False
      | Some v \<Rightarrow>
          (let target = read_version (text_or (us_target_version st) []);
               from = (if us_current_version st = ''unknown'' then None else read_version (us_current_version st))
           in (case target of None \<Rightarrow> False | Some t \<Rightarrow> version_greater v t) \<or>
              us_state st \<in> {FAILED, ROLLED_BACK, CANCELLED} \<and>
                ((case target of None \<Rightarrow> False | Some t \<Rightarrow> version_ge v t) \<or>
                 (case from of None \<Rightarrow> False | Some f \<Rightarrow> \<not> version_eq v f)) \<or>
              us_state st = COMPLETED \<and> (case target of None \<Rightarrow> False | Some t \<Rightarrow> \<not> version_eq v t)))"

end
