(* ===== verification/Supervisor.thy ===== *)
theory Supervisor
  imports Updates
begin

text \<open>
  The supervisor of updates (\<open>supervisor/supervisor.py\<close>). It acts on the world by commands (write the
  status file, remove the request, pull an image, recreate the service, persist an image) and asks the
  world questions (is the service healthy, which version runs). The commands that it has issued are its
  trace, in order, and every answer of the world may depend on the trace: an answer is a function of the
  events so far. A crash, of the machine or by an exception that the code does not catch, cuts the trace.
  What the application does to the two files, submitting and cancelling a request, is in the trace as well.

  Writing and removing the two files always succeeds here. The code ignores an error of \<open>unlink\<close> in
  \<open>_cleanup_request_file\<close>, and the failures of copying to and removing in the container: a request that cannot
  be removed is processed again at the next poll.

  \<open>host\<close> is the interface that the supervisor uses (\<open>DockerClientInterface\<close>, \<open>HealthCheckerInterface\<close>);
  \<open>docker_host\<close> implements it over the results of processes and of HTTP requests, as \<open>HostDockerClient\<close>
  and \<open>HostHealthChecker\<close> do. A member that returns \<open>string option\<close> returns the text of its exception.
\<close>

section \<open>Files and events\<close>

datatype request_file = Unreadable string | Request update_request

record disk =
  dk_request :: "request_file option"
  dk_status :: "update_status option"

datatype event =
    SyncRequest request_file "update_status option"
  | WriteStatus update_status
  | RemoveRequest
  | PullImage string
  | RecreateService string
  | PersistImage string
  | SubmitRequest request_file update_status
  | CancelRequest update_status

type_synonym trace = "event list"

text \<open>What the events leave in the updates directory.\<close>

fun apply_event :: "event \<Rightarrow> disk \<Rightarrow> disk" where
  "apply_event (SyncRequest r s) d =
     d\<lparr>dk_request := Some r, dk_status := (case s of None \<Rightarrow> dk_status d | Some st \<Rightarrow> Some st)\<rparr>"
| "apply_event (WriteStatus s) d = d\<lparr>dk_status := Some s\<rparr>"
| "apply_event RemoveRequest d = d\<lparr>dk_request := None\<rparr>"
| "apply_event (SubmitRequest r s) d = d\<lparr>dk_request := Some r, dk_status := Some s\<rparr>"
| "apply_event (CancelRequest s) d = d\<lparr>dk_request := None, dk_status := Some s\<rparr>"
| "apply_event _ d = d"

definition apply_events :: "trace \<Rightarrow> disk \<Rightarrow> disk" where
  "apply_events tr d = fold apply_event tr d"

section \<open>The host\<close>

record host =
  h_container_request :: "trace \<Rightarrow> request_file option"
  h_container_status :: "trace \<Rightarrow> update_status option"
  h_live_version :: "trace \<Rightarrow> string option"
  h_current_image :: "trace \<Rightarrow> string"
  h_pull_image :: "trace \<Rightarrow> string \<Rightarrow> string option"
  h_image_exists_locally :: "trace \<Rightarrow> string \<Rightarrow> bool"
  h_recreate_service :: "trace \<Rightarrow> string \<Rightarrow> string option"
  h_copy_to_container :: "trace \<Rightarrow> string option"
  h_wait_for_health :: "trace \<Rightarrow> string \<Rightarrow> bool"
  h_allow_local_images :: "trace \<Rightarrow> bool"

subsection \<open>Docker commands\<close>

text \<open>A process ends with a return code, its output and its error output, or is stopped by its timeout.\<close>

datatype process = Exited int string string | TimedOut

definition pull_image :: "string \<Rightarrow> nat \<Rightarrow> process \<Rightarrow> string option" where
  "pull_image img timeout p =
     (case p of
        TimedOut \<Rightarrow> Some (''docker pull timed out after '' @ nat_digits timeout @ ''s for image '' @ img)
      | Exited rc out err \<Rightarrow>
          if rc \<noteq> 0 then Some (''docker pull failed ('' @ show_int rc @ ''): '' @ py_strip err) else None)"

definition image_exists_locally :: "process \<Rightarrow> bool" where
  "image_exists_locally p = (case p of TimedOut \<Rightarrow> False | Exited rc _ _ \<Rightarrow> rc = 0)"

definition transient_error :: "string \<Rightarrow> bool" where
  "transient_error err \<longleftrightarrow>
     list_ex (\<lambda>t. sublist t (py_lower err)) [''already in progress'', ''is being removed'', ''no such container'']"

text \<open>\<open>recreate_service\<close>: \<open>runs k\<close> is the result of attempt \<open>k\<close> of \<open>docker compose up\<close>.\<close>

definition max_attempts :: nat where
  "max_attempts = 3"

function compose_up :: "nat \<Rightarrow> (nat \<Rightarrow> process) \<Rightarrow> nat \<Rightarrow> string option" where
  "compose_up timeout runs attempt =
     (case runs attempt of
        TimedOut \<Rightarrow> Some (''docker compose up timed out after '' @ nat_digits timeout @ ''s'')
      | Exited rc out err \<Rightarrow>
          if rc = 0 then None
          else if attempt < max_attempts \<and> transient_error err then compose_up timeout runs (Suc attempt)
          else Some (''docker compose up failed ('' @ show_int rc @ ''): '' @ py_strip err))"
  by pat_completeness auto
termination by (relation "measure (\<lambda>(t, r, k). max_attempts - k)") auto

declare compose_up.simps [simp del]

text \<open>The first entry of \<open>docker compose images --format json\<close>, when the output can be read.\<close>

record image_entry =
  ie_Repository :: "string option"
  ie_repository :: "string option"
  ie_Tag :: "string option"
  ie_tag :: "string option"

definition entry_image :: "image_entry option \<Rightarrow> string option" where
  "entry_image entry =
     (case entry of
        None \<Rightarrow> None
      | Some e \<Rightarrow>
          (let repo = text_or (ie_Repository e) (text_or (ie_repository e) []);
               tag = text_or (ie_Tag e) (text_or (ie_tag e) [])
           in if repo \<noteq> [] \<and> tag \<noteq> [] then Some (repo @ '':'' @ tag) else None))"

definition get_current_image :: "image_entry option \<Rightarrow> process \<Rightarrow> string" where
  "get_current_image entry inspect =
     (case entry_image entry of
        Some img \<Rightarrow> img
      | None \<Rightarrow> (case inspect of TimedOut \<Rightarrow> [] | Exited rc out err \<Rightarrow> if rc = 0 then py_strip out else []))"

subsection \<open>Health\<close>

text \<open>
  The answer of the health endpoint, when it is a JSON object with status 200. Times are in milliseconds:
  a poll takes some time, and \<open>sleep(interval_sec)\<close> follows it.
\<close>

record health =
  he_status :: "string option"
  he_version :: "string option"

definition lstrip_v :: "string \<Rightarrow> string" where
  "lstrip_v s = dropWhile (\<lambda>c. c = CHR ''v'') s"

definition get_live_version :: "health option \<Rightarrow> string option" where
  "get_live_version answer =
     (case answer of
        None \<Rightarrow> None
      | Some h \<Rightarrow> (case he_version h of None \<Rightarrow> None | Some v \<Rightarrow> if v = [] then None else Some (py_strip v)))"

definition poll_accepts :: "string \<Rightarrow> health option \<Rightarrow> bool" where
  "poll_accepts expected answer =
     (case answer of
        None \<Rightarrow> False
      | Some h \<Rightarrow> he_status h = Some ''healthy'' \<and>
          (expected = [] \<or>
           lstrip_v (case he_version h of None \<Rightarrow> ''None'' | Some v \<Rightarrow> v) = lstrip_v expected))"

definition interval_ms :: nat where
  "interval_ms = 2000"

function wait_for_health :: "(nat \<Rightarrow> nat \<times> health option) \<Rightarrow> string \<Rightarrow> nat \<Rightarrow> nat \<Rightarrow> nat \<Rightarrow> bool" where
  "wait_for_health polls expected timeout elapsed k =
     (if elapsed < timeout then
        (case polls k of (took, answer) \<Rightarrow>
           if poll_accepts expected answer then True
           else wait_for_health polls expected timeout (elapsed + took + interval_ms) (Suc k))
      else False)"
  by pat_completeness auto
termination by (relation "measure (\<lambda>(p, e, t, el, k). t - el)") (auto simp: interval_ms_def)

declare wait_for_health.simps [simp del]

text \<open>The machine below the two clients: the results of processes and requests.\<close>

record machine =
  m_container_request :: "trace \<Rightarrow> request_file option"
  m_container_status :: "trace \<Rightarrow> update_status option"
  m_images :: "trace \<Rightarrow> image_entry option"
  m_inspect :: "trace \<Rightarrow> process"
  m_image_inspect :: "trace \<Rightarrow> string \<Rightarrow> process"
  m_pull :: "trace \<Rightarrow> string \<Rightarrow> process"
  m_compose_up :: "trace \<Rightarrow> string \<Rightarrow> nat \<Rightarrow> process"
  m_copy_error :: "trace \<Rightarrow> string option"
  m_live :: "trace \<Rightarrow> health option"
  m_polls :: "trace \<Rightarrow> nat \<Rightarrow> nat \<times> health option"
  m_allow_local_file :: "trace \<Rightarrow> bool"

record settings =
  se_pull_timeout :: nat
  se_compose_timeout :: nat
  se_health_timeout :: nat
  se_allow_local_images :: bool

definition docker_host :: "settings \<Rightarrow> machine \<Rightarrow> host" where
  "docker_host se m =
     \<lparr>h_container_request = m_container_request m,
      h_container_status = m_container_status m,
      h_live_version = (\<lambda>tr. get_live_version (m_live m tr)),
      h_current_image = (\<lambda>tr. get_current_image (m_images m tr) (m_inspect m tr)),
      h_pull_image = (\<lambda>tr img. pull_image img (se_pull_timeout se) (m_pull m tr img)),
      h_image_exists_locally = (\<lambda>tr img. image_exists_locally (m_image_inspect m tr img)),
      h_recreate_service = (\<lambda>tr img. compose_up (se_compose_timeout se) (m_compose_up m tr img) 1),
      h_copy_to_container = m_copy_error m,
      h_wait_for_health = (\<lambda>tr expected. wait_for_health (m_polls m tr) expected (1000 * se_health_timeout se) 0 0),
      h_allow_local_images = (\<lambda>tr. se_allow_local_images se \<or> m_allow_local_file m tr)\<rparr>"

section \<open>The persistent image\<close>

text \<open>\<open>_persist_image_update\<close> on the text of the \<open>.env\<close> file: the variable is replaced on every line that sets it.\<close>

definition env_variable :: string where
  "env_variable = ''ALTR_STREAM_IMAGE=''"

definition persist_env :: "string \<Rightarrow> string \<Rightarrow> string" where
  "persist_env img content =
     (let ls = split_on (CHR 0x0A) content in
      if list_ex (prefix env_variable) ls
      then join [CHR 0x0A] (map (\<lambda>l. if prefix env_variable l then env_variable @ img else l) ls)
      else rev (dropWhile py_isspace (rev content)) @ [CHR 0x0A] @ env_variable @ img @ [CHR 0x0A])"

section \<open>Requests\<close>

definition allowed_image_prefixes :: "string list" where
  "allowed_image_prefixes = [''ghcr.io/helloaltr/altr-stream:'', ''altr-stream:'']"

definition unsafe_chars :: string where
  "unsafe_chars = '';|&`$<>''"

text \<open>\<open>_validate_request\<close>; the result is the text of the \<open>ValueError\<close>.\<close>

definition validate_request :: "update_request \<Rightarrow> string option" where
  "validate_request rq =
     (let img = text_or (rq_target_image rq) []; version = text_or (rq_target_version rq) [] in
      if img = [] \<or> \<not> list_ex (\<lambda>p. prefix p img) allowed_image_prefixes
      then Some (''Unauthorized target image '' @ quoted img @ ''. Must originate from an allowed registry.'')
      else if version = [] \<or> list_ex (\<lambda>c. c \<in> set unsafe_chars) version
      then Some (''Malformed or unsafe target version: '' @ quoted version @ ''.'')
      else None)"

definition invalid_status :: "string \<Rightarrow> update_status" where
  "invalid_status e =
     \<lparr>us_state = FAILED, us_current_version = ''unknown'', us_request_id = None, us_target_version = None,
      us_progress = 0, us_message = ''Update request validation failed.'',
      us_error = Some (''Invalid update request: '' @ e), us_rollback_performed = False\<rparr>"

text \<open>What the handler reads from a valid request, and the version that a rollback has to restore.\<close>

record job =
  jb_request_id :: "string option"
  jb_current :: string
  jb_target :: string
  jb_image :: string
  jb_expected :: string

definition running_version :: "host \<Rightarrow> trace \<Rightarrow> string \<Rightarrow> string" where
  "running_version h tr current =
     (let v = text_or (h_live_version h tr) current in
      if v = [] \<or> v = ''unknown'' then
        (let img = h_current_image h tr in
         if CHR '':'' \<in> set img then last (split_on (CHR '':'') img) else v)
      else v)"

definition job_of :: "update_request \<Rightarrow> string \<Rightarrow> job" where
  "job_of rq running =
     (let current = (case rq_current_version rq of None \<Rightarrow> ''unknown'' | Some c \<Rightarrow> c) in
      \<lparr>jb_request_id = rq_request_id rq, jb_current = current,
       jb_target = (case rq_target_version rq of None \<Rightarrow> ''unknown'' | Some t \<Rightarrow> t),
       jb_image = (case rq_target_image rq of None \<Rightarrow> [] | Some i \<Rightarrow> i),
       jb_expected = (if running = [] then current else running)\<rparr>)"

definition job_status :: "job \<Rightarrow> update_state \<Rightarrow> string \<Rightarrow> int \<Rightarrow> string \<Rightarrow> string option \<Rightarrow> bool \<Rightarrow> update_status" where
  "job_status jb state current progress message error rollback =
     \<lparr>us_state = state, us_current_version = current, us_request_id = jb_request_id jb,
      us_target_version = Some (jb_target jb), us_progress = progress, us_message = message, us_error = error,
      us_rollback_performed = rollback\<rparr>"

text \<open>A request whose target is already running, or older than what is running, is answered at once.\<close>

definition reconcile_request :: "job \<Rightarrow> string \<Rightarrow> update_status option" where
  "reconcile_request jb running =
     (case (parse_version running, parse_version (jb_target jb)) of
        (Some r, Some t) \<Rightarrow>
          if version_eq r t then
            Some (job_status jb COMPLETED (format_version r) 100
              (''Service is already running v'' @ jb_target jb @ ''.'') None False)
          else if version_greater r t then
            Some (job_status jb FAILED (format_version r) 0
              (''Cannot update to older version v'' @ jb_target jb @ '' (service is on v'' @ format_version r @ '').'')
              (Some (''Target version v'' @ jb_target jb @ '' is older than running v'' @ format_version r @ ''.'')) False)
          else None
      | _ \<Rightarrow> None)"

section \<open>The stages of an update\<close>

definition pull_stage :: "host \<Rightarrow> job \<Rightarrow> trace \<Rightarrow> update_status option \<times> trace" where
  "pull_stage h jb tr =
     (let tr1 = tr @
          [WriteStatus (job_status jb STAGING (jb_current jb) 25
             (''Downloading target image '' @ jb_image jb @ '' (this may take several minutes on slower connections)...'')
             None False),
           PullImage (jb_image jb)]
      in case h_pull_image h tr1 (jb_image jb) of
           None \<Rightarrow> (None, tr1)
         | Some e \<Rightarrow>
             if h_allow_local_images h tr1 \<and> h_image_exists_locally h tr1 (jb_image jb) then (None, tr1)
             else (Some (job_status jb FAILED (jb_current jb) 0 ''Failed to pull image.'' (Some e) False), tr1))"

definition previous_image :: "host \<Rightarrow> job \<Rightarrow> trace \<Rightarrow> string" where
  "previous_image h jb tr =
     (let img = h_current_image h tr in
      if img = [] then ''ghcr.io/helloaltr/altr-stream:'' @ jb_current jb else img)"

definition apply_stage :: "host \<Rightarrow> job \<Rightarrow> trace \<Rightarrow> bool \<times> trace" where
  "apply_stage h jb tr =
     (let tr1 = tr @
          [WriteStatus (job_status jb APPLYING (jb_current jb) 50
             ''Recreating application container with updated image...'' None False),
           RecreateService (jb_image jb)]
      in if h_recreate_service h tr1 (jb_image jb) \<noteq> None \<or> h_copy_to_container h tr1 \<noteq> None then (False, tr1)
         else
           (let tr2 = tr1 @
                [WriteStatus (job_status jb HEALTH_CHECK (jb_current jb) 75
                   ''Verifying new version healthcheck...'' None False)]
            in (h_wait_for_health h tr2 (jb_target jb), tr2)))"

definition rollback_stage :: "host \<Rightarrow> job \<Rightarrow> string \<Rightarrow> trace \<Rightarrow> update_status \<times> trace" where
  "rollback_stage h jb prev tr =
     (let tr1 = tr @
          [WriteStatus (job_status jb ROLLING_BACK (jb_current jb) 85
             (''Activation failed. Rolling back to '' @ prev @ ''...'') (Some ''Health check verification failed.'') True),
           RecreateService prev];
          recreated = (h_recreate_service h tr1 prev = None);
          healthy = (recreated \<and> h_wait_for_health h tr1 (jb_expected jb));
          live = (if recreated then h_live_version h tr1 else None)
      in if healthy \<and> lstrip_v (text_or live []) = lstrip_v (jb_expected jb) then
           (let v = text_or live (jb_expected jb) in
            (job_status jb ROLLED_BACK v 100 (''Rolled back to previous version '' @ v @ '' due to failure.'')
               (Some (''New version '' @ jb_target jb @ '' failed health verification; successfully rolled back to '' @ v @ ''.''))
               True,
             tr1 @ [PersistImage prev]))
         else
           (job_status jb FAILED (text_or live (jb_current jb)) 100
              (''Update to '' @ jb_target jb @ '' failed and rollback verification failed.'')
              (Some (''Update to '' @ jb_target jb @ '' failed healthcheck. Rollback verification failed: expected '' @
                 jb_expected jb @ '', but node is running '' @ text_or live ''unknown'' @ ''.''))
              recreated,
            tr1))"

definition finish :: "update_status \<Rightarrow> trace \<Rightarrow> update_status option \<times> trace" where
  "finish st tr = (Some st, tr @ [WriteStatus st, RemoveRequest])"

definition update_workflow :: "host \<Rightarrow> job \<Rightarrow> trace \<Rightarrow> update_status option \<times> trace" where
  "update_workflow h jb tr =
     (case pull_stage h jb tr of
        (Some st, tr1) \<Rightarrow> finish st tr1
      | (None, tr1) \<Rightarrow>
          (case apply_stage h jb tr1 of
             (True, tr2) \<Rightarrow>
               finish (job_status jb COMPLETED (jb_target jb) 100
                 (''Update to '' @ jb_target jb @ '' completed successfully.'') None False)
                 (tr2 @ [PersistImage (jb_image jb)])
           | (False, tr2) \<Rightarrow>
               (case rollback_stage h jb (previous_image h jb tr1) tr2 of (st, tr3) \<Rightarrow> finish st tr3)))"

section \<open>The handler and the loop\<close>

text \<open>The request of the container is copied to the host when there is none on the host.\<close>

definition sync_request :: "host \<Rightarrow> disk \<Rightarrow> trace \<Rightarrow> request_file option \<times> trace" where
  "sync_request h d tr =
     (case dk_request d of
        Some r \<Rightarrow> (Some r, tr)
      | None \<Rightarrow>
          (case h_container_request h tr of
             None \<Rightarrow> (None, tr)
           | Some r \<Rightarrow> (Some r, tr @ [SyncRequest r (h_container_status h tr)])))"

definition process_pending_request :: "host \<Rightarrow> disk \<Rightarrow> trace \<Rightarrow> update_status option \<times> trace" where
  "process_pending_request h d tr =
     (case sync_request h d tr of
        (None, tr1) \<Rightarrow> (None, tr1)
      | (Some (Unreadable e), tr1) \<Rightarrow> (None, tr1 @ [WriteStatus (invalid_status e), RemoveRequest])
      | (Some (Request rq), tr1) \<Rightarrow>
          (case validate_request rq of
             Some e \<Rightarrow> (None, tr1 @ [WriteStatus (invalid_status e), RemoveRequest])
           | None \<Rightarrow>
               (let running = running_version h tr1 (case rq_current_version rq of None \<Rightarrow> ''unknown'' | Some c \<Rightarrow> c);
                    jb = job_of rq running
                in case reconcile_request jb running of
                     Some st \<Rightarrow> finish st tr1
                   | None \<Rightarrow> update_workflow h jb tr1)))"

definition reconcile_startup_state :: "host \<Rightarrow> disk \<Rightarrow> trace \<Rightarrow> update_status option \<times> trace" where
  "reconcile_startup_state h d tr =
     (case dk_status d of
        None \<Rightarrow> (None, tr)
      | Some st \<Rightarrow>
          if is_active (us_state st) then
            (let live = h_live_version h tr; target = text_or (us_target_version st) [];
                 reached = (case (parse_version (text_or live []), parse_version target) of
                     (Some v, Some t) \<Rightarrow> version_eq v t | _ \<Rightarrow> False);
                 actual = text_or live (us_current_version st);
                 st' = (if reached then
                     st\<lparr>us_state := COMPLETED, us_current_version := actual, us_progress := 100,
                       us_message := ''Service is running target version v'' @ target @ ''.'',
                       us_error := None, us_rollback_performed := False\<rparr>
                   else
                     st\<lparr>us_state := FAILED, us_current_version := actual, us_progress := 0,
                       us_message := ''Update workflow interrupted by supervisor restart while in '' @
                         quoted (state_value (us_state st)) @ ''.'',
                       us_error := Some (''Supervisor was restarted during active state '' @
                         quoted (state_value (us_state st)) @ ''. Node is running v'' @ actual @ ''.''),
                       us_rollback_performed := False\<rparr>)
             in finish st' tr)
          else (None, tr))"

text \<open>\<open>run_loop\<close> over \<open>n\<close> polls: \<open>n = 1\<close> with \<open>once\<close>, and any number of polls of the daemon.\<close>

fun poll_requests :: "host \<Rightarrow> disk \<Rightarrow> nat \<Rightarrow> trace \<Rightarrow> trace" where
  "poll_requests h d 0 tr = tr"
| "poll_requests h d (Suc n) tr = poll_requests h d n (snd (process_pending_request h (apply_events tr d) tr))"

definition run_loop :: "host \<Rightarrow> disk \<Rightarrow> nat \<Rightarrow> trace" where
  "run_loop h d n = poll_requests h d n (snd (reconcile_startup_state h d []))"

end
