(* ===== verification/Supervisor_Correctness.thy ===== *)
theory Supervisor_Correctness
  imports Supervisor
begin

text \<open>
  What the supervisor guarantees: the outcome of a request and the images that it runs, no downgrade, the
  path of states that it writes over any history of requests, passes, crashes and restarts, and the recovery
  from a crash at any point.
\<close>

section \<open>Polling\<close>

text \<open>The time at which poll \<open>k\<close> starts.\<close>

definition poll_start :: "(nat \<Rightarrow> nat \<times> health option) \<Rightarrow> nat \<Rightarrow> nat" where
  "poll_start polls k = (\<Sum>i < k. fst (polls i) + interval_ms)"

lemma poll_start_Suc: "poll_start polls (Suc k) = poll_start polls k + fst (polls k) + interval_ms"
  by (simp add: poll_start_def)

lemma poll_start_bound: "2000 * k \<le> poll_start polls k"
proof (induction k)
  case (Suc k)
  then show ?case by (simp add: poll_start_Suc interval_ms_def)
qed simp

lemma poll_start_mono: "j \<le> k \<Longrightarrow> poll_start polls j \<le> poll_start polls k"
  by (induction k rule: nat_induct) (auto simp: poll_start_Suc le_Suc_eq)

lemma wait_for_health_from:
  "el = poll_start polls k \<Longrightarrow>
   wait_for_health polls expected timeout el k \<longleftrightarrow>
   (\<exists>j \<ge> k. poll_start polls j < timeout \<and> poll_accepts expected (snd (polls j)))"
proof (induction polls expected timeout el k rule: wait_for_health.induct)
  case (1 polls expected timeout el k)
  obtain took answer where p: "polls k = (took, answer)" by (cases "polls k")
  show ?case
  proof (cases "el < timeout \<and> \<not> poll_accepts expected answer")
    case True
    have "wait_for_health polls expected timeout el k =
        wait_for_health polls expected timeout (el + took + interval_ms) (Suc k)"
      using True p by (subst wait_for_health.simps) simp
    also have "\<dots> \<longleftrightarrow> (\<exists>j \<ge> Suc k. poll_start polls j < timeout \<and> poll_accepts expected (snd (polls j)))"
      using 1 True p by (simp add: poll_start_Suc)
    also have "\<dots> \<longleftrightarrow> (\<exists>j \<ge> k. poll_start polls j < timeout \<and> poll_accepts expected (snd (polls j)))"
      using True p by (metis Suc_leD le_antisym not_less_eq_eq snd_conv)
    finally show ?thesis .
  next
    case False
    show ?thesis
    proof (cases "el < timeout")
      case True
      with False p 1(2) show ?thesis by (subst wait_for_health.simps) (auto intro!: exI [of _ k])
    next
      case late: False
      have "\<not> poll_start polls j < timeout" if "k \<le> j" for j
        using late 1(2) poll_start_mono [OF that, of polls] by simp
      with late show ?thesis by (subst wait_for_health.simps) auto
    qed
  qed
qed

text \<open>
  The health check ends, after at most half as many polls as the timeout has seconds, and it succeeds if and
  only if some poll that starts before the timeout finds the service healthy with the expected version.
\<close>

lemma wait_for_health_iff:
  "wait_for_health polls expected timeout 0 0 \<longleftrightarrow>
   (\<exists>k. 2000 * k < timeout \<and> poll_start polls k < timeout \<and> poll_accepts expected (snd (polls k)))"
  using wait_for_health_from [of 0 polls 0 expected timeout] poll_start_bound [of _ polls]
  by (auto simp: poll_start_def) (meson le_less_trans)

text \<open>The service is recreated in at most three attempts.\<close>

lemma compose_up_attempts:
  "compose_up timeout runs 1 = compose_up timeout (\<lambda>k. runs (min k max_attempts)) 1"
proof -
  have last: "compose_up timeout f (Suc (Suc (Suc 0))) = compose_up timeout g (Suc (Suc (Suc 0)))"
    if "f (Suc (Suc (Suc 0))) = g (Suc (Suc (Suc 0)))" for f g
    using that by (simp add: compose_up.simps [of _ _ "Suc (Suc (Suc 0))"] max_attempts_def split: process.splits)
  have second: "compose_up timeout f (Suc (Suc 0)) = compose_up timeout g (Suc (Suc 0))"
    if "f (Suc (Suc 0)) = g (Suc (Suc 0))" "f (Suc (Suc (Suc 0))) = g (Suc (Suc (Suc 0)))" for f g
    using that last [of f g]
    by (simp add: compose_up.simps [of _ _ "Suc (Suc 0)"] max_attempts_def split: process.splits)
  show ?thesis
    using second [of runs "\<lambda>k. runs (min k max_attempts)"]
    by (simp add: compose_up.simps [of _ _ "Suc 0"] max_attempts_def split: process.splits)
qed

section \<open>What a trace commands\<close>

text \<open>The states that are written to the status file, by the supervisor and by the application.\<close>

definition written :: "trace \<Rightarrow> update_state list" where
  "written tr = List.map_filter (\<lambda>e. case e of WriteStatus s \<Rightarrow> Some (us_state s)
     | SubmitRequest r s \<Rightarrow> Some (us_state s) | CancelRequest s \<Rightarrow> Some (us_state s) | _ \<Rightarrow> None) tr"

definition pulled :: "trace \<Rightarrow> string list" where
  "pulled tr = List.map_filter (\<lambda>e. case e of PullImage i \<Rightarrow> Some i | _ \<Rightarrow> None) tr"

definition recreated :: "trace \<Rightarrow> string list" where
  "recreated tr = List.map_filter (\<lambda>e. case e of RecreateService i \<Rightarrow> Some i | _ \<Rightarrow> None) tr"

definition persisted :: "trace \<Rightarrow> string list" where
  "persisted tr = List.map_filter (\<lambda>e. case e of PersistImage i \<Rightarrow> Some i | _ \<Rightarrow> None) tr"

lemmas command_defs = written_def pulled_def recreated_def persisted_def

lemma commands_simps [simp]:
  "written [] = []" "pulled [] = []" "recreated [] = []" "persisted [] = []"
  "written (e # tr) = (case e of WriteStatus s \<Rightarrow> us_state s # written tr
     | SubmitRequest r s \<Rightarrow> us_state s # written tr | CancelRequest s \<Rightarrow> us_state s # written tr | _ \<Rightarrow> written tr)"
  "pulled (e # tr) = (case e of PullImage i \<Rightarrow> i # pulled tr | _ \<Rightarrow> pulled tr)"
  "recreated (e # tr) = (case e of RecreateService i \<Rightarrow> i # recreated tr | _ \<Rightarrow> recreated tr)"
  "persisted (e # tr) = (case e of PersistImage i \<Rightarrow> i # persisted tr | _ \<Rightarrow> persisted tr)"
  by (simp_all add: command_defs List.map_filter_simps split: event.splits)

lemma commands_append [simp]:
  "written (tr @ tr') = written tr @ written tr'" "pulled (tr @ tr') = pulled tr @ pulled tr'"
  "recreated (tr @ tr') = recreated tr @ recreated tr'" "persisted (tr @ tr') = persisted tr @ persisted tr'"
  by (simp_all add: command_defs List.map_filter_def)

lemma apply_events_simps [simp]:
  "apply_events [] d = d" "apply_events (e # tr) d = apply_events tr (apply_event e d)"
  "apply_events (tr @ tr') d = apply_events tr' (apply_events tr d)"
  by (simp_all add: apply_events_def)

text \<open>Commands that neither touch the request nor replace the status by a foreign one.\<close>

fun own_command :: "event \<Rightarrow> bool" where
  "own_command (SyncRequest r s) = False"
| "own_command RemoveRequest = False"
| "own_command (SubmitRequest r s) = False"
| "own_command (CancelRequest s) = False"
| "own_command _ = True"

lemma own_commands_keep_request: "list_all own_command tr \<Longrightarrow> dk_request (apply_events tr d) = dk_request d"
proof (induction tr arbitrary: d)
  case (Cons e tr)
  then show ?case by (cases e) auto
qed simp

lemma status_is_last_written:
  "list_all own_command tr \<Longrightarrow> written tr \<noteq> [] \<Longrightarrow>
   \<exists>s. dk_status (apply_events tr d) = Some s \<and> us_state s = last (written tr)"
proof (induction tr rule: rev_induct)
  case (snoc e tr)
  then show ?case by (cases e) auto
qed simp

lemma status_unwritten:
  "list_all own_command tr \<Longrightarrow> written tr = [] \<Longrightarrow> dk_status (apply_events tr d) = dk_status d"
proof (induction tr arbitrary: d)
  case (Cons e tr)
  then show ?case by (cases e) auto
qed simp

lemma status_kept: "dk_status d \<noteq> None \<Longrightarrow> dk_status (apply_events tr d) \<noteq> None"
proof (induction tr arbitrary: d)
  case (Cons e tr)
  then show ?case by (cases e) (auto split: option.splits)
qed simp

section \<open>The course of an update\<close>

text \<open>The states that are written, and the images that are pulled, run and persisted, with the final state.\<close>

definition course ::
  "string \<Rightarrow> string \<Rightarrow> (update_state list \<times> string list \<times> string list \<times> string list \<times> update_state) list" where
  "course img prev =
     [([STAGING], [img], [], [], FAILED),
      ([STAGING, APPLYING, HEALTH_CHECK], [img], [img], [img], COMPLETED),
      ([STAGING, APPLYING, ROLLING_BACK], [img], [img, prev], [prev], ROLLED_BACK),
      ([STAGING, APPLYING, ROLLING_BACK], [img], [img, prev], [], FAILED),
      ([STAGING, APPLYING, HEALTH_CHECK, ROLLING_BACK], [img], [img, prev], [prev], ROLLED_BACK),
      ([STAGING, APPLYING, HEALTH_CHECK, ROLLING_BACK], [img], [img, prev], [], FAILED)]"

lemma job_status_simps [simp]:
  "us_state (job_status jb s c p m e r) = s" "us_target_version (job_status jb s c p m e r) = Some (jb_target jb)"
  by (simp_all add: job_status_def)

lemma pull_stage_course:
  assumes "pull_stage h jb tr = (r, tr1)"
  shows "\<exists>s. us_state s = STAGING \<and> tr1 = tr @ [WriteStatus s, PullImage (jb_image jb)] \<and>
    (case r of None \<Rightarrow> True | Some st \<Rightarrow> us_state st = FAILED \<and> us_target_version st = Some (jb_target jb))"
  using assms unfolding pull_stage_def Let_def by (auto simp: split: option.splits if_splits intro!: exI)

lemma apply_stage_course:
  assumes "apply_stage h jb tr = (ok, tr1)"
  shows "\<exists>s run. us_state s = APPLYING \<and> run = tr @ [WriteStatus s, RecreateService (jb_image jb)] \<and>
    (\<not> ok \<and> tr1 = run \<or>
     (\<exists>t. us_state t = HEALTH_CHECK \<and> tr1 = run @ [WriteStatus t] \<and>
        h_recreate_service h run (jb_image jb) = None \<and> ok = h_wait_for_health h tr1 (jb_target jb)))"
  using assms unfolding apply_stage_def Let_def by (auto split: if_splits intro!: exI)

lemma rollback_stage_course:
  assumes "rollback_stage h jb prev tr = (st, tr1)"
  shows "us_target_version st = Some (jb_target jb) \<and> (\<exists>s back. us_state s = ROLLING_BACK \<and>
    back = tr @ [WriteStatus s, RecreateService prev] \<and>
    (us_state st = ROLLED_BACK \<and> tr1 = back @ [PersistImage prev] \<and> h_recreate_service h back prev = None \<and>
       h_wait_for_health h back (jb_expected jb) \<or>
     us_state st = FAILED \<and> tr1 = back))"
proof -
  define t1 where "t1 = tr @ [WriteStatus (job_status jb ROLLING_BACK (jb_current jb) 85
     (''Activation failed. Rolling back to '' @ prev @ ''...'') (Some ''Health check verification failed.'') True), RecreateService prev]"
  define live where "live = (if h_recreate_service h t1 prev = None then h_live_version h t1 else None)"
  define restored where "restored \<longleftrightarrow> (h_recreate_service h t1 prev = None \<and> h_wait_for_health h t1 (jb_expected jb)) \<and>
    lstrip_v (text_or live []) = lstrip_v (jb_expected jb)"
  show ?thesis
    using assms unfolding rollback_stage_def Let_def t1_def [symmetric]
    unfolding live_def [symmetric] restored_def [symmetric]
    by (cases restored) (auto simp: t1_def job_status_def restored_def intro!: exI)
qed

definition authorized :: "string \<Rightarrow> bool" where
  "authorized img \<longleftrightarrow> list_ex (\<lambda>p. prefix p img) allowed_image_prefixes"

text \<open>
  \<open>replaced_image h past prev\<close>: \<open>prev\<close> is the image that the service runs at \<open>past\<close>, or an authorized one if
  the host cannot tell. \<open>update_course h tr img target expected new out\<close>: the events that take the service to
  \<open>img\<close> and, when it does not become healthy with version \<open>target\<close>, back to the image it ran after the download
  and before it was recreated, with version \<open>expected\<close>. Every answer of the host that counts is the one that it
  gives at that point of the events.
\<close>

definition replaced_image :: "host \<Rightarrow> trace \<Rightarrow> string \<Rightarrow> bool" where
  "replaced_image h past prev \<longleftrightarrow>
     (if h_current_image h past = [] then authorized prev else prev = h_current_image h past)"

definition course_events ::
  "host \<Rightarrow> trace \<Rightarrow> string \<Rightarrow> string \<Rightarrow> string \<Rightarrow> update_status list \<Rightarrow> string \<Rightarrow> trace \<Rightarrow> update_state \<Rightarrow> bool" where
  "course_events h tr img target expected s prev new out \<longleftrightarrow>
     (let got = [WriteStatus (s ! 0), PullImage img];
          run = got @ [WriteStatus (s ! 1), RecreateService img];
          checked = run @ [WriteStatus (s ! 2)];
          back = (\<lambda>tried. tried @ [WriteStatus (s ! 3), RecreateService prev])
      in out = FAILED \<and> new = got \<or>
         out = COMPLETED \<and> new = checked @ [PersistImage img] \<and>
           h_recreate_service h (tr @ run) img = None \<and> h_wait_for_health h (tr @ checked) target \<or>
         replaced_image h (tr @ got) prev \<and>
           (\<exists>tried. (tried = run \<or> tried = checked \<and> \<not> h_wait_for_health h (tr @ checked) target) \<and>
              (out = FAILED \<and> new = back tried \<or>
               out = ROLLED_BACK \<and> new = back tried @ [PersistImage prev] \<and>
                 h_recreate_service h (tr @ back tried) prev = None \<and>
                 h_wait_for_health h (tr @ back tried) expected)))"

definition update_course :: "host \<Rightarrow> trace \<Rightarrow> string \<Rightarrow> string \<Rightarrow> string \<Rightarrow> trace \<Rightarrow> update_state \<Rightarrow> bool" where
  "update_course h tr img target expected new out \<longleftrightarrow>
     (\<exists>s prev. map us_state s = [STAGING, APPLYING, HEALTH_CHECK, ROLLING_BACK] \<and>
        course_events h tr img target expected s prev new out)"

lemma update_courseI:
  assumes "us_state s1 = STAGING" "us_state s2 = APPLYING" "us_state s3 = HEALTH_CHECK" "us_state s4 = ROLLING_BACK"
    and "course_events h tr img target expected [s1, s2, s3, s4] prev new out"
  shows "update_course h tr img target expected new out"
  unfolding update_course_def using assms by (intro exI [of _ "[s1, s2, s3, s4]"] exI [of _ prev]) simp

lemma map_state_four:
  "map us_state s = [a, b, c, e] \<Longrightarrow>
   \<exists>s1 s2 s3 s4. s = [s1, s2, s3, s4] \<and> us_state s1 = a \<and> us_state s2 = b \<and> us_state s3 = c \<and> us_state s4 = e"
  by (auto simp: map_eq_Cons_conv)

lemma update_course_commands:
  assumes "update_course h tr img target expected new out"
  shows "list_all own_command new \<and> (\<exists>prev. (written new, pulled new, recreated new, persisted new, out) \<in> set (course img prev))"
proof -
  obtain s1 s2 s3 s4 prev where st: "us_state s1 = STAGING" "us_state s2 = APPLYING" "us_state s3 = HEALTH_CHECK"
      "us_state s4 = ROLLING_BACK" and c: "course_events h tr img target expected [s1, s2, s3, s4] prev new out"
    using assms map_state_four unfolding update_course_def by blast
  have "list_all own_command new \<and> (written new, pulled new, recreated new, persisted new, out) \<in> set (course img prev)"
    using c unfolding course_events_def Let_def by (elim disjE conjE exE; simp add: course_def st)
  then show ?thesis by blast
qed

lemma previous_image_replaced: "replaced_image h past (previous_image h jb past)"
  by (auto simp: previous_image_def Let_def authorized_def allowed_image_prefixes_def replaced_image_def)

lemma status_of_state: "\<exists>st :: update_status. us_state st = s"
  by (metis update_status.select_convs(1))

lemma update_workflow_course:
  assumes "update_workflow h jb tr = (r, tr')"
  shows "\<exists>st new. r = Some st \<and> tr' = tr @ new @ [WriteStatus st, RemoveRequest] \<and>
    us_target_version st = Some (jb_target jb) \<and>
    update_course h tr (jb_image jb) (jb_target jb) (jb_expected jb) new (us_state st)"
proof -
  obtain failed t1 where p: "pull_stage h jb tr = (failed, t1)" by (cases "pull_stage h jb tr")
  from pull_stage_course [OF p] obtain s1 where s1: "us_state s1 = STAGING" "t1 = tr @ [WriteStatus s1, PullImage (jb_image jb)]"
    and f: "failed = Some st \<Longrightarrow> us_state st = FAILED \<and> us_target_version st = Some (jb_target jb)" for st by (auto split: option.splits)
  obtain u2 u3 u4 :: update_status where u: "us_state u2 = APPLYING" "us_state u3 = HEALTH_CHECK" "us_state u4 = ROLLING_BACK"
    using status_of_state [of APPLYING] status_of_state [of HEALTH_CHECK] status_of_state [of ROLLING_BACK] by blast
  show ?thesis
  proof (cases failed)
    case (Some st)
    then have "r = Some st" "tr' = t1 @ [WriteStatus st, RemoveRequest]"
      using assms p by (simp_all add: update_workflow_def finish_def)
    moreover have "update_course h tr (jb_image jb) t e [WriteStatus s1, PullImage (jb_image jb)] FAILED" for t e
      by (rule update_courseI [OF s1(1) u]) (simp add: course_events_def)
    ultimately show ?thesis using s1(2) f [OF Some] by auto
  next
    case None
    obtain ok t2 where a: "apply_stage h jb t1 = (ok, t2)" by (cases "apply_stage h jb t1")
    from apply_stage_course [OF a] obtain s2 where s2: "us_state s2 = APPLYING"
      and t2: "\<not> ok \<and> t2 = t1 @ [WriteStatus s2, RecreateService (jb_image jb)] \<or>
        (\<exists>t. us_state t = HEALTH_CHECK \<and> t2 = t1 @ [WriteStatus s2, RecreateService (jb_image jb)] @ [WriteStatus t] \<and>
          h_recreate_service h (t1 @ [WriteStatus s2, RecreateService (jb_image jb)]) (jb_image jb) = None \<and>
          ok = h_wait_for_health h t2 (jb_target jb))" by auto
    show ?thesis
    proof (cases ok)
      case True
      define st where "st = job_status jb COMPLETED (jb_target jb) 100
        (''Update to '' @ jb_target jb @ '' completed successfully.'') None False"
      from t2 True obtain s3 where s3: "us_state s3 = HEALTH_CHECK"
        "t2 = t1 @ [WriteStatus s2, RecreateService (jb_image jb)] @ [WriteStatus s3]"
        "h_recreate_service h (t1 @ [WriteStatus s2, RecreateService (jb_image jb)]) (jb_image jb) = None"
        "h_wait_for_health h t2 (jb_target jb)" by blast
      have "r = Some st" "tr' = t2 @ [PersistImage (jb_image jb), WriteStatus st, RemoveRequest]"
        using assms p a None True by (simp_all add: update_workflow_def finish_def st_def)
      moreover have "update_course h tr (jb_image jb) (jb_target jb) (jb_expected jb)
          [WriteStatus s1, PullImage (jb_image jb), WriteStatus s2, RecreateService (jb_image jb), WriteStatus s3,
           PersistImage (jb_image jb)] COMPLETED"
        by (rule update_courseI [OF s1(1) s2 s3(1) u(3)]) (use s1(2) s3 in \<open>simp add: course_events_def\<close>)
      ultimately show ?thesis using s1(2) s3(2) by (auto simp: st_def)
    next
      case False
      define prev where "prev = previous_image h jb t1"
      obtain st t3 where b: "rollback_stage h jb prev t2 = (st, t3)" by (cases "rollback_stage h jb prev t2")
      with assms p a None False have r: "r = Some st" "tr' = t3 @ [WriteStatus st, RemoveRequest]"
        by (simp_all add: update_workflow_def finish_def prev_def)
      from rollback_stage_course [OF b] obtain s4 where s4: "us_state s4 = ROLLING_BACK" "us_target_version st = Some (jb_target jb)"
        and t3: "us_state st = ROLLED_BACK \<and> t3 = t2 @ [WriteStatus s4, RecreateService prev, PersistImage prev] \<and>
            h_recreate_service h (t2 @ [WriteStatus s4, RecreateService prev]) prev = None \<and>
            h_wait_for_health h (t2 @ [WriteStatus s4, RecreateService prev]) (jb_expected jb) \<or>
          us_state st = FAILED \<and> t3 = t2 @ [WriteStatus s4, RecreateService prev]" by auto
      have prev: "replaced_image h t1 prev" unfolding prev_def by (rule previous_image_replaced)
      obtain s3 mid where s3: "us_state s3 = HEALTH_CHECK"
        and mid: "t2 = t1 @ [WriteStatus s2, RecreateService (jb_image jb)] @ mid"
          "mid = [] \<or> mid = [WriteStatus s3] \<and> \<not> h_wait_for_health h t2 (jb_target jb)"
        using t2 False u(2) by (elim disjE conjE exE) (metis append_Nil2, blast)
      define new where "new = [WriteStatus s1, PullImage (jb_image jb), WriteStatus s2, RecreateService (jb_image jb)] @ mid @
        [WriteStatus s4, RecreateService prev] @ (if us_state st = FAILED then [] else [PersistImage prev])"
      have "t3 = tr @ new" using t3 s1(2) mid(1) by (auto simp: new_def)
      moreover have "update_course h tr (jb_image jb) (jb_target jb) (jb_expected jb) new (us_state st)"
        by (rule update_courseI [OF s1(1) s2 s3 s4(1), where prev = prev])
          (use s1(2) t3 mid prev in \<open>auto simp: new_def course_events_def\<close>)
      ultimately show ?thesis using r s4(2) by auto
    qed
  qed
qed

text \<open>A pass of the handler: it does nothing, or it settles a request, with or without running the workflow.\<close>

definition sync_events :: "trace \<Rightarrow> bool" where
  "sync_events tr \<longleftrightarrow> (case tr of [] \<Rightarrow> True | [SyncRequest r s] \<Rightarrow> True | _ \<Rightarrow> False)"

lemma validate_authorized: "validate_request rq = None \<Longrightarrow> authorized (jb_image (job_of rq v))"
  by (auto simp: validate_request_def Let_def authorized_def job_of_def text_or_def split: option.splits if_splits)

lemma validate_members:
  "validate_request rq = None \<Longrightarrow>
   rq_target_image rq = Some (jb_image (job_of rq v)) \<and> rq_target_version rq = Some (jb_target (job_of rq v))"
  by (auto simp: validate_request_def Let_def job_of_def text_or_def allowed_image_prefixes_def split: option.splits if_splits)

text \<open>The version that was running before the update, as the answer of the service at \<open>past\<close> tells it.\<close>

definition ran_before :: "host \<Rightarrow> trace \<Rightarrow> string \<Rightarrow> bool" where
  "ran_before h past v \<longleftrightarrow> (\<forall>l. h_live_version h past = Some l \<longrightarrow> l \<noteq> [] \<longrightarrow> l \<noteq> ''unknown'' \<longrightarrow> v = l)"

lemma running_version_before: "ran_before h tr (running_version h tr c)"
  by (simp add: ran_before_def running_version_def text_or_def Let_def)

lemma job_expected_before: "ran_before h tr (jb_expected (job_of rq (running_version h tr c)))"
  using running_version_before [of h tr c] by (auto simp: ran_before_def job_of_def)

lemma reconcile_request_course:
  "reconcile_request jb v = Some st \<Longrightarrow>
   us_target_version st = Some (jb_target jb) \<and>
   (\<exists>r t. parse_version v = Some r \<and> parse_version (jb_target jb) = Some t \<and>
      (us_state st = COMPLETED \<and> version_eq r t \<or> us_state st = FAILED \<and> version_greater r t))"
  by (auto simp: reconcile_request_def split: option.splits if_splits)

text \<open>The outcome of a valid request: settled from the running version, or by the workflow.\<close>

definition pass_outcome :: "host \<Rightarrow> trace \<Rightarrow> update_request \<Rightarrow> trace \<Rightarrow> update_status \<Rightarrow> bool" where
  "pass_outcome h past rq new st \<longleftrightarrow>
     (\<exists>img target expected. rq_target_image rq = Some img \<and> authorized img \<and> rq_target_version rq = Some target \<and>
        us_target_version st = Some target \<and> ran_before h past expected \<and>
        (update_course h past img target expected new (us_state st) \<or>
         new = [] \<and> (\<exists>r t. parse_version expected = Some r \<and> parse_version target = Some t \<and>
           (us_state st = COMPLETED \<and> version_eq r t \<or> us_state st = FAILED \<and> version_greater r t))))"

lemma process_course:
  assumes "process_pending_request h d tr = (r, tr')"
  shows "r = None \<and> tr' = tr \<and> dk_request d = None \<or>
    (\<exists>sync new st. sync_events sync \<and> (sync = [] \<or> dk_request d = None) \<and>
       tr' = tr @ sync @ new @ [WriteStatus st, RemoveRequest] \<and>
       (r = None \<and> new = [] \<and> us_state st = FAILED \<or>
        r = Some st \<and> (\<exists>rq. sync_request h d tr = (Some (Request rq), tr @ sync) \<and> pass_outcome h (tr @ sync) rq new st)))"
proof -
  obtain found t1 where sync: "sync_request h d tr = (found, t1)" by (cases "sync_request h d tr")
  then have "\<exists>sync. t1 = tr @ sync \<and> sync_events sync \<and> (sync = [] \<or> dk_request d = None) \<and>
      (found = None \<longrightarrow> sync = [] \<and> dk_request d = None)"
    by (auto simp: sync_request_def sync_events_def split: option.splits)
  then obtain sync where t1: "t1 = tr @ sync" "sync_events sync" "sync = [] \<or> dk_request d = None"
    and none: "found = None \<longrightarrow> sync = [] \<and> dk_request d = None" by blast
  show ?thesis
  proof (cases found)
    case None
    with assms sync t1 none show ?thesis by (auto simp: process_pending_request_def)
  next
    case (Some rf)
    show ?thesis
    proof (cases "\<exists>e. rf = Unreadable e \<or> (\<exists>rq. rf = Request rq \<and> validate_request rq = Some e)")
      case True
      then obtain e where "r = None" "tr' = t1 @ [WriteStatus (invalid_status e), RemoveRequest]"
        using assms sync Some by (auto simp: process_pending_request_def)
      with t1 show ?thesis
        by (intro disjI2 exI [of _ sync] exI [of _ "[]"] exI [of _ "invalid_status e"]) (auto simp: invalid_status_def)
    next
      case False
      then obtain rq where rq: "rf = Request rq" "validate_request rq = None" by (cases rf) auto
      define v where "v = running_version h t1 (case rq_current_version rq of None \<Rightarrow> ''unknown'' | Some c \<Rightarrow> c)"
      let ?jb = "job_of rq v"
      have run: "(case reconcile_request ?jb v of Some st \<Rightarrow> finish st t1 | None \<Rightarrow> update_workflow h ?jb t1) = (r, tr')"
        using assms sync Some rq unfolding v_def by (simp add: process_pending_request_def Let_def)
      have "\<exists>st new. r = Some st \<and> tr' = t1 @ new @ [WriteStatus st, RemoveRequest] \<and> pass_outcome h t1 rq new st"
      proof (cases "reconcile_request ?jb v")
        case (Some st)
        with run have "r = Some st" "tr' = t1 @ [] @ [WriteStatus st, RemoveRequest]" by (simp_all add: finish_def)
        moreover have "pass_outcome h t1 rq [] st"
          using reconcile_request_course [OF Some] validate_members [OF rq(2), of v] validate_authorized [OF rq(2), of v]
            running_version_before unfolding pass_outcome_def v_def by blast
        ultimately show ?thesis by blast
      next
        case None
        with run have "update_workflow h ?jb t1 = (r, tr')" by simp
        from update_workflow_course [OF this] obtain st new where w: "r = Some st"
          "tr' = t1 @ new @ [WriteStatus st, RemoveRequest]" "us_target_version st = Some (jb_target ?jb)"
          "update_course h t1 (jb_image ?jb) (jb_target ?jb) (jb_expected ?jb) new (us_state st)" by blast
        moreover have "ran_before h t1 (jb_expected ?jb)" unfolding v_def by (rule job_expected_before)
        ultimately have "pass_outcome h t1 rq new st"
          using validate_members [OF rq(2), of v] validate_authorized [OF rq(2), of v] unfolding pass_outcome_def by blast
        with w show ?thesis by blast
      qed
      then show ?thesis using t1 sync Some rq(1) by auto
    qed
  qed
qed

section \<open>Outcomes\<close>

lemma sync_events_cases: "sync_events sync \<longleftrightarrow> sync = [] \<or> (\<exists>r s. sync = [SyncRequest r s])"
  by (cases sync; cases "hd sync"; cases "tl sync") (auto simp: sync_events_def)

lemma sync_events_commands:
  "sync_events sync \<Longrightarrow> written sync = [] \<and> pulled sync = [] \<and> recreated sync = [] \<and> persisted sync = []"
  by (auto simp: sync_events_cases)


text \<open>
  C37. No downgrade, and no needless restart. If the live version is the target of the request or newer, no
  image is pulled, run or persisted.
\<close>

theorem no_downgrade:
  assumes "dk_request d = Some (Request rq)" "rq_target_version rq = Some t" "parse_version t = Some tv"
    and "h_live_version h tr = Some l" "parse_version l = Some lv" "version_ge lv tv"
    and "process_pending_request h d tr = (r, tr @ new)"
  shows "pulled new = [] \<and> recreated new = [] \<and> persisted new = []"
proof (cases "validate_request rq")
  case (Some e)
  with assms show ?thesis by (auto simp: process_pending_request_def sync_request_def)
next
  case None
  have l: "l \<noteq> []" "l \<noteq> ''unknown''" using assms(5) by (auto, code_simp+)
  then have run: "running_version h tr c = l" for c
    using assms(4) by (simp add: running_version_def text_or_def Let_def)
  have "reconcile_request (job_of rq l) l \<noteq> None"
    using assms(2,3,5,6) by (auto simp: reconcile_request_def job_of_def version_greater_def version_ge_def Let_def)
  then obtain st where "reconcile_request (job_of rq l) l = Some st" by auto
  with assms(1,7) None run have "new = [WriteStatus st, RemoveRequest]"
    by (auto simp: process_pending_request_def sync_request_def finish_def Let_def)
  then show ?thesis by simp
qed

section \<open>Histories\<close>

text \<open>
  The states that the status file goes through. A request is submitted at any time, and cancelled before its
  image is applied; the supervisor starts with the download, or settles the request at once, and an interrupted
  update ends as completed or failed.
\<close>

inductive update_step :: "update_state \<Rightarrow> update_state \<Rightarrow> bool" where
  submitted: "update_step s REQUESTED"
| cancelled: "\<not> is_critical s \<Longrightarrow> update_step s CANCELLED"
| begin_update: "is_terminal s \<or> s = REQUESTED \<Longrightarrow> update_step s STAGING"
| settled: "t \<in> {COMPLETED, FAILED} \<Longrightarrow> update_step s t"
| downloaded: "update_step STAGING APPLYING"
| recreated: "update_step APPLYING HEALTH_CHECK"
| not_recreated: "update_step APPLYING ROLLING_BACK"
| unhealthy: "update_step HEALTH_CHECK ROLLING_BACK"
| restored: "update_step ROLLING_BACK ROLLED_BACK"

inductive_simps update_step_simps [simp]:
  "update_step s STAGING" "update_step s COMPLETED" "update_step s FAILED" "update_step s APPLYING"
  "update_step s HEALTH_CHECK" "update_step s ROLLING_BACK" "update_step s ROLLED_BACK" "update_step s REQUESTED"
  "update_step s CANCELLED"

text \<open>
  The supervisor and the application on one updates directory: between the passes, and while the supervisor is
  down, the application submits a request with the status REQUESTED, and cancels one whose status is cancellable
  (the endpoint that \<open>docs/api/reference.md\<close> documents; the repository holds no code for it, and only
  \<open>is_cancellable\<close> tells when it is allowed). The supervisor is launched, makes passes, is stopped, and crashes
  at any point of a launch or a pass, which cuts its events. Every step may meet a host of its own.
\<close>

inductive supervision :: "bool \<Rightarrow> disk \<Rightarrow> trace \<Rightarrow> bool" where
  installed: "supervision False d []"
| submit: "supervision up d tr \<Longrightarrow> us_state st = REQUESTED \<Longrightarrow>
    supervision up (apply_event (SubmitRequest r st) d) (tr @ [SubmitRequest r st])"
| cancel: "supervision up d tr \<Longrightarrow> dk_status d = Some old \<Longrightarrow> is_cancellable (us_state old) \<Longrightarrow> us_state st = CANCELLED \<Longrightarrow>
    supervision up (apply_event (CancelRequest st) d) (tr @ [CancelRequest st])"
| launch: "supervision False d tr \<Longrightarrow> reconcile_startup_state h d tr = (x, tr @ new) \<Longrightarrow>
    supervision True (apply_events new d) (tr @ new)"
| launch_crash: "supervision False d tr \<Longrightarrow> reconcile_startup_state h d tr = (x, tr @ new @ lost) \<Longrightarrow>
    supervision False (apply_events new d) (tr @ new)"
| pass: "supervision True d tr \<Longrightarrow> process_pending_request h d tr = (x, tr @ new) \<Longrightarrow>
    supervision True (apply_events new d) (tr @ new)"
| pass_crash: "supervision True d tr \<Longrightarrow> process_pending_request h d tr = (x, tr @ new @ lost) \<Longrightarrow>
    supervision False (apply_events new d) (tr @ new)"
| stopped: "supervision True d tr \<Longrightarrow> supervision False d tr"

lemma reconcile_course:
  assumes "reconcile_startup_state h d tr = (r, tr')"
  shows "r = None \<and> tr' = tr \<and> (\<forall>s. dk_status d = Some s \<longrightarrow> is_terminal (us_state s)) \<or>
    (\<exists>st old. r = Some st \<and> tr' = tr @ [WriteStatus st, RemoveRequest] \<and> us_state st \<in> {COMPLETED, FAILED} \<and>
       dk_status d = Some old \<and> is_active (us_state old))"
proof (cases "dk_status d")
  case (Some old)
  then show ?thesis
    using assms unfolding reconcile_startup_state_def finish_def Let_def
    by (cases "is_active (us_state old)") (auto simp: terminal_iff_not_active)
qed (use assms in \<open>auto simp: reconcile_startup_state_def\<close>)

text \<open>A pass writes a path of states from a first to a terminal one.\<close>

definition settling :: "trace \<Rightarrow> bool" where
  "settling own \<longleftrightarrow> list_all own_command own \<and> written own \<noteq> [] \<and> successively update_step (written own) \<and>
     hd (written own) \<in> {STAGING, COMPLETED, FAILED} \<and> is_terminal (last (written own))"

lemma outcome_settles: "pass_outcome h past rq new st \<Longrightarrow> settling (new @ [WriteStatus st])"
  unfolding pass_outcome_def
proof (elim exE conjE disjE)
  fix img target expected
  assume "update_course h past img target expected new (us_state st)"
  from update_course_commands [OF this] show ?thesis
    by (auto simp: settling_def course_def is_terminal_def successively_Cons)
qed (auto simp: settling_def is_terminal_def)

lemma process_settles:
  assumes "process_pending_request h d tr = (r, tr')"
  shows "tr' = tr \<and> dk_request d = None \<or>
    (\<exists>sync own. tr' = tr @ sync @ own @ [RemoveRequest] \<and> sync_events sync \<and> (sync = [] \<or> dk_request d = None) \<and> settling own)"
proof -
  have failed: "us_state st = FAILED \<Longrightarrow> settling [WriteStatus st]" for st by (simp add: settling_def is_terminal_def)
  show ?thesis
    using process_course [OF assms]
  proof (elim disjE exE)
    fix sync new st
    assume a: "sync_events sync \<and> (sync = [] \<or> dk_request d = None) \<and> tr' = tr @ sync @ new @ [WriteStatus st, RemoveRequest] \<and>
       (r = None \<and> new = [] \<and> us_state st = FAILED \<or>
        r = Some st \<and> (\<exists>rq. sync_request h d tr = (Some (Request rq), tr @ sync) \<and> pass_outcome h (tr @ sync) rq new st))"
    then have "settling (new @ [WriteStatus st])" using outcome_settles failed by auto
    moreover have "tr' = tr @ sync @ (new @ [WriteStatus st]) @ [RemoveRequest]" using a by simp
    ultimately show ?thesis using a by blast
  qed simp
qed

text \<open>The part of a pass that a crash leaves: the whole of it, or a beginning of its commands.\<close>

lemma prefix_of_pass:
  assumes "sync_events sync" "settling own" "prefix kept (sync @ own @ [RemoveRequest])"
  shows "kept = sync @ own @ [RemoveRequest] \<or>
    (\<exists>sync' own'. kept = sync' @ own' \<and> sync_events sync' \<and> (sync' = [] \<or> sync' = sync) \<and> prefix own' own)"
proof -
  from assms(3) consider "prefix kept sync" | k where "kept = sync @ k" "prefix k (own @ [RemoveRequest])"
    by (auto simp: prefix_append)
  then show ?thesis
  proof cases
    case 1
    with assms(1) have "sync_events kept \<and> (kept = [] \<or> kept = sync)" by (auto simp: sync_events_cases prefix_Cons)
    then show ?thesis by (metis append_Nil2 Nil_prefix)
  next
    case 2
    with assms(1) show ?thesis by (auto simp: prefix_snoc)
  qed
qed

lemma successively_prefix: "prefix xs ys \<Longrightarrow> successively P ys \<Longrightarrow> successively P xs"
  by (auto simp: prefix_def successively_append_iff)

lemma written_prefix: "prefix a b \<Longrightarrow> prefix (written a) (written b)"
  by (auto simp: prefix_def)

text \<open>
  What holds in every history, \<open>up\<close> telling whether the supervisor runs: if the last state of the path is active,
  it is still in the status file, and then a running supervisor has not begun with it.
\<close>

definition path_inv :: "bool \<Rightarrow> disk \<Rightarrow> trace \<Rightarrow> bool" where
  "path_inv up d tr \<longleftrightarrow>
     successively update_step (written tr) \<and>
     (written tr \<noteq> [] \<longrightarrow> is_active (last (written tr)) \<longrightarrow>
        map_option us_state (dk_status d) = Some (last (written tr)) \<and> (up \<longrightarrow> last (written tr) = REQUESTED))"

definition recovery_inv :: "bool \<Rightarrow> disk \<Rightarrow> bool" where
  "recovery_inv up d \<longleftrightarrow>
     (up \<longrightarrow> dk_request d = None \<longrightarrow> (\<forall>s. dk_status d = Some s \<longrightarrow> is_terminal (us_state s)))"

lemma first_step: "t \<in> {STAGING, COMPLETED, FAILED} \<Longrightarrow> is_terminal s \<or> s = REQUESTED \<Longrightarrow> update_step s t"
  by auto

text \<open>Before a pass the path can go on with its first state.\<close>

lemma path_ready:
  assumes "path_inv True d tr" "written tr \<noteq> []"
  shows "is_terminal (last (written tr)) \<or> last (written tr) = REQUESTED"
  using assms by (auto simp: path_inv_def terminal_iff_not_active)

lemma path_ready_synced:
  assumes "path_inv True d tr" "recovery_inv True d" "dk_request d = None" "written tr \<noteq> []"
  shows "is_terminal (last (written tr))"
  using assms by (auto simp: path_inv_def recovery_inv_def terminal_iff_not_active)

lemma path_extends:
  assumes "path_inv True d tr" "written own \<noteq> []" "successively update_step (written own)"
    and "hd (written own) \<in> {STAGING, COMPLETED, FAILED}"
  shows "successively update_step (written tr @ written own)"
  using assms path_ready [OF assms(1)] by (auto simp: successively_append_iff path_inv_def simp del: update_step_simps intro: first_step)

lemma path_inv_own:
  assumes "path_inv True d tr" "recovery_inv True d" "sync = [] \<or> dk_request d = None"
    and "settling own" "prefix own' own" "sync_events sync"
  shows "path_inv False (apply_events (sync @ own') d) (tr @ sync @ own')"
proof (cases "written own' = []")
  case True
  have own: "list_all own_command own'" using assms(4,5) by (auto simp: settling_def prefix_def)
  show ?thesis
  proof (cases "sync = []")
    case True
    with \<open>written own' = []\<close> assms(1) status_unwritten [OF own] show ?thesis by (simp add: path_inv_def)
  next
    case False
    with assms(3) have "written tr \<noteq> [] \<Longrightarrow> is_terminal (last (written tr))"
      using path_ready_synced [OF assms(1,2)] by simp
    with True assms(1) sync_events_commands [OF assms(6)] show ?thesis
      by (auto simp: path_inv_def terminal_iff_not_active)
  qed
next
  case False
  have p: "prefix (written own') (written own)" using assms(5) by (rule written_prefix)
  then have hd: "hd (written own') = hd (written own)" using False by (auto simp: prefix_def)
  have "successively update_step (written own')"
    using p assms(4) by (auto simp: settling_def intro: successively_prefix)
  then have "successively update_step (written tr @ written own')"
    using path_extends [OF assms(1) False] hd assms(4) by (simp add: settling_def)
  moreover have "list_all own_command own'"
    using assms(4,5) by (auto simp: settling_def prefix_def)
  then obtain s where "dk_status (apply_events own' (apply_events sync d)) = Some s" "us_state s = last (written own')"
    using status_is_last_written [OF _ False] by blast
  ultimately show ?thesis
    using False sync_events_commands [OF assms(6)] by (simp add: path_inv_def)
qed

lemma pass_complete:
  assumes "process_pending_request h d tr = (r, tr @ new)" "path_inv True d tr" "recovery_inv True d"
  shows "path_inv True (apply_events new d) (tr @ new) \<and> recovery_inv True (apply_events new d) \<and>
    dk_request (apply_events new d) = None \<and>
    (dk_request d \<noteq> None \<longrightarrow> dk_status (apply_events new d) \<noteq> None)"
  using process_settles [OF assms(1)]
proof (elim disjE exE)
  fix sync own
  assume "tr @ new = tr @ sync @ own @ [RemoveRequest] \<and> sync_events sync \<and> (sync = [] \<or> dk_request d = None) \<and> settling own"
  then have a: "tr @ new = tr @ sync @ own @ [RemoveRequest]" "sync_events sync" "settling own" by auto
  then have own: "list_all own_command own" "written own \<noteq> []" by (auto simp: settling_def)
  obtain s where s: "dk_status (apply_events own (apply_events sync d)) = Some s" "us_state s = last (written own)"
    using status_is_last_written [OF own] by blast
  have "successively update_step (written tr @ written own)"
    using path_extends [OF assms(2) own(2)] a(3) by (simp add: settling_def)
  with a s own sync_events_commands [OF a(2)] show ?thesis
    by (auto simp: path_inv_def recovery_inv_def settling_def terminal_iff_not_active)
qed (use assms in auto)

lemma path_settled:
  assumes "path_inv up d tr" "us_state st \<in> {COMPLETED, FAILED}"
  shows "path_inv up' d' (tr @ [WriteStatus st]) \<and> path_inv up' d' (tr @ [WriteStatus st, RemoveRequest])"
proof -
  have "update_step s (us_state st)" for s using assms(2) by (rule update_step.settled)
  moreover have "\<not> is_active (us_state st)" using assms(2) by (auto simp: is_active_def)
  ultimately show ?thesis using assms(1) by (simp add: path_inv_def successively_append_iff)
qed

lemma launch_complete:
  assumes "reconcile_startup_state h d tr = (r, tr @ new)" "path_inv False d tr"
  shows "path_inv True (apply_events new d) (tr @ new) \<and> recovery_inv True (apply_events new d) \<and>
    (dk_request d \<noteq> None \<longrightarrow> dk_request (apply_events new d) \<noteq> None \<or> dk_status (apply_events new d) \<noteq> None)"
  using reconcile_course [OF assms(1)]
proof (elim disjE exE conjE)
  fix st old
  assume a: "tr @ new = tr @ [WriteStatus st, RemoveRequest]" "us_state st \<in> {COMPLETED, FAILED}"
  with path_settled [OF assms(2) a(2)] show ?thesis by (auto simp: recovery_inv_def is_terminal_def)
qed (use assms(2) in \<open>auto simp: path_inv_def recovery_inv_def terminal_iff_not_active\<close>)

lemma path_appends:
  assumes "path_inv up d tr" "written [e] = [s]" "written tr \<noteq> [] \<Longrightarrow> update_step (last (written tr)) s"
    and "is_active s \<Longrightarrow> s = REQUESTED \<and> map_option us_state (dk_status d') = Some s"
  shows "path_inv up d' (tr @ [e])"
  using assms by (auto simp: path_inv_def successively_append_iff simp del: update_step_simps commands_simps)

lemma critical_active: "is_critical s \<Longrightarrow> is_active s"
  and critical_not_cancellable: "is_critical s \<Longrightarrow> \<not> is_cancellable s"
  by (cases s; simp add: state_defs)+

lemma supervision_inv: "supervision up d tr \<Longrightarrow> path_inv up d tr \<and> recovery_inv up d"
proof (induction rule: supervision.induct)
  case (installed d)
  then show ?case by (simp add: path_inv_def recovery_inv_def)
next
  case (submit up d tr st r)
  then have "path_inv up (apply_event (SubmitRequest r st) d) (tr @ [SubmitRequest r st])"
    by (intro path_appends [where s = REQUESTED]) auto
  then show ?case by (simp add: recovery_inv_def)
next
  case (cancel up d tr old st)
  have "\<not> is_critical (last (written tr))" if "written tr \<noteq> []"
    using cancel.IH cancel.hyps(2,3) that critical_active [of "last (written tr)"] critical_not_cancellable [of "us_state old"]
    by (auto simp: path_inv_def)
  with cancel have "path_inv up (apply_event (CancelRequest st) d) (tr @ [CancelRequest st])"
    by (intro path_appends [where s = CANCELLED]) (auto simp: is_active_def)
  with cancel show ?case by (simp add: recovery_inv_def is_terminal_def)
next
  case (launch d tr h x new)
  then show ?case using launch_complete by blast
next
  case (launch_crash d tr h x new lost)
  from reconcile_course [OF launch_crash.hyps(2)]
  consider "new = []" | st where "prefix new [WriteStatus st, RemoveRequest]" "us_state st \<in> {COMPLETED, FAILED}"
    by (elim disjE exE conjE) (simp, metis prefixI same_append_eq)
  then show ?case
  proof cases
    case 2
    then consider "new = []" | "new = [WriteStatus st]" | "new = [WriteStatus st, RemoveRequest]"
      by (auto simp: prefix_Cons)
    then show ?thesis
      using launch_crash.IH path_settled [OF _ 2(2)] by cases (auto simp: recovery_inv_def)
  qed (use launch_crash.IH in simp)
next
  case (pass d tr h x new)
  then show ?case using pass_complete by blast
next
  case (pass_crash d tr h x new lost)
  from process_settles [OF pass_crash.hyps(2)]
  consider "new = []"
    | sync own where "sync_events sync" "settling own" "prefix new (sync @ own @ [RemoveRequest])" "sync = [] \<or> dk_request d = None"
    by (elim disjE exE) (simp, metis prefixI same_append_eq)
  then show ?case
  proof cases
    case 1
    with pass_crash.IH show ?thesis by (auto simp: path_inv_def recovery_inv_def)
  next
    case 2
    note own = path_inv_own [OF conjunct1 [OF pass_crash.IH] conjunct2 [OF pass_crash.IH]]
    from prefix_of_pass [OF 2(1-3)] show ?thesis
    proof (elim disjE exE)
      fix sync' own'
      assume "new = sync' @ own' \<and> sync_events sync' \<and> (sync' = [] \<or> sync' = sync) \<and> prefix own' own"
      then have a: "new = sync' @ own'" "sync_events sync'" "prefix own' own" "sync' = [] \<or> sync' = sync" by auto
      then have "sync' = [] \<or> dk_request d = None" using 2(4) by auto
      with own [OF this 2(2) a(3,2)] a(1) show ?thesis by (simp add: recovery_inv_def)
    next
      assume new: "new = sync @ own @ [RemoveRequest]"
      with own [OF 2(4,2) _ 2(1), of own] show ?thesis by (simp add: recovery_inv_def path_inv_def)
    qed
  qed
next
  case (stopped d tr)
  then show ?case by (auto simp: path_inv_def recovery_inv_def)
qed

text \<open>
  C38. The states are always written along the path of an update. In every history of submissions, cancellations,
  launches, passes and crashes at any point, the states that are written to the status file, one after the other,
  are steps of \<open>update_step\<close>; in particular an image is only applied right after its download, a rollback only
  follows the application of an image, nothing is cancelled once its image is applied, and a download only
  follows a new request or a terminal state. The application acts between the passes and while the supervisor
  is down; the status that is copied with a request from the container is not part of the path.
\<close>

theorem supervision_path:
  assumes "supervision up d tr"
  shows "successively update_step (written tr)"
  using supervision_inv [OF assms] by (simp add: path_inv_def)

text \<open>Launching the supervisor if it is down, and one pass.\<close>

definition launch_and_pass :: "host \<Rightarrow> bool \<Rightarrow> disk \<Rightarrow> trace \<Rightarrow> disk" where
  "launch_and_pass h up d tr =
     (let tr1 = (if up then tr else snd (reconcile_startup_state h d tr));
          d1 = apply_events (drop (length tr) tr1) d;
          tr2 = snd (process_pending_request h d1 tr1)
      in apply_events (drop (length tr1) tr2) d1)"

text \<open>
  C39. No update hangs. After any history, with any crash, launching the supervisor (if it is down) and one
  pass leave no request behind and a status that is terminal, if there is one; and there is one if a request
  was pending.
\<close>

theorem supervision_recovers:
  assumes "supervision up d tr"
  shows "dk_request (launch_and_pass h up d tr) = None \<and>
    (case dk_status (launch_and_pass h up d tr) of None \<Rightarrow> dk_request d = None | Some s \<Rightarrow> is_terminal (us_state s))"
proof -
  define tr1 where "tr1 = (if up then tr else snd (reconcile_startup_state h d tr))"
  obtain r1 where r1: "\<not> up \<Longrightarrow> reconcile_startup_state h d tr = (r1, tr1)"
    by (cases "reconcile_startup_state h d tr") (auto simp: tr1_def)
  have inv: "path_inv up d tr" "recovery_inv up d" using supervision_inv [OF assms] by auto
  have "\<exists>new1. tr1 = tr @ new1"
  proof (cases up)
    case False
    from reconcile_course [OF r1 [OF this]] show ?thesis by auto
  qed (simp add: tr1_def)
  then obtain new1 where new1: "tr1 = tr @ new1" by blast
  define d1 where "d1 = apply_events new1 d"
  have d1: "path_inv True d1 tr1 \<and> recovery_inv True d1 \<and> (dk_request d \<noteq> None \<longrightarrow> dk_request d1 \<noteq> None \<or> dk_status d1 \<noteq> None)"
  proof (cases up)
    case True
    then have "new1 = []" using new1 by (simp add: tr1_def)
    with True inv new1 show ?thesis by (simp add: d1_def)
  next
    case False
    then show ?thesis using inv(1) launch_complete [of h d tr r1 new1] r1 new1 by (simp add: d1_def)
  qed
  obtain r2 tr2 where p: "process_pending_request h d1 tr1 = (r2, tr2)" by (cases "process_pending_request h d1 tr1")
  obtain new2 where new2: "tr2 = tr1 @ new2" using process_settles [OF p] by auto
  have "apply_events (drop (length tr) tr1) d = d1" by (simp add: new1 d1_def)
  then have "launch_and_pass h up d tr = apply_events (drop (length tr1) tr2) d1"
    unfolding launch_and_pass_def Let_def tr1_def [symmetric] by (simp only: p snd_conv)
  then have "launch_and_pass h up d tr = apply_events new2 d1" by (simp add: new2)
  moreover have "dk_request (apply_events new2 d1) = None" "recovery_inv True (apply_events new2 d1)"
      "dk_request d1 \<noteq> None \<longrightarrow> dk_status (apply_events new2 d1) \<noteq> None"
    using pass_complete [of h d1 tr1 r2 new2] p new2 d1 by auto
  moreover have "dk_status d1 \<noteq> None \<longrightarrow> dk_status (apply_events new2 d1) \<noteq> None"
    by (simp add: status_kept)
  ultimately show ?thesis using d1 by (auto simp: recovery_inv_def split: option.splits)
qed

section \<open>Samples\<close>

text \<open>
  A host that runs 1.0.0 and becomes 1.1.0 when it is recreated; \<open>healthy\<close> tells whether the new version
  answers.
\<close>

definition sample_host :: "bool \<Rightarrow> host" where
  "sample_host healthy =
     \<lparr>h_container_request = (\<lambda>tr. None), h_container_status = (\<lambda>tr. None),
      h_live_version = (\<lambda>tr. if length (recreated tr) = 1 then Some ''1.1.0'' else Some ''1.0.0''),
      h_current_image = (\<lambda>tr. ''altr-stream:1.0.0''), h_pull_image = (\<lambda>tr i. None),
      h_image_exists_locally = (\<lambda>tr i. False), h_recreate_service = (\<lambda>tr i. None), h_copy_to_container = (\<lambda>tr. None),
      h_wait_for_health = (\<lambda>tr v. healthy \<or> length (recreated tr) = 2), h_allow_local_images = (\<lambda>tr. False)\<rparr>"

definition sample_request :: "string \<Rightarrow> update_request" where
  "sample_request v = \<lparr>rq_request_id = Some ''r1'', rq_current_version = Some ''1.0.0'', rq_target_version = Some v,
     rq_target_image = Some (''altr-stream:'' @ v)\<rparr>"

definition sample_disk :: "string \<Rightarrow> disk" where
  "sample_disk v = \<lparr>dk_request = Some (Request (sample_request v)), dk_status = None\<rparr>"


lemma no_downgrade_witness:
  "\<exists>r new. process_pending_request (sample_host True) (sample_disk ''0.9.0'') [] = (r, new) \<and>
     written new = [FAILED] \<and> pulled new = [] \<and> recreated new = []"
proof -
  let ?p = "process_pending_request (sample_host True) (sample_disk ''0.9.0'') []"
  have v: "dk_request (sample_disk ''0.9.0'') = Some (Request (sample_request ''0.9.0''))"
    "rq_target_version (sample_request ''0.9.0'') = Some ''0.9.0''"
    "h_live_version (sample_host True) [] = Some ''1.0.0''"
    by (simp_all add: sample_disk_def sample_request_def sample_host_def)
  obtain tv lv where p: "parse_version ''0.9.0'' = Some tv" "parse_version ''1.0.0'' = Some lv"
    and ge: "version_ge lv tv"
  proof -
    have "parse_version ''0.9.0'' \<noteq> None" "parse_version ''1.0.0'' \<noteq> None"
      "version_ge (the (parse_version ''1.0.0'')) (the (parse_version ''0.9.0''))" by code_simp+
    with that show thesis by auto
  qed
  have "?p = (fst ?p, [] @ snd ?p)" by simp
  from no_downgrade [OF v(1,2) p(1) v(3) p(2) ge this] have "pulled (snd ?p) = [] \<and> recreated (snd ?p) = []" by simp
  moreover have "written (snd ?p) = [FAILED]" by code_simp
  ultimately show ?thesis by (metis prod.collapse)
qed

text \<open>The supervisor crashes while the service is being recreated, and a new one takes over.\<close>

lemma crashed_history:
  "\<exists>d tr. supervision False d tr \<and> written tr = [STAGING, APPLYING] \<and>
     map_option us_state (dk_status d) = Some APPLYING"
proof -
  let ?h = "sample_host True"
  let ?d = "sample_disk ''1.1.0''"
  let ?tr = "snd (process_pending_request ?h ?d [])"
  have "supervision False ?d []" by (rule supervision.installed)
  moreover have "reconcile_startup_state ?h ?d [] = (None, [] @ [])"
    by (simp add: reconcile_startup_state_def sample_disk_def)
  ultimately have "supervision True (apply_events [] ?d) ([] @ [])" by (rule supervision.launch)
  moreover have "process_pending_request ?h (apply_events [] ?d) ([] @ []) =
      (fst (process_pending_request ?h ?d []), ([] @ []) @ take 4 ?tr @ drop 4 ?tr)" by simp
  ultimately have "supervision False (apply_events (take 4 ?tr) (apply_events [] ?d)) (([] @ []) @ take 4 ?tr)"
    by (rule supervision.pass_crash)
  moreover have "written (take 4 ?tr) = [STAGING, APPLYING]"
    "map_option us_state (dk_status (apply_events (take 4 ?tr) ?d)) = Some APPLYING" by code_simp+
  ultimately show ?thesis by (intro exI conjI) auto
qed

lemma supervision_path_witness:
  "\<exists>d tr. supervision False d tr \<and> written tr = [STAGING, APPLYING] \<and> successively update_step (written tr)"
  using crashed_history supervision_path by blast

lemma supervision_recovers_witness:
  "\<exists>d tr. supervision False d tr \<and> written tr = [STAGING, APPLYING] \<and>
     dk_request (launch_and_pass (sample_host True) False d tr) = None"
  using crashed_history supervision_recovers by blast

text \<open>
  Two consequences of the reconciliation at startup. A request that is submitted while the supervisor is down
  is answered with FAILED and dropped. And an update whose application was interrupted is not rolled back: the
  service stays on the new image, which is not persisted.
\<close>

definition requested_disk :: disk where
  "requested_disk = (sample_disk ''1.1.0'')\<lparr>dk_status :=
     Some \<lparr>us_state = REQUESTED, us_current_version = ''1.0.0'', us_request_id = Some ''r1'', us_target_version = Some ''1.1.0'',
       us_progress = 10, us_message = [], us_error = None, us_rollback_performed = False\<rparr>\<rparr>"

lemma requested_while_down_dropped:
  "(let tr = run_loop (sample_host True) requested_disk 1
    in written tr = [FAILED] \<and> pulled tr = [] \<and> dk_request (apply_events tr requested_disk) = None)"
  by code_simp

lemma interrupted_update_not_rolled_back:
  "(let h = sample_host True; tr = take 4 (snd (process_pending_request h (sample_disk ''1.1.0'') []));
        d = apply_events tr (sample_disk ''1.1.0'');
        tr' = snd (reconcile_startup_state (h\<lparr>h_live_version := (\<lambda>tr. None)\<rparr>) d tr)
    in written tr' = [STAGING, APPLYING, FAILED] \<and> recreated tr' = [''altr-stream:1.1.0''] \<and> persisted tr' = [])"
  by code_simp

text \<open>
  A request that is submitted while a pass is under way is lost: the pass removes it with its own, and its
  status. Here it comes just before the removal, and the status file is left REQUESTED without any request.
\<close>

lemma late_submission_lost:
  "(let tr = snd (process_pending_request (sample_host True) (sample_disk ''1.1.0'') []);
        late = SubmitRequest (Request (sample_request ''1.2.0'')) (the (dk_status requested_disk));
        d = apply_events (butlast tr @ [late, RemoveRequest]) (sample_disk ''1.1.0'')
    in last tr = RemoveRequest \<and> dk_request d = None \<and> map_option us_state (dk_status d) = Some REQUESTED)"
  by code_simp

end
