(* ===== verification/Statement_Split.thy ===== *)
theory Statement_Split
  imports Ast "HOL-Library.Sublist"
begin

text \<open>
  The gate of the query playground (\<open>domain/query_validation.py\<close>): the removal of SQL comments, the splitting
  of a text into statements, and \<open>validate_query\<close>, which lets a single statement through. An index into the
  text is the rest of the text. The property: the gate lets through a text that splits into itself only.
\<close>

section \<open>Comments\<close>

text \<open>The text after the first \<open>*/\<close>.\<close>

fun after_block :: "string \<Rightarrow> string option" where
  "after_block [] = None"
| "after_block (c # t) =
     (if c = CHR ''*'' \<and> t \<noteq> [] \<and> hd t = CHR ''/'' then Some (tl t) else after_block t)"

lemma after_block_shorter: "after_block s = Some u \<Longrightarrow> length u < length s"
proof (induction s)
  case (Cons c t)
  then show ?case by (cases t) (auto split: if_splits)
qed simp

text \<open>\<open>re.sub(r"/\*[\s\S]*?\*/", " ", sql)\<close>: a comment that is not closed stays.\<close>

function strip_blocks :: "string \<Rightarrow> string" where
  "strip_blocks [] = []"
| "strip_blocks (c # t) =
     (case (if c = CHR ''/'' \<and> t \<noteq> [] \<and> hd t = CHR ''*'' then after_block (tl t) else None) of
        Some u \<Rightarrow> CHR '' '' # strip_blocks u
      | None \<Rightarrow> c # strip_blocks t)"
  by pat_completeness auto
termination
proof (relation "measure length")
  fix c :: char and t u
  assume "(if c = CHR ''/'' \<and> t \<noteq> [] \<and> hd t = CHR ''*'' then after_block (tl t) else None) = Some u"
  then have "length u < length (tl t)" by (auto split: if_splits dest: after_block_shorter)
  then show "(u, c # t) \<in> measure length" by simp
qed simp_all

text \<open>\<open>re.sub(r"--[^\n]*", " ", sql)\<close>.\<close>

function strip_lines :: "string \<Rightarrow> string" where
  "strip_lines [] = []"
| "strip_lines (c # t) =
     (if c = CHR ''-'' \<and> t \<noteq> [] \<and> hd t = CHR ''-''
      then CHR '' '' # strip_lines (dropWhile (\<lambda>x. x \<noteq> CHR 0x0A) t)
      else c # strip_lines t)"
  by pat_completeness auto
termination
  by (relation "measure length") (auto simp: le_imp_less_Suc length_dropWhile_le)

definition strip_sql_comments :: "string \<Rightarrow> string" where
  "strip_sql_comments sql = py_strip (strip_lines (strip_blocks sql))"

section \<open>Splitting\<close>

text \<open>The flags of the loop, of which at most one is set.\<close>

datatype scan_mode =
    Outside
  | InSingleQuote
  | InDoubleQuote
  | InDollarQuote string
  | InLineComment
  | InBlockComment

definition tag_start :: "char \<Rightarrow> bool" where
  "tag_start c \<longleftrightarrow> (65 \<le> ord c \<and> ord c \<le> 90) \<or> (97 \<le> ord c \<and> ord c \<le> 122) \<or> c = CHR ''_''"

definition tag_char :: "char \<Rightarrow> bool" where
  "tag_char c \<longleftrightarrow> tag_start c \<or> (48 \<le> ord c \<and> ord c \<le> 57)"

text \<open>\<open>re.match(r"^\$([A-Za-z_][A-Za-z0-9_]*)?\$", s)\<close>: the matched text.\<close>

definition dollar_tag :: "string \<Rightarrow> string option" where
  "dollar_tag s =
     (case s of
        [] \<Rightarrow> None
      | c # t \<Rightarrow>
          (let name = takeWhile tag_char t; after = dropWhile tag_char t in
           if c = CHR ''$'' \<and> (name = [] \<or> tag_start (hd name)) \<and> after \<noteq> [] \<and> hd after = CHR ''$''
           then Some (c # name @ ''$'') else None))"

text \<open>
  One turn of the loop before a text \<open>c # t\<close>, but for a semicolon outside: what it appends, which is how far
  it moves, and the flags after it. A tag is never empty.
\<close>

definition next_is :: "char \<Rightarrow> string \<Rightarrow> bool" where
  "next_is c t \<longleftrightarrow> t \<noteq> [] \<and> hd t = c"

fun scan_turn :: "scan_mode \<Rightarrow> char \<Rightarrow> string \<Rightarrow> string \<times> scan_mode" where
  "scan_turn InLineComment c t = ([c], if c = CHR 0x0A then Outside else InLineComment)"
| "scan_turn InBlockComment c t =
     (if c = CHR ''*'' \<and> next_is CHR ''/'' t then ([c, CHR ''/''], Outside) else ([c], InBlockComment))"
| "scan_turn InSingleQuote c t =
     (if c = CHR 0x27 then (if next_is CHR 0x27 t then ([c, CHR 0x27], InSingleQuote) else ([c], Outside))
      else ([c], InSingleQuote))"
| "scan_turn InDoubleQuote c t =
     (if c = CHR 0x22 then (if next_is CHR 0x22 t then ([c, CHR 0x22], InDoubleQuote) else ([c], Outside))
      else ([c], InDoubleQuote))"
| "scan_turn (InDollarQuote tag) c t =
     (if c = CHR ''$'' \<and> tag \<noteq> [] \<and> prefix tag (c # t) then (tag, Outside) else ([c], InDollarQuote tag))"
| "scan_turn Outside c t =
     (if c = CHR ''-'' \<and> next_is CHR ''-'' t then ([c, CHR ''-''], InLineComment)
      else if c = CHR ''/'' \<and> next_is CHR ''*'' t then ([c, CHR ''*''], InBlockComment)
      else if c = CHR 0x27 then ([c], InSingleQuote)
      else if c = CHR 0x22 then ([c], InDoubleQuote)
      else case dollar_tag (c # t) of
             Some tag \<Rightarrow> (tag, InDollarQuote tag)
           | None \<Rightarrow> ([c], Outside))"

lemma next_is_append: "next_is c t \<longleftrightarrow> (\<exists>u. t = c # u)"
  by (cases t) (auto simp: next_is_def)

lemma dollar_tag_prefix:
  assumes "dollar_tag (c # t) = Some tag"
  shows "\<exists>u. c # t = tag @ u" "\<exists>v. tag = c # v"
proof -
  let ?name = "takeWhile tag_char t" and ?after = "dropWhile tag_char t"
  have tag: "tag = c # ?name @ ''$''" and "?after \<noteq> []" "hd ?after = CHR ''$''"
    using assms by (auto simp: dollar_tag_def Let_def split: if_splits)
  then have "?after = CHR ''$'' # tl ?after" by (cases ?after) simp_all
  then have "t = ?name @ ''$'' @ tl ?after" using takeWhile_dropWhile_id [of tag_char t] by (metis append_Cons append_Nil)
  then show "\<exists>u. c # t = tag @ u" "\<exists>v. tag = c # v" by (auto simp: tag)
qed

lemma scan_turn_prefix: "scan_turn m c t = (chunk, m') \<Longrightarrow> \<exists>u v. c # t = chunk @ u \<and> chunk = c # v"
proof (cases m)
  case (InDollarQuote tag)
  assume "scan_turn m c t = (chunk, m')"
  with InDollarQuote show ?thesis by (cases tag) (auto simp: prefix_def split: if_splits)
next
  case Outside
  assume "scan_turn m c t = (chunk, m')"
  with Outside show ?thesis
    using dollar_tag_prefix [of c t chunk] by (auto simp: next_is_append split: if_splits option.splits)
qed (auto simp: next_is_append split: if_splits)

text \<open>The loop: \<open>current\<close> is what was appended since the last statement.\<close>

definition flush_statement :: "string \<Rightarrow> string list" where
  "flush_statement current = (if py_strip current = [] then [] else [py_strip current])"

function split_loop :: "scan_mode \<Rightarrow> string \<Rightarrow> string \<Rightarrow> string list" where
  "split_loop m current [] = flush_statement current"
| "split_loop m current (c # t) =
     (if m = Outside \<and> c = CHR '';'' then flush_statement current @ split_loop Outside [] t
      else split_loop (snd (scan_turn m c t)) (current @ fst (scan_turn m c t)) (drop (length (fst (scan_turn m c t))) (c # t)))"
  by pat_completeness auto
termination
proof (relation "measure (\<lambda>(m, current, s). length s)")
  fix m c t and current :: string
  obtain v where "fst (scan_turn m c t) = c # v" using scan_turn_prefix [of m c t] by (metis surjective_pairing)
  then show "((snd (scan_turn m c t), current @ fst (scan_turn m c t), drop (length (fst (scan_turn m c t))) (c # t)), m, current, c # t)
      \<in> measure (\<lambda>(m, current, s). length s)" by simp
qed simp_all

definition split_sql_statements :: "string \<Rightarrow> string list" where
  "split_sql_statements sql = filter (\<lambda>s. strip_sql_comments s \<noteq> []) (split_loop Outside [] sql)"

section \<open>The gate\<close>

datatype native_error = QueryEmpty | MultiStatement

definition validate_query :: "string \<Rightarrow> native_error + string" where
  "validate_query query =
     (if query = [] \<or> py_strip query = [] then Inl QueryEmpty
      else if strip_sql_comments query = [] then Inl QueryEmpty
      else case split_sql_statements query of
        [] \<Rightarrow> Inl QueryEmpty
      | [s] \<Rightarrow> Inr (py_strip s)
      | _ \<Rightarrow> Inl MultiStatement)"

section \<open>A statement does not split again\<close>

text \<open>\<open>whole m s\<close>: the loop goes through the text from the flags \<open>m\<close> without a semicolon outside.\<close>

function whole :: "scan_mode \<Rightarrow> string \<Rightarrow> bool" where
  "whole m [] \<longleftrightarrow> True"
| "whole m (c # t) \<longleftrightarrow>
     \<not> (m = Outside \<and> c = CHR '';'') \<and>
     whole (snd (scan_turn m c t)) (drop (length (fst (scan_turn m c t))) (c # t))"
  by pat_completeness auto
termination
proof (relation "measure (\<lambda>(m, s). length s)")
  fix m c t
  obtain v where "fst (scan_turn m c t) = c # v" using scan_turn_prefix [of m c t] by (metis surjective_pairing)
  then show "((snd (scan_turn m c t), drop (length (fst (scan_turn m c t))) (c # t)), m, c # t) \<in> measure (\<lambda>(m, s). length s)"
    by simp
qed simp_all

lemma scan_turn_split:
  obtains chunk m' v where "scan_turn m c t = (c # chunk, m')" "t = chunk @ v"
  using scan_turn_prefix [of m c t] by (cases "scan_turn m c t") auto

lemma split_whole: "whole m s \<Longrightarrow> split_loop m current s = flush_statement (current @ s)"
proof (induction m s arbitrary: current rule: whole.induct)
  case (2 m c t)
  obtain chunk m' v where turn: "scan_turn m c t = (c # chunk, m')" "t = chunk @ v" by (rule scan_turn_split)
  with 2 show ?case by (cases "m = Outside \<and> c = CHR '';''") auto
qed simp

text \<open>
  A text is cut where a statement or its white space ends: the character after the cut ends no pair and no
  tag, so that no turn before it looks beyond.
\<close>

definition cuts :: "char \<Rightarrow> bool" where
  "cuts c \<longleftrightarrow> c = CHR '';'' \<or> py_isspace c"

fun tag_of :: "scan_mode \<Rightarrow> string" where
  "tag_of (InDollarQuote tag) = tag"
| "tag_of _ = []"

lemma cuts_other: "cuts x \<Longrightarrow> \<not> tag_char x \<and> x \<notin> {CHR ''$'', CHR ''-'', CHR ''/'', CHR ''*'', CHR 0x27, CHR 0x22}"
  by (auto simp: cuts_def tag_char_def tag_start_def py_isspace_def)

lemma next_is_cut: "cuts x \<Longrightarrow> c \<in> {CHR ''-'', CHR ''/'', CHR ''*'', CHR 0x27, CHR 0x22} \<Longrightarrow> next_is c (t @ x # r) = next_is c t"
  using cuts_other by (cases t) (auto simp: next_is_def)

lemma dollar_tag_cut:
  assumes "cuts x"
  shows "dollar_tag (c # t @ x # r) = dollar_tag (c # t)"
proof -
  have x: "\<not> tag_char x" "x \<noteq> CHR ''$''" using cuts_other [OF assms] by auto
  have "takeWhile tag_char (t @ x # r) = takeWhile tag_char t" "dropWhile tag_char (t @ x # r) = dropWhile tag_char t @ x # r"
    using x(1) by (induction t) auto
  with x(2) show ?thesis by (auto simp: dollar_tag_def Let_def hd_append)
qed

lemma prefix_cut: "x \<notin> set tag \<Longrightarrow> prefix tag (s @ x # r) = prefix tag s"
proof (induction tag arbitrary: s)
  case (Cons a tag)
  then show ?case by (cases s) auto
qed simp

lemma scan_turn_cut:
  assumes "cuts x" "x \<notin> set (tag_of m)"
  shows "scan_turn m c (t @ x # r) = scan_turn m c t"
  using assms(2) prefix_cut [of x "tag_of m" "c # t" r]
  by (cases m) (simp_all add: next_is_cut [OF assms(1)] dollar_tag_cut [OF assms(1)])

lemma tag_chars:
  assumes "dollar_tag s = Some tag" "cuts x"
  shows "x \<notin> set tag"
  using assms cuts_other [OF assms(2)]
  by (cases s) (auto simp: dollar_tag_def Let_def dest!: set_takeWhileD split: if_splits)

lemma tag_stays:
  assumes "cuts x" "x \<notin> set (tag_of m)"
  shows "x \<notin> set (tag_of (snd (scan_turn m c t)))"
  using assms tag_chars [OF _ assms(1)] by (cases m) (auto split: option.split)

lemma whole_cut: "whole m (s @ x # r) \<Longrightarrow> cuts x \<Longrightarrow> x \<notin> set (tag_of m) \<Longrightarrow> whole m s"
proof (induction m s rule: whole.induct)
  case (2 m c t)
  obtain chunk m' v where turn: "scan_turn m c t = (c # chunk, m')" "t = chunk @ v" by (rule scan_turn_split)
  have "scan_turn m c (t @ x # r) = (c # chunk, m')" using turn(1) 2(3,4) by (simp add: scan_turn_cut)
  with 2 turn tag_stays [of x m c t] show ?case by simp
qed simp

lemma cuts_space: "py_isspace x \<Longrightarrow> cuts x"
  by (simp add: cuts_def)

lemma space_turn: "py_isspace c \<Longrightarrow> scan_turn Outside c t = ([c], Outside)"
  using cuts_other [OF cuts_space, of c] by (auto simp: dollar_tag_def)

lemma whole_lstrip: "whole Outside s \<Longrightarrow> whole Outside (dropWhile py_isspace s)"
  by (induction s) (auto simp: space_turn simp del: scan_turn.simps)

lemma whole_strip:
  assumes "whole Outside s"
  shows "whole Outside (py_strip s)"
proof -
  let ?t = "dropWhile py_isspace s" and ?u = "dropWhile py_isspace (rev (dropWhile py_isspace s))"
  have t: "?t = rev ?u @ rev (takeWhile py_isspace (rev ?t))"
    by (metis rev_append rev_rev_ident takeWhile_dropWhile_id)
  have "whole Outside (rev ?u)"
  proof (cases "rev (takeWhile py_isspace (rev ?t))")
    case Nil
    then show ?thesis using t whole_lstrip [OF assms] by simp
  next
    case (Cons x r)
    then have "py_isspace x" by (metis list.set_intros(1) set_rev set_takeWhileD)
    moreover have "whole Outside (rev ?u @ x # r)" using t Cons whole_lstrip [OF assms] by simp
    ultimately show ?thesis using whole_cut cuts_space by fastforce
  qed
  then show ?thesis by (simp add: py_strip_def py_lstrip_def)
qed

lemma strip_strip: "py_strip (py_strip s) = py_strip s"
proof -
  have idem: "dropWhile py_isspace (dropWhile py_isspace u) = dropWhile py_isspace u" for u by (induction u) auto
  let ?t = "dropWhile py_isspace s"
  have first: "dropWhile py_isspace (rev (dropWhile py_isspace (rev ?t))) = rev (dropWhile py_isspace (rev ?t))"
  proof (cases "rev (dropWhile py_isspace (rev ?t))")
    case (Cons c u)
    obtain w where "?t = rev (dropWhile py_isspace (rev ?t)) @ w"
      by (metis rev_append rev_rev_ident takeWhile_dropWhile_id)
    then have t: "?t = c # u @ w" using Cons by simp
    then have "\<not> py_isspace c" using hd_dropWhile [of py_isspace s] by (metis list.distinct(1) list.sel(1))
    then show ?thesis by (simp add: Cons)
  qed (simp only: dropWhile.simps)
  show ?thesis by (simp add: py_strip_def py_lstrip_def first idem)
qed

text \<open>Every statement is the stripped text of a piece that is whole.\<close>

lemma split_pieces:
  assumes "\<forall>x. cuts x \<longrightarrow> x \<notin> set (tag_of m)" "u \<in> set (split_loop m current s)"
  shows "(\<exists>w r. s = w @ r \<and> (r = [] \<or> (\<exists>r'. r = CHR '';'' # r')) \<and> whole m w \<and> u = py_strip (current @ w)) \<or>
    (\<exists>w. sublist w s \<and> whole Outside w \<and> u = py_strip w)"
  using assms
proof (induction m current s rule: split_loop.induct)
  case (1 m current)
  then show ?case by (auto simp: flush_statement_def split: if_splits)
next
  case (2 m current c t)
  show ?case
  proof (cases "m = Outside \<and> c = CHR '';''")
    case True
    then consider "u \<in> set (flush_statement current)" | "u \<in> set (split_loop Outside [] t)" using 2(4) by auto
    then show ?thesis
    proof cases
      case 1
      then show ?thesis using True
        by (intro disjI1 exI [of _ "[]"] exI [of _ "c # t"]) (auto simp: flush_statement_def split: if_splits)
    next
      case 2
      then obtain w where "sublist w t" "whole Outside w" "u = py_strip w" using "2.IH"(1) [OF True] by auto
      then show ?thesis by (auto intro: sublist_Cons_right [THEN iffD2])
    qed
  next
    case False
    obtain chunk m' v where turn: "scan_turn m c t = (c # chunk, m')" "t = chunk @ v" by (rule scan_turn_split)
    have "\<forall>x. cuts x \<longrightarrow> x \<notin> set (tag_of m')" using tag_stays [of _ m c t] 2(3) turn(1) by auto
    moreover have "u \<in> set (split_loop m' (current @ c # chunk) v)" using 2(4) False turn by simp
    ultimately consider w r where "v = w @ r" "r = [] \<or> (\<exists>r'. r = CHR '';'' # r')" "whole m' w" "u = py_strip (current @ c # chunk @ w)"
      | w where "sublist w v" "whole Outside w" "u = py_strip w"
      using "2.IH"(2) [OF False] turn by auto
    then show ?thesis
    proof cases
      case 1
      have "scan_turn m c (chunk @ w) = (c # chunk, m')"
      proof (cases r)
        case Nil
        then show ?thesis using turn 1(1) by simp
      next
        case (Cons x r')
        then have "x = CHR '';''" using 1(2) by simp
        then have "scan_turn m c ((chunk @ w) @ x # r') = scan_turn m c (chunk @ w)"
          using 2(3) by (intro scan_turn_cut) (simp_all add: cuts_def)
        then show ?thesis using turn 1(1) Cons by simp
      qed
      then have "whole m (c # chunk @ w)" using 1(3) False by simp
      with 1 turn(2) show ?thesis by (intro disjI1 exI [of _ "c # chunk @ w"] exI [of _ r]) simp
    next
      case 2
      then have "sublist w (c # t)" using turn(2) by (auto intro: sublist_Cons_right [THEN iffD2] sublist_append [THEN iffD2])
      with 2 show ?thesis by blast
    qed
  qed
qed

lemma strip_sublist: "sublist (py_strip s) s"
proof -
  let ?t = "dropWhile py_isspace s"
  have "?t = rev (dropWhile py_isspace (rev ?t)) @ rev (takeWhile py_isspace (rev ?t))"
    by (metis rev_append rev_rev_ident takeWhile_dropWhile_id)
  then have "s = takeWhile py_isspace s @ py_strip s @ rev (takeWhile py_isspace (rev ?t))"
    unfolding py_strip_def py_lstrip_def by (metis takeWhile_dropWhile_id)
  then show ?thesis by (metis sublist_appendI)
qed

lemma sublist_within: "sublist u w \<Longrightarrow> sublist w s \<Longrightarrow> sublist u s"
  by (rule sublist_order.order_trans)

lemma statement_whole:
  assumes "u \<in> set (split_sql_statements s)"
  shows "split_sql_statements u = [u]" "py_strip u = u" "u \<noteq> []" "whole Outside u" "sublist u s"
proof -
  have u: "u \<in> set (split_loop Outside [] s)" "strip_sql_comments u \<noteq> []"
    using assms by (simp_all add: split_sql_statements_def)
  from split_pieces [OF _ u(1)] obtain w where w: "whole Outside w" "u = py_strip w" "sublist w s" by auto
  then show strip: "py_strip u = u" by (simp add: strip_strip)
  show whole: "whole Outside u" using whole_strip [OF w(1)] w(2) by simp
  show "sublist u s" using strip_sublist w(2,3) sublist_within by blast
  have "strip_sql_comments [] = []" by (simp add: strip_sql_comments_def py_strip_def py_lstrip_def)
  then show "u \<noteq> []" using u(2) by metis
  then have "split_loop Outside [] u = [u]"
    using split_whole [OF whole, of "[]"] strip by (simp add: flush_statement_def)
  then show "split_sql_statements u = [u]" using u(2) by (simp add: split_sql_statements_def)
qed

section \<open>The lexical structure of one statement\<close>

text \<open>
  What the docstring of \<open>split_sql_statements\<close> says, without flags and positions: a text is one statement if it
  is made of plain characters other than a semicolon, texts in single or double quotes in which the quote is
  doubled, dollar quotes up to the first repetition of their tag, line comments up to the end of the line, and block
  comments up to the first \<open>*/\<close>; only the last part may be left open. A plain character starts none of the others.
\<close>

definition dollar_name :: "string \<Rightarrow> bool" where
  "dollar_name name \<longleftrightarrow> (case name of [] \<Rightarrow> True | c # cs \<Rightarrow> tag_start c \<and> list_all tag_char cs)"

definition opens_dollar :: "string \<Rightarrow> bool" where
  "opens_dollar s \<longleftrightarrow> (\<exists>name. dollar_name name \<and> prefix (''$'' @ name @ ''$'') s)"

definition doubled :: "char \<Rightarrow> string \<Rightarrow> string" where
  "doubled q body = concat (map (\<lambda>c. if c = q then [q, q] else [c]) body)"

definition ends_first :: "string \<Rightarrow> string \<Rightarrow> bool" where
  "ends_first mark body \<longleftrightarrow> (\<forall>k < length body. \<not> prefix mark (drop k (body @ mark)))"

inductive one_statement :: "string \<Rightarrow> bool" where
  nothing: "one_statement []"
| plain: "c \<notin> {CHR '';'', CHR 0x27, CHR 0x22} \<Longrightarrow> \<not> prefix ''--'' (c # t) \<Longrightarrow> \<not> prefix ''/*'' (c # t) \<Longrightarrow>
    \<not> opens_dollar (c # t) \<Longrightarrow> one_statement t \<Longrightarrow> one_statement (c # t)"
| quoted: "q \<in> {CHR 0x27, CHR 0x22} \<Longrightarrow> \<not> prefix [q] t \<Longrightarrow> one_statement t \<Longrightarrow> one_statement (q # doubled q body @ q # t)"
| open_quoted: "q \<in> {CHR 0x27, CHR 0x22} \<Longrightarrow> one_statement (q # doubled q body)"
| dollar: "dollar_name name \<Longrightarrow> tag = ''$'' @ name @ ''$'' \<Longrightarrow> ends_first tag body \<Longrightarrow> one_statement t \<Longrightarrow>
    one_statement (tag @ body @ tag @ t)"
| open_dollar: "dollar_name name \<Longrightarrow> tag = ''$'' @ name @ ''$'' \<Longrightarrow> \<not> sublist tag body \<Longrightarrow> one_statement (tag @ body)"
| line: "CHR 0x0A \<notin> set body \<Longrightarrow> one_statement t \<Longrightarrow> one_statement (''--'' @ body @ CHR 0x0A # t)"
| open_line: "CHR 0x0A \<notin> set body \<Longrightarrow> one_statement (''--'' @ body)"
| block: "ends_first ''*/'' body \<Longrightarrow> one_statement t \<Longrightarrow> one_statement (''/*'' @ body @ ''*/'' @ t)"
| open_block: "\<not> sublist ''*/'' body \<Longrightarrow> one_statement (''/*'' @ body)"

lemma doubled_Cons: "doubled q (c # body) = (if c = q then [q, q] else [c]) @ doubled q body"
  by (simp add: doubled_def)

lemma ends_first_Nil: "ends_first mark []"
  by (simp add: ends_first_def)

lemma ends_first_Cons:
  "ends_first mark (c # body) \<longleftrightarrow> \<not> prefix mark (c # body @ mark) \<and> ends_first mark body"
  unfolding ends_first_def by (auto simp: less_Suc_eq_0_disj)

text \<open>The rest of a text that is whole inside a quote or a comment.\<close>

lemma whole_line:
  "whole InLineComment s \<Longrightarrow> CHR 0x0A \<notin> set s \<or>
   (\<exists>body t. s = body @ CHR 0x0A # t \<and> CHR 0x0A \<notin> set body \<and> whole Outside t)"
proof (induction s)
  case (Cons c s)
  show ?case
  proof (cases "c = CHR 0x0A")
    case True
    with Cons.prems show ?thesis by (intro disjI2 exI [of _ "[]"] exI [of _ s]) simp
  next
    case False
    with Cons consider "CHR 0x0A \<notin> set s" | body t where "s = body @ CHR 0x0A # t" "CHR 0x0A \<notin> set body" "whole Outside t"
      by auto
    then show ?thesis
    proof cases
      case 2
      with False show ?thesis by (intro disjI2 exI [of _ "c # body"] exI [of _ t]) simp
    qed (use False in simp)
  qed
qed simp

lemma whole_block:
  "whole InBlockComment s \<Longrightarrow> \<not> sublist ''*/'' s \<or>
   (\<exists>body t. s = body @ ''*/'' @ t \<and> ends_first ''*/'' body \<and> whole Outside t)"
proof (induction s)
  case (Cons c s)
  show ?case
  proof (cases "c = CHR ''*'' \<and> next_is CHR ''/'' s")
    case True
    with Cons.prems show ?thesis
      by (intro disjI2 exI [of _ "[]"] exI [of _ "tl s"]) (auto simp: next_is_append ends_first_Nil)
  next
    case False
    then have no: "\<not> prefix ''*/'' (c # s)" by (cases s) (auto simp: next_is_def)
    from False Cons consider "\<not> sublist ''*/'' s"
      | body t where "s = body @ ''*/'' @ t" "ends_first ''*/'' body" "whole Outside t" by auto
    then show ?thesis
    proof cases
      case 1
      with no show ?thesis by (auto simp: sublist_Cons_right)
    next
      case 2
      with no have "ends_first ''*/'' (c # body)" by (cases body) (auto simp: ends_first_Cons)
      with 2 show ?thesis by (intro disjI2 exI [of _ "c # body"] exI [of _ t]) simp
    qed
  qed
qed (simp add: sublist_Nil_right)

lemma whole_dollar:
  assumes "tag = CHR ''$'' # r"
  shows "whole (InDollarQuote tag) s \<Longrightarrow> \<not> sublist tag s \<or>
   (\<exists>body t. s = body @ tag @ t \<and> ends_first tag body \<and> whole Outside t)"
proof (induction s)
  case (Cons c s)
  show ?case
  proof (cases "prefix tag (c # s)")
    case True
    then obtain t where t: "c # s = tag @ t" by (auto simp: prefix_def)
    with Cons.prems True assms show ?thesis
      by (intro disjI2 exI [of _ "[]"] exI [of _ t]) (simp add: ends_first_Nil)
  next
    case False
    from False Cons consider "\<not> sublist tag s"
      | body t where "s = body @ tag @ t" "ends_first tag body" "whole Outside t" by auto
    then show ?thesis
    proof cases
      case 1
      with False show ?thesis by (auto simp: sublist_Cons_right)
    next
      case 2
      have "\<not> prefix tag (c # body @ tag)"
      proof
        assume "prefix tag (c # body @ tag)"
        then have "prefix tag ((c # body @ tag) @ t)" by (rule prefix_prefix)
        with False 2(1) show False by simp
      qed
      with 2 show ?thesis by (intro disjI2 exI [of _ "c # body"] exI [of _ t]) (simp add: ends_first_Cons)
    qed
  qed
qed (use assms in simp)

lemma whole_quote:
  assumes "m = InSingleQuote \<and> q = CHR 0x27 \<or> m = InDoubleQuote \<and> q = CHR 0x22" "whole m s"
  shows "(\<exists>body. s = doubled q body) \<or> (\<exists>body t. s = doubled q body @ q # t \<and> \<not> prefix [q] t \<and> whole Outside t)"
  using assms(2)
proof (induction s rule: length_induct)
  case (1 s)
  show ?case
  proof (cases s)
    case (Cons c t)
    consider (twice) u where "c = q" "t = q # u" | (close) "c = q" "\<not> prefix [q] t" | (other) "c \<noteq> q"
      by (cases t) auto
    then show ?thesis
    proof cases
      case twice
      then have "whole m u" using 1(2) assms(1) Cons by (auto simp: next_is_def)
      with 1(1) twice Cons have "(\<exists>body. u = doubled q body) \<or>
          (\<exists>body t. u = doubled q body @ q # t \<and> \<not> prefix [q] t \<and> whole Outside t)" by simp
      then show ?thesis
      proof (elim disjE exE conjE)
        fix body assume "u = doubled q body"
        with twice Cons show ?thesis by (intro disjI1 exI [of _ "q # body"]) (simp add: doubled_Cons)
      next
        fix body t' assume "u = doubled q body @ q # t'" "\<not> prefix [q] t'" "whole Outside t'"
        with twice Cons show ?thesis by (intro disjI2 exI [of _ "q # body"] exI [of _ t']) (simp add: doubled_Cons)
      qed
    next
      case close
      then have "\<not> next_is q t" by (cases t) (auto simp: next_is_def)
      then have "whole Outside t" using 1(2) assms(1) Cons close(1) by auto
      with close Cons show ?thesis by (intro disjI2 exI [of _ "[]"] exI [of _ t]) (simp add: doubled_def)
    next
      case other
      then have "whole m t" using 1(2) assms(1) Cons by auto
      with 1(1) Cons have "(\<exists>body. t = doubled q body) \<or>
          (\<exists>body u. t = doubled q body @ q # u \<and> \<not> prefix [q] u \<and> whole Outside u)" by simp
      then show ?thesis
      proof (elim disjE exE conjE)
        fix body assume "t = doubled q body"
        with other Cons show ?thesis by (intro disjI1 exI [of _ "c # body"]) (simp add: doubled_Cons)
      next
        fix body u assume "t = doubled q body @ q # u" "\<not> prefix [q] u" "whole Outside u"
        with other Cons show ?thesis by (intro disjI2 exI [of _ "c # body"] exI [of _ u]) (simp add: doubled_Cons)
      qed
    qed
  qed (auto intro: exI [of _ "[]"] simp: doubled_def)
qed

lemma dollar_tag_Some: "dollar_tag s = Some tag \<Longrightarrow> \<exists>name. dollar_name name \<and> tag = ''$'' @ name @ ''$''"
proof (cases s)
  case (Cons c t)
  assume "dollar_tag s = Some tag"
  then have "tag = ''$'' @ takeWhile tag_char t @ ''$''" "takeWhile tag_char t = [] \<or> tag_start (hd (takeWhile tag_char t))"
    using Cons by (auto simp: dollar_tag_def Let_def split: if_splits)
  moreover have "list_all tag_char (takeWhile tag_char t)" by (auto simp: list_all_iff dest: set_takeWhileD)
  ultimately show ?thesis
    by (intro exI [of _ "takeWhile tag_char t"]) (auto simp: dollar_name_def split: list.split)
qed (simp add: dollar_tag_def)

lemma dollar_tag_None: "dollar_tag s = None \<Longrightarrow> \<not> opens_dollar s"
proof
  assume none: "dollar_tag s = None" and "opens_dollar s"
  then obtain name u where name: "dollar_name name" "s = CHR ''$'' # name @ CHR ''$'' # u"
    by (auto simp: opens_dollar_def prefix_def)
  have all: "list_all tag_char name" using name(1) by (cases name) (auto simp: dollar_name_def tag_char_def)
  have "\<not> tag_char CHR ''$''" by (simp add: tag_char_def tag_start_def)
  then have "takeWhile tag_char (name @ CHR ''$'' # u) = name" "dropWhile tag_char (name @ CHR ''$'' # u) = CHR ''$'' # u"
    using all by (auto simp: list_all_iff)
  with none name show False by (cases name) (auto simp: dollar_tag_def Let_def dollar_name_def split: if_splits)
qed

lemma whole_one_statement: "whole Outside s \<Longrightarrow> one_statement s"
proof (induction s rule: length_induct)
  case (1 s)
  note IH = 1(1) [rule_format]
  show ?case
  proof (cases s)
    case Nil
    then show ?thesis by (simp add: one_statement.nothing)
  next
    case (Cons c t)
    have semi: "c \<noteq> CHR '';''" and rest_whole: "whole (snd (scan_turn Outside c t)) (drop (length (fst (scan_turn Outside c t))) (c # t))"
      using 1(2) Cons by simp_all
    consider (line) u where "c = CHR ''-''" "t = CHR ''-'' # u" | (block) u where "c = CHR ''/''" "t = CHR ''*'' # u"
      | (quote) "c \<in> {CHR 0x27, CHR 0x22}"
      | (other) "\<not> (c = CHR ''-'' \<and> next_is CHR ''-'' t)" "\<not> (c = CHR ''/'' \<and> next_is CHR ''*'' t)" "c \<notin> {CHR 0x27, CHR 0x22}"
      by (auto simp: next_is_append)
    then show ?thesis
    proof cases
      case line
      then have "whole InLineComment u" using rest_whole by (simp add: next_is_def)
      from whole_line [OF this] show ?thesis
      proof (elim disjE exE conjE)
        assume "CHR 0x0A \<notin> set u"
        then show ?thesis using one_statement.open_line [of u] line Cons by simp
      next
        fix body v assume v: "u = body @ CHR 0x0A # v" "CHR 0x0A \<notin> set body" "whole Outside v"
        then have "one_statement v" using IH [of v] line Cons by simp
        then show ?thesis using one_statement.line [OF v(2), of v] v(1) line Cons by simp
      qed
    next
      case block
      then have "whole InBlockComment u" using rest_whole by (simp add: next_is_def)
      from whole_block [OF this] show ?thesis
      proof (elim disjE exE conjE)
        assume "\<not> sublist ''*/'' u"
        then show ?thesis using one_statement.open_block [of u] block Cons by simp
      next
        fix body v assume v: "u = body @ ''*/'' @ v" "ends_first ''*/'' body" "whole Outside v"
        then have "one_statement v" using IH [of v] block Cons by simp
        then show ?thesis using one_statement.block [OF v(2), of v] v(1) block Cons by simp
      qed
    next
      case quote
      then obtain m where m: "m = InSingleQuote \<and> c = CHR 0x27 \<or> m = InDoubleQuote \<and> c = CHR 0x22" "whole m t"
        using rest_whole by (elim insertE emptyE) (simp_all add: dollar_tag_def)
      from whole_quote [OF m] show ?thesis
      proof (elim disjE exE conjE)
        fix body assume "t = doubled c body"
        then show ?thesis using one_statement.open_quoted [OF quote, of body] Cons by simp
      next
        fix body v assume v: "t = doubled c body @ c # v" "\<not> prefix [c] v" "whole Outside v"
        then have "one_statement v" using IH [of v] Cons by simp
        then show ?thesis using one_statement.quoted [OF quote v(2), of body] v(1) Cons by simp
      qed
    next
      case other
      have no: "\<not> prefix ''--'' (c # t)" "\<not> prefix ''/*'' (c # t)"
        using other(1,2) by (auto simp: next_is_append prefix_def)
      show ?thesis
      proof (cases "dollar_tag (c # t)")
        case None
        then have "whole Outside t" using rest_whole other by simp
        then have "one_statement t" using IH [of t] Cons by simp
        then show ?thesis using one_statement.plain [OF _ no dollar_tag_None [OF None]] semi other(3) Cons by simp
      next
        case (Some tag)
        then obtain u where u: "c # t = tag @ u" using dollar_tag_prefix(1) by blast
        then have in_tag: "whole (InDollarQuote tag) u" using rest_whole other Some by simp
        obtain name where name: "dollar_name name" "tag = ''$'' @ name @ ''$''" using dollar_tag_Some [OF Some] by blast
        have "tag = CHR ''$'' # (name @ ''$'')" using name(2) by simp
        from whole_dollar [OF this in_tag] have "\<not> sublist tag u \<or> (\<exists>body v. u = body @ tag @ v \<and> ends_first tag body \<and> whole Outside v)"
.
        then show ?thesis
        proof (elim disjE exE conjE)
          assume "\<not> sublist tag u"
          then show ?thesis using one_statement.open_dollar [OF name, of u] u Cons by simp
        next
          fix body v assume v: "u = body @ tag @ v" "ends_first tag body" "whole Outside v"
          have "length v < length (c # t)" using u v(1) name(2) by simp
          then have "one_statement v" using IH [of v] v(3) Cons by simp
          then show ?thesis using one_statement.dollar [OF name v(2), of v] v(1) u Cons by simp
        qed
      qed
    qed
  qed
qed

text \<open>
  C12. The gate lets single statements through: the text that \<open>validate_query\<close> hands to the driver is a part of
  the query, the only statement of it that is not a comment, does not start or end with white space, passes the gate
  unchanged, and is one statement by the lexical rules that the code documents (\<open>one_statement\<close>): there is no
  semicolon outside of quotes with doubled quotes, dollar quotes, and comments that end with their line or at the first
  \<open>*/\<close>. A database with other rules may read it otherwise, as the last section shows.
\<close>

theorem validate_query_single:
  assumes "validate_query q = Inr s"
  shows "one_statement s \<and> sublist s q \<and> split_sql_statements q = [s] \<and> py_strip s = s \<and> strip_sql_comments s \<noteq> [] \<and>
    validate_query s = Inr s"
proof -
  obtain u where u: "split_sql_statements q = [u]" "s = py_strip u"
    using assms by (auto simp: validate_query_def split: if_splits list.splits)
  then have facts: "split_sql_statements u = [u]" "py_strip u = u" "u \<noteq> []" "whole Outside u" "sublist u q"
    using statement_whole [of u q] by auto
  then have "strip_sql_comments u \<noteq> []" using u(1) by (auto simp: split_sql_statements_def filter_eq_Cons_iff)
  with facts u whole_one_statement [OF facts(4)] show ?thesis by (simp add: validate_query_def)
qed

definition quoted_semicolon :: string where
  "quoted_semicolon = '' SELECT '' @ [CHR 0x27] @ ''a;b'' @ [CHR 0x27] @ ''; -- done; really''"

lemma validate_query_single_witness:
  "validate_query quoted_semicolon = Inr (''SELECT '' @ [CHR 0x27] @ ''a;b'' @ [CHR 0x27]) \<and>
   one_statement (''SELECT '' @ [CHR 0x27] @ ''a;b'' @ [CHR 0x27])"
proof -
  have "validate_query quoted_semicolon = Inr (''SELECT '' @ [CHR 0x27] @ ''a;b'' @ [CHR 0x27])" by code_simp
  with validate_query_single [OF this] show ?thesis by simp
qed

text \<open>A semicolon after a line comment is a separator.\<close>

lemma comment_line_ends: "validate_query (''-- x'' @ [CHR 0x0A] @ ''; DROP TABLE t; x'') = Inl MultiStatement"
  by code_simp

section \<open>Texts that the gate reads otherwise than the databases\<close>

text \<open>
  In MySQL a backslash escapes a quote: the text \<open>'\''\<close> is a string of one quote, and what follows is a
  second statement. The gate sees a doubled quote and an open string, and lets both statements through.
\<close>

definition backslash_text :: string where
  "backslash_text = ''SELECT '' @ [CHR 0x27, CHR 0x5C, CHR 0x27, CHR 0x27] @ ''; DROP TABLE users''"

lemma backslash_quote_passes: "validate_query backslash_text = Inr backslash_text"
  by code_simp

text \<open>
  Comments are stripped in two passes, without regard to each other: a block that is opened inside a line
  comment takes the next lines with it, and the statement there counts as empty and is dropped.
\<close>

definition hidden_text :: string where
  "hidden_text = ''-- /*'' @ [CHR 0x0A] @ ''DELETE FROM users -- */''"

lemma hidden_statement_dropped:
  "validate_query hidden_text = Inl QueryEmpty" "validate_query (''SELECT 1;'' @ hidden_text) = Inr ''SELECT 1''"
  by code_simp+

text \<open>
  In PostgreSQL block comments nest. The gate ends one at its first \<open>*/\<close>, sees a quote in what follows, and takes
  the statement after the comment for a part of the quoted text.
\<close>

definition nested_text :: string where
  "nested_text = ''/* /* */ '' @ [CHR 0x27] @ '' */ SELECT 1; DROP TABLE users; --'' @ [CHR 0x27]"

lemma nested_comment_passes: "validate_query nested_text = Inr nested_text"
  by code_simp

end
