(* ===== verification/Shell_Parser.thy ===== *)
theory Shell_Parser
  imports Shell_Lexer "HOL-Library.AList"
begin

text \<open>
  The parser of the MongoDB shell syntax (\<open>MongoShellParser\<close> of
  \<open>infrastructure/connectors/mongodb/shell_parser.py\<close>), one definition per method. The state is the list of
  the tokens that are left, of which the last one is the end of the text. The values that the code makes
  with \<open>bson\<close>, \<open>uuid\<close> and \<open>datetime.fromisoformat\<close> are kept as calls; which arguments these accept, how
  \<open>str\<close> writes a value, and what \<open>json.loads\<close> reads from a text, is an argument (\<open>bson_library\<close>).
\<close>

section \<open>Values\<close>

datatype bson_constructor = CallObjectId | CallDate | CallUuid | CallDecimal128 | CallTimestamp

datatype bson =
    BNull
  | BBool bool
  | BInt int
  | BFloat bool pyfloat
  | BString string
  | BArray "bson list"
  | BDoc "(string \<times> bson) list"
  | BMade bson_constructor "bson list"

type_synonym bson_doc = "(string \<times> bson) list"

record bson_library =
  lib_accepts :: "bson_constructor \<Rightarrow> bson list \<Rightarrow> bool"
  lib_text :: "bson \<Rightarrow> string"
  lib_json :: "string \<Rightarrow> bson option"

text \<open>\<open>bool(v)\<close>.\<close>

fun bson_true :: "bson \<Rightarrow> bool" where
  "bson_true BNull \<longleftrightarrow> False"
| "bson_true (BBool b) \<longleftrightarrow> b"
| "bson_true (BInt n) \<longleftrightarrow> n \<noteq> 0"
| "bson_true (BFloat s x) \<longleftrightarrow> (case x of PFin m e \<Rightarrow> m \<noteq> 0 | PInf \<Rightarrow> True)"
| "bson_true (BString s) \<longleftrightarrow> s \<noteq> []"
| "bson_true (BArray xs) \<longleftrightarrow> xs \<noteq> []"
| "bson_true (BDoc d) \<longleftrightarrow> d \<noteq> []"
| "bson_true (BMade c xs) \<longleftrightarrow> True"

fun is_bson_doc :: "bson \<Rightarrow> bool" where
  "is_bson_doc (BDoc d) \<longleftrightarrow> True"
| "is_bson_doc v \<longleftrightarrow> False"

section \<open>State\<close>

type_synonym shell_state = "shell_token list"

type_synonym 'a shell_result = "shell_error + 'a \<times> shell_state"

definition sh_current :: "shell_state \<Rightarrow> shell_token" where
  "sh_current ts = (case ts of [] \<Rightarrow> ShToken ShEof (ShText []) 0 | t # _ \<Rightarrow> t)"

definition sh_at :: "shell_kind \<Rightarrow> shell_state \<Rightarrow> bool" where
  "sh_at k ts \<longleftrightarrow> sk_kind (sh_current ts) = k"

text \<open>The text of a token that is no number.\<close>

definition sh_text :: "shell_state \<Rightarrow> string" where
  "sh_text ts = (case sk_value (sh_current ts) of ShText s \<Rightarrow> s | _ \<Rightarrow> [])"

definition sh_position :: "shell_state \<Rightarrow> nat" where
  "sh_position ts = sk_position (sh_current ts)"

text \<open>\<open>_expect\<close>; the message names what was expected.\<close>

definition sh_expect :: "shell_kind \<Rightarrow> string \<Rightarrow> shell_state \<Rightarrow> shell_error + shell_state" where
  "sh_expect k what ts = (if sh_at k ts then Inr (tl ts) else Inl (ShExpected what (sh_position ts)))"

section \<open>Values\<close>

definition number_bson :: "shell_value \<Rightarrow> bson" where
  "number_bson v = (case v of ShInt n \<Rightarrow> BInt n | ShFloat s x \<Rightarrow> BFloat s x | ShText s \<Rightarrow> BString s)"

text \<open>\<open>str(curr.value)\<close> of a property name.\<close>

definition number_text :: "bson_library \<Rightarrow> shell_value \<Rightarrow> string" where
  "number_text L v = (case v of ShInt n \<Rightarrow> show_int n | ShFloat s x \<Rightarrow> lib_text L (BFloat s x) | ShText s \<Rightarrow> s)"

definition property_name :: "bson_library \<Rightarrow> shell_state \<Rightarrow> shell_error + string" where
  "property_name L ts =
     (if sh_at ShIdentifier ts \<or> sh_at ShString ts then Inr (sh_text ts)
      else if sh_at ShNumber ts then Inr (number_text L (sk_value (sh_current ts)))
      else Inl (ShExpected ''property name'' (sh_position ts)))"

definition keyword_value :: "string \<Rightarrow> bson option" where
  "keyword_value s =
     (if s = ''true'' \<or> s = ''True'' then Some (BBool True)
      else if s = ''false'' \<or> s = ''False'' then Some (BBool False)
      else if s = ''null'' \<or> s = ''None'' then Some BNull else None)"

text \<open>\<open>arg.replace("Z", "+00:00") if arg.endswith("Z")\<close>.\<close>

definition iso_text :: "string \<Rightarrow> string" where
  "iso_text s =
     (if s \<noteq> [] \<and> last s = CHR ''Z'' then concat (map (\<lambda>c. if c = CHR ''Z'' then ''+00:00'' else [c]) s) else s)"

text \<open>The constructor of a name, and what it makes of one argument.\<close>

definition constructor_of :: "string \<Rightarrow> bson_constructor option" where
  "constructor_of name =
     map_of [(''objectid'', CallObjectId), (''isodate'', CallDate), (''date'', CallDate), (''uuid'', CallUuid),
       (''decimal128'', CallDecimal128), (''timestamp'', CallTimestamp)] (py_lower name)"

definition constructor_argument :: "bson_constructor \<Rightarrow> bson \<Rightarrow> bson option" where
  "constructor_argument c v =
     (case v of
        BString s \<Rightarrow> Some (if c = CallDate then BString (iso_text s) else v)
      | BInt n \<Rightarrow> if c = CallDecimal128 then Some v else None
      | BBool b \<Rightarrow> if c = CallDecimal128 then Some v else None
      | BFloat s x \<Rightarrow> if c = CallDecimal128 then Some v else None
      | _ \<Rightarrow> None)"

definition make_bson :: "bson_library \<Rightarrow> string \<Rightarrow> bson_constructor \<Rightarrow> bson list \<Rightarrow> shell_error + bson" where
  "make_bson L name c args = (if lib_accepts L c args then Inr (BMade c args) else Inl (ShBadConstructor name))"

fun parse_shell_value :: "bson_library \<Rightarrow> nat \<Rightarrow> shell_state \<Rightarrow> bson shell_result"
  and parse_members :: "bson_library \<Rightarrow> nat \<Rightarrow> bson_doc \<Rightarrow> shell_state \<Rightarrow> bson shell_result"
  and parse_items :: "bson_library \<Rightarrow> nat \<Rightarrow> bson list \<Rightarrow> shell_state \<Rightarrow> bson shell_result"
  and parse_bson_constructor :: "bson_library \<Rightarrow> nat \<Rightarrow> string \<Rightarrow> shell_state \<Rightarrow> bson shell_result" where
  "parse_shell_value L 0 ts = Inl ShDepth"
| "parse_shell_value L (Suc n) ts =
     (if sh_at ShLbrace ts then
        (if sh_at ShRbrace (tl ts) then Inr (BDoc [], tl (tl ts)) else parse_members L n [] (tl ts))
      else if sh_at ShLbracket ts then
        (if sh_at ShRbracket (tl ts) then Inr (BArray [], tl (tl ts)) else parse_items L n [] (tl ts))
      else if sh_at ShString ts then Inr (BString (sh_text ts), tl ts)
      else if sh_at ShNumber ts then Inr (number_bson (sk_value (sh_current ts)), tl ts)
      else if sh_at ShIdentifier ts then
        (case keyword_value (sh_text ts) of
           Some v \<Rightarrow> Inr (v, tl ts)
         | None \<Rightarrow>
             if sh_text ts = ''new'' then
               bindE (sh_expect ShIdentifier ''constructor name'' (tl ts)) (\<lambda>ts1.
               parse_bson_constructor L n (sh_text (tl ts)) ts1)
             else if sh_at ShLparen (tl ts) then parse_bson_constructor L n (sh_text ts) (tl ts)
             else Inl (ShUnrecognized (sh_text ts) (sh_position ts)))
      else Inl (ShUnexpectedToken (sk_value (sh_current ts)) (sk_kind (sh_current ts)) (sh_position ts)))"
| "parse_members L 0 d ts = Inl ShDepth"
| "parse_members L (Suc n) d ts =
     bindE (property_name L ts) (\<lambda>key.
     bindE (sh_expect ShColon ''colon'' (tl ts)) (\<lambda>ts1.
     bindE (parse_shell_value L n ts1) (\<lambda>(v, ts2).
     (let d' = AList.update key v d in
      if sh_at ShComma ts2 then
        (if sh_at ShRbrace (tl ts2) then Inr (BDoc d', tl (tl ts2)) else parse_members L n d' (tl ts2))
      else if sh_at ShRbrace ts2 then Inr (BDoc d', tl ts2)
      else Inl (ShExpected ''comma or brace'' (sh_position ts2))))))"
| "parse_items L 0 xs ts = Inl ShDepth"
| "parse_items L (Suc n) xs ts =
     bindE (parse_shell_value L n ts) (\<lambda>(v, ts1).
     if sh_at ShComma ts1 then
       (if sh_at ShRbracket (tl ts1) then Inr (BArray (xs @ [v]), tl (tl ts1)) else parse_items L n (xs @ [v]) (tl ts1))
     else if sh_at ShRbracket ts1 then Inr (BArray (xs @ [v]), tl ts1)
     else Inl (ShExpected ''comma or bracket'' (sh_position ts1)))"
| "parse_bson_constructor L 0 name ts = Inl ShDepth"
| "parse_bson_constructor L (Suc n) name ts =
     bindE (sh_expect ShLparen ''opening parenthesis'' ts) (\<lambda>ts1.
     case constructor_of name of
       None \<Rightarrow> Inl (ShUnsupportedConstructor name)
     | Some c \<Rightarrow>
         bindE (parse_shell_value L n ts1) (\<lambda>(v, ts2).
         if c = CallTimestamp then
           bindE (if sh_at ShComma ts2 then parse_shell_value L n (tl ts2) else Inr (BInt 1, ts2)) (\<lambda>(i, ts3).
           bindE (sh_expect ShRparen ''closing parenthesis'' ts3) (\<lambda>ts4.
           bindE (make_bson L name c [v, i]) (\<lambda>x. Inr (x, ts4))))
         else
           bindE (sh_expect ShRparen ''closing parenthesis'' ts2) (\<lambda>ts3.
           case constructor_argument c v of
             None \<Rightarrow> Inl (ShBadConstructor name)
           | Some arg \<Rightarrow> bindE (make_bson L name c [arg]) (\<lambda>x. Inr (x, ts3)))))"

section \<open>Arguments of the operations\<close>

text \<open>A value that must be a document.\<close>

definition parse_document :: "bson_library \<Rightarrow> nat \<Rightarrow> string \<Rightarrow> shell_state \<Rightarrow> bson_doc shell_result" where
  "parse_document L n what ts =
     bindE (parse_shell_value L n ts) (\<lambda>(v, ts1).
     case v of BDoc d \<Rightarrow> Inr (d, ts1) | _ \<Rightarrow> Inl (ShWrongArgument what))"

definition parse_find_args :: "bson_library \<Rightarrow> nat \<Rightarrow> bson_doc \<Rightarrow> shell_state \<Rightarrow> bson_doc shell_result" where
  "parse_find_args L n spec ts =
     (if sh_at ShRparen ts then Inr (AList.update ''filter'' (BDoc []) spec, ts)
      else bindE (parse_document L n ''find filter'' ts) (\<lambda>(filt, ts1).
        (let spec1 = AList.update ''filter'' (BDoc filt) spec in
         if sh_at ShComma ts1 then
           (if sh_at ShRparen (tl ts1) then Inr (spec1, tl ts1)
            else bindE (parse_document L n ''find projection'' (tl ts1)) (\<lambda>(proj, ts2).
              Inr (AList.update ''projection'' (BDoc proj) spec1, ts2)))
         else Inr (spec1, ts1))))"

text \<open>The options document of \<open>insertMany\<close> and \<open>updateMany\<close>: one flag of it is read.\<close>

definition parse_options :: "bson_library \<Rightarrow> nat \<Rightarrow> string \<Rightarrow> bson_doc \<Rightarrow> shell_state \<Rightarrow> bson_doc shell_result" where
  "parse_options L n flag spec ts =
     (if sh_at ShComma ts then
        (if sh_at ShRparen (tl ts) then Inr (spec, tl ts)
         else bindE (parse_shell_value L n (tl ts)) (\<lambda>(opts, ts1).
           Inr (case opts of
               BDoc d \<Rightarrow> (case map_of d flag of Some v \<Rightarrow> AList.update flag (BBool (bson_true v)) spec | None \<Rightarrow> spec)
             | _ \<Rightarrow> spec, ts1)))
      else Inr (spec, ts))"

definition parse_insert_many_args :: "bson_library \<Rightarrow> nat \<Rightarrow> bson_doc \<Rightarrow> shell_state \<Rightarrow> bson_doc shell_result" where
  "parse_insert_many_args L n spec ts =
     (if sh_at ShRparen ts then Inl (ShWrongArgument ''insertMany documents'')
      else bindE (parse_shell_value L n ts) (\<lambda>(docs, ts1).
        case docs of
          BArray ds \<Rightarrow>
            if ds = [] then Inl (ShWrongArgument ''insertMany documents'')
            else if list_all is_bson_doc ds
            then parse_options L n ''ordered''
              (AList.update ''ordered'' (BBool True) (AList.update ''documents'' docs spec)) ts1
            else Inl (ShWrongArgument ''insertMany document'')
        | _ \<Rightarrow> Inl (ShWrongArgument ''insertMany documents'')))"

definition parse_update_many_args :: "bson_library \<Rightarrow> nat \<Rightarrow> bson_doc \<Rightarrow> shell_state \<Rightarrow> bson_doc shell_result" where
  "parse_update_many_args L n spec ts =
     (if sh_at ShRparen ts then Inl (ShWrongArgument ''updateMany arguments'')
      else bindE (parse_document L n ''updateMany filter'' ts) (\<lambda>(filt, ts1).
        bindE (sh_expect ShComma ''comma'' ts1) (\<lambda>ts2.
        bindE (parse_document L n ''updateMany update'' ts2) (\<lambda>(upd, ts3).
        if upd = [] then Inl (ShWrongArgument ''updateMany update'')
        else parse_options L n ''upsert''
          (AList.update ''update'' (BDoc upd) (AList.update ''filter'' (BDoc filt) spec)) ts3))))"

definition parse_delete_many_args :: "bson_library \<Rightarrow> nat \<Rightarrow> bson_doc \<Rightarrow> shell_state \<Rightarrow> bson_doc shell_result" where
  "parse_delete_many_args L n spec ts =
     (if sh_at ShRparen ts then Inl (ShWrongArgument ''deleteMany filter'')
      else bindE (parse_document L n ''deleteMany filter'' ts) (\<lambda>(filt, ts1).
        Inr (AList.update ''filter'' (BDoc filt) spec, ts1)))"

section \<open>Statements\<close>

definition shell_operations :: "(string \<times> string) list" where
  "shell_operations =
     [(''find'', ''find''), (''insertmany'', ''insert_many''), (''insert_many'', ''insert_many''),
      (''updatemany'', ''update_many''), (''update_many'', ''update_many''),
      (''deletemany'', ''delete_many''), (''delete_many'', ''delete_many'')]"

definition parse_operation_args :: "bson_library \<Rightarrow> nat \<Rightarrow> string \<Rightarrow> bson_doc \<Rightarrow> shell_state \<Rightarrow> bson_doc shell_result" where
  "parse_operation_args L n op spec ts =
     (if op = ''find'' then parse_find_args L n spec ts
      else if op = ''insert_many'' then parse_insert_many_args L n spec ts
      else if op = ''update_many'' then parse_update_many_args L n spec ts
      else parse_delete_many_args L n spec ts)"

text \<open>\<open>isinstance(v, int) and v >= 0\<close>; a \<open>bool\<close> is an \<open>int\<close>.\<close>

fun is_count :: "bson \<Rightarrow> bool" where
  "is_count (BInt n) \<longleftrightarrow> 0 \<le> n"
| "is_count (BBool b) \<longleftrightarrow> True"
| "is_count v \<longleftrightarrow> False"

definition is_sort :: "bson \<Rightarrow> bool" where
  "is_sort v \<longleftrightarrow> (case v of BDoc d \<Rightarrow> True | BArray xs \<Rightarrow> True | _ \<Rightarrow> False)"

definition parse_modifier_value :: "bson_library \<Rightarrow> nat \<Rightarrow> string \<Rightarrow> (bson \<Rightarrow> bool) \<Rightarrow> bson_doc \<Rightarrow> shell_state \<Rightarrow> bson_doc shell_result" where
  "parse_modifier_value L n key ok spec ts =
     bindE (parse_shell_value L n ts) (\<lambda>(v, ts1).
     if \<not> ok v then Inl (ShWrongArgument key)
     else bindE (sh_expect ShRparen ''closing parenthesis'' ts1) (\<lambda>ts2. Inr (AList.update key v spec, ts2)))"

text \<open>One turn of the loop over the modifiers, after the dot.\<close>

definition parse_modifier :: "bson_library \<Rightarrow> nat \<Rightarrow> string \<Rightarrow> string \<Rightarrow> bson_doc \<Rightarrow> shell_state \<Rightarrow> bson_doc shell_result" where
  "parse_modifier L n raw op spec ts =
     bindE (sh_expect ShIdentifier ''modifier name'' ts) (\<lambda>ts1.
     (let name = sh_text ts; key = py_lower name in
      if op \<noteq> ''find'' then Inl (ShModifierOnWrite name raw)
      else bindE (sh_expect ShLparen ''opening parenthesis'' ts1) (\<lambda>ts2.
        if key = ''pretty'' then bindE (sh_expect ShRparen ''closing parenthesis'' ts2) (\<lambda>ts3. Inr (spec, ts3))
        else if key = ''sort'' then parse_modifier_value L n key is_sort spec ts2
        else if key = ''skip'' \<or> key = ''limit'' then parse_modifier_value L n key is_count spec ts2
        else Inl (ShUnsupportedModifier name))))"

fun parse_modifiers :: "bson_library \<Rightarrow> nat \<Rightarrow> string \<Rightarrow> string \<Rightarrow> bson_doc \<Rightarrow> shell_state \<Rightarrow> bson_doc shell_result" where
  "parse_modifiers L 0 raw op spec ts = Inl ShDepth"
| "parse_modifiers L (Suc n) raw op spec ts =
     (if \<not> sh_at ShDot ts then Inr (spec, ts)
      else bindE (parse_modifier L n raw op spec (tl ts)) (\<lambda>(spec', ts1). parse_modifiers L n raw op spec' ts1))"

text \<open>\<open>db.<collection>.<operation>\<close>: the two names, and what follows.\<close>

definition parse_head :: "shell_state \<Rightarrow> shell_error + string \<times> string \<times> shell_state" where
  "parse_head ts =
     (if \<not> (sh_at ShIdentifier ts \<and> sh_text ts = ''db'') then Inl (ShNotDb (sk_value (sh_current ts)) (sh_position ts))
      else bindE (sh_expect ShDot ''dot'' (tl ts)) (\<lambda>ts1.
        bindE (sh_expect ShIdentifier ''collection name'' ts1) (\<lambda>ts2.
        bindE (sh_expect ShDot ''dot'' ts2) (\<lambda>ts3.
        bindE (sh_expect ShIdentifier ''operation name'' ts3) (\<lambda>ts4.
        Inr (sh_text ts1, sh_text ts3, ts4))))))"

definition shell_fuel :: "shell_state \<Rightarrow> nat" where
  "shell_fuel ts = Suc (2 * length ts)"

definition parse_shell_tokens :: "bson_library \<Rightarrow> shell_state \<Rightarrow> shell_error + string \<times> bson_doc" where
  "parse_shell_tokens L ts =
     bindE (parse_head ts) (\<lambda>(coll, raw, ts4).
     (case map_of shell_operations (py_lower raw) of
        None \<Rightarrow> Inl (ShUnsupportedOperation raw)
      | Some op \<Rightarrow>
          bindE (sh_expect ShLparen ''opening parenthesis'' ts4) (\<lambda>ts5.
          bindE (parse_operation_args L (shell_fuel ts) op [(''collection'', BString coll)] ts5) (\<lambda>(spec, ts6).
          bindE (sh_expect ShRparen ''closing parenthesis'' ts6) (\<lambda>ts7.
          bindE (parse_modifiers L (shell_fuel ts) raw op spec ts7) (\<lambda>(spec', ts8).
          (let ts9 = dropWhile (\<lambda>t. sk_kind t = ShSemicolon) ts8 in
           if sh_at ShEof ts9 then Inr (''mongodb:'' @ op, spec')
           else Inl (ShTrailing (sk_value (sh_current ts9)) (sh_position ts9)))))))))"

definition parse_mongodb_shell_query :: "bson_library \<Rightarrow> string \<Rightarrow> shell_error + string \<times> bson_doc" where
  "parse_mongodb_shell_query L query =
     (if query = [] \<or> py_strip query = [] then Inl ShEmptyQuery
      else bindE (shell_tokenize query) (parse_shell_tokens L))"

end
