(* ===== verification/Access.thy ===== *)
theory Access
  imports Versions Plan_Data
begin

text \<open>
  API keys: the table and its repository (\<open>infrastructure/database/api_key_repository.py\<close>), the service over it
  (\<open>application/api_key_service.py\<close>), the check of a request (\<open>require_scope\<close> of
  \<open>presentation/api/security.py\<close>), and the routes that manage keys (\<open>routes/auth_keys.py\<close>). The digest, the
  random part of a key, the identifier of a row and the clock are arguments; the table holds the newest
  row first.
\<close>

section \<open>The table\<close>

text \<open>
  A moment is a wall clock time in seconds with the offset of its zone, which a naive datetime does not have; the
  column \<open>expires_at\<close> of SQLite keeps the wall clock time alone.
\<close>

record moment =
  mo_wall :: int
  mo_offset :: "int option"

text \<open>\<open>_to_utc\<close> of the routes: the moment in seconds of UTC.\<close>

definition to_utc :: "moment \<Rightarrow> int" where
  "to_utc m = (case mo_offset m of None \<Rightarrow> mo_wall m | Some z \<Rightarrow> mo_wall m - z)"

record api_key =
  ak_id :: string
  ak_name :: string
  ak_prefix :: string
  ak_hash :: string
  ak_scopes :: string
  ak_active :: bool
  ak_used :: "nat option"
  ak_expires :: "int option"

text \<open>\<open>[s.strip() for s in text.split(",") if s.strip()]\<close>.\<close>

definition scope_list :: "string \<Rightarrow> string list" where
  "scope_list text = filter (\<lambda>s. s \<noteq> []) (map py_strip (split_on CHR '','' text))"

text \<open>\<open>sorted(set(s.strip().lower() for s in scopes if s.strip()))\<close>, joined by commas.\<close>

definition clean_scopes :: "string list \<Rightarrow> string list" where
  "clean_scopes scopes = sorted_list_of_set (set (map (py_lower \<circ> py_strip) (filter (\<lambda>s. py_strip s \<noteq> []) scopes)))"

definition scopes_text :: "string list \<Rightarrow> string" where
  "scopes_text scopes = (let s = join '','' (clean_scopes scopes) in if s = [] then ''read'' else s)"

definition create_key_row ::
  "string \<Rightarrow> string \<Rightarrow> string \<Rightarrow> string \<Rightarrow> string list \<Rightarrow> moment option \<Rightarrow> api_key list \<Rightarrow> (api_key \<times> api_key list) option" where
  "create_key_row new name pre digest scopes expires ks =
     (let k = \<lparr>ak_id = new, ak_name = py_strip name, ak_prefix = py_strip pre, ak_hash = py_strip digest,
            ak_scopes = scopes_text scopes, ak_active = True, ak_used = None, ak_expires = map_option mo_wall expires\<rparr>
      in if new \<in> ak_id ` set ks \<or> ak_hash k \<in> ak_hash ` set ks then None else Some (k, k # ks))"

text \<open>The stored time has no zone and is read as UTC.\<close>

definition get_by_hash :: "nat \<Rightarrow> string \<Rightarrow> api_key list \<Rightarrow> api_key option" where
  "get_by_hash now digest ks =
     (case find (\<lambda>k. ak_hash k = digest \<and> ak_active k) ks of
        None \<Rightarrow> None
      | Some k \<Rightarrow> (case ak_expires k of None \<Rightarrow> Some k | Some t \<Rightarrow> if t < int now then None else Some k))"

definition count_active :: "api_key list \<Rightarrow> nat" where
  "count_active ks = length (filter ak_active ks)"

definition get_key_by_id :: "string \<Rightarrow> api_key list \<Rightarrow> api_key option" where
  "get_key_by_id i ks = find (\<lambda>k. ak_id k = i) ks"

definition revoke_key_row :: "string \<Rightarrow> api_key list \<Rightarrow> bool \<times> api_key list" where
  "revoke_key_row i ks =
     (if get_key_by_id i ks = None then (False, ks)
      else (True, map (\<lambda>k. if ak_id k = i then k\<lparr>ak_active := False\<rparr> else k) ks))"

definition delete_key_row :: "string \<Rightarrow> api_key list \<Rightarrow> bool \<times> api_key list" where
  "delete_key_row i ks = (get_key_by_id i ks \<noteq> None, filter (\<lambda>k. ak_id k \<noteq> i) ks)"

definition record_key_usage :: "nat \<Rightarrow> string \<Rightarrow> api_key list \<Rightarrow> api_key list" where
  "record_key_usage now i ks = map (\<lambda>k. if ak_id k = i then k\<lparr>ak_used := Some now\<rparr> else k) ks"

section \<open>The service\<close>

text \<open>\<open>digest\<close> is SHA-256 in hexadecimal, of the UTF-8 text.\<close>

definition hash_api_key :: "(string \<Rightarrow> string) \<Rightarrow> string \<Rightarrow> string" where
  "hash_api_key digest raw = digest (py_strip raw)"

definition key_prefix :: string where
  "key_prefix = ''altr_live_''"

text \<open>The expiry of a new key: the given one, or some hours or days after now, in UTC.\<close>

definition expiry :: "nat \<Rightarrow> int option \<Rightarrow> int option \<Rightarrow> moment option \<Rightarrow> moment option" where
  "expiry now days hours deadline =
     (let positive = (\<lambda>n. case n of Some k \<Rightarrow> 0 < k | None \<Rightarrow> False);
          later = (\<lambda>s. Some \<lparr>mo_wall = int now + s, mo_offset = Some 0\<rparr>)
      in if deadline = None \<and> positive hours then later (3600 * the hours)
         else if deadline = None \<and> positive days then later (86400 * the days)
         else deadline)"

definition generate_key ::
  "(string \<Rightarrow> string) \<Rightarrow> nat \<Rightarrow> string \<Rightarrow> string \<Rightarrow> string \<Rightarrow> string list \<Rightarrow> int option \<Rightarrow> int option \<Rightarrow> moment option \<Rightarrow>
   api_key list \<Rightarrow> ((string \<times> api_key) \<times> api_key list) option" where
  "generate_key digest now new entropy name scopes days hours deadline ks =
     (let raw = key_prefix @ entropy in
      map_option (\<lambda>(k, ks'). ((raw, k), ks'))
        (create_key_row new name (take 14 raw @ ''...'') (hash_api_key digest raw)
          (if scopes = [] then [''read'', ''write''] else scopes) (expiry now days hours deadline) ks))"

text \<open>The check of the scopes of a key: \<open>admin\<close> grants everything, \<open>write\<close> grants \<open>read\<close>.\<close>

definition grants :: "string list \<Rightarrow> string \<Rightarrow> bool" where
  "grants scopes required \<longleftrightarrow>
     (let active = map py_lower scopes; req = py_lower (py_strip required) in
      ''admin'' \<in> set active \<or>
      (if req = ''read'' then ''read'' \<in> set active \<or> ''write'' \<in> set active
       else if req = ''write'' then ''write'' \<in> set active
       else req \<noteq> ''admin''))"

definition clean_key :: "string \<Rightarrow> string" where
  "clean_key raw = (let s = py_strip raw in if take 7 s = ''Bearer '' then py_strip (drop 7 s) else s)"

definition verify_key ::
  "(string \<Rightarrow> string) \<Rightarrow> nat \<Rightarrow> string \<Rightarrow> string option \<Rightarrow> api_key list \<Rightarrow> api_key option \<times> api_key list" where
  "verify_key digest now raw required ks =
     (if raw = [] then (None, ks)
      else case get_by_hash now (hash_api_key digest (clean_key raw)) ks of
        None \<Rightarrow> (None, ks)
      | Some k \<Rightarrow>
          (case required of
             Some r \<Rightarrow> if r = [] \<or> grants (scope_list (ak_scopes k)) r then (Some k, record_key_usage now (ak_id k) ks) else (None, ks)
           | None \<Rightarrow> (Some k, record_key_usage now (ak_id k) ks)))"

section \<open>The check of a request\<close>

record auth_headers =
  ah_api_key :: "string option"
  ah_authorization :: "string option"
  ah_client :: "string option"

datatype auth_error = MissingKey | InvalidKey string

definition raw_key :: "auth_headers \<Rightarrow> string" where
  "raw_key h =
     (let raw = (case ah_api_key h of Some s \<Rightarrow> if s = [] then (case ah_authorization h of Some a \<Rightarrow> a | None \<Rightarrow> []) else s
            | None \<Rightarrow> (case ah_authorization h of Some a \<Rightarrow> a | None \<Rightarrow> []))
      in if take 7 (py_lower raw) = ''bearer '' then py_strip (drop 7 raw) else raw)"

text \<open>
  \<open>require_scope\<close>: \<open>Inr None\<close> lets a request through without a key. \<open>enforced\<close> is the setting
  \<open>require_api_key\<close>.
\<close>

definition require_scope ::
  "(string \<Rightarrow> string) \<Rightarrow> bool \<Rightarrow> nat \<Rightarrow> string \<Rightarrow> auth_headers \<Rightarrow> api_key list \<Rightarrow> (auth_error + api_key option) \<times> api_key list" where
  "require_scope digest enforced now scope h ks =
     (if ah_client h = Some ''web-dashboard'' then (Inr None, ks)
      else if count_active ks = 0 \<and> \<not> enforced then (Inr None, ks)
      else if raw_key h = [] then (Inl MissingKey, ks)
      else case verify_key digest now (raw_key h) (Some scope) ks of
        (None, ks') \<Rightarrow> (Inl (InvalidKey scope), ks')
      | (Some k, ks') \<Rightarrow> (Inr (Some k), ks'))"

text \<open>\<open>any(s in auth_key.scopes for s in ("write", "admin"))\<close> in the routes: a test on the text of the scopes.\<close>

definition may_write :: "api_key option \<Rightarrow> bool" where
  "may_write key = (case key of None \<Rightarrow> True | Some k \<Rightarrow> sublist ''write'' (ak_scopes k) \<or> sublist ''admin'' (ak_scopes k))"

section \<open>The routes of the keys\<close>

definition list_api_keys :: "bool \<Rightarrow> api_key list \<Rightarrow> api_key list" where
  "list_api_keys include_revoked ks = (if include_revoked then ks else filter ak_active ks)"

text \<open>The routes take no key: creating and revoking is open to every client.\<close>

definition create_api_key ::
  "(string \<Rightarrow> string) \<Rightarrow> nat \<Rightarrow> string \<Rightarrow> string \<Rightarrow> string \<Rightarrow> string list \<Rightarrow> int option \<Rightarrow> int option \<Rightarrow> moment option \<Rightarrow>
   api_key list \<Rightarrow> ((string \<times> api_key) \<times> api_key list) option" where
  "create_api_key digest now new entropy name scopes days hours deadline ks =
     generate_key digest now new entropy name scopes days hours deadline ks"

definition revoke_api_key :: "string \<Rightarrow> api_key list \<Rightarrow> (string + unit) \<times> api_key list" where
  "revoke_api_key i ks =
     (case revoke_key_row i ks of (found, ks') \<Rightarrow> (if found then Inr () else Inl ''API key not found'', ks'))"

definition verify_api_key :: "(string \<Rightarrow> string) \<Rightarrow> nat \<Rightarrow> string \<Rightarrow> api_key list \<Rightarrow> (string \<times> string list \<times> string) option \<times> api_key list" where
  "verify_api_key digest now raw ks =
     (case verify_key digest now raw None ks of
        (None, ks') \<Rightarrow> (None, ks')
      | (Some k, ks') \<Rightarrow> (Some (ak_name k, scope_list (ak_scopes k), ak_prefix k), ks'))"

end
