(* ===== verification/Query_Service.thy ===== *)
theory Query_Service
  imports Shell_Parser Registry Access
begin

text \<open>
  Native queries: \<open>application/query_service.py\<close>, which prepares a query for the dialect of its source and
  hands it to the connector, and the route of the query playground (\<open>presentation/api/routes/queries.py\<close>).
  A run returns its result with the events it causes: the calls of drivers, whose answers are an argument,
  and the counts of the usage tracker.
\<close>

section \<open>Parameters and results\<close>

text \<open>A parameter that a lowerer made, or a value that was read from JSON or shell text.\<close>

datatype native_param = Lowered sql_param | Native bson

fun is_dict :: "native_param \<Rightarrow> bool" where
  "is_dict (Lowered p) \<longleftrightarrow> (case p of PSpec s \<Rightarrow> True | _ \<Rightarrow> False)"
| "is_dict (Native v) \<longleftrightarrow> is_bson_doc v"

record query_result =
  qr_columns :: "string list"
  qr_rows :: "row list"
  qr_row_count :: int
  qr_affected_rows :: "int option"
  qr_message :: "string option"

datatype service_error =
    NoSuchSource string
  | GateFailed native_error
  | ShellFailed shell_error
  | InvalidJson
  | SpecNotObject
  | SpecMissing
  | ModeUnsupported string source
  | CustomQueryUnsupported source
  | ConnectorFailed string string

datatype driver_call =
    DriverQuery source string "native_param list option"
  | DriverBatch source "(string \<times> native_param list option) list"

datatype service_event = CallDriver driver_call | RecordWrite nat string | RecordRead nat string

type_synonym driver = "driver_call \<Rightarrow> (string \<times> string) + query_result"

section \<open>Read or write\<close>

definition starts_with :: "string \<Rightarrow> string \<Rightarrow> bool" where
  "starts_with s p \<longleftrightarrow> prefix p s"

text \<open>\<open>s.replace(p, "")\<close> for a text \<open>p\<close> that is not empty.\<close>

function remove_text :: "string \<Rightarrow> string \<Rightarrow> string" where
  "remove_text p [] = []"
| "remove_text p (c # t) =
     (if p \<noteq> [] \<and> prefix p (c # t) then remove_text p (drop (length p - 1) t) else c # remove_text p t)"
  by pat_completeness auto
termination by (relation "measure (\<lambda>(p, s). length s)") auto

definition is_write_query :: "string \<Rightarrow> bool" where
  "is_write_query query =
     (let q = py_upper (py_strip query) in
      if starts_with q ''MONGODB:'' then
        list_ex (\<lambda>w. sublist w (py_strip (remove_text ''MONGODB:'' q))) [''INSERT'', ''UPDATE'', ''DELETE'', ''DROP'']
      else list_ex (starts_with q)
        [''INSERT'', ''UPDATE'', ''DELETE'', ''CREATE'', ''DROP'', ''ALTER'', ''TRUNCATE'', ''REPLACE''])"

section \<open>MongoDB queries\<close>

text \<open>\<open>spec.pop("operation")\<close>: a spec that a lowerer made has no such key.\<close>

definition pop_operation :: "native_param \<Rightarrow> bson option \<times> native_param" where
  "pop_operation p =
     (case p of
        Native (BDoc d) \<Rightarrow> (map_of d ''operation'', Native (BDoc (AList.delete ''operation'' d)))
      | _ \<Rightarrow> (None, p))"

text \<open>\<open>str(v)\<close>.\<close>

definition bson_text :: "bson_library \<Rightarrow> bson \<Rightarrow> string" where
  "bson_text L v =
     (case v of BString s \<Rightarrow> s | BInt n \<Rightarrow> show_int n | BBool b \<Rightarrow> if b then ''True'' else ''False''
      | BNull \<Rightarrow> ''None'' | _ \<Rightarrow> lib_text L v)"

definition first_dict :: "native_param list option \<Rightarrow> native_param list option" where
  "first_dict ps = (case ps of Some (p # qs) \<Rightarrow> if is_dict p then Some (p # qs) else None | _ \<Rightarrow> None)"

text \<open>\<open>json.loads\<close>, and the test that the result is an object.\<close>

definition load_spec :: "bson_library \<Rightarrow> string \<Rightarrow> service_error + bson_doc" where
  "load_spec L text =
     (case lib_json L text of None \<Rightarrow> Inl InvalidJson | Some v \<Rightarrow> (case v of BDoc d \<Rightarrow> Inr d | _ \<Rightarrow> Inl SpecNotObject))"

text \<open>The operation of a structured command: named, or told from its keys.\<close>

definition physical_command :: "bson_library \<Rightarrow> string \<Rightarrow> service_error + string \<times> native_param list" where
  "physical_command L text =
     bindE (load_spec L text) (\<lambda>d.
     (let (named, spec) = pop_operation (Native (BDoc d));
          op = (case named of
              Some v \<Rightarrow> py_lower (py_strip (bson_text L v))
            | None \<Rightarrow>
                if map_of d ''documents'' \<noteq> None \<or> map_of d ''document'' \<noteq> None then ''insert_many''
                else if map_of d ''update'' \<noteq> None then ''update_many''
                else if map_of d ''delete'' \<noteq> None then ''delete_many'' else ''find'')
      in Inr (''mongodb:'' @ op, [spec])))"

definition shell_command :: "bson_library \<Rightarrow> string \<Rightarrow> service_error + string \<times> native_param list" where
  "shell_command L text =
     (case parse_mongodb_shell_query L text of
        Inl e \<Rightarrow> Inl (ShellFailed e) | Inr (op, spec) \<Rightarrow> Inr (op, [Native (BDoc spec)]))"

text \<open>\<open>s.partition(c)\<close> without its middle.\<close>

definition partition_at :: "char \<Rightarrow> string \<Rightarrow> string \<times> string" where
  "partition_at c s = (takeWhile (\<lambda>x. x \<noteq> c) s, tl (dropWhile (\<lambda>x. x \<noteq> c) s))"

definition prefixed_command :: "bson_library \<Rightarrow> string \<Rightarrow> service_error + string \<times> native_param list" where
  "prefixed_command L raw =
     (let at_space = partition_at CHR '' '' raw;
          (pre, body) = (if py_strip (snd at_space) = [] then partition_at CHR 0x0A raw else at_space);
          named = py_lower (py_strip (remove_text ''mongodb:'' pre));
          op = (if named = [] then ''find'' else named)
      in if py_strip body = [] then Inl SpecMissing
         else bindE (load_spec L (py_strip body)) (\<lambda>d.
           (case pop_operation (Native (BDoc d)) of
              (Some v, spec) \<Rightarrow> Inr (''mongodb:'' @ py_lower (py_strip (bson_text L v)), [spec])
            | (None, spec) \<Rightarrow> Inr (''mongodb:'' @ op, [spec]))))"

definition prepare_mongodb_query ::
  "bson_library \<Rightarrow> string \<Rightarrow> native_param list option \<Rightarrow> string option \<Rightarrow> service_error + string \<times> native_param list" where
  "prepare_mongodb_query L query params mode =
     (let raw = py_strip query in
      if query = [] \<or> raw = [] then
        (case first_dict params of
           Some (p # ps) \<Rightarrow>
             (case pop_operation p of (named, spec) \<Rightarrow>
                Inr (''mongodb:'' @ (case named of Some v \<Rightarrow> bson_text L v | None \<Rightarrow> ''find''), spec # ps))
         | _ \<Rightarrow> Inl (GateFailed QueryEmpty))
      else case first_dict params of
        Some ps \<Rightarrow>
          if starts_with raw ''mongodb:'' then Inr (raw, ps)
          else Inr (''mongodb:'' @ (if raw \<in> {''find'', ''insert_many'', ''update_many'', ''delete_many''} then raw else ''find''), ps)
      | None \<Rightarrow>
          if starts_with raw ''mongodb:'' then prefixed_command L raw
          else
            (let chosen = (case mode of None \<Rightarrow> None | Some m \<Rightarrow> if m = [] then None else Some (py_lower (py_strip m))) in
             if chosen = Some ''shell'' then shell_command L raw
             else if chosen = Some ''physical'' then physical_command L raw
             else if starts_with raw ''{'' then physical_command L raw else shell_command L raw))"

section \<open>The service\<close>

text \<open>The connectors of all four types say that they run custom queries.\<close>

fun custom_query :: "source_type \<Rightarrow> bool" where
  "custom_query POSTGRESQL \<longleftrightarrow> True"
| "custom_query SQLITE \<longleftrightarrow> True"
| "custom_query MYSQL \<longleftrightarrow> True"
| "custom_query MONGODB \<longleftrightarrow> True"

definition gate :: "string \<Rightarrow> service_error + string" where
  "gate query = (case validate_query query of Inl e \<Rightarrow> Inl (GateFailed e) | Inr s \<Rightarrow> Inr s)"

definition prepare_query ::
  "bson_library \<Rightarrow> source \<Rightarrow> string \<Rightarrow> native_param list option \<Rightarrow> string option \<Rightarrow> service_error + string \<times> native_param list option" where
  "prepare_query L src query params mode =
     (if src_type src = MONGODB then
        bindE (prepare_mongodb_query L query params mode) (\<lambda>(q, ps). Inr (q, Some ps))
      else if (case mode of None \<Rightarrow> False | Some m \<Rightarrow> py_strip m \<noteq> []) then
        Inl (ModeUnsupported (case mode of Some m \<Rightarrow> m | None \<Rightarrow> []) src)
      else bindE (gate query) (\<lambda>q. Inr (q, params)))"

definition prepare_batched ::
  "bson_library \<Rightarrow> source \<Rightarrow> string \<times> native_param list option \<Rightarrow> service_error + string \<times> native_param list option" where
  "prepare_batched L src qp =
     (if src_type src = MONGODB then
        bindE (prepare_mongodb_query L (fst qp) (snd qp) None) (\<lambda>(q, ps). Inr (q, Some ps))
      else bindE (gate (fst qp)) (\<lambda>q. Inr (q, snd qp)))"

type_synonym 'a run = "(service_error + 'a) \<times> service_event list"

definition call_driver :: "driver \<Rightarrow> driver_call \<Rightarrow> service_event list \<Rightarrow> query_result run" where
  "call_driver drv call counts =
     (case drv call of
        Inl (cls, message) \<Rightarrow> (Inl (ConnectorFailed cls message), [CallDriver call])
      | Inr r \<Rightarrow> (Inr r, CallDriver call # counts))"

definition execute_query ::
  "bson_library \<Rightarrow> driver \<Rightarrow> registry_store \<Rightarrow> string \<Rightarrow> string \<Rightarrow> native_param list option \<Rightarrow> string option \<Rightarrow> query_result run" where
  "execute_query L drv st sid query params mode =
     (case get_source_by_id st sid of
        None \<Rightarrow> (Inl (NoSuchSource sid), [])
      | Some src \<Rightarrow>
          (case prepare_query L src query params mode of
             Inl e \<Rightarrow> (Inl e, [])
           | Inr (q, ps) \<Rightarrow>
               if \<not> custom_query (src_type src) then (Inl (CustomQueryUnsupported src), [])
               else call_driver drv (DriverQuery src q ps) [if is_write_query q then RecordWrite 1 sid else RecordRead 1 sid]))"

definition execute_batch ::
  "bson_library \<Rightarrow> driver \<Rightarrow> registry_store \<Rightarrow> string \<Rightarrow> (string \<times> native_param list option) list \<Rightarrow> query_result run" where
  "execute_batch L drv st sid queries =
     (case get_source_by_id st sid of
        None \<Rightarrow> (Inl (NoSuchSource sid), [])
      | Some src \<Rightarrow>
          (case mapE (prepare_batched L src) queries of
             Inl e \<Rightarrow> (Inl e, [])
           | Inr qs \<Rightarrow>
               if \<not> custom_query (src_type src) then (Inl (CustomQueryUnsupported src), [])
               else
                 (let writes = length (filter (is_write_query \<circ> fst) qs); reads = length qs - writes in
                  call_driver drv (DriverBatch src qs)
                    ((if 0 < writes then [RecordWrite writes sid] else []) @ (if 0 < reads then [RecordRead reads sid] else [])))))"

section \<open>The route of the playground\<close>

datatype http_error = Unauthorized auth_error | Forbidden string | NotFound string | BadRequest service_error

text \<open>
  The result of the service as the route answers it. The mode \<open>write\<close> is asked for by the client, and it is
  the only mode for which the scopes of the key are looked at.
\<close>

definition playground_execute ::
  "bson_library \<Rightarrow> driver \<Rightarrow> registry_store \<Rightarrow> api_key option \<Rightarrow> string \<Rightarrow> string \<Rightarrow> string option \<Rightarrow>
   (http_error + query_result) \<times> service_event list" where
  "playground_execute L drv st key sid query mode =
     (if mode = Some ''write'' \<and> \<not> may_write key then (Inl (Forbidden ''write''), [])
      else case execute_query L drv st sid query None mode of
        (Inr r, evs) \<Rightarrow> (Inr r, evs)
      | (Inl (NoSuchSource i), evs) \<Rightarrow> (Inl (NotFound i), evs)
      | (Inl e, evs) \<Rightarrow> (Inl (BadRequest e), evs))"

end
