(* ===== verification/Execution.thy ===== *)
theory Execution
  imports Query_Service Federated_Planning Merging
begin

text \<open>
  The endpoint \<open>/altrql/execute\<close> and the helpers of \<open>presentation/api/routes/altrql.py\<close>: from the text of a
  query to the calls of drivers and the response. A path through the endpoint returns its response with
  the events that it causes. The sources of a federated query run concurrently; each source has one call,
  whose answer does not depend on the others, so the events are listed in the order of the plans. Times,
  line and column of errors and the echo of the tree in the response are left out.
\<close>

section \<open>The surroundings of a request\<close>

text \<open>
  The stored registry, the lowerers, the BSON and JSON libraries, the drivers, and the text of the errors
  that the shell parser and the JSON module raise.
\<close>

record engine =
  en_store :: registry_store
  en_lowerers :: "lowerer dict"
  en_library :: bson_library
  en_driver :: driver
  en_detail :: "service_error \<Rightarrow> string"

record execute_request =
  rq_query :: string
  rq_source_id :: "string option"
  rq_mapping_id :: "string option"
  rq_model_id :: "string option"
  rq_normalize :: bool
  rq_confirm :: bool

datatype route_error =
    QueryFailure query_error
  | RegistryFailure registry_error
  | PlanFailure plan_error
  | ServiceFailure service_error
  | ContextMissing string "string list"
  | FederatedMutation query_operation
  | SchemaMissing string
  | ConfirmationRequired query_operation string
  | AllSourcesFailed nat string
  | NoPlans

text \<open>
  What the handlers for \<open>AltrStreamError\<close> and for \<open>AltrQueryError\<close> catch. The two classes are not related: the
  errors of Python are in neither, and an entity that a mapping lacks is an \<open>AltrStreamError\<close>.
\<close>

fun language_error :: "query_error \<Rightarrow> bool" where
  "language_error PyValueError \<longleftrightarrow> False"
| "language_error PyOverflowError \<longleftrightarrow> False"
| "language_error PyUnboundLocalError \<longleftrightarrow> False"
| "language_error OutOfFuel \<longleftrightarrow> False"
| "language_error (query_error.LogicalEntityNotFoundError x y) \<longleftrightarrow> False"
| "language_error _ \<longleftrightarrow> True"

definition is_query_error :: "route_error \<Rightarrow> bool" where
  "is_query_error e \<longleftrightarrow>
     (case e of
        QueryFailure q \<Rightarrow> language_error q
      | PlanFailure (QueryError q) \<Rightarrow> language_error q
      | PlanFailure (UnsupportedDialectError d) \<Rightarrow> True
      | _ \<Rightarrow> False)"

definition missing_entity :: "query_error \<Rightarrow> bool" where
  "missing_entity q \<longleftrightarrow> (case q of query_error.LogicalEntityNotFoundError x y \<Rightarrow> True | _ \<Rightarrow> False)"

definition is_stream_error :: "route_error \<Rightarrow> bool" where
  "is_stream_error e \<longleftrightarrow>
     (case e of
        QueryFailure q \<Rightarrow> missing_entity q
      | RegistryFailure r \<Rightarrow> r \<noteq> IntegrityError
      | PlanFailure (QueryError q) \<Rightarrow> missing_entity q
      | PlanFailure (UnsupportedDialectError d) \<Rightarrow> False
      | PlanFailure (UnknownSourceType s) \<Rightarrow> False
      | NoPlans \<Rightarrow> False
      | _ \<Rightarrow> True)"

definition lift_query :: "query_error + 'a \<Rightarrow> route_error + 'a" where
  "lift_query r = (case r of Inl e \<Rightarrow> Inl (QueryFailure e) | Inr x \<Rightarrow> Inr x)"

definition lift_registry :: "registry_error + 'a \<Rightarrow> route_error + 'a" where
  "lift_registry r = (case r of Inl e \<Rightarrow> Inl (RegistryFailure e) | Inr x \<Rightarrow> Inr x)"

definition lift_federated :: "federated_error + 'a \<Rightarrow> route_error + 'a" where
  "lift_federated r =
     (case r of Inl (PlanFailed e) \<Rightarrow> Inl (PlanFailure e) | Inl (RegistryFailed e) \<Rightarrow> Inl (RegistryFailure e) | Inr x \<Rightarrow> Inr x)"

definition lift_plan :: "plan_error + 'a \<Rightarrow> route_error + 'a" where
  "lift_plan r = (case r of Inl e \<Rightarrow> Inl (PlanFailure e) | Inr x \<Rightarrow> Inr x)"

lemma lift_Inr [simp]:
  "lift_query q = Inr x \<longleftrightarrow> q = Inr x" "lift_registry s = Inr y \<longleftrightarrow> s = Inr y" "lift_plan p = Inr z \<longleftrightarrow> p = Inr z"
  "lift_federated f = Inr w \<longleftrightarrow> f = Inr w"
  by (auto simp: lift_query_def lift_registry_def lift_plan_def lift_federated_def split: sum.splits federated_error.splits)

section \<open>One source\<close>

text \<open>\<open>if isinstance(plan.physical_query, PhysicalQueryBatch)\<close>: the two entries of the query service.\<close>

definition native_parameters :: "physical_query \<Rightarrow> native_param list option" where
  "native_parameters q = Some (map Lowered (pq_parameters q))"

definition run_physical :: "engine \<Rightarrow> string \<Rightarrow> physical_result \<Rightarrow> query_result run" where
  "run_physical en sid pr =
     (case pr of
        QueryBatch b \<Rightarrow>
          execute_batch (en_library en) (en_driver en) (en_store en) sid
            (map (\<lambda>q. (pq_query q, native_parameters q)) (pb_queries b))
      | SingleQuery q \<Rightarrow>
          execute_query (en_library en) (en_driver en) (en_store en) sid (pq_query q) (native_parameters q) None)"

text \<open>\<open>str(exc)\<close>.\<close>

definition service_text :: "(service_error \<Rightarrow> string) \<Rightarrow> service_error \<Rightarrow> string" where
  "service_text detail e =
     (case e of
        NoSuchSource i \<Rightarrow> ''Source with id '' @ quoted i @ '' was not found.''
      | GateFailed QueryEmpty \<Rightarrow> ''Query cannot be empty.''
      | GateFailed MultiStatement \<Rightarrow>
          ''Multi-statement queries are forbidden in Query Playground. Please execute one statement at a time.''
      | SpecNotObject \<Rightarrow> ''MongoDB query specification must be a JSON object.''
      | SpecMissing \<Rightarrow> ''MongoDB command requires a dictionary specification in parameters.''
      | ModeUnsupported m src \<Rightarrow>
          ''Query mode '' @ quoted m @ '' is only supported for MongoDB sources, but source '' @ quoted (src_name src) @
          '' has type '' @ quoted (source_type_name (src_type src)) @ ''.''
      | CustomQueryUnsupported src \<Rightarrow>
          ''Connector for source '' @ quoted (src_name src) @ '' ('' @ source_type_name (src_type src) @
          '') does not support custom query execution.''
      | ConnectorFailed cls message \<Rightarrow> message
      | _ \<Rightarrow> detail e)"

definition failure_reason :: "string \<Rightarrow> exclusion_reason" where
  "failure_reason message =
     (let m = py_lower message in
      if sublist ''timeout'' m then EXECUTION_TIMEOUT
      else if list_ex (\<lambda>w. sublist w m) [''connect'', ''unreachable'', ''refused'', ''server closed'', ''cannot connect'', ''socket'']
        then SOURCE_UNREACHABLE
      else if sublist ''normalize'' m then NORMALIZATION_FAILED
      else EXECUTION_FAILED)"

record source_report =
  sr_source_id :: string
  sr_source_name :: string
  sr_source_type :: source_type
  sr_entity :: string
  sr_rows :: int

definition plan_report :: "physical_plan \<Rightarrow> query_result \<Rightarrow> source_report" where
  "plan_report plan r =
     \<lparr>sr_source_id = pp_source_id plan, sr_source_name = pp_source_name plan, sr_source_type = pp_source_type plan,
      sr_entity = pp_physical_entity plan, sr_rows = int (length (qr_rows r))\<rparr>"

definition plan_failure :: "(service_error \<Rightarrow> string) \<Rightarrow> physical_plan \<Rightarrow> service_error \<Rightarrow> source_exclusion" where
  "plan_failure detail plan e =
     (let message = service_text detail e in
      \<lparr>xs_source_id = pp_source_id plan, xs_source_name = Some (pp_source_name plan),
       xs_source_type = Some (source_type_name (pp_source_type plan)), xs_physical_entity = Some (pp_physical_entity plan),
       xs_status = FAILED, xs_reason = failure_reason message,
       xs_message = ''Execution failed on source '' @ quoted (pp_source_name plan) @ '': '' @ message\<rparr>)"

definition execute_isolated ::
  "engine \<Rightarrow> physical_plan \<Rightarrow> (source_exclusion + query_result \<times> source_report) \<times> service_event list" where
  "execute_isolated en plan =
     (case run_physical en (pp_source_id plan) (pp_physical_query plan) of
        (Inl e, evs) \<Rightarrow> (Inl (plan_failure (en_detail en) plan e), evs)
      | (Inr r, evs) \<Rightarrow> (Inr (r, plan_report plan r), evs))"

section \<open>The mapping of an explicit source\<close>

definition names_entity :: "string \<Rightarrow> entity_mapping \<Rightarrow> bool" where
  "names_entity target em \<longleftrightarrow>
     name_matches (em_logical_name em) target \<or> py_lower (em_logical_id em) = target \<or> name_matches (em_physical_name em) target"

definition find_matching_entity_mapping :: "source_mapping \<Rightarrow> string \<Rightarrow> entity_mapping option" where
  "find_matching_entity_mapping m n = find (names_entity (py_lower (py_strip n))) (sm_entities m)"

text \<open>The first mapping with the entity, else the first mapping with its first entity.\<close>

definition first_matching :: "source_mapping list \<Rightarrow> string \<Rightarrow> source_mapping option \<times> entity_mapping option" where
  "first_matching ms n =
     (case find (\<lambda>m. find_matching_entity_mapping m n \<noteq> None) ms of
        Some m \<Rightarrow> (Some m, find_matching_entity_mapping m n)
      | None \<Rightarrow>
          (case ms of
             [] \<Rightarrow> (None, None)
           | m # _ \<Rightarrow> (Some m, case sm_entities m of [] \<Rightarrow> None | em # _ \<Rightarrow> Some em)))"

definition active_mappings :: "registry_store \<Rightarrow> string option \<Rightarrow> string option \<Rightarrow> source_mapping list" where
  "active_mappings st model src = filter (\<lambda>m. sm_status m = ACTIVE) (list_source_mappings st model src)"

definition find_active_source_and_entity_mapping ::
  "registry_store \<Rightarrow> string \<Rightarrow> string \<Rightarrow> string option \<Rightarrow> string option \<Rightarrow>
   route_error + source_mapping option \<times> entity_mapping option" where
  "find_active_source_and_entity_mapping st sid n mapping_id model_id =
     (if text_or_empty mapping_id \<noteq> [] then
        bindE (lift_registry (get_source_mapping (text_or_empty mapping_id) st)) (\<lambda>m.
        if sm_status m \<noteq> ACTIVE then
          Inl (RegistryFailure (MappingValidationError (''Cannot resolve query with mapping '' @ quoted (text_or_empty mapping_id) @
            '' in '' @ quoted (status_name (sm_status m)) @ '' status. Only ACTIVE mappings can be used for execution.'')))
        else Inr (Some m, find_matching_entity_mapping m n))
      else if text_or_empty model_id \<noteq> [] then
        (let ms = active_mappings st model_id (Some sid);
             about = '' for logical model '' @ quoted (text_or_empty model_id) @ '' and source '' @ quoted sid @ ''.''
         in if ms = [] then Inl (RegistryFailure (MappingValidationError (''No ACTIVE mapping found'' @ about)))
            else if 1 < length ms then Inl (RegistryFailure (MappingValidationError (''Ambiguous active mappings'' @ about)))
            else Inr (first_matching ms n))
      else Inr (first_matching (active_mappings st None (Some sid)) n))"

section \<open>The logical model of a query without a source\<close>

definition model_names_entity :: "registry_store \<Rightarrow> string \<Rightarrow> logical_model \<Rightarrow> bool" where
  "model_names_entity st n m \<longleftrightarrow>
     get_entity_by_name m n \<noteq> None \<or> get_entity_by_id m n \<noteq> None \<or>
     list_ex (\<lambda>sm. list_ex (names_entity (py_lower (py_strip n))) (sm_entities sm)) (active_mappings st (Some (lm_id m)) None)"

definition resolve_logical_model_id :: "registry_store \<Rightarrow> string \<Rightarrow> string option \<Rightarrow> route_error + string" where
  "resolve_logical_model_id st n explicit =
     (if text_or_empty explicit \<noteq> [] then
        Inr (case get_model (text_or_empty explicit) st of Inl e \<Rightarrow> text_or_empty explicit | Inr m \<Rightarrow> lm_id m)
      else
        (case filter (model_names_entity st n) (list_models st) of
           [m] \<Rightarrow> Inr (lm_id m)
         | [] \<Rightarrow> Inr (case list_models st of [m] \<Rightarrow> lm_id m | _ \<Rightarrow> [])
         | ms \<Rightarrow> Inl (ContextMissing n (map lm_name ms))))"

section \<open>Names of the result\<close>

definition project_row :: "string list \<Rightarrow> row \<Rightarrow> row" where
  "project_row cols r = dict_of (List.map_filter (\<lambda>c. map_option (\<lambda>v. (c, v)) (dict_get r c)) cols)"

definition first_occurrences :: "'a list \<Rightarrow> 'a list" where
  "first_occurrences xs = rev (remdups (rev xs))"

definition normalize_result_rows ::
  "string list \<Rightarrow> row list \<Rightarrow> string dict \<Rightarrow> string list \<Rightarrow> bool \<Rightarrow> string list \<Rightarrow> string list \<Rightarrow> string list \<times> row list" where
  "normalize_result_rows cols rows p2l order wildcard requested aliases =
     (if p2l = [] then (cols, rows)
      else
        (let rs = map (normalize_row p2l False aliases) rows in
         if \<not> wildcard \<and> requested \<noteq> [] then (requested, map (project_row requested) rs)
         else if order \<noteq> [] then
           (filter (\<lambda>f. f \<in> snd ` set p2l \<or> list_ex (\<lambda>r. dict_get r f \<noteq> None) rs) order, rs)
         else (first_occurrences (List.map_filter (dict_get p2l) cols), rs)))"

section \<open>Responses\<close>

record query_metadata =
  md_row_count :: int
  md_affected :: "int option"
  md_message :: "string option"
  md_operation :: query_operation
  md_scope :: mutation_scope
  md_normalized :: bool
  md_ephemeral :: bool
  md_included :: "source_report list"
  md_excluded :: "source_exclusion list"

record execute_response =
  ex_success :: bool
  ex_ir :: "query_ir option"
  ex_bound :: "bound_ir option"
  ex_classification :: "mutation_classification option"
  ex_query :: "physical_result option"
  ex_queries :: "physical_result list"
  ex_columns :: "string list"
  ex_rows :: "row list"
  ex_metadata :: "query_metadata option"
  ex_mode :: string
  ex_sources :: "string list"
  ex_source_names :: "string list"
  ex_selected_source :: "string option"
  ex_selected_mapping :: "string option"
  ex_error :: "route_error option"

text \<open>The response that carries an error and the defaults of the model.\<close>

definition failed :: "query_ir option \<Rightarrow> route_error \<Rightarrow> execute_response" where
  "failed ir e =
     \<lparr>ex_success = False, ex_ir = ir, ex_bound = None, ex_classification = None, ex_query = None, ex_queries = [],
      ex_columns = [], ex_rows = [], ex_metadata = None, ex_mode = ''single'', ex_sources = [], ex_source_names = [],
      ex_selected_source = None, ex_selected_mapping = None, ex_error = Some e\<rparr>"

text \<open>A response, the refusal of a scope (403), or an error that no handler catches (500).\<close>

datatype 'a http = Answer 'a | Denied query_operation | Crash route_error

definition caught :: "(route_error \<Rightarrow> bool) \<Rightarrow> (route_error \<Rightarrow> 'a) \<Rightarrow> route_error \<Rightarrow> 'a http" where
  "caught handled respond e = (if handled e then Answer (respond e) else Crash e)"

definition stream_or_query :: "route_error \<Rightarrow> bool" where
  "stream_or_query e \<longleftrightarrow> is_stream_error e \<or> is_query_error e"

section \<open>The path over all sources\<close>

definition successes :: "(physical_plan \<times> (source_exclusion + query_result \<times> source_report)) list \<Rightarrow>
  (physical_plan \<times> query_result \<times> source_report) list" where
  "successes rs = List.map_filter (\<lambda>(p, r). case r of Inl x \<Rightarrow> None | Inr (q, i) \<Rightarrow> Some (p, q, i)) rs"

definition failures :: "(physical_plan \<times> (source_exclusion + query_result \<times> source_report)) list \<Rightarrow> source_exclusion list" where
  "failures rs = List.map_filter (\<lambda>(p, r). case r of Inl x \<Rightarrow> Some x | Inr q \<Rightarrow> None) rs"

definition federated_message :: "nat \<Rightarrow> nat \<Rightarrow> nat \<Rightarrow> string" where
  "federated_message included failed_count excluded =
     ''Federated query executed successfully across '' @ show_int (int included) @ '' sources ('' @
     show_int (int failed_count) @ '' failed, '' @ show_int (int excluded) @ '' excluded).''"

definition federated_response ::
  "query_ir \<Rightarrow> federated_plan \<Rightarrow> (physical_plan \<times> (source_exclusion + query_result \<times> source_report)) list \<Rightarrow> execute_response" where
  "federated_response ir fp rs =
     (let queries = map (pp_physical_query \<circ> fst) rs; done_plans = successes rs; lost = failures rs in
      case fp_physical_plans fp of
        [] \<Rightarrow> (failed (Some ir) NoPlans)\<lparr>ex_mode := ''federated''\<rparr>
      | first # _ \<Rightarrow>
          if done_plans = [] then
            (failed (Some ir) (AllSourcesFailed (length (fp_physical_plans fp)) (join ''; '' (map xs_message lost))))
              \<lparr>ex_bound := Some (pp_bound_ir first),
               ex_query := (case queries of [] \<Rightarrow> None | q # _ \<Rightarrow> Some q), ex_queries := queries, ex_mode := ''federated''\<rparr>
          else
            (case merge_federated_results ir fp (map (\<lambda>(p, q, i). (p, qr_rows q)) done_plans) of
               (cols, rows) \<Rightarrow>
                 \<lparr>ex_success = True, ex_ir = Some ir, ex_bound = Some (pp_bound_ir first),
                  ex_classification = Some (pp_classification first),
                  ex_query = (case queries of [] \<Rightarrow> None | q # _ \<Rightarrow> Some q), ex_queries = queries,
                  ex_columns = cols, ex_rows = rows,
                  ex_metadata = Some
                    \<lparr>md_row_count = int (length rows), md_affected = None,
                     md_message = Some (federated_message (length done_plans) (length lost) (length (fp_excluded fp))),
                     md_operation = READ, md_scope = NOT_APPLICABLE, md_normalized = True,
                     md_ephemeral = fp_is_ephemeral fp, md_included = map (\<lambda>(p, q, i). i) done_plans,
                     md_excluded = fp_excluded fp @ lost\<rparr>,
                  ex_mode = ''federated'', ex_sources = map (\<lambda>(p, q, i). pp_source_id p) done_plans,
                  ex_source_names = map (\<lambda>(p, q, i). or_text (sr_source_name i) (pp_source_id p)) done_plans,
                  ex_selected_source = None, ex_selected_mapping = None, ex_error = None\<rparr>))"

definition plan_request :: "engine \<Rightarrow> query_ir \<Rightarrow> string option \<Rightarrow> route_error + federated_plan" where
  "plan_request en ir model =
     bindE (resolve_logical_model_id (en_store en) (entity ir) model) (\<lambda>model_id.
     lift_federated (create_federated_plan (en_lowerers en) (en_store en) ir (Some model_id)))"

definition execute_federated :: "engine \<Rightarrow> query_ir \<Rightarrow> string option \<Rightarrow> execute_response http \<times> service_event list" where
  "execute_federated en ir model =
     (if operation ir \<in> {CREATE, UPDATE, DELETE} then (Answer (failed (Some ir) (FederatedMutation (operation ir))), [])
      else case plan_request en ir model of
        Inl e \<Rightarrow> (caught stream_or_query (failed (Some ir)) e, [])
      | Inr fp \<Rightarrow>
          (let runs = map (\<lambda>p. (p, execute_isolated en p)) (fp_physical_plans fp) in
           (Answer (federated_response ir fp (map (\<lambda>(p, r, evs). (p, r)) runs)), concat (map (\<lambda>(p, r, evs). evs) runs))))"

section \<open>The path over one source\<close>

definition output_names :: "query_ir \<Rightarrow> string list" where
  "output_names ir = map (\<lambda>sel. or_text (text_or_empty (sel_alias sel)) (leaf (sel_path sel))) (projection ir)"

definition mapping_wanted :: "execute_request \<Rightarrow> bool" where
  "mapping_wanted rq \<longleftrightarrow> text_or_empty (rq_mapping_id rq) \<noteq> [] \<or> text_or_empty (rq_model_id rq) \<noteq> [] \<or> rq_normalize rq"

text \<open>The tree to bind: resolved through the mapping when one is asked for and found.\<close>

definition resolved_request ::
  "engine \<Rightarrow> execute_request \<Rightarrow> query_ir \<Rightarrow> route_error + query_ir \<times> entity_mapping option" where
  "resolved_request en rq ir =
     (if \<not> mapping_wanted rq then Inr (ir, None)
      else bindE (find_active_source_and_entity_mapping (en_store en) (text_or_empty (rq_source_id rq)) (entity ir)
             (rq_mapping_id rq) (rq_model_id rq)) (\<lambda>(m, em).
        case m of None \<Rightarrow> Inr (ir, em) | Some sm \<Rightarrow> bindE (lift_query (resolve_logical_ir ir sm)) (\<lambda>r. Inr (r, em))))"

definition logical_rows :: "execute_request \<Rightarrow> query_ir \<Rightarrow> query_ir \<Rightarrow> entity_mapping option \<Rightarrow> query_result \<Rightarrow> string list \<times> row list" where
  "logical_rows rq original resolved em r =
     (case em of
        Some em' \<Rightarrow>
          if rq_normalize rq then
            normalize_result_rows (qr_columns r) (qr_rows r)
              (dict_of (map (\<lambda>fm. (fm_physical_name fm, fm_logical_name fm)) (em_fields em')))
              (map fm_logical_name (em_fields em')) (is_wildcard_projection original)
              (if is_wildcard_projection original then [] else output_names original)
              (if is_wildcard_projection original then [] else filter (\<lambda>a. a \<noteq> []) (List.map_filter sel_alias (projection resolved)))
          else (qr_columns r, qr_rows r)
      | None \<Rightarrow> (qr_columns r, qr_rows r))"

definition single_success ::
  "execute_request \<Rightarrow> query_ir \<Rightarrow> query_ir \<Rightarrow> entity_mapping option \<Rightarrow> source \<Rightarrow> bound_ir \<Rightarrow> physical_result \<Rightarrow> query_result \<Rightarrow>
   execute_response" where
  "single_success rq original resolved em src b pq r =
     (case logical_rows rq original resolved em r of
        (cols, rows) \<Rightarrow>
          \<lparr>ex_success = True, ex_ir = Some resolved, ex_bound = Some b, ex_classification = Some (classify_query b),
           ex_query = Some pq, ex_queries = [pq], ex_columns = cols, ex_rows = rows,
           ex_metadata = Some
             \<lparr>md_row_count = qr_row_count r,
              md_affected = (case qr_affected_rows r of Some n \<Rightarrow> Some n
                | None \<Rightarrow> if mc_operation (classify_query b) \<noteq> READ then Some (qr_row_count r) else None),
              md_message = qr_message r, md_operation = mc_operation (classify_query b), md_scope = mc_scope (classify_query b),
              md_normalized = (rq_normalize rq \<and> em \<noteq> None), md_ephemeral = False,
              md_included = [\<lparr>sr_source_id = src_id src, sr_source_name = src_name src, sr_source_type = src_type src,
                 sr_entity = be_name (b_entity b), sr_rows = qr_row_count r\<rparr>],
              md_excluded = []\<rparr>,
           ex_mode = ''single'', ex_sources = [text_or_empty (rq_source_id rq)], ex_source_names = [src_name src],
           ex_selected_source = rq_source_id rq, ex_selected_mapping = rq_mapping_id rq, ex_error = None\<rparr>)"

text \<open>From the bound tree on: lowering, the confirmation of a deletion without condition, and the run.\<close>

definition execute_bound ::
  "engine \<Rightarrow> execute_request \<Rightarrow> query_ir \<Rightarrow> query_ir \<Rightarrow> entity_mapping option \<Rightarrow> source \<Rightarrow> bound_ir \<Rightarrow>
   execute_response http \<times> service_event list" where
  "execute_bound en rq original resolved em src b =
     (let cl = classify_query b; sid = text_or_empty (rq_source_id rq);
          respond = (\<lambda>q e. (failed (Some resolved) e)\<lparr>ex_bound := Some b, ex_classification := Some cl, ex_query := q\<rparr>);
          selected = (\<lambda>x. x\<lparr>ex_selected_source := rq_source_id rq, ex_selected_mapping := rq_mapping_id rq\<rparr>)
      in case bindE (lift_plan (get_lowerer (en_lowerers en) (Inl (src_type src)))) (\<lambda>l. lift_query (l b)) of
           Inl e \<Rightarrow> (caught is_query_error (respond None) e, [])
         | Inr pq \<Rightarrow>
             if mc_requires_confirmation cl \<and> \<not> rq_confirm rq then
               (Answer (selected (respond (Some pq) (ConfirmationRequired (mc_operation cl) (mc_entity cl)))), [])
             else
               (case run_physical en sid pq of
                  (Inl e, evs) \<Rightarrow> (Answer (selected (respond (Some pq) (ServiceFailure e))), evs)
                | (Inr r, evs) \<Rightarrow> (Answer (single_success rq original resolved em src b pq r), evs)))"

definition execute_explicit :: "engine \<Rightarrow> execute_request \<Rightarrow> query_ir \<Rightarrow> execute_response http \<times> service_event list" where
  "execute_explicit en rq ir =
     (let sid = text_or_empty (rq_source_id rq) in
      case resolved_request en rq ir of
        Inl e \<Rightarrow> (caught is_stream_error (failed (Some ir)) e, [])
      | Inr (r, em) \<Rightarrow>
          (case get_source sid (en_store en) of
             Inl e \<Rightarrow> (Answer (failed (Some r) (RegistryFailure e)), [])
           | Inr src \<Rightarrow>
               (case get_latest_schema sid (en_store en) of
                  Inl e \<Rightarrow> (Crash (RegistryFailure e), [])
                | Inr None \<Rightarrow> (Answer (failed (Some r) (SchemaMissing sid)), [])
                | Inr (Some schema) \<Rightarrow>
                    (case lift_query (bind_altrql r schema) of
                       Inl e \<Rightarrow> (caught is_query_error (failed (Some r)) e, [])
                     | Inr b \<Rightarrow> execute_bound en rq ir r em src b))))"

section \<open>The endpoint\<close>

definition execute_altrql_query ::
  "engine \<Rightarrow> api_key option \<Rightarrow> execute_request \<Rightarrow> execute_response http \<times> service_event list" where
  "execute_altrql_query en key rq =
     (case lift_query (parse_altrql (rq_query rq)) of
        Inl e \<Rightarrow> (caught is_query_error (failed None) e, [])
      | Inr ir \<Rightarrow>
          if operation ir \<in> {CREATE, UPDATE, DELETE} \<and> \<not> may_write key then (Denied (operation ir), [])
          else if text_or_empty (rq_source_id rq) = [] then execute_federated en ir (rq_model_id rq)
          else execute_explicit en rq ir)"

end
