(* ===== verification/Planning_Routes.thy ===== *)
theory Planning_Routes
  imports Execution
begin

text \<open>
  The endpoints \<open>/altrql/parse\<close>, \<open>/altrql/bind\<close> and \<open>/altrql/plan\<close> of \<open>presentation/api/routes/altrql.py\<close>. They
  take no driver: none of them can reach a database. The HTTP headers are in the response of the
  execution model only as its mode and its sources.
\<close>

section \<open>Parsing\<close>

definition parse_altrql_query :: "string \<Rightarrow> (query_error + query_ir) http" where
  "parse_altrql_query text =
     (case parse_altrql text of
        Inr ir \<Rightarrow> Answer (Inr ir)
      | Inl e \<Rightarrow> if language_error e then Answer (Inl e) else Crash (QueryFailure e))"

section \<open>Binding\<close>

record bind_response =
  bd_success :: bool
  bd_ir :: "query_ir option"
  bd_bound :: "bound_ir option"
  bd_classification :: "mutation_classification option"
  bd_mode :: string
  bd_is_ephemeral :: bool
  bd_projection :: "ephemeral_projection option"
  bd_source :: "string option"
  bd_mapping :: "string option"
  bd_error :: "route_error option"

definition bind_failed :: "query_ir option \<Rightarrow> route_error \<Rightarrow> bind_response" where
  "bind_failed ir e =
     \<lparr>bd_success = False, bd_ir = ir, bd_bound = None, bd_classification = None, bd_mode = ''single'',
      bd_is_ephemeral = False, bd_projection = None, bd_source = None, bd_mapping = None, bd_error = Some e\<rparr>"

definition bind_federated :: "engine \<Rightarrow> query_ir \<Rightarrow> string option \<Rightarrow> bind_response http" where
  "bind_federated en ir model =
     (case plan_request en ir model of
        Inl e \<Rightarrow> caught stream_or_query (bind_failed (Some ir)) e
      | Inr fp \<Rightarrow>
          (case fp_physical_plans fp of
             [] \<Rightarrow> Crash NoPlans
           | p # _ \<Rightarrow> Answer
               \<lparr>bd_success = True, bd_ir = Some ir, bd_bound = Some (pp_bound_ir p),
                bd_classification = Some (pp_classification p), bd_mode = ''federated'',
                bd_is_ephemeral = fp_is_ephemeral fp, bd_projection = fp_projection fp,
                bd_source = Some (pp_source_id p), bd_mapping = Some (pp_mapping_id p), bd_error = None\<rparr>))"

definition bind_explicit :: "engine \<Rightarrow> execute_request \<Rightarrow> query_ir \<Rightarrow> bind_response http" where
  "bind_explicit en rq ir =
     (case resolved_request en rq ir of
        Inl e \<Rightarrow> caught is_stream_error (bind_failed (Some ir)) e
      | Inr (r, em) \<Rightarrow>
          (case get_latest_schema (text_or_empty (rq_source_id rq)) (en_store en) of
             Inl e \<Rightarrow> Answer (bind_failed (Some r) (RegistryFailure e))
           | Inr None \<Rightarrow> Answer (bind_failed (Some r) (SchemaMissing (text_or_empty (rq_source_id rq))))
           | Inr (Some schema) \<Rightarrow>
               (case lift_query (bind_altrql r schema) of
                  Inl e \<Rightarrow> caught is_query_error (bind_failed (Some r)) e
                | Inr b \<Rightarrow> Answer
                    \<lparr>bd_success = True, bd_ir = Some r, bd_bound = Some b, bd_classification = Some (classify_query b),
                     bd_mode = ''single'', bd_is_ephemeral = False, bd_projection = None,
                     bd_source = rq_source_id rq, bd_mapping = rq_mapping_id rq, bd_error = None\<rparr>)))"

text \<open>The request of the endpoint has the fields of an execution but the confirmation.\<close>

definition bind_altrql_query :: "engine \<Rightarrow> execute_request \<Rightarrow> bind_response http" where
  "bind_altrql_query en rq =
     (case lift_query (parse_altrql (rq_query rq)) of
        Inl e \<Rightarrow> caught is_query_error (bind_failed None) e
      | Inr ir \<Rightarrow> if text_or_empty (rq_source_id rq) = [] then bind_federated en ir (rq_model_id rq) else bind_explicit en rq ir)"

section \<open>Planning\<close>

record plan_item =
  pi_source_id :: string
  pi_source_name :: string
  pi_source_type :: source_type
  pi_mapping_id :: string
  pi_entity :: string
  pi_query :: physical_result
  pi_bound :: bound_ir

definition plan_item_of :: "physical_plan \<Rightarrow> plan_item" where
  "plan_item_of p =
     \<lparr>pi_source_id = pp_source_id p, pi_source_name = pp_source_name p, pi_source_type = pp_source_type p,
      pi_mapping_id = pp_mapping_id p, pi_entity = pp_physical_entity p, pi_query = pp_physical_query p, pi_bound = pp_bound_ir p\<rparr>"

record plan_response =
  pl_success :: bool
  pl_model :: "string option"
  pl_target :: "string option"
  pl_mode :: string
  pl_is_ephemeral :: bool
  pl_source :: "string option"
  pl_mapping :: "string option"
  pl_entity :: "string option"
  pl_ir :: "query_ir option"
  pl_bound :: "bound_ir option"
  pl_classification :: "mutation_classification option"
  pl_query :: "physical_result option"
  pl_items :: "plan_item list"
  pl_total :: nat
  pl_candidates :: "candidate_evaluation list"
  pl_excluded :: "source_exclusion list"
  pl_error :: "route_error option"

definition plan_failed :: "route_error \<Rightarrow> plan_response" where
  "plan_failed e =
     \<lparr>pl_success = False, pl_model = None, pl_target = None, pl_mode = ''single'', pl_is_ephemeral = False,
      pl_source = None, pl_mapping = None, pl_entity = None, pl_ir = None, pl_bound = None, pl_classification = None,
      pl_query = None, pl_items = [], pl_total = 1, pl_candidates = [], pl_excluded = [], pl_error = Some e\<rparr>"

definition plan_federated :: "engine \<Rightarrow> query_ir \<Rightarrow> string option \<Rightarrow> plan_response http" where
  "plan_federated en ir model =
     (case resolve_logical_model_id (en_store en) (entity ir) model of
        Inl e \<Rightarrow> caught stream_or_query plan_failed e
      | Inr model_id \<Rightarrow>
          (case lift_federated (create_federated_plan (en_lowerers en) (en_store en) ir (Some model_id)) of
             Inl e \<Rightarrow> caught stream_or_query plan_failed e
           | Inr fp \<Rightarrow>
               (case fp_physical_plans fp of
                  [] \<Rightarrow> Crash NoPlans
                | p # _ \<Rightarrow> Answer
                    \<lparr>pl_success = True, pl_model = Some model_id, pl_target = Some (entity ir), pl_mode = ''federated'',
                     pl_is_ephemeral = fp_is_ephemeral fp, pl_source = Some (pp_source_id p),
                     pl_mapping = Some (pp_mapping_id p), pl_entity = Some (pp_physical_entity p), pl_ir = Some ir,
                     pl_bound = Some (pp_bound_ir p), pl_classification = Some (pp_classification p),
                     pl_query = Some (pp_physical_query p), pl_items = map plan_item_of (fp_physical_plans fp),
                     pl_total = length (fp_physical_plans fp), pl_candidates = fp_candidates fp,
                     pl_excluded = fp_excluded fp, pl_error = None\<rparr>)))"

text \<open>\<open>except Exception\<close>: every error of the explicit path is answered.\<close>

definition plan_explicit :: "engine \<Rightarrow> execute_request \<Rightarrow> query_ir \<Rightarrow> plan_response" where
  "plan_explicit en rq ir =
     (let sid = text_or_empty (rq_source_id rq) in
      case bindE (lift_registry (get_source sid (en_store en))) (\<lambda>src.
           bindE (lift_registry (get_latest_schema sid (en_store en))) (\<lambda>found.
           (case found of
              None \<Rightarrow> Inl (RegistryFailure (MappingValidationError
                (''No schema snapshot discovered yet for source '' @ quoted sid @ ''.'')))
            | Some schema \<Rightarrow>
                bindE (resolved_request en rq ir) (\<lambda>(r, em).
                bindE (lift_query (bind_altrql r schema)) (\<lambda>b.
                bindE (lift_plan (get_lowerer (en_lowerers en) (Inl (src_type src)))) (\<lambda>l.
                bindE (lift_query (l b)) (\<lambda>pq. Inr (src, b, pq)))))))) of
        Inl e \<Rightarrow> plan_failed e
      | Inr (src, b, pq) \<Rightarrow>
          \<lparr>pl_success = True, pl_model = rq_model_id rq, pl_target = Some (entity ir), pl_mode = ''single'',
           pl_is_ephemeral = False, pl_source = Some (src_id src), pl_mapping = rq_mapping_id rq,
           pl_entity = Some (be_name (b_entity b)), pl_ir = Some ir, pl_bound = Some b,
           pl_classification = Some (classify_query b), pl_query = Some pq, pl_items = [], pl_total = 1,
           pl_candidates = [], pl_excluded = [], pl_error = None\<rparr>)"

definition plan_altrql_query :: "engine \<Rightarrow> execute_request \<Rightarrow> plan_response http" where
  "plan_altrql_query en rq =
     (case lift_query (parse_altrql (rq_query rq)) of
        Inl e \<Rightarrow> caught is_query_error plan_failed e
      | Inr ir \<Rightarrow>
          if text_or_empty (rq_source_id rq) = [] then plan_federated en ir (rq_model_id rq)
          else Answer (plan_explicit en rq ir))"

end
