(* ===== verification/Execution_Correctness.thy ===== *)
theory Execution_Correctness
  imports Planning_Routes Federated_Correctness
begin

text \<open>
  What the execution of a query guarantees (\<open>presentation/api/routes/altrql.py\<close>, \<open>application/query_service.py\<close>):
  which requests reach a database, with which call, how the failures of sources are kept apart, and that
  every statement is counted.
\<close>

section \<open>Calls and counts\<close>

fun call_source :: "driver_call \<Rightarrow> source" where
  "call_source (DriverQuery s q ps) = s"
| "call_source (DriverBatch s qs) = s"

fun call_size :: "driver_call \<Rightarrow> nat" where
  "call_size (DriverQuery s q ps) = 1"
| "call_size (DriverBatch s qs) = length qs"

definition calls :: "service_event list \<Rightarrow> driver_call list" where
  "calls evs = List.map_filter (\<lambda>e. case e of CallDriver c \<Rightarrow> Some c | _ \<Rightarrow> None) evs"

definition counted :: "service_event list \<Rightarrow> nat" where
  "counted evs = sum_list (map (\<lambda>e. case e of CallDriver c \<Rightarrow> 0 | RecordWrite n s \<Rightarrow> n | RecordRead n s \<Rightarrow> n) evs)"

definition answered :: "driver \<Rightarrow> driver_call \<Rightarrow> bool" where
  "answered drv c \<longleftrightarrow> (case drv c of Inl e \<Rightarrow> False | Inr r \<Rightarrow> True)"

lemma events_append [simp]: "calls (xs @ ys) = calls xs @ calls ys" "counted (xs @ ys) = counted xs + counted ys"
  by (simp_all add: calls_def counted_def map_filter_def)

lemma events_simps [simp]:
  "calls [] = []" "counted [] = 0" "calls (CallDriver c # evs) = c # calls evs" "counted (CallDriver c # evs) = counted evs"
  "calls (RecordWrite n s # evs) = calls evs" "counted (RecordWrite n s # evs) = n + counted evs"
  "calls (RecordRead n s # evs) = calls evs" "counted (RecordRead n s # evs) = n + counted evs"
  by (simp_all add: calls_def counted_def map_filter_def)

lemma events_concat: "calls (concat xss) = concat (map calls xss)" "counted (concat xss) = sum_list (map counted xss)"
  by (induction xss) simp_all

text \<open>The call that a physical query becomes for a source.\<close>

definition prepared_call :: "bson_library \<Rightarrow> source \<Rightarrow> physical_result \<Rightarrow> service_error + driver_call" where
  "prepared_call L src pr =
     (case pr of
        SingleQuery q \<Rightarrow> bindE (prepare_query L src (pq_query q) (native_parameters q) None) (\<lambda>(t, ps). Inr (DriverQuery src t ps))
      | QueryBatch b \<Rightarrow> bindE (mapE (prepare_batched L src) (map (\<lambda>q. (pq_query q, native_parameters q)) (pb_queries b)))
          (\<lambda>qs. Inr (DriverBatch src qs)))"

lemma custom_query_all [simp]: "custom_query t"
  by (cases t) simp_all

text \<open>A run of a physical query: no call, or one call, counted when it is answered.\<close>

lemma run_physical_cases:
  assumes "run_physical en sid pr = (res, evs)"
  obtains (unknown) "get_source_by_id (en_store en) sid = None" "res = Inl (NoSuchSource sid)" "evs = []"
  | (refused) src e where "get_source_by_id (en_store en) sid = Some src"
      "prepared_call (en_library en) src pr = Inl e" "res = Inl e" "evs = []"
  | (failed_call) src c cls m where "get_source_by_id (en_store en) sid = Some src"
      "prepared_call (en_library en) src pr = Inr c" "en_driver en c = Inl (cls, m)" "call_source c = src"
      "res = Inl (ConnectorFailed cls m)" "evs = [CallDriver c]"
  | (ok_call) src c r counts where "get_source_by_id (en_store en) sid = Some src"
      "prepared_call (en_library en) src pr = Inr c" "en_driver en c = Inr r" "call_source c = src"
      "res = Inr r" "evs = CallDriver c # counts" "calls counts = []" "counted counts = call_size c"
proof (cases "get_source_by_id (en_store en) sid")
  case None
  then show ?thesis using assms unknown
    by (auto simp: run_physical_def execute_query_def execute_batch_def split: physical_result.splits)
next
  case (Some src)
  show ?thesis
  proof (cases "prepared_call (en_library en) src pr")
    case (Inl e)
    then show ?thesis using assms Some refused
      by (auto simp: run_physical_def execute_query_def execute_batch_def prepared_call_def bindE_Inl_iff
          split: physical_result.splits)
  next
    case (Inr c)
    obtain counts where c: "call_source c = src" "calls counts = []" "counted counts = call_size c"
      "call_driver (en_driver en) c counts = (res, evs)"
    proof (cases pr)
      case (SingleQuery q)
      then obtain t ps where "prepare_query (en_library en) src (pq_query q) (native_parameters q) None = Inr (t, ps)"
        "c = DriverQuery src t ps" using Inr by (auto simp: prepared_call_def bindE_Inr_iff)
      then show ?thesis using that [of "[if is_write_query t then RecordWrite 1 sid else RecordRead 1 sid]"] assms Some SingleQuery
        by (simp add: run_physical_def execute_query_def split: if_splits)
    next
      case (QueryBatch b)
      then obtain qs where qs: "mapE (prepare_batched (en_library en) src) (map (\<lambda>q. (pq_query q, native_parameters q)) (pb_queries b)) = Inr qs"
        "c = DriverBatch src qs" using Inr by (auto simp: prepared_call_def bindE_Inr_iff)
      define w where "w = length (filter (is_write_query \<circ> fst) qs)"
      have w: "w \<le> length qs" by (simp add: w_def)
      define cs where "cs = (if 0 < w then [RecordWrite w sid] else []) @
        (if 0 < length qs - w then [RecordRead (length qs - w) sid] else [])"
      have "call_driver (en_driver en) c cs = (res, evs)"
        using assms Some QueryBatch qs
        by (auto simp: run_physical_def execute_batch_def Let_def w_def cs_def split: if_splits)
      moreover have "calls cs = []" "counted cs = call_size c" using w qs(2) by (simp_all add: cs_def)
      ultimately show ?thesis using that qs(2) by simp
    qed
    show ?thesis
    proof (cases "en_driver en c")
      case (Inl e)
      then show ?thesis using c Inr Some failed_call [of src c "fst e" "snd e"] by (simp add: call_driver_def split: prod.splits)
    next
      case (Inr r)
      then show ?thesis using c \<open>prepared_call _ _ _ = _\<close> Some ok_call [of src c r counts] by (simp add: call_driver_def)
    qed
  qed
qed

section \<open>What reaches a database\<close>

lemma bind_keeps: "bind_altrql r schema = Inr b \<Longrightarrow> b_operation b = operation r \<and> (b_where b = None \<longleftrightarrow> where_clause r = None)"
  by (auto simp: bind_altrql_def bindE_Inr_iff optionE_def split: option.splits)

lemma resolve_keeps: "resolve_logical_ir ir sm = Inr r \<Longrightarrow> operation r = operation ir \<and> (where_clause r = None \<longleftrightarrow> where_clause ir = None)"
  by (auto simp: resolve_logical_ir_def Let_def split: option.splits)

lemma resolved_request_keeps:
  "resolved_request en rq ir = Inr (r, em) \<Longrightarrow> operation r = operation ir \<and> (where_clause r = None \<longleftrightarrow> where_clause ir = None)"
  using resolve_keeps by (fastforce simp: resolved_request_def bindE_Inr_iff split: if_splits option.splits prod.splits)

text \<open>The way through the path over one source, as far as its call.\<close>

definition explicit_run :: "engine \<Rightarrow> execute_request \<Rightarrow> query_ir \<Rightarrow> source \<Rightarrow> bound_ir \<Rightarrow> physical_result \<Rightarrow> bool" where
  "explicit_run en rq ir src b pq \<longleftrightarrow>
     get_source_by_id (en_store en) (text_or_empty (rq_source_id rq)) = Some src \<and>
     b_operation b = operation ir \<and> (b_where b = None \<longleftrightarrow> where_clause ir = None) \<and>
     (\<exists>schema r. latest_snapshot (en_store en) (text_or_empty (rq_source_id rq)) = Some schema \<and> bind_altrql r schema = Inr b) \<and>
     (\<exists>l. get_lowerer (en_lowerers en) (Inl (src_type src)) = Inr l \<and> l b = Inr pq) \<and>
     (mc_requires_confirmation (classify_query b) \<longrightarrow> rq_confirm rq)"

lemma explicit_cases:
  assumes "execute_explicit en rq ir = (resp, evs)"
  obtains (stopped) "evs = []" "(case resp of Answer x \<Rightarrow> \<not> ex_success x | _ \<Rightarrow> True)"
  | (lost) src b pq e x where "explicit_run en rq ir src b pq"
      "run_physical en (text_or_empty (rq_source_id rq)) pq = (Inl e, evs)" "resp = Answer x" "\<not> ex_success x"
  | (complete) src b pq q r em where "explicit_run en rq ir src b pq"
      "run_physical en (text_or_empty (rq_source_id rq)) pq = (Inr q, evs)"
      "resp = Answer (single_success rq ir r em src b pq q)"
proof -
  let ?sid = "text_or_empty (rq_source_id rq)"
  show ?thesis
  proof (cases "resolved_request en rq ir")
    case (Inl e)
    then show ?thesis using assms stopped by (auto simp: execute_explicit_def caught_def failed_def)
  next
    case (Inr rem)
    obtain r em where r: "resolved_request en rq ir = Inr (r, em)" using Inr by (cases rem) auto
    show ?thesis
    proof (cases "get_source_by_id (en_store en) ?sid")
      case None
      then show ?thesis using assms stopped r
        by (auto simp: execute_explicit_def get_source_def optionE_or_def failed_def)
    next
      case (Some src)
      then have src: "get_source ?sid (en_store en) = Inr src" by (simp add: get_source_def optionE_or_def)
      show ?thesis
      proof (cases "\<exists>schema b. latest_snapshot (en_store en) ?sid = Some schema \<and> bind_altrql r schema = Inr b")
        case False
        then show ?thesis using assms stopped r src
          by (auto simp: execute_explicit_def get_latest_schema_def failed_def caught_def lift_query_def Let_def
              split: option.splits sum.splits)
      next
        case True
        then obtain schema b where b: "latest_snapshot (en_store en) ?sid = Some schema" "bind_altrql r schema = Inr b" by blast
        then have ex: "execute_bound en rq ir r em src b = (resp, evs)"
          using assms r src by (simp add: execute_explicit_def get_latest_schema_def lift_query_def)
        show ?thesis
        proof (cases "bindE (lift_plan (get_lowerer (en_lowerers en) (Inl (src_type src)))) (\<lambda>l. lift_query (l b))")
          case (Inl e)
          then show ?thesis using ex stopped by (auto simp: execute_bound_def Let_def caught_def failed_def)
        next
          case (Inr pq)
          then obtain l where l: "get_lowerer (en_lowerers en) (Inl (src_type src)) = Inr l" "l b = Inr pq"
            by (auto simp: bindE_Inr_iff)
          show ?thesis
          proof (cases "mc_requires_confirmation (classify_query b) \<and> \<not> rq_confirm rq")
            case True
            then show ?thesis using ex stopped Inr by (auto simp: execute_bound_def Let_def failed_def)
          next
            case False
            then have run: "explicit_run en rq ir src b pq"
              using Some b l bind_keeps [OF b(2)] resolved_request_keeps [OF r] by (simp add: explicit_run_def) blast
            show ?thesis using ex False Inr lost [OF run] complete [OF run]
              by (auto simp: execute_bound_def Let_def failed_def split: prod.splits sum.splits)
          qed
        qed
      qed
    qed
  qed
qed

text \<open>The path over all sources, when its plan is made.\<close>

definition outcomes :: "engine \<Rightarrow> federated_plan \<Rightarrow> (physical_plan \<times> (source_exclusion + query_result \<times> source_report)) list" where
  "outcomes en fp = map (\<lambda>p. (p, fst (execute_isolated en p))) (fp_physical_plans fp)"

lemma federated_cases:
  assumes "execute_federated en ir model = (resp, evs)"
  obtains (stopped) "evs = []" "(case resp of Answer x \<Rightarrow> \<not> ex_success x | _ \<Rightarrow> True)"
      "operation ir \<noteq> READ \<or> (\<exists>e. plan_request en ir model = Inl e)"
  | (run) fp where "operation ir = READ" "plan_request en ir model = Inr fp"
      "resp = Answer (federated_response ir fp (outcomes en fp))"
      "evs = concat (map (\<lambda>p. snd (execute_isolated en p)) (fp_physical_plans fp))"
proof (cases "operation ir = READ")
  case False
  then have "operation ir \<in> {CREATE, UPDATE, DELETE}" by (cases "operation ir") auto
  then show ?thesis using assms stopped False by (auto simp: execute_federated_def failed_def)
next
  case True
  show ?thesis
  proof (cases "plan_request en ir model")
    case (Inl e)
    then show ?thesis using assms stopped True by (auto simp: execute_federated_def caught_def failed_def)
  next
    case (Inr fp)
    then show ?thesis using assms run [OF True Inr] True
      by (auto simp: execute_federated_def Let_def outcomes_def comp_def case_prod_beta)
  qed
qed

text \<open>
  C8. What the endpoint lets through to a database. When a request causes any call or count, its text
  parses; a query that is not a READ comes with a key that may write, or without key enforcement, and names
  one source; and a DELETE or UPDATE without condition was confirmed by the client. Neither the resolution
  of logical names nor the binder between the text and the check can lose or add the condition.
\<close>

theorem execution_gates:
  assumes "execute_altrql_query en key rq = (resp, evs)" "evs \<noteq> []"
  shows "\<exists>ir. parse_altrql (rq_query rq) = Inr ir \<and>
    (operation ir \<noteq> READ \<longrightarrow> may_write key \<and> text_or_empty (rq_source_id rq) \<noteq> []) \<and>
    (operation ir \<in> {UPDATE, DELETE} \<and> where_clause ir = None \<longrightarrow> rq_confirm rq)"
proof -
  obtain ir where ir: "parse_altrql (rq_query rq) = Inr ir"
    using assms by (auto simp: execute_altrql_query_def lift_query_def split: sum.splits)
  have key: "operation ir = READ \<or> may_write key"
    using assms ir by (cases "operation ir") (auto simp: execute_altrql_query_def lift_query_def split: if_splits)
  show ?thesis
  proof (cases "text_or_empty (rq_source_id rq) = []")
    case True
    then have "execute_federated en ir (rq_model_id rq) = (resp, evs)"
      using assms ir by (auto simp: execute_altrql_query_def lift_query_def split: if_splits)
    then show ?thesis using assms(2) ir by (cases rule: federated_cases) auto
  next
    case False
    then have "execute_explicit en rq ir = (resp, evs)"
      using assms ir by (auto simp: execute_altrql_query_def lift_query_def split: if_splits)
    then obtain src b pq where run: "explicit_run en rq ir src b pq" using assms(2) by (cases rule: explicit_cases) auto
    have "operation ir \<in> {UPDATE, DELETE} \<and> where_clause ir = None \<longrightarrow> rq_confirm rq"
      using run unfolding explicit_run_def classify_confirmation by auto
    then show ?thesis using ir key False by blast
  qed
qed

section \<open>The call for one source\<close>

text \<open>
  C10. A request that names its source makes one call, to that source, with the statement that the lowerer
  of the type of the source wrote for the query bound to the latest schema of that source, in the form that the gate of
  native queries gives it. The request succeeds exactly when the driver answers; then every statement of
  the call is counted once, and after a failure none is.
\<close>

theorem explicit_call:
  assumes "execute_explicit en rq ir = (resp, evs)" "evs \<noteq> []"
  shows "\<exists>src b pq c x. explicit_run en rq ir src b pq \<and> prepared_call (en_library en) src pq = Inr c \<and>
    calls evs = [c] \<and> call_source c = src \<and> resp = Answer x \<and> (ex_success x \<longleftrightarrow> answered (en_driver en) c) \<and>
    counted evs = (if ex_success x then call_size c else 0)"
  using assms(1)
proof (cases rule: explicit_cases)
  case stopped
  then show ?thesis using assms(2) by simp
next
  case (lost src b pq e x)
  have src: "get_source_by_id (en_store en) (text_or_empty (rq_source_id rq)) = Some src"
    using lost(1) by (simp add: explicit_run_def)
  from lost(2) show ?thesis
  proof (cases rule: run_physical_cases)
    case (failed_call s c cls m)
    then show ?thesis using lost(1,3,4) src by (fastforce simp: answered_def)
  qed (use assms(2) in simp_all)
next
  case (complete src b pq q r em)
  have src: "get_source_by_id (en_store en) (text_or_empty (rq_source_id rq)) = Some src"
    using complete(1) by (simp add: explicit_run_def)
  from complete(2) show ?thesis
  proof (cases rule: run_physical_cases)
    case (ok_call s c q' counts)
    moreover have "ex_success (single_success rq ir r em src b pq q)"
      by (simp add: single_success_def split: prod.split)
    ultimately show ?thesis using complete(1,3) src
      by (intro exI [of _ src] exI [of _ b] exI [of _ pq] exI [of _ c]) (simp add: answered_def)
  qed (use assms(2) in simp_all)
qed

section \<open>Isolation of sources\<close>

definition source_answer :: "engine \<Rightarrow> physical_plan \<Rightarrow> query_result option" where
  "source_answer en p = (case fst (run_physical en (pp_source_id p) (pp_physical_query p)) of Inl e \<Rightarrow> None | Inr r \<Rightarrow> Some r)"

definition answering :: "engine \<Rightarrow> federated_plan \<Rightarrow> physical_plan list" where
  "answering en fp = filter (\<lambda>p. source_answer en p \<noteq> None) (fp_physical_plans fp)"

definition silent :: "engine \<Rightarrow> federated_plan \<Rightarrow> physical_plan list" where
  "silent en fp = filter (\<lambda>p. source_answer en p = None) (fp_physical_plans fp)"

lemma execute_isolated_cases:
  "fst (execute_isolated en p) =
     (case fst (run_physical en (pp_source_id p) (pp_physical_query p)) of
        Inl e \<Rightarrow> Inl (plan_failure (en_detail en) p e) | Inr r \<Rightarrow> Inr (r, plan_report p r))"
  "snd (execute_isolated en p) = snd (run_physical en (pp_source_id p) (pp_physical_query p))"
  by (auto simp: execute_isolated_def split: prod.splits sum.splits)

lemma outcomes_successes:
  "successes (outcomes en fp) = map (\<lambda>p. (p, the (source_answer en p), plan_report p (the (source_answer en p)))) (answering en fp)"
  unfolding successes_def outcomes_def answering_def
  by (induction "fp_physical_plans fp" arbitrary: fp rule: list.induct)
    (auto simp: map_filter_def source_answer_def execute_isolated_cases filter_map comp_def split: sum.splits)

lemma outcomes_failures:
  "map xs_source_id (failures (outcomes en fp)) = map pp_source_id (silent en fp)"
  "xs_status ` set (failures (outcomes en fp)) \<subseteq> {FAILED}"
proof -
  have "map xs_source_id (failures (map (\<lambda>p. (p, fst (execute_isolated en p))) ps)) =
      map pp_source_id (filter (\<lambda>p. source_answer en p = None) ps) \<and>
    xs_status ` set (failures (map (\<lambda>p. (p, fst (execute_isolated en p))) ps)) \<subseteq> {FAILED}" for ps
    by (induction ps)
      (auto simp: failures_def map_filter_def source_answer_def execute_isolated_cases plan_failure_def Let_def split: sum.splits)
  then show "map xs_source_id (failures (outcomes en fp)) = map pp_source_id (silent en fp)"
    "xs_status ` set (failures (outcomes en fp)) \<subseteq> {FAILED}"
    by (simp_all add: outcomes_def silent_def)
qed

lemma run_call_source:
  assumes "run_physical en sid pr = (res, evs)"
  shows "map (src_id \<circ> call_source) (calls evs) = [] \<or> map (src_id \<circ> call_source) (calls evs) = [sid]"
  using assms
proof (cases rule: run_physical_cases)
  case (failed_call src c cls m)
  then have "src_id src = sid" by (auto simp: get_source_by_id_def find_row_def find_Some_iff)
  then show ?thesis using failed_call by simp
next
  case (ok_call src c r counts)
  then have "src_id src = sid" by (auto simp: get_source_by_id_def find_row_def find_Some_iff)
  then show ?thesis using ok_call by simp
qed simp_all

lemma isolated_call_source: "subseq (map (src_id \<circ> call_source) (calls (snd (execute_isolated en p)))) [pp_source_id p]"
  using run_call_source [of en "pp_source_id p" "pp_physical_query p"]
  by (cases "run_physical en (pp_source_id p) (pp_physical_query p)") (auto simp: execute_isolated_cases)

lemma isolated_calls:
  "subseq (map (src_id \<circ> call_source) (calls (concat (map (\<lambda>p. snd (execute_isolated en p)) ps)))) (map pp_source_id ps)"
proof (induction ps)
  case (Cons p ps)
  then show ?case using list_emb_append_mono [OF isolated_call_source [of en p] Cons.IH] by (simp add: comp_def)
qed simp

lemma plan_not_empty: "create_federated_plan reg st ir m = Inr fp \<Longrightarrow> fp_physical_plans fp \<noteq> []"
  by (auto simp: create_federated_plan_def plan_registered_def plan_ephemeral_def bindE_Inr_iff Let_def
      split: if_splits prod.splits)

text \<open>
  C9. The sources of a federated query are isolated from each other. The query succeeds exactly when some
  source answers. Then every planned source is reported once, with the answering ones as included and the
  others as failed after the ones that planning excluded, and the rows are the merged page of the answers
  alone. Each planned source is called at most once, in the order of the plan, and no other source is
  called.
\<close>

theorem federated_isolation:
  assumes "execute_federated en ir model = (Answer x, evs)" "plan_request en ir model = Inr fp" "operation ir = READ"
  shows "(ex_success x \<longleftrightarrow> answering en fp \<noteq> []) \<and>
    subseq (map (src_id \<circ> call_source) (calls evs)) (accepted_sources fp) \<and>
    (ex_success x \<longrightarrow> (\<exists>md lost. ex_metadata x = Some md \<and>
       ex_sources x = map pp_source_id (answering en fp) \<and> map sr_source_id (md_included md) = ex_sources x \<and>
       md_excluded md = fp_excluded fp @ lost \<and> map xs_source_id lost = map pp_source_id (silent en fp) \<and>
       mset (ex_sources x) + mset (map xs_source_id lost) = mset (accepted_sources fp) \<and>
       ex_rows x = snd (merge_federated_results ir fp (map (\<lambda>p. (p, qr_rows (the (source_answer en p)))) (answering en fp)))))"
proof -
  have x: "x = federated_response ir fp (outcomes en fp)"
    and evs: "evs = concat (map (\<lambda>p. snd (execute_isolated en p)) (fp_physical_plans fp))"
    using assms by (cases rule: federated_cases [OF assms(1)]; simp)+
  obtain first rest' where ps: "fp_physical_plans fp = first # rest'"
  proof -
    obtain m where "create_federated_plan (en_lowerers en) (en_store en) ir m = Inr fp"
      using assms(2) by (auto simp: plan_request_def bindE_Inr_iff)
    then have "fp_physical_plans fp \<noteq> []" by (rule plan_not_empty)
    then show ?thesis using that by (cases "fp_physical_plans fp") auto
  qed
  have lost: "image_mset xs_source_id (mset (failures (outcomes en fp))) = image_mset pp_source_id (mset (silent en fp))"
    using arg_cong [OF outcomes_failures(1) [of en fp], of mset] by simp
  have parts: "mset (map pp_source_id (answering en fp)) + mset (map pp_source_id (silent en fp)) = mset (accepted_sources fp)"
    unfolding answering_def silent_def accepted_sources_def
    by (simp flip: image_mset_union)
  have ok: "ex_success x \<longleftrightarrow> answering en fp \<noteq> []"
    by (simp add: x federated_response_def Let_def ps outcomes_successes failed_def split: prod.split)
  moreover have "subseq (map (src_id \<circ> call_source) (calls evs)) (accepted_sources fp)"
    unfolding evs accepted_sources_def by (rule isolated_calls)
  moreover have "\<exists>md lost. ex_metadata x = Some md \<and>
       ex_sources x = map pp_source_id (answering en fp) \<and> map sr_source_id (md_included md) = ex_sources x \<and>
       md_excluded md = fp_excluded fp @ lost \<and> map xs_source_id lost = map pp_source_id (silent en fp) \<and>
       mset (ex_sources x) + mset (map xs_source_id lost) = mset (accepted_sources fp) \<and>
       ex_rows x = snd (merge_federated_results ir fp (map (\<lambda>p. (p, qr_rows (the (source_answer en p)))) (answering en fp)))"
    if "ex_success x"
    using that ok parts outcomes_failures(1) [of en fp]
    by (simp add: lost x federated_response_def Let_def ps outcomes_successes plan_report_def comp_def split: prod.split)
  ultimately show ?thesis by blast
qed

section \<open>Mappings of other sources\<close>

text \<open>
  A mapping that the client names is not checked to belong to the source that it names: its physical names
  are used for whatever source the request runs on.
\<close>

lemma named_mapping_ignores_source:
  "text_or_empty mapping_id \<noteq> [] \<Longrightarrow>
   find_active_source_and_entity_mapping st sid n mapping_id model_id = find_active_source_and_entity_mapping st other n mapping_id model_id"
  by (simp add: find_active_source_and_entity_mapping_def)

section \<open>A concrete engine\<close>

definition sample_result :: query_result where
  "sample_result = \<lparr>qr_columns = [''id''], qr_rows = [[(''id'', VNum 2 ''2'')]], qr_row_count = 1, qr_affected_rows = None, qr_message = None\<rparr>"

definition sample_engine :: engine where
  "sample_engine =
     \<lparr>en_store = exact_store, en_lowerers = sample_lowerers,
      en_library = \<lparr>lib_accepts = \<lambda>c xs. True, lib_text = \<lambda>v. [], lib_json = \<lambda>s. None\<rparr>,
      en_driver = \<lambda>c. Inr sample_result, en_detail = \<lambda>e. []\<rparr>"

definition sample_request :: "string \<Rightarrow> string option \<Rightarrow> bool \<Rightarrow> execute_request" where
  "sample_request q sid confirm =
     \<lparr>rq_query = q, rq_source_id = sid, rq_mapping_id = None, rq_model_id = Some ''shop'', rq_normalize = False, rq_confirm = confirm\<rparr>"

definition delete_request :: execute_request where
  "delete_request = (sample_request ''DELETE users;'' (Some ''s1'') True)\<lparr>rq_model_id := None\<rparr>"

lemma sample_delete: "calls (snd (execute_altrql_query sample_engine None delete_request)) \<noteq> []"
  by code_simp

lemma execution_gates_witness:
  "\<exists>ir. parse_altrql (rq_query delete_request) = Inr ir \<and>
    (operation ir \<in> {UPDATE, DELETE} \<and> where_clause ir = None \<longrightarrow> rq_confirm delete_request)"
proof -
  obtain resp evs where run: "execute_altrql_query sample_engine None delete_request = (resp, evs)" by fastforce
  then have "evs \<noteq> []" using sample_delete by auto
  from execution_gates [OF run this] show ?thesis by blast
qed

lemma explicit_call_witness:
  "\<exists>src b pq c x. explicit_run sample_engine delete_request (projr (parse_altrql (rq_query delete_request))) src b pq \<and>
    calls (snd (execute_altrql_query sample_engine None delete_request)) = [c] \<and> call_source c = src"
proof -
  obtain ir where ir: "parse_altrql (rq_query delete_request) = Inr ir" "operation ir = DELETE"
  proof -
    have "(case parse_altrql (rq_query delete_request) of Inl e \<Rightarrow> False | Inr ir \<Rightarrow> operation ir = DELETE)" by code_simp
    then show ?thesis using that by (auto split: sum.splits)
  qed
  have "text_or_empty (rq_source_id delete_request) \<noteq> []" by code_simp
  then have same: "execute_altrql_query sample_engine None delete_request = execute_explicit sample_engine delete_request ir"
    using ir by (simp add: execute_altrql_query_def lift_query_def may_write_def)
  obtain resp evs where run: "execute_explicit sample_engine delete_request ir = (resp, evs)" by fastforce
  then have "evs \<noteq> []" using sample_delete unfolding same by auto
  from explicit_call [OF run this] show ?thesis unfolding same run ir(1) by auto
qed

lemma federated_isolation_witness:
  "\<exists>x evs fp. execute_federated sample_engine sample_sorted (Some ''shop'') = (Answer x, evs) \<and>
    plan_request sample_engine sample_sorted (Some ''shop'') = Inr fp \<and> ex_success x \<and>
    ex_sources x = map pp_source_id (answering sample_engine fp)"
proof -
  have read: "operation sample_sorted = READ" by code_simp
  have ok: "(case execute_federated sample_engine sample_sorted (Some ''shop'') of (Answer x, evs) \<Rightarrow> ex_success x | _ \<Rightarrow> False)"
    by code_simp
  obtain x evs where run: "execute_federated sample_engine sample_sorted (Some ''shop'') = (Answer x, evs)" and x: "ex_success x"
    using ok by (auto split: prod.splits http.splits)
  from run obtain fp where fp: "plan_request sample_engine sample_sorted (Some ''shop'') = Inr fp"
    using x by (cases rule: federated_cases) auto
  from federated_isolation [OF run fp read] show ?thesis using run fp x by blast
qed

end
