(* ===== verification/Access_Correctness.thy ===== *)
theory Access_Correctness
  imports Query_Service
begin

text \<open>
  The life of an API key (\<open>application/api_key_service.py\<close>, \<open>infrastructure/database/api_key_repository.py\<close>): what a new key
  grants, that it grants nothing after its revocation, and that keys do not disturb each other.
\<close>

section \<open>The text of the scopes\<close>

lemma lower_char_space: "py_isspace (lower_char c) = py_isspace c"
proof (cases "(65 \<le> ord c \<and> ord c \<le> 90) \<or> (192 \<le> ord c \<and> ord c \<le> 222 \<and> ord c \<noteq> 215)")
  case True
  then have "ord (char_of (ord c + 32)) = ord c + 32" by (auto simp: of_char_of)
  with True show ?thesis by (auto simp: lower_char_def py_isspace_def)
qed (simp only: lower_char_def if_False)

lemma strip_lower: "py_strip (py_lower s) = py_lower (py_strip s)"
  by (simp add: py_strip_def py_lstrip_def py_lower_def dropWhile_map rev_map comp_def lower_char_space)

lemma lower_char_lower: "lower_char (lower_char c) = lower_char c"
proof (cases "(65 \<le> ord c \<and> ord c \<le> 90) \<or> (192 \<le> ord c \<and> ord c \<le> 222 \<and> ord c \<noteq> 215)")
  case True
  then have "ord (char_of (ord c + 32)) = ord c + 32" by (auto simp: of_char_of)
  with True have "lower_char c = char_of (ord c + 32)" "\<not> ((65 \<le> ord (lower_char c) \<and> ord (lower_char c) \<le> 90) \<or>
      (192 \<le> ord (lower_char c) \<and> ord (lower_char c) \<le> 222 \<and> ord (lower_char c) \<noteq> 215))"
    by (auto simp: lower_char_def)
  then show ?thesis by (subst lower_char_def) (simp only: if_False)
qed (simp only: lower_char_def if_False)

lemma strip_set: "set (py_strip s) \<subseteq> set s"
  by (auto simp: py_strip_def py_lstrip_def dest!: set_dropWhileD)

lemma split_on_set: "p \<in> set (split_on c s) \<Longrightarrow> set p \<subseteq> set s"
proof (induction s arbitrary: p)
  case (Cons x s)
  then show ?case by (cases "split_on c s") (auto split: if_splits, blast+)
qed simp

lemma split_on_two: "split_on c (s @ c # t) = split_on c s @ split_on c t"
proof (induction s)
  case (Cons x s)
  then show ?case by (cases "split_on c s") auto
qed simp

lemma split_on_joined: "ps \<noteq> [] \<Longrightarrow> split_on c (join [c] ps) = concat (map (split_on c) ps)"
  by (induction ps rule: induct_list012) (simp_all add: split_on_two)

lemma lowered_kept:
  assumes "set w \<subseteq> set (py_lower s)"
  shows "py_lower w = w"
proof -
  have "lower_char c = c" if "c \<in> set w" for c using assms that lower_char_lower by (auto simp: py_lower_def)
  then show ?thesis by (simp add: py_lower_def map_idI)
qed

text \<open>
  The scopes that a new key has: every text that is given is stripped, put into lower case and split at its
  commas; \<open>read\<close> and \<open>write\<close> when no list is given, \<open>read\<close> when every text is blank.
\<close>

definition scope_words :: "string \<Rightarrow> string set" where
  "scope_words s = set (map py_strip (split_on CHR '','' (py_lower (py_strip s)))) - {[]}"

definition granted_scopes :: "string list \<Rightarrow> string set" where
  "granted_scopes scopes =
     (if scopes = [] then {''read'', ''write''}
      else if \<forall>s \<in> set scopes. py_strip s = [] then {''read''}
      else \<Union> (scope_words ` set scopes))"

text \<open>What a set of scopes permits: a requirement that is none of the three is no restriction.\<close>

definition permits :: "string set \<Rightarrow> string \<Rightarrow> bool" where
  "permits granted required \<longleftrightarrow>
     (let req = py_lower (py_strip required) in
      ''admin'' \<in> granted \<or> req = ''write'' \<and> ''write'' \<in> granted \<or>
      req = ''read'' \<and> (''read'' \<in> granted \<or> ''write'' \<in> granted) \<or> req \<notin> {''read'', ''write'', ''admin''})"

lemma grants_permits: "grants ss r = permits (py_lower ` set ss) r"
  by (auto simp: grants_def permits_def Let_def image_iff)

lemma clean_scopes_set: "set (clean_scopes scopes) = {py_lower (py_strip s) | s. s \<in> set scopes \<and> py_strip s \<noteq> []}"
  by (auto simp: clean_scopes_def)

lemma py_lower_Nil: "py_lower s = [] \<longleftrightarrow> s = []"
  by (simp add: py_lower_def)

lemma join_Nil_iff: "\<forall>s \<in> set ss. s \<noteq> [] \<Longrightarrow> join sep ss = [] \<longleftrightarrow> ss = []"
  by (cases ss rule: remdups_adj.cases) auto

lemma scope_words_blank: "py_strip s = [] \<Longrightarrow> scope_words s = {}"
  by (simp add: scope_words_def py_lower_Nil [THEN iffD2]) (simp add: py_strip_def py_lstrip_def)

lemma scope_list_text_set:
  assumes "scopes \<noteq> []"
  shows "py_lower ` set (scope_list (scopes_text scopes)) = granted_scopes scopes"
proof (cases "\<forall>s \<in> set scopes. py_strip s = []")
  case True
  then have "filter (\<lambda>s. py_strip s \<noteq> []) scopes = []" by (auto simp: filter_empty_conv)
  then have "clean_scopes scopes = []" by (simp add: clean_scopes_def)
  moreover have "py_lower ` set (scope_list ''read'') = {''read''}" by code_simp
  ultimately show ?thesis using True assms by (simp add: granted_scopes_def scopes_text_def)
next
  case False
  then have ne: "clean_scopes scopes \<noteq> []" using clean_scopes_set [of scopes] by fastforce
  have "\<forall>s \<in> set (clean_scopes scopes). s \<noteq> []" by (auto simp: clean_scopes_set py_lower_Nil)
  with ne have "join '','' (clean_scopes scopes) \<noteq> []" using join_Nil_iff by blast
  then have "set (scope_list (scopes_text scopes)) =
      (\<Union>c \<in> set (clean_scopes scopes). set (map py_strip (split_on CHR '','' c))) - {[]}"
    using ne by (auto simp: scopes_text_def scope_list_def split_on_joined)
  also have "\<dots> = \<Union> (scope_words ` {s \<in> set scopes. py_strip s \<noteq> []})"
    unfolding clean_scopes_set scope_words_def by blast
  also have "\<dots> = \<Union> (scope_words ` set scopes)"
    using scope_words_blank by blast
  finally have words: "set (scope_list (scopes_text scopes)) = \<Union> (scope_words ` set scopes)" .
  have "py_lower w = w" if w: "w \<in> scope_words s" for w s
  proof -
    obtain p where p: "w = py_strip p" "p \<in> set (split_on CHR '','' (py_lower (py_strip s)))"
      using w by (auto simp: scope_words_def)
    then have "set w \<subseteq> set (py_lower (py_strip s))" using split_on_set strip_set by blast
    then show ?thesis by (rule lowered_kept)
  qed
  then have "py_lower ` \<Union> (scope_words ` set scopes) = \<Union> (scope_words ` set scopes)" by force
  with words show ?thesis unfolding granted_scopes_def using False assms by (simp only: if_False)
qed

lemma scope_list_text:
  "py_lower ` set (scope_list (scopes_text (if scopes = [] then [''read'', ''write''] else scopes))) = granted_scopes scopes"
proof (cases "scopes = []")
  case True
  have "py_lower ` set (scope_list (scopes_text [''read'', ''write''])) = {''read'', ''write''}" by code_simp
  with True show ?thesis by (simp add: granted_scopes_def)
qed (simp add: scope_list_text_set)

section \<open>One key\<close>

lemma strip_free: "\<forall>c \<in> set s. \<not> py_isspace c \<Longrightarrow> py_strip s = s"
proof -
  assume "\<forall>c \<in> set s. \<not> py_isspace c"
  then have "dropWhile py_isspace s = s" "dropWhile py_isspace (rev s) = rev s"
    by (cases "s = []"; simp add: dropWhile_eq_self_iff hd_rev)+
  then show "py_strip s = s" by (simp add: py_strip_def py_lstrip_def)
qed

lemma clean_new_key:
  assumes "\<forall>c \<in> set entropy. \<not> py_isspace c"
  shows "clean_key (key_prefix @ entropy) = key_prefix @ entropy" "py_strip (key_prefix @ entropy) = key_prefix @ entropy"
proof -
  have "\<forall>c \<in> set key_prefix. \<not> py_isspace c" by code_simp
  then show s: "py_strip (key_prefix @ entropy) = key_prefix @ entropy" using assms by (intro strip_free) auto
  show "clean_key (key_prefix @ entropy) = key_prefix @ entropy" by (simp add: clean_key_def Let_def s) (simp add: key_prefix_def)
qed

definition alive :: "nat \<Rightarrow> api_key \<Rightarrow> bool" where
  "alive t k \<longleftrightarrow> (case ak_expires k of None \<Rightarrow> True | Some d \<Rightarrow> int t \<le> d)"

lemma verify_key_found:
  assumes "raw \<noteq> []" "find (\<lambda>k. ak_hash k = hash_api_key digest (clean_key raw) \<and> ak_active k) ks = Some k"
  shows "fst (verify_key digest t raw (Some r) ks) =
    (if alive t k \<and> (r = [] \<or> grants (scope_list (ak_scopes k)) r) then Some k else None)"
  using assms by (auto simp: verify_key_def get_by_hash_def alive_def split: option.splits)

lemma verify_key_unknown:
  "find (\<lambda>k. ak_hash k = hash_api_key digest (clean_key raw) \<and> ak_active k) ks = None \<Longrightarrow> fst (verify_key digest t raw q ks) = None"
  by (simp add: verify_key_def get_by_hash_def)

lemma verify_key_same:
  "find (\<lambda>k. ak_hash k = hash_api_key digest (clean_key raw) \<and> ak_active k) ks =
   find (\<lambda>k. ak_hash k = hash_api_key digest (clean_key raw) \<and> ak_active k) ks' \<Longrightarrow>
   fst (verify_key digest t raw q ks) = fst (verify_key digest t raw q ks')"
  by (auto simp: verify_key_def get_by_hash_def split: option.splits)

text \<open>
  A moment is in time for a new key: it is not after the expiry that was asked for, read as UTC, or the hours
  or else the days after its creation, or the key has none of them.
\<close>

definition in_time :: "nat \<Rightarrow> int option \<Rightarrow> int option \<Rightarrow> moment option \<Rightarrow> nat \<Rightarrow> bool" where
  "in_time now days hours deadline t \<longleftrightarrow>
     (\<forall>m. deadline = Some m \<longrightarrow> int t \<le> mo_wall m) \<and>
     (\<forall>h > 0. deadline = None \<and> hours = Some h \<longrightarrow> int t \<le> int now + 3600 * h) \<and>
     (\<forall>d > 0. deadline = None \<and> (\<forall>h. hours = Some h \<longrightarrow> h \<le> 0) \<and> days = Some d \<longrightarrow> int t \<le> int now + 86400 * d)"

lemma expiry_in_time:
  "(case map_option mo_wall (expiry now days hours deadline) of None \<Rightarrow> True | Some d \<Rightarrow> int t \<le> d) \<longleftrightarrow>
   in_time now days hours deadline t"
  by (cases deadline; cases hours; cases days) (auto simp: expiry_def in_time_def Let_def)

text \<open>
  C11. A new key is good for what it was made for, and for nothing else. Whoever shows the returned text gets
  the key for a required scope exactly as long as the expiry that was asked for (in hours, in days, or as a wall
  clock time of UTC) has not passed and the scopes that were given (\<open>granted_scopes\<close>) permit the required one. Once
  the key is revoked the text is worth nothing. Any text with another digest is judged as before the creation.
  The digest has no spaces at its ends (SHA-256 in hexadecimal), nor has the random text of the key.
\<close>

theorem key_lifecycle:
  assumes "generate_key digest now new entropy name scopes days hours deadline ks = Some ((raw, k), ks')"
    and "\<And>s. py_strip (digest s) = digest s" "\<forall>c \<in> set entropy. \<not> py_isspace c"
  shows "fst (verify_key digest t raw (Some r) ks') =
      (if in_time now days hours deadline t \<and> (r = [] \<or> permits (granted_scopes scopes) r) then Some k else None) \<and>
    fst (verify_key digest t raw q (snd (revoke_key_row new ks'))) = None \<and>
    (hash_api_key digest (clean_key other) \<noteq> ak_hash k \<longrightarrow>
       fst (verify_key digest t other q ks') = fst (verify_key digest t other q ks))"
proof -
  have raw: "raw = key_prefix @ entropy" and new: "new \<notin> ak_id ` set ks" "ak_hash k \<notin> ak_hash ` set ks" and ks': "ks' = k # ks"
    and k: "ak_id k = new" "ak_hash k = digest raw" "ak_active k"
      "ak_scopes k = scopes_text (if scopes = [] then [''read'', ''write''] else scopes)"
      "ak_expires k = map_option mo_wall (expiry now days hours deadline)"
    using assms(1,2) clean_new_key(2) [OF assms(3)]
    by (auto simp: generate_key_def create_key_row_def Let_def hash_api_key_def split: if_splits)
  have ne: "raw \<noteq> []" by (simp add: raw key_prefix_def)
  have h: "hash_api_key digest (clean_key raw) = ak_hash k"
    using clean_new_key [OF assms(3)] by (simp add: raw hash_api_key_def k(2))
  have "alive t k = in_time now days hours deadline t"
    using expiry_in_time by (simp add: alive_def k(5))
  moreover have "grants (scope_list (ak_scopes k)) r = permits (granted_scopes scopes) r"
    by (simp only: grants_permits k(4) scope_list_text)
  ultimately have "fst (verify_key digest t raw (Some r) ks') =
      (if in_time now days hours deadline t \<and> (r = [] \<or> permits (granted_scopes scopes) r) then Some k else None)"
    using verify_key_found [OF ne, of digest ks' k t r] h k(3) by (simp add: ks')
  moreover have "fst (verify_key digest t raw q (snd (revoke_key_row new ks'))) = None"
  proof (rule verify_key_unknown)
    have "ak_hash x \<noteq> ak_hash k \<or> \<not> ak_active x" if "x \<in> set (snd (revoke_key_row new ks'))" for x
      using that new k(1) by (auto simp: revoke_key_row_def get_key_by_id_def ks' intro: rev_image_eqI split: if_splits)
    then show "find (\<lambda>x. ak_hash x = hash_api_key digest (clean_key raw) \<and> ak_active x) (snd (revoke_key_row new ks')) = None"
      unfolding h find_None_iff by blast
  qed
  moreover have "fst (verify_key digest t other q ks') = fst (verify_key digest t other q ks)"
    if "hash_api_key digest (clean_key other) \<noteq> ak_hash k"
    by (rule verify_key_same) (use that in \<open>simp add: ks'\<close>)
  ultimately show ?thesis by blast
qed

definition sample_digest :: "string \<Rightarrow> string" where
  "sample_digest s = (if s = ''altr_live_abc'' then ''0f'' else ''a1'')"

text \<open>A key for one hour, with a text of two scopes.\<close>

lemma key_lifecycle_witness:
  "\<exists>raw k ks'. generate_key sample_digest 0 ''i'' ''abc'' ''n'' ['' Write, audit''] None (Some 1) None [] = Some ((raw, k), ks') \<and>
     fst (verify_key sample_digest 3600 raw (Some ''read'') ks') = Some k \<and>
     fst (verify_key sample_digest 3601 raw (Some ''read'') ks') = None \<and>
     fst (verify_key sample_digest 3600 raw (Some ''admin'') ks') = None \<and>
     fst (verify_key sample_digest 3600 raw (Some ''read'') (snd (revoke_key_row ''i'' ks'))) = None"
proof -
  let ?made = "generate_key sample_digest 0 ''i'' ''abc'' ''n'' ['' Write, audit''] None (Some 1) None []"
  have "?made \<noteq> None" by code_simp
  then obtain raw k ks' where made: "?made = Some ((raw, k), ks')" by auto
  have strip: "py_strip (sample_digest s) = sample_digest s" for s
  proof -
    have "py_strip ''0f'' = ''0f''" "py_strip ''a1'' = ''a1''" by code_simp+
    then show ?thesis by (simp add: sample_digest_def)
  qed
  have "\<forall>c \<in> set ''abc''. \<not> py_isspace c" by code_simp
  note life = key_lifecycle [OF made strip this]
  have "permits (granted_scopes ['' Write, audit'']) ''read''" "\<not> permits (granted_scopes ['' Write, audit'']) ''admin''"
    by code_simp+
  moreover have "in_time 0 None (Some 1) None 3600" "\<not> in_time 0 None (Some 1) None 3601" by (auto simp: in_time_def)
  ultimately show ?thesis using life made by auto
qed

text \<open>
  The offset of a zone is lost: an expiry at five o'clock in a zone five hours ahead of UTC, which is midnight of
  UTC, is kept as five o'clock of UTC, so that the key is good for five hours too long.
\<close>

lemma expiry_offset_lost:
  "(let m = \<lparr>mo_wall = 18000, mo_offset = Some 18000\<rparr>;
        made = the (generate_key sample_digest 0 ''i'' ''abc'' ''n'' [] None None (Some m) [])
    in to_utc m = 0 \<and> fst (verify_key sample_digest 18000 (fst (fst made)) (Some ''write'') (snd made)) \<noteq> None)"
  by code_simp

section \<open>The playground\<close>

text \<open>
  The scopes of a key are looked at in the mode \<open>write\<close> only, which the client chooses and which a source
  that is not MongoDB refuses: no SQL statement is ever stopped by the scopes of a key.
\<close>

lemma playground_scope_vacuous:
  assumes "get_source_by_id st sid = Some src" "src_type src \<noteq> MONGODB"
  shows "mode \<noteq> Some ''write'' \<longrightarrow> playground_execute L drv st key sid query mode = playground_execute L drv st None sid query mode"
    "\<exists>e. fst (playground_execute L drv st key sid query (Some ''write'')) = Inl e"
proof -
  show "mode \<noteq> Some ''write'' \<longrightarrow> playground_execute L drv st key sid query mode = playground_execute L drv st None sid query mode"
    by (simp add: playground_execute_def)
  have "py_strip ''write'' \<noteq> []" by code_simp
  then show "\<exists>e. fst (playground_execute L drv st key sid query (Some ''write'')) = Inl e"
    using assms by (simp add: playground_execute_def execute_query_def prepare_query_def)
qed

section \<open>Ways around the keys\<close>

text \<open>
  A header that every client can send replaces the key, for every scope; and when the last active key is
  revoked or deleted, the interface is open again, although the comment speaks of keys that were ever registered.
\<close>

lemma dashboard_header_opens:
  "ah_client h = Some ''web-dashboard'' \<Longrightarrow> require_scope digest enforced now scope h ks = (Inr None, ks) \<and> may_write None"
  by (simp add: require_scope_def may_write_def)

lemma no_active_key_opens:
  "list_all (\<lambda>k. \<not> ak_active k) ks \<Longrightarrow> require_scope digest False now scope h ks = (Inr None, ks)"
  by (simp add: require_scope_def count_active_def filter_empty_conv list_all_iff)

end
