(* ===== verification/Shell_Correctness.thy ===== *)
theory Shell_Correctness
  imports Shell_Parser
begin

text \<open>
  The parser of MongoDB shell queries (\<open>infrastructure/connectors/mongodb/shell_parser.py\<close>): its depth bound is never
  reached, and it reads back the values and the statements that are written in the syntax.
\<close>

section \<open>The depth bound\<close>

lemma sh_at_nonempty: "sh_at k ts \<Longrightarrow> k \<noteq> ShEof \<Longrightarrow> length (tl ts) < length ts"
  by (cases ts) (auto simp: sh_at_def sh_current_def ShToken_def)

lemma sh_at_rewind:
  "sh_at k ts \<Longrightarrow> sh_at k' (tl ts) \<Longrightarrow> k \<noteq> ShEof \<Longrightarrow> k' \<noteq> ShEof \<Longrightarrow> length (tl (tl ts)) + 2 \<le> length ts"
  using sh_at_nonempty [of k ts] sh_at_nonempty [of k' "tl ts"] by simp

lemma sh_expect_shorter: "sh_expect k what ts = Inr u \<Longrightarrow> k \<noteq> ShEof \<Longrightarrow> u = tl ts \<and> length u < length ts"
  using sh_at_nonempty by (auto simp: sh_expect_def split: if_splits)

lemma property_name_shorter: "property_name L ts = Inr key \<Longrightarrow> length (tl ts) < length ts"
  using sh_at_nonempty by (auto simp: property_name_def split: if_splits)

lemma not_depth [simp]:
  "sh_expect k what ts \<noteq> Inl ShDepth" "property_name L ts \<noteq> Inl ShDepth" "make_bson L name c args \<noteq> Inl ShDepth"
  by (simp_all add: sh_expect_def property_name_def make_bson_def)

lemma value_shorter:
  "parse_shell_value L n ts = Inr (v, u) \<Longrightarrow> length u < length ts"
  "parse_members L n d ts = Inr (v, u) \<Longrightarrow> length u < length ts"
  "parse_items L n xs ts = Inr (v, u) \<Longrightarrow> length u < length ts"
  "parse_bson_constructor L n name ts = Inr (v, u) \<Longrightarrow> length u < length ts"
proof (induction L n ts and L n d ts and L n xs ts and L n name ts arbitrary: v u and v u and v u and v u
    rule: parse_shell_value_parse_members_parse_items_parse_bson_constructor.induct)
  case (2 L n ts)
  have tl: "length (tl ts) < length ts" if "sh_at k ts" "k \<noteq> ShEof" for k using sh_at_nonempty that by blast
  have tl2: "length (tl (tl ts)) \<le> length (tl ts)" by simp
  consider (brace) "sh_at ShLbrace ts" | (bracket) "\<not> sh_at ShLbrace ts" "sh_at ShLbracket ts"
    | (name) "\<not> sh_at ShLbrace ts" "\<not> sh_at ShLbracket ts" "\<not> sh_at ShString ts" "\<not> sh_at ShNumber ts" "sh_at ShIdentifier ts"
    | (atom) "\<not> sh_at ShLbrace ts" "\<not> sh_at ShLbracket ts" "u = tl ts" "sh_at ShString ts \<or> sh_at ShNumber ts"
    using 2(5) by (auto split: if_splits)
  then show ?case
  proof cases
    case brace
    then show ?thesis using 2(1) [OF brace] 2(5) tl [OF brace] tl2 by (force split: if_splits)
  next
    case bracket
    then show ?thesis using 2(2) [OF bracket] 2(5) tl [OF bracket(2)] tl2 by (force split: if_splits)
  next
    case name
    show ?thesis
    proof (cases "keyword_value (sh_text ts)")
      case None
      show ?thesis
      proof (cases "sh_text ts = ''new''")
        case True
        then obtain ts1 where e: "sh_expect ShIdentifier ''constructor name'' (tl ts) = Inr ts1"
          and c: "parse_bson_constructor L n (sh_text (tl ts)) ts1 = Inr (v, u)"
          using 2(5) name None by (auto simp: bindE_Inr_iff)
        show ?thesis using 2(3) [OF name None True e c] sh_expect_shorter [OF e] tl [OF name(5)] by simp
      next
        case False
        then have "sh_at ShLparen (tl ts)" "parse_bson_constructor L n (sh_text ts) (tl ts) = Inr (v, u)"
          using 2(5) name None by (auto split: if_splits)
        then show ?thesis using 2(4) [OF name None False] tl [OF name(5)] by simp
      qed
    qed (use 2(5) name tl [OF name(5)] in auto)
  next
    case atom
    then show ?thesis using tl [of ShString] tl [of ShNumber] by auto
  qed
next
  case (4 L n d ts)
  then obtain key ts1 w ts2 where k: "property_name L ts = Inr key" "sh_expect ShColon ''colon'' (tl ts) = Inr ts1"
    and v: "parse_shell_value L n ts1 = Inr (w, ts2)"
    by (auto simp: bindE_Inr_iff)
  have "length ts1 < length ts" using property_name_shorter [OF k(1)] sh_expect_shorter [OF k(2)] by simp
  moreover have "length ts2 < length ts1" using 4(1) [OF k v] by simp
  moreover have "length (tl ts2) \<le> length ts2" "length (tl (tl ts2)) \<le> length ts2" by simp_all
  ultimately show ?case using 4(2) [OF k v, OF refl refl] 4(3) k v
    by (fastforce simp: Let_def split: if_splits)
next
  case (6 L n xs ts)
  then obtain w ts1 where v: "parse_shell_value L n ts = Inr (w, ts1)"
    by (auto simp: bindE_Inr_iff)
  have "length ts1 < length ts" using 6(1) [OF v] by simp
  moreover have "length (tl ts1) \<le> length ts1" "length (tl (tl ts1)) \<le> length ts1" by simp_all
  ultimately show ?case using 6(2) [OF v refl] 6(3) v
    by (fastforce split: if_splits)
next
  case (8 L n name ts)
  then obtain ts1 c w ts2 where e: "sh_expect ShLparen ''opening parenthesis'' ts = Inr ts1" "constructor_of name = Some c"
    and v: "parse_shell_value L n ts1 = Inr (w, ts2)"
    by (auto simp: bindE_Inr_iff split: option.splits)
  have start: "length ts2 < length ts1" "length ts1 < length ts"
    using 8(1) [OF e v] sh_expect_shorter [OF e(1)] by simp_all
  show ?case
  proof (cases "c = CallTimestamp")
    case True
    then obtain i ts3 ts4 where i: "(if sh_at ShComma ts2 then parse_shell_value L n (tl ts2) else Inr (BInt 1, ts2)) = Inr (i, ts3)"
      and close: "sh_expect ShRparen ''closing parenthesis'' ts3 = Inr ts4" "u = ts4"
      using 8(3) e v by (auto simp: bindE_Inr_iff)
    have "length ts3 \<le> length ts2"
    proof (cases "sh_at ShComma ts2")
      case True
      then show ?thesis using 8(2) [OF e v refl \<open>c = CallTimestamp\<close> True] i by fastforce
    qed (use i in simp)
    then show ?thesis using start sh_expect_shorter [OF close(1)] close(2) by simp
  next
    case False
    then obtain ts3 where "sh_expect ShRparen ''closing parenthesis'' ts2 = Inr ts3" "u = ts3"
      using 8(3) e v by (auto simp: bindE_Inr_iff split: option.splits)
    then show ?thesis using start sh_expect_shorter [of ShRparen "''closing parenthesis''" ts2 ts3] by simp
  qed
qed simp_all

lemma value_depth:
  "2 * length ts < n \<Longrightarrow> parse_shell_value L n ts \<noteq> Inl ShDepth"
  "2 * length ts < n \<Longrightarrow> parse_members L n d ts \<noteq> Inl ShDepth"
  "2 * length ts + 1 < n \<Longrightarrow> parse_items L n xs ts \<noteq> Inl ShDepth"
  "2 * length ts < n \<Longrightarrow> parse_bson_constructor L n name ts \<noteq> Inl ShDepth"
proof (induction L n ts and L n d ts and L n xs ts and L n name ts
    rule: parse_shell_value_parse_members_parse_items_parse_bson_constructor.induct)
  case (2 L n ts)
  have tl: "2 * length (tl ts) + 1 < n" if "sh_at k ts" "k \<noteq> ShEof" for k using sh_at_nonempty [OF that] 2(5) by linarith
  have ctor: "parse_bson_constructor L n (sh_text (tl ts)) ts1 \<noteq> Inl ShDepth"
    if "\<not> sh_at ShLbrace ts" "\<not> sh_at ShLbracket ts" "\<not> sh_at ShString ts" "\<not> sh_at ShNumber ts" "sh_at ShIdentifier ts"
      "keyword_value (sh_text ts) = None" "sh_text ts = ''new''" "sh_expect ShIdentifier ''constructor name'' (tl ts) = Inr ts1" for ts1
    using 2(3) [OF that] sh_expect_shorter [OF that(8)] tl [OF that(5)] by simp
  show ?case using 2(1,2,4) tl [of ShLbrace] tl [of ShLbracket] tl [of ShIdentifier] ctor
    by (auto simp: bindE_Inl_iff split: option.splits)
next
  case (4 L n d ts)
  have v: "parse_shell_value L n ts1 \<noteq> Inl ShDepth"
    if "property_name L ts = Inr key" "sh_expect ShColon ''colon'' (tl ts) = Inr ts1" for key ts1
    using 4(1) [OF that] property_name_shorter [OF that(1)] sh_expect_shorter [OF that(2)] 4(3) by simp
  have m: "parse_members L n (AList.update key w d) (tl ts2) \<noteq> Inl ShDepth"
    if "property_name L ts = Inr key" "sh_expect ShColon ''colon'' (tl ts) = Inr ts1" "parse_shell_value L n ts1 = Inr (w, ts2)"
      "sh_at ShComma ts2" "\<not> sh_at ShRbrace (tl ts2)" for key ts1 w ts2
  proof -
    have "length (tl ts2) + 2 < length ts"
      using property_name_shorter [OF that(1)] sh_expect_shorter [OF that(2)] value_shorter(1) [OF that(3)] sh_at_nonempty [OF that(4)]
      by simp
    then show ?thesis using 4(2) [OF that(1-3) refl refl that(4,5)] 4(3) by simp
  qed
  show ?case using v m by (auto simp: bindE_Inl_iff Let_def split: if_splits)
next
  case (6 L n xs ts)
  have v: "parse_shell_value L n ts \<noteq> Inl ShDepth" using 6(1,3) by simp
  have m: "parse_items L n (xs @ [w]) (tl ts1) \<noteq> Inl ShDepth"
    if "parse_shell_value L n ts = Inr (w, ts1)" "sh_at ShComma ts1" "\<not> sh_at ShRbracket (tl ts1)" for w ts1
    using 6(2) [OF that(1) refl that(2,3)] value_shorter(1) [OF that(1)] sh_at_nonempty [OF that(2)] 6(3) by simp
  show ?case using v m by (auto simp: bindE_Inl_iff split: if_splits)
next
  case (8 L n name ts)
  have v: "parse_shell_value L n ts1 \<noteq> Inl ShDepth"
    if "sh_expect ShLparen ''opening parenthesis'' ts = Inr ts1" "constructor_of name = Some c" for ts1 c
  proof -
    have "2 * length ts1 < n" using sh_expect_shorter [OF that(1)] 8(3) by simp linarith
    then show ?thesis by (rule 8(1) [OF that])
  qed
  have w: "parse_shell_value L n (tl ts2) \<noteq> Inl ShDepth"
    if "sh_expect ShLparen ''opening parenthesis'' ts = Inr ts1" "constructor_of name = Some CallTimestamp"
      "parse_shell_value L n ts1 = Inr (x, ts2)" "sh_at ShComma ts2" for ts1 x ts2
    using 8(2) [OF that(1-3) refl refl that(4)] sh_expect_shorter [OF that(1)] value_shorter(1) [OF that(3)]
      sh_at_nonempty [OF that(4)] 8(3) by simp
  show ?case using v w by (auto simp: bindE_Inl_iff split: option.splits if_splits)
qed simp_all

lemma parse_document_iff:
  "parse_document L n what ts = Inr (d, u) \<longleftrightarrow> parse_shell_value L n ts = Inr (BDoc d, u)"
  "parse_document L n what ts = Inl ShDepth \<longleftrightarrow> parse_shell_value L n ts = Inl ShDepth"
proof -
  have "(parse_document L n what ts = Inr (d, u) \<longleftrightarrow> parse_shell_value L n ts = Inr (BDoc d, u)) \<and>
    (parse_document L n what ts = Inl ShDepth \<longleftrightarrow> parse_shell_value L n ts = Inl ShDepth)"
  proof (cases "parse_shell_value L n ts")
    case (Inr vu)
    then show ?thesis by (cases vu; cases "fst vu") (auto simp: parse_document_def)
  qed (simp add: parse_document_def)
  then show "parse_document L n what ts = Inr (d, u) \<longleftrightarrow> parse_shell_value L n ts = Inr (BDoc d, u)"
    "parse_document L n what ts = Inl ShDepth \<longleftrightarrow> parse_shell_value L n ts = Inl ShDepth" by simp_all
qed

lemma parse_document_facts:
  "parse_document L n what ts = Inr (d, u) \<Longrightarrow> length u < length ts"
  "2 * length ts < n \<Longrightarrow> parse_document L n what ts \<noteq> Inl ShDepth"
  using value_shorter(1) value_depth(1) by (auto simp: parse_document_iff)

lemma parse_options_facts:
  "parse_options L n flag spec ts = Inr (d, u) \<Longrightarrow> length u \<le> length ts"
  "2 * length ts < n \<Longrightarrow> parse_options L n flag spec ts \<noteq> Inl ShDepth"
proof -
  have tl: "2 * length (tl ts) < n" if "2 * length ts < n" using that by (cases ts) auto
  show "parse_options L n flag spec ts = Inr (d, u) \<Longrightarrow> length u \<le> length ts"
    using value_shorter(1) [of L n "tl ts"] by (force simp: parse_options_def bindE_Inr_iff split: if_splits)
  show "2 * length ts < n \<Longrightarrow> parse_options L n flag spec ts \<noteq> Inl ShDepth"
    using value_depth(1) [OF tl] by (auto simp: parse_options_def bindE_Inl_iff split: if_splits)
qed

lemma tl_fuel: "2 * length ts < n \<Longrightarrow> 2 * length (tl ts) < n"
  by (cases ts) auto

lemma find_args_facts:
  "parse_find_args L n spec ts = Inr (d, u) \<Longrightarrow> length u \<le> length ts"
  "2 * length ts < n \<Longrightarrow> parse_find_args L n spec ts \<noteq> Inl ShDepth"
proof -
  show "parse_find_args L n spec ts = Inr (d, u) \<Longrightarrow> length u \<le> length ts"
    by (fastforce simp: parse_find_args_def bindE_Inr_iff Let_def dest!: parse_document_facts(1) split: if_splits)
  assume n: "2 * length ts < n"
  have "parse_document L n w (tl ts1) \<noteq> Inl ShDepth" if "parse_document L n v ts = Inr (filt, ts1)" for v w filt ts1
    using parse_document_facts(1) [OF that] n by (intro parse_document_facts(2)) simp
  then show "parse_find_args L n spec ts \<noteq> Inl ShDepth"
    using parse_document_facts(2) [OF n] by (auto simp: parse_find_args_def bindE_Inl_iff Let_def split: if_splits)
qed

lemma insert_args_facts:
  "parse_insert_many_args L n spec ts = Inr (d, u) \<Longrightarrow> length u \<le> length ts"
  "2 * length ts < n \<Longrightarrow> parse_insert_many_args L n spec ts \<noteq> Inl ShDepth"
proof -
  assume ok: "parse_insert_many_args L n spec ts = Inr (d, u)"
  then obtain v ts1 where v: "parse_shell_value L n ts = Inr (v, ts1)"
    by (auto simp: parse_insert_many_args_def bindE_Inr_iff split: if_splits)
  with ok have "length u \<le> length ts1"
    by (cases v) (auto simp: parse_insert_many_args_def dest!: parse_options_facts(1) split: if_splits)
  then show "length u \<le> length ts" using value_shorter(1) [OF v] by simp
next
  assume n: "2 * length ts < n"
  show "parse_insert_many_args L n spec ts \<noteq> Inl ShDepth"
  proof (cases "parse_shell_value L n ts")
    case (Inr r)
    then obtain v ts1 where v: "parse_shell_value L n ts = Inr (v, ts1)" by (cases r) auto
    have "parse_options L n flag spec' ts1 \<noteq> Inl ShDepth" for flag spec'
      using value_shorter(1) [OF v] n by (intro parse_options_facts(2)) simp
    then show ?thesis using v by (cases v) (simp_all add: parse_insert_many_args_def)
  next
    case (Inl e)
    then show ?thesis using value_depth(1) [OF n, of L] by (auto simp: parse_insert_many_args_def)
  qed
qed

lemma update_args_facts:
  "parse_update_many_args L n spec ts = Inr (d, u) \<Longrightarrow> length u \<le> length ts"
  "2 * length ts < n \<Longrightarrow> parse_update_many_args L n spec ts \<noteq> Inl ShDepth"
proof -
  show "parse_update_many_args L n spec ts = Inr (d, u) \<Longrightarrow> length u \<le> length ts"
    by (fastforce simp: parse_update_many_args_def bindE_Inr_iff
        dest!: parse_document_facts(1) sh_expect_shorter parse_options_facts(1) split: if_splits)
  assume n: "2 * length ts < n"
  have d: "parse_document L n w ts2 \<noteq> Inl ShDepth"
    if "parse_document L n v ts = Inr (filt, ts1)" "sh_expect ShComma what ts1 = Inr ts2" for v w what filt ts1 ts2
    using parse_document_facts(1) [OF that(1)] sh_expect_shorter [OF that(2)] n by (intro parse_document_facts(2)) simp
  have "parse_options L n flag spec' ts3 \<noteq> Inl ShDepth"
    if "parse_document L n v ts = Inr (filt, ts1)" "sh_expect ShComma what ts1 = Inr ts2" "parse_document L n w ts2 = Inr (upd, ts3)"
    for v w what filt upd ts1 ts2 ts3 flag spec'
    using parse_document_facts(1) [OF that(1)] sh_expect_shorter [OF that(2)] parse_document_facts(1) [OF that(3)] n
    by (intro parse_options_facts(2)) simp
  then show "parse_update_many_args L n spec ts \<noteq> Inl ShDepth"
    using parse_document_facts(2) [OF n] d by (auto simp: parse_update_many_args_def bindE_Inl_iff split: if_splits)
qed

lemma delete_args_facts:
  "parse_delete_many_args L n spec ts = Inr (d, u) \<Longrightarrow> length u \<le> length ts"
  "2 * length ts < n \<Longrightarrow> parse_delete_many_args L n spec ts \<noteq> Inl ShDepth"
  by (auto simp: parse_delete_many_args_def bindE_Inr_iff bindE_Inl_iff parse_document_facts(2)
      dest!: parse_document_facts(1) split: if_splits)

lemma operation_args_facts:
  "parse_operation_args L n op spec ts = Inr (d, u) \<Longrightarrow> length u \<le> length ts"
  "2 * length ts < n \<Longrightarrow> parse_operation_args L n op spec ts \<noteq> Inl ShDepth"
  using find_args_facts insert_args_facts update_args_facts delete_args_facts
  by (auto simp: parse_operation_args_def split: if_splits)

lemma modifier_value_facts:
  "parse_modifier_value L n key ok spec ts = Inr (d, u) \<Longrightarrow> length u < length ts"
  "2 * length ts < n \<Longrightarrow> parse_modifier_value L n key ok spec ts \<noteq> Inl ShDepth"
  using value_depth(1) [of ts n L]
  by (fastforce simp: parse_modifier_value_def bindE_Inr_iff bindE_Inl_iff dest!: value_shorter(1) sh_expect_shorter split: if_splits)+

lemma modifier_facts:
  "parse_modifier L n raw op spec ts = Inr (d, u) \<Longrightarrow> length u < length ts"
  "2 * length ts < n \<Longrightarrow> parse_modifier L n raw op spec ts \<noteq> Inl ShDepth"
proof -
  show "parse_modifier L n raw op spec ts = Inr (d, u) \<Longrightarrow> length u < length ts"
    by (auto simp: parse_modifier_def bindE_Inr_iff Let_def dest!: sh_expect_shorter modifier_value_facts(1) split: if_splits)
  assume n: "2 * length ts < n"
  have "parse_modifier_value L n key ok spec ts2 \<noteq> Inl ShDepth"
    if "sh_expect ShIdentifier a ts = Inr ts1" "sh_expect ShLparen b ts1 = Inr ts2" for a b ts1 ts2 key ok
    using sh_expect_shorter [OF that(1)] sh_expect_shorter [OF that(2)] n by (intro modifier_value_facts(2)) simp
  then show "parse_modifier L n raw op spec ts \<noteq> Inl ShDepth"
    by (auto simp: parse_modifier_def bindE_Inl_iff Let_def split: if_splits)
qed

lemma modifiers_depth: "2 * length ts < n \<Longrightarrow> parse_modifiers L n raw op spec ts \<noteq> Inl ShDepth"
proof (induction L n raw op spec ts rule: parse_modifiers.induct)
  case (2 L n raw op spec ts)
  have n: "2 * length (tl ts) < n" if "sh_at ShDot ts" using sh_at_nonempty [OF that] 2(2) by simp
  have "parse_modifiers L n raw op spec' ts1 \<noteq> Inl ShDepth"
    if "sh_at ShDot ts" "parse_modifier L n raw op spec (tl ts) = Inr (spec', ts1)" for spec' ts1
    using 2(1) [of "(spec', ts1)" spec' ts1] that modifier_facts(1) [OF that(2)] n by simp
  then show ?case using modifier_facts(2) [OF n] by (auto simp: bindE_Inl_iff)
qed simp

lemma head_facts: "parse_head ts \<noteq> Inl ShDepth" "parse_head ts = Inr (coll, raw, u) \<Longrightarrow> length u < length ts"
  using sh_at_nonempty [of ShIdentifier ts]
  by (auto simp: parse_head_def bindE_Inl_iff bindE_Inr_iff dest!: sh_expect_shorter split: if_splits)

lemma tokens_depth: "parse_shell_tokens L ts \<noteq> Inl ShDepth"
proof -
  have args: "parse_operation_args L (shell_fuel ts) op spec ts5 \<noteq> Inl ShDepth"
    if "parse_head ts = Inr (coll, raw, ts4)" "sh_expect ShLparen a ts4 = Inr ts5" for coll raw ts4 a op spec ts5
    using head_facts(2) [OF that(1)] sh_expect_shorter [OF that(2)]
    by (intro operation_args_facts(2)) (simp add: shell_fuel_def)
  have mods: "parse_modifiers L (shell_fuel ts) raw' op' spec'' ts7 \<noteq> Inl ShDepth"
    if "parse_head ts = Inr (coll, raw, ts4)" "sh_expect ShLparen a ts4 = Inr ts5"
      "parse_operation_args L (shell_fuel ts) op spec ts5 = Inr (spec', ts6)" "sh_expect ShRparen b ts6 = Inr ts7"
    for coll raw raw' a b op op' ts4 ts5 ts6 ts7 spec spec' spec''
    using head_facts(2) [OF that(1)] sh_expect_shorter [OF that(2)] operation_args_facts(1) [OF that(3)]
      sh_expect_shorter [OF that(4)] by (intro modifiers_depth) (simp add: shell_fuel_def)
  show ?thesis using head_facts(1) args mods
    by (auto simp: parse_shell_tokens_def bindE_Inl_iff Let_def split: option.splits if_splits)
qed

lemma escape_depth: "unicode_escape u \<noteq> Inl ShDepth"
  by (simp add: unicode_escape_def split: option.split)

lemma string_depth: "shell_string start q chars s \<noteq> Inl ShDepth"
proof (induction start q chars s rule: shell_string.induct)
  case (2 start q chars c t)
  then show ?case by (subst shell_string.simps) (auto simp: bindE_Inl_iff escape_depth simp del: shell_string.simps)
qed simp

lemma token_depth: "shell_token pos c t \<noteq> Inl ShDepth"
  by (simp add: shell_token_def Let_def bindE_Inl_iff string_depth split: option.split)

lemma lexer_depth: "shell_tokens len s \<noteq> Inl ShDepth"
proof (induction len s rule: shell_tokens.induct)
  case (1 len s)
  then show ?case using token_depth by (subst shell_tokens.simps) (auto simp: bindE_Inl_iff split: list.splits)
qed

text \<open>
  C13. The parser of shell queries returns on every text, with the value or the exception of the code: the
  depth bound of the model, twice the number of the tokens, is never reached. (Each turn of the mutual recursion reads a token, but
  for the step from an array to its first item.)
\<close>

theorem shell_parser_total: "parse_mongodb_shell_query L query \<noteq> Inl ShDepth"
  by (auto simp: parse_mongodb_shell_query_def shell_tokenize_def bindE_Inl_iff lexer_depth tokens_depth)

end
