(* ===== verification/Spec2Isabelle.thy ===== *)
theory Spec2Isabelle
  imports Builtin_Lowerers Supervisor_Correctness Execution_Correctness Access_Correctness Shell_Correctness
begin

text \<open>
  A verification library for the core of Altr Stream (\<open>src/src/altr_stream\<close>), a server that lets one query
  language, AltrQL, read and change several databases through logical models. Paths below are relative to
  that directory.

  THE PROGRAM. A query text goes through the lexer, the parser, the semantic validator and the normalizer
  (\<open>query_engine/parser\<close>, \<open>semantic\<close>). If it is asked on a logical model, the planner
  (\<open>query_engine/planning\<close>) asks the registry (\<open>application/registry_service.py\<close>) for the active mappings of
  the entity, selects the sources that cover the query, and for each of them the resolver replaces logical by
  physical names (\<open>binding/logical_resolver.py\<close>), the binder checks the query against the schema of the source
  (\<open>binding\<close>), the classifier decides whether it must be confirmed (\<open>classification\<close>), and the lowerer of
  the dialect writes parameterized text (\<open>lowering\<close>). The results are merged
  (\<open>planning/merger.py\<close>). The registry keeps models, mappings, sources and schemas in a metadata store
  (\<open>infrastructure/database\<close>). The endpoints (\<open>presentation/api/routes\<close>) check the key of a request, run this
  path, and hand what it wrote to the query service, which also takes native queries. Beside the server, a supervisor on the host (\<open>supervisor/supervisor.py\<close>)
  carries out updates of the container with automatic rollback, with the versions and states of \<open>domain\<close>.

  CONVENTIONS. A method that raises returns \<open>error + 'a\<close> (\<open>Inl\<close> the exception); Python's \<open>None\<close> is \<open>option\<close>;
  a pydantic model or dataclass is a \<open>record\<close>, an enum or a union a \<open>datatype\<close>; a \<open>dict\<close> whose order matters
  is an association list; Python's unbounded integers are \<open>int\<close> (\<open>nat\<close> where the code cannot produce a
  negative one); text is a list of code points below 256, with Python's character classes and case mappings on
  that range. Mutable state is passed explicitly: the lexer's cursor, the parser's position, the list of
  parameters of a lowerer, the metadata store, the trace of the supervisor. What the program takes from
  outside is an argument: fresh identifiers (\<open>uuid4\<close>), the answers of databases, connectors, containers and
  health endpoints. Time stamps are left out; a table that is read by recency holds the newest row first.

  THEORIES AND SOURCES.
  \<^item> \<open>Prelude\<close>, \<open>Numbers\<close>: results, loops over results, \<open>str\<close>, \<open>int\<close> and \<open>float\<close> of Python.
  \<^item> \<open>Ast\<close>: \<open>query_engine/domain/ast.py\<close>, \<open>operators.py\<close>, \<open>errors.py\<close>.
  \<^item> \<open>Lexer\<close>, \<open>Lexer_Roundtrip\<close>: \<open>parser/lexer.py\<close>, one definition per method; positions of tokens and errors;
    spelled tokens are read back.
  \<^item> \<open>Parser\<close>, \<open>Parser_Progress\<close>, \<open>Parser_Roundtrip\<close>, \<open>Parser_Shape\<close>: \<open>parser/parser.py\<close>, one definition per
    method. Loops and recursion take a bound on their depth; \<open>parse\<close> starts with five times the number of
    tokens plus five, and \<open>Parser_Progress\<close> proves that the bound is never reached on the lexer's output. The
    trees that the parser returns are exactly the printable ones, and printing and parsing are inverse.
  \<^item> \<open>Semantic\<close>: \<open>semantic/validator.py\<close>, \<open>normalizer.py\<close> and \<open>parse_altrql\<close>, the whole front end: totality,
    and the exact set of accepted queries.
  \<^item> \<open>Schema\<close>: \<open>domain/schema.py\<close>, \<open>logical.py\<close>, \<open>mapping.py\<close>; lookups and the compatibility of types.
  \<^item> \<open>Binding\<close>: \<open>domain/bound_ast.py\<close>, \<open>binding/resolver.py\<close>, \<open>type_validator.py\<close>, \<open>binder.py\<close>; binding succeeds
    exactly on typed queries, and erasing the annotations gives the query back.
  \<^item> \<open>Classification\<close>: \<open>classification\<close>; exactly an unconditional DELETE needs confirmation.
  \<^item> \<open>Logical_Resolution\<close>: \<open>binding/logical_resolver.py\<close>; physical names only, validity and output names kept.
  \<^item> \<open>Sql_Output\<close>, \<open>Postgres\<close>, \<open>Postgres_Statements\<close>: \<open>domain/physical_query.py\<close>, \<open>lowering/postgres.py\<close>;
    the numbering of placeholders, the grouping of inserted records.
  \<^item> \<open>Sql_Predicates\<close>, \<open>Sql_Semantics\<close>, \<open>Sql_Selection\<close>, \<open>Sql_Correctness\<close>: the specification of conditions from
    \<open>USAGE.md\<close> (two-valued, NULL-aware, dates as whole days), SQL's three-valued semantics of the lowered
    text over a database given by its laws (\<open>lawful_database\<close>), and the refinement between them, with the
    conditions for which it fails. \<open>Sql_Predicates\<close> is generic in the writer of parameters and columns.
  \<^item> \<open>Marked_Lowering\<close>, \<open>Marked_Predicates\<close>, \<open>Marked_Selection\<close>, \<open>Marked_Correctness\<close>: \<open>lowering/sqlite.py\<close> and
    \<open>mysql.py\<close>, one lowerer over the record \<open>sql_dialect\<close>; the same refinement, for values as the drivers encode
    them (\<open>through\<close>).
  \<^item> \<open>Mongo_Data\<close>, \<open>Mongo_Lowering\<close>, \<open>Mongo_Selection\<close>, \<open>Mongo_Correctness\<close>: calendar days, the commands, and
    \<open>lowering/mongodb.py\<close>; the meaning of filters and of the regular expressions that are written, and the
    refinement. Fields hold single values; a missing field is told from one that is null.
  \<^item> \<open>Lowering_Safety\<close>, \<open>Builtin_Lowerers\<close>: the interface \<open>value_free_lowerer\<close> (the text does not depend on the
    values), interpreted by the three SQL lowerers, and the agreement of the dialects.
  \<^item> \<open>Plan_Data\<close>, \<open>Planning\<close>: \<open>planning/models.py\<close>, \<open>selector.py\<close>, \<open>domain/source.py\<close>, \<open>connector.py\<close>, the limit
    pushdown of \<open>planner.py\<close>; selection depends on the set of candidates only.
  \<^item> \<open>Row_Order\<close>, \<open>Merging\<close>: \<open>planning/merger.py\<close>. The interface \<open>row_order\<close> states what a comparison promises to
    a stable sort; it is interpreted by the comparison of rows, and in \<open>Versions\<close> by the one of versions.
  \<^item> \<open>Registry_Store\<close>, \<open>Registry\<close>, \<open>Registry_Invariants\<close>, \<open>Registry_Validation\<close>: the tables and repositories of
    \<open>infrastructure/database\<close>, \<open>registry_service.py\<close>, \<open>source_service.py\<close>, \<open>schema_service.py\<close>; the 24 commands
    that change state as a step relation (\<open>history\<close>), its invariants, and what validation means. The foreign
    keys of SQLite are a flag of the store: without \<open>PRAGMA foreign_keys\<close> nothing cascades.
  \<^item> \<open>Federated_Planning\<close>, \<open>Federated_Correctness\<close>: \<open>planner.py\<close>, \<open>lowering/registry.py\<close>; which sources a plan
    reads, and that pushing limits down changes no result. A lowerer is any function from bound to physical
    queries.
  \<^item> \<open>Versions\<close>, \<open>Updates\<close>: \<open>domain/semver.py\<close>, \<open>domain/updates.py\<close>; the order of versions, the upgrade target.
  \<^item> \<open>Supervisor\<close>, \<open>Supervisor_Correctness\<close>: \<open>supervisor/supervisor.py\<close> as a function from the answers of the
    host to a trace of commands; outcomes, the path of states over histories with crashes, recovery. The
    polling of the health endpoint ends by its clock, the recreation of the service after three attempts.
  \<^item> \<open>Statement_Split\<close>, \<open>Shell_Lexer\<close>, \<open>Shell_Parser\<close>, \<open>Shell_Correctness\<close>: native queries: the gate that lets one
    statement through (\<open>domain/query_validation.py\<close>), and the lexer and parser of MongoDB shell text
    (\<open>connectors/mongodb/shell_parser.py\<close>). The parser takes a bound on its depth, twice the number of tokens plus
    one, which is proved never to be reached.
  \<^item> \<open>Access\<close>, \<open>Access_Correctness\<close>: API keys (\<open>api_key_service.py\<close>, \<open>api_key_repository.py\<close>, \<open>security.py\<close>,
    \<open>routes/auth_keys.py\<close>): the life of a key, and the requests that need none.
  \<^item> \<open>Query_Service\<close>: \<open>query_service.py\<close> and \<open>routes/queries.py\<close>; a run returns its result with the calls of
    drivers and the counts that it causes. A driver is any function of its call.
  \<^item> \<open>Execution\<close>, \<open>Planning_Routes\<close>, \<open>Execution_Correctness\<close>: \<open>routes/altrql.py\<close>, the composition of all the above
    from the text of a request to the calls and the response: which requests reach a database, with which
    call, and how the failures of sources are kept apart.

  NOT MODELLED. The routes of the registry and of sources and most transfer objects only convert objects
  and call the services above. The connectors and their introspection, sessions, migrations, encryption, the
  counters of usage in memory, feedback, web serving and the command line of the supervisor are I/O or calls
  of libraries. Of the supervisor, the regular expression that rewrites the compose file and the
  construction of command lines are left out.
\<close>

end
